(* ===== verification/Prelude.thy ===== *)
theory Prelude
  imports Main "HOL-Library.Char_ord" "HOL-Library.List_Lexorder"
begin

text \<open>
  Shared vocabulary of the development: the exception hierarchy of
  \<^verbatim>\<open>karmasakshi.errors\<close>, results that are an exception or a value, the
  state-and-exception monad in which the engine's handlers are written, and the
  facts on strings, decimal numerals, sorting and finite maps that several
  components use.

  An exception is represented by its class; the text of its message is not
  modelled.  A Python \<^verbatim>\<open>str\<close> is a \<^typ>\<open>string\<close>, so it ranges over the code
  points U+0000 to U+00FF.  Python's unbounded integers are \<^typ>\<open>int\<close>, and
  counters that start at zero and only grow are \<^typ>\<open>nat\<close>.
\<close>

section \<open>Collections of facts\<close>

named_theorems monad_simps "elimination of the state and exception monad"
named_theorems result_simps "elimination of results"
named_theorems step_frame "components of the state an operation leaves alone"

section \<open>Exceptions\<close>

datatype manifest_error =
    ManifestError
  | ManifestValidationError
  | ManifestTamperedError
  | SchemaVersionError

datatype crypto_error =
    CryptoError
  | UnknownKeyError
  | InvalidSignatureError
  | UnsupportedAlgorithmError
  | KeyLoadError

datatype grant_error =
    GrantError
  | GrantExpiredError
  | GrantNotYetValidError
  | GrantRevokedError
  | GrantExhaustedError
  | GrantManifestMismatchError
  | GrantAudienceError
  | GrantIssuerNotAuthorizedError

datatype delegation_error =
    DelegationError
  | DelegationLineageError
  | ConstraintWideningError
  | IncomparableConstraintError

datatype state_machine_error =
    StateMachineError
  | IllegalTransitionError

datatype precondition_error =
    PreconditionError
  | StaleManifestError

datatype store_error =
    StoreError
  | StoreUnavailableError
  | ConcurrentConsumptionError

datatype audit_error =
    AuditError
  | AuditWriteError
  | AuditTamperedError

datatype decision_envelope_error =
    DecisionEnvelopeError
  | DecisionEnvelopeIssuerNotAuthorizedError
  | DecisionEnvelopeConstraintError
  | DecisionEnvelopeSubstitutionError
  | DecisionEnvelopeTamperedError
  | DecisionEnvelopeMismatchError
  | DecisionEnvelopeNotYetValidError
  | DecisionEnvelopeExpiredError

datatype compensation_error =
    CompensationError
  | CompensationBindingError
  | CompensationNotAuthorizedError
  | CompensationPassportIntegrityError

datatype witness_error =
    WitnessError
  | WitnessIssuerNotAuthorizedError
  | WitnessExpiredError
  | WitnessBatchTooLargeError
  | WitnessQuorumNotMetError

datatype evidence_error =
    EvidenceError
  | EvidenceQualityError
  | EvidenceBatchTooLargeError

datatype authority_budget_error =
    AuthorityBudgetError
  | AuthorityBudgetExhaustedError

datatype saga_error =
    SagaError
  | SagaPlanError
  | SagaOrderingError
  | SagaIllegalTransitionError
  | SagaAmbiguousStepError
  | SagaGraphMismatchError

datatype policy_bundle_error =
    PolicyBundleError
  | PolicyBundleTamperedError
  | PolicyBundleNotYetEffectiveError
  | PolicyBundleExpiredError
  | PolicyBundleTypeMismatchError
  | PolicyBundleMismatchError
  | PolicyBundleIssuerNotAuthorizedError

datatype approval_error =
    ApprovalError
  | ApprovalIssuerNotAuthorizedError
  | ApprovalExpiredError
  | ApprovalBatchTooLargeError
  | QuorumNotMetError

datatype separation_of_duty_error =
    SeparationOfDutyError
  | SeparationOfDutyViolationError
  | RoleAssignmentError

datatype adapter_error =
    AdapterError
  | AdapterMismatchError
  | UntrustedAdapterError
  | AdapterConformanceError
  | UnsupportedCompensationError
  | BlastRadiusExceededError
  | RecipientNotAllowedError

datatype tenant_error =
    TenantError
  | UnknownTenantError
  | TenantIsolationError
  | InvalidOrganizationIdError

datatype resource_protection_error =
    ResourceProtectionError
  | RequestTooLargeError
  | RateLimitExceededError

datatype portable_evidence_error =
    PortableEvidenceError
  | EvidencePackAssemblyError
  | EvidencePackTooLargeError

datatype failure_memory_error =
    FailureMemoryError
  | FailureMemoryCorruptedError

datatype gateway_error =
    GatewayError
  | GatewayMigrationError
  | OrganizationNotFoundError
  | OrganizationAlreadyExistsError
  | OrganizationSuspendedError
  | GatewayUserNotFoundError
  | GatewayUserAlreadyExistsError
  | GatewayAgentNotFoundError
  | GatewayAgentAlreadyExistsError
  | GatewayAdapterNotFoundError
  | GatewayAdapterAlreadyExistsError
  | GatewayAuthenticationError
  | CrossOrganizationAccessError

text \<open>Everything a modelled function can raise: an error of the protocol, grouped
  by the class it derives from, one of the built-in exceptions the sources raise
  or let through, \<open>HTTPException\<close> with its status, or any other exception (for instance one of an adapter).
  pydantic's \<^verbatim>\<open>ValidationError\<close> and \<^verbatim>\<open>CanonicalizationError\<close> are
  subclasses of \<^verbatim>\<open>ValueError\<close>.\<close>

datatype exn =
    ManifestE manifest_error
  | CryptoE crypto_error
  | GrantE grant_error
  | DelegationE delegation_error
  | StateMachineE state_machine_error
  | PreconditionE precondition_error
  | StoreE store_error
  | AuditE audit_error
  | DecisionEnvelopeE decision_envelope_error
  | CompensationE compensation_error
  | WitnessE witness_error
  | EvidenceE evidence_error
  | AuthorityBudgetE authority_budget_error
  | SagaE saga_error
  | PolicyBundleE policy_bundle_error
  | ApprovalE approval_error
  | SeparationOfDutyE separation_of_duty_error
  | AdapterE adapter_error
  | TenantE tenant_error
  | ResourceProtectionE resource_protection_error
  | PortableEvidenceE portable_evidence_error
  | FailureMemoryE failure_memory_error
  | GatewayE gateway_error
  | CausalGraphError
  | AtomicPlanError
  | OutboxConflictError
  | ValueError
  | RuntimeError
  | KeyError
  | TypeError
  | HTTPException int
  | OtherError string

type_synonym 'a res = "exn + 'a"

text \<open>\<^verbatim>\<open>type(exc).__name__\<close>.\<close>

primrec manifest_error_name :: "manifest_error \<Rightarrow> string" where
  "manifest_error_name ManifestError = ''ManifestError''"
| "manifest_error_name ManifestValidationError = ''ManifestValidationError''"
| "manifest_error_name ManifestTamperedError = ''ManifestTamperedError''"
| "manifest_error_name SchemaVersionError = ''SchemaVersionError''"

primrec crypto_error_name :: "crypto_error \<Rightarrow> string" where
  "crypto_error_name CryptoError = ''CryptoError''"
| "crypto_error_name UnknownKeyError = ''UnknownKeyError''"
| "crypto_error_name InvalidSignatureError = ''InvalidSignatureError''"
| "crypto_error_name UnsupportedAlgorithmError = ''UnsupportedAlgorithmError''"
| "crypto_error_name KeyLoadError = ''KeyLoadError''"

primrec grant_error_name :: "grant_error \<Rightarrow> string" where
  "grant_error_name GrantError = ''GrantError''"
| "grant_error_name GrantExpiredError = ''GrantExpiredError''"
| "grant_error_name GrantNotYetValidError = ''GrantNotYetValidError''"
| "grant_error_name GrantRevokedError = ''GrantRevokedError''"
| "grant_error_name GrantExhaustedError = ''GrantExhaustedError''"
| "grant_error_name GrantManifestMismatchError = ''GrantManifestMismatchError''"
| "grant_error_name GrantAudienceError = ''GrantAudienceError''"
| "grant_error_name GrantIssuerNotAuthorizedError = ''GrantIssuerNotAuthorizedError''"

primrec delegation_error_name :: "delegation_error \<Rightarrow> string" where
  "delegation_error_name DelegationError = ''DelegationError''"
| "delegation_error_name DelegationLineageError = ''DelegationLineageError''"
| "delegation_error_name ConstraintWideningError = ''ConstraintWideningError''"
| "delegation_error_name IncomparableConstraintError = ''IncomparableConstraintError''"

primrec state_machine_error_name :: "state_machine_error \<Rightarrow> string" where
  "state_machine_error_name StateMachineError = ''StateMachineError''"
| "state_machine_error_name IllegalTransitionError = ''IllegalTransitionError''"

primrec precondition_error_name :: "precondition_error \<Rightarrow> string" where
  "precondition_error_name PreconditionError = ''PreconditionError''"
| "precondition_error_name StaleManifestError = ''StaleManifestError''"

primrec store_error_name :: "store_error \<Rightarrow> string" where
  "store_error_name StoreError = ''StoreError''"
| "store_error_name StoreUnavailableError = ''StoreUnavailableError''"
| "store_error_name ConcurrentConsumptionError = ''ConcurrentConsumptionError''"

primrec audit_error_name :: "audit_error \<Rightarrow> string" where
  "audit_error_name AuditError = ''AuditError''"
| "audit_error_name AuditWriteError = ''AuditWriteError''"
| "audit_error_name AuditTamperedError = ''AuditTamperedError''"

primrec decision_envelope_error_name :: "decision_envelope_error \<Rightarrow> string" where
  "decision_envelope_error_name DecisionEnvelopeError = ''DecisionEnvelopeError''"
| "decision_envelope_error_name DecisionEnvelopeIssuerNotAuthorizedError = ''DecisionEnvelopeIssuerNotAuthorizedError''"
| "decision_envelope_error_name DecisionEnvelopeConstraintError = ''DecisionEnvelopeConstraintError''"
| "decision_envelope_error_name DecisionEnvelopeSubstitutionError = ''DecisionEnvelopeSubstitutionError''"
| "decision_envelope_error_name DecisionEnvelopeTamperedError = ''DecisionEnvelopeTamperedError''"
| "decision_envelope_error_name DecisionEnvelopeMismatchError = ''DecisionEnvelopeMismatchError''"
| "decision_envelope_error_name DecisionEnvelopeNotYetValidError = ''DecisionEnvelopeNotYetValidError''"
| "decision_envelope_error_name DecisionEnvelopeExpiredError = ''DecisionEnvelopeExpiredError''"

primrec compensation_error_name :: "compensation_error \<Rightarrow> string" where
  "compensation_error_name CompensationError = ''CompensationError''"
| "compensation_error_name CompensationBindingError = ''CompensationBindingError''"
| "compensation_error_name CompensationNotAuthorizedError = ''CompensationNotAuthorizedError''"
| "compensation_error_name CompensationPassportIntegrityError = ''CompensationPassportIntegrityError''"

primrec witness_error_name :: "witness_error \<Rightarrow> string" where
  "witness_error_name WitnessError = ''WitnessError''"
| "witness_error_name WitnessIssuerNotAuthorizedError = ''WitnessIssuerNotAuthorizedError''"
| "witness_error_name WitnessExpiredError = ''WitnessExpiredError''"
| "witness_error_name WitnessBatchTooLargeError = ''WitnessBatchTooLargeError''"
| "witness_error_name WitnessQuorumNotMetError = ''WitnessQuorumNotMetError''"

primrec evidence_error_name :: "evidence_error \<Rightarrow> string" where
  "evidence_error_name EvidenceError = ''EvidenceError''"
| "evidence_error_name EvidenceQualityError = ''EvidenceQualityError''"
| "evidence_error_name EvidenceBatchTooLargeError = ''EvidenceBatchTooLargeError''"

primrec authority_budget_error_name :: "authority_budget_error \<Rightarrow> string" where
  "authority_budget_error_name AuthorityBudgetError = ''AuthorityBudgetError''"
| "authority_budget_error_name AuthorityBudgetExhaustedError = ''AuthorityBudgetExhaustedError''"

primrec saga_error_name :: "saga_error \<Rightarrow> string" where
  "saga_error_name SagaError = ''SagaError''"
| "saga_error_name SagaPlanError = ''SagaPlanError''"
| "saga_error_name SagaOrderingError = ''SagaOrderingError''"
| "saga_error_name SagaIllegalTransitionError = ''SagaIllegalTransitionError''"
| "saga_error_name SagaAmbiguousStepError = ''SagaAmbiguousStepError''"
| "saga_error_name SagaGraphMismatchError = ''SagaGraphMismatchError''"

primrec policy_bundle_error_name :: "policy_bundle_error \<Rightarrow> string" where
  "policy_bundle_error_name PolicyBundleError = ''PolicyBundleError''"
| "policy_bundle_error_name PolicyBundleTamperedError = ''PolicyBundleTamperedError''"
| "policy_bundle_error_name PolicyBundleNotYetEffectiveError = ''PolicyBundleNotYetEffectiveError''"
| "policy_bundle_error_name PolicyBundleExpiredError = ''PolicyBundleExpiredError''"
| "policy_bundle_error_name PolicyBundleTypeMismatchError = ''PolicyBundleTypeMismatchError''"
| "policy_bundle_error_name PolicyBundleMismatchError = ''PolicyBundleMismatchError''"
| "policy_bundle_error_name PolicyBundleIssuerNotAuthorizedError = ''PolicyBundleIssuerNotAuthorizedError''"

primrec approval_error_name :: "approval_error \<Rightarrow> string" where
  "approval_error_name ApprovalError = ''ApprovalError''"
| "approval_error_name ApprovalIssuerNotAuthorizedError = ''ApprovalIssuerNotAuthorizedError''"
| "approval_error_name ApprovalExpiredError = ''ApprovalExpiredError''"
| "approval_error_name ApprovalBatchTooLargeError = ''ApprovalBatchTooLargeError''"
| "approval_error_name QuorumNotMetError = ''QuorumNotMetError''"

primrec separation_of_duty_error_name :: "separation_of_duty_error \<Rightarrow> string" where
  "separation_of_duty_error_name SeparationOfDutyError = ''SeparationOfDutyError''"
| "separation_of_duty_error_name SeparationOfDutyViolationError = ''SeparationOfDutyViolationError''"
| "separation_of_duty_error_name RoleAssignmentError = ''RoleAssignmentError''"

primrec adapter_error_name :: "adapter_error \<Rightarrow> string" where
  "adapter_error_name AdapterError = ''AdapterError''"
| "adapter_error_name AdapterMismatchError = ''AdapterMismatchError''"
| "adapter_error_name UntrustedAdapterError = ''UntrustedAdapterError''"
| "adapter_error_name AdapterConformanceError = ''AdapterConformanceError''"
| "adapter_error_name UnsupportedCompensationError = ''UnsupportedCompensationError''"
| "adapter_error_name BlastRadiusExceededError = ''BlastRadiusExceededError''"
| "adapter_error_name RecipientNotAllowedError = ''RecipientNotAllowedError''"

primrec tenant_error_name :: "tenant_error \<Rightarrow> string" where
  "tenant_error_name TenantError = ''TenantError''"
| "tenant_error_name UnknownTenantError = ''UnknownTenantError''"
| "tenant_error_name TenantIsolationError = ''TenantIsolationError''"
| "tenant_error_name InvalidOrganizationIdError = ''InvalidOrganizationIdError''"

primrec resource_protection_error_name :: "resource_protection_error \<Rightarrow> string" where
  "resource_protection_error_name ResourceProtectionError = ''ResourceProtectionError''"
| "resource_protection_error_name RequestTooLargeError = ''RequestTooLargeError''"
| "resource_protection_error_name RateLimitExceededError = ''RateLimitExceededError''"

primrec portable_evidence_error_name :: "portable_evidence_error \<Rightarrow> string" where
  "portable_evidence_error_name PortableEvidenceError = ''PortableEvidenceError''"
| "portable_evidence_error_name EvidencePackAssemblyError = ''EvidencePackAssemblyError''"
| "portable_evidence_error_name EvidencePackTooLargeError = ''EvidencePackTooLargeError''"

primrec failure_memory_error_name :: "failure_memory_error \<Rightarrow> string" where
  "failure_memory_error_name FailureMemoryError = ''FailureMemoryError''"
| "failure_memory_error_name FailureMemoryCorruptedError = ''FailureMemoryCorruptedError''"

primrec gateway_error_name :: "gateway_error \<Rightarrow> string" where
  "gateway_error_name GatewayError = ''GatewayError''"
| "gateway_error_name GatewayMigrationError = ''GatewayMigrationError''"
| "gateway_error_name OrganizationNotFoundError = ''OrganizationNotFoundError''"
| "gateway_error_name OrganizationAlreadyExistsError = ''OrganizationAlreadyExistsError''"
| "gateway_error_name OrganizationSuspendedError = ''OrganizationSuspendedError''"
| "gateway_error_name GatewayUserNotFoundError = ''GatewayUserNotFoundError''"
| "gateway_error_name GatewayUserAlreadyExistsError = ''GatewayUserAlreadyExistsError''"
| "gateway_error_name GatewayAgentNotFoundError = ''GatewayAgentNotFoundError''"
| "gateway_error_name GatewayAgentAlreadyExistsError = ''GatewayAgentAlreadyExistsError''"
| "gateway_error_name GatewayAdapterNotFoundError = ''GatewayAdapterNotFoundError''"
| "gateway_error_name GatewayAdapterAlreadyExistsError = ''GatewayAdapterAlreadyExistsError''"
| "gateway_error_name GatewayAuthenticationError = ''GatewayAuthenticationError''"
| "gateway_error_name CrossOrganizationAccessError = ''CrossOrganizationAccessError''"

primrec exn_name :: "exn \<Rightarrow> string" where
  "exn_name (ManifestE e) = manifest_error_name e"
| "exn_name (CryptoE e) = crypto_error_name e"
| "exn_name (GrantE e) = grant_error_name e"
| "exn_name (DelegationE e) = delegation_error_name e"
| "exn_name (StateMachineE e) = state_machine_error_name e"
| "exn_name (PreconditionE e) = precondition_error_name e"
| "exn_name (StoreE e) = store_error_name e"
| "exn_name (AuditE e) = audit_error_name e"
| "exn_name (DecisionEnvelopeE e) = decision_envelope_error_name e"
| "exn_name (CompensationE e) = compensation_error_name e"
| "exn_name (WitnessE e) = witness_error_name e"
| "exn_name (EvidenceE e) = evidence_error_name e"
| "exn_name (AuthorityBudgetE e) = authority_budget_error_name e"
| "exn_name (SagaE e) = saga_error_name e"
| "exn_name (PolicyBundleE e) = policy_bundle_error_name e"
| "exn_name (ApprovalE e) = approval_error_name e"
| "exn_name (SeparationOfDutyE e) = separation_of_duty_error_name e"
| "exn_name (AdapterE e) = adapter_error_name e"
| "exn_name (TenantE e) = tenant_error_name e"
| "exn_name (ResourceProtectionE e) = resource_protection_error_name e"
| "exn_name (PortableEvidenceE e) = portable_evidence_error_name e"
| "exn_name (FailureMemoryE e) = failure_memory_error_name e"
| "exn_name (GatewayE e) = gateway_error_name e"
| "exn_name CausalGraphError = ''CausalGraphError''"
| "exn_name AtomicPlanError = ''AtomicPlanError''"
| "exn_name OutboxConflictError = ''OutboxConflictError''"
| "exn_name ValueError = ''ValueError''"
| "exn_name RuntimeError = ''RuntimeError''"
| "exn_name KeyError = ''KeyError''"
| "exn_name TypeError = ''TypeError''"
| "exn_name (HTTPException c) = ''HTTPException''"
| "exn_name (OtherError n) = n"

text \<open>\<^verbatim>\<open>isinstance(exc, KarmaSakshiError)\<close>.\<close>

definition is_ks :: "exn \<Rightarrow> bool" where
  "is_ks x = (case x of ValueError \<Rightarrow> False | RuntimeError \<Rightarrow> False | KeyError \<Rightarrow> False
    | TypeError \<Rightarrow> False | HTTPException _ \<Rightarrow> False | OtherError _ \<Rightarrow> False | _ \<Rightarrow> True)"

section \<open>Results\<close>

fun bindR :: "'a res \<Rightarrow> ('a \<Rightarrow> 'b res) \<Rightarrow> 'b res" where
  "bindR (Inl e) f = Inl e"
| "bindR (Inr x) f = f x"

definition thenR :: "'a res \<Rightarrow> 'b res \<Rightarrow> 'b res" where
  "thenR r k = bindR r (\<lambda>_. k)"

definition raise_if :: "bool \<Rightarrow> exn \<Rightarrow> unit res" where
  "raise_if c e = (if c then Inl e else Inr ())"

text \<open>Checks made one after the other; the first that raises decides.\<close>

fun allR :: "unit res list \<Rightarrow> unit res" where
  "allR [] = Inr ()"
| "allR (r # rs) = thenR r (allR rs)"

fun is_ok :: "'a res \<Rightarrow> bool" where
  "is_ok (Inl _) = False"
| "is_ok (Inr _) = True"

lemma bindR_Inr_iff [result_simps]: "bindR r f = Inr y \<longleftrightarrow> (\<exists>x. r = Inr x \<and> f x = Inr y)"
  by (cases r) auto

lemma bindR_Inl_iff [result_simps]:
  "bindR r f = Inl e \<longleftrightarrow> r = Inl e \<or> (\<exists>x. r = Inr x \<and> f x = Inl e)"
  by (cases r) auto

lemma thenR_Inr_iff [result_simps]: "thenR r k = Inr y \<longleftrightarrow> is_ok r \<and> k = Inr y"
  by (cases r) (auto simp: thenR_def)

lemma thenR_Inl_iff [result_simps]: "thenR r k = Inl e \<longleftrightarrow> r = Inl e \<or> is_ok r \<and> k = Inl e"
  by (cases r) (auto simp: thenR_def)

lemma raise_if_Inr_iff [result_simps]: "raise_if c e = Inr u \<longleftrightarrow> \<not> c"
  by (simp add: raise_if_def)

lemma raise_if_Inl_iff [result_simps]: "raise_if c e = Inl e' \<longleftrightarrow> c \<and> e' = e"
  by (auto simp: raise_if_def)

lemma is_ok_iff: "is_ok r \<longleftrightarrow> (\<exists>x. r = Inr x)"
  by (cases r) auto

lemma is_ok_unit: "is_ok (r :: unit res) \<longleftrightarrow> r = Inr ()"
  by (cases r) auto

lemma is_ok_raise_if [simp]: "is_ok (raise_if c e) \<longleftrightarrow> \<not> c"
  by (simp add: raise_if_def)

lemma is_ok_thenR [simp]: "is_ok (thenR r k) \<longleftrightarrow> is_ok r \<and> is_ok k"
  by (cases r) (auto simp: thenR_def)

lemma is_ok_bindR [simp]: "is_ok (bindR r f) \<longleftrightarrow> (\<exists>x. r = Inr x \<and> is_ok (f x))"
  by (cases r) auto

lemma is_ok_allR [simp]: "is_ok (allR rs) \<longleftrightarrow> (\<forall>r \<in> set rs. is_ok r)"
  by (induction rs) auto

lemma not_ok_cases: "\<not> is_ok r \<longleftrightarrow> (\<exists>e. r = Inl e)"
  by (cases r) auto

section \<open>State and exceptions\<close>

text \<open>A handler takes the state to a result and a state: an exception does not
  undo what was done before it, as in Python.\<close>

type_synonym ('s, 'a) sem = "'s \<Rightarrow> 'a res \<times> 's"

definition ret :: "'a \<Rightarrow> ('s, 'a) sem" where
  "ret x = (\<lambda>s. (Inr x, s))"

definition raiseE :: "exn \<Rightarrow> ('s, 'a) sem" where
  "raiseE e = (\<lambda>s. (Inl e, s))"

definition bindE :: "('s, 'a) sem \<Rightarrow> ('a \<Rightarrow> ('s, 'b) sem) \<Rightarrow> ('s, 'b) sem" where
  "bindE m f = (\<lambda>s. case m s of (Inl e, s') \<Rightarrow> (Inl e, s') | (Inr x, s') \<Rightarrow> f x s')"

definition thenE :: "('s, 'a) sem \<Rightarrow> ('s, 'b) sem \<Rightarrow> ('s, 'b) sem" where
  "thenE m k = bindE m (\<lambda>_. k)"

definition liftR :: "'a res \<Rightarrow> ('s, 'a) sem" where
  "liftR r = (\<lambda>s. (r, s))"

definition getS :: "('s \<Rightarrow> 'a) \<Rightarrow> ('s, 'a) sem" where
  "getS f = (\<lambda>s. (Inr (f s), s))"

definition modS :: "('s \<Rightarrow> 's) \<Rightarrow> ('s, unit) sem" where
  "modS f = (\<lambda>s. (Inr (), f s))"

text \<open>\<^verbatim>\<open>try: m except E as e: handler; raise\<close> -- the handler runs on a caught
  exception, which is then raised again unless the handler raises itself.\<close>

definition on_error :: "(exn \<Rightarrow> bool) \<Rightarrow> (exn \<Rightarrow> ('s, unit) sem) \<Rightarrow> ('s, 'a) sem \<Rightarrow> ('s, 'a) sem" where
  "on_error p h m = (\<lambda>s. case m s of
      (Inl e, s') \<Rightarrow> (if p e then bindE (h e) (\<lambda>_. raiseE e) s' else (Inl e, s'))
    | (Inr x, s') \<Rightarrow> (Inr x, s'))"

fun seqE :: "('s, unit) sem list \<Rightarrow> ('s, unit) sem" where
  "seqE [] = ret ()"
| "seqE (m # ms) = thenE m (seqE ms)"

definition whenE :: "bool \<Rightarrow> ('s, unit) sem \<Rightarrow> ('s, unit) sem" where
  "whenE c m = (if c then m else ret ())"

lemma ret_iff [monad_simps]: "ret x s = (r, s') \<longleftrightarrow> r = Inr x \<and> s' = s"
  by (auto simp: ret_def)

lemma raiseE_iff [monad_simps]: "raiseE e s = (r, s') \<longleftrightarrow> r = Inl e \<and> s' = s"
  by (auto simp: raiseE_def)

lemma liftR_iff [monad_simps]: "liftR x s = (r, s') \<longleftrightarrow> r = x \<and> s' = s"
  by (auto simp: liftR_def)

lemma getS_iff [monad_simps]: "getS f s = (r, s') \<longleftrightarrow> r = Inr (f s) \<and> s' = s"
  by (auto simp: getS_def)

lemma modS_iff [monad_simps]: "modS f s = (r, s') \<longleftrightarrow> r = Inr () \<and> s' = f s"
  by (auto simp: modS_def)

lemma bindE_Inr_iff [monad_simps]:
  "bindE m f s = (Inr y, s'') \<longleftrightarrow> (\<exists>x s'. m s = (Inr x, s') \<and> f x s' = (Inr y, s''))"
  by (auto simp: bindE_def split: prod.splits sum.splits)

lemma bindE_Inl_iff [monad_simps]:
  "bindE m f s = (Inl e, s'') \<longleftrightarrow>
     m s = (Inl e, s'') \<or> (\<exists>x s'. m s = (Inr x, s') \<and> f x s' = (Inl e, s''))"
  by (auto simp: bindE_def split: prod.splits sum.splits)

lemma thenE_Inr_iff [monad_simps]:
  "thenE m k s = (Inr y, s'') \<longleftrightarrow> (\<exists>x s'. m s = (Inr x, s') \<and> k s' = (Inr y, s''))"
  by (simp add: thenE_def bindE_Inr_iff)

lemma thenE_Inl_iff [monad_simps]:
  "thenE m k s = (Inl e, s'') \<longleftrightarrow>
     m s = (Inl e, s'') \<or> (\<exists>x s'. m s = (Inr x, s') \<and> k s' = (Inl e, s''))"
  by (simp add: thenE_def bindE_Inl_iff)

lemma on_error_Inr_iff [monad_simps]: "on_error p h m s = (Inr x, s') \<longleftrightarrow> m s = (Inr x, s')"
  by (auto simp: on_error_def bindE_def raiseE_def split: prod.splits sum.splits)

lemma whenE_Inr_iff [monad_simps]:
  "whenE c m s = (Inr x, s') \<longleftrightarrow> (if c then m s = (Inr x, s') else s' = s)"
  by (auto simp: whenE_def ret_def)

text \<open>A relation between the states before and after that holds whatever the
  result: reflexive and transitive ones compose over the monad.\<close>

definition keeps :: "('s \<Rightarrow> 's \<Rightarrow> bool) \<Rightarrow> ('s, 'a) sem \<Rightarrow> bool" where
  "keeps R m \<longleftrightarrow> (\<forall>s. R s (snd (m s)))"

lemma keepsD: "keeps R m \<Longrightarrow> m s = (r, s') \<Longrightarrow> R s s'"
  by (metis keeps_def snd_conv)

lemma keepsI: "(\<And>s r s'. m s = (r, s') \<Longrightarrow> R s s') \<Longrightarrow> keeps R m"
  by (metis keeps_def surjective_pairing)

lemma keeps_bindE:
  assumes "transp R" "keeps R m" "\<And>x. keeps R (f x)"
  shows "keeps R (bindE m f)"
proof (rule keepsI)
  fix s r s'
  assume "bindE m f s = (r, s')"
  then show "R s s'"
    using keepsD [OF assms(2), of s] keepsD [OF assms(3)] transpD [OF assms(1)]
    by (fastforce simp: bindE_def split: prod.splits sum.splits)
qed

lemma keeps_thenE:
  assumes "transp R" "keeps R m" "keeps R k"
  shows "keeps R (thenE m k)"
  unfolding thenE_def using assms by (rule keeps_bindE)

lemma keeps_pure:
  assumes "reflp R"
  shows "keeps R (ret x)" "keeps R (raiseE e)" "keeps R (liftR q)" "keeps R (getS g)"
  using assms by (auto simp: keeps_def ret_def raiseE_def liftR_def getS_def reflpD)

lemma keeps_on_error:
  assumes "transp R" "reflp R" "keeps R m" "\<And>e. keeps R (h e)"
  shows "keeps R (on_error p h m)"
proof (rule keepsI)
  fix s r s'
  assume *: "on_error p h m s = (r, s')"
  have h: "keeps R (bindE (h e) (\<lambda>_. raiseE e))" for e
    using assms(1,4) by (rule keeps_bindE) (rule keeps_pure(2) [OF assms(2)])
  show "R s s'"
    using * keepsD [OF assms(3), of s] keepsD [OF h] transpD [OF assms(1)]
    by (fastforce simp: on_error_def split: prod.splits sum.splits if_splits)
qed

lemma keeps_whenE: "reflp R \<Longrightarrow> keeps R m \<Longrightarrow> keeps R (whenE c m)"
  by (simp add: whenE_def keeps_pure)

lemma keeps_seqE:
  assumes "transp R" "reflp R" "\<And>m. m \<in> set ms \<Longrightarrow> keeps R m"
  shows "keeps R (seqE ms)"
  using assms(3) by (induction ms) (auto simp: assms keeps_pure intro!: keeps_thenE)

text \<open>Triples: from a state with \<open>P\<close>, a result comes with \<open>Q\<close> and an exception with \<open>E\<close>.\<close>

definition hoare :: "('s \<Rightarrow> bool) \<Rightarrow> ('s, 'a) sem \<Rightarrow> ('a \<Rightarrow> 's \<Rightarrow> bool) \<Rightarrow> ('s \<Rightarrow> bool) \<Rightarrow> bool" where
  "hoare P m Q E \<longleftrightarrow> (\<forall>s. P s \<longrightarrow> (case m s of (Inl e, s') \<Rightarrow> E s' | (Inr x, s') \<Rightarrow> Q x s'))"

lemma hoareI:
  "(\<And>s x s'. P s \<Longrightarrow> m s = (Inr x, s') \<Longrightarrow> Q x s') \<Longrightarrow> (\<And>s e s'. P s \<Longrightarrow> m s = (Inl e, s') \<Longrightarrow> E s') \<Longrightarrow> hoare P m Q E"
  by (auto simp: hoare_def split: prod.splits sum.splits)

lemma hoare_Inr: "hoare P m Q E \<Longrightarrow> P s \<Longrightarrow> m s = (Inr x, s') \<Longrightarrow> Q x s'"
  by (auto simp: hoare_def dest!: spec [of _ s])

lemma hoare_Inl: "hoare P m Q E \<Longrightarrow> P s \<Longrightarrow> m s = (Inl e, s') \<Longrightarrow> E s'"
  by (auto simp: hoare_def dest!: spec [of _ s])

lemma hoare_weaken:
  "hoare P m Q E \<Longrightarrow> (\<And>s. P' s \<Longrightarrow> P s) \<Longrightarrow> (\<And>x s. Q x s \<Longrightarrow> Q' x s) \<Longrightarrow> (\<And>s. E s \<Longrightarrow> E' s) \<Longrightarrow> hoare P' m Q' E'"
  by (intro hoareI) (blast dest: hoare_Inr hoare_Inl)+

lemma hoare_bindE: "hoare P m Q E \<Longrightarrow> (\<And>x. hoare (Q x) (f x) Q' E) \<Longrightarrow> hoare P (bindE m f) Q' E"
  by (intro hoareI) (auto simp: monad_simps dest: hoare_Inr hoare_Inl)

lemma hoare_thenE: "hoare P m (\<lambda>_. Q) E \<Longrightarrow> hoare Q k Q' E \<Longrightarrow> hoare P (thenE m k) Q' E"
  unfolding thenE_def by (rule hoare_bindE)

lemma hoare_on_error:
  assumes "hoare P m Q F" "\<And>e. p e \<Longrightarrow> hoare F (h e) (\<lambda>_. E) E" "\<And>e s. \<not> p e \<Longrightarrow> F s \<Longrightarrow> E s"
  shows "hoare P (on_error p h m) Q E"
proof (rule hoareI)
  fix s x s'
  assume "P s" "on_error p h m s = (Inr x, s')"
  then show "Q x s'"
    using hoare_Inr [OF assms(1)] by (simp add: on_error_Inr_iff)
next
  fix s e s'
  assume s: "P s" "on_error p h m s = (Inl e, s')"
  then obtain e1 s1 where m: "m s = (Inl e1, s1)"
    by (auto simp: on_error_def split: prod.splits sum.splits)
  have F: "F s1" using hoare_Inl [OF assms(1) s(1) m] .
  show "E s'"
  proof (cases "p e1")
    case True
    then show ?thesis
      using s(2) m F hoare_Inr [OF assms(2) F] hoare_Inl [OF assms(2) F]
      by (auto simp: on_error_def bindE_def raiseE_def split: prod.splits sum.splits)
  next
    case False
    then show ?thesis using s(2) m F assms(3) by (simp add: on_error_def)
  qed
qed

lemma hoare_whenE: "(c \<Longrightarrow> hoare P m (\<lambda>_. Q) E) \<Longrightarrow> (\<And>s. \<not> c \<Longrightarrow> P s \<Longrightarrow> Q s) \<Longrightarrow> hoare P (whenE c m) (\<lambda>_. Q) E"
  by (auto simp: whenE_def hoare_def ret_def)

lemma hoare_ret: "(\<And>s. P s \<Longrightarrow> Q x s) \<Longrightarrow> hoare P (ret x) Q E"
  by (auto simp: hoare_def ret_def)

lemma hoare_raiseE: "(\<And>s. P s \<Longrightarrow> E s) \<Longrightarrow> hoare P (raiseE e) Q E"
  by (auto simp: hoare_def raiseE_def)

lemma hoare_getS: "(\<And>s. P s \<Longrightarrow> Q (f s) s) \<Longrightarrow> hoare P (getS f) Q E"
  by (auto simp: hoare_def getS_def)

text \<open>A computation that keeps a relation keeps what the relation preserves.\<close>

lemma hoare_keeps:
  assumes "keeps R m" "\<And>s s'. R s s' \<Longrightarrow> P s \<Longrightarrow> P s'"
  shows "hoare P m (\<lambda>_. P) P"
  using assms keepsD [OF assms(1)] by (intro hoareI) blast+

section \<open>Decimal numerals\<close>

definition digit_char :: "nat \<Rightarrow> char" where
  "digit_char d = char_of (48 + d)"

definition char_digit :: "char \<Rightarrow> nat" where
  "char_digit c = of_char c - 48"

fun nat_str :: "nat \<Rightarrow> string" where
  "nat_str n = (if n < 10 then [digit_char n] else nat_str (n div 10) @ [digit_char (n mod 10)])"

declare nat_str.simps [simp del]

definition int_str :: "int \<Rightarrow> string" where
  "int_str i = (if i < 0 then CHR ''-'' # nat_str (nat (- i)) else nat_str (nat i))"

definition nat_of_str :: "string \<Rightarrow> nat" where
  "nat_of_str = foldl (\<lambda>a c. 10 * a + char_digit c) 0"

lemma char_digit_digit [simp]: "d < 10 \<Longrightarrow> char_digit (digit_char d) = d"
  by (simp add: char_digit_def digit_char_def)

lemma nat_of_nat_str [simp]: "nat_of_str (nat_str n) = n"
proof (induction n rule: nat_str.induct)
  case (1 n)
  then show ?case
    by (cases "n < 10") (simp_all add: nat_str.simps [of n] nat_of_str_def)
qed

definition is_digit_char :: "char \<Rightarrow> bool" where
  "is_digit_char c \<longleftrightarrow> (48 :: nat) \<le> of_char c \<and> of_char c \<le> (57 :: nat)"

lemma nat_str_digits: "\<forall>c \<in> set (nat_str n). is_digit_char c"
proof (induction n rule: nat_str.induct)
  case (1 n)
  then show ?case
    by (subst nat_str.simps) (auto simp: is_digit_char_def digit_char_def)
qed

lemma nat_str_not_Nil [simp]: "nat_str n \<noteq> []"
  by (subst nat_str.simps) simp

lemma nat_str_inject [simp]: "nat_str m = nat_str n \<longleftrightarrow> m = n"
  by (metis nat_of_nat_str)

lemma nat_str_hd: "hd (nat_str n) \<noteq> CHR ''-''"
proof -
  have "is_digit_char (hd (nat_str n))"
    using nat_str_digits [of n] by simp
  then show ?thesis
    by (auto simp: is_digit_char_def)
qed

lemma int_str_inject [simp]: "int_str i = int_str j \<longleftrightarrow> i = j"
  using nat_str_hd by (auto simp: int_str_def split: if_splits) (metis list.sel(1))+

section \<open>Lists and maps\<close>

definition join :: "string \<Rightarrow> string list \<Rightarrow> string" where
  "join sep xs = (case xs of [] \<Rightarrow> [] | y # ys \<Rightarrow> y @ concat (map (\<lambda>z. sep @ z) ys))"

definition starts_with :: "string \<Rightarrow> string \<Rightarrow> bool" where
  "starts_with p s \<longleftrightarrow> take (length p) s = p"

text \<open>\<^verbatim>\<open>sorted(set(xs))\<close>.\<close>

definition sorted_set :: "string list \<Rightarrow> string list" where
  "sorted_set xs = sort (remdups xs)"

lemma set_sorted_set [simp]: "set (sorted_set xs) = set xs"
  by (simp add: sorted_set_def)

lemma distinct_sorted_set [simp]: "distinct (sorted_set xs)"
  by (simp add: sorted_set_def)

lemma sorted_sorted_set [simp]: "sorted (sorted_set xs)"
  by (simp add: sorted_set_def)

lemma sorted_set_eq_iff: "sorted_set xs = sorted_set ys \<longleftrightarrow> set xs = set ys"
  by (metis distinct_sorted_set set_sorted_set sorted_distinct_set_unique sorted_sorted_set)

text \<open>A truthy optional string, as tested by \<^verbatim>\<open>if x:\<close>.\<close>

fun truthy :: "string option \<Rightarrow> bool" where
  "truthy None = False"
| "truthy (Some s) = (s \<noteq> [])"

end
