(* ===== verification/Canonical.thy ===== *)
theory Canonical
  imports Prelude
begin

text \<open>
  Canonical serialization and hashing (\<^verbatim>\<open>canonical/serialize.py\<close>): the reduction of a
  Python value to a plain tree, the text \<^verbatim>\<open>json.dumps\<close> produces for it with sorted
  keys, compact separators and ASCII escapes, and the \<^verbatim>\<open>sha256:\<close> digest of that text.

  The main result is that the text determines the tree up to the order of object keys,
  so two values have the same canonical hash only if they are equal or SHA-256 collides
  on their texts.  SHA-256 itself is a parameter: the function from bytes to the hex
  digest.
\<close>

section \<open>Values and plain trees\<close>

datatype pyval =
    PyNone
  | PyBool bool
  | PyInt int
  | PyFloat
  | PyStr string
  | PySeq "pyval list"
  | PyMap "(string \<times> pyval) list"
  | PyOther

datatype json =
    JNull
  | JBool bool
  | JInt int
  | JStr string
  | JList "json list"
  | JObj "(string \<times> json) list"

text \<open>\<open>_to_plain\<close>: floats and values of any other type are refused.\<close>

fun seqR :: "'a res list \<Rightarrow> 'a list res" where
  "seqR [] = Inr []"
| "seqR (r # rs) = bindR r (\<lambda>x. bindR (seqR rs) (\<lambda>xs. Inr (x # xs)))"

fun to_plain :: "pyval \<Rightarrow> json res" where
  "to_plain PyNone = Inr JNull"
| "to_plain (PyBool b) = Inr (JBool b)"
| "to_plain (PyInt i) = Inr (JInt i)"
| "to_plain PyFloat = Inl ValueError"
| "to_plain (PyStr s) = Inr (JStr s)"
| "to_plain (PySeq xs) = bindR (seqR (map to_plain xs)) (\<lambda>ys. Inr (JList ys))"
| "to_plain (PyMap kvs) =
     bindR (seqR (map (\<lambda>(k, v). bindR (to_plain v) (\<lambda>w. Inr (k, w))) kvs)) (\<lambda>ys. Inr (JObj ys))"
| "to_plain PyOther = Inl ValueError"

section \<open>The text\<close>

definition hex_char :: "nat \<Rightarrow> char" where
  "hex_char d = (if d < 10 then char_of (48 + d) else char_of (87 + d))"

text \<open>\<^verbatim>\<open>ensure_ascii=True\<close>: printable ASCII except the quote and the backslash stands for
  itself.\<close>

definition json_escape :: "char \<Rightarrow> string" where
  "json_escape c =
     (if c = CHR 0x22 then [CHR 0x5C, CHR 0x22]
      else if c = CHR 0x5C then [CHR 0x5C, CHR 0x5C]
      else if c = CHR 0x0A then [CHR 0x5C, CHR ''n'']
      else if c = CHR 0x0D then [CHR 0x5C, CHR ''r'']
      else if c = CHR 0x09 then [CHR 0x5C, CHR ''t'']
      else if c = CHR 0x0C then [CHR 0x5C, CHR ''f'']
      else if c = CHR 0x08 then [CHR 0x5C, CHR ''b'']
      else let n = of_char c :: nat
           in if 0x20 \<le> n \<and> n \<le> 0x7E then [c]
              else [CHR 0x5C, CHR ''u'', CHR ''0'', CHR ''0'', hex_char (n div 16), hex_char (n mod 16)])"

definition json_string :: "string \<Rightarrow> string" where
  "json_string s = [CHR 0x22] @ concat (map json_escape s) @ [CHR 0x22]"

fun json_dumps :: "json \<Rightarrow> string" where
  "json_dumps JNull = ''null''"
| "json_dumps (JBool b) = (if b then ''true'' else ''false'')"
| "json_dumps (JInt i) = int_str i"
| "json_dumps (JStr s) = json_string s"
| "json_dumps (JList xs) = ''['' @ join '','' (map json_dumps xs) @ '']''"
| "json_dumps (JObj kvs) =
     ''{'' @ join '','' (map (\<lambda>(k, t). json_string k @ '':'' @ t)
                (sort_key fst (map (\<lambda>(k, v). (k, json_dumps v)) kvs))) @ ''}''"

definition canonical_json_bytes :: "json \<Rightarrow> string" where
  "canonical_json_bytes v = json_dumps v"

definition canonical_hash :: "(string \<Rightarrow> string) \<Rightarrow> json \<Rightarrow> string" where
  "canonical_hash sha v = ''sha256:'' @ sha (canonical_json_bytes v)"

definition digest_bytes :: "(string \<Rightarrow> string) \<Rightarrow> string \<Rightarrow> string" where
  "digest_bytes sha bs = ''sha256:'' @ sha bs"

section \<open>Trees with sorted keys\<close>

fun normal :: "json \<Rightarrow> json" where
  "normal (JList xs) = JList (map normal xs)"
| "normal (JObj kvs) = JObj (sort_key fst (map (\<lambda>(k, v). (k, normal v)) kvs))"
| "normal v = v"

text \<open>The same text without sorting; on a normal tree it is the canonical one.\<close>

fun dumps_in_order :: "json \<Rightarrow> string" where
  "dumps_in_order JNull = ''null''"
| "dumps_in_order (JBool b) = (if b then ''true'' else ''false'')"
| "dumps_in_order (JInt i) = int_str i"
| "dumps_in_order (JStr s) = json_string s"
| "dumps_in_order (JList xs) = ''['' @ join '','' (map dumps_in_order xs) @ '']''"
| "dumps_in_order (JObj kvs) =
     ''{'' @ join '','' (map (\<lambda>(k, v). json_string k @ '':'' @ dumps_in_order v) kvs) @ ''}''"

lemma insort_map_snd:
  "insort_key fst (k, f v) (map (\<lambda>(k, v). (k, f v)) kvs)
     = map (\<lambda>(k, v). (k, f v)) (insort_key fst (k, v) kvs)"
  by (induction kvs) auto

lemma sort_key_map_snd:
  "sort_key fst (map (\<lambda>(k, v). (k, f v)) kvs) = map (\<lambda>(k, v). (k, f v)) (sort_key fst kvs)"
proof (induction kvs)
  case (Cons kv kvs)
  then show ?case
    using insort_map_snd [of _ f _ "sort_key fst kvs"] by (cases kv) simp
qed simp

lemma json_dumps_normal: "json_dumps v = dumps_in_order (normal v)"
proof (induction v rule: json_dumps.induct)
  case (5 xs)
  then have "map json_dumps xs = map dumps_in_order (map normal xs)"
    by simp
  then show ?case
    by (simp only: json_dumps.simps normal.simps dumps_in_order.simps)
next
  case (6 kvs)
  then have "map (\<lambda>x. json_string (fst x) @ '':'' @ json_dumps (snd x)) (sort_key fst kvs)
      = map (\<lambda>x. json_string (fst x) @ '':'' @ dumps_in_order (normal (snd x))) (sort_key fst kvs)"
    by (intro map_cong) auto
  then show ?case
    by (auto simp: sort_key_map_snd split_beta comp_def intro!: arg_cong [of _ _ "join '',''"])
qed simp_all

section \<open>The text determines the tree\<close>

definition ends_value :: "string \<Rightarrow> bool" where
  "ends_value r \<longleftrightarrow> r = [] \<or> hd r \<in> {CHR '','', CHR '']'', CHR ''}''}"

lemma hex_char_inject: "d < 16 \<Longrightarrow> e < 16 \<Longrightarrow> hex_char d = hex_char e \<Longrightarrow> d = e"
  by (auto simp: hex_char_def split: if_splits dest!: arg_cong [of _ _ "of_char :: char \<Rightarrow> nat"])

lemma of_char_less: "(of_char c :: nat) < 256"
  by simp

lemma json_escape_hex_inject:
  assumes "hex_char ((of_char c :: nat) div 16) = hex_char (of_char d div 16)"
    "hex_char ((of_char c :: nat) mod 16) = hex_char (of_char d mod 16)"
  shows "c = d"
proof -
  have "(of_char c :: nat) div 16 = of_char d div 16"
    using assms(1) of_char_less [of c] of_char_less [of d]
    by (intro hex_char_inject) (simp_all add: less_mult_imp_div_less)
  moreover have "(of_char c :: nat) mod 16 = of_char d mod 16"
    using assms(2) by (intro hex_char_inject) simp_all
  ultimately have "(of_char c :: nat) = of_char d"
    by (metis mult_div_mod_eq)
  then show ?thesis by simp
qed

lemma json_escape_prefix: "json_escape c @ a = json_escape d @ b \<Longrightarrow> c = d \<and> a = b"
  by (auto simp: json_escape_def Let_def split: if_splits dest: json_escape_hex_inject)

lemma json_escape_head: "\<exists>x xs. json_escape c = x # xs \<and> x \<noteq> CHR 0x22"
  by (auto simp: json_escape_def Let_def)

lemma json_escapes_prefix:
  "concat (map json_escape s) @ CHR 0x22 # a = concat (map json_escape t) @ CHR 0x22 # b \<Longrightarrow>
     s = t \<and> a = b"
proof (induction s arbitrary: t)
  case Nil
  then show ?case
    using json_escape_head [of "hd t"] by (cases t) auto
next
  case (Cons c s)
  show ?case
  proof (cases t)
    case Nil
    then show ?thesis using Cons.prems json_escape_head [of c] by force
  next
    case (Cons d t')
    then have "json_escape c @ (concat (map json_escape s) @ CHR 0x22 # a)
        = json_escape d @ (concat (map json_escape t') @ CHR 0x22 # b)"
      using Cons.prems by simp
    from json_escape_prefix [OF this] show ?thesis
      using Cons.IH Cons by auto
  qed
qed

lemma json_string_prefix: "json_string s @ a = json_string t @ b \<Longrightarrow> s = t \<and> a = b"
  using json_escapes_prefix [of s a t b] by (simp add: json_string_def)

lemma json_string_inject [simp]: "json_string s = json_string t \<longleftrightarrow> s = t"
  using json_string_prefix [of s "[]" t "[]"] by auto

definition is_num_char :: "char \<Rightarrow> bool" where
  "is_num_char c \<longleftrightarrow> is_digit_char c \<or> c = CHR ''-''"

lemma int_str_num: "\<forall>c \<in> set (int_str i). is_num_char c"
  using nat_str_digits by (auto simp: int_str_def is_num_char_def)

lemma int_str_prefix:
  assumes "int_str i @ a = int_str j @ b" "ends_value a" "ends_value b"
  shows "i = j \<and> a = b"
proof -
  have t: "takeWhile is_num_char (int_str k @ r) = int_str k" if "ends_value r" for k r
    using int_str_num [of k] that
    by (cases r) (auto simp: ends_value_def is_num_char_def is_digit_char_def takeWhile_append)
  have "int_str i = int_str j"
    using t [OF assms(2), of i] t [OF assms(3), of j] assms(1) by simp
  then show ?thesis
    using assms(1) by simp
qed

text \<open>The items of an array or object, each with its separator, up to the closing
  bracket.\<close>

fun items_rest :: "('a \<Rightarrow> string) \<Rightarrow> char \<Rightarrow> 'a list \<Rightarrow> string" where
  "items_rest f z [] = [z]"
| "items_rest f z (x # xs) = CHR '','' # f x @ items_rest f z xs"

lemma join_items:
  "join '','' (map f xs) @ [z] @ r = (case xs of [] \<Rightarrow> z # r | y # ys \<Rightarrow> f y @ items_rest f z ys @ r)"
proof -
  have "concat (map ((@) '','' \<circ> f) ys) @ z # r = items_rest f z ys @ r" for ys
    by (induction ys) simp_all
  then show ?thesis
    by (simp add: join_def comp_def split: list.splits)
qed

lemma items_rest_ends: "z \<in> {CHR '']'', CHR ''}''} \<Longrightarrow> ends_value (items_rest f z xs @ r)"
  by (cases xs) (auto simp: ends_value_def)

lemma items_rest_prefix:
  assumes "\<And>x y a b. x \<in> set xs \<Longrightarrow> f x @ a = f y @ b \<Longrightarrow> ends_value a \<Longrightarrow> ends_value b \<Longrightarrow> x = y \<and> a = b"
    and "z \<in> {CHR '']'', CHR ''}''}"
  shows "items_rest f z xs @ a = items_rest f z ys @ b \<Longrightarrow> xs = ys \<and> a = b"
  using assms(1)
proof (induction xs arbitrary: ys)
  case Nil
  then show ?case using assms(2) by (cases ys) auto
next
  case (Cons x xs)
  show ?case
  proof (cases ys)
    case Nil
    then show ?thesis using Cons.prems(1) assms(2) by auto
  next
    case (Cons y ys')
    then have "f x @ (items_rest f z xs @ a) = f y @ (items_rest f z ys' @ b)"
      using Cons.prems(1) by simp
    then have "x = y \<and> items_rest f z xs @ a = items_rest f z ys' @ b"
      by (rule Cons.prems(2) [rotated]) (use items_rest_ends [OF assms(2)] in simp_all)
    then show ?thesis
      using Cons.IH [of ys'] Cons.prems(2) Cons by auto
  qed
qed

lemma items_prefix:
  assumes inj: "\<And>x y a b. x \<in> set xs \<Longrightarrow> f x @ a = f y @ b \<Longrightarrow> ends_value a \<Longrightarrow> ends_value b \<Longrightarrow>
      x = y \<and> a = b"
    and z: "z \<in> {CHR '']'', CHR ''}''}" and h: "\<And>x. f x \<noteq> [] \<and> hd (f x) \<notin> {CHR '']'', CHR ''}''}"
    and eq: "join '','' (map f xs) @ [z] @ a = join '','' (map f ys) @ [z] @ b"
  shows "xs = ys \<and> a = b"
proof (cases xs; cases ys)
  assume "xs = []" "ys = []"
  then show ?thesis using eq by (simp add: join_def)
next
  fix y ys'
  assume "xs = []" "ys = y # ys'"
  then have "z # a = f y @ items_rest f z ys' @ b"
    using eq unfolding join_items by simp
  then show ?thesis using h [of y] z by (cases "f y") auto
next
  fix x xs'
  assume "xs = x # xs'" "ys = []"
  then have "f x @ items_rest f z xs' @ a = z # b"
    using eq unfolding join_items by simp
  then show ?thesis using h [of x] z by (cases "f x") auto
next
  fix x xs' y ys'
  assume *: "xs = x # xs'" "ys = y # ys'"
  then have "f x @ (items_rest f z xs' @ a) = f y @ (items_rest f z ys' @ b)"
    using eq unfolding join_items by simp
  then have "x = y \<and> items_rest f z xs' @ a = items_rest f z ys' @ b"
    by (rule inj [rotated]) (use * items_rest_ends [OF z] in simp_all)
  moreover have "xs' = ys' \<and> a = b" if "items_rest f z xs' @ a = items_rest f z ys' @ b"
    by (rule items_rest_prefix [OF _ z that]) (use inj * in auto)
  ultimately show ?thesis using * by simp
qed

lemma dumps_head: "dumps_in_order v \<noteq> [] \<and> hd (dumps_in_order v) \<notin> {CHR '']'', CHR ''}''}"
proof (cases v)
  case (JInt i)
  obtain c cs where c: "int_str i = c # cs"
    by (cases "int_str i") (auto simp: int_str_def split: if_splits)
  then have "is_num_char c"
    using int_str_num [of i] by simp
  then show ?thesis
    using JInt c by (auto simp: is_num_char_def is_digit_char_def)
qed (auto simp: json_string_def)

text \<open>The constructor of a tree can be read off the first character of its text.\<close>

datatype kind = KNull | KBool | KInt | KStr | KList | KObj

fun kind_of :: "json \<Rightarrow> kind" where
  "kind_of JNull = KNull"
| "kind_of (JBool _) = KBool"
| "kind_of (JInt _) = KInt"
| "kind_of (JStr _) = KStr"
| "kind_of (JList _) = KList"
| "kind_of (JObj _) = KObj"

definition kind_of_char :: "char \<Rightarrow> kind" where
  "kind_of_char c =
     (if c = CHR ''n'' then KNull else if c = CHR ''t'' \<or> c = CHR ''f'' then KBool
      else if c = CHR 0x22 then KStr else if c = CHR ''['' then KList
      else if c = CHR ''{'' then KObj else KInt)"

lemma kind_of_text: "kind_of_char (hd (dumps_in_order v @ r)) = kind_of v"
proof (cases v)
  case (JInt i)
  obtain c cs where c: "int_str i = c # cs"
    by (cases "int_str i") (auto simp: int_str_def split: if_splits)
  then have "is_num_char c"
    using int_str_num [of i] by simp
  then show ?thesis
    using JInt c by (auto simp: kind_of_char_def is_num_char_def is_digit_char_def)
qed (auto simp: json_string_def kind_of_char_def)

lemma dumps_in_order_prefix:
  "dumps_in_order v @ a = dumps_in_order w @ b \<Longrightarrow> ends_value a \<Longrightarrow> ends_value b \<Longrightarrow> v = w \<and> a = b"
proof (induction v arbitrary: w a b)
  case JNull
  then have "kind_of w = KNull"
    using kind_of_text [of JNull a] kind_of_text [of w b] by simp
  then show ?case using JNull by (cases w) simp_all
next
  case (JBool x)
  then have "kind_of w = KBool"
    using kind_of_text [of "JBool x" a] kind_of_text [of w b] by simp
  then show ?case using JBool by (cases w) (auto split: if_splits)
next
  case (JInt i)
  then have "kind_of w = KInt"
    using kind_of_text [of "JInt i" a] kind_of_text [of w b] by simp
  then show ?case using JInt int_str_prefix [of i a _ b] by (cases w) simp_all
next
  case (JStr x)
  then have "kind_of w = KStr"
    using kind_of_text [of "JStr x" a] kind_of_text [of w b] by simp
  then show ?case using JStr json_string_prefix [of x a _ b] by (cases w) simp_all
next
  case (JList xs)
  then have "kind_of w = KList"
    using kind_of_text [of "JList xs" a] kind_of_text [of w b] by simp
  then obtain ys where w: "w = JList ys" by (cases w) simp_all
  have "xs = ys \<and> a = b"
  proof (rule items_prefix [where f = dumps_in_order and z = "CHR '']''"])
    show "join '','' (map dumps_in_order xs) @ [CHR '']''] @ a = join '','' (map dumps_in_order ys) @ [CHR '']''] @ b"
      using JList.prems(1) w by simp
  qed (use JList.IH dumps_head in auto)
  then show ?case using w by simp
next
  case (JObj kvs)
  then have "kind_of w = KObj"
    using kind_of_text [of "JObj kvs" a] kind_of_text [of w b] by simp
  then obtain ys where w: "w = JObj ys" by (cases w) simp_all
  have "kvs = ys \<and> a = b"
  proof (rule items_prefix [where f = "\<lambda>(k, v). json_string k @ '':'' @ dumps_in_order v"
        and z = "CHR ''}''"])
    fix x y c d
    assume x: "x \<in> set kvs" and e: "ends_value c" "ends_value d"
      and eq: "(case x of (k, v) \<Rightarrow> json_string k @ '':'' @ dumps_in_order v) @ c
             = (case y of (k, v) \<Rightarrow> json_string k @ '':'' @ dumps_in_order v) @ d"
    obtain k v k' v' where xy: "x = (k, v)" "y = (k', v')" by (cases x; cases y)
    have "json_string k @ ('':'' @ dumps_in_order v @ c) = json_string k' @ ('':'' @ dumps_in_order v' @ d)"
      using eq xy by simp
    from json_string_prefix [OF this] have "k = k'" "dumps_in_order v @ c = dumps_in_order v' @ d"
      by simp_all
    moreover have "v = v' \<and> c = d"
      by (rule JObj.IH [OF x _ \<open>dumps_in_order v @ c = dumps_in_order v' @ d\<close> e]) (simp add: xy)
    ultimately show "x = y \<and> c = d" by (simp add: xy)
  next
    show "join '','' (map (\<lambda>(k, v). json_string k @ '':'' @ dumps_in_order v) kvs) @ [CHR ''}''] @ a
        = join '','' (map (\<lambda>(k, v). json_string k @ '':'' @ dumps_in_order v) ys) @ [CHR ''}''] @ b"
      using JObj.prems(1) w by simp
  qed (auto simp: json_string_def)
  then show ?case using w by simp
qed

lemma canonical_json_eq_iff:
  "canonical_json_bytes v = canonical_json_bytes w \<longleftrightarrow> normal v = normal w"
  using dumps_in_order_prefix [of "normal v" "[]" "normal w" "[]"]
  by (auto simp: canonical_json_bytes_def json_dumps_normal ends_value_def)


lemma canonical_hash_eqD:
  assumes "canonical_hash sha v = canonical_hash sha w"
    and "sha (canonical_json_bytes v) = sha (canonical_json_bytes w) \<Longrightarrow>
      canonical_json_bytes v = canonical_json_bytes w"
  shows "normal v = normal w"
  using assms canonical_json_eq_iff [of v w] by (simp add: canonical_hash_def)

end
