(* ===== verification/Domain.thy ===== *)
theory Domain
  imports Canonical
begin

text \<open>
  The value objects of \<^verbatim>\<open>domain/\<close>: principals, adapter identities, amounts, state
  fingerprints, preconditions and the effect manifest, with the validators pydantic
  runs when one is built, the schema versions of \<^verbatim>\<open>protocol/versioning.py\<close>, the limits
  of \<^verbatim>\<open>config/settings.py\<close> and the clock normalization of \<^verbatim>\<open>config/clock.py\<close>.

  A constructed object is the record; its validators are the function \<open>..._validate\<close>,
  which returns the error construction raises.  pydantic turns a \<^verbatim>\<open>ValueError\<close> of a
  validator into its own \<^verbatim>\<open>ValidationError\<close>, a \<^verbatim>\<open>ValueError\<close> again, and lets other
  exceptions through.  \<^verbatim>\<open>model_dump(mode="json")\<close> is the function \<open>..._json\<close>: the fields
  in their order, enumeration members as their values, and timestamps as text, whose
  rendering (pydantic's) is the parameter \<open>isot\<close>.

  Time is the number of microseconds since the epoch, in UTC.
\<close>

section \<open>Clock and settings\<close>

type_synonym time = int

definition second :: time where
  "second = 1000000"

text \<open>A datetime as Python has it: the wall time and, when aware, its offset from UTC.\<close>

record py_datetime =
  dt_wall :: int
  dt_offset :: "int option"

definition ensure_utc :: "py_datetime \<Rightarrow> time res" where
  "ensure_utc v = (case dt_offset v of None \<Rightarrow> Inl ValueError | Some off \<Rightarrow> Inr (dt_wall v - off))"

record clock_skew_policy =
  leeway_seconds :: int

definition clock_skew_validate :: "clock_skew_policy \<Rightarrow> unit res" where
  "clock_skew_validate p =
     allR [raise_if (leeway_seconds p < 0) ValueError, raise_if (leeway_seconds p > 300) ValueError]"

record metadata_limits =
  max_keys :: nat
  max_key_length :: nat
  max_value_length :: nat
  max_total_bytes :: nat

definition default_metadata_limits :: metadata_limits where
  "default_metadata_limits =
     \<lparr>max_keys = 16, max_key_length = 64, max_value_length = 512, max_total_bytes = 8192\<rparr>"

record manifest_limits =
  max_parameters :: nat
  max_parameter_key_length :: nat
  max_parameter_value_length :: nat
  max_target_resource_length :: nat
  default_ttl_seconds :: int

definition default_manifest_limits :: manifest_limits where
  "default_manifest_limits =
     \<lparr>max_parameters = 64, max_parameter_key_length = 128, max_parameter_value_length = 4096,
      max_target_resource_length = 512, default_ttl_seconds = 900\<rparr>"

definition max_delegation_depth :: nat where
  "max_delegation_depth = 8"

section \<open>Schema versions\<close>

definition CURRENT_SCHEMA_VERSION :: string where
  "CURRENT_SCHEMA_VERSION = ''1.0''"

definition SUPPORTED_MAJOR_VERSIONS :: "string list" where
  "SUPPORTED_MAJOR_VERSIONS = [''1'']"

text \<open>\<^verbatim>\<open>str.isdigit\<close>, which also accepts the superscript digits of Latin-1.\<close>

definition py_isdigit_char :: "char \<Rightarrow> bool" where
  "py_isdigit_char c \<longleftrightarrow> is_digit_char c \<or> c \<in> {CHR 0xB2, CHR 0xB3, CHR 0xB9}"

definition py_isdigit :: "string \<Rightarrow> bool" where
  "py_isdigit s \<longleftrightarrow> s \<noteq> [] \<and> list_all py_isdigit_char s"

definition parse_major :: "string \<Rightarrow> string res" where
  "parse_major v =
     (if v = [] \<or> CHR ''.'' \<notin> set v then Inl (ManifestE SchemaVersionError)
      else let major = takeWhile (\<lambda>c. c \<noteq> CHR ''.'') v;
               minor = tl (dropWhile (\<lambda>c. c \<noteq> CHR ''.'') v)
           in if \<not> py_isdigit major \<or> \<not> py_isdigit minor then Inl (ManifestE SchemaVersionError)
              else Inr major)"

definition assert_supported_schema_version :: "string \<Rightarrow> unit res" where
  "assert_supported_schema_version v =
     bindR (parse_major v) (\<lambda>major.
       raise_if (major \<notin> set SUPPORTED_MAJOR_VERSIONS) (ManifestE SchemaVersionError))"

section \<open>Enumerations\<close>

datatype principal_type = HUMAN | SERVICE | AGENT

primrec principal_type_value :: "principal_type \<Rightarrow> string" where
  "principal_type_value HUMAN = ''human''"
| "principal_type_value SERVICE = ''service''"
| "principal_type_value AGENT = ''agent''"

datatype risk_classification = LOW | MEDIUM | HIGH | CRITICAL

primrec risk_value :: "risk_classification \<Rightarrow> string" where
  "risk_value LOW = ''low''"
| "risk_value MEDIUM = ''medium''"
| "risk_value HIGH = ''high''"
| "risk_value CRITICAL = ''critical''"

datatype reversibility_classification = REVERSIBLE | COMPENSATABLE | IRREVERSIBLE

primrec reversibility_value :: "reversibility_classification \<Rightarrow> string" where
  "reversibility_value REVERSIBLE = ''reversible''"
| "reversibility_value COMPENSATABLE = ''compensatable''"
| "reversibility_value IRREVERSIBLE = ''irreversible''"

datatype blast_radius_classification = SINGLE_RESOURCE | BOUNDED_SET | BROAD | UNBOUNDED

primrec blast_radius_value :: "blast_radius_classification \<Rightarrow> string" where
  "blast_radius_value SINGLE_RESOURCE = ''single_resource''"
| "blast_radius_value BOUNDED_SET = ''bounded_set''"
| "blast_radius_value BROAD = ''broad''"
| "blast_radius_value UNBOUNDED = ''unbounded''"

datatype state_fingerprint_kind =
  ROW_VERSION | ETAG | REVISION | UPDATED_AT_DIGEST | CONTENT_HASH | PROVIDER_STATUS | CUSTOM

primrec fingerprint_kind_value :: "state_fingerprint_kind \<Rightarrow> string" where
  "fingerprint_kind_value ROW_VERSION = ''row_version''"
| "fingerprint_kind_value ETAG = ''etag''"
| "fingerprint_kind_value REVISION = ''revision''"
| "fingerprint_kind_value UPDATED_AT_DIGEST = ''updated_at_digest''"
| "fingerprint_kind_value CONTENT_HASH = ''content_hash''"
| "fingerprint_kind_value PROVIDER_STATUS = ''provider_status''"
| "fingerprint_kind_value CUSTOM = ''custom''"

section \<open>Value objects\<close>

definition is_upper_char :: "char \<Rightarrow> bool" where
  "is_upper_char c \<longleftrightarrow> CHR ''A'' \<le> c \<and> c \<le> CHR ''Z''"

definition is_lower_char :: "char \<Rightarrow> bool" where
  "is_lower_char c \<longleftrightarrow> CHR ''a'' \<le> c \<and> c \<le> CHR ''z''"

definition is_alnum_char :: "char \<Rightarrow> bool" where
  "is_alnum_char c \<longleftrightarrow> is_upper_char c \<or> is_lower_char c \<or> is_digit_char c"

text \<open>A pattern that ends in \<^verbatim>\<open>$\<close> also matches before a final newline; this is the text
  it has to match otherwise.\<close>

definition before_final_newline :: "string \<Rightarrow> string" where
  "before_final_newline s = (if s \<noteq> [] \<and> last s = CHR 0x0A then butlast s else s)"

definition id_shape :: "string \<Rightarrow> bool" where
  "id_shape s \<longleftrightarrow> (case s of
      [] \<Rightarrow> False
    | c # cs \<Rightarrow> is_alnum_char c \<and> length cs \<le> 127 \<and>
        list_all (\<lambda>d. is_alnum_char d \<or> d \<in> {CHR ''.'', CHR ''_'', CHR '':'', CHR ''-''}) cs)"

definition ID_RE_match :: "string \<Rightarrow> bool" where
  "ID_RE_match s \<longleftrightarrow> id_shape s \<or> id_shape (before_final_newline s)"

definition validate_id :: "string \<Rightarrow> unit res" where
  "validate_id v = raise_if (v = [] \<or> \<not> ID_RE_match v) ValueError"

record principal =
  principal_id :: string
  principal_type :: principal_type
  display_name :: "string option"

definition principal_validate :: "principal \<Rightarrow> unit res" where
  "principal_validate p = allR
     [validate_id (principal_id p),
      raise_if (case display_name p of None \<Rightarrow> False | Some d \<Rightarrow> length d > 256) ValueError]"

definition jstr_opt :: "string option \<Rightarrow> json" where
  "jstr_opt x = (case x of None \<Rightarrow> JNull | Some s \<Rightarrow> JStr s)"

definition principal_json :: "principal \<Rightarrow> json" where
  "principal_json p = JObj
     [(''principal_id'', JStr (principal_id p)),
      (''principal_type'', JStr (principal_type_value (principal_type p))),
      (''display_name'', jstr_opt (display_name p))]"

record adapter_identity =
  adapter_id :: string
  adapter_version :: string

definition adapter_identity_validate :: "adapter_identity \<Rightarrow> unit res" where
  "adapter_identity_validate a = allR
     [validate_id (adapter_id a),
      raise_if (adapter_version a = [] \<or> length (adapter_version a) > 64) ValueError]"

definition adapter_identity_json :: "adapter_identity \<Rightarrow> json" where
  "adapter_identity_json a = JObj
     [(''adapter_id'', JStr (adapter_id a)), (''adapter_version'', JStr (adapter_version a))]"

record monetary_amount =
  currency :: string
  minor_units :: int

definition CURRENCY_RE_match :: "string \<Rightarrow> bool" where
  "CURRENCY_RE_match s \<longleftrightarrow>
     (let t = before_final_newline s in length t = 3 \<and> list_all is_upper_char t)"

definition monetary_amount_validate :: "monetary_amount \<Rightarrow> unit res" where
  "monetary_amount_validate a = allR
     [raise_if (\<not> CURRENCY_RE_match (currency a)) ValueError,
      raise_if (minor_units a < 0) ValueError,
      raise_if (minor_units a > 10 ^ 15) ValueError]"

definition monetary_le :: "monetary_amount \<Rightarrow> monetary_amount \<Rightarrow> bool res" where
  "monetary_le a b = (if currency a \<noteq> currency b then Inl ValueError
     else Inr (minor_units a \<le> minor_units b))"

definition monetary_str :: "monetary_amount \<Rightarrow> string" where
  "monetary_str a = currency a @ '' '' @ int_str (minor_units a)"

definition monetary_json :: "monetary_amount \<Rightarrow> json" where
  "monetary_json a = JObj
     [(''currency'', JStr (currency a)), (''minor_units'', JInt (minor_units a))]"

record state_fingerprint =
  fp_kind :: state_fingerprint_kind
  fp_value :: string

definition fingerprint_validate :: "state_fingerprint \<Rightarrow> unit res" where
  "fingerprint_validate f = raise_if (fp_value f = [] \<or> length (fp_value f) > 512) ValueError"

definition fingerprint_json :: "state_fingerprint \<Rightarrow> json" where
  "fingerprint_json f = JObj
     [(''kind'', JStr (fingerprint_kind_value (fp_kind f))), (''value'', JStr (fp_value f))]"

record precondition =
  pre_description :: string
  pre_fingerprint :: state_fingerprint

definition precondition_validate :: "precondition \<Rightarrow> unit res" where
  "precondition_validate p =
     raise_if (pre_description p = [] \<or> length (pre_description p) > 256) ValueError"

definition precondition_json :: "precondition \<Rightarrow> json" where
  "precondition_json p = JObj
     [(''description'', JStr (pre_description p)),
      (''fingerprint'', fingerprint_json (pre_fingerprint p))]"

section \<open>The effect manifest\<close>

datatype parameter_value = PStr string | PInt int | PBool bool | PNone

primrec parameter_json :: "parameter_value \<Rightarrow> json" where
  "parameter_json (PStr s) = JStr s"
| "parameter_json (PInt i) = JInt i"
| "parameter_json (PBool b) = JBool b"
| "parameter_json PNone = JNull"

record effect_manifest =
  m_schema_version :: string
  m_manifest_id :: string
  m_effect_type :: string
  m_actor :: principal
  m_principal :: principal
  m_adapter :: adapter_identity
  m_target_resource :: string
  m_parameters :: "(string \<times> parameter_value) list"
  m_before_state_digest :: "string option"
  m_expected_after_state_digest :: "string option"
  m_state_fingerprint :: "state_fingerprint option"
  m_preconditions :: "precondition list"
  m_risk :: risk_classification
  m_reversibility :: reversibility_classification
  m_blast_radius :: blast_radius_classification
  m_estimated_cost :: "monetary_amount option"
  m_idempotency_key :: string
  m_created_at :: time
  m_expires_at :: time
  m_nonce :: string
  m_parent_manifest_id :: "string option"
  m_metadata :: "(string \<times> string) list"

definition id_length_check :: "string \<Rightarrow> unit res" where
  "id_length_check v = raise_if (v = [] \<or> length v > 128) ValueError"

definition target_resource_validate :: "string \<Rightarrow> unit res" where
  "target_resource_validate v = allR
     [raise_if (v = [] \<or> length v > max_target_resource_length default_manifest_limits) ValueError,
      raise_if (\<exists>c \<in> set v. (of_char c :: nat) < 0x20) ValueError]"

definition parameters_validate :: "(string \<times> parameter_value) list \<Rightarrow> unit res" where
  "parameters_validate v =
     (let l = default_manifest_limits in
      allR (raise_if (length v > max_parameters l) ValueError #
        map (\<lambda>(k, x). raise_if (k = [] \<or> length k > max_parameter_key_length l \<or>
               (case x of PStr s \<Rightarrow> length s > max_parameter_value_length l | _ \<Rightarrow> False)) ValueError) v))"

definition metadata_validate :: "(string \<times> string) list \<Rightarrow> unit res" where
  "metadata_validate v =
     (let l = default_metadata_limits in
      allR (raise_if (length v > max_keys l) ValueError #
        map (\<lambda>(k, x). raise_if (length k > max_key_length l \<or> length x > max_value_length l) ValueError) v
        @ [raise_if (sum_list (map (\<lambda>(k, x). length k + length x) v) > max_total_bytes l) ValueError]))"

definition manifest_validate :: "effect_manifest \<Rightarrow> unit res" where
  "manifest_validate m = allR
     [assert_supported_schema_version (m_schema_version m),
      id_length_check (m_manifest_id m),
      id_length_check (m_effect_type m),
      target_resource_validate (m_target_resource m),
      parameters_validate (m_parameters m),
      id_length_check (m_idempotency_key m),
      id_length_check (m_nonce m),
      metadata_validate (m_metadata m),
      raise_if (m_expires_at m \<le> m_created_at m) ValueError]"

definition default_expiry :: "time \<Rightarrow> int option \<Rightarrow> time" where
  "default_expiry created ttl_seconds =
     (let ttl = (case ttl_seconds of Some t \<Rightarrow> t
                 | None \<Rightarrow> default_ttl_seconds default_manifest_limits)
      in created + ttl * second)"

definition manifest_json :: "(time \<Rightarrow> string) \<Rightarrow> effect_manifest \<Rightarrow> json" where
  "manifest_json isot m = JObj
     [(''schema_version'', JStr (m_schema_version m)),
      (''manifest_id'', JStr (m_manifest_id m)),
      (''effect_type'', JStr (m_effect_type m)),
      (''actor'', principal_json (m_actor m)),
      (''principal'', principal_json (m_principal m)),
      (''adapter'', adapter_identity_json (m_adapter m)),
      (''target_resource'', JStr (m_target_resource m)),
      (''parameters'', JObj (map (\<lambda>(k, v). (k, parameter_json v)) (m_parameters m))),
      (''before_state_digest'', jstr_opt (m_before_state_digest m)),
      (''expected_after_state_digest'', jstr_opt (m_expected_after_state_digest m)),
      (''state_fingerprint'', case m_state_fingerprint m of None \<Rightarrow> JNull | Some f \<Rightarrow> fingerprint_json f),
      (''preconditions'', JList (map precondition_json (m_preconditions m))),
      (''risk'', JStr (risk_value (m_risk m))),
      (''reversibility'', JStr (reversibility_value (m_reversibility m))),
      (''blast_radius'', JStr (blast_radius_value (m_blast_radius m))),
      (''estimated_cost'', case m_estimated_cost m of None \<Rightarrow> JNull | Some a \<Rightarrow> monetary_json a),
      (''idempotency_key'', JStr (m_idempotency_key m)),
      (''created_at'', JStr (isot (m_created_at m))),
      (''expires_at'', JStr (isot (m_expires_at m))),
      (''nonce'', JStr (m_nonce m)),
      (''parent_manifest_id'', jstr_opt (m_parent_manifest_id m)),
      (''metadata'', JObj (map (\<lambda>(k, v). (k, JStr v)) (m_metadata m)))]"

section \<open>Facts\<close>

text \<open>Identifiers cannot contain a newline except for the final one the pattern
  overlooks.\<close>

lemma newline_not_alnum: "\<not> is_alnum_char (CHR 0x0A)"
  by (simp add: is_alnum_char_def is_upper_char_def is_lower_char_def is_digit_char_def less_eq_char_def)

lemma id_shape_no_newline: "id_shape s \<Longrightarrow> CHR 0x0A \<notin> set s"
  using newline_not_alnum by (cases s) (auto simp: id_shape_def list_all_iff)

text \<open>Identifier validation accepts exactly the identifiers of the documented shape
  (1 to 128 characters, alphanumeric first, then \<^verbatim>\<open>[A-Za-z0-9._:-]\<close>) and, because the
  pattern ends in \<^verbatim>\<open>$\<close>, also any such identifier followed by one newline.\<close>

theorem validate_id_accepts:
  "validate_id v = Inr () \<longleftrightarrow> id_shape v \<or> (\<exists>s. v = s @ [CHR 0x0A] \<and> id_shape s)"
proof -
  have "id_shape (before_final_newline v) \<longleftrightarrow> id_shape v \<or> (\<exists>s. v = s @ [CHR 0x0A] \<and> id_shape s)"
  proof (cases "v \<noteq> [] \<and> last v = CHR 0x0A")
    case True
    then have "v = butlast v @ [CHR 0x0A]"
      by (metis append_butlast_last_id)
    moreover have "\<not> id_shape v"
      using True id_shape_no_newline [of v] last_in_set by metis
    ultimately show ?thesis
      using True by (metis before_final_newline_def butlast_snoc)
  next
    case False
    then show ?thesis
      by (auto simp: before_final_newline_def)
  qed
  moreover have "\<not> id_shape []"
    by (simp add: id_shape_def)
  ultimately show ?thesis
    by (auto simp: validate_id_def ID_RE_match_def raise_if_def)
qed

text \<open>Objects with the same keys in the same order are equal once their sorted forms are.\<close>

lemma sort_key_fst_inject:
  assumes "map fst xs = map fst ys" "distinct (map fst xs)" "sort_key fst xs = sort_key fst ys"
  shows "xs = ys"
proof -
  have s: "set xs = set ys"
    using assms(3) by (metis set_sort)
  have "xs ! i = ys ! i" if "i < length xs" for i
  proof -
    have l: "length xs = length ys"
      using assms(1) by (metis length_map)
    have "xs ! i \<in> set ys"
      using s that by (metis nth_mem)
    moreover have "fst (xs ! i) = fst (ys ! i)"
      using assms(1) that l by (metis nth_map)
    moreover have "distinct (map fst ys)"
      using assms(1,2) by simp
    ultimately show ?thesis
      using that l by (metis eq_key_imp_eq_value nth_mem prod.collapse)
  qed
  then show ?thesis
    using assms(1) by (metis length_map nth_equalityI)
qed

lemma normal_JObj_inject:
  assumes "normal (JObj xs) = normal (JObj ys)" "map fst xs = map fst ys" "distinct (map fst xs)"
  shows "map (\<lambda>(k, v). (k, normal v)) xs = map (\<lambda>(k, v). (k, normal v)) ys"
proof (rule sort_key_fst_inject)
  show "map fst (map (\<lambda>(k, v). (k, normal v)) xs) = map fst (map (\<lambda>(k, v). (k, normal v)) ys)"
    using assms(2) by (simp add: comp_def split_beta)
  show "distinct (map fst (map (\<lambda>(k, v). (k, normal v)) xs))"
    using assms(3) by (simp add: comp_def split_beta)
  show "sort_key fst (map (\<lambda>(k, v). (k, normal v)) xs) = sort_key fst (map (\<lambda>(k, v). (k, normal v)) ys)"
    using assms(1) by simp
qed

lemma jstr_opt_inject [simp]: "normal (jstr_opt x) = normal (jstr_opt y) \<longleftrightarrow> x = y"
  by (simp add: jstr_opt_def split: option.splits)

lemma principal_type_value_inject [simp]: "principal_type_value a = principal_type_value b \<longleftrightarrow> a = b"
  by (cases a; cases b) simp_all

lemma risk_value_inject [simp]: "risk_value a = risk_value b \<longleftrightarrow> a = b"
  by (cases a; cases b) simp_all

lemma reversibility_value_inject [simp]: "reversibility_value a = reversibility_value b \<longleftrightarrow> a = b"
  by (cases a; cases b) simp_all

lemma blast_radius_value_inject [simp]: "blast_radius_value a = blast_radius_value b \<longleftrightarrow> a = b"
  by (cases a; cases b) simp_all

lemma fingerprint_kind_value_inject [simp]: "fingerprint_kind_value a = fingerprint_kind_value b \<longleftrightarrow> a = b"
  by (cases a; cases b) simp_all

lemma principal_json_inject [simp]: "normal (principal_json p) = normal (principal_json q) \<longleftrightarrow> p = q"
  unfolding principal_json_def by (cases p; cases q) (auto dest!: normal_JObj_inject)

lemma adapter_identity_json_inject [simp]:
  "normal (adapter_identity_json p) = normal (adapter_identity_json q) \<longleftrightarrow> p = q"
  unfolding adapter_identity_json_def by (cases p; cases q) (auto dest!: normal_JObj_inject)

lemma fingerprint_json_inject [simp]:
  "normal (fingerprint_json p) = normal (fingerprint_json q) \<longleftrightarrow> p = q"
  unfolding fingerprint_json_def by (cases p; cases q) (auto dest!: normal_JObj_inject)

lemma monetary_json_inject [simp]: "normal (monetary_json p) = normal (monetary_json q) \<longleftrightarrow> p = q"
  unfolding monetary_json_def by (cases p; cases q) (auto dest!: normal_JObj_inject)

lemma precondition_json_inject [simp]:
  "normal (precondition_json p) = normal (precondition_json q) \<longleftrightarrow> p = q"
  unfolding precondition_json_def
  by (cases p; cases q) (auto dest!: normal_JObj_inject simp del: normal.simps(2))

lemma parameter_json_inject [simp]: "parameter_json a = parameter_json b \<longleftrightarrow> a = b"
  by (cases a; cases b) simp_all

lemma normal_parameter_json [simp]: "normal (parameter_json a) = parameter_json a"
  by (cases a) simp_all

lemma map_json_inject: "inj f \<Longrightarrow> map f xs = map f ys \<longleftrightarrow> xs = ys"
  by (simp add: inj_map_eq_map)

lemma sorted_json_inject:
  assumes "\<And>a b. f a = f b \<longleftrightarrow> a = b"
  shows "sort_key fst (map (\<lambda>(k :: string, v). (k, f v)) xs) = sort_key fst (map (\<lambda>(k, v). (k, f v)) ys)
    \<longleftrightarrow> sort_key fst xs = sort_key fst ys"
proof -
  have "inj (\<lambda>(k :: string, v). (k, f v))"
    using assms by (auto simp: inj_def)
  then show ?thesis
    by (simp add: sort_key_map_snd inj_map_eq_map)
qed

lemma normal_parameters_inject [simp]:
  "normal (JObj (map (\<lambda>(k, v). (k, parameter_json v)) xs)) =
     normal (JObj (map (\<lambda>(k, v). (k, parameter_json v)) ys)) \<longleftrightarrow> sort_key fst xs = sort_key fst ys"
proof -
  have "map (\<lambda>(k, v). (k, normal v)) (map (\<lambda>(k, v). (k, parameter_json v)) zs)
      = map (\<lambda>(k :: string, v). (k, parameter_json v)) zs" for zs
    by auto
  then show ?thesis
    by (simp add: sorted_json_inject del: map_map)
qed

lemma normal_metadata_inject [simp]:
  "normal (JObj (map (\<lambda>(k, v). (k, JStr v)) xs)) =
     normal (JObj (map (\<lambda>(k, v). (k, JStr v)) ys)) \<longleftrightarrow> sort_key fst xs = sort_key fst ys"
proof -
  have "map (\<lambda>(k, v). (k, normal v)) (map (\<lambda>(k, v). (k, JStr v)) zs)
      = map (\<lambda>(k :: string, v). (k, JStr v)) zs" for zs
    by auto
  then show ?thesis
    by (simp add: sorted_json_inject del: map_map)
qed

lemma normal_preconditions_inject [simp]:
  "normal (JList (map precondition_json xs)) = normal (JList (map precondition_json ys)) \<longleftrightarrow> xs = ys"
proof -
  have "inj (normal \<circ> precondition_json)"
    by (simp add: inj_def)
  then show ?thesis
    by (simp add: inj_map_eq_map)
qed

lemma normal_fingerprint_opt_inject [simp]:
  "normal (case x of None \<Rightarrow> JNull | Some f \<Rightarrow> fingerprint_json f) =
     normal (case y of None \<Rightarrow> JNull | Some f \<Rightarrow> fingerprint_json f) \<longleftrightarrow> x = y"
  by (cases x; cases y) (simp_all, simp_all add: fingerprint_json_def)

lemma normal_cost_opt_inject [simp]:
  "normal (case x of None \<Rightarrow> JNull | Some f \<Rightarrow> monetary_json f) =
     normal (case y of None \<Rightarrow> JNull | Some f \<Rightarrow> monetary_json f) \<longleftrightarrow> x = y"
  by (cases x; cases y) (simp_all, simp_all add: monetary_json_def)

text \<open>Two manifests are the same up to the order of their parameter and metadata keys,
  which Python's dictionary equality ignores as well.\<close>

definition same_manifest :: "effect_manifest \<Rightarrow> effect_manifest \<Rightarrow> bool" where
  "same_manifest a b \<longleftrightarrow>
     a\<lparr>m_parameters := [], m_metadata := []\<rparr> = b\<lparr>m_parameters := [], m_metadata := []\<rparr>
     \<and> sort_key fst (m_parameters a) = sort_key fst (m_parameters b)
     \<and> sort_key fst (m_metadata a) = sort_key fst (m_metadata b)"

lemma manifest_json_inject:
  assumes "inj isot" "normal (manifest_json isot a) = normal (manifest_json isot b)"
  shows "same_manifest a b"
proof -
  have i: "isot x = isot y \<longleftrightarrow> x = y" for x y
    using assms(1) by (simp add: inj_eq)
  show ?thesis
    using assms(2) unfolding manifest_json_def
    by (auto dest!: normal_JObj_inject simp: i same_manifest_def simp del: normal.simps(1,2))
qed

end
