(* ===== verification/Sealing.thy ===== *)
theory Sealing
  imports Domain
begin

text \<open>
  Keys and seals: the wrappers of \<^verbatim>\<open>crypto/keys.py\<close> and \<^verbatim>\<open>crypto/keyring.py\<close>, the seal of
  \<^verbatim>\<open>domain/seal.py\<close> and \<^verbatim>\<open>protocol/sealing.py\<close>.

  The primitives come from outside the repository and are the fields of the record
  \<open>crypto\<close>: SHA-256, Ed25519, base64 and pydantic's rendering of timestamps.  What the
  code relies on is the predicate \<open>crypto_ok\<close>: a signature made with a private key
  verifies under its public key, base64 decodes what it encodes, a digest has 64
  characters and timestamps render injectively.  Absence of collisions is never assumed
  globally: a theorem that needs it assumes it for the two texts it compares.
\<close>

record crypto =
  cr_sha256 :: "string \<Rightarrow> string"
  cr_public :: "string \<Rightarrow> string"
  cr_sign :: "string \<Rightarrow> string \<Rightarrow> string"
  cr_verify :: "string \<Rightarrow> string \<Rightarrow> string \<Rightarrow> bool"
  cr_b64encode :: "string \<Rightarrow> string"
  cr_b64decode :: "string \<Rightarrow> string option"
  cr_iso :: "time \<Rightarrow> string"

definition crypto_ok :: "crypto \<Rightarrow> bool" where
  "crypto_ok cr \<longleftrightarrow>
     (\<forall>k d. cr_verify cr (cr_public cr k) (cr_sign cr k d) d)
     \<and> (\<forall>x. cr_b64decode cr (cr_b64encode cr x) = Some x)
     \<and> (\<forall>x. length (cr_sha256 cr x) = 64)
     \<and> inj (cr_iso cr)"

text \<open>The hypothesis that two plain trees do not collide under the digest.\<close>

definition no_collision :: "crypto \<Rightarrow> json \<Rightarrow> json \<Rightarrow> bool" where
  "no_collision cr v w \<longleftrightarrow>
     (cr_sha256 cr (canonical_json_bytes v) = cr_sha256 cr (canonical_json_bytes w) \<longrightarrow>
        canonical_json_bytes v = canonical_json_bytes w)"

section \<open>Keys\<close>

definition SUPPORTED_ALGORITHMS :: "string list" where
  "SUPPORTED_ALGORITHMS = [''ed25519'']"

definition assert_supported_algorithm :: "string \<Rightarrow> unit res" where
  "assert_supported_algorithm a =
     raise_if (a \<notin> set SUPPORTED_ALGORITHMS) (CryptoE UnsupportedAlgorithmError)"

record verification_key =
  vk_key_id :: string
  vk_algorithm :: string
  vk_public :: string

definition vk_verify :: "crypto \<Rightarrow> verification_key \<Rightarrow> string \<Rightarrow> string \<Rightarrow> unit res" where
  "vk_verify cr key data signature_b64 = (case cr_b64decode cr signature_b64 of
      None \<Rightarrow> Inl (CryptoE InvalidSignatureError)
    | Some sig \<Rightarrow> raise_if (\<not> cr_verify cr (vk_public key) sig data) (CryptoE InvalidSignatureError))"

record signing_key =
  sk_key_id :: string
  sk_algorithm :: string
  sk_private :: string

definition sk_sign :: "crypto \<Rightarrow> signing_key \<Rightarrow> string \<Rightarrow> string" where
  "sk_sign cr key data = cr_b64encode cr (cr_sign cr (sk_private key) data)"

definition sk_verification_key :: "crypto \<Rightarrow> signing_key \<Rightarrow> verification_key" where
  "sk_verification_key cr key = \<lparr>vk_key_id = sk_key_id key, vk_algorithm = sk_algorithm key,
     vk_public = cr_public cr (sk_private key)\<rparr>"

section \<open>Keyring\<close>

type_synonym keyring = "string \<Rightarrow> verification_key option"

definition kr_add_key :: "keyring \<Rightarrow> verification_key \<Rightarrow> keyring" where
  "kr_add_key kr key = kr(vk_key_id key := Some key)"

definition kr_init :: "verification_key list \<Rightarrow> keyring" where
  "kr_init keys = foldl kr_add_key (\<lambda>_. None) keys"

definition kr_remove_key :: "keyring \<Rightarrow> string \<Rightarrow> keyring" where
  "kr_remove_key kr key_id = kr(key_id := None)"

definition kr_has_key :: "keyring \<Rightarrow> string \<Rightarrow> bool" where
  "kr_has_key kr key_id \<longleftrightarrow> kr key_id \<noteq> None"

definition kr_get :: "keyring \<Rightarrow> string \<Rightarrow> verification_key res" where
  "kr_get kr key_id = (case kr key_id of None \<Rightarrow> Inl (CryptoE UnknownKeyError) | Some k \<Rightarrow> Inr k)"

definition kr_verify :: "crypto \<Rightarrow> keyring \<Rightarrow> string \<Rightarrow> string \<Rightarrow> string \<Rightarrow> unit res" where
  "kr_verify cr kr key_id data signature_b64 =
     bindR (kr_get kr key_id) (\<lambda>key. vk_verify cr key data signature_b64)"

section \<open>Seals\<close>

record seal =
  s_algorithm :: string
  s_key_id :: string
  s_manifest_hash :: string
  s_signature :: string
  s_sealed_at :: time

text \<open>A digest of the form \<^verbatim>\<open>sha256:<hex>\<close>, as far as the validators check it.\<close>

definition digest_shape :: "string \<Rightarrow> bool" where
  "digest_shape v \<longleftrightarrow> starts_with ''sha256:'' v \<and> length v = length ''sha256:'' + 64"

definition seal_validate :: "seal \<Rightarrow> unit res" where
  "seal_validate s = allR
     [raise_if (s_algorithm s \<noteq> ''ed25519'') ValueError,
      raise_if (s_key_id s = [] \<or> length (s_key_id s) > 128) ValueError,
      raise_if (\<not> digest_shape (s_manifest_hash s)) ValueError]"

record sealed_manifest =
  sm_manifest :: effect_manifest
  sm_seal :: seal

definition manifest_hash :: "crypto \<Rightarrow> effect_manifest \<Rightarrow> string" where
  "manifest_hash cr m = canonical_hash (cr_sha256 cr) (manifest_json (cr_iso cr) m)"

definition verify_integrity :: "crypto \<Rightarrow> sealed_manifest \<Rightarrow> unit res" where
  "verify_integrity cr sealed =
     raise_if (manifest_hash cr (sm_manifest sealed) \<noteq> s_manifest_hash (sm_seal sealed))
       (ManifestE ManifestTamperedError)"

definition seal_manifest ::
    "crypto \<Rightarrow> effect_manifest \<Rightarrow> signing_key \<Rightarrow> time \<Rightarrow> sealed_manifest res" where
  "seal_manifest cr manifest key now =
     (let h = manifest_hash cr manifest;
          signature = sk_sign cr key h;
          s = \<lparr>s_algorithm = sk_algorithm key, s_key_id = sk_key_id key, s_manifest_hash = h,
               s_signature = signature, s_sealed_at = now\<rparr>
      in thenR (seal_validate s) (Inr \<lparr>sm_manifest = manifest, sm_seal = s\<rparr>))"

definition verify_seal :: "crypto \<Rightarrow> sealed_manifest \<Rightarrow> keyring \<Rightarrow> unit res" where
  "verify_seal cr sealed kr =
     thenR (verify_integrity cr sealed)
       (kr_verify cr kr (s_key_id (sm_seal sealed)) (s_manifest_hash (sm_seal sealed))
          (s_signature (sm_seal sealed)))"

section \<open>Facts\<close>

lemma vk_verify_sign:
  "crypto_ok cr \<Longrightarrow> vk_verify cr (sk_verification_key cr key) d (sk_sign cr key d) = Inr ()"
  by (simp add: vk_verify_def sk_verification_key_def sk_sign_def crypto_ok_def raise_if_def)

lemma canonical_hash_shape: "crypto_ok cr \<Longrightarrow> digest_shape (canonical_hash (cr_sha256 cr) v)"
  by (simp add: digest_shape_def canonical_hash_def starts_with_def crypto_ok_def)

lemma canonical_hash_normal:
  "canonical_hash (cr_sha256 cr) v = canonical_hash (cr_sha256 cr) w \<Longrightarrow> no_collision cr v w \<Longrightarrow>
     normal v = normal w"
  unfolding no_collision_def by (erule canonical_hash_eqD) blast

lemma manifest_hash_binds:
  assumes "crypto_ok cr" "manifest_hash cr a = manifest_hash cr b"
    "no_collision cr (manifest_json (cr_iso cr) a) (manifest_json (cr_iso cr) b)"
  shows "same_manifest a b"
  using assms canonical_hash_normal manifest_json_inject
  unfolding manifest_hash_def crypto_ok_def by blast

lemma verify_seal_ok_iff:
  "verify_seal cr sealed kr = Inr () \<longleftrightarrow>
     manifest_hash cr (sm_manifest sealed) = s_manifest_hash (sm_seal sealed)
     \<and> (\<exists>key sig. kr (s_key_id (sm_seal sealed)) = Some key
          \<and> cr_b64decode cr (s_signature (sm_seal sealed)) = Some sig
          \<and> cr_verify cr (vk_public key) sig (s_manifest_hash (sm_seal sealed)))"
  by (auto simp: verify_seal_def verify_integrity_def kr_verify_def kr_get_def vk_verify_def
      result_simps is_ok_unit split: option.splits)

text \<open>Sealing round trip: a manifest sealed with a supported key verifies against a
  keyring that trusts the matching verification key, and stops verifying, with
  \<^verbatim>\<open>UnknownKeyError\<close>, as soon as that key is removed.\<close>

theorem seal_verify_roundtrip:
  assumes "crypto_ok cr" "sk_algorithm key = ''ed25519''" "1 \<le> length (sk_key_id key)"
    "length (sk_key_id key) \<le> 128" "kr (sk_key_id key) = Some (sk_verification_key cr key)"
  shows "\<exists>sealed. seal_manifest cr m key now = Inr sealed \<and> sm_manifest sealed = m
       \<and> verify_seal cr sealed kr = Inr ()
       \<and> verify_seal cr sealed (kr_remove_key kr (sk_key_id key)) = Inl (CryptoE UnknownKeyError)"
proof -
  let ?h = "manifest_hash cr m"
  let ?s = "\<lparr>s_algorithm = sk_algorithm key, s_key_id = sk_key_id key, s_manifest_hash = ?h,
    s_signature = sk_sign cr key ?h, s_sealed_at = now\<rparr>"
  have "seal_validate ?s = Inr ()"
    using assms canonical_hash_shape [OF assms(1)]
    by (auto simp: seal_validate_def thenR_def raise_if_def manifest_hash_def)
  then have "seal_manifest cr m key now = Inr \<lparr>sm_manifest = m, sm_seal = ?s\<rparr>"
    by (simp add: seal_manifest_def Let_def thenR_def)
  moreover have "verify_seal cr \<lparr>sm_manifest = m, sm_seal = ?s\<rparr> kr = Inr ()"
    using assms vk_verify_sign [OF assms(1)]
    by (simp add: verify_seal_def verify_integrity_def kr_verify_def kr_get_def thenR_def raise_if_def)
  moreover have "verify_seal cr \<lparr>sm_manifest = m, sm_seal = ?s\<rparr> (kr_remove_key kr (sk_key_id key))
      = Inl (CryptoE UnknownKeyError)"
    by (simp add: verify_seal_def verify_integrity_def kr_verify_def kr_get_def thenR_def raise_if_def
        kr_remove_key_def)
  ultimately show ?thesis by (metis sealed_manifest.select_convs(1))
qed

text \<open>C17. Tamper evidence: if a seal verifies for one manifest and for another one put in
  its place, the two manifests agree in every field (up to the order of dictionary keys),
  unless SHA-256 collides on their canonical texts.\<close>

theorem seal_binds_manifest:
  assumes "crypto_ok cr"
    and "verify_seal cr sealed kr = Inr ()" "verify_seal cr (sealed\<lparr>sm_manifest := m'\<rparr>) kr' = Inr ()"
    and "no_collision cr (manifest_json (cr_iso cr) (sm_manifest sealed)) (manifest_json (cr_iso cr) m')"
  shows "same_manifest (sm_manifest sealed) m'"
  using assms manifest_hash_binds [of cr "sm_manifest sealed" m'] by (auto simp: verify_seal_ok_iff)

section \<open>A concrete instance\<close>

definition toy_crypto :: crypto where
  "toy_crypto = \<lparr>cr_sha256 = (\<lambda>x. take 64 (x @ replicate 64 CHR ''0'')), cr_public = (\<lambda>k. k),
     cr_sign = (\<lambda>k d. k @ d), cr_verify = (\<lambda>pk sig d. sig = pk @ d), cr_b64encode = (\<lambda>x. x),
     cr_b64decode = Some, cr_iso = int_str\<rparr>"

lemma toy_crypto_ok: "crypto_ok toy_crypto"
  by (auto simp: crypto_ok_def toy_crypto_def inj_def min_def)

definition toy_principal :: "string \<Rightarrow> principal_type \<Rightarrow> principal" where
  "toy_principal i t = \<lparr>principal_id = i, principal_type = t, display_name = None\<rparr>"

definition toy_manifest :: effect_manifest where
  "toy_manifest = \<lparr>m_schema_version = ''1.0'', m_manifest_id = ''m-1'', m_effect_type = ''refund'',
     m_actor = toy_principal ''agent-1'' AGENT, m_principal = toy_principal ''alice'' HUMAN,
     m_adapter = \<lparr>adapter_id = ''pay'', adapter_version = ''1''\<rparr>, m_target_resource = ''order/7'',
     m_parameters = [(''amount'', PInt 100)], m_before_state_digest = None,
     m_expected_after_state_digest = None, m_state_fingerprint = None, m_preconditions = [],
     m_risk = LOW, m_reversibility = COMPENSATABLE, m_blast_radius = SINGLE_RESOURCE,
     m_estimated_cost = Some \<lparr>currency = ''EUR'', minor_units = 100\<rparr>, m_idempotency_key = ''k-1'',
     m_created_at = 0, m_expires_at = 900, m_nonce = ''n-1'', m_parent_manifest_id = None,
     m_metadata = []\<rparr>"

definition toy_key :: signing_key where
  "toy_key = \<lparr>sk_key_id = ''key-1'', sk_algorithm = ''ed25519'', sk_private = ''secret''\<rparr>"

definition toy_keyring :: keyring where
  "toy_keyring = kr_init [sk_verification_key toy_crypto toy_key]"

lemma toy_keyring_key: "toy_keyring ''key-1'' = Some (sk_verification_key toy_crypto toy_key)"
  by (simp add: toy_keyring_def kr_init_def kr_add_key_def sk_verification_key_def toy_key_def)

theorem seal_verify_roundtrip_witness:
  "\<exists>sealed. seal_manifest toy_crypto toy_manifest toy_key 5 = Inr sealed
     \<and> verify_seal toy_crypto sealed toy_keyring = Inr ()"
  using seal_verify_roundtrip [of toy_crypto toy_key toy_keyring toy_manifest 5] toy_keyring_key
  by (auto simp: toy_crypto_ok toy_key_def)

lemma toy_seal_verifies:
  "\<exists>sealed. seal_manifest toy_crypto toy_manifest toy_key 5 = Inr sealed \<and> sm_manifest sealed = toy_manifest
     \<and> verify_seal toy_crypto sealed toy_keyring = Inr ()"
proof -
  let ?h = "manifest_hash toy_crypto toy_manifest"
  let ?s = "\<lparr>sm_manifest = toy_manifest, sm_seal = \<lparr>s_algorithm = ''ed25519'', s_key_id = ''key-1'',
    s_manifest_hash = ?h, s_signature = sk_sign toy_crypto toy_key ?h, s_sealed_at = 5\<rparr>\<rparr>"
  have "seal_manifest toy_crypto toy_manifest toy_key 5 = Inr ?s"
    using canonical_hash_shape [OF toy_crypto_ok]
    by (simp add: seal_manifest_def Let_def seal_validate_def thenR_def raise_if_def toy_key_def
        manifest_hash_def)
  moreover have "verify_seal toy_crypto ?s toy_keyring = Inr ()"
    using vk_verify_sign [OF toy_crypto_ok, of toy_key ?h] toy_keyring_key
    by (simp add: verify_seal_def verify_integrity_def kr_verify_def kr_get_def thenR_def raise_if_def)
  ultimately show ?thesis by auto
qed

theorem seal_binds_manifest_witness:
  "\<exists>sealed. verify_seal toy_crypto sealed toy_keyring = Inr ()
     \<and> same_manifest (sm_manifest sealed) toy_manifest"
proof -
  obtain sealed where s: "sm_manifest sealed = toy_manifest" "verify_seal toy_crypto sealed toy_keyring = Inr ()"
    using toy_seal_verifies by blast
  have e: "sealed\<lparr>sm_manifest := toy_manifest\<rparr> = sealed"
    using s(1) by (cases sealed) simp
  have "same_manifest (sm_manifest sealed) toy_manifest"
    by (rule seal_binds_manifest [OF toy_crypto_ok s(2), of _ toy_keyring])
      (simp_all add: e s no_collision_def)
  then show ?thesis using s by blast
qed

end
