(* ===== verification/Grants.thy ===== *)
theory Grants
  imports Sealing
begin

text \<open>
  Execution grants (\<^verbatim>\<open>grants/\<close>): the signed authorization with its validators, its issuance
  and its verification.  The normalizing validators of the source (allow-lists become sorted
  tuples without duplicates) are part of the constructors \<open>scope_new\<close> and \<open>grant_new\<close>; the
  other validators are checks.
\<close>

section \<open>The grant\<close>

record scope_constraints =
  sc_target_resources :: "string list option"
  sc_recipients :: "string list option"
  sc_max_amount :: "monetary_amount option"
  sc_allowed_fields :: "string list option"
  sc_environments :: "string list option"

definition normalize_tuple :: "string list option \<Rightarrow> string list option res" where
  "normalize_tuple v = (case v of
      None \<Rightarrow> Inr None
    | Some xs \<Rightarrow> if xs = [] then Inl ValueError else Inr (Some (sorted_set xs)))"

definition scope_new :: "string list option \<Rightarrow> string list option \<Rightarrow> monetary_amount option
    \<Rightarrow> string list option \<Rightarrow> string list option \<Rightarrow> scope_constraints res" where
  "scope_new resources recipients amount flds environments =
     bindR (normalize_tuple resources) (\<lambda>r. bindR (normalize_tuple recipients) (\<lambda>p.
     bindR (normalize_tuple flds) (\<lambda>f. bindR (normalize_tuple environments) (\<lambda>e.
       Inr \<lparr>sc_target_resources = r, sc_recipients = p, sc_max_amount = amount,
            sc_allowed_fields = f, sc_environments = e\<rparr>))))"

definition unrestricted :: scope_constraints where
  "unrestricted = \<lparr>sc_target_resources = None, sc_recipients = None, sc_max_amount = None,
     sc_allowed_fields = None, sc_environments = None\<rparr>"

record execution_grant =
  g_schema_version :: string
  g_grant_id :: string
  g_manifest_hash :: "string option"
  g_policy_bundle_hash :: "string option"
  g_approval_set_hash :: "string option"
  g_decision_envelope_hash :: "string option"
  g_causal_graph_hash :: "string option"
  g_authority_budget_id :: "string option"
  g_issuer :: principal
  g_subject :: principal
  g_audience :: "string list"
  g_allowed_effect_types :: "string list"
  g_scope :: scope_constraints
  g_issued_at :: time
  g_not_before :: time
  g_expires_at :: time
  g_max_uses :: int
  g_nonce :: string
  g_parent_grant_id :: "string option"
  g_key_id :: string
  g_algorithm :: string
  g_signature :: "string option"

definition opt_digest_check :: "string option \<Rightarrow> unit res" where
  "opt_digest_check v =
     raise_if (case v of None \<Rightarrow> False | Some h \<Rightarrow> \<not> digest_shape h) ValueError"

definition grant_validate :: "execution_grant \<Rightarrow> unit res" where
  "grant_validate g = allR
     [assert_supported_schema_version (g_schema_version g),
      id_length_check (g_grant_id g),
      opt_digest_check (g_manifest_hash g),
      opt_digest_check (g_policy_bundle_hash g),
      opt_digest_check (g_approval_set_hash g),
      opt_digest_check (g_decision_envelope_hash g),
      opt_digest_check (g_causal_graph_hash g),
      raise_if (case g_authority_budget_id g of None \<Rightarrow> False
                | Some i \<Rightarrow> i = [] \<or> length i > 128) ValueError,
      raise_if (g_audience g = []) ValueError,
      raise_if (g_allowed_effect_types g = []) ValueError,
      raise_if (g_max_uses g < 1) ValueError,
      id_length_check (g_nonce g),
      id_length_check (g_key_id g),
      raise_if (g_algorithm g \<noteq> ''ed25519'') ValueError,
      raise_if (g_expires_at g \<le> g_not_before g) ValueError,
      raise_if (g_decision_envelope_hash g \<noteq> None \<and> g_causal_graph_hash g \<noteq> None) ValueError]"

text \<open>Construction: the checks, and the allow-lists normalized.\<close>

definition grant_new :: "execution_grant \<Rightarrow> execution_grant res" where
  "grant_new g = thenR (grant_validate g)
     (Inr (g\<lparr>g_audience := sorted_set (g_audience g),
             g_allowed_effect_types := sorted_set (g_allowed_effect_types g)\<rparr>))"

definition jstrs :: "string list \<Rightarrow> json" where
  "jstrs xs = JList (map JStr xs)"

definition jstrs_opt :: "string list option \<Rightarrow> json" where
  "jstrs_opt x = (case x of None \<Rightarrow> JNull | Some xs \<Rightarrow> jstrs xs)"

definition scope_json :: "scope_constraints \<Rightarrow> json" where
  "scope_json s = JObj
     [(''target_resources'', jstrs_opt (sc_target_resources s)),
      (''recipients'', jstrs_opt (sc_recipients s)),
      (''max_amount'', case sc_max_amount s of None \<Rightarrow> JNull | Some a \<Rightarrow> monetary_json a),
      (''allowed_fields'', jstrs_opt (sc_allowed_fields s)),
      (''environments'', jstrs_opt (sc_environments s))]"

definition signing_payload :: "crypto \<Rightarrow> execution_grant \<Rightarrow> json" where
  "signing_payload cr g = JObj
     [(''schema_version'', JStr (g_schema_version g)),
      (''grant_id'', JStr (g_grant_id g)),
      (''manifest_hash'', jstr_opt (g_manifest_hash g)),
      (''policy_bundle_hash'', jstr_opt (g_policy_bundle_hash g)),
      (''approval_set_hash'', jstr_opt (g_approval_set_hash g)),
      (''decision_envelope_hash'', jstr_opt (g_decision_envelope_hash g)),
      (''causal_graph_hash'', jstr_opt (g_causal_graph_hash g)),
      (''authority_budget_id'', jstr_opt (g_authority_budget_id g)),
      (''issuer'', principal_json (g_issuer g)),
      (''subject'', principal_json (g_subject g)),
      (''audience'', jstrs (g_audience g)),
      (''allowed_effect_types'', jstrs (g_allowed_effect_types g)),
      (''scope'', scope_json (g_scope g)),
      (''issued_at'', JStr (cr_iso cr (g_issued_at g))),
      (''not_before'', JStr (cr_iso cr (g_not_before g))),
      (''expires_at'', JStr (cr_iso cr (g_expires_at g))),
      (''max_uses'', JInt (g_max_uses g)),
      (''nonce'', JStr (g_nonce g)),
      (''parent_grant_id'', jstr_opt (g_parent_grant_id g)),
      (''key_id'', JStr (g_key_id g)),
      (''algorithm'', JStr (g_algorithm g))]"

definition grant_hash :: "crypto \<Rightarrow> execution_grant \<Rightarrow> string" where
  "grant_hash cr g = canonical_hash (cr_sha256 cr) (signing_payload cr g)"

section \<open>Issuance\<close>

text \<open>The arguments of \<open>issue_grant\<close> are the fields of an unsigned grant, with the signing
  key deciding the key identifier and algorithm and the clock the time of issue.\<close>

definition issue_grant :: "crypto \<Rightarrow> time \<Rightarrow> signing_key \<Rightarrow> execution_grant \<Rightarrow> execution_grant res" where
  "issue_grant cr now key args =
     (if principal_type (g_issuer args) = AGENT then Inl (GrantE GrantIssuerNotAuthorizedError)
      else bindR (grant_new (args\<lparr>g_schema_version := CURRENT_SCHEMA_VERSION, g_issued_at := now,
                   g_key_id := sk_key_id key, g_algorithm := sk_algorithm key, g_signature := None\<rparr>))
             (\<lambda>unsigned. Inr (unsigned\<lparr>g_signature := Some (sk_sign cr key (grant_hash cr unsigned))\<rparr>)))"

section \<open>Verification\<close>

definition verify_grant_signature :: "crypto \<Rightarrow> execution_grant \<Rightarrow> keyring \<Rightarrow> unit res" where
  "verify_grant_signature cr g kr =
     thenR (assert_supported_schema_version (g_schema_version g))
     (thenR (assert_supported_algorithm (g_algorithm g))
      (case g_signature g of
         None \<Rightarrow> Inl (CryptoE InvalidSignatureError)
       | Some sig \<Rightarrow> kr_verify cr kr (g_key_id g) (grant_hash cr g) sig))"

definition verify_grant_time_window :: "execution_grant \<Rightarrow> time \<Rightarrow> time \<Rightarrow> unit res" where
  "verify_grant_time_window g now leeway =
     (let earliest = g_not_before g - leeway; latest = g_expires_at g + leeway
      in if now < earliest then Inl (GrantE GrantNotYetValidError)
         else if now > latest then Inl (GrantE GrantExpiredError)
         else Inr ())"

definition verify_grant :: "crypto \<Rightarrow> execution_grant \<Rightarrow> keyring \<Rightarrow> time \<Rightarrow> time \<Rightarrow> unit res" where
  "verify_grant cr g kr now leeway =
     thenR (verify_grant_signature cr g kr) (verify_grant_time_window g now leeway)"

section \<open>Facts\<close>

lemma verify_grant_time_window_ok_iff:
  "verify_grant_time_window g now leeway = Inr () \<longleftrightarrow>
     g_not_before g - leeway \<le> now \<and> now \<le> g_expires_at g + leeway"
  by (auto simp: verify_grant_time_window_def Let_def)

lemma jstrs_inject [simp]: "normal (jstrs x) = normal (jstrs y) \<longleftrightarrow> x = y"
proof -
  have "inj (normal \<circ> JStr)" by (simp add: inj_def)
  then show ?thesis by (simp add: jstrs_def inj_map_eq_map)
qed

lemma jstrs_opt_inject [simp]: "normal (jstrs_opt x) = normal (jstrs_opt y) \<longleftrightarrow> x = y"
  by (cases x; cases y) (simp_all add: jstrs_opt_def, simp_all add: jstrs_def)

lemma scope_json_inject [simp]: "normal (scope_json s) = normal (scope_json t) \<longleftrightarrow> s = t"
  unfolding scope_json_def
  by (cases s; cases t) (auto dest!: normal_JObj_inject simp del: normal.simps(1,2))

lemma signing_payload_inject:
  assumes "crypto_ok cr" "normal (signing_payload cr g) = normal (signing_payload cr h)"
  shows "g\<lparr>g_signature := None\<rparr> = h\<lparr>g_signature := None\<rparr>"
proof -
  have i: "cr_iso cr x = cr_iso cr y \<longleftrightarrow> x = y" for x y
    using assms(1) by (auto simp: crypto_ok_def inj_eq)
  show ?thesis
    using normal_JObj_inject [OF assms(2) [unfolded signing_payload_def]]
    by (intro execution_grant.equality) (simp_all add: i del: normal.simps(1,2))
qed

lemma grant_hash_signature [simp]: "grant_hash cr (g\<lparr>g_signature := s\<rparr>) = grant_hash cr g"
  by (simp add: grant_hash_def signing_payload_def)

text \<open>The hash that is signed binds every field of a grant but the signature: two grants
  with the same hash agree in all of them, unless SHA-256 collides on their payloads.\<close>

theorem grant_hash_binds:
  assumes "crypto_ok cr" "grant_hash cr g = grant_hash cr h"
    "no_collision cr (signing_payload cr g) (signing_payload cr h)"
  shows "g\<lparr>g_signature := None\<rparr> = h\<lparr>g_signature := None\<rparr>"
  using assms signing_payload_inject canonical_hash_normal unfolding grant_hash_def by blast

lemma issue_grant_ok_iff:
  "issue_grant cr now key args = Inr g \<longleftrightarrow>
     principal_type (g_issuer args) \<noteq> AGENT \<and>
     (let u = args\<lparr>g_schema_version := CURRENT_SCHEMA_VERSION, g_issued_at := now,
                   g_key_id := sk_key_id key, g_algorithm := sk_algorithm key, g_signature := None\<rparr>;
          v = u\<lparr>g_audience := sorted_set (g_audience u),
                g_allowed_effect_types := sorted_set (g_allowed_effect_types u)\<rparr>
      in grant_validate u = Inr () \<and> g = v\<lparr>g_signature := Some (sk_sign cr key (grant_hash cr v))\<rparr>)"
  by (auto simp: issue_grant_def grant_new_def result_simps is_ok_unit Let_def)

lemma issued_grant_signature:
  assumes "crypto_ok cr" "issue_grant cr now key args = Inr g"
    "kr (sk_key_id key) = Some (sk_verification_key cr key)"
  shows "verify_grant_signature cr g kr = Inr ()"
proof -
  obtain v where "g = v\<lparr>g_signature := Some (sk_sign cr key (grant_hash cr v))\<rparr>"
    using assms(2) by (auto simp: issue_grant_def result_simps split: if_splits)
  then have "g_signature g = Some (sk_sign cr key (grant_hash cr g))"
    by simp
  moreover have "g_algorithm g = ''ed25519''" "g_schema_version g = ''1.0''" "g_key_id g = sk_key_id key"
    using assms(2)
    by (auto simp: issue_grant_ok_iff Let_def grant_validate_def CURRENT_SCHEMA_VERSION_def result_simps
        is_ok_unit [symmetric])
  moreover have "assert_supported_schema_version ''1.0'' = Inr ()"
    by code_simp
  ultimately show ?thesis
    using vk_verify_sign [OF assms(1)] assms(3)
    by (simp add: verify_grant_signature_def thenR_def assert_supported_algorithm_def
        SUPPORTED_ALGORITHMS_def raise_if_def kr_verify_def kr_get_def)
qed

text \<open>Issue and verify: a grant that was issued was not issued by an agent, carries the
  arguments it was issued with, verifies against a keyring that trusts the key exactly within
  its time window widened by the leeway, and is refused as not yet valid before it and as
  expired after it.\<close>

theorem issue_verify_roundtrip:
  assumes "crypto_ok cr" "issue_grant cr now0 key args = Inr g"
    "kr (sk_key_id key) = Some (sk_verification_key cr key)" "0 \<le> leeway"
  shows "principal_type (g_issuer g) \<noteq> AGENT \<and> g_manifest_hash g = g_manifest_hash args
       \<and> g_scope g = g_scope args \<and> g_max_uses g = g_max_uses args
       \<and> verify_grant cr g kr now leeway =
           (if now < g_not_before args - leeway then Inl (GrantE GrantNotYetValidError)
            else if now > g_expires_at args + leeway then Inl (GrantE GrantExpiredError)
            else Inr ())"
proof -
  have "g_not_before g = g_not_before args \<and> g_expires_at g = g_expires_at args
      \<and> g_issuer g = g_issuer args \<and> g_manifest_hash g = g_manifest_hash args
      \<and> g_scope g = g_scope args \<and> g_max_uses g = g_max_uses args
      \<and> principal_type (g_issuer args) \<noteq> AGENT"
    using assms(2) by (auto simp: issue_grant_ok_iff Let_def)
  then show ?thesis
    using issued_grant_signature [where kr = kr, OF assms(1-3)]
    by (simp add: verify_grant_def thenR_def verify_grant_time_window_def Let_def)
qed

definition toy_grant_args :: execution_grant where
  "toy_grant_args = \<lparr>g_schema_version = ''1.0'', g_grant_id = ''g-1'', g_manifest_hash = None,
     g_policy_bundle_hash = None, g_approval_set_hash = None, g_decision_envelope_hash = None,
     g_causal_graph_hash = None, g_authority_budget_id = None, g_issuer = toy_principal ''alice'' HUMAN,
     g_subject = toy_principal ''agent-1'' AGENT, g_audience = [''pay''],
     g_allowed_effect_types = [''refund''], g_scope = unrestricted, g_issued_at = 0, g_not_before = 0,
     g_expires_at = 100, g_max_uses = 1, g_nonce = ''n'', g_parent_grant_id = None, g_key_id = ''key-1'',
     g_algorithm = ''ed25519'', g_signature = None\<rparr>"

lemma toy_grant_valid: "grant_validate toy_grant_args = Inr ()"
  by code_simp

lemma toy_grant_issued: "\<exists>g. issue_grant toy_crypto 0 toy_key toy_grant_args = Inr g"
proof -
  have "toy_grant_args\<lparr>g_schema_version := CURRENT_SCHEMA_VERSION, g_issued_at := 0,
      g_key_id := sk_key_id toy_key, g_algorithm := sk_algorithm toy_key, g_signature := None\<rparr> = toy_grant_args"
    by (simp add: toy_grant_args_def toy_key_def CURRENT_SCHEMA_VERSION_def)
  then show ?thesis
    using toy_grant_valid by (simp add: issue_grant_ok_iff Let_def) (simp add: toy_grant_args_def toy_principal_def)
qed

theorem issue_verify_roundtrip_witness:
  "\<exists>g. issue_grant toy_crypto 0 toy_key toy_grant_args = Inr g \<and> verify_grant toy_crypto g toy_keyring 50 0 = Inr ()
     \<and> verify_grant toy_crypto g toy_keyring 101 0 = Inl (GrantE GrantExpiredError)"
proof -
  obtain g where g: "issue_grant toy_crypto 0 toy_key toy_grant_args = Inr g"
    using toy_grant_issued by blast
  have k: "toy_keyring (sk_key_id toy_key) = Some (sk_verification_key toy_crypto toy_key)"
    using toy_keyring_key by (simp add: toy_key_def)
  show ?thesis
    using issue_verify_roundtrip [where kr = toy_keyring, OF toy_crypto_ok g k, of 0 50]
      issue_verify_roundtrip [where kr = toy_keyring, OF toy_crypto_ok g k, of 0 101] g
    by (simp add: toy_grant_args_def)
qed

theorem grant_hash_binds_witness:
  "toy_grant_args\<lparr>g_signature := None\<rparr> = (toy_grant_args\<lparr>g_signature := Some ''s''\<rparr>)\<lparr>g_signature := None\<rparr>"
  by (rule grant_hash_binds [OF toy_crypto_ok]) (simp_all add: no_collision_def signing_payload_def)

end
