(* ===== verification/GrantStores.thy ===== *)
theory GrantStores
  imports Prelude
begin

text \<open>
  The grant consumption store: the contract of \<^verbatim>\<open>stores/base.py\<close> as an abstract
  specification and a locale, and the three backends of \<^verbatim>\<open>stores/memory.py\<close>,
  \<^verbatim>\<open>stores/sqlite.py\<close> and \<^verbatim>\<open>stores/redis_store.py\<close> as interpretations of it.

  Every method of a backend is atomic (one lock, one SQLite transaction, one
  server-side Lua script), so a concurrent execution of any number of clients is a
  sequence of operations, and the theorems quantify over all sequences.

  The SQLite tables are maps from the primary key to the row, and the statements of a
  method act on them as SQL does (\<^verbatim>\<open>INSERT OR IGNORE\<close>, \<^verbatim>\<open>UPDATE ... WHERE\<close> with its
  row count).  A boolean argument says whether the driver raises
  \<^verbatim>\<open>sqlite3.Error\<close>, in which case the transaction is rolled back.  Redis is the flat
  map from keys to values it is, with the key names and decimal strings of the
  source; a call can fail before the server ran it or after.  SQLite and Redis
  themselves are not modelled.
\<close>

section \<open>Specification\<close>

record grant_view =
  gv_revoked :: "string \<Rightarrow> bool"
  gv_uses :: "string \<Rightarrow> nat"
  gv_held :: "string \<Rightarrow> bool"
  gv_outcome :: "string \<Rightarrow> string option"
  gv_lineage :: "string \<Rightarrow> string option option"

definition empty_view :: grant_view where
  "empty_view = \<lparr>gv_revoked = (\<lambda>_. False), gv_uses = (\<lambda>_. 0), gv_held = (\<lambda>_. False),
     gv_outcome = (\<lambda>_. None), gv_lineage = (\<lambda>_. None)\<rparr>"

definition spec_reserve :: "grant_view \<Rightarrow> string \<Rightarrow> int \<Rightarrow> bool \<times> grant_view" where
  "spec_reserve v g m =
     (if gv_revoked v g \<or> gv_held v g \<or> m \<le> int (gv_uses v g) then (False, v)
      else (True, v\<lparr>gv_held := (gv_held v)(g := True)\<rparr>))"

definition spec_release :: "grant_view \<Rightarrow> string \<Rightarrow> grant_view" where
  "spec_release v g = v\<lparr>gv_held := (gv_held v)(g := False)\<rparr>"

definition spec_commit :: "grant_view \<Rightarrow> string \<Rightarrow> string \<Rightarrow> string \<Rightarrow> grant_view option" where
  "spec_commit v g k out =
     (if gv_held v g
      then Some (v\<lparr>gv_uses := (gv_uses v)(g := Suc (gv_uses v g)),
                   gv_held := (gv_held v)(g := False),
                   gv_outcome := (gv_outcome v)(k := Some out)\<rparr>)
      else None)"

definition spec_revoke :: "grant_view \<Rightarrow> string \<Rightarrow> grant_view" where
  "spec_revoke v g = v\<lparr>gv_revoked := (gv_revoked v)(g := True)\<rparr>"

definition spec_record_outcome :: "grant_view \<Rightarrow> string \<Rightarrow> string \<Rightarrow> grant_view" where
  "spec_record_outcome v k out = v\<lparr>gv_outcome := (gv_outcome v)(k := Some out)\<rparr>"

definition spec_record_lineage :: "grant_view \<Rightarrow> string \<Rightarrow> string option \<Rightarrow> grant_view" where
  "spec_record_lineage v g p = v\<lparr>gv_lineage := (gv_lineage v)(g := Some p)\<rparr>"

lemma grant_view_eqI:
  assumes "\<And>g. gv_revoked v g = gv_revoked w g" "\<And>g. gv_uses v g = gv_uses w g"
    "\<And>g. gv_held v g = gv_held w g" "\<And>k. gv_outcome v k = gv_outcome w k"
    "\<And>g. gv_lineage v g = gv_lineage w g"
  shows "v = (w :: grant_view)"
  using assms by (cases v; cases w) (auto simp: fun_eq_iff)

lemmas spec_defs = spec_reserve_def spec_release_def spec_commit_def spec_revoke_def
  spec_record_outcome_def spec_record_lineage_def

section \<open>The operations of a backend, and sequences of calls\<close>

text \<open>The methods of the \<^verbatim>\<open>GrantStore\<close> protocol that a backend supplies.\<close>

datatype fault = NoFault | FailBefore | FailAfter

record 's grant_store_ops =
  gs_reserve :: "fault \<Rightarrow> 's \<Rightarrow> string \<Rightarrow> int \<Rightarrow> bool res \<times> 's"
  gs_release :: "fault \<Rightarrow> 's \<Rightarrow> string \<Rightarrow> unit res \<times> 's"
  gs_commit :: "fault \<Rightarrow> 's \<Rightarrow> string \<Rightarrow> string \<Rightarrow> string \<Rightarrow> unit res \<times> 's"
  gs_revoke :: "fault \<Rightarrow> 's \<Rightarrow> string \<Rightarrow> unit res \<times> 's"
  gs_record_idempotent_outcome :: "fault \<Rightarrow> 's \<Rightarrow> string \<Rightarrow> string \<Rightarrow> unit res \<times> 's"
  gs_record_lineage :: "fault \<Rightarrow> 's \<Rightarrow> string \<Rightarrow> string option \<Rightarrow> unit res \<times> 's"
  gs_is_revoked :: "'s \<Rightarrow> string \<Rightarrow> bool"
  gs_get_use_count :: "'s \<Rightarrow> string \<Rightarrow> nat"
  gs_get_idempotent_outcome :: "'s \<Rightarrow> string \<Rightarrow> string option"
  gs_get_parent_grant_id :: "'s \<Rightarrow> string \<Rightarrow> string option"
  gs_has_lineage :: "'s \<Rightarrow> string \<Rightarrow> bool"

datatype store_op =
    Reserve string int
  | Release string
  | Commit string string string
  | Revoke string
  | RecordOutcome string string
  | RecordLineage string "string option"

datatype op_result = Granted bool | Done | Failed

fun result_of :: "unit res \<Rightarrow> op_result" where
  "result_of (Inl _) = Failed"
| "result_of (Inr _) = Done"

fun granted_of :: "bool res \<Rightarrow> op_result" where
  "granted_of (Inl _) = Failed"
| "granted_of (Inr b) = Granted b"

definition gs_step :: "'s grant_store_ops \<Rightarrow> fault \<Rightarrow> 's \<Rightarrow> store_op \<Rightarrow> op_result \<times> 's" where
  "gs_step ops f s c = (case c of
      Reserve g m \<Rightarrow> apfst granted_of (gs_reserve ops f s g m)
    | Release g \<Rightarrow> apfst result_of (gs_release ops f s g)
    | Commit g k out \<Rightarrow> apfst result_of (gs_commit ops f s g k out)
    | Revoke g \<Rightarrow> apfst result_of (gs_revoke ops f s g)
    | RecordOutcome k out \<Rightarrow> apfst result_of (gs_record_idempotent_outcome ops f s k out)
    | RecordLineage g p \<Rightarrow> apfst result_of (gs_record_lineage ops f s g p))"

text \<open>A run of calls, each with the fault that occurs during it, and the outcome of
  each call.\<close>

fun gs_run :: "'s grant_store_ops \<Rightarrow> 's \<Rightarrow> (fault \<times> store_op) list \<Rightarrow> op_result list \<times> 's" where
  "gs_run ops s [] = ([], s)"
| "gs_run ops s ((f, c) # cs) =
     (case gs_step ops f s c of (r, s') \<Rightarrow> case gs_run ops s' cs of (rs, s'') \<Rightarrow> (r # rs, s''))"

definition spec_step :: "grant_view \<Rightarrow> store_op \<Rightarrow> op_result \<times> grant_view" where
  "spec_step v c = (case c of
      Reserve g m \<Rightarrow> (case spec_reserve v g m of (b, v') \<Rightarrow> (Granted b, v'))
    | Release g \<Rightarrow> (Done, spec_release v g)
    | Commit g k out \<Rightarrow> (case spec_commit v g k out of None \<Rightarrow> (Failed, v) | Some v' \<Rightarrow> (Done, v'))
    | Revoke g \<Rightarrow> (Done, spec_revoke v g)
    | RecordOutcome k out \<Rightarrow> (Done, spec_record_outcome v k out)
    | RecordLineage g p \<Rightarrow> (Done, spec_record_lineage v g p))"

text \<open>What a call may do: what the specification says, or report a failure having
  done either nothing or all of it.\<close>

definition spec_allows :: "grant_view \<Rightarrow> store_op \<Rightarrow> op_result \<Rightarrow> grant_view \<Rightarrow> bool" where
  "spec_allows v c r v' \<longleftrightarrow>
     spec_step v c = (r, v') \<or> r = Failed \<and> (v' = v \<or> v' = snd (spec_step v c))"

fun spec_trace :: "grant_view \<Rightarrow> (store_op \<times> op_result) list \<Rightarrow> grant_view \<Rightarrow> bool" where
  "spec_trace v [] v' \<longleftrightarrow> v' = v"
| "spec_trace v ((c, r) # tr) v' \<longleftrightarrow> (\<exists>w. spec_allows v c r w \<and> spec_trace w tr v')"

fun spec_run :: "grant_view \<Rightarrow> store_op list \<Rightarrow> op_result list \<times> grant_view" where
  "spec_run v [] = ([], v)"
| "spec_run v (c # cs) =
     (case spec_step v c of (r, v') \<Rightarrow> case spec_run v' cs of (rs, v'') \<Rightarrow> (r # rs, v''))"

text \<open>The discipline of the engine: a grant is always presented with the limit it was
  signed with, and no parent identifier is empty.\<close>

fun disciplined :: "(string \<Rightarrow> int) \<Rightarrow> store_op \<Rightarrow> bool" where
  "disciplined M (Reserve g m) \<longleftrightarrow> m = M g"
| "disciplined M (RecordLineage g p) \<longleftrightarrow> p \<noteq> Some []"
| "disciplined M _ \<longleftrightarrow> True"

fun is_commit_of :: "string \<Rightarrow> store_op \<Rightarrow> bool" where
  "is_commit_of g (Commit g' _ _) \<longleftrightarrow> g' = g"
| "is_commit_of g _ \<longleftrightarrow> False"

text \<open>How many uses of a grant a run has reported as consumed.\<close>

definition commits_of :: "string \<Rightarrow> (store_op \<times> op_result) list \<Rightarrow> nat" where
  "commits_of g tr = length (filter (\<lambda>(c, r). is_commit_of g c \<and> r = Done) tr)"

section \<open>What follows from the specification\<close>

definition view_within :: "(string \<Rightarrow> int) \<Rightarrow> grant_view \<Rightarrow> bool" where
  "view_within M v \<longleftrightarrow>
     (\<forall>g. int (gv_uses v g) + (if gv_held v g then 1 else 0) \<le> max 0 (M g))"

lemma spec_step_within:
  assumes "view_within M v" "disciplined M c"
  shows "view_within M (snd (spec_step v c))"
  unfolding view_within_def
proof
  fix g
  let ?v = "snd (spec_step v c)"
  have "int (gv_uses v g) + (if gv_held v g then 1 else 0) \<le> max 0 (M g)"
    using assms(1) by (simp add: view_within_def)
  then show "int (gv_uses ?v g) + (if gv_held ?v g then 1 else 0) \<le> max 0 (M g)"
    using assms(2)
    by (cases c) (auto simp: spec_step_def spec_defs split: if_splits)
qed

lemma spec_reserve_held: "spec_reserve v g m = (True, v') \<Longrightarrow> gv_held v' g"
  by (auto simp: spec_reserve_def split: if_splits)

lemma spec_trace_within:
  "view_within M v \<Longrightarrow> \<forall>(c, r) \<in> set tr. disciplined M c \<Longrightarrow> spec_trace v tr v' \<Longrightarrow> view_within M v'"
proof (induction v tr v' rule: spec_trace.induct)
  case (2 v c r tr v')
  then show ?case
    using spec_step_within [of M v c] by (auto simp: spec_allows_def)
qed simp

lemma spec_step_uses:
  "gv_uses (snd (spec_step v c)) g =
     gv_uses v g + (if is_commit_of g c \<and> fst (spec_step v c) = Done then 1 else 0)"
  by (cases c) (auto simp: spec_step_def spec_defs split: prod.splits)

lemma spec_trace_uses: "spec_trace v tr v' \<Longrightarrow> gv_uses v g + commits_of g tr \<le> gv_uses v' g"
proof (induction v tr v' rule: spec_trace.induct)
  case (2 v c r tr v')
  then obtain w where w: "spec_allows v c r w" "spec_trace w tr v'" by auto
  have "gv_uses v g + (if is_commit_of g c \<and> r = Done then 1 else 0) \<le> gv_uses w g"
    using w(1) spec_step_uses [of v c g] by (auto simp: spec_allows_def)
  then show ?case
    using 2(1) [OF w(2)] by (auto simp: commits_of_def)
qed (simp add: commits_of_def)

lemma spec_step_refuses: "gv_revoked v g \<or> gv_held v g \<Longrightarrow> spec_step v (Reserve g m) = (Granted False, v)"
  by (auto simp: spec_step_def spec_reserve_def)

lemma spec_step_revoked: "gv_revoked v g \<Longrightarrow> gv_revoked (snd (spec_step v c)) g"
  by (cases c) (simp_all add: spec_step_def spec_defs split: option.splits)

lemma spec_allows_revoked:
  "spec_allows v c r w \<Longrightarrow> gv_revoked v g \<Longrightarrow> gv_revoked w g \<and> (\<forall>m. c = Reserve g m \<longrightarrow> r \<noteq> Granted True)"
  using spec_step_revoked [of v g c] by (auto simp: spec_allows_def spec_step_refuses)

lemma spec_trace_revoked:
  "spec_trace v tr v' \<Longrightarrow> gv_revoked v g \<Longrightarrow> (Reserve g m, Granted True) \<notin> set tr"
proof (induction v tr v' rule: spec_trace.induct)
  case (2 v c r tr v')
  then show ?case
    using spec_allows_revoked [of v c r _ g] by fastforce
qed simp

fun ends_hold :: "string \<Rightarrow> store_op \<Rightarrow> bool" where
  "ends_hold g (Release g') \<longleftrightarrow> g' = g"
| "ends_hold g (Commit g' _ _) \<longleftrightarrow> g' = g"
| "ends_hold g _ \<longleftrightarrow> False"

lemma spec_step_held: "gv_held v g \<Longrightarrow> \<not> ends_hold g c \<Longrightarrow> gv_held (snd (spec_step v c)) g"
  by (cases c) (auto simp: spec_step_def spec_defs split: option.splits)

lemma spec_allows_held:
  "spec_allows v c r w \<Longrightarrow> gv_held v g \<Longrightarrow> \<not> ends_hold g c \<Longrightarrow>
     gv_held w g \<and> (\<forall>m. c = Reserve g m \<longrightarrow> r \<noteq> Granted True)"
  using spec_step_held [of v g c] by (auto simp: spec_allows_def spec_step_refuses)

lemma spec_trace_exclusive:
  "spec_trace v tr v' \<Longrightarrow> gv_held v g \<Longrightarrow> \<forall>(c, r) \<in> set tr. \<not> ends_hold g c \<Longrightarrow>
     (Reserve g m, Granted True) \<notin> set tr"
proof (induction v tr v' rule: spec_trace.induct)
  case (2 v c r tr v')
  then obtain w where w: "spec_allows v c r w" "spec_trace w tr v'" by auto
  moreover have "\<not> ends_hold g c"
    using "2.prems"(3) by simp
  ultimately have "gv_held w g" "\<forall>m. c = Reserve g m \<longrightarrow> r \<noteq> Granted True"
    using spec_allows_held "2.prems"(2) by blast+
  then show ?case
    using "2.IH" [OF w(2)] "2.prems"(3) by auto
qed simp

section \<open>The contract\<close>

text \<open>A backend implements the specification: through an abstraction function to
  \<^typ>\<open>grant_view\<close> every method does what the specification allows, on the states the
  backend's invariant allows and for the limits \<open>M\<close> the clients present; without a
  fault it does what the specification says; and the queries read that view.\<close>

locale grant_store =
  fixes ops :: "'s grant_store_ops"
    and view :: "'s \<Rightarrow> grant_view"
    and inv :: "(string \<Rightarrow> int) \<Rightarrow> 's \<Rightarrow> bool"
  assumes step_allowed: "inv M s \<Longrightarrow> disciplined M c \<Longrightarrow> gs_step ops f s c = (r, s') \<Longrightarrow>
      inv M s' \<and> spec_allows (view s) c r (view s')"
    and step_exact: "inv M s \<Longrightarrow> disciplined M c \<Longrightarrow> gs_step ops NoFault s c = (r, s') \<Longrightarrow>
      spec_step (view s) c = (r, view s')"
    and is_revoked: "inv M s \<Longrightarrow> gs_is_revoked ops s g = gv_revoked (view s) g"
    and get_use_count: "inv M s \<Longrightarrow> gs_get_use_count ops s g = gv_uses (view s) g"
    and get_outcome: "inv M s \<Longrightarrow> gs_get_idempotent_outcome ops s k = gv_outcome (view s) k"
    and has_lineage: "inv M s \<Longrightarrow> gs_has_lineage ops s g = (gv_lineage (view s) g \<noteq> None)"
    and get_parent: "inv M s \<Longrightarrow> gs_get_parent_grant_id ops s g =
      (case gv_lineage (view s) g of None \<Rightarrow> None | Some p \<Rightarrow> p)"
begin

lemma run_refines:
  "inv M s \<Longrightarrow> \<forall>(f, c) \<in> set cs. disciplined M c \<Longrightarrow> gs_run ops s cs = (rs, s') \<Longrightarrow>
     inv M s' \<and> length rs = length cs \<and> spec_trace (view s) (zip (map snd cs) rs) (view s')"
proof (induction cs arbitrary: s rs s')
  case (Cons fc cs)
  obtain f c where fc: "fc = (f, c)" by (cases fc)
  obtain r t where s: "gs_step ops f s c = (r, t)" by fastforce
  obtain rs' u where q: "gs_run ops t cs = (rs', u)" by fastforce
  have a: "inv M t \<and> spec_allows (view s) c r (view t)"
    using step_allowed [OF Cons.prems(1) _ s] Cons.prems(2) fc by simp
  have "\<forall>(f, c) \<in> set cs. disciplined M c"
    using Cons.prems(2) by simp
  then have "inv M u \<and> length rs' = length cs \<and> spec_trace (view t) (zip (map snd cs) rs') (view u)"
    using Cons.IH [OF _ _ q] a by blast
  then show ?case
    using a Cons.prems(3) fc s q by auto
qed simp

lemma run_exact:
  "inv M s \<Longrightarrow> \<forall>c \<in> set cs. disciplined M c \<Longrightarrow>
     spec_run (view s) cs = apsnd view (gs_run ops s (map (Pair NoFault) cs))"
proof (induction cs arbitrary: s)
  case (Cons c cs)
  obtain r t where s: "gs_step ops NoFault s c = (r, t)" by fastforce
  have d: "disciplined M c" "\<forall>c \<in> set cs. disciplined M c"
    using Cons.prems(2) by simp_all
  have "inv M t" "spec_step (view s) c = (r, view t)"
    using step_allowed [OF Cons.prems(1) d(1) s] step_exact [OF Cons.prems(1) d(1) s] by simp_all
  then show ?case
    using Cons.IH [of t] d(2) s by (auto split: prod.splits)
qed simp

lemma run_uses:
  assumes i: "inv M s" and e: "view s = empty_view" and d: "\<forall>(f, c) \<in> set cs. disciplined M c"
    and r: "gs_run ops s cs = (rs, s')"
  shows "commits_of g (zip (map snd cs) rs) \<le> gs_get_use_count ops s' g
       \<and> int (gs_get_use_count ops s' g) \<le> max 0 (M g)"
proof -
  let ?tr = "zip (map snd cs) rs"
  have t: "inv M s'" "spec_trace empty_view ?tr (view s')"
    using run_refines [OF i d r] e by auto
  have "\<forall>(c, r) \<in> set ?tr. disciplined M c"
    using d by (force dest: set_zip_leftD)
  moreover have "view_within M empty_view"
    by (simp add: view_within_def empty_view_def)
  ultimately have "view_within M (view s')"
    using spec_trace_within t(2) by blast
  then have "int (gv_uses (view s') g) \<le> max 0 (M g)"
    by (auto simp: view_within_def dest!: spec [of _ g] split: if_splits)
  moreover have "commits_of g ?tr \<le> gv_uses (view s') g"
    using spec_trace_uses [OF t(2), of g] by (simp add: empty_view_def)
  ultimately show ?thesis
    using get_use_count [OF t(1)] by simp
qed

lemma run_revoked:
  assumes "inv M s" "gs_is_revoked ops s g" "\<forall>(f, c) \<in> set cs. disciplined M c"
    "gs_run ops s cs = (rs, s')"
  shows "(Reserve g m, Granted True) \<notin> set (zip (map snd cs) rs)"
  using spec_trace_revoked run_refines [OF assms(1,3,4)] is_revoked [OF assms(1)] assms(2) by blast

lemma run_exclusive:
  assumes i: "inv M s" and h: "gs_reserve ops f s g (M g) = (Inr True, t)"
    and d: "\<forall>(f, c) \<in> set cs. disciplined M c \<and> \<not> ends_hold g c"
    and r: "gs_run ops t cs = (rs, s')"
  shows "(Reserve g m, Granted True) \<notin> set (zip (map snd cs) rs)"
proof -
  have "gs_step ops f s (Reserve g (M g)) = (Granted True, t)"
    using h by (simp add: gs_step_def)
  from step_allowed [OF i _ this] have t: "inv M t" "gv_held (view t) g"
    using spec_reserve_held
    by (auto simp: spec_allows_def spec_step_def split: prod.splits)
  have "\<forall>(f, c) \<in> set cs. disciplined M c"
    using d by auto
  then have "spec_trace (view t) (zip (map snd cs) rs) (view s')"
    using run_refines [OF t(1) _ r] by blast
  moreover have "\<forall>(c, r) \<in> set (zip (map snd cs) rs). \<not> ends_hold g c"
    using d by (force dest: set_zip_leftD)
  ultimately show ?thesis
    using spec_trace_exclusive t(2) by blast
qed

end

section \<open>In memory\<close>

record slot =
  sl_max_uses :: int
  sl_uses :: nat
  sl_revoked :: bool
  sl_reserved :: bool

definition new_slot :: "int \<Rightarrow> slot" where
  "new_slot m = \<lparr>sl_max_uses = m, sl_uses = 0, sl_revoked = False, sl_reserved = False\<rparr>"

record mem_store =
  ms_slots :: "string \<Rightarrow> slot option"
  ms_idempotency :: "string \<Rightarrow> string option"
  ms_lineage :: "string \<Rightarrow> string option option"

definition mem_init :: mem_store where
  "mem_init = \<lparr>ms_slots = (\<lambda>_. None), ms_idempotency = (\<lambda>_. None), ms_lineage = (\<lambda>_. None)\<rparr>"

definition mem_reserve :: "mem_store \<Rightarrow> string \<Rightarrow> int \<Rightarrow> bool \<times> mem_store" where
  "mem_reserve st g m =
     (let sl = (case ms_slots st g of None \<Rightarrow> new_slot m | Some sl \<Rightarrow> sl);
          st1 = st\<lparr>ms_slots := (ms_slots st)(g := Some sl)\<rparr>
      in if sl_revoked sl \<or> sl_reserved sl \<or> int (sl_uses sl) \<ge> sl_max_uses sl then (False, st1)
         else (True, st1\<lparr>ms_slots := (ms_slots st1)(g := Some (sl\<lparr>sl_reserved := True\<rparr>))\<rparr>))"

definition mem_release :: "mem_store \<Rightarrow> string \<Rightarrow> mem_store" where
  "mem_release st g = (case ms_slots st g of
      None \<Rightarrow> st
    | Some sl \<Rightarrow> st\<lparr>ms_slots := (ms_slots st)(g := Some (sl\<lparr>sl_reserved := False\<rparr>))\<rparr>)"

definition mem_commit :: "mem_store \<Rightarrow> string \<Rightarrow> string \<Rightarrow> string \<Rightarrow> unit res \<times> mem_store" where
  "mem_commit st g k out = (case ms_slots st g of
      None \<Rightarrow> (Inl RuntimeError, st)
    | Some sl \<Rightarrow>
        if \<not> sl_reserved sl then (Inl RuntimeError, st)
        else (Inr (), st\<lparr>ms_slots := (ms_slots st)(g := Some (sl\<lparr>sl_uses := sl_uses sl + 1,
                                                                 sl_reserved := False\<rparr>)),
                        ms_idempotency := (ms_idempotency st)(k := Some out)\<rparr>))"

definition mem_revoke :: "mem_store \<Rightarrow> string \<Rightarrow> mem_store" where
  "mem_revoke st g =
     (let sl = (case ms_slots st g of None \<Rightarrow> new_slot 0 | Some sl \<Rightarrow> sl)
      in st\<lparr>ms_slots := (ms_slots st)(g := Some (sl\<lparr>sl_revoked := True\<rparr>))\<rparr>)"

definition mem_is_revoked :: "mem_store \<Rightarrow> string \<Rightarrow> bool" where
  "mem_is_revoked st g = (case ms_slots st g of None \<Rightarrow> False | Some sl \<Rightarrow> sl_revoked sl)"

definition mem_get_use_count :: "mem_store \<Rightarrow> string \<Rightarrow> nat" where
  "mem_get_use_count st g = (case ms_slots st g of None \<Rightarrow> 0 | Some sl \<Rightarrow> sl_uses sl)"

definition mem_get_idempotent_outcome :: "mem_store \<Rightarrow> string \<Rightarrow> string option" where
  "mem_get_idempotent_outcome st k = ms_idempotency st k"

definition mem_record_idempotent_outcome :: "mem_store \<Rightarrow> string \<Rightarrow> string \<Rightarrow> mem_store" where
  "mem_record_idempotent_outcome st k out =
     st\<lparr>ms_idempotency := (ms_idempotency st)(k := Some out)\<rparr>"

definition mem_record_lineage :: "mem_store \<Rightarrow> string \<Rightarrow> string option \<Rightarrow> mem_store" where
  "mem_record_lineage st g p = st\<lparr>ms_lineage := (ms_lineage st)(g := Some p)\<rparr>"

definition mem_get_parent_grant_id :: "mem_store \<Rightarrow> string \<Rightarrow> string option" where
  "mem_get_parent_grant_id st g = (case ms_lineage st g of None \<Rightarrow> None | Some p \<Rightarrow> p)"

definition mem_has_lineage :: "mem_store \<Rightarrow> string \<Rightarrow> bool" where
  "mem_has_lineage st g \<longleftrightarrow> ms_lineage st g \<noteq> None"

text \<open>No call of this backend fails, so a fault has no effect.\<close>

definition mem_ops :: "mem_store grant_store_ops" where
  "mem_ops = \<lparr>gs_reserve = (\<lambda>f s g m. apfst Inr (mem_reserve s g m)),
     gs_release = (\<lambda>f s g. (Inr (), mem_release s g)),
     gs_commit = (\<lambda>f s g k out. mem_commit s g k out),
     gs_revoke = (\<lambda>f s g. (Inr (), mem_revoke s g)),
     gs_record_idempotent_outcome = (\<lambda>f s k out. (Inr (), mem_record_idempotent_outcome s k out)),
     gs_record_lineage = (\<lambda>f s g p. (Inr (), mem_record_lineage s g p)),
     gs_is_revoked = mem_is_revoked, gs_get_use_count = mem_get_use_count,
     gs_get_idempotent_outcome = mem_get_idempotent_outcome,
     gs_get_parent_grant_id = mem_get_parent_grant_id, gs_has_lineage = mem_has_lineage\<rparr>"

definition mem_view :: "mem_store \<Rightarrow> grant_view" where
  "mem_view st = \<lparr>gv_revoked = mem_is_revoked st, gv_uses = mem_get_use_count st,
     gv_held = (\<lambda>g. case ms_slots st g of None \<Rightarrow> False | Some sl \<Rightarrow> sl_reserved sl),
     gv_outcome = ms_idempotency st, gv_lineage = ms_lineage st\<rparr>"

text \<open>A slot created by \<^verbatim>\<open>revoke\<close> has limit zero and stays revoked; every other slot
  has the limit its clients present.\<close>

definition mem_inv :: "(string \<Rightarrow> int) \<Rightarrow> mem_store \<Rightarrow> bool" where
  "mem_inv M st \<longleftrightarrow> (\<forall>g sl. ms_slots st g = Some sl \<longrightarrow> sl_max_uses sl = M g \<or> sl_revoked sl)"

lemmas mem_defs = mem_reserve_def mem_release_def mem_commit_def mem_revoke_def mem_is_revoked_def
  mem_get_use_count_def mem_get_idempotent_outcome_def mem_record_idempotent_outcome_def
  mem_record_lineage_def mem_get_parent_grant_id_def mem_has_lineage_def new_slot_def

lemma mem_inv_upd:
  assumes "mem_inv M st" "sl_max_uses sl = M g \<or> sl_revoked sl"
  shows "mem_inv M (st\<lparr>ms_slots := (ms_slots st)(g := Some sl)\<rparr>)"
  using assms by (simp add: mem_inv_def)

lemma mem_inv_frame [simp]:
  "mem_inv M (st\<lparr>ms_idempotency := i\<rparr>) = mem_inv M st" "mem_inv M (st\<lparr>ms_lineage := l\<rparr>) = mem_inv M st"
  by (simp_all add: mem_inv_def)

lemma mem_inv_slot: "mem_inv M st \<Longrightarrow> ms_slots st g = Some sl \<Longrightarrow> sl_max_uses sl = M g \<or> sl_revoked sl"
  by (simp add: mem_inv_def)

lemma mem_view_upd:
  "mem_view (st\<lparr>ms_slots := (ms_slots st)(g := Some sl)\<rparr>) =
     (mem_view st)\<lparr>gv_revoked := (gv_revoked (mem_view st))(g := sl_revoked sl),
       gv_uses := (gv_uses (mem_view st))(g := sl_uses sl),
       gv_held := (gv_held (mem_view st))(g := sl_reserved sl)\<rparr>"
  by (auto simp: mem_view_def mem_is_revoked_def mem_get_use_count_def fun_eq_iff)

lemma mem_view_slot:
  "ms_slots st g = Some sl \<Longrightarrow> gv_revoked (mem_view st) g = sl_revoked sl \<and>
     gv_uses (mem_view st) g = sl_uses sl \<and> gv_held (mem_view st) g = sl_reserved sl"
  "ms_slots st g = None \<Longrightarrow> \<not> gv_revoked (mem_view st) g \<and>
     gv_uses (mem_view st) g = 0 \<and> \<not> gv_held (mem_view st) g"
  by (simp_all add: mem_view_def mem_is_revoked_def mem_get_use_count_def)

lemma grant_view_same:
  "f g = x \<Longrightarrow> f(g := x) = f"
  by auto

lemma mem_reserve_refines:
  assumes i: "mem_inv M s" and r: "mem_reserve s g (M g) = (b, s')"
  shows "mem_inv M s' \<and> spec_reserve (mem_view s) g (M g) = (b, mem_view s')"
proof (cases "ms_slots s g")
  case None
  have v: "(gv_revoked (mem_view s))(g := False) = gv_revoked (mem_view s)"
    "(gv_uses (mem_view s))(g := 0) = gv_uses (mem_view s)"
    "(gv_held (mem_view s))(g := False) = gv_held (mem_view s)"
    using mem_view_slot(2) [OF None] by (auto intro: grant_view_same)
  show ?thesis
    using r mem_view_slot(2) [OF None] v
    by (auto simp: mem_reserve_def None Let_def new_slot_def spec_reserve_def mem_view_upd
        intro!: mem_inv_upd i split: if_splits)
next
  case (Some sl)
  have v: "(gv_revoked (mem_view s))(g := sl_revoked sl) = gv_revoked (mem_view s)"
    "(gv_uses (mem_view s))(g := sl_uses sl) = gv_uses (mem_view s)"
    "(gv_held (mem_view s))(g := sl_reserved sl) = gv_held (mem_view s)"
    using mem_view_slot(1) [OF Some] by (auto intro: grant_view_same)
  show ?thesis
    using r mem_view_slot(1) [OF Some] v mem_inv_slot [OF i Some]
    by (auto simp: mem_reserve_def Some Let_def spec_reserve_def mem_view_upd
        intro!: mem_inv_upd i split: if_splits)
qed

lemma mem_commit_ok_refines:
  assumes i: "mem_inv M s" and c: "mem_commit s g k out = (Inr u, s')"
  shows "mem_inv M s' \<and> spec_commit (mem_view s) g k out = Some (mem_view s')"
proof -
  obtain sl where sl: "ms_slots s g = Some sl" "sl_reserved sl"
    and s': "s' = s\<lparr>ms_slots := (ms_slots s)(g := Some (sl\<lparr>sl_uses := sl_uses sl + 1,
                     sl_reserved := False\<rparr>)), ms_idempotency := (ms_idempotency s)(k := Some out)\<rparr>"
    using c by (auto simp: mem_commit_def split: option.splits if_splits)
  have "mem_inv M s'"
    unfolding s' using mem_inv_upd [OF i, of "sl\<lparr>sl_uses := sl_uses sl + 1, sl_reserved := False\<rparr>" g]
      mem_inv_slot [OF i sl(1)] by (simp add: mem_inv_def)
  moreover have "spec_commit (mem_view s) g k out = Some (mem_view s')"
    unfolding spec_commit_def using mem_view_slot(1) [OF sl(1)] sl
    by (auto simp: fun_eq_iff s' mem_view_def mem_is_revoked_def mem_get_use_count_def)
  ultimately show ?thesis ..
qed

lemma mem_release_refines:
  assumes i: "mem_inv M s"
  shows "mem_inv M (mem_release s g) \<and> mem_view (mem_release s g) = spec_release (mem_view s) g"
  using mem_inv_slot [OF i, of g]
  by (auto intro!: mem_inv_upd i split: option.splits
      simp: fun_eq_iff mem_release_def spec_release_def mem_view_def mem_is_revoked_def
        mem_get_use_count_def)

lemma mem_commit_error_refines:
  "mem_inv M s \<Longrightarrow> mem_commit s g k out = (Inl e, s') \<Longrightarrow>
     s' = s \<and> spec_commit (mem_view s) g k out = None"
  using mem_view_slot [of s g]
  by (auto simp: mem_commit_def spec_commit_def split: option.splits if_splits)

lemma mem_revoke_refines:
  assumes i: "mem_inv M s"
  shows "mem_inv M (mem_revoke s g) \<and> mem_view (mem_revoke s g) = spec_revoke (mem_view s) g"
  by (auto intro!: mem_inv_upd i split: option.splits simp: fun_eq_iff Let_def new_slot_def
      mem_revoke_def spec_revoke_def mem_view_def mem_is_revoked_def mem_get_use_count_def)

lemma mem_record_refines:
  assumes i: "mem_inv M s"
  shows "mem_inv M (mem_record_idempotent_outcome s k out)
      \<and> mem_view (mem_record_idempotent_outcome s k out) = spec_record_outcome (mem_view s) k out"
    and "mem_inv M (mem_record_lineage s g p)
      \<and> mem_view (mem_record_lineage s g p) = spec_record_lineage (mem_view s) g p"
  using i
  by (auto simp: fun_eq_iff mem_record_idempotent_outcome_def mem_record_lineage_def
      spec_record_outcome_def spec_record_lineage_def mem_view_def mem_is_revoked_def
      mem_get_use_count_def)

lemma mem_step_exact:
  assumes i: "mem_inv M s" and d: "disciplined M c" and st: "gs_step mem_ops f s c = (r, s')"
  shows "mem_inv M s' \<and> spec_step (mem_view s) c = (r, mem_view s')"
proof (cases c)
  case (Reserve g m)
  obtain b t where q: "mem_reserve s g (M g) = (b, t)" by fastforce
  show ?thesis
    using mem_reserve_refines [OF i q] q Reserve d st
    by (auto simp: gs_step_def spec_step_def mem_ops_def)
next
  case (Commit g k out)
  obtain q t where q: "mem_commit s g k out = (q, t)" by fastforce
  show ?thesis
    using mem_commit_ok_refines [OF i, of g k out] mem_commit_error_refines [OF i, of g k out] i
      Commit q st
    by (cases q) (auto simp: gs_step_def spec_step_def mem_ops_def)
qed (use mem_release_refines [OF i] mem_revoke_refines [OF i] mem_record_refines [OF i] st in
    \<open>auto simp: gs_step_def spec_step_def mem_ops_def\<close>)

interpretation mem: grant_store mem_ops mem_view mem_inv
proof
  fix M s c f r s' g k
  assume i: "mem_inv M s"
  show "mem_inv M s' \<and> spec_allows (mem_view s) c r (mem_view s')"
    if "disciplined M c" "gs_step mem_ops f s c = (r, s')"
    using mem_step_exact [OF i that] by (simp add: spec_allows_def)
  show "spec_step (mem_view s) c = (r, mem_view s')"
    if "disciplined M c" "gs_step mem_ops NoFault s c = (r, s')"
    using mem_step_exact [OF i that] by simp
qed (simp_all add: mem_ops_def mem_view_def mem_get_idempotent_outcome_def mem_has_lineage_def
    mem_get_parent_grant_id_def)

section \<open>SQLite\<close>

record slot_row =
  row_max_uses :: int
  row_uses :: nat
  row_revoked :: int
  row_reserved :: int

record sqlite_store =
  sq_grant_slots :: "string \<Rightarrow> slot_row option"
  sq_idempotency_ledger :: "string \<Rightarrow> string option"
  sq_grant_lineage :: "string \<Rightarrow> string option option"

text \<open>\<^verbatim>\<open>INSERT OR IGNORE\<close>, \<^verbatim>\<open>INSERT OR REPLACE\<close> and \<^verbatim>\<open>UPDATE ... WHERE key = ? AND ...\<close> on a
  table keyed by its primary key; an update also returns its row count.\<close>

definition insert_or_ignore :: "('k \<Rightarrow> 'r option) \<Rightarrow> 'k \<Rightarrow> 'r \<Rightarrow> 'k \<Rightarrow> 'r option" where
  "insert_or_ignore t k r = (case t k of None \<Rightarrow> t(k := Some r) | Some _ \<Rightarrow> t)"

definition insert_or_replace :: "('k \<Rightarrow> 'r option) \<Rightarrow> 'k \<Rightarrow> 'r \<Rightarrow> 'k \<Rightarrow> 'r option" where
  "insert_or_replace t k r = t(k := Some r)"

definition update_where :: "('k \<Rightarrow> 'r option) \<Rightarrow> 'k \<Rightarrow> ('r \<Rightarrow> bool) \<Rightarrow> ('r \<Rightarrow> 'r) \<Rightarrow> nat \<times> ('k \<Rightarrow> 'r option)" where
  "update_where t k c f = (case t k of
      None \<Rightarrow> (0, t) | Some r \<Rightarrow> if c r then (1, t(k := Some (f r))) else (0, t))"

definition new_row :: "int \<Rightarrow> slot_row" where
  "new_row m = \<lparr>row_max_uses = m, row_uses = 0, row_revoked = 0, row_reserved = 0\<rparr>"

definition sq_init :: sqlite_store where
  "sq_init = \<lparr>sq_grant_slots = (\<lambda>_. None), sq_idempotency_ledger = (\<lambda>_. None),
     sq_grant_lineage = (\<lambda>_. None)\<rparr>"

text \<open>A method whose statements raise \<^verbatim>\<open>sqlite3.Error\<close> rolls back.\<close>

definition sq_tx :: "fault \<Rightarrow> (sqlite_store \<Rightarrow> 'a res \<times> sqlite_store) \<Rightarrow> sqlite_store \<Rightarrow> 'a res \<times> sqlite_store" where
  "sq_tx f body st = (if f = NoFault then body st else (Inl (StoreE StoreUnavailableError), st))"

definition sq_reserve :: "fault \<Rightarrow> sqlite_store \<Rightarrow> string \<Rightarrow> int \<Rightarrow> bool res \<times> sqlite_store" where
  "sq_reserve f st g m = sq_tx f (\<lambda>st.
     let t = insert_or_ignore (sq_grant_slots st) g (new_row m);
         (n, t') = update_where t g
           (\<lambda>r. row_revoked r = 0 \<and> row_reserved r = 0 \<and> int (row_uses r) < row_max_uses r)
           (\<lambda>r. r\<lparr>row_reserved := 1\<rparr>)
     in (Inr (n = 1), st\<lparr>sq_grant_slots := t'\<rparr>)) st"

definition sq_release :: "fault \<Rightarrow> sqlite_store \<Rightarrow> string \<Rightarrow> unit res \<times> sqlite_store" where
  "sq_release f st g = sq_tx f (\<lambda>st.
     (Inr (), st\<lparr>sq_grant_slots :=
        snd (update_where (sq_grant_slots st) g (\<lambda>_. True) (\<lambda>r. r\<lparr>row_reserved := 0\<rparr>))\<rparr>)) st"

definition sq_commit :: "fault \<Rightarrow> sqlite_store \<Rightarrow> string \<Rightarrow> string \<Rightarrow> string \<Rightarrow> unit res \<times> sqlite_store" where
  "sq_commit f st g k out = sq_tx f (\<lambda>st.
     let (n, t) = update_where (sq_grant_slots st) g (\<lambda>r. row_reserved r = 1)
           (\<lambda>r. r\<lparr>row_uses := row_uses r + 1, row_reserved := 0\<rparr>)
     in if n \<noteq> 1 then (Inl (StoreE StoreUnavailableError), st)
        else (Inr (), st\<lparr>sq_grant_slots := t,
                sq_idempotency_ledger := insert_or_replace (sq_idempotency_ledger st) k out\<rparr>)) st"

definition sq_revoke :: "fault \<Rightarrow> sqlite_store \<Rightarrow> string \<Rightarrow> unit res \<times> sqlite_store" where
  "sq_revoke f st g = sq_tx f (\<lambda>st.
     let t = insert_or_ignore (sq_grant_slots st) g (new_row 0)
     in (Inr (), st\<lparr>sq_grant_slots :=
           snd (update_where t g (\<lambda>_. True) (\<lambda>r. r\<lparr>row_revoked := 1\<rparr>))\<rparr>)) st"

definition sq_is_revoked :: "sqlite_store \<Rightarrow> string \<Rightarrow> bool" where
  "sq_is_revoked st g = (case sq_grant_slots st g of None \<Rightarrow> False | Some r \<Rightarrow> row_revoked r \<noteq> 0)"

definition sq_get_use_count :: "sqlite_store \<Rightarrow> string \<Rightarrow> nat" where
  "sq_get_use_count st g = (case sq_grant_slots st g of None \<Rightarrow> 0 | Some r \<Rightarrow> row_uses r)"

definition sq_get_idempotent_outcome :: "sqlite_store \<Rightarrow> string \<Rightarrow> string option" where
  "sq_get_idempotent_outcome st k = sq_idempotency_ledger st k"

definition sq_record_idempotent_outcome ::
    "fault \<Rightarrow> sqlite_store \<Rightarrow> string \<Rightarrow> string \<Rightarrow> unit res \<times> sqlite_store" where
  "sq_record_idempotent_outcome f st k out = sq_tx f (\<lambda>st.
     (Inr (), st\<lparr>sq_idempotency_ledger := insert_or_replace (sq_idempotency_ledger st) k out\<rparr>)) st"

definition sq_record_lineage ::
    "fault \<Rightarrow> sqlite_store \<Rightarrow> string \<Rightarrow> string option \<Rightarrow> unit res \<times> sqlite_store" where
  "sq_record_lineage f st g p = sq_tx f (\<lambda>st.
     (Inr (), st\<lparr>sq_grant_lineage := insert_or_replace (sq_grant_lineage st) g p\<rparr>)) st"

definition sq_get_parent_grant_id :: "sqlite_store \<Rightarrow> string \<Rightarrow> string option" where
  "sq_get_parent_grant_id st g = (case sq_grant_lineage st g of None \<Rightarrow> None | Some p \<Rightarrow> p)"

definition sq_has_lineage :: "sqlite_store \<Rightarrow> string \<Rightarrow> bool" where
  "sq_has_lineage st g \<longleftrightarrow> sq_grant_lineage st g \<noteq> None"

definition sq_ops :: "sqlite_store grant_store_ops" where
  "sq_ops = \<lparr>gs_reserve = sq_reserve, gs_release = sq_release, gs_commit = sq_commit,
     gs_revoke = sq_revoke, gs_record_idempotent_outcome = sq_record_idempotent_outcome,
     gs_record_lineage = sq_record_lineage, gs_is_revoked = sq_is_revoked,
     gs_get_use_count = sq_get_use_count, gs_get_idempotent_outcome = sq_get_idempotent_outcome,
     gs_get_parent_grant_id = sq_get_parent_grant_id, gs_has_lineage = sq_has_lineage\<rparr>"

text \<open>A database is the in-memory store with its booleans written as integers; the
  statements of a method compute what the in-memory method does.\<close>

definition row_slot :: "slot_row \<Rightarrow> slot" where
  "row_slot r = \<lparr>sl_max_uses = row_max_uses r, sl_uses = row_uses r,
     sl_revoked = (row_revoked r \<noteq> 0), sl_reserved = (row_reserved r \<noteq> 0)\<rparr>"

definition sq_mem :: "sqlite_store \<Rightarrow> mem_store" where
  "sq_mem st = \<lparr>ms_slots = (\<lambda>g. map_option row_slot (sq_grant_slots st g)),
     ms_idempotency = sq_idempotency_ledger st, ms_lineage = sq_grant_lineage st\<rparr>"

definition row_bits :: "slot_row \<Rightarrow> bool" where
  "row_bits r \<longleftrightarrow> row_revoked r \<in> {0, 1} \<and> row_reserved r \<in> {0, 1}"

definition sq_bits :: "sqlite_store \<Rightarrow> bool" where
  "sq_bits st \<longleftrightarrow> (\<forall>g r. sq_grant_slots st g = Some r \<longrightarrow> row_bits r)"

lemma sq_bits_upd:
  "sq_bits st \<Longrightarrow> row_bits r \<Longrightarrow> sq_bits (st\<lparr>sq_grant_slots := (sq_grant_slots st)(g := Some r)\<rparr>)"
  "sq_bits st \<Longrightarrow> row_bits r \<Longrightarrow>
     sq_bits (st\<lparr>sq_grant_slots := (sq_grant_slots st)(g := Some r), sq_idempotency_ledger := l\<rparr>)"
  "sq_bits st \<Longrightarrow> sq_bits (st\<lparr>sq_idempotency_ledger := l\<rparr>)"
  "sq_bits st \<Longrightarrow> sq_bits (st\<lparr>sq_grant_lineage := i\<rparr>)"
  by (simp_all add: sq_bits_def)

lemma sq_bits_row: "sq_bits st \<Longrightarrow> sq_grant_slots st g = Some r \<Longrightarrow> row_bits r"
  by (simp add: sq_bits_def)

definition sq_inv :: "(string \<Rightarrow> int) \<Rightarrow> sqlite_store \<Rightarrow> bool" where
  "sq_inv M st \<longleftrightarrow> sq_bits st \<and> mem_inv M (sq_mem st)"

definition sq_view :: "sqlite_store \<Rightarrow> grant_view" where
  "sq_view st = mem_view (sq_mem st)"

lemmas sq_op_defs = sq_reserve_def sq_release_def sq_commit_def sq_revoke_def
  sq_record_idempotent_outcome_def sq_record_lineage_def sq_tx_def
lemmas sql_defs = insert_or_ignore_def insert_or_replace_def update_where_def

lemma sq_step_mem:
  assumes b: "sq_bits st"
  shows "gs_step sq_ops NoFault st c = (r, st') \<Longrightarrow>
    sq_bits st' \<and> gs_step mem_ops NoFault (sq_mem st) c = (r, sq_mem st')"
proof (induction c)
  case (Reserve g m)
  then show ?case
    using b sq_bits_row [OF b, of g]
    by (cases "sq_grant_slots st g")
      (auto intro!: sq_bits_upd simp: gs_step_def sq_ops_def mem_ops_def sq_reserve_def sq_tx_def sql_defs row_bits_def
        sq_mem_def mem_reserve_def new_row_def new_slot_def row_slot_def Let_def fun_eq_iff
        split: if_splits)
next
  case (Release g)
  then show ?case
    using b sq_bits_row [OF b, of g]
    by (cases "sq_grant_slots st g")
      (auto intro!: sq_bits_upd simp: gs_step_def sq_ops_def mem_ops_def sq_release_def sq_tx_def sql_defs row_bits_def
        sq_mem_def mem_release_def row_slot_def fun_eq_iff)
next
  case (Commit g k out)
  then show ?case
    using b sq_bits_row [OF b, of g]
    by (cases "sq_grant_slots st g")
      (auto intro!: sq_bits_upd simp: gs_step_def sq_ops_def mem_ops_def sq_commit_def sq_tx_def sql_defs row_bits_def
        sq_mem_def mem_commit_def row_slot_def fun_eq_iff split: if_splits)
next
  case (Revoke g)
  then show ?case
    using b sq_bits_row [OF b, of g]
    by (cases "sq_grant_slots st g")
      (auto intro!: sq_bits_upd simp: gs_step_def sq_ops_def mem_ops_def sq_revoke_def sq_tx_def sql_defs row_bits_def
        sq_mem_def mem_revoke_def new_row_def new_slot_def row_slot_def fun_eq_iff)
next
  case (RecordOutcome k out)
  then show ?case
    using b
    by (auto simp: gs_step_def sq_ops_def mem_ops_def sq_record_idempotent_outcome_def sq_tx_def
        sql_defs sq_bits_upd sq_mem_def mem_record_idempotent_outcome_def)
next
  case (RecordLineage g p)
  then show ?case
    using b
    by (auto simp: gs_step_def sq_ops_def mem_ops_def sq_record_lineage_def sq_tx_def
        sql_defs sq_bits_upd sq_mem_def mem_record_lineage_def)
qed

lemma sq_step_fault:
  "f \<noteq> NoFault \<Longrightarrow> gs_step sq_ops f st c = (Failed, st)"
  by (cases c) (simp_all add: gs_step_def sq_ops_def sq_op_defs)

lemma sq_step_exact:
  assumes "sq_inv M s" "disciplined M c" "gs_step sq_ops NoFault s c = (r, s')"
  shows "sq_inv M s' \<and> spec_step (sq_view s) c = (r, sq_view s')"
  using assms sq_step_mem [of s c r s'] mem_step_exact [of M "sq_mem s" c NoFault r "sq_mem s'"]
  by (auto simp: sq_inv_def sq_view_def)

interpretation sqlite: grant_store sq_ops sq_view sq_inv
proof
  fix M s c f r s' g k
  assume i: "sq_inv M s"
  show "sq_inv M s' \<and> spec_allows (sq_view s) c r (sq_view s')"
    if "disciplined M c" "gs_step sq_ops f s c = (r, s')"
    using sq_step_exact [OF i that(1), of r s'] sq_step_fault [of f s c] i that
    by (cases "f = NoFault") (auto simp: spec_allows_def)
  show "spec_step (sq_view s) c = (r, sq_view s')"
    if "disciplined M c" "gs_step sq_ops NoFault s c = (r, s')"
    using sq_step_exact [OF i that] by simp
qed (auto simp: sq_ops_def sq_view_def mem_view_def sq_mem_def sq_is_revoked_def mem_is_revoked_def
    sq_get_use_count_def mem_get_use_count_def sq_get_idempotent_outcome_def sq_has_lineage_def
    sq_get_parent_grant_id_def row_slot_def split: option.splits)

section \<open>Redis\<close>

type_synonym redis_db = "string \<Rightarrow> string option"

definition rd_key :: "string \<Rightarrow> string \<Rightarrow> string \<Rightarrow> string" where
  "rd_key ns g suffix = ns @ '':grant:'' @ g @ '':'' @ suffix"

definition rd_idem_key :: "string \<Rightarrow> string \<Rightarrow> string" where
  "rd_idem_key ns k = ns @ '':idem:'' @ k"

text \<open>The two Lua scripts, which the server runs atomically.\<close>

definition reserve_script :: "redis_db \<Rightarrow> string \<Rightarrow> string \<Rightarrow> string \<Rightarrow> int \<Rightarrow> int \<times> redis_db" where
  "reserve_script db revoked_key uses_key reserved_key max_uses =
     (if db revoked_key = Some ''1'' then (0, db)
      else if db reserved_key = Some ''1'' then (0, db)
      else let uses = nat_of_str (case db uses_key of None \<Rightarrow> ''0'' | Some v \<Rightarrow> v)
           in if int uses \<ge> max_uses then (0, db)
              else (1, db(reserved_key := Some ''1'')))"

definition redis_incr :: "redis_db \<Rightarrow> string \<Rightarrow> redis_db" where
  "redis_incr db k = db(k := Some (nat_str (nat_of_str (case db k of None \<Rightarrow> ''0'' | Some v \<Rightarrow> v) + 1)))"

definition commit_script :: "redis_db \<Rightarrow> string \<Rightarrow> string \<Rightarrow> string \<Rightarrow> string \<Rightarrow> int \<times> redis_db" where
  "commit_script db uses_key reserved_key idem_key outcome_ref =
     (if db reserved_key \<noteq> Some ''1'' then (0, db)
      else (1, (redis_incr db uses_key)(reserved_key := Some ''0'', idem_key := Some outcome_ref)))"

text \<open>A call to the server: it succeeds, fails before the server acted, or the reply
  is lost after it did; the client raises \<^verbatim>\<open>StoreUnavailableError\<close> in both other cases.\<close>

definition rd_call :: "fault \<Rightarrow> (redis_db \<Rightarrow> 'a \<times> redis_db) \<Rightarrow> redis_db \<Rightarrow> 'a res \<times> redis_db" where
  "rd_call f body db = (case f of
      NoFault \<Rightarrow> apfst Inr (body db)
    | FailBefore \<Rightarrow> (Inl (StoreE StoreUnavailableError), db)
    | FailAfter \<Rightarrow> (Inl (StoreE StoreUnavailableError), snd (body db)))"

definition rd_reserve :: "string \<Rightarrow> fault \<Rightarrow> redis_db \<Rightarrow> string \<Rightarrow> int \<Rightarrow> bool res \<times> redis_db" where
  "rd_reserve ns f db g m =
     (case rd_call f (\<lambda>db. reserve_script db (rd_key ns g ''revoked'') (rd_key ns g ''uses'')
             (rd_key ns g ''reserved'') m) db of
        (Inl e, db') \<Rightarrow> (Inl e, db') | (Inr n, db') \<Rightarrow> (Inr (n \<noteq> 0), db'))"

definition rd_release :: "string \<Rightarrow> fault \<Rightarrow> redis_db \<Rightarrow> string \<Rightarrow> unit res \<times> redis_db" where
  "rd_release ns f db g = rd_call f (\<lambda>db. ((), db(rd_key ns g ''reserved'' := Some ''0''))) db"

definition rd_commit :: "string \<Rightarrow> fault \<Rightarrow> redis_db \<Rightarrow> string \<Rightarrow> string \<Rightarrow> string \<Rightarrow> unit res \<times> redis_db" where
  "rd_commit ns f db g k out =
     (case rd_call f (\<lambda>db. commit_script db (rd_key ns g ''uses'') (rd_key ns g ''reserved'')
             (rd_idem_key ns k) out) db of
        (Inl e, db') \<Rightarrow> (Inl e, db')
      | (Inr n, db') \<Rightarrow> if n = 0 then (Inl (StoreE StoreUnavailableError), db') else (Inr (), db'))"

definition rd_revoke :: "string \<Rightarrow> fault \<Rightarrow> redis_db \<Rightarrow> string \<Rightarrow> unit res \<times> redis_db" where
  "rd_revoke ns f db g = rd_call f (\<lambda>db. ((), db(rd_key ns g ''revoked'' := Some ''1''))) db"

definition rd_is_revoked :: "string \<Rightarrow> redis_db \<Rightarrow> string \<Rightarrow> bool" where
  "rd_is_revoked ns db g \<longleftrightarrow> db (rd_key ns g ''revoked'') = Some ''1''"

definition rd_get_use_count :: "string \<Rightarrow> redis_db \<Rightarrow> string \<Rightarrow> nat" where
  "rd_get_use_count ns db g = (case db (rd_key ns g ''uses'') of None \<Rightarrow> 0 | Some v \<Rightarrow> nat_of_str v)"

definition rd_get_idempotent_outcome :: "string \<Rightarrow> redis_db \<Rightarrow> string \<Rightarrow> string option" where
  "rd_get_idempotent_outcome ns db k = db (rd_idem_key ns k)"

definition rd_record_idempotent_outcome ::
    "string \<Rightarrow> fault \<Rightarrow> redis_db \<Rightarrow> string \<Rightarrow> string \<Rightarrow> unit res \<times> redis_db" where
  "rd_record_idempotent_outcome ns f db k out =
     rd_call f (\<lambda>db. ((), db(rd_idem_key ns k := Some out))) db"

definition rd_record_lineage ::
    "string \<Rightarrow> fault \<Rightarrow> redis_db \<Rightarrow> string \<Rightarrow> string option \<Rightarrow> unit res \<times> redis_db" where
  "rd_record_lineage ns f db g p =
     (let v = (case p of None \<Rightarrow> [] | Some q \<Rightarrow> q)
      in rd_call f (\<lambda>db. ((), db(rd_key ns g ''parent'' := Some v))) db)"

definition rd_get_parent_grant_id :: "string \<Rightarrow> redis_db \<Rightarrow> string \<Rightarrow> string option" where
  "rd_get_parent_grant_id ns db g = (case db (rd_key ns g ''parent'') of
      None \<Rightarrow> None | Some v \<Rightarrow> if v = [] then None else Some v)"

definition rd_has_lineage :: "string \<Rightarrow> redis_db \<Rightarrow> string \<Rightarrow> bool" where
  "rd_has_lineage ns db g \<longleftrightarrow> db (rd_key ns g ''parent'') \<noteq> None"

definition rd_ops :: "string \<Rightarrow> redis_db grant_store_ops" where
  "rd_ops ns = \<lparr>gs_reserve = rd_reserve ns, gs_release = rd_release ns, gs_commit = rd_commit ns,
     gs_revoke = rd_revoke ns, gs_record_idempotent_outcome = rd_record_idempotent_outcome ns,
     gs_record_lineage = rd_record_lineage ns, gs_is_revoked = rd_is_revoked ns,
     gs_get_use_count = rd_get_use_count ns,
     gs_get_idempotent_outcome = rd_get_idempotent_outcome ns,
     gs_get_parent_grant_id = rd_get_parent_grant_id ns, gs_has_lineage = rd_has_lineage ns\<rparr>"

definition rd_view :: "string \<Rightarrow> redis_db \<Rightarrow> grant_view" where
  "rd_view ns db = \<lparr>gv_revoked = rd_is_revoked ns db, gv_uses = rd_get_use_count ns db,
     gv_held = (\<lambda>g. db (rd_key ns g ''reserved'') = Some ''1''),
     gv_outcome = rd_get_idempotent_outcome ns db,
     gv_lineage = (\<lambda>g. if rd_has_lineage ns db g then Some (rd_get_parent_grant_id ns db g) else None)\<rparr>"

text \<open>Every counter is a decimal numeral, so \<^verbatim>\<open>INCR\<close> and \<^verbatim>\<open>tonumber\<close> never fail on it.\<close>

definition rd_inv :: "string \<Rightarrow> (string \<Rightarrow> int) \<Rightarrow> redis_db \<Rightarrow> bool" where
  "rd_inv ns M db \<longleftrightarrow> (\<forall>g v. db (rd_key ns g ''uses'') = Some v \<longrightarrow> (\<exists>n. v = nat_str n))"

text \<open>The keys of different grants, of different fields of a grant, and of the
  idempotency ledger never coincide, although identifiers may contain colons.\<close>

lemma append_colon_inject:
  assumes "CHR '':'' \<notin> set x" "CHR '':'' \<notin> set y"
  shows "a @ CHR '':'' # x = b @ CHR '':'' # y \<longleftrightarrow> a = b \<and> x = y"
proof
  assume *: "a @ CHR '':'' # x = b @ CHR '':'' # y"
  have "rev x = takeWhile (\<lambda>c. c \<noteq> CHR '':'') (rev (a @ CHR '':'' # x))"
    "rev y = takeWhile (\<lambda>c. c \<noteq> CHR '':'') (rev (b @ CHR '':'' # y))"
    using assms by (auto simp: takeWhile_append)
  then have "rev x = rev y"
    by (simp only: *)
  then have "x = y"
    by simp
  then show "a = b \<and> x = y"
    using * by simp
qed simp

lemma rd_key_inject:
  assumes "CHR '':'' \<notin> set x" "CHR '':'' \<notin> set y"
  shows "rd_key ns a x = rd_key ns b y \<longleftrightarrow> a = b \<and> x = y"
  using append_colon_inject [OF assms, of "ns @ '':grant:'' @ a" "ns @ '':grant:'' @ b"]
  by (simp add: rd_key_def)

lemma rd_idem_key_inject [simp]: "rd_idem_key ns a = rd_idem_key ns b \<longleftrightarrow> a = b"
  by (simp add: rd_idem_key_def)

lemma rd_key_not_idem [simp]: "rd_key ns a x \<noteq> rd_idem_key ns b" "rd_idem_key ns b \<noteq> rd_key ns a x"
  by (simp_all add: rd_key_def rd_idem_key_def)

lemma rd_fields:
  "CHR '':'' \<notin> set ''uses''" "CHR '':'' \<notin> set ''revoked''" "CHR '':'' \<notin> set ''reserved''"
  "CHR '':'' \<notin> set ''parent''"
  by simp_all

lemma rd_key_simps [simp]:
  "rd_key ns a ''uses'' = rd_key ns b ''uses'' \<longleftrightarrow> a = b"
  "rd_key ns a ''revoked'' = rd_key ns b ''revoked'' \<longleftrightarrow> a = b"
  "rd_key ns a ''reserved'' = rd_key ns b ''reserved'' \<longleftrightarrow> a = b"
  "rd_key ns a ''parent'' = rd_key ns b ''parent'' \<longleftrightarrow> a = b"
  "rd_key ns a ''uses'' \<noteq> rd_key ns b ''revoked''" "rd_key ns a ''revoked'' \<noteq> rd_key ns b ''uses''"
  "rd_key ns a ''uses'' \<noteq> rd_key ns b ''reserved''" "rd_key ns a ''reserved'' \<noteq> rd_key ns b ''uses''"
  "rd_key ns a ''uses'' \<noteq> rd_key ns b ''parent''" "rd_key ns a ''parent'' \<noteq> rd_key ns b ''uses''"
  "rd_key ns a ''revoked'' \<noteq> rd_key ns b ''reserved''"
  "rd_key ns a ''reserved'' \<noteq> rd_key ns b ''revoked''"
  "rd_key ns a ''revoked'' \<noteq> rd_key ns b ''parent''" "rd_key ns a ''parent'' \<noteq> rd_key ns b ''revoked''"
  "rd_key ns a ''reserved'' \<noteq> rd_key ns b ''parent''"
  "rd_key ns a ''parent'' \<noteq> rd_key ns b ''reserved''"
  by (simp_all only: rd_key_inject [OF rd_fields(1) rd_fields(1)] rd_key_inject [OF rd_fields(1) rd_fields(2)]
      rd_key_inject [OF rd_fields(1) rd_fields(3)] rd_key_inject [OF rd_fields(1) rd_fields(4)]
      rd_key_inject [OF rd_fields(2) rd_fields(1)] rd_key_inject [OF rd_fields(2) rd_fields(2)]
      rd_key_inject [OF rd_fields(2) rd_fields(3)] rd_key_inject [OF rd_fields(2) rd_fields(4)]
      rd_key_inject [OF rd_fields(3) rd_fields(1)] rd_key_inject [OF rd_fields(3) rd_fields(2)]
      rd_key_inject [OF rd_fields(3) rd_fields(3)] rd_key_inject [OF rd_fields(3) rd_fields(4)]
      rd_key_inject [OF rd_fields(4) rd_fields(1)] rd_key_inject [OF rd_fields(4) rd_fields(2)]
      rd_key_inject [OF rd_fields(4) rd_fields(3)] rd_key_inject [OF rd_fields(4) rd_fields(4)])
    simp_all

lemmas rd_query_defs = rd_view_def rd_is_revoked_def rd_get_use_count_def
  rd_get_idempotent_outcome_def rd_has_lineage_def rd_get_parent_grant_id_def

lemma nat_of_str_zero [simp]: "nat_of_str ''0'' = 0"
  by (simp add: nat_of_str_def char_digit_def)

lemma rd_view_upd:
  "rd_view ns (db(rd_key ns g ''reserved'' := Some v)) =
     (rd_view ns db)\<lparr>gv_held := (gv_held (rd_view ns db))(g := (v = ''1''))\<rparr>"
  "rd_view ns (db(rd_key ns g ''revoked'' := Some v)) =
     (rd_view ns db)\<lparr>gv_revoked := (gv_revoked (rd_view ns db))(g := (v = ''1''))\<rparr>"
  "rd_view ns (db(rd_key ns g ''uses'' := Some v)) =
     (rd_view ns db)\<lparr>gv_uses := (gv_uses (rd_view ns db))(g := nat_of_str v)\<rparr>"
  "rd_view ns (db(rd_idem_key ns k := Some v)) =
     (rd_view ns db)\<lparr>gv_outcome := (gv_outcome (rd_view ns db))(k := Some v)\<rparr>"
  "rd_view ns (db(rd_key ns g ''parent'' := Some v)) =
     (rd_view ns db)\<lparr>gv_lineage := (gv_lineage (rd_view ns db))
        (g := Some (if v = [] then None else Some v))\<rparr>"
  by (simp_all add: rd_query_defs fun_eq_iff)

lemma rd_view_fields:
  "gv_held (rd_view ns db) g \<longleftrightarrow> db (rd_key ns g ''reserved'') = Some ''1''"
  "gv_revoked (rd_view ns db) g \<longleftrightarrow> db (rd_key ns g ''revoked'') = Some ''1''"
  "gv_uses (rd_view ns db) g = nat_of_str (case db (rd_key ns g ''uses'') of None \<Rightarrow> ''0'' | Some v \<Rightarrow> v)"
  by (simp_all add: rd_query_defs split: option.splits)

lemma rd_inv_upd:
  assumes "rd_inv ns M db"
  shows "rd_inv ns M (db(rd_key ns g ''reserved'' := v))" "rd_inv ns M (db(rd_key ns g ''revoked'' := v))"
    "rd_inv ns M (db(rd_key ns g ''parent'' := v))" "rd_inv ns M (db(rd_idem_key ns k := v))"
    "rd_inv ns M (db(rd_key ns g ''uses'' := Some (nat_str n)))"
  using assms by (auto simp: rd_inv_def)

lemma rd_step_exact:
  assumes i: "rd_inv ns M db" and d: "disciplined M c"
    and st: "gs_step (rd_ops ns) NoFault db c = (r, db')"
  shows "rd_inv ns M db' \<and> spec_step (rd_view ns db) c = (r, rd_view ns db')"
proof (cases c)
  case (Reserve g m)
  then show ?thesis
    using i d st
    by (auto simp: gs_step_def rd_ops_def rd_reserve_def rd_call_def reserve_script_def spec_step_def
        spec_reserve_def rd_view_upd rd_view_fields rd_inv_upd Let_def split: if_splits)
next
  case (Release g)
  then show ?thesis
    using i st by (auto simp: gs_step_def rd_ops_def rd_release_def rd_call_def spec_step_def
        spec_release_def rd_view_upd rd_inv_upd)
next
  case (Commit g k out)
  then show ?thesis
    using i st by (auto simp: gs_step_def rd_ops_def rd_commit_def rd_call_def commit_script_def
        redis_incr_def spec_step_def spec_commit_def rd_view_upd rd_view_fields rd_inv_upd
        split: if_splits)
next
  case (Revoke g)
  then show ?thesis
    using i st by (auto simp: gs_step_def rd_ops_def rd_revoke_def rd_call_def spec_step_def
        spec_revoke_def rd_view_upd rd_inv_upd)
next
  case (RecordOutcome k out)
  then show ?thesis
    using i st by (auto simp: gs_step_def rd_ops_def rd_record_idempotent_outcome_def rd_call_def
        spec_step_def spec_record_outcome_def rd_view_upd rd_inv_upd)
next
  case (RecordLineage g p)
  then show ?thesis
    using i st d by (auto simp: gs_step_def rd_ops_def rd_record_lineage_def rd_call_def spec_step_def
        spec_record_lineage_def rd_view_upd rd_inv_upd Let_def split: option.splits)
qed

lemma rd_step_fault:
  assumes "f \<noteq> NoFault" "gs_step (rd_ops ns) f db c = (r, db')"
  shows "r = Failed \<and> (db' = db \<or> db' = snd (gs_step (rd_ops ns) NoFault db c))"
  using assms
  by (cases c; cases f)
    (auto simp: gs_step_def rd_ops_def rd_reserve_def rd_release_def rd_commit_def rd_revoke_def
      rd_record_idempotent_outcome_def rd_record_lineage_def rd_call_def Let_def apfst_def map_prod_def
      split: prod.splits sum.splits if_splits)

interpretation redis: grant_store "rd_ops ns" "rd_view ns" "rd_inv ns" for ns
proof
  fix M s c f r s' g k
  assume i: "rd_inv ns M s"
  obtain r0 s0 where n: "gs_step (rd_ops ns) NoFault s c = (r0, s0)" by fastforce
  show "rd_inv ns M s' \<and> spec_allows (rd_view ns s) c r (rd_view ns s')"
    if "disciplined M c" "gs_step (rd_ops ns) f s c = (r, s')"
  proof (cases "f = NoFault")
    case True
    then show ?thesis using rd_step_exact [OF i that(1), of r s'] that(2) by (simp add: spec_allows_def)
  next
    case False
    then show ?thesis
      using rd_step_exact [OF i that(1) n] rd_step_fault [OF False that(2)] n i
      by (auto simp: spec_allows_def)
  qed
  show "spec_step (rd_view ns s) c = (r, rd_view ns s')"
    if "disciplined M c" "gs_step (rd_ops ns) NoFault s c = (r, s')"
    using rd_step_exact [OF i that] by simp
qed (simp_all add: rd_ops_def rd_view_def rd_has_lineage_def rd_get_parent_grant_id_def)

section \<open>The three backends\<close>

lemma ops_queries:
  "gs_get_use_count mem_ops = mem_get_use_count" "gs_get_use_count sq_ops = sq_get_use_count"
  "gs_get_use_count (rd_ops ns) = rd_get_use_count ns"
  "gs_is_revoked mem_ops = mem_is_revoked" "gs_is_revoked sq_ops = sq_is_revoked"
  "gs_is_revoked (rd_ops ns) = rd_is_revoked ns"
  "gs_reserve mem_ops f s g n = apfst Inr (mem_reserve s g n)" "gs_reserve sq_ops = sq_reserve"
  "gs_reserve (rd_ops ns) = rd_reserve ns"
  by (simp_all add: mem_ops_def sq_ops_def rd_ops_def)

lemma init_views [simp]:
  "mem_view mem_init = empty_view" "sq_view sq_init = empty_view" "rd_view ns (\<lambda>_. None) = empty_view"
  by (simp_all add: mem_view_def mem_init_def sq_view_def sq_mem_def sq_init_def rd_query_defs
      empty_view_def mem_is_revoked_def mem_get_use_count_def fun_eq_iff)

lemma init_invs [simp]: "mem_inv M mem_init" "sq_inv M sq_init" "rd_inv ns M (\<lambda>_. None)"
  by (simp_all add: mem_inv_def mem_init_def sq_inv_def sq_bits_def sq_mem_def sq_init_def rd_inv_def)

text \<open>C9. At-most-\<open>max_uses\<close> execution. From an empty store, in every interleaving of
  calls by any number of clients and whichever calls fail, no more uses of a grant are
  reported as committed than the store counts, and the count never exceeds the limit
  the grant is presented with; for the in-memory, the SQLite and the Redis store.\<close>

theorem store_at_most_max_uses:
  assumes "\<forall>(f, c) \<in> set cs. disciplined M c"
  shows "(let (rs, st) = gs_run mem_ops mem_init cs
          in commits_of g (zip (map snd cs) rs) \<le> mem_get_use_count st g
             \<and> int (mem_get_use_count st g) \<le> max 0 (M g))
       \<and> (let (rs, st) = gs_run sq_ops sq_init cs
          in commits_of g (zip (map snd cs) rs) \<le> sq_get_use_count st g
             \<and> int (sq_get_use_count st g) \<le> max 0 (M g))
       \<and> (let (rs, st) = gs_run (rd_ops ns) (\<lambda>_. None) cs
          in commits_of g (zip (map snd cs) rs) \<le> rd_get_use_count ns st g
             \<and> int (rd_get_use_count ns st g) \<le> max 0 (M g))"
  using mem.run_uses [where g = g, OF init_invs(1) init_views(1) assms]
    sqlite.run_uses [where g = g, OF init_invs(2) init_views(2) assms]
    redis.run_uses [where g = g, OF init_invs(3) init_views(3) assms]
  by (auto simp: ops_queries split: prod.splits)

definition sample_calls :: "(fault \<times> store_op) list" where
  "sample_calls = [(NoFault, Reserve ''g1'' 1), (NoFault, Reserve ''g1'' 1),
     (NoFault, Commit ''g1'' ''k'' ''ref''), (FailAfter, Reserve ''g1'' 1)]"

lemma sample_calls_disciplined: "\<forall>(f, c) \<in> set sample_calls. disciplined (\<lambda>_. 1) c"
  by (simp add: sample_calls_def)

lemma sample_calls_results:
  "fst (gs_run mem_ops mem_init sample_calls) = [Granted True, Granted False, Done, Granted False]"
  by code_simp

theorem store_at_most_max_uses_witness:
  "fst (gs_run mem_ops mem_init sample_calls) = [Granted True, Granted False, Done, Granted False]
   \<and> int (mem_get_use_count (snd (gs_run mem_ops mem_init sample_calls)) ''g1'') \<le> 1"
  using store_at_most_max_uses [OF sample_calls_disciplined, of "''g1''" "''ks''"]
  by (simp add: sample_calls_results split_beta Let_def)

text \<open>A held reservation is exclusive: after a successful \<^verbatim>\<open>reserve\<close> of a grant, no
  further \<^verbatim>\<open>reserve\<close> of it succeeds, in any interleaving and whichever calls fail,
  until a \<^verbatim>\<open>release\<close> or \<^verbatim>\<open>commit\<close> of that grant is attempted.\<close>

theorem store_reservation_exclusive:
  assumes "\<forall>(f, c) \<in> set cs. disciplined M c \<and> \<not> ends_hold g c"
  shows "(\<forall>st t. mem_inv M st \<and> mem_reserve st g (M g) = (True, t) \<longrightarrow>
            (Reserve g m, Granted True) \<notin> set (zip (map snd cs) (fst (gs_run mem_ops t cs))))
       \<and> (\<forall>st t f. sq_inv M st \<and> sq_reserve f st g (M g) = (Inr True, t) \<longrightarrow>
            (Reserve g m, Granted True) \<notin> set (zip (map snd cs) (fst (gs_run sq_ops t cs))))
       \<and> (\<forall>db t f. rd_inv ns M db \<and> rd_reserve ns f db g (M g) = (Inr True, t) \<longrightarrow>
            (Reserve g m, Granted True) \<notin> set (zip (map snd cs) (fst (gs_run (rd_ops ns) t cs))))"
proof (intro conjI allI impI; elim conjE)
  fix st t
  assume "mem_inv M st" "mem_reserve st g (M g) = (True, t)"
  then show "(Reserve g m, Granted True) \<notin> set (zip (map snd cs) (fst (gs_run mem_ops t cs)))"
    using mem.run_exclusive [where f = NoFault, OF _ _ assms surjective_pairing]
    by (simp add: ops_queries)
next
  fix st t f
  assume "sq_inv M st" "sq_reserve f st g (M g) = (Inr True, t)"
  then show "(Reserve g m, Granted True) \<notin> set (zip (map snd cs) (fst (gs_run sq_ops t cs)))"
    using sqlite.run_exclusive [OF _ _ assms surjective_pairing]
    by (simp add: ops_queries)
next
  fix db t f
  assume "rd_inv ns M db" "rd_reserve ns f db g (M g) = (Inr True, t)"
  then show "(Reserve g m, Granted True) \<notin> set (zip (map snd cs) (fst (gs_run (rd_ops ns) t cs)))"
    using redis.run_exclusive [OF _ _ assms surjective_pairing]
    by (simp add: ops_queries)
qed

lemma mem_reserve_sample: "mem_reserve mem_init ''g1'' 1 = (True, snd (mem_reserve mem_init ''g1'' 1))"
  by (simp add: mem_reserve_def mem_init_def new_slot_def)

definition sample_rivals :: "(fault \<times> store_op) list" where
  "sample_rivals = [(NoFault, Reserve ''g1'' 1), (NoFault, Revoke ''g2'')]"

theorem store_reservation_exclusive_witness:
  "mem_reserve mem_init ''g1'' 1 = (True, snd (mem_reserve mem_init ''g1'' 1))
   \<and> (Reserve ''g1'' 1, Granted True) \<notin> set (zip (map snd sample_rivals)
        (fst (gs_run mem_ops (snd (mem_reserve mem_init ''g1'' 1)) sample_rivals)))"
proof -
  have "\<forall>(f, c) \<in> set sample_rivals. disciplined (\<lambda>_. 1) c \<and> \<not> ends_hold ''g1'' c"
    by (simp add: sample_rivals_def)
  then show ?thesis
    using store_reservation_exclusive [of sample_rivals "\<lambda>_. 1" "''g1''" 1 "''ks''"]
      mem_reserve_sample init_invs(1) by blast
qed

text \<open>Revocation is permanent: once a store reports a grant as revoked, no later
  \<^verbatim>\<open>reserve\<close> of it succeeds, whatever calls are made in between and whichever fail.\<close>

theorem store_revocation_permanent:
  assumes "\<forall>(f, c) \<in> set cs. disciplined M c"
  shows "(mem_inv M st \<and> mem_is_revoked st g \<longrightarrow>
            (Reserve g m, Granted True) \<notin> set (zip (map snd cs) (fst (gs_run mem_ops st cs))))
       \<and> (sq_inv M sq \<and> sq_is_revoked sq g \<longrightarrow>
            (Reserve g m, Granted True) \<notin> set (zip (map snd cs) (fst (gs_run sq_ops sq cs))))
       \<and> (rd_inv ns M db \<and> rd_is_revoked ns db g \<longrightarrow>
            (Reserve g m, Granted True) \<notin> set (zip (map snd cs) (fst (gs_run (rd_ops ns) db cs))))"
proof (intro conjI impI; elim conjE)
  assume "mem_inv M st" "mem_is_revoked st g"
  then show "(Reserve g m, Granted True) \<notin> set (zip (map snd cs) (fst (gs_run mem_ops st cs)))"
    using mem.run_revoked [OF _ _ assms surjective_pairing] by (simp add: ops_queries)
next
  assume "sq_inv M sq" "sq_is_revoked sq g"
  then show "(Reserve g m, Granted True) \<notin> set (zip (map snd cs) (fst (gs_run sq_ops sq cs)))"
    using sqlite.run_revoked [OF _ _ assms surjective_pairing] by (simp add: ops_queries)
next
  assume "rd_inv ns M db" "rd_is_revoked ns db g"
  then show "(Reserve g m, Granted True) \<notin> set (zip (map snd cs) (fst (gs_run (rd_ops ns) db cs)))"
    using redis.run_revoked [OF _ _ assms surjective_pairing] by (simp add: ops_queries)
qed

theorem store_revocation_permanent_witness:
  "mem_is_revoked (mem_revoke mem_init ''g1'') ''g1''
   \<and> (Reserve ''g1'' 1, Granted True) \<notin> set (zip [Reserve ''g1'' 1]
        (fst (gs_run mem_ops (mem_revoke mem_init ''g1'') [(NoFault, Reserve ''g1'' 1)])))"
proof -
  have r: "mem_is_revoked (mem_revoke mem_init ''g1'') ''g1''"
    by (simp add: mem_is_revoked_def mem_revoke_def)
  moreover have "mem_inv (\<lambda>_. 1) (mem_revoke mem_init ''g1'')"
    using mem_revoke_refines [OF init_invs(1)] by blast
  ultimately show ?thesis
    using store_revocation_permanent [of "[(NoFault, Reserve ''g1'' 1)]" "\<lambda>_. 1"
        "mem_revoke mem_init ''g1''" "''g1''" 1 sq_init "''ks''" "\<lambda>_. None"]
    by simp
qed



end
