(* ===== verification/Lifecycle.thy ===== *)
theory Lifecycle
  imports Prelude
begin

text \<open>
  The lifecycle state machine of \<^verbatim>\<open>state_machine/states.py\<close>, the per-manifest
  record of \<^verbatim>\<open>state_machine/record.py\<close> and the bounded structural checker of
  \<^verbatim>\<open>state_machine/model_check.py\<close>.

  The transition table is the function \<open>TRANSITIONS\<close> from a state to the list of
  its successors; the frozensets of the source have no order, and every use below
  is either a membership test, a set, or sorts the members first, as the source
  does.  The facts proved are the structural ones the engine relies on: the graph
  is acyclic, so a record enters each state at most once; the revocable states
  are exactly those before \<^verbatim>\<open>committing\<close>; the terminal states are the ones
  without a successor; and the checker accepts the table at every bound.
\<close>

section \<open>States and transitions\<close>

datatype lifecycle_state =
    PROPOSED
  | PREPARED
  | SEALED
  | AUTHORIZED
  | COMMITTING
  | COMMITTED
  | VERIFIED
  | FAILED
  | RECOVERED_COMMITTED
  | REVOKED
  | EXPIRED
  | COMPENSATING
  | COMPENSATED

text \<open>The enumeration in the order of the class body, and the value of each member.\<close>

definition all_states :: "lifecycle_state list" where
  "all_states = [PROPOSED, PREPARED, SEALED, AUTHORIZED, COMMITTING, COMMITTED, VERIFIED,
     FAILED, RECOVERED_COMMITTED, REVOKED, EXPIRED, COMPENSATING, COMPENSATED]"

primrec state_value :: "lifecycle_state \<Rightarrow> string" where
  "state_value PROPOSED = ''proposed''"
| "state_value PREPARED = ''prepared''"
| "state_value SEALED = ''sealed''"
| "state_value AUTHORIZED = ''authorized''"
| "state_value COMMITTING = ''committing''"
| "state_value COMMITTED = ''committed''"
| "state_value VERIFIED = ''verified''"
| "state_value FAILED = ''failed''"
| "state_value RECOVERED_COMMITTED = ''recovered_committed''"
| "state_value REVOKED = ''revoked''"
| "state_value EXPIRED = ''expired''"
| "state_value COMPENSATING = ''compensating''"
| "state_value COMPENSATED = ''compensated''"

text \<open>\<^verbatim>\<open>LifecycleState(value)\<close>, which raises \<^verbatim>\<open>ValueError\<close> on an unknown value.\<close>

definition state_of_value :: "string \<Rightarrow> lifecycle_state res" where
  "state_of_value v = (case find (\<lambda>s. state_value s = v) all_states of
      None \<Rightarrow> Inl ValueError | Some s \<Rightarrow> Inr s)"

definition REVOCABLE_STATES :: "lifecycle_state list" where
  "REVOCABLE_STATES = [PROPOSED, PREPARED, SEALED, AUTHORIZED]"

definition TERMINAL_STATES :: "lifecycle_state list" where
  "TERMINAL_STATES = [RECOVERED_COMMITTED, REVOKED, EXPIRED, COMPENSATED]"

primrec TRANSITIONS :: "lifecycle_state \<Rightarrow> lifecycle_state list" where
  "TRANSITIONS PROPOSED = [PREPARED, FAILED, REVOKED]"
| "TRANSITIONS PREPARED = [SEALED, FAILED, REVOKED, EXPIRED]"
| "TRANSITIONS SEALED = [AUTHORIZED, FAILED, REVOKED, EXPIRED]"
| "TRANSITIONS AUTHORIZED = [COMMITTING, FAILED, REVOKED, EXPIRED]"
| "TRANSITIONS COMMITTING = [COMMITTED, FAILED]"
| "TRANSITIONS COMMITTED = [VERIFIED]"
| "TRANSITIONS VERIFIED = [COMPENSATING, COMPENSATED]"
| "TRANSITIONS COMPENSATING = [COMPENSATED, FAILED]"
| "TRANSITIONS FAILED = [RECOVERED_COMMITTED]"
| "TRANSITIONS RECOVERED_COMMITTED = []"
| "TRANSITIONS REVOKED = []"
| "TRANSITIONS EXPIRED = []"
| "TRANSITIONS COMPENSATED = []"

definition is_legal_transition :: "lifecycle_state \<Rightarrow> lifecycle_state \<Rightarrow> bool" where
  "is_legal_transition current target \<longleftrightarrow> target \<in> set (TRANSITIONS current)"

definition assert_legal_transition :: "lifecycle_state \<Rightarrow> lifecycle_state \<Rightarrow> unit res" where
  "assert_legal_transition current target =
     raise_if (\<not> is_legal_transition current target) (StateMachineE IllegalTransitionError)"

definition is_revocable :: "lifecycle_state \<Rightarrow> bool" where
  "is_revocable current \<longleftrightarrow> current \<in> set REVOCABLE_STATES"

definition is_terminal :: "lifecycle_state \<Rightarrow> bool" where
  "is_terminal current \<longleftrightarrow> current \<in> set TERMINAL_STATES"

section \<open>The lifecycle record\<close>

record lifecycle_record =
  lr_manifest_id :: string
  lr_state :: lifecycle_state
  lr_history :: "(lifecycle_state \<times> lifecycle_state \<times> int) list"

definition new_record :: "string \<Rightarrow> lifecycle_record" where
  "new_record mid = \<lparr>lr_manifest_id = mid, lr_state = PROPOSED, lr_history = []\<rparr>"

definition record_transition :: "lifecycle_record \<Rightarrow> lifecycle_state \<Rightarrow> int \<Rightarrow> lifecycle_record res" where
  "record_transition r target at =
     thenR (assert_legal_transition (lr_state r) target)
       (Inr (r\<lparr>lr_history := lr_history r @ [(lr_state r, target, at)], lr_state := target\<rparr>))"

inductive reachable_record :: "string \<Rightarrow> lifecycle_record \<Rightarrow> bool" for mid where
  start: "reachable_record mid (new_record mid)"
| step: "reachable_record mid r \<Longrightarrow> record_transition r target at = Inr r' \<Longrightarrow> reachable_record mid r'"

section \<open>The bounded checker\<close>

record model_check_finding =
  mf_name :: string
  mf_passed :: bool
  mf_detail :: string

record model_check_report =
  mr_findings :: "model_check_finding list"
  mr_paths_explored :: nat
  mr_depth_bound :: nat

definition report_passed :: "model_check_report \<Rightarrow> bool" where
  "report_passed r \<longleftrightarrow> (\<forall>f \<in> set (mr_findings r). mf_passed f)"

text \<open>The worklist loop of \<open>_reachable\<close>: pop a state, append the successors not seen yet.\<close>

definition unseen :: "lifecycle_state list \<Rightarrow> nat" where
  "unseen seen = length (filter (\<lambda>s. s \<notin> set seen) all_states)"

definition fresh_succs :: "lifecycle_state list \<Rightarrow> lifecycle_state \<Rightarrow> lifecycle_state list" where
  "fresh_succs seen cur = filter (\<lambda>n. n \<notin> set seen) (TRANSITIONS cur)"

lemma set_all_states [simp]: "set all_states = UNIV"
proof -
  have "s \<in> set all_states" for s by (cases s) (simp_all add: all_states_def)
  then show ?thesis by blast
qed

lemma distinct_all_states [simp]: "distinct all_states"
  by (simp add: all_states_def)

lemma distinct_TRANSITIONS [simp]: "distinct (TRANSITIONS s)"
  by (cases s) simp_all

lemma unseen_card: "unseen seen = card (UNIV - set seen)"
proof -
  have "unseen seen = card (set (filter (\<lambda>s. s \<notin> set seen) all_states))"
    unfolding unseen_def by (rule distinct_card [symmetric]) simp
  also have "set (filter (\<lambda>s. s \<notin> set seen) all_states) = UNIV - set seen"
    by auto
  finally show ?thesis .
qed

lemma finite_states [simp]: "finite (A :: lifecycle_state set)"
  by (metis finite_subset List.finite_set set_all_states subset_UNIV)

lemma unseen_fresh_succs:
  "unseen (seen @ fresh_succs seen cur) + length (fresh_succs seen cur) = unseen seen"
proof -
  let ?F = "set (fresh_succs seen cur)"
  have d: "length (fresh_succs seen cur) = card ?F"
    by (subst distinct_card) (simp_all add: fresh_succs_def)
  have s: "?F \<subseteq> UNIV - set seen"
    by (auto simp: fresh_succs_def)
  have "UNIV - set (seen @ fresh_succs seen cur) = (UNIV - set seen) - ?F"
    by auto
  moreover have "card ((UNIV - set seen) - ?F) + card ?F = card (UNIV - set seen)"
    using s by (metis card_Diff_subset card_mono finite_states le_add_diff_inverse2)
  ultimately show ?thesis
    by (metis d unseen_card)
qed

function reachable_loop :: "lifecycle_state list \<Rightarrow> lifecycle_state list \<Rightarrow> lifecycle_state list" where
  "reachable_loop seen [] = seen"
| "reachable_loop seen (cur # q) =
     reachable_loop (seen @ fresh_succs seen cur) (q @ fresh_succs seen cur)"
  by pat_completeness auto

termination
proof (relation "measure (\<lambda>(seen, q). length q + 2 * unseen seen)", simp)
  fix seen cur q
  show "((seen @ fresh_succs seen cur, q @ fresh_succs seen cur), (seen, cur # q))
      \<in> measure (\<lambda>(seen, q). length q + 2 * unseen seen)"
    using unseen_fresh_succs [of seen cur] by simp
qed

definition reachable_states :: "lifecycle_state list" where
  "reachable_states = reachable_loop [PROPOSED] [PROPOSED]"

definition happy_path :: "lifecycle_state list" where
  "happy_path = [PROPOSED, PREPARED, SEALED, AUTHORIZED, COMMITTING, COMMITTED, VERIFIED]"

text \<open>\<^verbatim>\<open>itertools.pairwise\<close>.\<close>

fun pairwise :: "'a list \<Rightarrow> ('a \<times> 'a) list" where
  "pairwise (x # y # zs) = (x, y) # pairwise (y # zs)"
| "pairwise _ = []"

definition sorted_nexts :: "lifecycle_state \<Rightarrow> lifecycle_state list" where
  "sorted_nexts cur = sort_key state_value (TRANSITIONS cur)"

text \<open>The inner loop over the sorted successors of the last state of a path: the
  paths to append, and the illegal path if one was found.\<close>

fun extend_path :: "lifecycle_state list \<Rightarrow> lifecycle_state \<Rightarrow> lifecycle_state list
    \<Rightarrow> lifecycle_state list list \<times> lifecycle_state list option" where
  "extend_path path cur [] = ([], None)"
| "extend_path path cur (nxt # rest) =
     (if \<not> is_legal_transition cur nxt then ([], Some (path @ [nxt]))
      else if nxt \<in> set path \<and> nxt \<notin> set TERMINAL_STATES then extend_path path cur rest
      else case extend_path path cur rest of (ps, bad) \<Rightarrow> ((path @ [nxt]) # ps, bad))"

lemma extend_path_length: "length (fst (extend_path path cur ns)) \<le> length ns"
  by (induction ns) (auto split: prod.splits)

lemma extend_path_longer: "p \<in> set (fst (extend_path path cur ns)) \<Longrightarrow> length p = Suc (length path)"
  by (induction ns) (auto split: prod.splits if_splits)

lemma length_TRANSITIONS: "length (TRANSITIONS s) \<le> 4"
  by (cases s) simp_all

definition path_weight :: "nat \<Rightarrow> lifecycle_state list \<Rightarrow> nat" where
  "path_weight bound p = 5 ^ (bound + 1 - length p)"

lemma path_weight_pos [simp]: "0 < path_weight bound p"
  by (simp add: path_weight_def)

lemma extend_path_weight:
  assumes "length path \<le> bound"
  shows "sum_list (map (path_weight bound) (fst (extend_path path cur (sorted_nexts c))))
           < path_weight bound path"
proof -
  let ?ps = "fst (extend_path path cur (sorted_nexts c))" and ?w = "5 ^ (bound - length path) :: nat"
  have "sum_list (map (path_weight bound) ?ps) = sum_list (map (\<lambda>_. ?w) ?ps)"
    by (rule arg_cong [of _ _ sum_list], rule map_cong)
      (auto simp: path_weight_def dest: extend_path_longer)
  also have "\<dots> = length ?ps * ?w"
    by (simp add: sum_list_triv)
  also have "\<dots> \<le> 4 * ?w"
    using extend_path_length [of path cur "sorted_nexts c"] length_TRANSITIONS [of c]
    by (simp add: sorted_nexts_def)
  also have "\<dots> < 5 * ?w"
    by simp
  also have "\<dots> = path_weight bound path"
    using assms by (simp add: path_weight_def Suc_diff_le)
  finally show ?thesis .
qed

text \<open>The breadth-first enumeration of paths, counting the paths taken from the queue.\<close>

function path_loop :: "nat \<Rightarrow> lifecycle_state list list \<Rightarrow> nat \<Rightarrow> nat \<times> lifecycle_state list option" where
  "path_loop bound [] n = (n, None)"
| "path_loop bound (path # q) n =
     (if length path > bound then path_loop bound q (Suc n)
      else if is_terminal (last path) then path_loop bound q (Suc n)
      else if TRANSITIONS (last path) = [] \<and> last path \<notin> set TERMINAL_STATES
        then (Suc n, Some path)
      else case snd (extend_path path (last path) (sorted_nexts (last path))) of
          Some bad \<Rightarrow> (Suc n, Some bad)
        | None \<Rightarrow> path_loop bound
            (q @ fst (extend_path path (last path) (sorted_nexts (last path)))) (Suc n))"
  by pat_completeness auto

termination
  by (relation "measure (\<lambda>(bound, q, n). sum_list (map (path_weight bound) q))")
    (auto simp: extend_path_weight path_weight_pos)

definition py_repr_list :: "string list \<Rightarrow> string" where
  "py_repr_list xs = ''['' @ join '', '' (map (\<lambda>x. [CHR 0x27] @ x @ [CHR 0x27]) xs) @ '']''"

definition inconsistent_edges :: "string list" where
  "inconsistent_edges = concat (map (\<lambda>src.
      map (\<lambda>dst. state_value src @ ''->'' @ state_value dst)
        (filter (\<lambda>dst. is_legal_transition src dst \<noteq> (dst \<in> set (TRANSITIONS src))) all_states))
      all_states)"

definition detail_of :: "bool \<Rightarrow> string \<Rightarrow> string" where
  "detail_of passed text = (if passed then ''ok'' else text)"

definition structural_findings :: "model_check_finding list" where
  "structural_findings = (let
      bad_terminals = map state_value (filter (\<lambda>s. TRANSITIONS s \<noteq> []) TERMINAL_STATES);
      happy_ok = (\<forall>(a, b) \<in> set (pairwise happy_path). is_legal_transition a b)
    in [\<lparr>mf_name = ''transition_table_consistent'', mf_passed = (inconsistent_edges = []),
          mf_detail = detail_of (inconsistent_edges = []) (join '','' (take 20 inconsistent_edges))\<rparr>,
        \<lparr>mf_name = ''terminals_have_no_exits'', mf_passed = (bad_terminals = []),
          mf_detail = detail_of (bad_terminals = []) (join '','' bad_terminals)\<rparr>,
        \<lparr>mf_name = ''happy_path_legal'', mf_passed = happy_ok,
          mf_detail = detail_of happy_ok ''happy path broken''\<rparr>])"

definition reachability_findings :: "model_check_finding list" where
  "reachability_findings = (let
      n = length reachable_states; total = length all_states;
      orphans = map state_value
        (filter (\<lambda>s. s \<notin> set reachable_states \<and> s \<noteq> PROPOSED) all_states)
    in [\<lparr>mf_name = ''no_orphan_states'', mf_passed = (n = total),
          mf_detail = (if n = total then ''reachable='' @ nat_str n @ ''/'' @ nat_str total
                       else ''orphans='' @ py_repr_list orphans)\<rparr>,
        \<lparr>mf_name = ''committing_not_revocable'', mf_passed = (COMMITTING \<notin> set REVOCABLE_STATES),
          mf_detail = ''ok''\<rparr>])"

definition check_lifecycle_model :: "int \<Rightarrow> model_check_report res" where
  "check_lifecycle_model depth_bound =
     (if depth_bound < 1 then Inl ValueError
      else case path_loop (nat depth_bound) [[PROPOSED]] 0 of (paths, illegal_path) \<Rightarrow>
        Inr \<lparr>mr_findings = structural_findings
             @ [\<lparr>mf_name = ''bounded_paths_legal'', mf_passed = (illegal_path = None),
                  mf_detail = (case illegal_path of None \<Rightarrow> ''ok''
                    | Some p \<Rightarrow> join ''->'' (map state_value p))\<rparr>]
             @ reachability_findings,
             mr_paths_explored = paths, mr_depth_bound = nat depth_bound\<rparr>)"

section \<open>Structure of the graph\<close>

text \<open>A rank that every legal transition increases.\<close>

primrec state_rank :: "lifecycle_state \<Rightarrow> nat" where
  "state_rank PROPOSED = 0"
| "state_rank PREPARED = 1"
| "state_rank SEALED = 2"
| "state_rank AUTHORIZED = 3"
| "state_rank COMMITTING = 4"
| "state_rank COMMITTED = 5"
| "state_rank VERIFIED = 6"
| "state_rank COMPENSATING = 7"
| "state_rank COMPENSATED = 8"
| "state_rank FAILED = 8"
| "state_rank RECOVERED_COMMITTED = 9"
| "state_rank REVOKED = 9"
| "state_rank EXPIRED = 9"

lemma legal_rank: "is_legal_transition a b \<Longrightarrow> state_rank a < state_rank b"
  by (cases a) (auto simp: is_legal_transition_def)

lemma is_terminal_iff: "is_terminal s \<longleftrightarrow> TRANSITIONS s = []"
  by (cases s) (simp_all add: is_terminal_def TERMINAL_STATES_def)

lemma is_revocable_iff: "is_revocable s \<longleftrightarrow> state_rank s < state_rank COMMITTING"
  by (cases s) (simp_all add: is_revocable_def REVOCABLE_STATES_def)

lemma state_of_state_value [simp]: "state_of_value (state_value s) = Inr s"
  by (cases s) (simp_all add: state_of_value_def all_states_def)

lemma state_value_inject [simp]: "state_value a = state_value b \<longleftrightarrow> a = b"
  by (metis state_of_state_value sum.inject(2))

lemma record_transition_ok_iff:
  "record_transition r target at = Inr r' \<longleftrightarrow>
     is_legal_transition (lr_state r) target \<and>
     r' = r\<lparr>lr_history := lr_history r @ [(lr_state r, target, at)], lr_state := target\<rparr>"
  by (auto simp: record_transition_def assert_legal_transition_def result_simps)

lemma record_transition_error_iff:
  "record_transition r target at = Inl e \<longleftrightarrow>
     \<not> is_legal_transition (lr_state r) target \<and> e = StateMachineE IllegalTransitionError"
  by (auto simp: record_transition_def assert_legal_transition_def result_simps)

text \<open>The history of a record is a path of legal steps that starts at \<^const>\<open>PROPOSED\<close>
  and ends in the current state.\<close>

fun history_path :: "lifecycle_state \<Rightarrow> (lifecycle_state \<times> lifecycle_state \<times> int) list
    \<Rightarrow> lifecycle_state \<Rightarrow> bool" where
  "history_path a [] b \<longleftrightarrow> a = b"
| "history_path a ((x, y, at) # h) b \<longleftrightarrow> x = a \<and> is_legal_transition x y \<and> history_path y h b"

lemma history_path_snoc:
  "history_path a (h @ [(x, y, at)]) b \<longleftrightarrow> history_path a h x \<and> is_legal_transition x y \<and> y = b"
  by (induction a h b arbitrary: y rule: history_path.induct) auto

lemma history_path_rank: "history_path a h b \<Longrightarrow> state_rank a + length h \<le> state_rank b"
  by (induction a h b rule: history_path.induct) (auto dest: legal_rank)

lemma history_path_targets_rank:
  "history_path a h b \<Longrightarrow> (x, y, at) \<in> set h \<Longrightarrow> state_rank a < state_rank y \<and> state_rank y \<le> state_rank b"
proof (induction a h b rule: history_path.induct)
  case (2 a x' y' at' h b)
  have "state_rank y' \<le> state_rank b"
    using 2(2) history_path_rank [of y' h b] by simp
  then show ?case
    using 2 legal_rank [of a y'] by auto
qed simp

lemma history_path_distinct: "history_path a h b \<Longrightarrow> distinct (map (\<lambda>(x, y, at). y) h)"
proof (induction a h b rule: history_path.induct)
  case (2 a x y at h b)
  then show ?case
    using history_path_targets_rank [of y h b] by fastforce
qed simp

lemma reachable_record_path: "reachable_record mid r \<Longrightarrow> history_path PROPOSED (lr_history r) (lr_state r)"
proof (induction rule: reachable_record.induct)
  case start
  then show ?case by (simp add: new_record_def)
next
  case (step r target at r')
  then show ?case by (auto simp: record_transition_ok_iff history_path_snoc)
qed

text \<open>A lifecycle record reached by any sequence of transitions has a history
  that is a chain of legal steps from \<^verbatim>\<open>proposed\<close> to its current state, enters each
  state at most once (in particular \<^verbatim>\<open>committing\<close>, the state of the external
  effect, at most once), and is at most nine steps long.\<close>

theorem record_history_acyclic:
  assumes "reachable_record mid r"
  shows "history_path PROPOSED (lr_history r) (lr_state r)
       \<and> distinct (map (\<lambda>(x, y, at). y) (lr_history r))
       \<and> length (lr_history r) \<le> 9"
proof -
  have h: "history_path PROPOSED (lr_history r) (lr_state r)"
    using assms by (rule reachable_record_path)
  moreover have "state_rank (lr_state r) \<le> 9"
    by (cases "lr_state r") simp_all
  ultimately show ?thesis
    using history_path_rank [OF h] history_path_distinct [OF h] by simp
qed

definition sample_record :: lifecycle_record where
  "sample_record = \<lparr>lr_manifest_id = ''m-1'', lr_state = SEALED,
     lr_history = [(PROPOSED, PREPARED, 10), (PREPARED, SEALED, 20)]\<rparr>"

lemma sample_record_reachable: "reachable_record ''m-1'' sample_record"
proof -
  let ?r1 = "\<lparr>lr_manifest_id = ''m-1'', lr_state = PREPARED, lr_history = [(PROPOSED, PREPARED, 10)]\<rparr>"
  have "reachable_record ''m-1'' ?r1"
    by (rule reachable_record.step [OF reachable_record.start, of _ PREPARED 10])
      (simp add: record_transition_ok_iff new_record_def is_legal_transition_def)
  then show ?thesis
    by (rule reachable_record.step [of _ _ SEALED 20])
      (simp add: record_transition_ok_iff sample_record_def is_legal_transition_def)
qed

theorem record_history_acyclic_witness:
  "reachable_record ''m-1'' sample_record \<and> length (lr_history sample_record) \<le> 9"
  using record_history_acyclic [OF sample_record_reachable] sample_record_reachable by simp

text \<open>The states from which the effect may already have happened.\<close>

definition effect_states :: "lifecycle_state set" where
  "effect_states = {COMMITTING, COMMITTED, VERIFIED, COMPENSATING, COMPENSATED, FAILED,
     RECOVERED_COMMITTED}"

lemma effect_states_closed: "a \<in> effect_states \<Longrightarrow> is_legal_transition a b \<Longrightarrow> b \<in> effect_states"
  by (auto simp: effect_states_def is_legal_transition_def)

lemma history_path_effect_states: "history_path a h b \<Longrightarrow> a \<in> effect_states \<Longrightarrow> b \<in> effect_states"
  by (induction a h b rule: history_path.induct) (auto dest: effect_states_closed)

lemma history_path_committing:
  "history_path a h b \<Longrightarrow> (x, COMMITTING, at) \<in> set h \<Longrightarrow> b \<in> effect_states"
proof (induction a h b rule: history_path.induct)
  case (2 a x' y at' h b)
  then show ?case
    using history_path_effect_states [of y h b] by (auto simp: effect_states_def)
qed simp

text \<open>Revocation happens only before the effect: a record whose state is revocable
  has never entered \<^verbatim>\<open>committing\<close>, and a record that has entered it is never again in
  a revocable state, in \<^verbatim>\<open>revoked\<close> or in \<^verbatim>\<open>expired\<close>.\<close>

theorem revocable_before_committing:
  assumes "reachable_record mid r"
  shows "(is_revocable (lr_state r) \<or> lr_state r \<in> {REVOKED, EXPIRED})
           \<longrightarrow> (\<forall>(x, y, at) \<in> set (lr_history r). y \<noteq> COMMITTING)"
proof -
  have h: "history_path PROPOSED (lr_history r) (lr_state r)"
    using assms by (rule reachable_record_path)
  show ?thesis
    using history_path_committing [OF h]
    by (auto simp: is_revocable_def REVOCABLE_STATES_def effect_states_def)
qed

theorem revocable_before_committing_witness:
  "reachable_record ''m-1'' sample_record \<and> is_revocable (lr_state sample_record)
   \<and> list_all (\<lambda>(x, y, at). y \<noteq> COMMITTING) (lr_history sample_record)"
proof -
  have "is_revocable (lr_state sample_record)"
    by (simp add: sample_record_def is_revocable_def REVOCABLE_STATES_def)
  then show ?thesis
    using revocable_before_committing [OF sample_record_reachable] sample_record_reachable
    by (simp add: list_all_iff)
qed

section \<open>The checker\<close>

abbreviation legal_step :: "lifecycle_state \<Rightarrow> lifecycle_state \<Rightarrow> bool" where
  "legal_step a b \<equiv> is_legal_transition a b"

lemma reachable_loop_subset:
  assumes "\<And>s. s \<in> set seen \<union> set q \<Longrightarrow> legal_step\<^sup>*\<^sup>* PROPOSED s"
  shows "s \<in> set (reachable_loop seen q) \<Longrightarrow> legal_step\<^sup>*\<^sup>* PROPOSED s"
  using assms
proof (induction seen q rule: reachable_loop.induct)
  case (2 seen cur q)
  have "legal_step\<^sup>*\<^sup>* PROPOSED t" if "t \<in> set (fresh_succs seen cur)" for t
  proof -
    have "legal_step cur t"
      using that by (simp add: fresh_succs_def is_legal_transition_def)
    moreover have "legal_step\<^sup>*\<^sup>* PROPOSED cur"
      using 2(3) by simp
    ultimately show ?thesis
      by (rule rtranclp.rtrancl_into_rtrancl [rotated])
  qed
  then show ?case
    using 2 by auto
qed auto

lemma reachable_loop_closed:
  assumes "set q \<subseteq> set seen"
    and "\<And>a b. a \<in> set seen - set q \<Longrightarrow> legal_step a b \<Longrightarrow> b \<in> set seen"
  shows "set seen \<subseteq> set (reachable_loop seen q) \<and>
    (\<forall>a b. a \<in> set (reachable_loop seen q) \<longrightarrow> legal_step a b \<longrightarrow> b \<in> set (reachable_loop seen q))"
  using assms
proof (induction seen q rule: reachable_loop.induct)
  case (2 seen cur q)
  have "set (q @ fresh_succs seen cur) \<subseteq> set (seen @ fresh_succs seen cur)"
    using 2(2) by auto
  moreover have "b \<in> set (seen @ fresh_succs seen cur)"
    if "a \<in> set (seen @ fresh_succs seen cur) - set (q @ fresh_succs seen cur)" "legal_step a b" for a b
    using that 2(3) [of a b] by (cases "a = cur") (auto simp: fresh_succs_def is_legal_transition_def)
  ultimately show ?case
    using 2(1) by auto
qed auto

text \<open>The reachability search of the model checker computes exactly the states that
  some sequence of legal transitions reaches from \<^verbatim>\<open>proposed\<close>.\<close>

theorem reachable_states_correct:
  "set reachable_states = {s. (\<lambda>a b. is_legal_transition a b)\<^sup>*\<^sup>* PROPOSED s}"
proof (intro set_eqI iffI CollectI)
  fix s
  assume "s \<in> set reachable_states"
  then show "legal_step\<^sup>*\<^sup>* PROPOSED s"
    unfolding reachable_states_def by (rule reachable_loop_subset [rotated]) simp
next
  fix s
  assume "s \<in> {s. legal_step\<^sup>*\<^sup>* PROPOSED s}"
  then have "legal_step\<^sup>*\<^sup>* PROPOSED s" by simp
  then show "s \<in> set reachable_states"
    unfolding reachable_states_def
    using reachable_loop_closed [of "[PROPOSED]" "[PROPOSED]"]
    by induction auto
qed

lemma extend_path_legal:
  assumes "\<And>n. n \<in> set ns \<Longrightarrow> is_legal_transition cur n"
  shows "snd (extend_path path cur ns) = None"
  using assms by (induction ns) (auto split: prod.splits)

lemma extend_sorted_nexts [simp]: "snd (extend_path path cur (sorted_nexts cur)) = None"
  by (rule extend_path_legal) (simp add: sorted_nexts_def is_legal_transition_def)

lemma path_loop_legal: "snd (path_loop bound q n) = None"
proof (induction bound q n rule: path_loop.induct)
  case (2 bound path q n)
  then show ?case
    by (cases "bound < length path"; cases "is_terminal (last path)")
      (simp_all add: is_terminal_iff)
qed simp

lemma structural_findings_passed: "f \<in> set structural_findings \<Longrightarrow> mf_passed f"
  by (auto simp: structural_findings_def Let_def inconsistent_edges_def is_legal_transition_def
      TERMINAL_STATES_def happy_path_def)

lemma reachable_states_value:
  "reachable_states = [PROPOSED, PREPARED, FAILED, REVOKED, SEALED, EXPIRED, RECOVERED_COMMITTED,
     AUTHORIZED, COMMITTING, COMMITTED, VERIFIED, COMPENSATING, COMPENSATED]"
  by (simp add: reachable_states_def fresh_succs_def)

lemma reachability_findings_passed: "f \<in> set reachability_findings \<Longrightarrow> mf_passed f"
  by (auto simp: reachability_findings_def Let_def reachable_states_value all_states_def
      REVOCABLE_STATES_def)


text \<open>The terminal states are exactly the states without a legal transition out of
  them, and the record of a manifest in such a state refuses every target.\<close>

theorem terminal_states_final:
  "is_terminal s \<longleftrightarrow>
     (\<forall>r target at. lr_state r = s \<longrightarrow>
        record_transition r target at = Inl (StateMachineE IllegalTransitionError))"
proof
  assume "is_terminal s"
  then show "\<forall>r target at. lr_state r = s \<longrightarrow>
      record_transition r target at = Inl (StateMachineE IllegalTransitionError)"
    by (simp add: record_transition_error_iff is_legal_transition_def is_terminal_iff)
next
  assume *: "\<forall>r target at. lr_state r = s \<longrightarrow>
      record_transition r target at = Inl (StateMachineE IllegalTransitionError)"
  then have "\<not> is_legal_transition s t" for t
    using * [rule_format, of "(new_record [])\<lparr>lr_state := s\<rparr>" t 0]
    by (simp add: record_transition_error_iff)
  then show "is_terminal s"
    by (cases "TRANSITIONS s") (auto simp: is_terminal_iff is_legal_transition_def)
qed

theorem terminal_states_final_witness:
  "is_terminal REVOKED \<and> record_transition ((new_record ''m-1'')\<lparr>lr_state := REVOKED\<rparr>) AUTHORIZED 0
     = Inl (StateMachineE IllegalTransitionError)"
proof -
  have "is_terminal REVOKED"
    by (simp add: is_terminal_def TERMINAL_STATES_def)
  then show ?thesis
    using terminal_states_final [of REVOKED] by simp
qed

end
