(* ===== verification/Delegation.thy ===== *)
theory Delegation
  imports Grants GrantStores Lifecycle
begin

text \<open>
  Delegation (\<^verbatim>\<open>delegation/\<close>): the attenuation check between a child grant and its parent,
  the verification of a chain from root to leaf, and the walk over the recorded ancestors of a
  grant that looks for a revoked one.  The chain and the walk read the grant store through the
  operations of its contract, so what is proved holds for every backend.

  The meaning of a grant is the set of requests it permits; attenuation is sound for it: a
  child that passes the check permits nothing its parent does not.
\<close>

section \<open>Attenuation\<close>

definition assert_allow_list_narrower_or_equal :: "string list option \<Rightarrow> string list option \<Rightarrow> unit res" where
  "assert_allow_list_narrower_or_equal child parent = (case parent of
      None \<Rightarrow> Inr ()
    | Some p \<Rightarrow> (case child of
          None \<Rightarrow> Inl (DelegationE ConstraintWideningError)
        | Some c \<Rightarrow> raise_if (\<not> set c \<subseteq> set p) (DelegationE ConstraintWideningError)))"

definition assert_amount_narrower_or_equal ::
    "monetary_amount option \<Rightarrow> monetary_amount option \<Rightarrow> unit res" where
  "assert_amount_narrower_or_equal child parent = (case parent of
      None \<Rightarrow> Inr ()
    | Some p \<Rightarrow> (case child of
          None \<Rightarrow> Inl (DelegationE ConstraintWideningError)
        | Some c \<Rightarrow>
            if currency c \<noteq> currency p then Inl (DelegationE IncomparableConstraintError)
            else raise_if (minor_units c > minor_units p) (DelegationE ConstraintWideningError)))"

definition assert_scope_narrower_or_equal :: "scope_constraints \<Rightarrow> scope_constraints \<Rightarrow> unit res" where
  "assert_scope_narrower_or_equal child parent = allR
     [assert_allow_list_narrower_or_equal (sc_target_resources child) (sc_target_resources parent),
      assert_allow_list_narrower_or_equal (sc_recipients child) (sc_recipients parent),
      assert_amount_narrower_or_equal (sc_max_amount child) (sc_max_amount parent),
      assert_allow_list_narrower_or_equal (sc_allowed_fields child) (sc_allowed_fields parent),
      assert_allow_list_narrower_or_equal (sc_environments child) (sc_environments parent)]"

definition assert_grant_narrower_or_equal :: "execution_grant \<Rightarrow> execution_grant \<Rightarrow> unit res" where
  "assert_grant_narrower_or_equal child parent = allR
     [raise_if (g_expires_at child > g_expires_at parent) (DelegationE ConstraintWideningError),
      raise_if (g_not_before child < g_not_before parent) (DelegationE ConstraintWideningError),
      raise_if (g_max_uses child > g_max_uses parent) (DelegationE ConstraintWideningError),
      assert_allow_list_narrower_or_equal (Some (g_audience child)) (Some (g_audience parent)),
      assert_allow_list_narrower_or_equal (Some (g_allowed_effect_types child))
        (Some (g_allowed_effect_types parent)),
      assert_scope_narrower_or_equal (g_scope child) (g_scope parent),
      raise_if (g_authority_budget_id parent \<noteq> None \<and> g_authority_budget_id child = None)
        (DelegationE ConstraintWideningError),
      raise_if (g_authority_budget_id parent \<noteq> None \<and>
                g_authority_budget_id child \<noteq> g_authority_budget_id parent)
        (DelegationE ConstraintWideningError)]"

section \<open>What a grant permits\<close>

record effect_request =
  rq_audience :: string
  rq_effect_type :: string
  rq_resource :: string
  rq_recipient :: string
  rq_amount :: "monetary_amount option"
  rq_field :: string
  rq_environment :: string
  rq_time :: time
  rq_use_index :: int

definition in_allow_list :: "string \<Rightarrow> string list option \<Rightarrow> bool" where
  "in_allow_list x l \<longleftrightarrow> (case l of None \<Rightarrow> True | Some xs \<Rightarrow> x \<in> set xs)"

definition within_amount :: "monetary_amount option \<Rightarrow> monetary_amount option \<Rightarrow> bool" where
  "within_amount a cap \<longleftrightarrow> (case cap of
      None \<Rightarrow> True
    | Some c \<Rightarrow> (case a of None \<Rightarrow> True | Some x \<Rightarrow> currency x = currency c \<and> minor_units x \<le> minor_units c))"

definition permits :: "execution_grant \<Rightarrow> effect_request \<Rightarrow> bool" where
  "permits g r \<longleftrightarrow>
     rq_audience r \<in> set (g_audience g) \<and> rq_effect_type r \<in> set (g_allowed_effect_types g)
     \<and> in_allow_list (rq_resource r) (sc_target_resources (g_scope g))
     \<and> in_allow_list (rq_recipient r) (sc_recipients (g_scope g))
     \<and> within_amount (rq_amount r) (sc_max_amount (g_scope g))
     \<and> in_allow_list (rq_field r) (sc_allowed_fields (g_scope g))
     \<and> in_allow_list (rq_environment r) (sc_environments (g_scope g))
     \<and> g_not_before g \<le> rq_time r \<and> rq_time r \<le> g_expires_at g
     \<and> rq_use_index r < g_max_uses g"

definition allow_list_leq :: "string list option \<Rightarrow> string list option \<Rightarrow> bool" where
  "allow_list_leq c p \<longleftrightarrow> (case p of None \<Rightarrow> True
     | Some ps \<Rightarrow> (case c of None \<Rightarrow> False | Some cs \<Rightarrow> set cs \<subseteq> set ps))"

definition amount_leq :: "monetary_amount option \<Rightarrow> monetary_amount option \<Rightarrow> bool" where
  "amount_leq c p \<longleftrightarrow> (case p of None \<Rightarrow> True
     | Some q \<Rightarrow> (case c of None \<Rightarrow> False | Some x \<Rightarrow> currency x = currency q \<and> minor_units x \<le> minor_units q))"

lemma allow_list_ok [simp]: "is_ok (assert_allow_list_narrower_or_equal c p) \<longleftrightarrow> allow_list_leq c p"
  by (simp add: assert_allow_list_narrower_or_equal_def allow_list_leq_def split: option.splits)

lemma amount_ok [simp]: "is_ok (assert_amount_narrower_or_equal c p) \<longleftrightarrow> amount_leq c p"
  by (auto simp: assert_amount_narrower_or_equal_def amount_leq_def split: option.splits)

lemma allow_list_leq_trans: "allow_list_leq a b \<Longrightarrow> allow_list_leq b c \<Longrightarrow> allow_list_leq a c"
  by (auto simp: allow_list_leq_def split: option.splits)

lemma amount_leq_trans: "amount_leq a b \<Longrightarrow> amount_leq b c \<Longrightarrow> amount_leq a c"
  by (auto simp: amount_leq_def split: option.splits)

lemma allow_list_leq_sound: "allow_list_leq c p \<Longrightarrow> in_allow_list x c \<Longrightarrow> in_allow_list x p"
  by (auto simp: allow_list_leq_def in_allow_list_def split: option.splits)

lemma amount_leq_sound: "amount_leq c p \<Longrightarrow> within_amount x c \<Longrightarrow> within_amount x p"
  by (auto simp: amount_leq_def within_amount_def split: option.splits)

lemma narrower_ok_iff:
  "assert_grant_narrower_or_equal c p = Inr () \<longleftrightarrow>
     g_expires_at c \<le> g_expires_at p \<and> g_not_before p \<le> g_not_before c \<and> g_max_uses c \<le> g_max_uses p
     \<and> set (g_audience c) \<subseteq> set (g_audience p)
     \<and> set (g_allowed_effect_types c) \<subseteq> set (g_allowed_effect_types p)
     \<and> allow_list_leq (sc_target_resources (g_scope c)) (sc_target_resources (g_scope p))
     \<and> allow_list_leq (sc_recipients (g_scope c)) (sc_recipients (g_scope p))
     \<and> amount_leq (sc_max_amount (g_scope c)) (sc_max_amount (g_scope p))
     \<and> allow_list_leq (sc_allowed_fields (g_scope c)) (sc_allowed_fields (g_scope p))
     \<and> allow_list_leq (sc_environments (g_scope c)) (sc_environments (g_scope p))
     \<and> (g_authority_budget_id p \<noteq> None \<longrightarrow> g_authority_budget_id c = g_authority_budget_id p)"
  unfolding is_ok_unit [symmetric] assert_grant_narrower_or_equal_def assert_scope_narrower_or_equal_def
  by (auto simp: allow_list_leq_def not_less)

lemma narrower_trans:
  "assert_grant_narrower_or_equal a b = Inr () \<Longrightarrow> assert_grant_narrower_or_equal b c = Inr () \<Longrightarrow>
     assert_grant_narrower_or_equal a c = Inr ()"
  unfolding narrower_ok_iff by (force intro: allow_list_leq_trans amount_leq_trans)

lemma narrower_refl: "assert_grant_narrower_or_equal a a = Inr ()"
  unfolding narrower_ok_iff by (simp add: allow_list_leq_def amount_leq_def split: option.splits)

lemma narrower_permits:
  "assert_grant_narrower_or_equal c p = Inr () \<Longrightarrow> permits c r \<Longrightarrow> permits p r"
  unfolding narrower_ok_iff permits_def by (force intro: allow_list_leq_sound amount_leq_sound)



section \<open>Chains\<close>

fun chain_members_check :: "crypto \<Rightarrow> 's grant_store_ops \<Rightarrow> 's \<Rightarrow> keyring \<Rightarrow> time \<Rightarrow> time
    \<Rightarrow> execution_grant list \<Rightarrow> unit res" where
  "chain_members_check cr ops st kr now leeway [] = Inr ()"
| "chain_members_check cr ops st kr now leeway (g # gs) =
     thenR (verify_grant cr g kr now leeway)
     (thenR (raise_if (gs_is_revoked ops st (g_grant_id g)) (GrantE GrantRevokedError))
      (chain_members_check cr ops st kr now leeway gs))"

fun chain_links_check :: "(execution_grant \<times> execution_grant) list \<Rightarrow> unit res" where
  "chain_links_check [] = Inr ()"
| "chain_links_check ((parent, child) # ps) =
     thenR (raise_if (g_parent_grant_id child \<noteq> Some (g_grant_id parent)) (DelegationE DelegationError))
     (thenR (assert_grant_narrower_or_equal child parent) (chain_links_check ps))"

definition verify_delegation_chain :: "crypto \<Rightarrow> 's grant_store_ops \<Rightarrow> 's \<Rightarrow> keyring \<Rightarrow> time \<Rightarrow> time
    \<Rightarrow> execution_grant list \<Rightarrow> unit res" where
  "verify_delegation_chain cr ops st kr now leeway chain =
     (if chain = [] then Inl (DelegationE DelegationError)
      else if g_parent_grant_id (hd chain) \<noteq> None then Inl (DelegationE DelegationError)
      else thenR (chain_members_check cr ops st kr now leeway chain)
             (chain_links_check (pairwise chain)))"

lemma chain_members_ok:
  "chain_members_check cr ops st kr now leeway gs = Inr () \<longleftrightarrow>
     (\<forall>g \<in> set gs. verify_grant cr g kr now leeway = Inr () \<and> \<not> gs_is_revoked ops st (g_grant_id g))"
  by (induction gs) (auto simp: result_simps is_ok_unit)

lemma chain_links_ok:
  "chain_links_check (pairwise gs) = Inr () \<Longrightarrow> gs \<noteq> [] \<Longrightarrow> g \<in> set gs \<Longrightarrow>
     assert_grant_narrower_or_equal g (hd gs) = Inr () \<and> assert_grant_narrower_or_equal (last gs) g = Inr ()"
proof (induction gs arbitrary: g rule: pairwise.induct)
  case (1 x y zs)
  then have y: "assert_grant_narrower_or_equal y x = Inr ()" "chain_links_check (pairwise (y # zs)) = Inr ()"
    by (auto simp: result_simps is_ok_unit)
  have IH: "assert_grant_narrower_or_equal h y = Inr () \<and> assert_grant_narrower_or_equal (last (y # zs)) h = Inr ()"
    if "h \<in> set (y # zs)" for h
    using 1(1) [OF y(2) _ that] by simp
  show ?case
  proof (cases "g = x")
    case True
    have "assert_grant_narrower_or_equal (last (y # zs)) y = Inr ()"
      using IH [of y] by simp
    then show ?thesis
      using True narrower_refl narrower_trans [OF _ y(1)] by simp
  next
    case False
    then have "g \<in> set (y # zs)"
      using 1(4) by simp
    then show ?thesis
      using IH [of g] narrower_trans [OF _ y(1)] by simp
  qed
qed (auto simp: narrower_refl)


section \<open>Ancestors\<close>

definition MAX_DELEGATION_DEPTH :: int where
  "MAX_DELEGATION_DEPTH = 16"

text \<open>The loop of \<open>assert_no_revoked_ancestors\<close>; \<open>fuel\<close> is \<open>max_depth - depth\<close>, and the loop
  raises when it would take a step beyond it.\<close>

fun ancestor_walk :: "'s grant_store_ops \<Rightarrow> 's \<Rightarrow> nat \<Rightarrow> string list \<Rightarrow> string list \<Rightarrow> string option
    \<Rightarrow> string list res" where
  "ancestor_walk ops st fuel seen checked None = Inr checked"
| "ancestor_walk ops st 0 seen checked (Some cur) = Inl (DelegationE DelegationLineageError)"
| "ancestor_walk ops st (Suc n) seen checked (Some cur) =
     (if cur \<in> set seen then Inl (DelegationE DelegationLineageError)
      else if gs_is_revoked ops st cur then Inl (GrantE GrantRevokedError)
      else if gs_get_parent_grant_id ops st cur = None \<and> \<not> gs_has_lineage ops st cur
        then Inl (DelegationE DelegationLineageError)
      else ancestor_walk ops st n (cur # seen) (checked @ [cur]) (gs_get_parent_grant_id ops st cur))"

definition assert_no_revoked_ancestors :: "'s grant_store_ops \<Rightarrow> 's \<Rightarrow> int \<Rightarrow> execution_grant \<Rightarrow> string list res" where
  "assert_no_revoked_ancestors ops st max_depth g =
     (if max_depth < 1 \<or> max_depth > MAX_DELEGATION_DEPTH then Inl (DelegationE DelegationLineageError)
      else case g_parent_grant_id g of
          None \<Rightarrow> Inr []
        | Some p \<Rightarrow> ancestor_walk ops st (nat max_depth) [g_grant_id g] [] (Some p))"

text \<open>The ancestors of a grant as the store records them, up to a recorded root.\<close>

fun ancestor_path :: "'s grant_store_ops \<Rightarrow> 's \<Rightarrow> string option \<Rightarrow> string list \<Rightarrow> bool" where
  "ancestor_path ops st cur [] \<longleftrightarrow> cur = None"
| "ancestor_path ops st cur (a # as) \<longleftrightarrow> cur = Some a
     \<and> (gs_get_parent_grant_id ops st a \<noteq> None \<or> gs_has_lineage ops st a)
     \<and> ancestor_path ops st (gs_get_parent_grant_id ops st a) as"

lemma ancestor_walk_ok:
  "ancestor_walk ops st n seen checked cur = Inr xs \<Longrightarrow>
     \<exists>as. xs = checked @ as \<and> length as \<le> n \<and> ancestor_path ops st cur as
       \<and> distinct as \<and> set as \<inter> set seen = {} \<and> (\<forall>a \<in> set as. \<not> gs_is_revoked ops st a)"
proof (induction ops st n seen checked cur rule: ancestor_walk.induct)
  case (3 ops st n seen checked cur)
  then obtain as where "xs = checked @ cur # as" "length as \<le> n"
    "ancestor_path ops st (gs_get_parent_grant_id ops st cur) as" "distinct as"
    "set as \<inter> set (cur # seen) = {}" "\<forall>a \<in> set as. \<not> gs_is_revoked ops st a"
    "cur \<notin> set seen" "\<not> gs_is_revoked ops st cur"
    "gs_get_parent_grant_id ops st cur \<noteq> None \<or> gs_has_lineage ops st cur"
    by (auto split: if_splits)
  then show ?case
    by (intro exI [of _ "cur # as"]) auto
qed auto

lemma ancestor_walk_complete:
  "ancestor_path ops st cur as \<Longrightarrow> length as \<le> n \<Longrightarrow> distinct as \<Longrightarrow> set as \<inter> set seen = {} \<Longrightarrow>
     \<forall>a \<in> set as. \<not> gs_is_revoked ops st a \<Longrightarrow> ancestor_walk ops st n seen checked cur = Inr (checked @ as)"
proof (induction as arbitrary: cur n seen checked)
  case (Cons a as)
  then obtain m where "n = Suc m" by (cases n) auto
  then show ?case
    using Cons.IH [of "gs_get_parent_grant_id ops st a" m "a # seen" "checked @ [a]"] Cons.prems by auto
qed simp

text \<open>The ancestor walk accepts a grant, returning its ancestors in order, if and only if
  the store records a complete lineage from the grant's parent to a recorded root that is at most
  \<open>max_depth\<close> long, without a cycle, and with no revoked grant on it.  It always terminates.\<close>

theorem ancestor_check_exact:
  "assert_no_revoked_ancestors ops st max_depth g = Inr xs \<longleftrightarrow>
     1 \<le> max_depth \<and> max_depth \<le> MAX_DELEGATION_DEPTH
     \<and> ancestor_path ops st (g_parent_grant_id g) xs \<and> int (length xs) \<le> max_depth
     \<and> distinct xs \<and> g_grant_id g \<notin> set xs \<and> (\<forall>a \<in> set xs. \<not> gs_is_revoked ops st a)"
proof (cases "1 \<le> max_depth \<and> max_depth \<le> MAX_DELEGATION_DEPTH")
  case d: True
  show ?thesis
  proof (cases "g_parent_grant_id g")
    case None
    then show ?thesis
      using d by (cases xs) (auto simp: assert_no_revoked_ancestors_def)
  next
    case (Some p)
    have "ancestor_walk ops st (nat max_depth) [g_grant_id g] [] (Some p) = Inr xs \<longleftrightarrow>
        ancestor_path ops st (Some p) xs \<and> int (length xs) \<le> max_depth \<and> distinct xs
        \<and> g_grant_id g \<notin> set xs \<and> (\<forall>a \<in> set xs. \<not> gs_is_revoked ops st a)"
      using ancestor_walk_ok [of ops st "nat max_depth" "[g_grant_id g]" "[]" "Some p" xs]
        ancestor_walk_complete [of ops st "Some p" xs "nat max_depth" "[g_grant_id g]" "[]"] d
      by (auto simp: le_nat_iff)
    then show ?thesis
      using d Some by (simp add: assert_no_revoked_ancestors_def)
  qed
next
  case False
  then show ?thesis
    by (auto simp: assert_no_revoked_ancestors_def)
qed

definition toy_lineage :: mem_store where
  "toy_lineage = mem_record_lineage (mem_record_lineage mem_init ''root'' None) ''mid'' (Some ''root'')"

theorem ancestor_check_exact_witness:
  "assert_no_revoked_ancestors mem_ops toy_lineage 16 (toy_grant_args\<lparr>g_parent_grant_id := Some ''mid''\<rparr>)
     = Inr [''mid'', ''root'']"
  using ancestor_check_exact [of mem_ops toy_lineage 16 "toy_grant_args\<lparr>g_parent_grant_id := Some ''mid''\<rparr>"
      "[''mid'', ''root'']"]
  by (simp add: MAX_DELEGATION_DEPTH_def toy_lineage_def mem_ops_def mem_record_lineage_def mem_init_def
      mem_get_parent_grant_id_def mem_has_lineage_def mem_is_revoked_def toy_grant_args_def)


end
