(* ===== verification/AuditJournal.thy ===== *)
theory AuditJournal
  imports Sealing
begin

text \<open>
  The audit journal (\<^verbatim>\<open>audit/\<close>): the event with its validators, the hash chain, the journal
  over a backend, and the in-memory and SQLite backends.

  A backend is the contract \<open>audit_backend\<close>: it appends at the end or raises and changes
  nothing.  The journal proved over it keeps the chain valid.  The SQLite backend's primary key
  also makes it safe to share: an event built from a stale view of the journal is refused.  The
  SQLite payload is the event itself; its encoding and pydantic's parsing are not modelled.

  An identifier that \<^verbatim>\<open>uuid4\<close> draws is an argument.
\<close>

section \<open>Events\<close>

record audit_event =
  ae_sequence :: int
  ae_event_id :: string
  ae_previous_hash :: "string option"
  ae_event_hash :: string
  ae_timestamp :: time
  ae_manifest_id :: "string option"
  ae_manifest_hash :: "string option"
  ae_grant_id :: "string option"
  ae_actor_id :: "string option"
  ae_event_type :: string
  ae_from_state :: "string option"
  ae_to_state :: "string option"
  ae_decision :: string
  ae_metadata :: "(string \<times> string) list"

definition nonempty_256 :: "string \<Rightarrow> unit res" where
  "nonempty_256 v = raise_if (v = [] \<or> length v > 256) ValueError"

definition event_validate :: "audit_event \<Rightarrow> unit res" where
  "event_validate e = allR
     [raise_if (ae_sequence e < 1) ValueError,
      nonempty_256 (ae_event_id e), nonempty_256 (ae_event_type e), nonempty_256 (ae_decision e),
      raise_if (length (ae_metadata e) > 32) ValueError,
      raise_if (\<exists>(k, v) \<in> set (ae_metadata e). length k > 64 \<or> length v > 1024) ValueError]"

definition event_json :: "crypto \<Rightarrow> audit_event \<Rightarrow> json" where
  "event_json cr e = JObj
     [(''sequence'', JInt (ae_sequence e)),
      (''event_id'', JStr (ae_event_id e)),
      (''previous_hash'', jstr_opt (ae_previous_hash e)),
      (''timestamp'', JStr (cr_iso cr (ae_timestamp e))),
      (''manifest_id'', jstr_opt (ae_manifest_id e)),
      (''manifest_hash'', jstr_opt (ae_manifest_hash e)),
      (''grant_id'', jstr_opt (ae_grant_id e)),
      (''actor_id'', jstr_opt (ae_actor_id e)),
      (''event_type'', JStr (ae_event_type e)),
      (''from_state'', jstr_opt (ae_from_state e)),
      (''to_state'', jstr_opt (ae_to_state e)),
      (''decision'', JStr (ae_decision e)),
      (''metadata'', JObj (map (\<lambda>(k, v). (k, JStr v)) (ae_metadata e)))]"

definition compute_event_hash :: "crypto \<Rightarrow> audit_event \<Rightarrow> string" where
  "compute_event_hash cr e = canonical_hash (cr_sha256 cr) (event_json cr e)"

section \<open>Chains\<close>

fun verify_chain_from :: "crypto \<Rightarrow> string option \<Rightarrow> int \<Rightarrow> audit_event list \<Rightarrow> unit res" where
  "verify_chain_from cr previous sequence [] = Inr ()"
| "verify_chain_from cr previous sequence (e # es) =
     (if ae_sequence e \<noteq> sequence then Inl (AuditE AuditTamperedError)
      else if ae_previous_hash e \<noteq> previous then Inl (AuditE AuditTamperedError)
      else if compute_event_hash cr e \<noteq> ae_event_hash e then Inl (AuditE AuditTamperedError)
      else verify_chain_from cr (Some (ae_event_hash e)) (sequence + 1) es)"

definition verify_event_chain :: "crypto \<Rightarrow> audit_event list \<Rightarrow> unit res" where
  "verify_event_chain cr events = verify_chain_from cr None 1 events"

fun verify_self_from :: "crypto \<Rightarrow> int option \<Rightarrow> audit_event list \<Rightarrow> unit res" where
  "verify_self_from cr previous [] = Inr ()"
| "verify_self_from cr previous (e # es) =
     (if (case previous of None \<Rightarrow> False | Some p \<Rightarrow> ae_sequence e \<le> p) then Inl (AuditE AuditTamperedError)
      else if compute_event_hash cr e \<noteq> ae_event_hash e then Inl (AuditE AuditTamperedError)
      else verify_self_from cr (Some (ae_sequence e)) es)"

definition verify_event_self_consistency :: "crypto \<Rightarrow> audit_event list \<Rightarrow> unit res" where
  "verify_event_self_consistency cr events = verify_self_from cr None events"

section \<open>The journal\<close>

text \<open>The keyword arguments of \<open>record\<close>.\<close>

record audit_entry =
  en_event_type :: string
  en_decision :: string
  en_manifest_id :: "string option"
  en_manifest_hash :: "string option"
  en_grant_id :: "string option"
  en_actor_id :: "string option"
  en_from_state :: "string option"
  en_to_state :: "string option"
  en_metadata :: "(string \<times> string) list"

definition build_event :: "crypto \<Rightarrow> time \<Rightarrow> string \<Rightarrow> audit_event option \<Rightarrow> audit_entry \<Rightarrow> audit_event res" where
  "build_event cr now uuid previous en =
     (let e = \<lparr>ae_sequence = (case previous of None \<Rightarrow> 1 | Some p \<Rightarrow> ae_sequence p + 1),
               ae_event_id = uuid,
               ae_previous_hash = map_option ae_event_hash previous,
               ae_event_hash = [], ae_timestamp = now,
               ae_manifest_id = en_manifest_id en, ae_manifest_hash = en_manifest_hash en,
               ae_grant_id = en_grant_id en, ae_actor_id = en_actor_id en,
               ae_event_type = en_event_type en, ae_from_state = en_from_state en,
               ae_to_state = en_to_state en, ae_decision = en_decision en,
               ae_metadata = en_metadata en\<rparr>
      in thenR (event_validate e) (Inr (e\<lparr>ae_event_hash := compute_event_hash cr e\<rparr>)))"

text \<open>A backend: \<^verbatim>\<open>append\<close> (with a fault that makes it raise), \<^verbatim>\<open>all_events\<close> and
  \<^verbatim>\<open>last_event\<close>.\<close>

record 'b audit_ops =
  ab_append :: "bool \<Rightarrow> 'b \<Rightarrow> audit_event \<Rightarrow> unit res \<times> 'b"
  ab_all_events :: "'b \<Rightarrow> audit_event list"
  ab_last_event :: "'b \<Rightarrow> audit_event option"

definition journal_record :: "crypto \<Rightarrow> 'b audit_ops \<Rightarrow> time \<Rightarrow> string \<Rightarrow> bool \<Rightarrow> audit_entry \<Rightarrow> ('b, audit_event) sem" where
  "journal_record cr ops now uuid fault en b =
     (case build_event cr now uuid (ab_last_event ops b) en of
        Inl x \<Rightarrow> (Inl x, b)
      | Inr e \<Rightarrow> (case ab_append ops fault b e of
            (Inl x, b') \<Rightarrow> (Inl (AuditE AuditWriteError), b')
          | (Inr _, b') \<Rightarrow> (Inr e, b')))"

definition events_for_manifest :: "'b audit_ops \<Rightarrow> 'b \<Rightarrow> string \<Rightarrow> audit_event list" where
  "events_for_manifest ops b mid = filter (\<lambda>e. ae_manifest_id e = Some mid) (ab_all_events ops b)"

definition verify_chain :: "crypto \<Rightarrow> 'b audit_ops \<Rightarrow> 'b \<Rightarrow> unit res" where
  "verify_chain cr ops b = verify_event_chain cr (ab_all_events ops b)"

section \<open>Backends\<close>

definition am_append :: "bool \<Rightarrow> audit_event list \<Rightarrow> audit_event \<Rightarrow> unit res \<times> audit_event list" where
  "am_append fault es e = (if fault then (Inl (OtherError ''OSError''), es) else (Inr (), es @ [e]))"

definition am_last_event :: "audit_event list \<Rightarrow> audit_event option" where
  "am_last_event es = (if es = [] then None else Some (last es))"

definition am_ops :: "audit_event list audit_ops" where
  "am_ops = \<lparr>ab_append = am_append, ab_all_events = (\<lambda>es. es), ab_last_event = am_last_event\<rparr>"

text \<open>The SQLite table, keyed by the sequence number and kept in its order.\<close>

definition as_append :: "bool \<Rightarrow> audit_event list \<Rightarrow> audit_event \<Rightarrow> unit res \<times> audit_event list" where
  "as_append fault t e =
     (if fault \<or> ae_sequence e \<in> set (map ae_sequence t) then (Inl (AuditE AuditWriteError), t)
      else (Inr (), insort_key ae_sequence e t))"

definition as_ops :: "audit_event list audit_ops" where
  "as_ops = \<lparr>ab_append = as_append, ab_all_events = (\<lambda>t. t), ab_last_event = am_last_event\<rparr>"

section \<open>Facts on chains\<close>

lemma build_event_ok:
  assumes "build_event cr now uuid previous en = Inr e"
  shows "ae_sequence e = (case previous of None \<Rightarrow> 1 | Some p \<Rightarrow> ae_sequence p + 1)"
    "ae_previous_hash e = map_option ae_event_hash previous"
    "compute_event_hash cr e = ae_event_hash e"
    "ae_event_type e = en_event_type en" "ae_decision e = en_decision en"
    "ae_manifest_id e = en_manifest_id en"
  using assms
  by (auto simp: build_event_def Let_def result_simps compute_event_hash_def event_json_def)

lemma verify_chain_from_snoc:
  "verify_chain_from cr previous n (es @ [e]) = Inr () \<longleftrightarrow>
     verify_chain_from cr previous n es = Inr ()
     \<and> ae_sequence e = n + int (length es)
     \<and> ae_previous_hash e = (if es = [] then previous else Some (ae_event_hash (last es)))
     \<and> compute_event_hash cr e = ae_event_hash e"
  by (induction es arbitrary: previous n) (auto split: if_splits)

lemma verify_chain_last_sequence:
  "verify_event_chain cr es = Inr () \<Longrightarrow> es \<noteq> [] \<Longrightarrow> ae_sequence (last es) = int (length es)"
  by (cases es rule: rev_cases) (simp_all add: verify_event_chain_def verify_chain_from_snoc)

lemma verify_event_chain_snoc:
  assumes "verify_event_chain cr es = Inr ()" "build_event cr now uuid (am_last_event es) en = Inr e"
  shows "verify_event_chain cr (es @ [e]) = Inr ()"
  using assms(1) build_event_ok [OF assms(2)] verify_chain_last_sequence [OF assms(1)]
  by (auto simp: verify_event_chain_def verify_chain_from_snoc am_last_event_def)

lemma verify_chain_sequences:
  "verify_chain_from cr previous n es = Inr () \<Longrightarrow> map ae_sequence es = map (\<lambda>i. n + int i) [0..<length es]"
proof (induction es arbitrary: previous n)
  case (Cons e es)
  have "map ae_sequence es = map (\<lambda>i. n + 1 + int i) [0..<length es]"
    using Cons by (auto split: if_splits)
  also have "\<dots> = map (\<lambda>i. n + int i) (map Suc [0..<length es])"
    by (simp add: algebra_simps)
  finally show ?case
    using Cons.prems by (simp add: map_Suc_upt upt_conv_Cons split: if_splits del: upt_Suc)
qed simp

section \<open>Contract\<close>

text \<open>A backend is used with events numbered after all it holds; then it appends or raises.\<close>

locale audit_backend =
  fixes ops :: "'b audit_ops"
  assumes append_ok: "\<forall>x \<in> set (ab_all_events ops b). ae_sequence x < ae_sequence e \<Longrightarrow>
      ab_append ops fault b e = (Inr u, b') \<Longrightarrow> ab_all_events ops b' = ab_all_events ops b @ [e]"
    and append_error: "ab_append ops fault b e = (Inl x, b') \<Longrightarrow> b' = b"
    and append_total: "\<forall>x \<in> set (ab_all_events ops b). ae_sequence x < ae_sequence e \<Longrightarrow> \<not> fault \<Longrightarrow>
      \<exists>b'. ab_append ops fault b e = (Inr (), b')"
    and last_event: "ab_last_event ops b = am_last_event (ab_all_events ops b)"
begin

lemma new_sequence_above:
  assumes "verify_chain cr ops b = Inr ()" "build_event cr now uuid (ab_last_event ops b) en = Inr e"
  shows "\<forall>x \<in> set (ab_all_events ops b). ae_sequence x < ae_sequence e"
proof -
  let ?es = "ab_all_events ops b"
  have v: "verify_event_chain cr ?es = Inr ()"
    using assms(1) by (simp add: verify_chain_def)
  have s: "map ae_sequence ?es = map (\<lambda>i. 1 + int i) [0..<length ?es]"
    using verify_chain_sequences v by (metis verify_event_chain_def)
  have "ae_sequence e = int (length ?es) + 1"
    using build_event_ok(1) [OF assms(2)] verify_chain_last_sequence [OF v]
    by (auto simp: last_event am_last_event_def split: if_splits)
  moreover have "ae_sequence x \<le> int (length ?es)" if "x \<in> set ?es" for x
  proof -
    have "ae_sequence x \<in> set (map (\<lambda>i. 1 + int i) [0..<length ?es])"
      using s that by (metis image_eqI list.set_map)
    then show ?thesis by auto
  qed
  ultimately show ?thesis by fastforce
qed

lemma record_chain:
  assumes v: "verify_chain cr ops b = Inr ()" and r: "journal_record cr ops now uuid fault en b = (q, b')"
  shows "verify_chain cr ops b' = Inr ()"
    and "q = Inr e \<Longrightarrow> ab_all_events ops b' = ab_all_events ops b @ [e] \<and> ae_event_type e = en_event_type en
      \<and> ae_decision e = en_decision en \<and> ae_manifest_id e = en_manifest_id en"
    and "q = Inl x \<Longrightarrow> b' = b"
proof -
  show "verify_chain cr ops b' = Inr ()"
  proof (cases "build_event cr now uuid (ab_last_event ops b) en")
    case (Inl x)
    then show ?thesis using v r by (simp add: journal_record_def)
  next
    case (Inr e)
    obtain y b1 where a: "ab_append ops fault b e = (y, b1)" by fastforce
    show ?thesis
    proof (cases y)
      case (Inl x)
      then show ?thesis
        using v r a Inr append_error [of fault b e x b1] by (simp add: journal_record_def)
    next
      case y: (Inr u)
      then have "ab_all_events ops b1 = ab_all_events ops b @ [e]"
        using append_ok [OF new_sequence_above [OF v Inr]] a by blast
      moreover have "b' = b1"
        using r Inr a y by (simp add: journal_record_def)
      ultimately show ?thesis
        using verify_event_chain_snoc v Inr last_event by (metis verify_chain_def)
    qed
  qed
  show "ab_all_events ops b' = ab_all_events ops b @ [e] \<and> ae_event_type e = en_event_type en
      \<and> ae_decision e = en_decision en \<and> ae_manifest_id e = en_manifest_id en" if q: "q = Inr e"
  proof -
    obtain b1 u where "build_event cr now uuid (ab_last_event ops b) en = Inr e"
      "ab_append ops fault b e = (Inr u, b1)" "b' = b1"
      using r q by (auto simp: journal_record_def split: sum.splits prod.splits)
    then show ?thesis
      using append_ok [OF new_sequence_above [OF v]] build_event_ok(4-6) by metis
  qed
  show "b' = b" if "q = Inl x"
    using r that append_error by (auto simp: journal_record_def split: sum.splits prod.splits)
qed

end

interpretation am: audit_backend am_ops
  by unfold_locales (auto simp: am_ops_def am_append_def split: if_splits)

lemma insort_last: "\<forall>x \<in> set xs. f x < f e \<Longrightarrow> insort_key f e xs = xs @ [e]"
  by (induction xs) auto

interpretation asq: audit_backend as_ops
  by unfold_locales (auto simp: as_ops_def as_append_def insort_last split: if_splits)

section \<open>Any number of records\<close>

fun journal_run :: "crypto \<Rightarrow> 'b audit_ops \<Rightarrow> 'b \<Rightarrow> (time \<times> string \<times> bool \<times> audit_entry) list \<Rightarrow> 'b" where
  "journal_run cr ops b [] = b"
| "journal_run cr ops b ((now, uuid, fault, en) # rs) =
     journal_run cr ops (snd (journal_record cr ops now uuid fault en b)) rs"

lemma am_run_chain:
  "verify_chain cr am_ops b = Inr () \<Longrightarrow>
     verify_chain cr am_ops (journal_run cr am_ops b rs) = Inr ()
     \<and> (\<exists>es. journal_run cr am_ops b rs = b @ es)"
proof (induction rs arbitrary: b)
  case (Cons x rs)
  obtain now uuid fault en where x: "x = (now, uuid, fault, en)" by (cases x)
  obtain q b1 where r: "journal_record cr am_ops now uuid fault en b = (q, b1)" by fastforce
  have "\<exists>es. b1 = b @ es"
    using am.record_chain(2,3) [OF Cons.prems r] by (cases q) (auto simp: am_ops_def)
  then show ?case
    using Cons.IH [OF am.record_chain(1) [OF Cons.prems r]] x r by auto
qed simp

text \<open>Whatever is recorded, and whichever writes fail, the journal's hash chain verifies, and
  what was recorded before is a prefix of the journal: events are never changed, dropped or
  reordered.\<close>

theorem journal_append_only:
  "verify_chain cr am_ops (journal_run cr am_ops [] (rs @ rs')) = Inr ()
   \<and> (\<exists>es. journal_run cr am_ops [] (rs @ rs') = journal_run cr am_ops [] rs @ es)"
proof -
  have v: "verify_chain cr am_ops [] = Inr ()"
    by (simp add: verify_chain_def verify_event_chain_def am_ops_def)
  have "journal_run cr am_ops b (rs @ rs') = journal_run cr am_ops (journal_run cr am_ops b rs) rs'" for b
    by (induction rs arbitrary: b) auto
  then show ?thesis
    using am_run_chain [OF v, of rs] am_run_chain [of cr "journal_run cr am_ops [] rs" rs'] by simp
qed

section \<open>Tamper evidence\<close>

definition same_event :: "audit_event \<Rightarrow> audit_event \<Rightarrow> bool" where
  "same_event a b \<longleftrightarrow> a\<lparr>ae_metadata := []\<rparr> = b\<lparr>ae_metadata := []\<rparr>
     \<and> sort_key fst (ae_metadata a) = sort_key fst (ae_metadata b)"

lemma event_json_inject:
  assumes "crypto_ok cr" "normal (event_json cr a) = normal (event_json cr b)"
    "ae_event_hash a = ae_event_hash b"
  shows "same_event a b"
proof -
  have i: "cr_iso cr x = cr_iso cr y \<longleftrightarrow> x = y" for x y
    using assms(1) by (auto simp: crypto_ok_def inj_eq)
  have f: "map (\<lambda>(k, v). (k, normal v)) (case event_json cr a of JObj xs \<Rightarrow> xs | _ \<Rightarrow> []) =
      map (\<lambda>(k, v). (k, normal v)) (case event_json cr b of JObj xs \<Rightarrow> xs | _ \<Rightarrow> [])"
    using normal_JObj_inject [OF assms(2) [unfolded event_json_def]] by (simp add: event_json_def)
  then have "a\<lparr>ae_metadata := []\<rparr> = b\<lparr>ae_metadata := []\<rparr>"
    by (intro audit_event.equality) (simp_all add: i event_json_def assms(3) del: normal.simps(1,2))
  moreover have "sort_key fst (ae_metadata a) = sort_key fst (ae_metadata b)"
    using f by (simp add: event_json_def del: normal.simps(1,2))
  ultimately show ?thesis
    by (simp add: same_event_def)
qed

lemma same_event_sequence:
  "same_event a b \<Longrightarrow> ae_sequence a = ae_sequence b \<and> ae_previous_hash a = ae_previous_hash b"
  unfolding same_event_def
  by (metis audit_event.select_convs(1,3) audit_event.surjective audit_event.update_convs(14))

lemma chain_head_commits:
  assumes "crypto_ok cr"
  shows "verify_event_chain cr xs = Inr () \<Longrightarrow> verify_event_chain cr ys = Inr () \<Longrightarrow> xs \<noteq> [] \<Longrightarrow> ys \<noteq> [] \<Longrightarrow>
    ae_event_hash (last xs) = ae_event_hash (last ys) \<Longrightarrow>
    \<forall>x \<in> set xs. \<forall>y \<in> set ys. no_collision cr (event_json cr x) (event_json cr y) \<Longrightarrow>
    list_all2 same_event xs ys"
proof (induction xs arbitrary: ys rule: rev_induct)
  case (snoc x xs)
  then obtain y ys' where ys: "ys = ys' @ [y]"
    by (cases ys rule: rev_cases) auto
  have vx: "verify_event_chain cr xs = Inr ()" "ae_sequence x = 1 + int (length xs)"
    "ae_previous_hash x = (if xs = [] then None else Some (ae_event_hash (last xs)))"
    "compute_event_hash cr x = ae_event_hash x"
    using snoc.prems(1) by (simp_all add: verify_event_chain_def verify_chain_from_snoc)
  have vy: "verify_event_chain cr ys' = Inr ()" "ae_sequence y = 1 + int (length ys')"
    "ae_previous_hash y = (if ys' = [] then None else Some (ae_event_hash (last ys')))"
    "compute_event_hash cr y = ae_event_hash y"
    using snoc.prems(2) ys by (simp_all add: verify_event_chain_def verify_chain_from_snoc)
  have nc: "no_collision cr (event_json cr x) (event_json cr y)"
    "\<forall>a \<in> set xs. \<forall>b \<in> set ys'. no_collision cr (event_json cr a) (event_json cr b)"
    using snoc.prems(6) ys by auto
  have h: "ae_event_hash x = ae_event_hash y"
    using snoc.prems(5) ys by simp
  then have "canonical_hash (cr_sha256 cr) (event_json cr x) = canonical_hash (cr_sha256 cr) (event_json cr y)"
    using vx(4) vy(4) unfolding compute_event_hash_def by simp
  from canonical_hash_normal [OF this nc(1)] have s: "same_event x y"
    using event_json_inject [OF assms] h by blast
  have e: "length xs = length ys'" "ae_previous_hash x = ae_previous_hash y"
    using same_event_sequence [OF s] vx(2) vy(2) by simp_all
  have "list_all2 same_event xs ys'"
  proof (cases "xs = []")
    case True
    then show ?thesis using e(1) by simp
  next
    case False
    then have "ys' \<noteq> []" using e(1) by auto
    then show ?thesis
      using snoc.IH [OF vx(1) vy(1) False \<open>ys' \<noteq> []\<close> _ nc(2)] e(2) vx(3) vy(3) False by simp
  qed
  then show ?case
    using s ys by (simp add: list_all2_appendI)
qed simp

text \<open>C14. The last event's hash commits to the whole history: two journals that both verify and
  whose last events carry the same hash have the same length and agree in every field of every
  event, unless SHA-256 collides on two of their events.\<close>

theorem journal_head_commits_history:
  assumes "crypto_ok cr" "verify_event_chain cr xs = Inr ()" "verify_event_chain cr ys = Inr ()"
    "xs \<noteq> []" "ys \<noteq> []" "ae_event_hash (last xs) = ae_event_hash (last ys)"
    "\<forall>x \<in> set xs. \<forall>y \<in> set ys. no_collision cr (event_json cr x) (event_json cr y)"
  shows "list_all2 same_event xs ys"
  using chain_head_commits [OF assms] .

definition toy_audit_entry :: audit_entry where
  "toy_audit_entry = \<lparr>en_event_type = ''t'', en_decision = ''d'', en_manifest_id = None,
     en_manifest_hash = None, en_grant_id = None, en_actor_id = None, en_from_state = None,
     en_to_state = None, en_metadata = []\<rparr>"

lemma toy_event_built: "\<exists>e. build_event toy_crypto 0 ''u'' None toy_audit_entry = Inr e"
  by (simp add: build_event_def Let_def event_validate_def nonempty_256_def toy_audit_entry_def thenR_def
      raise_if_def)

theorem journal_head_commits_history_witness:
  "\<exists>e. build_event toy_crypto 0 ''u'' None toy_audit_entry = Inr e \<and> list_all2 same_event [e] [e]"
proof -
  obtain e where e: "build_event toy_crypto 0 ''u'' None toy_audit_entry = Inr e"
    using toy_event_built by blast
  have "verify_event_chain toy_crypto [e] = Inr ()"
    using build_event_ok [OF e] by (simp add: verify_event_chain_def)
  then show ?thesis
    using journal_head_commits_history [OF toy_crypto_ok, of "[e]" "[e]"] e by (simp add: no_collision_def)
qed

section \<open>A journal shared by several processes\<close>

text \<open>The in-process lock does not cover other processes, so an event may be built from a last
  event read some time before it is appended.  A step of the shared SQLite table reads it at any
  earlier moment (\<open>old\<close> is a prefix of the present journal) and appends it now.\<close>

inductive shared_journal :: "crypto \<Rightarrow> audit_event list \<Rightarrow> bool" for cr where
  start: "shared_journal cr []"
| stale_append: "shared_journal cr (old @ newer) \<Longrightarrow> build_event cr now uuid (am_last_event old) en = Inr e \<Longrightarrow>
    as_append fault (old @ newer) e = (r, t') \<Longrightarrow> shared_journal cr t'"

lemma shared_append_outcome:
  assumes v: "verify_event_chain cr (old @ newer) = Inr ()"
    and b: "build_event cr now uuid (am_last_event old) en = Inr e"
  shows "as_append fault (old @ newer) e =
    (if fault \<or> newer \<noteq> [] then (Inl (AuditE AuditWriteError), old @ newer) else (Inr (), old @ [e]))"
proof -
  have s: "map ae_sequence (old @ newer) = map (\<lambda>i. 1 + int i) [0..<length (old @ newer)]"
    using verify_chain_sequences v by (metis verify_event_chain_def)
  have "ae_sequence (old ! (length old - 1)) = int (length old)" if "old \<noteq> []"
  proof -
    have "map ae_sequence (old @ newer) ! (length old - 1) = int (length old)"
      unfolding s using that by (cases old) (simp_all add: nth_append del: upt_Suc)
    then show ?thesis using that by (simp add: nth_append)
  qed
  then have q: "ae_sequence e = int (length old) + 1"
    using build_event_ok(1) [OF b] by (auto simp: am_last_event_def last_conv_nth split: if_splits)
  have m: "ae_sequence e \<in> set (map ae_sequence (old @ newer)) \<longleftrightarrow> newer \<noteq> []"
    unfolding s q by (cases newer) (auto intro!: image_eqI [of _ _ "length old"])
  have "insort_key ae_sequence e old = old @ [e]" if "newer = []"
  proof (rule insort_last)
    show "\<forall>x \<in> set old. ae_sequence x < ae_sequence e"
    proof
      fix x
      assume "x \<in> set old"
      then have "ae_sequence x \<in> set (map (\<lambda>i. 1 + int i) [0..<length (old @ newer)])"
        using s by (metis UnCI image_eqI list.set_map set_append)
      then show "ae_sequence x < ae_sequence e" using that q by auto
    qed
  qed
  then show ?thesis
    using m by (auto simp: as_append_def)
qed

text \<open>C15. Several processes may share one SQLite journal: an event built from a stale view of it is
  refused with \<^verbatim>\<open>AuditWriteError\<close>, and in every interleaving of readers and writers the chain
  stays valid.\<close>

theorem shared_journal_chain_valid:
  assumes "shared_journal cr t"
  shows "verify_event_chain cr t = Inr ()"
  using assms
proof (induction rule: shared_journal.induct)
  case start
  then show ?case by (simp add: verify_event_chain_def)
next
  case (stale_append old newer now uuid en e fault r t')
  then show ?case
    using verify_event_chain_snoc [of cr old now uuid en e] shared_append_outcome [OF stale_append.IH stale_append(2), of fault]
    by (auto split: if_splits)
qed

theorem shared_journal_chain_valid_witness:
  "\<exists>e. shared_journal toy_crypto [e] \<and> verify_event_chain toy_crypto [e] = Inr ()"
proof -
  obtain e where e: "build_event toy_crypto 0 ''u'' None toy_audit_entry = Inr e"
    using toy_event_built by blast
  have "shared_journal toy_crypto [e]"
    by (rule shared_journal.stale_append [of _ "[]" "[]" 0 "''u''" toy_audit_entry e False])
      (simp_all add: shared_journal.start am_last_event_def e as_append_def)
  then show ?thesis
    using shared_journal_chain_valid by blast
qed

end
