(* ===== verification/LifecycleStores.thy ===== *)
theory LifecycleStores
  imports Lifecycle GrantStores
begin

text \<open>
  The durable lifecycle state of \<^verbatim>\<open>stores/lifecycle.py\<close>: the contract as a locale, and the
  backends \<^verbatim>\<open>stores/lifecycle_memory.py\<close> and \<^verbatim>\<open>stores/lifecycle_sqlite.py\<close>.  The SQLite
  table holds the text of the state; a row with an unknown text makes \<^verbatim>\<open>get\<close> fail.  The
  column \<^verbatim>\<open>updated_at\<close>, which nothing reads, is left out.  A fault of a SQLite call rolls
  its transaction back.

  What clients rely on is proved once in the locale: among rival compare-and-set calls
  that expect the same state, exactly the first succeeds.
\<close>

section \<open>Backends\<close>

type_synonym lc_memory = "string \<Rightarrow> lifecycle_state option"

definition lcm_get :: "lc_memory \<Rightarrow> string \<Rightarrow> lifecycle_state option" where
  "lcm_get st mid = st mid"

definition lcm_set :: "lc_memory \<Rightarrow> string \<Rightarrow> lifecycle_state \<Rightarrow> lc_memory" where
  "lcm_set st mid v = st(mid := Some v)"

definition lcm_compare_and_set ::
    "lc_memory \<Rightarrow> string \<Rightarrow> lifecycle_state option \<Rightarrow> lifecycle_state \<Rightarrow> bool \<times> lc_memory" where
  "lcm_compare_and_set st mid expected new_state =
     (if st mid \<noteq> expected then (False, st) else (True, st(mid := Some new_state)))"

type_synonym lc_table = "string \<Rightarrow> string option"

definition lcs_get :: "bool \<Rightarrow> lc_table \<Rightarrow> string \<Rightarrow> lifecycle_state option res" where
  "lcs_get fault t mid =
     (if fault then Inl (StoreE StoreUnavailableError)
      else case t mid of
          None \<Rightarrow> Inr None
        | Some v \<Rightarrow> (case state_of_value v of
              Inl _ \<Rightarrow> Inl (StoreE StoreUnavailableError) | Inr s \<Rightarrow> Inr (Some s)))"

definition lcs_set :: "bool \<Rightarrow> lc_table \<Rightarrow> string \<Rightarrow> lifecycle_state \<Rightarrow> unit res \<times> lc_table" where
  "lcs_set fault t mid v =
     (if fault then (Inl (StoreE StoreUnavailableError), t)
      else (Inr (), insert_or_replace t mid (state_value v)))"

definition lcs_compare_and_set ::
    "bool \<Rightarrow> lc_table \<Rightarrow> string \<Rightarrow> lifecycle_state option \<Rightarrow> lifecycle_state \<Rightarrow> bool res \<times> lc_table" where
  "lcs_compare_and_set fault t mid expected new_state =
     (if fault then (Inl (StoreE StoreUnavailableError), t)
      else case expected of
          None \<Rightarrow> (Inr (t mid = None), insert_or_ignore t mid (state_value new_state))
        | Some e \<Rightarrow>
            let (n, t') = update_where t mid (\<lambda>v. v = state_value e) (\<lambda>_. state_value new_state)
            in (Inr (n = 1), t'))"

section \<open>Contract\<close>

record 's lifecycle_ops =
  lo_get :: "'s \<Rightarrow> string \<Rightarrow> lifecycle_state option res"
  lo_set :: "bool \<Rightarrow> 's \<Rightarrow> string \<Rightarrow> lifecycle_state \<Rightarrow> unit res \<times> 's"
  lo_cas :: "bool \<Rightarrow> 's \<Rightarrow> string \<Rightarrow> lifecycle_state option \<Rightarrow> lifecycle_state \<Rightarrow> bool res \<times> 's"

text \<open>Rival calls of \<^verbatim>\<open>compare_and_set\<close> for one manifest that all expect the same state.\<close>

fun cas_race :: "'s lifecycle_ops \<Rightarrow> 's \<Rightarrow> string \<Rightarrow> lifecycle_state option \<Rightarrow> (bool \<times> lifecycle_state) list
    \<Rightarrow> bool res list \<times> 's" where
  "cas_race ops s mid expected [] = ([], s)"
| "cas_race ops s mid expected ((fault, n) # ns) =
     (case lo_cas ops fault s mid expected n of (r, s') \<Rightarrow>
      case cas_race ops s' mid expected ns of (rs, s'') \<Rightarrow> (r # rs, s''))"

definition winners :: "bool res list \<Rightarrow> nat" where
  "winners rs = length (filter (\<lambda>r. r = Inr True) rs)"

locale lifecycle_store =
  fixes ops :: "'s lifecycle_ops"
    and view :: "'s \<Rightarrow> string \<Rightarrow> lifecycle_state option"
    and inv :: "'s \<Rightarrow> bool"
  assumes get: "inv s \<Longrightarrow> lo_get ops s mid = Inr (view s mid)"
    and set_ok: "inv s \<Longrightarrow> lo_set ops fault s mid v = (Inr u, s') \<Longrightarrow>
      inv s' \<and> view s' = (view s)(mid := Some v)"
    and set_error: "inv s \<Longrightarrow> lo_set ops fault s mid v = (Inl e, s') \<Longrightarrow> s' = s"
    and cas_true: "inv s \<Longrightarrow> lo_cas ops fault s mid expected n = (Inr True, s') \<Longrightarrow>
      view s mid = expected \<and> inv s' \<and> view s' = (view s)(mid := Some n)"
    and cas_false: "inv s \<Longrightarrow> lo_cas ops fault s mid expected n = (Inr False, s') \<Longrightarrow>
      view s mid \<noteq> expected \<and> inv s' \<and> view s' = view s"
    and cas_error: "inv s \<Longrightarrow> lo_cas ops fault s mid expected n = (Inl e, s') \<Longrightarrow> fault \<and> s' = s"
begin

lemma cas_outcome:
  assumes "inv s" "lo_cas ops fault s mid expected n = (r, s')"
  shows "inv s' \<and> (r = Inr True \<longrightarrow> view s mid = expected \<and> view s' mid = Some n)
    \<and> (r \<noteq> Inr True \<longrightarrow> view s' = view s)"
  using assms cas_true [of s fault mid expected n s'] cas_false [of s fault mid expected n s']
    cas_error [of s fault mid expected n _ s']
  by (cases r) (metis (full_types) fun_upd_same Inl_Inr_False, metis (full_types) fun_upd_same)

lemma race_lost:
  "inv s \<Longrightarrow> view s mid \<noteq> expected \<Longrightarrow> cas_race ops s mid expected ns = (rs, s') \<Longrightarrow>
     winners rs = 0 \<and> view s' = view s \<and> inv s'"
proof (induction ns arbitrary: s rs)
  case (Cons fn ns)
  obtain f n where fn: "fn = (f, n)" by (cases fn)
  obtain r t where c: "lo_cas ops f s mid expected n = (r, t)" by fastforce
  obtain qs u where q: "cas_race ops t mid expected ns = (qs, u)" by fastforce
  have "inv t" "r \<noteq> Inr True" "view t = view s"
    using cas_outcome [OF Cons.prems(1) c] Cons.prems(2) by auto
  then show ?case
    using Cons.IH [of t qs] Cons.prems q c fn by (auto simp: winners_def)
qed (simp add: winners_def)

lemma race_at_most_one:
  "inv s \<Longrightarrow> \<forall>(f, n) \<in> set ns. Some n \<noteq> expected \<Longrightarrow> cas_race ops s mid expected ns = (rs, s') \<Longrightarrow>
     winners rs \<le> 1 \<and> inv s'
     \<and> (winners rs = 0 \<longrightarrow> view s' = view s)
     \<and> (winners rs = 1 \<longrightarrow> view s mid = expected \<and> (\<exists>(f, n) \<in> set ns. view s' mid = Some n))"
proof (induction ns arbitrary: s rs)
  case (Cons fn ns)
  obtain f n where fn: "fn = (f, n)" by (cases fn)
  obtain r t where c: "lo_cas ops f s mid expected n = (r, t)" by fastforce
  obtain qs u where q: "cas_race ops t mid expected ns = (qs, u)" by fastforce
  have rs: "rs = r # qs" "s' = u"
    using Cons.prems(3) c q fn by simp_all
  have o: "inv t" "r = Inr True \<longrightarrow> view s mid = expected \<and> view t mid = Some n"
    "r \<noteq> Inr True \<longrightarrow> view t = view s"
    using cas_outcome [OF Cons.prems(1) c] by auto
  show ?case
  proof (cases "r = Inr True")
    case True
    then have "view t mid \<noteq> expected"
      using o Cons.prems(2) fn by auto
    from race_lost [OF o(1) this q] show ?thesis
      using True o rs fn by (auto simp: winners_def)
  next
    case False
    then show ?thesis
      using Cons.IH [of t qs] o Cons.prems(2) q rs fn by (auto simp: winners_def)
  qed
qed (simp add: winners_def)

end

section \<open>The backends fulfil the contract\<close>

definition lcm_ops :: "lc_memory lifecycle_ops" where
  "lcm_ops = \<lparr>lo_get = (\<lambda>s mid. Inr (lcm_get s mid)),
     lo_set = (\<lambda>fault s mid v. (Inr (), lcm_set s mid v)),
     lo_cas = (\<lambda>fault s mid e n. apfst Inr (lcm_compare_and_set s mid e n))\<rparr>"

interpretation lcm: lifecycle_store lcm_ops "\<lambda>s. s" "\<lambda>s. True"
  by unfold_locales
    (auto simp: lcm_ops_def lcm_get_def lcm_set_def lcm_compare_and_set_def split: if_splits)

definition lcs_ops :: "lc_table lifecycle_ops" where
  "lcs_ops = \<lparr>lo_get = lcs_get False, lo_set = lcs_set, lo_cas = lcs_compare_and_set\<rparr>"

text \<open>Every row holds the text of a state.\<close>

definition lcs_inv :: "lc_table \<Rightarrow> bool" where
  "lcs_inv t \<longleftrightarrow> (\<forall>mid v. t mid = Some v \<longrightarrow> (\<exists>s. v = state_value s))"

definition lcs_view :: "lc_table \<Rightarrow> string \<Rightarrow> lifecycle_state option" where
  "lcs_view t mid = (case t mid of None \<Rightarrow> None
     | Some v \<Rightarrow> (case state_of_value v of Inl _ \<Rightarrow> None | Inr s \<Rightarrow> Some s))"

lemma lcs_inv_upd: "lcs_inv t \<Longrightarrow> lcs_inv (t(mid := Some (state_value v)))"
  by (auto simp: lcs_inv_def)

lemma lcs_view_upd: "lcs_view (t(mid := Some (state_value v))) = (lcs_view t)(mid := Some v)"
  by (auto simp: lcs_view_def fun_eq_iff)

lemma lcs_view_row: "lcs_inv t \<Longrightarrow> t mid = map_option state_value (lcs_view t mid)"
  by (cases "t mid") (fastforce simp: lcs_view_def lcs_inv_def)+

lemma lcs_cas_outcome:
  assumes "lcs_inv t"
  shows "lcs_compare_and_set False t mid expected n =
    (if lcs_view t mid = expected then (Inr True, t(mid := Some (state_value n))) else (Inr False, t))"
  using lcs_view_row [OF assms, of mid]
  by (cases expected; cases "lcs_view t mid")
    (auto simp: lcs_compare_and_set_def insert_or_ignore_def update_where_def)

interpretation lcs: lifecycle_store lcs_ops lcs_view lcs_inv
proof
  fix s mid fault v u s' e expected n
  assume i: "lcs_inv s"
  show "lo_get lcs_ops s mid = Inr (lcs_view s mid)"
    using lcs_view_row [OF i, of mid]
    by (cases "lcs_view s mid") (simp_all add: lcs_ops_def lcs_get_def)
  show "lcs_inv s' \<and> lcs_view s' = (lcs_view s)(mid := Some v)"
    if "lo_set lcs_ops fault s mid v = (Inr u, s')"
    using that i by (auto simp: lcs_ops_def lcs_set_def insert_or_replace_def lcs_inv_upd lcs_view_upd
        split: if_splits)
  show "s' = s" if "lo_set lcs_ops fault s mid v = (Inl e, s')"
    using that by (auto simp: lcs_ops_def lcs_set_def split: if_splits)
  have c: "lo_cas lcs_ops fault s mid expected n = (if fault then (Inl (StoreE StoreUnavailableError), s)
      else lcs_compare_and_set False s mid expected n)"
    by (simp add: lcs_ops_def lcs_compare_and_set_def)
  show "lcs_view s mid = expected \<and> lcs_inv s' \<and> lcs_view s' = (lcs_view s)(mid := Some n)"
    if "lo_cas lcs_ops fault s mid expected n = (Inr True, s')"
    using that i by (auto simp: c lcs_cas_outcome [OF i] lcs_inv_upd lcs_view_upd split: if_splits)
  show "lcs_view s mid \<noteq> expected \<and> lcs_inv s' \<and> lcs_view s' = lcs_view s"
    if "lo_cas lcs_ops fault s mid expected n = (Inr False, s')"
    using that i by (auto simp: c lcs_cas_outcome [OF i] split: if_splits)
  show "fault \<and> s' = s" if "lo_cas lcs_ops fault s mid expected n = (Inl e, s')"
    using that by (auto simp: c lcs_cas_outcome [OF i] split: if_splits)
qed

text \<open>Of any number of processes that try to move a manifest out of the same lifecycle
  state by compare-and-set, in whatever order and with whatever SQLite faults, at most one
  succeeds, and the stored state afterwards is the winner's; without a winner it is
  unchanged.  For the in-memory and for the SQLite store.\<close>

theorem lifecycle_cas_single_winner:
  assumes "\<forall>(f, n) \<in> set ns. Some n \<noteq> expected"
  shows "(let (rs, st') = cas_race lcm_ops st mid expected ns
          in winners rs \<le> 1 \<and> (winners rs = 0 \<longrightarrow> st' = st)
             \<and> (winners rs = 1 \<longrightarrow> st mid = expected \<and> (\<exists>(f, n) \<in> set ns. st' mid = Some n)))
       \<and> (lcs_inv t \<longrightarrow> (let (rs, t') = cas_race lcs_ops t mid expected ns
          in winners rs \<le> 1 \<and> lcs_inv t' \<and> (winners rs = 0 \<longrightarrow> lcs_view t' = lcs_view t)
             \<and> (winners rs = 1 \<longrightarrow> lcs_view t mid = expected
                  \<and> (\<exists>(f, n) \<in> set ns. lcs_view t' mid = Some n))))"
proof -
  obtain rs st' where m: "cas_race lcm_ops st mid expected ns = (rs, st')" by fastforce
  obtain qs t' where q: "cas_race lcs_ops t mid expected ns = (qs, t')" by fastforce
  show ?thesis
    using lcm.race_at_most_one [OF TrueI assms m] lcs.race_at_most_one [OF _ assms q] m q by simp
qed

theorem lifecycle_cas_single_winner_witness:
  "winners (fst (cas_race lcm_ops (\<lambda>_. Some AUTHORIZED) ''m-1'' (Some AUTHORIZED)
     [(False, COMMITTING), (False, REVOKED)])) \<le> 1"
  using lifecycle_cas_single_winner [of "[(False, COMMITTING), (False, REVOKED)]" "Some AUTHORIZED"
      "\<lambda>_. Some AUTHORIZED" "''m-1''" "\<lambda>_. None"]
  by (simp add: Let_def split_beta)

end
