(* ===== verification/Outbox.thy ===== *)
theory Outbox
  imports Domain GrantStores "HOL-Library.AList"
begin

text \<open>
  The transactional outbox of \<^verbatim>\<open>outbox/\<close>: durable commit intents that move once from
  \<^verbatim>\<open>pending\<close> to \<^verbatim>\<open>confirmed\<close> or \<^verbatim>\<open>abandoned\<close>.  The in-memory store keeps a dictionary in
  insertion order (an association list), the SQLite store a table whose rows hold the
  status as text.  Timestamps are stored as such; a SQLite fault rolls back.

  The contract is a locale over sequences of calls; its main consequence is that the
  intent of a key is immutable and its resolution final.
\<close>

section \<open>Entries\<close>

datatype outbox_status = Pending | Confirmed | Abandoned

primrec outbox_status_value :: "outbox_status \<Rightarrow> string" where
  "outbox_status_value Pending = ''pending''"
| "outbox_status_value Confirmed = ''confirmed''"
| "outbox_status_value Abandoned = ''abandoned''"

record outbox_entry =
  ob_schema_version :: string
  ob_idempotency_key :: string
  ob_grant_id :: string
  ob_manifest_id :: string
  ob_manifest_hash :: string
  ob_status :: outbox_status
  ob_created_at :: time
  ob_outcome_ref :: "string option"

definition outbox_entry_validate :: "outbox_entry \<Rightarrow> unit res" where
  "outbox_entry_validate e = assert_supported_schema_version (ob_schema_version e)"

section \<open>In memory\<close>

type_synonym outbox_memory = "(string \<times> outbox_entry) list"

definition obm_get :: "outbox_memory \<Rightarrow> string \<Rightarrow> outbox_entry option" where
  "obm_get st k = map_of st k"

definition obm_require :: "outbox_memory \<Rightarrow> string \<Rightarrow> outbox_entry res" where
  "obm_require st k = (case map_of st k of None \<Rightarrow> Inl OutboxConflictError | Some e \<Rightarrow> Inr e)"

definition obm_record_pending :: "outbox_memory \<Rightarrow> outbox_entry \<Rightarrow> unit res \<times> outbox_memory" where
  "obm_record_pending st e =
     (if ob_status e \<noteq> Pending then (Inl OutboxConflictError, st)
      else case map_of st (ob_idempotency_key e) of
          Some x \<Rightarrow>
            if ob_grant_id x \<noteq> ob_grant_id e \<or> ob_manifest_hash x \<noteq> ob_manifest_hash e
              then (Inl OutboxConflictError, st)
            else if ob_status x \<noteq> Pending then (Inl OutboxConflictError, st)
            else (Inr (), st)
        | None \<Rightarrow> (Inr (), AList.update (ob_idempotency_key e) e st))"

definition obm_mark_confirmed :: "outbox_memory \<Rightarrow> string \<Rightarrow> string \<Rightarrow> unit res \<times> outbox_memory" where
  "obm_mark_confirmed st k outcome = (case obm_require st k of
      Inl x \<Rightarrow> (Inl x, st)
    | Inr e \<Rightarrow>
        if ob_status e = Confirmed then (Inr (), st)
        else if ob_status e \<noteq> Pending then (Inl OutboxConflictError, st)
        else (Inr (), AList.update k (e\<lparr>ob_status := Confirmed, ob_outcome_ref := Some outcome\<rparr>) st))"

definition obm_mark_abandoned :: "outbox_memory \<Rightarrow> string \<Rightarrow> unit res \<times> outbox_memory" where
  "obm_mark_abandoned st k = (case obm_require st k of
      Inl x \<Rightarrow> (Inl x, st)
    | Inr e \<Rightarrow>
        if ob_status e = Abandoned then (Inr (), st)
        else if ob_status e \<noteq> Pending then (Inl OutboxConflictError, st)
        else (Inr (), AList.update k (e\<lparr>ob_status := Abandoned\<rparr>) st))"

definition obm_list_pending :: "outbox_memory \<Rightarrow> outbox_entry list" where
  "obm_list_pending st = filter (\<lambda>e. ob_status e = Pending) (map snd st)"

section \<open>SQLite\<close>

record outbox_row =
  or_grant_id :: string
  or_manifest_id :: string
  or_manifest_hash :: string
  or_status :: string
  or_created_at :: time
  or_outcome_ref :: "string option"
  or_schema_version :: string

type_synonym outbox_table = "(string \<times> outbox_row) list"

definition status_of_value :: "string \<Rightarrow> outbox_status option" where
  "status_of_value v = find (\<lambda>s. outbox_status_value s = v) [Pending, Confirmed, Abandoned]"

definition row_to_entry :: "string \<times> outbox_row \<Rightarrow> outbox_entry res" where
  "row_to_entry kr = (case kr of (k, r) \<Rightarrow> (case status_of_value (or_status r) of
      None \<Rightarrow> Inl (StoreE StoreUnavailableError)
    | Some s \<Rightarrow>
        (let e = \<lparr>ob_schema_version = or_schema_version r, ob_idempotency_key = k,
                  ob_grant_id = or_grant_id r, ob_manifest_id = or_manifest_id r,
                  ob_manifest_hash = or_manifest_hash r, ob_status = s,
                  ob_created_at = or_created_at r, ob_outcome_ref = or_outcome_ref r\<rparr>
         in thenR (outbox_entry_validate e) (Inr e))))"

definition entry_to_row :: "outbox_entry \<Rightarrow> outbox_row" where
  "entry_to_row e = \<lparr>or_grant_id = ob_grant_id e, or_manifest_id = ob_manifest_id e,
     or_manifest_hash = ob_manifest_hash e, or_status = outbox_status_value (ob_status e),
     or_created_at = ob_created_at e, or_outcome_ref = ob_outcome_ref e,
     or_schema_version = ob_schema_version e\<rparr>"

definition obs_fetch :: "outbox_table \<Rightarrow> string \<Rightarrow> outbox_entry option res" where
  "obs_fetch t k = (case map_of t k of
      None \<Rightarrow> Inr None | Some r \<Rightarrow> bindR (row_to_entry (k, r)) (\<lambda>e. Inr (Some e)))"

definition obs_get :: "bool \<Rightarrow> outbox_table \<Rightarrow> string \<Rightarrow> outbox_entry option res" where
  "obs_get fault t k = (if fault then Inl (StoreE StoreUnavailableError) else obs_fetch t k)"

definition obs_record_pending :: "bool \<Rightarrow> outbox_table \<Rightarrow> outbox_entry \<Rightarrow> unit res \<times> outbox_table" where
  "obs_record_pending fault t e =
     (if ob_status e \<noteq> Pending then (Inl OutboxConflictError, t)
      else if fault then (Inl (StoreE StoreUnavailableError), t)
      else case obs_fetch t (ob_idempotency_key e) of
          Inl x \<Rightarrow> (Inl x, t)
        | Inr (Some x) \<Rightarrow>
            if ob_grant_id x \<noteq> ob_grant_id e \<or> ob_manifest_hash x \<noteq> ob_manifest_hash e
              then (Inl OutboxConflictError, t)
            else if ob_status x \<noteq> Pending then (Inl OutboxConflictError, t)
            else (Inr (), t)
        | Inr None \<Rightarrow> (Inr (), t @ [(ob_idempotency_key e, entry_to_row e)]))"

text \<open>\<^verbatim>\<open>UPDATE commit_outbox SET ... WHERE idempotency_key = ? AND status = 'pending'\<close>.\<close>

definition obs_update_pending ::
    "outbox_table \<Rightarrow> string \<Rightarrow> (outbox_row \<Rightarrow> outbox_row) \<Rightarrow> nat \<times> outbox_table" where
  "obs_update_pending t k f = (case map_of t k of
      None \<Rightarrow> (0, t)
    | Some r \<Rightarrow> if or_status r = ''pending'' then (1, AList.update k (f r) t) else (0, t))"

definition obs_mark_confirmed :: "bool \<Rightarrow> outbox_table \<Rightarrow> string \<Rightarrow> string \<Rightarrow> unit res \<times> outbox_table" where
  "obs_mark_confirmed fault t k outcome =
     (if fault then (Inl (StoreE StoreUnavailableError), t)
      else case obs_fetch t k of
          Inl x \<Rightarrow> (Inl x, t)
        | Inr None \<Rightarrow> (Inl OutboxConflictError, t)
        | Inr (Some e) \<Rightarrow>
            if ob_status e = Confirmed then (Inr (), t)
            else if ob_status e \<noteq> Pending then (Inl OutboxConflictError, t)
            else let (n, t') = obs_update_pending t k
                       (\<lambda>r. r\<lparr>or_status := ''confirmed'', or_outcome_ref := Some outcome\<rparr>)
                 in if n \<noteq> 1 then (Inl OutboxConflictError, t') else (Inr (), t'))"

definition obs_mark_abandoned :: "bool \<Rightarrow> outbox_table \<Rightarrow> string \<Rightarrow> unit res \<times> outbox_table" where
  "obs_mark_abandoned fault t k =
     (if fault then (Inl (StoreE StoreUnavailableError), t)
      else case obs_fetch t k of
          Inl x \<Rightarrow> (Inl x, t)
        | Inr None \<Rightarrow> (Inl OutboxConflictError, t)
        | Inr (Some e) \<Rightarrow>
            if ob_status e = Abandoned then (Inr (), t)
            else if ob_status e \<noteq> Pending then (Inl OutboxConflictError, t)
            else let (n, t') = obs_update_pending t k (\<lambda>r. r\<lparr>or_status := ''abandoned''\<rparr>)
                 in if n \<noteq> 1 then (Inl OutboxConflictError, t') else (Inr (), t'))"

definition obs_list_pending :: "bool \<Rightarrow> outbox_table \<Rightarrow> outbox_entry list res" where
  "obs_list_pending fault t =
     (if fault then Inl (StoreE StoreUnavailableError)
      else seqR (map row_to_entry (sort_key (or_created_at \<circ> snd)
             (filter (\<lambda>(k, r). or_status r = ''pending'') t))))"

section \<open>Contract\<close>

datatype outbox_call = RecordPending outbox_entry | MarkConfirmed string string | MarkAbandoned string

type_synonym outbox_view = "string \<Rightarrow> outbox_entry option"

fun ob_spec :: "outbox_view \<Rightarrow> outbox_call \<Rightarrow> unit res \<times> outbox_view" where
  "ob_spec v (RecordPending e) =
     (if ob_status e \<noteq> Pending then (Inl OutboxConflictError, v)
      else case v (ob_idempotency_key e) of
          None \<Rightarrow> (Inr (), v(ob_idempotency_key e := Some e))
        | Some x \<Rightarrow> (if ob_grant_id x = ob_grant_id e \<and> ob_manifest_hash x = ob_manifest_hash e
                      \<and> ob_status x = Pending then Inr () else Inl OutboxConflictError, v))"
| "ob_spec v (MarkConfirmed k outcome) = (case v k of
      None \<Rightarrow> (Inl OutboxConflictError, v)
    | Some x \<Rightarrow> (case ob_status x of
          Pending \<Rightarrow> (Inr (), v(k := Some (x\<lparr>ob_status := Confirmed, ob_outcome_ref := Some outcome\<rparr>)))
        | Confirmed \<Rightarrow> (Inr (), v) | Abandoned \<Rightarrow> (Inl OutboxConflictError, v)))"
| "ob_spec v (MarkAbandoned k) = (case v k of
      None \<Rightarrow> (Inl OutboxConflictError, v)
    | Some x \<Rightarrow> (case ob_status x of
          Pending \<Rightarrow> (Inr (), v(k := Some (x\<lparr>ob_status := Abandoned\<rparr>)))
        | Abandoned \<Rightarrow> (Inr (), v) | Confirmed \<Rightarrow> (Inl OutboxConflictError, v)))"

text \<open>What may become of an entry: nothing, or its one resolution.\<close>

definition entry_evolves :: "outbox_entry \<Rightarrow> outbox_entry \<Rightarrow> bool" where
  "entry_evolves e e' \<longleftrightarrow> e' = e \<or>
     ob_status e = Pending \<and>
       ((\<exists>out. e' = e\<lparr>ob_status := Confirmed, ob_outcome_ref := Some out\<rparr>)
        \<or> e' = e\<lparr>ob_status := Abandoned\<rparr>)"

lemma entry_evolves_refl [simp]: "entry_evolves e e"
  by (simp add: entry_evolves_def)

lemma entry_evolves_trans: "entry_evolves a b \<Longrightarrow> entry_evolves b c \<Longrightarrow> entry_evolves a c"
  by (auto simp: entry_evolves_def)

lemma entry_evolves_resolve:
  "ob_status e = Pending \<Longrightarrow> entry_evolves e (e\<lparr>ob_status := Confirmed, ob_outcome_ref := Some out\<rparr>)"
  "ob_status e = Pending \<Longrightarrow> entry_evolves e (e\<lparr>ob_status := Abandoned\<rparr>)"
  unfolding entry_evolves_def by blast+

lemma ob_spec_evolves:
  assumes "ob_spec v c = (r, v')" "v k = Some e"
  shows "\<exists>e'. v' k = Some e' \<and> entry_evolves e e'"
  using assms
  by (induction v c rule: ob_spec.induct)
    (auto simp: entry_evolves_resolve split: if_splits option.splits outbox_status.splits)

text \<open>A call with the fault that hits it, if any, and runs of them.\<close>

fun ob_run :: "(bool \<Rightarrow> 's \<Rightarrow> outbox_call \<Rightarrow> unit res \<times> 's) \<Rightarrow> 's \<Rightarrow> (bool \<times> outbox_call) list \<Rightarrow> 's" where
  "ob_run step s [] = s"
| "ob_run step s ((f, c) # cs) = ob_run step (snd (step f s c)) cs"

fun call_valid :: "outbox_call \<Rightarrow> bool" where
  "call_valid (RecordPending e) \<longleftrightarrow> outbox_entry_validate e = Inr ()"
| "call_valid _ \<longleftrightarrow> True"

locale outbox_store =
  fixes step :: "bool \<Rightarrow> 's \<Rightarrow> outbox_call \<Rightarrow> unit res \<times> 's"
    and lookup :: "'s \<Rightarrow> outbox_view"
    and inv :: "'s \<Rightarrow> bool"
  assumes step_spec: "inv s \<Longrightarrow> call_valid c \<Longrightarrow> step f s c = (r, s') \<Longrightarrow>
      inv s' \<and> (ob_spec (lookup s) c = (r, lookup s') \<or> f \<and> s' = s)"
begin

lemma run_evolves:
  "inv s \<Longrightarrow> \<forall>(f, c) \<in> set cs. call_valid c \<Longrightarrow> lookup s k = Some e \<Longrightarrow>
     inv (ob_run step s cs) \<and> (\<exists>e'. lookup (ob_run step s cs) k = Some e' \<and> entry_evolves e e')"
proof (induction cs arbitrary: s e)
  case (Cons fc cs)
  obtain f c where fc: "fc = (f, c)" by (cases fc)
  obtain r t where st: "step f s c = (r, t)" by fastforce
  have t: "inv t" "ob_spec (lookup s) c = (r, lookup t) \<or> t = s"
    using step_spec [OF Cons.prems(1) _ st] Cons.prems(2) fc by auto
  then obtain e1 where e1: "lookup t k = Some e1" "entry_evolves e e1"
    using ob_spec_evolves [of "lookup s" c r "lookup t" k e] Cons.prems(3) entry_evolves_refl by blast
  then show ?case
    using Cons.IH [OF t(1) _ e1(1)] Cons.prems(2) st fc entry_evolves_trans by auto
qed auto

end

fun obm_step :: "bool \<Rightarrow> outbox_memory \<Rightarrow> outbox_call \<Rightarrow> unit res \<times> outbox_memory" where
  "obm_step f st (RecordPending e) = obm_record_pending st e"
| "obm_step f st (MarkConfirmed k outcome) = obm_mark_confirmed st k outcome"
| "obm_step f st (MarkAbandoned k) = obm_mark_abandoned st k"

interpretation obm: outbox_store obm_step obm_get "\<lambda>st. True"
proof
  fix s c f r s'
  assume "obm_step f s c = (r, s')"
  then have "ob_spec (obm_get s) c = (r, obm_get s')"
    by (cases c) (auto simp: obm_record_pending_def obm_mark_confirmed_def obm_mark_abandoned_def
        obm_require_def obm_get_def [abs_def] update_conv' split: if_splits option.splits outbox_status.splits)
  then show "True \<and> (ob_spec (obm_get s) c = (r, obm_get s') \<or> f \<and> s' = s)"
    by simp
qed

fun obs_step :: "bool \<Rightarrow> outbox_table \<Rightarrow> outbox_call \<Rightarrow> unit res \<times> outbox_table" where
  "obs_step f t (RecordPending e) = obs_record_pending f t e"
| "obs_step f t (MarkConfirmed k outcome) = obs_mark_confirmed f t k outcome"
| "obs_step f t (MarkAbandoned k) = obs_mark_abandoned f t k"

text \<open>Every row is the row of a valid entry.\<close>

definition obs_inv :: "outbox_table \<Rightarrow> bool" where
  "obs_inv t \<longleftrightarrow> (\<forall>k r. map_of t k = Some r \<longrightarrow>
     (\<exists>e. r = entry_to_row e \<and> ob_idempotency_key e = k \<and> outbox_entry_validate e = Inr ()))"

definition obs_lookup :: "outbox_table \<Rightarrow> outbox_view" where
  "obs_lookup t k = (case obs_fetch t k of Inl _ \<Rightarrow> None | Inr x \<Rightarrow> x)"

lemma status_of_status_value [simp]: "status_of_value (outbox_status_value s) = Some s"
  by (cases s) (simp_all add: status_of_value_def)

lemma row_to_entry_to_row:
  "outbox_entry_validate e = Inr () \<Longrightarrow> row_to_entry (ob_idempotency_key e, entry_to_row e) = Inr e"
  by (cases e) (simp add: row_to_entry_def entry_to_row_def thenR_def)

lemma obs_fetch_inv:
  assumes "obs_inv t"
  shows "obs_fetch t k = Inr (obs_lookup t k)"
  using assms row_to_entry_to_row
  by (fastforce simp: obs_lookup_def obs_fetch_def obs_inv_def split: option.splits)

lemma obs_lookup_row:
  assumes "obs_inv t"
  shows "map_of t k = map_option entry_to_row (obs_lookup t k)"
    "obs_lookup t k = Some e \<Longrightarrow> ob_idempotency_key e = k \<and> outbox_entry_validate e = Inr ()"
  using assms row_to_entry_to_row
  by (fastforce simp: obs_lookup_def obs_fetch_def obs_inv_def split: option.splits)+

lemma obs_upd:
  assumes "obs_inv t" "ob_idempotency_key e = k" "outbox_entry_validate e = Inr ()"
    "map_of t' = (map_of t)(k := Some (entry_to_row e))"
  shows "obs_inv t' \<and> obs_lookup t' = (obs_lookup t)(k := Some e)"
proof
  show "obs_inv t'"
    using assms by (auto simp: obs_inv_def)
  show "obs_lookup t' = (obs_lookup t)(k := Some e)"
    using assms row_to_entry_to_row [OF assms(3)]
    by (auto simp: fun_eq_iff obs_lookup_def obs_fetch_def)
qed

lemma map_of_append_new: "map_of t k = None \<Longrightarrow> map_of (t @ [(k, r)]) = (map_of t)(k := Some r)"
  by (auto simp: map_add_def fun_eq_iff split: option.splits)

lemma obs_record_spec:
  assumes i: "obs_inv t" and v: "outbox_entry_validate e = Inr ()"
    and st: "obs_record_pending False t e = (r, t')"
  shows "obs_inv t' \<and> ob_spec (obs_lookup t) (RecordPending e) = (r, obs_lookup t')"
proof (cases "obs_lookup t (ob_idempotency_key e)")
  case None
  then have "map_of t (ob_idempotency_key e) = None"
    using obs_lookup_row(1) [OF i, of "ob_idempotency_key e"] by simp
  from obs_upd [OF i refl v map_of_append_new [OF this]] show ?thesis
    using None st i by (auto simp: obs_record_pending_def obs_fetch_inv [OF i] split: if_splits)
next
  case (Some x)
  then show ?thesis
    using st i by (auto simp: obs_record_pending_def obs_fetch_inv [OF i] split: if_splits)
qed

lemma obs_resolve:
  assumes i: "obs_inv t" and l: "obs_lookup t k = Some e" and p: "ob_status e = Pending"
    and f: "f (entry_to_row e) = entry_to_row e'" and k: "ob_idempotency_key e' = k"
    and s: "ob_schema_version e' = ob_schema_version e"
  shows "\<exists>t'. obs_update_pending t k f = (1, t') \<and> obs_inv t' \<and> obs_lookup t' = (obs_lookup t)(k := Some e')"
proof -
  have r: "map_of t k = Some (entry_to_row e)"
    using obs_lookup_row(1) [OF i, of k] l by simp
  have v: "outbox_entry_validate e' = Inr ()"
    using obs_lookup_row(2) [OF i l] s by (simp add: outbox_entry_validate_def)
  have "obs_update_pending t k f = (1, AList.update k (entry_to_row e') t)"
    using r p f by (simp add: obs_update_pending_def) (simp add: entry_to_row_def)
  moreover have "obs_inv (AList.update k (entry_to_row e') t)
      \<and> obs_lookup (AList.update k (entry_to_row e') t) = (obs_lookup t)(k := Some e')"
    by (rule obs_upd [OF i k v]) (simp add: update_conv')
  ultimately show ?thesis by blast
qed

lemma obs_confirm_spec:
  assumes i: "obs_inv t" and st: "obs_mark_confirmed False t k outcome = (r, t')"
  shows "obs_inv t' \<and> ob_spec (obs_lookup t) (MarkConfirmed k outcome) = (r, obs_lookup t')"
proof (cases "obs_lookup t k")
  case None
  then show ?thesis
    using st i by (auto simp: obs_mark_confirmed_def obs_fetch_inv [OF i])
next
  case (Some e)
  let ?f = "\<lambda>r. r\<lparr>or_status := ''confirmed'', or_outcome_ref := Some outcome\<rparr>"
  let ?e = "e\<lparr>ob_status := Confirmed, ob_outcome_ref := Some outcome\<rparr>"
  have "\<exists>t'. obs_update_pending t k ?f = (1, t') \<and> obs_inv t' \<and> obs_lookup t' = (obs_lookup t)(k := Some ?e)"
    if "ob_status e = Pending"
    by (rule obs_resolve [OF i Some that]) (use obs_lookup_row(2) [OF i Some] in
        \<open>simp_all add: entry_to_row_def\<close>)
  then show ?thesis
    using Some st i
    by (cases "ob_status e") (auto simp: obs_mark_confirmed_def obs_fetch_inv [OF i])
qed

lemma obs_abandon_spec:
  assumes i: "obs_inv t" and st: "obs_mark_abandoned False t k = (r, t')"
  shows "obs_inv t' \<and> ob_spec (obs_lookup t) (MarkAbandoned k) = (r, obs_lookup t')"
proof (cases "obs_lookup t k")
  case None
  then show ?thesis
    using st i by (auto simp: obs_mark_abandoned_def obs_fetch_inv [OF i])
next
  case (Some e)
  have "\<exists>t'. obs_update_pending t k (\<lambda>r. r\<lparr>or_status := ''abandoned''\<rparr>) = (1, t') \<and> obs_inv t'
      \<and> obs_lookup t' = (obs_lookup t)(k := Some (e\<lparr>ob_status := Abandoned\<rparr>))"
    if "ob_status e = Pending"
    by (rule obs_resolve [OF i Some that]) (use obs_lookup_row(2) [OF i Some] in
        \<open>simp_all add: entry_to_row_def\<close>)
  then show ?thesis
    using Some st i
    by (cases "ob_status e") (auto simp: obs_mark_abandoned_def obs_fetch_inv [OF i])
qed

lemma obs_step_fault: "obs_step True t c = (r, t') \<Longrightarrow> t' = t"
  by (cases c) (auto simp: obs_record_pending_def obs_mark_confirmed_def obs_mark_abandoned_def
      split: if_splits)

interpretation obs: outbox_store obs_step obs_lookup obs_inv
proof
  fix s c f r s'
  assume i: "obs_inv s" and v: "call_valid c" and st: "obs_step f s c = (r, s')"
  show "obs_inv s' \<and> (ob_spec (obs_lookup s) c = (r, obs_lookup s') \<or> f \<and> s' = s)"
  proof (cases f)
    case True
    then show ?thesis using obs_step_fault [of s c r s'] st i by simp
  next
    case False
    then show ?thesis
      using obs_record_spec [OF i, of _ r s'] obs_confirm_spec [OF i, of _ _ r s']
        obs_abandon_spec [OF i, of _ r s'] v st
      by (cases c) simp_all
  qed
qed

text \<open>A commit intent is immutable and its resolution final: whatever calls follow, with
  whatever SQLite faults, the entry recorded under an idempotency key keeps its grant,
  manifest, hash and creation time, and changes at most once, from pending to confirmed
  (with its outcome) or to abandoned.  For the in-memory and for the SQLite outbox.\<close>

theorem outbox_entry_final:
  assumes "\<forall>(f, c) \<in> set cs. call_valid c"
  shows "(obm_get st k = Some e \<longrightarrow> (\<exists>e'. obm_get (ob_run obm_step st cs) k = Some e' \<and> entry_evolves e e'))
       \<and> (obs_inv t \<and> obs_lookup t k = Some e \<longrightarrow>
            (\<exists>e'. obs_get False (ob_run obs_step t cs) k = Inr (Some e') \<and> entry_evolves e e'))"
proof (intro conjI impI; (elim conjE)?)
  assume "obm_get st k = Some e"
  then show "\<exists>e'. obm_get (ob_run obm_step st cs) k = Some e' \<and> entry_evolves e e'"
    using obm.run_evolves [OF TrueI assms] by blast
next
  assume "obs_inv t" "obs_lookup t k = Some e"
  from obs.run_evolves [OF this(1) assms this(2)]
  show "\<exists>e'. obs_get False (ob_run obs_step t cs) k = Inr (Some e') \<and> entry_evolves e e'"
    by (auto simp: obs_get_def obs_fetch_inv)
qed

definition toy_entry :: outbox_entry where
  "toy_entry = \<lparr>ob_schema_version = ''1.0'', ob_idempotency_key = ''k-1'', ob_grant_id = ''g-1'',
     ob_manifest_id = ''m-1'', ob_manifest_hash = ''h'', ob_status = Pending, ob_created_at = 0,
     ob_outcome_ref = None\<rparr>"

theorem outbox_entry_final_witness:
  "\<exists>e'. obm_get (ob_run obm_step [(''k-1'', toy_entry)]
      [(False, MarkConfirmed ''k-1'' ''ref''), (False, MarkAbandoned ''k-1'')]) ''k-1'' = Some e'
     \<and> entry_evolves toy_entry e'"
proof -
  have "\<forall>(f, c) \<in> set [(False, MarkConfirmed ''k-1'' ''ref''), (False, MarkAbandoned ''k-1'')]. call_valid c"
    by simp
  moreover have "obm_get [(''k-1'', toy_entry)] ''k-1'' = Some toy_entry"
    by (simp add: obm_get_def)
  ultimately show ?thesis
    using outbox_entry_final by blast
qed

end
