(* ===== verification/Budget.thy ===== *)
theory Budget
  imports Sealing
begin

text \<open>
  Authority budgets (\<^verbatim>\<open>budget/\<close>): the definition with its validators, the in-process
  ledger, and the amount a commit consumes.

  The ledger's dictionaries of consumed and reserved amounts are total functions that
  start at zero: the source initializes both for a budget when it registers it and reads
  them only for registered budgets.  Every method holds one lock, so concurrent use is a
  sequence of calls.
\<close>

section \<open>Definition of a budget\<close>

datatype budget_kind = Monetary | Count

primrec budget_kind_value :: "budget_kind \<Rightarrow> string" where
  "budget_kind_value Monetary = ''monetary''"
| "budget_kind_value Count = ''count''"

record authority_budget =
  ab_schema_version :: string
  ab_budget_id :: string
  ab_kind :: budget_kind
  ab_currency :: "string option"
  ab_limit_minor_units :: "int option"
  ab_limit_count :: "int option"

definition budget_validate :: "authority_budget \<Rightarrow> unit res" where
  "budget_validate b = allR
     ([assert_supported_schema_version (ab_schema_version b),
       raise_if (ab_budget_id b = [] \<or> length (ab_budget_id b) > 128) ValueError] @
      (case ab_kind b of
         Monetary \<Rightarrow>
           [raise_if (\<not> truthy (ab_currency b) \<or> length (the (ab_currency b)) \<noteq> 3) ValueError,
            raise_if (case ab_limit_minor_units b of None \<Rightarrow> True | Some n \<Rightarrow> n < 1) ValueError,
            raise_if (ab_limit_count b \<noteq> None) ValueError]
       | Count \<Rightarrow>
           [raise_if (case ab_limit_count b of None \<Rightarrow> True | Some n \<Rightarrow> n < 1) ValueError,
            raise_if (ab_limit_minor_units b \<noteq> None \<or> ab_currency b \<noteq> None) ValueError]))"

definition budget_limit :: "authority_budget \<Rightarrow> int res" where
  "budget_limit b = (case ab_kind b of
      Monetary \<Rightarrow> (case ab_limit_minor_units b of
          None \<Rightarrow> Inl (AuthorityBudgetE AuthorityBudgetError) | Some n \<Rightarrow> Inr n)
    | Count \<Rightarrow> (case ab_limit_count b of
          None \<Rightarrow> Inl (AuthorityBudgetE AuthorityBudgetError) | Some n \<Rightarrow> Inr n))"

definition jint_opt :: "int option \<Rightarrow> json" where
  "jint_opt x = (case x of None \<Rightarrow> JNull | Some n \<Rightarrow> JInt n)"

definition budget_json :: "authority_budget \<Rightarrow> json" where
  "budget_json b = JObj
     [(''schema_version'', JStr (ab_schema_version b)),
      (''budget_id'', JStr (ab_budget_id b)),
      (''kind'', JStr (budget_kind_value (ab_kind b))),
      (''currency'', jstr_opt (ab_currency b)),
      (''limit_minor_units'', jint_opt (ab_limit_minor_units b)),
      (''limit_count'', jint_opt (ab_limit_count b))]"

definition budget_hash :: "crypto \<Rightarrow> authority_budget \<Rightarrow> string" where
  "budget_hash cr b = canonical_hash (cr_sha256 cr) (budget_json b)"

section \<open>The ledger\<close>

record budget_ledger =
  bl_budgets :: "string \<Rightarrow> authority_budget option"
  bl_consumed :: "string \<Rightarrow> int"
  bl_reserved :: "string \<Rightarrow> int"

definition bl_init :: budget_ledger where
  "bl_init = \<lparr>bl_budgets = (\<lambda>_. None), bl_consumed = (\<lambda>_. 0), bl_reserved = (\<lambda>_. 0)\<rparr>"

definition bl_require :: "budget_ledger \<Rightarrow> string \<Rightarrow> authority_budget res" where
  "bl_require l i = (case bl_budgets l i of
      None \<Rightarrow> Inl (AuthorityBudgetE AuthorityBudgetError) | Some b \<Rightarrow> Inr b)"

definition bl_register :: "crypto \<Rightarrow> authority_budget \<Rightarrow> (budget_ledger, unit) sem" where
  "bl_register cr b l =
     (case bl_budgets l (ab_budget_id b) of
        Some x \<Rightarrow>
          if budget_hash cr x \<noteq> budget_hash cr b
          then (Inl (AuthorityBudgetE AuthorityBudgetError), l)
          else (Inr (), l\<lparr>bl_budgets := (bl_budgets l)(ab_budget_id b := Some b)\<rparr>)
      | None \<Rightarrow> (Inr (), l\<lparr>bl_budgets := (bl_budgets l)(ab_budget_id b := Some b)\<rparr>))"

definition bl_get :: "budget_ledger \<Rightarrow> string \<Rightarrow> authority_budget res" where
  "bl_get l i = bl_require l i"

definition bl_remaining :: "budget_ledger \<Rightarrow> string \<Rightarrow> int res" where
  "bl_remaining l i = bindR (bl_require l i) (\<lambda>b. bindR (budget_limit b) (\<lambda>n.
     Inr (n - bl_consumed l i - bl_reserved l i)))"

definition bl_reserve :: "string \<Rightarrow> int \<Rightarrow> (budget_ledger, bool) sem" where
  "bl_reserve i amount l =
     (if amount < 1 then (Inl (AuthorityBudgetE AuthorityBudgetError), l)
      else case bl_remaining l i of
          Inl e \<Rightarrow> (Inl e, l)
        | Inr available \<Rightarrow>
            if amount > available then (Inr False, l)
            else (Inr True, l\<lparr>bl_reserved := (bl_reserved l)(i := bl_reserved l i + amount)\<rparr>))"

definition bl_release :: "string \<Rightarrow> int \<Rightarrow> (budget_ledger, unit) sem" where
  "bl_release i amount l =
     (case bl_require l i of
        Inl e \<Rightarrow> (Inl e, l)
      | Inr _ \<Rightarrow>
          if amount < 1 \<or> amount > bl_reserved l i then (Inl (AuthorityBudgetE AuthorityBudgetError), l)
          else (Inr (), l\<lparr>bl_reserved := (bl_reserved l)(i := bl_reserved l i - amount)\<rparr>))"

definition bl_commit :: "string \<Rightarrow> int \<Rightarrow> (budget_ledger, unit) sem" where
  "bl_commit i amount l =
     (case bl_require l i of
        Inl e \<Rightarrow> (Inl e, l)
      | Inr _ \<Rightarrow>
          if amount < 1 \<or> amount > bl_reserved l i then (Inl (AuthorityBudgetE AuthorityBudgetError), l)
          else (Inr (), l\<lparr>bl_reserved := (bl_reserved l)(i := bl_reserved l i - amount),
                         bl_consumed := (bl_consumed l)(i := bl_consumed l i + amount)\<rparr>))"

definition bl_consume :: "string \<Rightarrow> int \<Rightarrow> (budget_ledger, unit) sem" where
  "bl_consume i amount l =
     (if amount < 1 then (Inl (AuthorityBudgetE AuthorityBudgetError), l)
      else case bl_remaining l i of
          Inl e \<Rightarrow> (Inl e, l)
        | Inr available \<Rightarrow>
            if amount > available then (Inl (AuthorityBudgetE AuthorityBudgetExhaustedError), l)
            else (Inr (), l\<lparr>bl_consumed := (bl_consumed l)(i := bl_consumed l i + amount)\<rparr>))"

definition bl_assert_can_reserve :: "string \<Rightarrow> int \<Rightarrow> (budget_ledger, unit) sem" where
  "bl_assert_can_reserve i amount =
     bindE (bl_reserve i amount) (\<lambda>ok.
       if ok then ret () else raiseE (AuthorityBudgetE AuthorityBudgetExhaustedError))"

section \<open>What a commit consumes\<close>

definition resolve_budget_consume_amount :: "authority_budget \<Rightarrow> effect_manifest \<Rightarrow> int res" where
  "resolve_budget_consume_amount b m =
     (if ab_kind b = Count then Inr 1
      else case m_estimated_cost m of
          None \<Rightarrow> Inl (AuthorityBudgetE AuthorityBudgetError)
        | Some cost \<Rightarrow>
            if ab_currency b = None \<or> Some (currency cost) \<noteq> ab_currency b
              then Inl (AuthorityBudgetE AuthorityBudgetError)
            else if minor_units cost < 1 then Inl (AuthorityBudgetE AuthorityBudgetError)
            else Inr (minor_units cost))"

definition require_budget :: "budget_ledger option \<Rightarrow> string \<Rightarrow> authority_budget res" where
  "require_budget l i = (case l of
      None \<Rightarrow> Inl (AuthorityBudgetE AuthorityBudgetError) | Some l \<Rightarrow> bl_get l i)"

section \<open>No overspending\<close>

text \<open>Any use of the ledger is a sequence of these calls.\<close>

datatype budget_call =
    Register authority_budget
  | BReserve string int
  | BRelease string int
  | BCommit string int
  | BConsume string int
  | BAssertReserve string int

definition bl_call :: "crypto \<Rightarrow> budget_ledger \<Rightarrow> budget_call \<Rightarrow> budget_ledger" where
  "bl_call cr l c = (case c of
      Register b \<Rightarrow> snd (bl_register cr b l)
    | BReserve i a \<Rightarrow> snd (bl_reserve i a l)
    | BRelease i a \<Rightarrow> snd (bl_release i a l)
    | BCommit i a \<Rightarrow> snd (bl_commit i a l)
    | BConsume i a \<Rightarrow> snd (bl_consume i a l)
    | BAssertReserve i a \<Rightarrow> snd (bl_assert_can_reserve i a l))"

text \<open>The budgets a sequence registers are valid and no two of them collide under the
  digest by which the ledger recognizes a definition.\<close>

definition registered :: "budget_call list \<Rightarrow> authority_budget set" where
  "registered cs = {b. Register b \<in> set cs}"

definition budgets_ok :: "crypto \<Rightarrow> authority_budget set \<Rightarrow> bool" where
  "budgets_ok cr B \<longleftrightarrow> (\<forall>b \<in> B. budget_validate b = Inr ())
     \<and> (\<forall>b \<in> B. \<forall>b' \<in> B. no_collision cr (budget_json b) (budget_json b'))"

definition account_inv :: "authority_budget set \<Rightarrow> string \<Rightarrow> authority_budget option \<Rightarrow> int \<Rightarrow> int \<Rightarrow> bool" where
  "account_inv B i b consumed reserved \<longleftrightarrow> 0 \<le> consumed \<and> 0 \<le> reserved \<and>
     (case b of
        None \<Rightarrow> consumed = 0 \<and> reserved = 0
      | Some b \<Rightarrow> b \<in> B \<and> ab_budget_id b = i \<and> (\<exists>n. budget_limit b = Inr n \<and> consumed + reserved \<le> n))"

definition ledger_inv :: "authority_budget set \<Rightarrow> budget_ledger \<Rightarrow> bool" where
  "ledger_inv B l \<longleftrightarrow> (\<forall>i. account_inv B i (bl_budgets l i) (bl_consumed l i) (bl_reserved l i))"

lemma jint_opt_inject [simp]: "normal (jint_opt x) = normal (jint_opt y) \<longleftrightarrow> x = y"
  by (simp add: jint_opt_def split: option.splits)

lemma budget_kind_value_inject [simp]: "budget_kind_value a = budget_kind_value b \<longleftrightarrow> a = b"
  by (cases a; cases b) simp_all

lemma budget_json_inject: "normal (budget_json a) = normal (budget_json b) \<Longrightarrow> a = b"
  unfolding budget_json_def
  by (cases a; cases b) (auto dest!: normal_JObj_inject simp del: normal.simps(2))

lemma budget_hash_inject:
  "budgets_ok cr B \<Longrightarrow> a \<in> B \<Longrightarrow> b \<in> B \<Longrightarrow> budget_hash cr a = budget_hash cr b \<Longrightarrow> a = b"
  unfolding budgets_ok_def budget_hash_def by (blast intro: budget_json_inject canonical_hash_normal)

lemma budget_limit_valid: "budget_validate b = Inr () \<Longrightarrow> \<exists>n. budget_limit b = Inr n \<and> 1 \<le> n"
  by (auto simp: budget_validate_def budget_limit_def result_simps is_ok_unit [symmetric] not_less
      split: budget_kind.splits option.splits)

lemma ledger_inv_init: "ledger_inv B bl_init"
  by (simp add: ledger_inv_def account_inv_def bl_init_def)

lemma ledger_invD:
  assumes "ledger_inv B l" "bl_budgets l i = Some b"
  shows "b \<in> B" "ab_budget_id b = i" "\<exists>n. budget_limit b = Inr n \<and> bl_consumed l i + bl_reserved l i \<le> n"
    "0 \<le> bl_consumed l i" "0 \<le> bl_reserved l i"
proof -
  have "account_inv B i (Some b) (bl_consumed l i) (bl_reserved l i)"
    using assms by (metis ledger_inv_def)
  then show "b \<in> B" "ab_budget_id b = i"
    "\<exists>n. budget_limit b = Inr n \<and> bl_consumed l i + bl_reserved l i \<le> n"
    "0 \<le> bl_consumed l i" "0 \<le> bl_reserved l i"
    by (simp_all add: account_inv_def)
qed

lemma ledger_inv_upd:
  assumes "ledger_inv B l" "bl_budgets l i = Some b" "budget_limit b = Inr n"
    "0 \<le> c" "0 \<le> r" "c + r \<le> n"
  shows "ledger_inv B (l\<lparr>bl_reserved := (bl_reserved l)(i := r), bl_consumed := (bl_consumed l)(i := c)\<rparr>)"
  using assms ledger_invD(1,2) [OF assms(1,2)]
  by (simp add: ledger_inv_def) (simp add: account_inv_def)

lemma bl_remaining_ok:
  "bl_remaining l i = Inr a \<Longrightarrow> \<exists>b n. bl_budgets l i = Some b \<and> budget_limit b = Inr n
     \<and> a = n - bl_consumed l i - bl_reserved l i"
  by (auto simp: bl_remaining_def bl_require_def result_simps split: option.splits)

lemma bl_register_inv:
  assumes "ledger_inv B l" "budgets_ok cr B" "b \<in> B"
  shows "ledger_inv B (snd (bl_register cr b l))"
proof (cases "bl_budgets l (ab_budget_id b)")
  case None
  obtain n where n: "budget_limit b = Inr n" "1 \<le> n"
    using budget_limit_valid [of b] assms(2,3) by (auto simp: budgets_ok_def)
  have "account_inv B (ab_budget_id b) None (bl_consumed l (ab_budget_id b)) (bl_reserved l (ab_budget_id b))"
    using assms(1) None by (metis ledger_inv_def)
  then have "account_inv B (ab_budget_id b) (Some b) (bl_consumed l (ab_budget_id b)) (bl_reserved l (ab_budget_id b))"
    using n assms(3) by (simp add: account_inv_def)
  then show ?thesis
    using assms(1) None by (simp add: bl_register_def ledger_inv_def)
next
  case (Some x)
  have "x = b" if "budget_hash cr x = budget_hash cr b"
    using budget_hash_inject [OF assms(2) ledger_invD(1) [OF assms(1) Some] assms(3) that] .
  then show ?thesis
    using assms Some by (auto simp: bl_register_def ledger_inv_def fun_upd_idem)
qed

lemma bl_reserve_inv: "ledger_inv B l \<Longrightarrow> ledger_inv B (snd (bl_reserve i a l))"
  using ledger_invD [of B l i] ledger_inv_upd [of B l i _ _ "bl_consumed l i" "bl_reserved l i + a"]
  by (auto simp: bl_reserve_def dest!: bl_remaining_ok split: sum.splits)

lemma bl_consume_inv: "ledger_inv B l \<Longrightarrow> ledger_inv B (snd (bl_consume i a l))"
  using ledger_invD [of B l i] ledger_inv_upd [of B l i _ _ "bl_consumed l i + a" "bl_reserved l i"]
  by (auto simp: bl_consume_def dest!: bl_remaining_ok split: sum.splits)

lemma bl_release_inv: "ledger_inv B l \<Longrightarrow> ledger_inv B (snd (bl_release i a l))"
  using ledger_invD [of B l i] ledger_inv_upd [of B l i _ _ "bl_consumed l i" "bl_reserved l i - a"]
  by (auto simp: bl_release_def bl_require_def split: sum.splits option.splits)

lemma bl_commit_inv: "ledger_inv B l \<Longrightarrow> ledger_inv B (snd (bl_commit i a l))"
  using ledger_invD [of B l i] ledger_inv_upd [of B l i _ _ "bl_consumed l i + a" "bl_reserved l i - a"]
  by (auto simp: bl_commit_def bl_require_def split: sum.splits option.splits)

lemma bl_assert_inv: "ledger_inv B l \<Longrightarrow> ledger_inv B (snd (bl_assert_can_reserve i a l))"
  using bl_reserve_inv [of B l i a]
  by (auto simp: bl_assert_can_reserve_def bindE_def ret_def raiseE_def split: prod.splits sum.splits)

lemma bl_call_inv:
  assumes "ledger_inv B l" "budgets_ok cr B" "\<forall>b. c = Register b \<longrightarrow> b \<in> B"
  shows "ledger_inv B (bl_call cr l c)"
  using assms bl_register_inv [OF assms(1,2)]
  by (cases c) (simp_all add: bl_call_def bl_reserve_inv bl_release_inv bl_commit_inv bl_consume_inv
      bl_assert_inv)

lemma bl_run_inv:
  "ledger_inv B l \<Longrightarrow> budgets_ok cr B \<Longrightarrow> \<forall>c \<in> set cs. \<forall>b. c = Register b \<longrightarrow> b \<in> B \<Longrightarrow>
     ledger_inv B (foldl (bl_call cr) l cs)"
  by (induction cs arbitrary: l) (auto intro: bl_call_inv)

text \<open>C11. A budget is never overspent: after any sequence of registrations, reservations,
  releases, commits and consumptions, by any number of callers, the consumed and the
  reserved amount of every registered budget are non-negative and together stay within
  its limit, and \<^verbatim>\<open>remaining\<close> is never negative.\<close>

theorem budget_never_overspent:
  assumes "budgets_ok cr (registered cs)" and "l = foldl (bl_call cr) bl_init cs"
    and "bl_budgets l i = Some b"
  shows "\<exists>n. budget_limit b = Inr n \<and> 0 \<le> bl_consumed l i \<and> 0 \<le> bl_reserved l i
       \<and> bl_consumed l i + bl_reserved l i \<le> n
       \<and> bl_remaining l i = Inr (n - bl_consumed l i - bl_reserved l i)"
proof -
  have "ledger_inv (registered cs) l"
    unfolding assms(2) by (rule bl_run_inv [OF ledger_inv_init assms(1)]) (auto simp: registered_def)
  from ledger_invD [OF this assms(3)] show ?thesis
    using assms(3) by (auto simp: bl_remaining_def bl_require_def)
qed

definition toy_budget :: authority_budget where
  "toy_budget = \<lparr>ab_schema_version = ''1.0'', ab_budget_id = ''b-1'', ab_kind = Count,
     ab_currency = None, ab_limit_minor_units = None, ab_limit_count = Some 2\<rparr>"

lemma toy_budget_valid: "budget_validate toy_budget = Inr ()"
  by code_simp

lemma toy_budgets_ok: "budgets_ok cr (registered [Register toy_budget, BReserve ''b-1'' 1, BCommit ''b-1'' 1])"
  by (auto simp: budgets_ok_def registered_def toy_budget_valid no_collision_def)

theorem budget_never_overspent_witness:
  "\<exists>n. budget_limit toy_budget = Inr n \<and>
     bl_consumed (foldl (bl_call toy_crypto) bl_init
       [Register toy_budget, BReserve ''b-1'' 1, BCommit ''b-1'' 1]) ''b-1'' \<le> n"
proof -
  have "bl_budgets (foldl (bl_call toy_crypto) bl_init
      [Register toy_budget, BReserve ''b-1'' 1, BCommit ''b-1'' 1]) ''b-1'' = Some toy_budget"
    by (simp add: bl_call_def bl_register_def bl_init_def bl_reserve_def bl_remaining_def bl_require_def
        bl_commit_def budget_limit_def) (simp add: toy_budget_def)
  from budget_never_overspent [OF toy_budgets_ok refl this] show ?thesis
    by auto
qed

section \<open>Reservation protocol\<close>

text \<open>What the engine relies on: a reservation that succeeded can be committed or released
  in full, whatever other callers do in between, as long as they only touch what they
  reserved themselves.\<close>

lemma bl_reserve_commit:
  assumes "bl_reserve i a l = (Inr True, l')" "0 \<le> bl_reserved l i"
  shows "bl_commit i a l' = (Inr (), l'\<lparr>bl_reserved := bl_reserved l,
    bl_consumed := (bl_consumed l)(i := bl_consumed l i + a)\<rparr>)"
  using assms
  by (auto simp: bl_reserve_def bl_commit_def bl_require_def fun_upd_idem dest!: bl_remaining_ok
      split: if_splits sum.splits)

lemma bl_reserve_release:
  assumes "bl_reserve i a l = (Inr True, l')" "0 \<le> bl_reserved l i"
  shows "bl_release i a l' = (Inr (), l)"
  using assms
  by (auto simp: bl_reserve_def bl_release_def bl_require_def fun_upd_idem dest!: bl_remaining_ok
      split: if_splits sum.splits)

text \<open>A reservation that is released leaves the ledger exactly as it was, and one that
  is committed consumes exactly the reserved amount and nothing else.\<close>

theorem budget_reservation_exact:
  assumes "bl_reserve i a l = (Inr True, l')" "0 \<le> bl_reserved l i"
  shows "bl_release i a l' = (Inr (), l)
       \<and> bl_commit i a l' = (Inr (), l\<lparr>bl_consumed := (bl_consumed l)(i := bl_consumed l i + a)\<rparr>)
       \<and> 1 \<le> a"
proof -
  have "l'\<lparr>bl_reserved := bl_reserved l\<rparr> = l" "1 \<le> a"
    using assms(1) by (auto simp: bl_reserve_def split: if_splits sum.splits)
  then have "l'\<lparr>bl_reserved := bl_reserved l, bl_consumed := c\<rparr> = l\<lparr>bl_consumed := c\<rparr>" for c
    by (metis budget_ledger.update_convs(2) budget_ledger.surjective budget_ledger.update_convs(3))
  then show ?thesis
    using bl_reserve_release [OF assms] bl_reserve_commit [OF assms] \<open>1 \<le> a\<close> by simp
qed

definition toy_ledger :: budget_ledger where
  "toy_ledger = bl_init\<lparr>bl_budgets := (\<lambda>_. None)(''b-1'' := Some toy_budget)\<rparr>"

theorem budget_reservation_exact_witness:
  "bl_reserve ''b-1'' 2 toy_ledger = (Inr True, snd (bl_reserve ''b-1'' 2 toy_ledger))
   \<and> bl_release ''b-1'' 2 (snd (bl_reserve ''b-1'' 2 toy_ledger)) = (Inr (), toy_ledger)"
proof -
  have "bl_reserve ''b-1'' 2 toy_ledger = (Inr True, snd (bl_reserve ''b-1'' 2 toy_ledger))"
    by (simp add: bl_reserve_def bl_remaining_def bl_require_def toy_ledger_def bl_init_def
        budget_limit_def toy_budget_def)
  then show ?thesis
    using budget_reservation_exact [of "''b-1''" 2 toy_ledger] by (simp add: toy_ledger_def bl_init_def)
qed

end
