(* ===== verification/Policy.thy ===== *)
theory Policy
  imports Sealing
begin

text \<open>
  Signed policy bundles (\<^verbatim>\<open>policy/\<close>): the bundle with its validators and canonical form, its
  seal, and verification.  The payload is JSON data, the values for which
  \<^verbatim>\<open>canonical_json_bytes\<close> is defined; a dictionary is its list of entries, which have distinct
  keys.
\<close>

definition MAX_PAYLOAD_BYTES :: nat where
  "MAX_PAYLOAD_BYTES = 65536"

record policy_bundle =
  pb_schema_version :: string
  pb_bundle_id :: string
  pb_bundle_version :: string
  pb_policy_type :: string
  pb_payload :: "(string \<times> json) list"
  pb_issuer :: principal
  pb_tenant_id :: "string option"
  pb_created_at :: time
  pb_effective_from :: time
  pb_effective_until :: "time option"

definition bundle_version_check :: "string \<Rightarrow> unit res" where
  "bundle_version_check v =
     (if CHR ''.'' \<notin> set v \<or> v = [] then Inl ValueError
      else let major = takeWhile (\<lambda>c. c \<noteq> CHR ''.'') v;
               minor = tl (dropWhile (\<lambda>c. c \<noteq> CHR ''.'') v)
           in raise_if (\<not> py_isdigit major \<or> \<not> py_isdigit minor) ValueError)"

definition bundle_validate :: "policy_bundle \<Rightarrow> unit res" where
  "bundle_validate b = allR
     [id_length_check (pb_bundle_id b),
      bundle_version_check (pb_bundle_version b),
      id_length_check (pb_policy_type b),
      raise_if (case pb_tenant_id b of None \<Rightarrow> False | Some t \<Rightarrow> t = [] \<or> length t > 128) ValueError,
      raise_if (case pb_effective_until b of None \<Rightarrow> False | Some u \<Rightarrow> u \<le> pb_effective_from b) ValueError,
      raise_if (length (canonical_json_bytes (JObj (pb_payload b))) > MAX_PAYLOAD_BYTES) ValueError]"

definition bundle_json :: "crypto \<Rightarrow> policy_bundle \<Rightarrow> json" where
  "bundle_json cr b = JObj
     [(''schema_version'', JStr (pb_schema_version b)),
      (''bundle_id'', JStr (pb_bundle_id b)),
      (''bundle_version'', JStr (pb_bundle_version b)),
      (''policy_type'', JStr (pb_policy_type b)),
      (''payload'', JObj (pb_payload b)),
      (''issuer'', principal_json (pb_issuer b)),
      (''tenant_id'', jstr_opt (pb_tenant_id b)),
      (''created_at'', JStr (cr_iso cr (pb_created_at b))),
      (''effective_from'', JStr (cr_iso cr (pb_effective_from b))),
      (''effective_until'', case pb_effective_until b of None \<Rightarrow> JNull | Some t \<Rightarrow> JStr (cr_iso cr t))]"

definition bundle_hash :: "crypto \<Rightarrow> policy_bundle \<Rightarrow> string" where
  "bundle_hash cr b = canonical_hash (cr_sha256 cr) (bundle_json cr b)"

definition is_effective_at :: "policy_bundle \<Rightarrow> time \<Rightarrow> bool" where
  "is_effective_at b when =
     (if when < pb_effective_from b then False
      else \<not> (case pb_effective_until b of None \<Rightarrow> False | Some u \<Rightarrow> when \<ge> u))"

record policy_bundle_seal =
  ps_algorithm :: string
  ps_key_id :: string
  ps_bundle_hash :: string
  ps_signature :: string
  ps_sealed_at :: time

definition bundle_seal_validate :: "policy_bundle_seal \<Rightarrow> unit res" where
  "bundle_seal_validate s = allR
     [raise_if (ps_algorithm s \<noteq> ''ed25519'') ValueError,
      id_length_check (ps_key_id s),
      raise_if (\<not> digest_shape (ps_bundle_hash s)) ValueError]"

record sealed_policy_bundle =
  spb_bundle :: policy_bundle
  spb_seal :: policy_bundle_seal

definition bundle_verify_integrity :: "crypto \<Rightarrow> sealed_policy_bundle \<Rightarrow> unit res" where
  "bundle_verify_integrity cr sealed =
     raise_if (bundle_hash cr (spb_bundle sealed) \<noteq> ps_bundle_hash (spb_seal sealed))
       (PolicyBundleE PolicyBundleTamperedError)"

definition seal_policy_bundle :: "crypto \<Rightarrow> policy_bundle \<Rightarrow> signing_key \<Rightarrow> time \<Rightarrow> sealed_policy_bundle res" where
  "seal_policy_bundle cr bundle key now =
     (let h = bundle_hash cr bundle;
          s = \<lparr>ps_algorithm = sk_algorithm key, ps_key_id = sk_key_id key, ps_bundle_hash = h,
               ps_signature = sk_sign cr key h, ps_sealed_at = now\<rparr>
      in thenR (bundle_seal_validate s) (Inr \<lparr>spb_bundle = bundle, spb_seal = s\<rparr>))"

definition verify_policy_bundle ::
    "crypto \<Rightarrow> sealed_policy_bundle \<Rightarrow> keyring \<Rightarrow> time \<Rightarrow> string option \<Rightarrow> unit res" where
  "verify_policy_bundle cr sealed kr now expected_policy_type =
     (let b = spb_bundle sealed; s = spb_seal sealed in allR
       [bundle_verify_integrity cr sealed,
        kr_verify cr kr (ps_key_id s) (ps_bundle_hash s) (ps_signature s),
        raise_if (case expected_policy_type of None \<Rightarrow> False | Some t \<Rightarrow> pb_policy_type b \<noteq> t)
          (PolicyBundleE PolicyBundleTypeMismatchError),
        raise_if (now < pb_effective_from b) (PolicyBundleE PolicyBundleNotYetEffectiveError),
        raise_if (case pb_effective_until b of None \<Rightarrow> False | Some u \<Rightarrow> now \<ge> u)
          (PolicyBundleE PolicyBundleExpiredError)])"

section \<open>Facts\<close>

lemma verify_policy_bundle_effective:
  "verify_policy_bundle cr sealed kr now t = Inr () \<Longrightarrow> is_effective_at (spb_bundle sealed) now"
  by (auto simp: verify_policy_bundle_def is_effective_at_def Let_def result_simps split: option.splits)

lemma seal_policy_bundle_ok_iff:
  "seal_policy_bundle cr b key now = Inr sealed \<longleftrightarrow>
     bundle_seal_validate (spb_seal sealed) = Inr () \<and> spb_bundle sealed = b \<and>
     spb_seal sealed = \<lparr>ps_algorithm = sk_algorithm key, ps_key_id = sk_key_id key, ps_bundle_hash = bundle_hash cr b,
               ps_signature = sk_sign cr key (bundle_hash cr b), ps_sealed_at = now\<rparr>"
  by (cases sealed) (auto simp: seal_policy_bundle_def Let_def result_simps is_ok_unit)

text \<open>What the hash binds: two bundles with the same canonical form agree in every field but the
  order of the payload's keys.\<close>

lemma bundle_json_inject:
  assumes "crypto_ok cr" "normal (bundle_json cr a) = normal (bundle_json cr b)"
  shows "a\<lparr>pb_payload := []\<rparr> = b\<lparr>pb_payload := []\<rparr> \<and> normal (JObj (pb_payload a)) = normal (JObj (pb_payload b))"
proof -
  have i: "cr_iso cr x = cr_iso cr y \<longleftrightarrow> x = y" for x y
    using assms(1) by (auto simp: crypto_ok_def inj_eq)
  have o: "normal (case x of None \<Rightarrow> JNull | Some t \<Rightarrow> JStr (cr_iso cr t))
      = normal (case y of None \<Rightarrow> JNull | Some t \<Rightarrow> JStr (cr_iso cr t)) \<longleftrightarrow> x = y" for x y
    by (cases x; cases y) (simp_all add: i)
  show ?thesis
    using normal_JObj_inject [OF assms(2) [unfolded bundle_json_def]]
    by (auto intro!: policy_bundle.equality simp: i o simp del: normal.simps(1,2))
qed

text \<open>Policy bundles: a sealed bundle verifies against a keyring that trusts the key exactly
  while it is effective and of the expected type, with a distinct error before its window,
  after it and for another type; and a bundle put in its place under the same seal verifies
  only if it agrees in every field (up to the order of the payload's keys), unless SHA-256
  collides.\<close>

theorem policy_bundle_pinned:
  assumes "crypto_ok cr" "seal_policy_bundle cr b key t0 = Inr sealed"
    and "kr (sk_key_id key) = Some (sk_verification_key cr key)"
  shows "verify_policy_bundle cr sealed kr now (Some ptype) =
      (if pb_policy_type b \<noteq> ptype then Inl (PolicyBundleE PolicyBundleTypeMismatchError)
       else if now < pb_effective_from b then Inl (PolicyBundleE PolicyBundleNotYetEffectiveError)
       else if is_effective_at b now then Inr () else Inl (PolicyBundleE PolicyBundleExpiredError))
    \<and> (verify_policy_bundle cr (sealed\<lparr>spb_bundle := b'\<rparr>) kr' now' t' = Inr () \<and>
        no_collision cr (bundle_json cr b) (bundle_json cr b') \<longrightarrow>
        b\<lparr>pb_payload := []\<rparr> = b'\<lparr>pb_payload := []\<rparr> \<and> normal (JObj (pb_payload b)) = normal (JObj (pb_payload b')))"
proof (intro conjI impI)
  have s: "spb_bundle sealed = b" "ps_key_id (spb_seal sealed) = sk_key_id key"
    "ps_bundle_hash (spb_seal sealed) = bundle_hash cr b" "ps_signature (spb_seal sealed) = sk_sign cr key (bundle_hash cr b)"
    using assms(2) by (auto simp: seal_policy_bundle_ok_iff)
  show "verify_policy_bundle cr sealed kr now (Some ptype) =
      (if pb_policy_type b \<noteq> ptype then Inl (PolicyBundleE PolicyBundleTypeMismatchError)
       else if now < pb_effective_from b then Inl (PolicyBundleE PolicyBundleNotYetEffectiveError)
       else if is_effective_at b now then Inr () else Inl (PolicyBundleE PolicyBundleExpiredError))"
    using s assms(3) vk_verify_sign [OF assms(1)]
    by (simp add: verify_policy_bundle_def bundle_verify_integrity_def kr_verify_def kr_get_def thenR_def
        raise_if_def is_effective_at_def split: option.splits)
  assume "verify_policy_bundle cr (sealed\<lparr>spb_bundle := b'\<rparr>) kr' now' t' = Inr () \<and>
      no_collision cr (bundle_json cr b) (bundle_json cr b')"
  then have "normal (bundle_json cr b) = normal (bundle_json cr b')"
    using s(3) canonical_hash_normal [of cr "bundle_json cr b" "bundle_json cr b'"]
    by (auto simp: verify_policy_bundle_def bundle_verify_integrity_def Let_def result_simps bundle_hash_def)
  then show "b\<lparr>pb_payload := []\<rparr> = b'\<lparr>pb_payload := []\<rparr>" "normal (JObj (pb_payload b)) = normal (JObj (pb_payload b'))"
    using bundle_json_inject [OF assms(1)] by blast+
qed

definition toy_bundle :: "string \<Rightarrow> (string \<times> json) list \<Rightarrow> policy_bundle" where
  "toy_bundle ptype payload = \<lparr>pb_schema_version = ''1.0'', pb_bundle_id = ''b-1'', pb_bundle_version = ''1.0'',
     pb_policy_type = ptype, pb_payload = payload, pb_issuer = toy_principal ''alice'' HUMAN,
     pb_tenant_id = None, pb_created_at = 0, pb_effective_from = 0, pb_effective_until = Some 100\<rparr>"

lemma toy_bundle_sealed:
  "\<exists>sealed. seal_policy_bundle toy_crypto (toy_bundle ptype payload) toy_key 5 = Inr sealed"
  using canonical_hash_shape [OF toy_crypto_ok]
  by (simp add: seal_policy_bundle_def Let_def bundle_seal_validate_def id_length_check_def thenR_def raise_if_def
      toy_key_def bundle_hash_def)

theorem policy_bundle_pinned_witness:
  "\<exists>sealed. seal_policy_bundle toy_crypto (toy_bundle ''approval.v1'' []) toy_key 5 = Inr sealed
     \<and> verify_policy_bundle toy_crypto sealed toy_keyring 50 (Some ''approval.v1'') = Inr ()
     \<and> verify_policy_bundle toy_crypto sealed toy_keyring 100 (Some ''approval.v1'') = Inl (PolicyBundleE PolicyBundleExpiredError)"
proof -
  obtain sealed where s: "seal_policy_bundle toy_crypto (toy_bundle ''approval.v1'' []) toy_key 5 = Inr sealed"
    using toy_bundle_sealed by blast
  have k: "toy_keyring (sk_key_id toy_key) = Some (sk_verification_key toy_crypto toy_key)"
    using toy_keyring_key by (simp add: toy_key_def)
  show ?thesis
    using policy_bundle_pinned [where kr = toy_keyring, OF toy_crypto_ok s k, of 50 "''approval.v1''"]
      policy_bundle_pinned [where kr = toy_keyring, OF toy_crypto_ok s k, of 100 "''approval.v1''"] s
    by (auto simp: toy_bundle_def is_effective_at_def)
qed

end
