(* ===== verification/Approval.thy ===== *)
theory Approval
  imports Policy "HOL-Library.Multiset" "HOL-Library.Product_Lexorder"
begin

text \<open>
  Multi-party approval (\<^verbatim>\<open>approval/\<close>): signed approval statements, the versioned quorum rules with
  their bundle payload, and the evaluation of a set of statements against the rules.

  The texts of rejections and of the quorum's reason are messages; a rejection carries the
  kind of its reason instead.
\<close>

section \<open>Statements\<close>

datatype decision = Approve | Dissent

primrec decision_value :: "decision \<Rightarrow> string" where
  "decision_value Approve = ''approve''"
| "decision_value Dissent = ''dissent''"

record approval_statement =
  st_schema_version :: string
  st_statement_id :: string
  st_manifest_hash :: string
  st_approval_policy_bundle_hash :: string
  st_approver :: principal
  st_role :: "string option"
  st_decision :: decision
  st_reason :: "string option"
  st_signed_at :: time
  st_expires_at :: time
  st_nonce :: string
  st_key_id :: string
  st_algorithm :: string
  st_signature :: "string option"

definition statement_validate :: "approval_statement \<Rightarrow> unit res" where
  "statement_validate s = allR
     [assert_supported_schema_version (st_schema_version s),
      id_length_check (st_statement_id s),
      raise_if (\<not> digest_shape (st_manifest_hash s)) ValueError,
      raise_if (\<not> digest_shape (st_approval_policy_bundle_hash s)) ValueError,
      raise_if (case st_role s of None \<Rightarrow> False | Some r \<Rightarrow> r = [] \<or> length r > 64) ValueError,
      raise_if (case st_reason s of None \<Rightarrow> False | Some r \<Rightarrow> length r > 512) ValueError,
      id_length_check (st_nonce s),
      id_length_check (st_key_id s),
      raise_if (st_algorithm s \<noteq> ''ed25519'') ValueError,
      raise_if (st_expires_at s \<le> st_signed_at s) ValueError]"

definition statement_payload :: "crypto \<Rightarrow> approval_statement \<Rightarrow> json" where
  "statement_payload cr s = JObj
     [(''schema_version'', JStr (st_schema_version s)),
      (''statement_id'', JStr (st_statement_id s)),
      (''manifest_hash'', JStr (st_manifest_hash s)),
      (''approval_policy_bundle_hash'', JStr (st_approval_policy_bundle_hash s)),
      (''approver'', principal_json (st_approver s)),
      (''role'', jstr_opt (st_role s)),
      (''decision'', JStr (decision_value (st_decision s))),
      (''reason'', jstr_opt (st_reason s)),
      (''signed_at'', JStr (cr_iso cr (st_signed_at s))),
      (''expires_at'', JStr (cr_iso cr (st_expires_at s))),
      (''nonce'', JStr (st_nonce s)),
      (''key_id'', JStr (st_key_id s)),
      (''algorithm'', JStr (st_algorithm s))]"

definition statement_hash :: "crypto \<Rightarrow> approval_statement \<Rightarrow> string" where
  "statement_hash cr s = canonical_hash (cr_sha256 cr) (statement_payload cr s)"

text \<open>The arguments of \<open>sign_approval_statement\<close> are the fields of an unsigned statement; the key
  decides the key identifier and algorithm and the clock the time of signing.\<close>

definition sign_approval_statement ::
    "crypto \<Rightarrow> time \<Rightarrow> signing_key \<Rightarrow> approval_statement \<Rightarrow> approval_statement res" where
  "sign_approval_statement cr now key args =
     (if principal_type (st_approver args) = AGENT then Inl (ApprovalE ApprovalIssuerNotAuthorizedError)
      else let u = args\<lparr>st_schema_version := CURRENT_SCHEMA_VERSION, st_signed_at := now,
                        st_key_id := sk_key_id key, st_algorithm := sk_algorithm key, st_signature := None\<rparr>
           in thenR (statement_validate u)
                (Inr (u\<lparr>st_signature := Some (sk_sign cr key (statement_hash cr u))\<rparr>)))"

definition verify_approval_statement_signature :: "crypto \<Rightarrow> approval_statement \<Rightarrow> keyring \<Rightarrow> unit res" where
  "verify_approval_statement_signature cr s kr =
     thenR (assert_supported_schema_version (st_schema_version s))
     (thenR (assert_supported_algorithm (st_algorithm s))
      (case st_signature s of
         None \<Rightarrow> Inl (CryptoE InvalidSignatureError)
       | Some sig \<Rightarrow> kr_verify cr kr (st_key_id s) (statement_hash cr s) sig))"

definition verify_approval_statement_time_window :: "approval_statement \<Rightarrow> time \<Rightarrow> unit res" where
  "verify_approval_statement_time_window s now =
     raise_if (now > st_expires_at s) (ApprovalE ApprovalExpiredError)"

definition verify_approval_statement :: "crypto \<Rightarrow> approval_statement \<Rightarrow> keyring \<Rightarrow> time \<Rightarrow> unit res" where
  "verify_approval_statement cr s kr now =
     thenR (verify_approval_statement_signature cr s kr) (verify_approval_statement_time_window s now)"

section \<open>The quorum rules\<close>

record approval_policy =
  aq_policy_id :: string
  aq_policy_version :: string
  aq_required_approvals :: int
  aq_required_roles :: "string list"
  aq_forbid_proposer_as_approver :: bool
  aq_forbid_subject_as_approver :: bool
  aq_veto_on_any_dissent :: bool
  aq_cooling_off_seconds :: int
  aq_max_statements_considered :: int

definition approval_policy_validate :: "approval_policy \<Rightarrow> unit res" where
  "approval_policy_validate p = allR
     ([raise_if (aq_policy_id p = [] \<or> length (aq_policy_id p) > 128) ValueError,
       raise_if (CHR ''.'' \<notin> set (aq_policy_version p)) ValueError,
       raise_if (aq_required_approvals p < 1) ValueError,
       raise_if (aq_cooling_off_seconds p < 0) ValueError,
       raise_if (aq_max_statements_considered p < aq_required_approvals p) ValueError]
      @ map (\<lambda>r. raise_if (r = [] \<or> length r > 64) ValueError) (aq_required_roles p)
      @ [raise_if (\<not> distinct (aq_required_roles p)) ValueError])"

definition DEFAULT_APPROVAL_POLICY :: approval_policy where
  "DEFAULT_APPROVAL_POLICY = \<lparr>aq_policy_id = ''default'', aq_policy_version = ''1.0'', aq_required_approvals = 1,
     aq_required_roles = [], aq_forbid_proposer_as_approver = True, aq_forbid_subject_as_approver = True,
     aq_veto_on_any_dissent = True, aq_cooling_off_seconds = 0, aq_max_statements_considered = 100\<rparr>"

definition approval_policy_dict :: "approval_policy \<Rightarrow> (string \<times> json) list" where
  "approval_policy_dict p =
     [(''policy_id'', JStr (aq_policy_id p)),
      (''policy_version'', JStr (aq_policy_version p)),
      (''required_approvals'', JInt (aq_required_approvals p)),
      (''required_roles'', JList (map JStr (sort (aq_required_roles p)))),
      (''forbid_proposer_as_approver'', JBool (aq_forbid_proposer_as_approver p)),
      (''forbid_subject_as_approver'', JBool (aq_forbid_subject_as_approver p)),
      (''veto_on_any_dissent'', JBool (aq_veto_on_any_dissent p)),
      (''cooling_off_seconds'', JInt (aq_cooling_off_seconds p)),
      (''max_statements_considered'', JInt (aq_max_statements_considered p))]"

definition approval_policy_hash :: "crypto \<Rightarrow> approval_policy \<Rightarrow> string" where
  "approval_policy_hash cr p = canonical_hash (cr_sha256 cr) (JObj (approval_policy_dict p))"

definition POLICY_TYPE_APPROVAL :: string where
  "POLICY_TYPE_APPROVAL = ''approval.v1''"

definition build_approval_policy_bundle :: "approval_policy \<Rightarrow> string \<Rightarrow> string \<Rightarrow> principal \<Rightarrow> time \<Rightarrow> time
    \<Rightarrow> time option \<Rightarrow> string option \<Rightarrow> policy_bundle res" where
  "build_approval_policy_bundle p bid version issuer created from until tenant =
     (if principal_type issuer = AGENT then Inl (PolicyBundleE PolicyBundleIssuerNotAuthorizedError)
      else let b = \<lparr>pb_schema_version = ''1.0'', pb_bundle_id = bid, pb_bundle_version = version,
             pb_policy_type = POLICY_TYPE_APPROVAL, pb_payload = approval_policy_dict p, pb_issuer = issuer,
             pb_tenant_id = tenant, pb_created_at = created, pb_effective_from = from, pb_effective_until = until\<rparr>
           in thenR (bundle_validate b) (Inr b))"

definition as_int :: "(string \<times> json) list \<Rightarrow> string \<Rightarrow> int res" where
  "as_int payload key = (case map_of payload key of Some (JInt i) \<Rightarrow> Inr i | _ \<Rightarrow> Inl ValueError)"

definition as_bool :: "(string \<times> json) list \<Rightarrow> string \<Rightarrow> bool res" where
  "as_bool payload key = (case map_of payload key of Some (JBool b) \<Rightarrow> Inr b | _ \<Rightarrow> Inl ValueError)"

definition as_str :: "(string \<times> json) list \<Rightarrow> string \<Rightarrow> string res" where
  "as_str payload key = (case map_of payload key of Some (JStr s) \<Rightarrow> Inr s | _ \<Rightarrow> Inl ValueError)"

fun as_strs :: "json list \<Rightarrow> string list res" where
  "as_strs [] = Inr []"
| "as_strs (JStr s # xs) = bindR (as_strs xs) (\<lambda>ss. Inr (s # ss))"
| "as_strs (_ # xs) = Inl ValueError"

definition as_tuple_str :: "(string \<times> json) list \<Rightarrow> string \<Rightarrow> string list res" where
  "as_tuple_str payload key = (case map_of payload key of Some (JList xs) \<Rightarrow> as_strs xs | _ \<Rightarrow> Inl ValueError)"

definition approval_policy_from_bundle_payload :: "(string \<times> json) list \<Rightarrow> approval_policy res" where
  "approval_policy_from_bundle_payload payload =
     bindR (as_str payload ''policy_id'') (\<lambda>pid.
     bindR (as_str payload ''policy_version'') (\<lambda>version.
     bindR (as_int payload ''required_approvals'') (\<lambda>required.
     bindR (as_tuple_str payload ''required_roles'') (\<lambda>roles.
     bindR (as_bool payload ''forbid_proposer_as_approver'') (\<lambda>fp.
     bindR (as_bool payload ''forbid_subject_as_approver'') (\<lambda>fs.
     bindR (as_bool payload ''veto_on_any_dissent'') (\<lambda>veto.
     bindR (as_int payload ''cooling_off_seconds'') (\<lambda>cooling.
     bindR (as_int payload ''max_statements_considered'') (\<lambda>mx.
       let p = \<lparr>aq_policy_id = pid, aq_policy_version = version, aq_required_approvals = required,
                aq_required_roles = roles, aq_forbid_proposer_as_approver = fp, aq_forbid_subject_as_approver = fs,
                aq_veto_on_any_dissent = veto, aq_cooling_off_seconds = cooling, aq_max_statements_considered = mx\<rparr>
       in thenR (approval_policy_validate p) (Inr p))))))))))"

section \<open>The quorum\<close>

datatype reject_reason =
    ManifestHashMismatch | PolicyHashMismatch | AgentCannotApprove | ProposerCannotApprove
  | SubjectCannotApprove | StatementInvalid exn | Superseded

definition reject_reason_of :: "crypto \<Rightarrow> keyring \<Rightarrow> time \<Rightarrow> string \<Rightarrow> string \<Rightarrow> approval_policy \<Rightarrow> principal \<Rightarrow> principal
    \<Rightarrow> approval_statement \<Rightarrow> reject_reason option res" where
  "reject_reason_of cr kr now mh ph policy proposer subject s =
     (if st_manifest_hash s \<noteq> mh then Inr (Some ManifestHashMismatch)
      else if st_approval_policy_bundle_hash s \<noteq> ph then Inr (Some PolicyHashMismatch)
      else if principal_type (st_approver s) = AGENT then Inr (Some AgentCannotApprove)
      else if aq_forbid_proposer_as_approver policy \<and> principal_id (st_approver s) = principal_id proposer
        then Inr (Some ProposerCannotApprove)
      else if aq_forbid_subject_as_approver policy \<and> principal_id (st_approver s) = principal_id subject
        then Inr (Some SubjectCannotApprove)
      else case thenR (verify_approval_statement_signature cr s kr) (verify_approval_statement_time_window s now) of
          Inl e \<Rightarrow> if is_ks e then Inr (Some (StatementInvalid e)) else Inl e
        | Inr _ \<Rightarrow> Inr None)"

text \<open>\<^verbatim>\<open>max(group, key=...)\<close>: the first of the largest.\<close>

fun max_first :: "('a \<Rightarrow> 'k::linorder) \<Rightarrow> 'a \<Rightarrow> 'a list \<Rightarrow> 'a" where
  "max_first key best [] = best"
| "max_first key best (x # xs) = max_first key (if key best < key x then x else best) xs"

definition approver_of :: "approval_statement \<Rightarrow> string" where
  "approver_of s = principal_id (st_approver s)"

definition statement_key :: "approval_statement \<Rightarrow> time \<times> string" where
  "statement_key s = (st_signed_at s, st_statement_id s)"

text \<open>The keys of \<^verbatim>\<open>by_approver\<close>, in the order of insertion, and a group.\<close>

fun first_occurrences :: "'a list \<Rightarrow> 'a list" where
  "first_occurrences [] = []"
| "first_occurrences (x # xs) = x # first_occurrences (filter (\<lambda>y. y \<noteq> x) xs)"

definition group_of :: "approval_statement list \<Rightarrow> string \<Rightarrow> approval_statement list" where
  "group_of ss pid = filter (\<lambda>s. approver_of s = pid) ss"

definition winner_of :: "approval_statement list \<Rightarrow> string \<Rightarrow> approval_statement" where
  "winner_of ss pid = (case group_of ss pid of g # gs \<Rightarrow> max_first statement_key g gs | [] \<Rightarrow> hd ss)"

definition select_authoritative ::
    "approval_statement list \<Rightarrow> approval_statement list \<times> (string \<times> reject_reason) list" where
  "select_authoritative ss =
     (let pids = first_occurrences (map approver_of ss)
      in (map (winner_of ss) pids,
          concat (map (\<lambda>pid. map (\<lambda>s. (st_statement_id s, Superseded))
             (filter (\<lambda>s. st_statement_id s \<noteq> st_statement_id (winner_of ss pid)) (group_of ss pid))) pids)))"

record quorum_result =
  q_satisfied :: bool
  q_approving_count :: nat
  q_approving_principal_ids :: "string list"
  q_dissenting_principal_ids :: "string list"
  q_missing_roles :: "string list"
  q_rejected :: "(string \<times> reject_reason) list"
  q_approval_set_hash :: string

text \<open>The loop that separates the statements to reject from the survivors.\<close>

fun triage :: "(approval_statement \<Rightarrow> reject_reason option res) \<Rightarrow> approval_statement list
    \<Rightarrow> ((string \<times> reject_reason) list \<times> approval_statement list) res" where
  "triage f [] = Inr ([], [])"
| "triage f (s # ss) = bindR (f s) (\<lambda>r. bindR (triage f ss) (\<lambda>(rejected, survivors).
     Inr (case r of Some why \<Rightarrow> ((st_statement_id s, why) # rejected, survivors)
                  | None \<Rightarrow> (rejected, s # survivors))))"

definition cooling_off_pending :: "approval_policy \<Rightarrow> approval_statement list \<Rightarrow> time \<Rightarrow> bool" where
  "cooling_off_pending policy approving now \<longleftrightarrow>
     aq_cooling_off_seconds policy > 0 \<and> approving \<noteq> [] \<and>
     now < Min (set (map st_signed_at approving)) + aq_cooling_off_seconds policy * second"

definition evaluate_quorum :: "crypto \<Rightarrow> approval_statement list \<Rightarrow> approval_policy \<Rightarrow> string \<Rightarrow> string \<Rightarrow> keyring
    \<Rightarrow> principal \<Rightarrow> principal \<Rightarrow> time \<Rightarrow> quorum_result res" where
  "evaluate_quorum cr statements policy mh ph kr proposer subject now =
     (if int (length statements) > aq_max_statements_considered policy
      then Inl (ApprovalE ApprovalBatchTooLargeError)
      else bindR (triage (reject_reason_of cr kr now mh ph policy proposer subject) statements) (\<lambda>(rejected, survivors).
        let (authoritative, superseded) = select_authoritative survivors;
            approving = sort_key approver_of (filter (\<lambda>s. st_decision s = Approve) authoritative);
            dissenting = sort_key approver_of (filter (\<lambda>s. st_decision s = Dissent) authoritative);
            roles_present = List.map_filter st_role approving;
            missing_roles = sort (filter (\<lambda>r. r \<notin> set roles_present) (aq_required_roles policy));
            enough = int (length approving) \<ge> aq_required_approvals policy \<and> missing_roles = [];
            vetoed = aq_veto_on_any_dissent policy \<and> dissenting \<noteq> []
        in Inr \<lparr>q_satisfied = (enough \<and> \<not> vetoed \<and> \<not> cooling_off_pending policy approving now),
                q_approving_count = length approving,
                q_approving_principal_ids = map approver_of approving,
                q_dissenting_principal_ids = map approver_of dissenting,
                q_missing_roles = missing_roles,
                q_rejected = rejected @ superseded,
                q_approval_set_hash = canonical_hash (cr_sha256 cr)
                  (JList (map JStr (sort (map (statement_hash cr) approving))))\<rparr>))"


section \<open>Which statements count\<close>

definition counts :: "crypto \<Rightarrow> keyring \<Rightarrow> time \<Rightarrow> string \<Rightarrow> string \<Rightarrow> approval_policy \<Rightarrow> principal \<Rightarrow> principal
    \<Rightarrow> approval_statement \<Rightarrow> bool" where
  "counts cr kr now mh ph policy proposer subject s \<longleftrightarrow>
     st_manifest_hash s = mh \<and> st_approval_policy_bundle_hash s = ph \<and> principal_type (st_approver s) \<noteq> AGENT \<and>
     (aq_forbid_proposer_as_approver policy \<longrightarrow> approver_of s \<noteq> principal_id proposer) \<and>
     (aq_forbid_subject_as_approver policy \<longrightarrow> approver_of s \<noteq> principal_id subject) \<and>
     verify_approval_statement cr s kr now = Inr ()"

lemma parse_major_error: "parse_major v = Inl e \<Longrightarrow> e = ManifestE SchemaVersionError"
  by (auto simp: parse_major_def Let_def split: if_splits)

lemma verify_statement_error_ks: "verify_approval_statement cr s kr now = Inl e \<Longrightarrow> is_ks e"
  by (auto simp: verify_approval_statement_def verify_approval_statement_signature_def
      verify_approval_statement_time_window_def assert_supported_schema_version_def assert_supported_algorithm_def
      kr_verify_def kr_get_def vk_verify_def result_simps is_ks_def dest: parse_major_error split: option.splits)

lemma reject_reason_of_total:
  "\<exists>r. reject_reason_of cr kr now mh ph policy proposer subject s = Inr r \<and>
     (r = None \<longleftrightarrow> counts cr kr now mh ph policy proposer subject s)"
proof (cases "verify_approval_statement cr s kr now")
  case (Inl e)
  then have "is_ks e" by (rule verify_statement_error_ks)
  then show ?thesis
    using Inl by (auto simp: reject_reason_of_def counts_def approver_of_def simp flip: verify_approval_statement_def)
next
  case (Inr u)
  then show ?thesis
    by (auto simp: reject_reason_of_def counts_def approver_of_def simp flip: verify_approval_statement_def)
qed

lemma triage_eq:
  "triage (reject_reason_of cr kr now mh ph policy proposer subject) ss = Inr
     (List.map_filter (\<lambda>s. map_option (Pair (st_statement_id s))
        (projr (reject_reason_of cr kr now mh ph policy proposer subject s))) ss,
      filter (counts cr kr now mh ph policy proposer subject) ss)"
proof (induction ss)
  case (Cons s ss)
  obtain r where r: "reject_reason_of cr kr now mh ph policy proposer subject s = Inr r"
    "r = None \<longleftrightarrow> counts cr kr now mh ph policy proposer subject s"
    using reject_reason_of_total by blast
  show ?case
    using Cons r by (cases r) (auto simp: List.map_filter_def)
qed (simp add: List.map_filter_def)

section \<open>The authoritative statements\<close>

lemma set_first_occurrences [simp]: "set (first_occurrences xs) = set xs"
  by (induction xs rule: first_occurrences.induct) auto

lemma distinct_first_occurrences [simp]: "distinct (first_occurrences xs)"
  by (induction xs rule: first_occurrences.induct) auto

lemma max_first_in: "max_first key b xs \<in> insert b (set xs)"
  by (induction xs arbitrary: b) force+

lemma max_first_ge: "x \<in> insert b (set xs) \<Longrightarrow> key x \<le> key (max_first key b xs)"
proof (induction xs arbitrary: b x)
  case (Cons y ys)
  have "key (if key b < key y then y else b) \<le> key (max_first key (if key b < key y then y else b) ys)"
    by (rule Cons.IH) simp
  then show ?case
    using Cons.IH [of x "if key b < key y then y else b"] Cons.prems by (auto split: if_splits)
qed simp

lemma winner_of_props:
  assumes "pid \<in> approver_of ` set ss"
  shows "winner_of ss pid \<in> set ss \<and> approver_of (winner_of ss pid) = pid
    \<and> (\<forall>s \<in> set ss. approver_of s = pid \<longrightarrow> statement_key s \<le> statement_key (winner_of ss pid))"
proof -
  obtain g gs where g: "group_of ss pid = g # gs"
    using assms by (cases "group_of ss pid") (auto simp: group_of_def filter_empty_conv)
  then have w: "winner_of ss pid = max_first statement_key g gs" by (simp add: winner_of_def)
  have set: "set (g # gs) = {s \<in> set ss. approver_of s = pid}"
    unfolding g [symmetric] by (simp add: group_of_def)
  show ?thesis
    unfolding w using max_first_in [of statement_key g gs] max_first_ge [of _ g gs statement_key] set by auto
qed

definition authoritative :: "approval_statement list \<Rightarrow> approval_statement list" where
  "authoritative ss = fst (select_authoritative ss)"

lemma authoritative_eq: "authoritative ss = map (winner_of ss) (first_occurrences (map approver_of ss))"
  by (simp add: authoritative_def select_authoritative_def Let_def)

lemma authoritative_props:
  "set (authoritative ss) \<subseteq> set ss"
  "distinct (map approver_of (authoritative ss))"
  "s \<in> set (authoritative ss) \<Longrightarrow> t \<in> set ss \<Longrightarrow> approver_of t = approver_of s \<Longrightarrow> statement_key t \<le> statement_key s"
  "t \<in> set ss \<Longrightarrow> \<exists>s \<in> set (authoritative ss). approver_of s = approver_of t"
proof -
  have w: "pid \<in> set (first_occurrences (map approver_of ss)) \<Longrightarrow> winner_of ss pid \<in> set ss \<and> approver_of (winner_of ss pid) = pid
    \<and> (\<forall>s \<in> set ss. approver_of s = pid \<longrightarrow> statement_key s \<le> statement_key (winner_of ss pid))" for pid
    using winner_of_props [of pid ss] by simp
  then show "set (authoritative ss) \<subseteq> set ss" unfolding authoritative_eq by auto
  have "map approver_of (authoritative ss) = first_occurrences (map approver_of ss)"
    unfolding authoritative_eq using w by (auto intro: map_idI)
  then show "distinct (map approver_of (authoritative ss))" by simp
  show "s \<in> set (authoritative ss) \<Longrightarrow> t \<in> set ss \<Longrightarrow> approver_of t = approver_of s \<Longrightarrow> statement_key t \<le> statement_key s"
    using w unfolding authoritative_eq by auto
  show "t \<in> set ss \<Longrightarrow> \<exists>s \<in> set (authoritative ss). approver_of s = approver_of t"
    using w unfolding authoritative_eq by auto
qed

abbreviation approving_of :: "approval_statement list \<Rightarrow> approval_statement list" where
  "approving_of ss \<equiv> sort_key approver_of (filter (\<lambda>s. st_decision s = Approve) (authoritative ss))"

lemma evaluate_quorum_InrD:
  assumes "evaluate_quorum cr statements policy mh ph kr proposer subject now = Inr q"
  defines "ss \<equiv> filter (counts cr kr now mh ph policy proposer subject) statements"
  shows "q_approving_principal_ids q = map approver_of (approving_of ss)"
    "q_approval_set_hash q = canonical_hash (cr_sha256 cr) (JList (map JStr (sort (map (statement_hash cr) (approving_of ss)))))"
    "q_satisfied q \<longleftrightarrow> int (length (approving_of ss)) \<ge> aq_required_approvals policy
       \<and> (\<forall>r \<in> set (aq_required_roles policy). \<exists>s \<in> set (approving_of ss). st_role s = Some r)
       \<and> (aq_veto_on_any_dissent policy \<longrightarrow> (\<forall>s \<in> set (authoritative ss). st_decision s \<noteq> Dissent))
       \<and> \<not> cooling_off_pending policy (approving_of ss) now"
proof -
  have roles: "r \<in> set (List.map_filter st_role xs) \<longleftrightarrow> (\<exists>s \<in> set xs. st_role s = Some r)" for r xs
    by (force simp: List.map_filter_def)
  have d: "sort_key approver_of (filter P xs) = [] \<longleftrightarrow> (\<forall>s \<in> set xs. \<not> P s)" for P xs
    by (metis filter_empty_conv set_empty set_sort)
  have e: "sort (filter P xs) = [] \<longleftrightarrow> (\<forall>s \<in> set xs. \<not> P s)" for P and xs :: "string list"
    by (metis filter_empty_conv set_empty set_sort)
  have *: "select_authoritative ss = (authoritative ss, snd (select_authoritative ss))"
    by (simp add: authoritative_def)
  note q = assms(1) [unfolded evaluate_quorum_def triage_eq bindR.simps prod.case ss_def [symmetric] Let_def]
  show "q_approving_principal_ids q = map approver_of (approving_of ss)"
    "q_approval_set_hash q = canonical_hash (cr_sha256 cr) (JList (map JStr (sort (map (statement_hash cr) (approving_of ss)))))"
    "q_satisfied q \<longleftrightarrow> int (length (approving_of ss)) \<ge> aq_required_approvals policy
       \<and> (\<forall>r \<in> set (aq_required_roles policy). \<exists>s \<in> set (approving_of ss). st_role s = Some r)
       \<and> (aq_veto_on_any_dissent policy \<longrightarrow> (\<forall>s \<in> set (authoritative ss). st_decision s \<noteq> Dissent))
       \<and> \<not> cooling_off_pending policy (approving_of ss) now"
    using q by (subst (asm) *, auto simp: roles d e split: if_splits)+
qed


section \<open>Properties of the quorum\<close>

lemma satisfied_quorum_backed:
  assumes "evaluate_quorum cr statements policy mh ph kr proposer subject now = Inr q" "q_satisfied q"
  shows "\<exists>A. set A \<subseteq> set statements \<and> map approver_of A = q_approving_principal_ids q \<and> distinct (map approver_of A)
    \<and> int (length A) \<ge> aq_required_approvals policy
    \<and> (\<forall>r \<in> set (aq_required_roles policy). \<exists>s \<in> set A. st_role s = Some r)
    \<and> (\<forall>s \<in> set A. st_decision s = Approve \<and> counts cr kr now mh ph policy proposer subject s)
    \<and> (\<forall>s \<in> set A. \<forall>t \<in> set statements. counts cr kr now mh ph policy proposer subject t \<and> approver_of t = approver_of s
         \<longrightarrow> statement_key t \<le> statement_key s)
    \<and> (aq_veto_on_any_dissent policy \<longrightarrow>
         (\<forall>t \<in> set statements. counts cr kr now mh ph policy proposer subject t \<and> st_decision t = Dissent
            \<longrightarrow> (\<exists>s \<in> set A. approver_of s = approver_of t \<and> statement_key t \<le> statement_key s)))"
proof -
  let ?c = "counts cr kr now mh ph policy proposer subject"
  let ?ss = "filter ?c statements"
  let ?A = "approving_of ?ss"
  note q = evaluate_quorum_InrD [OF assms(1)]
  note sat = assms(2) [unfolded q(3)]
  have A: "set ?A = {s \<in> set (authoritative ?ss). st_decision s = Approve}" by auto
  have sub: "set (authoritative ?ss) \<subseteq> {s \<in> set statements. ?c s}"
    using authoritative_props(1) [of ?ss] by simp
  have "inj_on approver_of (set (authoritative ?ss))"
    using authoritative_props(2) by (metis distinct_map)
  then have dis: "distinct (map approver_of ?A)"
    using authoritative_props(2) [of ?ss] by (auto simp: distinct_map inj_on_def)
  have latest: "statement_key t \<le> statement_key s"
    if "s \<in> set ?A" "t \<in> set statements" "?c t" "approver_of t = approver_of s" for s t
    using authoritative_props(3) [of s ?ss t] that by auto
  have veto: "\<exists>s \<in> set ?A. approver_of s = approver_of t \<and> statement_key t \<le> statement_key s"
    if v: "aq_veto_on_any_dissent policy" "t \<in> set statements" "?c t" for t
  proof -
    obtain s where s: "s \<in> set (authoritative ?ss)" "approver_of s = approver_of t"
      using authoritative_props(4) [of t ?ss] v by auto
    then have "st_decision s \<noteq> Dissent" using sat v(1) by blast
    then have "s \<in> set ?A" using s(1) A by (cases "st_decision s") auto
    then show ?thesis using latest v(2,3) s(2) by metis
  qed
  show ?thesis
    by (rule exI [of _ ?A], intro conjI)
      (use sub A dis latest veto sat q(1) in \<open>auto simp del: set_sort\<close>)
qed

text \<open>C22. A satisfied quorum is backed by approvals: there is a list of submitted statements from
  pairwise different approvers, at least as many as required, covering every required role,
  each of them an approval of exactly this manifest under exactly this policy bundle, with a
  valid signature, not expired, not from an agent nor, where forbidden, from the proposer or the
  subject, and the latest valid statement of its approver.  With the veto rule every valid
  dissent has been superseded by a later approval of the same approver.\<close>

theorem quorum_backed_by_approvals:
  assumes "evaluate_quorum cr statements policy mh ph kr proposer subject now = Inr q" "q_satisfied q"
  shows "\<exists>A. set A \<subseteq> set statements \<and> map approver_of A = q_approving_principal_ids q \<and> distinct (map approver_of A)
    \<and> int (length A) \<ge> aq_required_approvals policy
    \<and> (\<forall>r \<in> set (aq_required_roles policy). \<exists>s \<in> set A. st_role s = Some r)
    \<and> (\<forall>s \<in> set A. st_decision s = Approve \<and> counts cr kr now mh ph policy proposer subject s)
    \<and> (\<forall>s \<in> set A. \<forall>t \<in> set statements. counts cr kr now mh ph policy proposer subject t \<and> approver_of t = approver_of s
         \<longrightarrow> statement_key t \<le> statement_key s)
    \<and> (aq_veto_on_any_dissent policy \<longrightarrow>
         (\<forall>t \<in> set statements. counts cr kr now mh ph policy proposer subject t \<and> st_decision t = Dissent
            \<longrightarrow> (\<exists>s \<in> set A. approver_of s = approver_of t \<and> statement_key t \<le> statement_key s)))"
  using assms by (rule satisfied_quorum_backed)

lemma winner_of_cong:
  assumes "mset ss = mset ts"
    and u: "\<And>s t. s \<in> set ss \<Longrightarrow> t \<in> set ss \<Longrightarrow> approver_of s = approver_of t \<Longrightarrow> statement_key s = statement_key t \<Longrightarrow> s = t"
    and "pid \<in> approver_of ` set ss"
  shows "winner_of ss pid = winner_of ts pid"
proof -
  have set: "set ss = set ts" using assms(1) by (rule mset_eq_setD)
  have a: "winner_of ss pid \<in> set ss" "approver_of (winner_of ss pid) = pid"
    "\<forall>s \<in> set ss. approver_of s = pid \<longrightarrow> statement_key s \<le> statement_key (winner_of ss pid)"
    using winner_of_props [OF assms(3)] by auto
  have b: "winner_of ts pid \<in> set ss" "approver_of (winner_of ts pid) = pid"
    "\<forall>s \<in> set ss. approver_of s = pid \<longrightarrow> statement_key s \<le> statement_key (winner_of ts pid)"
    using winner_of_props [of pid ts] assms(3) set by auto
  have "statement_key (winner_of ss pid) = statement_key (winner_of ts pid)"
    using a b by (meson antisym)
  then show ?thesis using u a b by metis
qed

lemma authoritative_cong:
  assumes "mset ss = mset ts"
    and u: "\<And>s t. s \<in> set ss \<Longrightarrow> t \<in> set ss \<Longrightarrow> approver_of s = approver_of t \<Longrightarrow> statement_key s = statement_key t \<Longrightarrow> s = t"
  shows "mset (authoritative ss) = mset (authoritative ts)"
proof -
  have set: "set ss = set ts" using assms(1) by (rule mset_eq_setD)
  have "mset (first_occurrences (map approver_of ss)) = mset (first_occurrences (map approver_of ts))"
    by (subst set_eq_iff_mset_eq_distinct [symmetric]) (simp_all add: set)
  moreover have "map (winner_of ss) (first_occurrences (map approver_of ts)) = map (winner_of ts) (first_occurrences (map approver_of ts))"
  proof (rule map_cong [OF refl])
    fix pid
    assume "pid \<in> set (first_occurrences (map approver_of ts))"
    then have "pid \<in> approver_of ` set ss" by (simp add: set)
    then show "winner_of ss pid = winner_of ts pid" using winner_of_cong [OF assms(1), of pid] u by blast
  qed
  ultimately show ?thesis
    unfolding authoritative_eq by (simp only: mset_map flip: map_map) (simp only: flip: mset_map)
qed

lemma approving_cong:
  assumes "mset (authoritative ss) = mset (authoritative ts)"
  shows "approving_of ss = approving_of ts"
proof (rule sort_key_inj_key_eq)
  show "mset (filter (\<lambda>s. st_decision s = Approve) (authoritative ss)) = mset (approving_of ts)"
    using assms by simp
  have "inj_on approver_of (set (authoritative ss))"
    using authoritative_props(2) by (metis distinct_map)
  then show "inj_on approver_of (set (filter (\<lambda>s. st_decision s = Approve) (authoritative ss)))"
    by (auto simp: inj_on_def)
qed simp

text \<open>The order in which statements are submitted does not matter: as long as no approver has two
  different valid statements with the same identifier and time of signing, a reordering changes
  neither whether the quorum is met nor who approved, nor the hash of the approval set.\<close>

theorem quorum_order_independent:
  assumes "mset statements = mset statements'"
    and "\<And>s t. s \<in> set statements \<Longrightarrow> t \<in> set statements \<Longrightarrow> approver_of s = approver_of t \<Longrightarrow>
      statement_key s = statement_key t \<Longrightarrow> s = t"
    and "evaluate_quorum cr statements policy mh ph kr proposer subject now = Inr q"
    and "evaluate_quorum cr statements' policy mh ph kr proposer subject now = Inr q'"
  shows "q_satisfied q = q_satisfied q' \<and> q_approving_principal_ids q = q_approving_principal_ids q'
    \<and> q_approval_set_hash q = q_approval_set_hash q'"
proof -
  let ?c = "counts cr kr now mh ph policy proposer subject"
  have m: "mset (authoritative (filter ?c statements)) = mset (authoritative (filter ?c statements'))"
    by (rule authoritative_cong) (use assms(1,2) in auto)
  show ?thesis
    using evaluate_quorum_InrD [OF assms(3)] evaluate_quorum_InrD [OF assms(4)]
    by (simp add: approving_cong [OF m] mset_eq_setD [OF m])
qed


text \<open>Rules that went through a bundle are the rules that came in, with the roles sorted.\<close>

lemma as_strs_map [simp]: "as_strs (map JStr xs) = Inr xs"
  by (induction xs) auto

lemma approval_policy_payload_roundtrip:
  assumes "approval_policy_validate p = Inr ()"
  shows "approval_policy_from_bundle_payload (approval_policy_dict p)
    = Inr (p\<lparr>aq_required_roles := sort (aq_required_roles p)\<rparr>)"
proof -
  have "approval_policy_validate (p\<lparr>aq_required_roles := sort (aq_required_roles p)\<rparr>) = Inr ()"
    using assms by (simp add: approval_policy_validate_def is_ok_unit [symmetric] ball_Un image_iff)
  then show ?thesis
    by (simp add: approval_policy_from_bundle_payload_def approval_policy_dict_def as_str_def as_int_def as_bool_def
        as_tuple_str_def thenR_def) (cases p, simp)
qed

text \<open>A statement that was signed counts, for its manifest and policy, until it expires.\<close>

lemma signed_statement_verifies:
  assumes "crypto_ok cr" "sign_approval_statement cr now0 key args = Inr s"
    "kr (sk_key_id key) = Some (sk_verification_key cr key)" "now \<le> st_expires_at args"
  shows "verify_approval_statement cr s kr now = Inr () \<and> principal_type (st_approver s) \<noteq> AGENT"
proof -
  have s: "st_signature s = Some (sk_sign cr key (statement_hash cr s))" "st_key_id s = sk_key_id key"
    "st_algorithm s = ''ed25519''" "st_schema_version s = ''1.0''" "st_expires_at s = st_expires_at args"
    "principal_type (st_approver s) \<noteq> AGENT"
    using assms(2) by (auto simp: sign_approval_statement_def Let_def result_simps is_ok_unit [symmetric] statement_validate_def
        statement_hash_def statement_payload_def CURRENT_SCHEMA_VERSION_def split: if_splits)
  have "assert_supported_schema_version ''1.0'' = Inr ()" by code_simp
  then show ?thesis
    using s assms(3,4) vk_verify_sign [OF assms(1)]
    by (simp add: verify_approval_statement_def verify_approval_statement_signature_def thenR_def
        verify_approval_statement_time_window_def assert_supported_algorithm_def SUPPORTED_ALGORITHMS_def raise_if_def
        kr_verify_def kr_get_def)
qed

section \<open>Examples\<close>

definition demo_statement :: "string \<Rightarrow> string \<Rightarrow> decision \<Rightarrow> approval_statement" where
  "demo_statement i who d = \<lparr>st_schema_version = ''1.0'', st_statement_id = i, st_manifest_hash = ''m'',
     st_approval_policy_bundle_hash = ''p'', st_approver = toy_principal who HUMAN, st_role = None, st_decision = d,
     st_reason = None, st_signed_at = 1, st_expires_at = 100, st_nonce = ''n'', st_key_id = ''key-1'',
     st_algorithm = ''ed25519'', st_signature = None\<rparr>"

definition demo_signed :: "string \<Rightarrow> string \<Rightarrow> decision \<Rightarrow> approval_statement" where
  "demo_signed i who d = (let u = demo_statement i who d in u\<lparr>st_signature := Some (sk_sign toy_crypto toy_key (statement_hash toy_crypto u))\<rparr>)"

lemma demo_counts:
  assumes "who \<noteq> ''agent-1''"
  shows "counts toy_crypto toy_keyring 50 ''m'' ''p'' DEFAULT_APPROVAL_POLICY (toy_principal ''agent-1'' AGENT)
    (toy_principal ''agent-1'' AGENT) (demo_signed i who d)"
proof -
  let ?s = "demo_signed i who d"
  have s: "st_signature ?s = Some (sk_sign toy_crypto toy_key (statement_hash toy_crypto ?s))" "st_key_id ?s = ''key-1''"
    "st_algorithm ?s = ''ed25519''" "st_schema_version ?s = ''1.0''" "st_expires_at ?s = 100"
    by (simp_all add: demo_signed_def Let_def demo_statement_def statement_hash_def statement_payload_def)
  have "assert_supported_schema_version ''1.0'' = Inr ()" by code_simp
  then have "verify_approval_statement toy_crypto ?s toy_keyring 50 = Inr ()"
    using s toy_keyring_key vk_verify_sign [OF toy_crypto_ok]
    by (simp add: verify_approval_statement_def verify_approval_statement_signature_def thenR_def
        verify_approval_statement_time_window_def assert_supported_algorithm_def SUPPORTED_ALGORITHMS_def raise_if_def
        kr_verify_def kr_get_def)
  then show ?thesis
    using assms by (simp add: counts_def approver_of_def) (simp add: demo_signed_def demo_statement_def toy_principal_def Let_def)
qed

definition demo_quorum :: "approval_statement list \<Rightarrow> quorum_result res" where
  "demo_quorum ss = evaluate_quorum toy_crypto ss DEFAULT_APPROVAL_POLICY ''m'' ''p'' toy_keyring
     (toy_principal ''agent-1'' AGENT) (toy_principal ''agent-1'' AGENT) 50"

lemma demo_quorum_Cons:
  assumes "list_all (\<lambda>s. \<exists>i who d. s = demo_signed i who d \<and> who \<noteq> ''agent-1'') ss" "length ss \<le> 100"
  shows "\<exists>q. demo_quorum ss = Inr q \<and> (q_satisfied q \<longleftrightarrow> length (approving_of ss) \<ge> 1
    \<and> (\<forall>s \<in> set (authoritative ss). st_decision s \<noteq> Dissent))"
proof -
  have c: "filter (counts toy_crypto toy_keyring 50 ''m'' ''p'' DEFAULT_APPROVAL_POLICY (toy_principal ''agent-1'' AGENT)
      (toy_principal ''agent-1'' AGENT)) ss = ss"
    using assms(1) demo_counts by (auto simp: filter_id_conv list_all_iff)
  have "\<not> int (length ss) > aq_max_statements_considered DEFAULT_APPROVAL_POLICY"
    using assms(2) by (simp add: DEFAULT_APPROVAL_POLICY_def)
  then have "is_ok (demo_quorum ss)"
    by (simp add: demo_quorum_def evaluate_quorum_def triage_eq Let_def split_beta)
  then obtain q where q: "demo_quorum ss = Inr q" by (auto simp: is_ok_iff)
  show ?thesis
    using q evaluate_quorum_InrD(3) [OF q [unfolded demo_quorum_def], unfolded c]
    by (auto simp: DEFAULT_APPROVAL_POLICY_def cooling_off_pending_def)
qed

lemma demo_approver [simp]: "approver_of (demo_signed i who d) = who" "st_decision (demo_signed i who d) = d"
  "statement_key (demo_signed i who d) = (1, i)"
  by (simp_all add: approver_of_def demo_signed_def demo_statement_def toy_principal_def Let_def statement_key_def)

lemma demo_quorum_met:
  "\<exists>q. demo_quorum [demo_signed ''1'' ''alice'' Approve, demo_signed ''2'' ''bob'' Approve] = Inr q \<and> q_satisfied q"
  using demo_quorum_Cons [of "[demo_signed ''1'' ''alice'' Approve, demo_signed ''2'' ''bob'' Approve]"]
  by (force simp: authoritative_eq winner_of_def group_of_def)

theorem quorum_backed_by_approvals_witness:
  "\<exists>q A. demo_quorum [demo_signed ''1'' ''alice'' Approve, demo_signed ''2'' ''bob'' Approve] = Inr q
     \<and> map approver_of A = q_approving_principal_ids q \<and> length A \<ge> 1"
proof -
  obtain q where q: "demo_quorum [demo_signed ''1'' ''alice'' Approve, demo_signed ''2'' ''bob'' Approve] = Inr q" "q_satisfied q"
    using demo_quorum_met by blast
  obtain A where "map approver_of A = q_approving_principal_ids q" "int (length A) \<ge> 1"
    using quorum_backed_by_approvals [OF q(1) [unfolded demo_quorum_def] q(2)] by (auto simp: DEFAULT_APPROVAL_POLICY_def)
  then show ?thesis using q by (intro exI [of _ q] exI [of _ A]) auto
qed

theorem quorum_order_independent_witness:
  "\<exists>q q'. demo_quorum [demo_signed ''1'' ''alice'' Approve, demo_signed ''2'' ''bob'' Approve] = Inr q
     \<and> demo_quorum [demo_signed ''2'' ''bob'' Approve, demo_signed ''1'' ''alice'' Approve] = Inr q'
     \<and> q_satisfied q \<and> q_satisfied q'"
proof -
  obtain q where q: "demo_quorum [demo_signed ''1'' ''alice'' Approve, demo_signed ''2'' ''bob'' Approve] = Inr q" "q_satisfied q"
    using demo_quorum_met by blast
  obtain q' where q': "demo_quorum [demo_signed ''2'' ''bob'' Approve, demo_signed ''1'' ''alice'' Approve] = Inr q'"
    using demo_quorum_Cons [of "[demo_signed ''2'' ''bob'' Approve, demo_signed ''1'' ''alice'' Approve]"] by force
  have "q_satisfied q = q_satisfied q' \<and> q_approving_principal_ids q = q_approving_principal_ids q'
    \<and> q_approval_set_hash q = q_approval_set_hash q'"
    by (rule quorum_order_independent [OF _ _ q(1) [unfolded demo_quorum_def] q' [unfolded demo_quorum_def]]) auto
  then show ?thesis using q q' by blast
qed

text \<open>The exception is real: two statements of one approver with the same identifier and time, one
  approving and one dissenting, meet the quorum or not depending on which comes first.\<close>

lemma quorum_tie_order_dependent:
  "\<exists>q q'. demo_quorum [demo_signed ''1'' ''alice'' Approve, demo_signed ''1'' ''alice'' Dissent] = Inr q \<and> q_satisfied q
     \<and> demo_quorum [demo_signed ''1'' ''alice'' Dissent, demo_signed ''1'' ''alice'' Approve] = Inr q' \<and> \<not> q_satisfied q'"
proof -
  have "\<exists>q. demo_quorum [demo_signed ''1'' ''alice'' Approve, demo_signed ''1'' ''alice'' Dissent] = Inr q \<and> q_satisfied q"
    using demo_quorum_Cons [of "[demo_signed ''1'' ''alice'' Approve, demo_signed ''1'' ''alice'' Dissent]"]
    by (force simp: authoritative_eq winner_of_def group_of_def)
  moreover have "\<exists>q'. demo_quorum [demo_signed ''1'' ''alice'' Dissent, demo_signed ''1'' ''alice'' Approve] = Inr q' \<and> \<not> q_satisfied q'"
    using demo_quorum_Cons [of "[demo_signed ''1'' ''alice'' Dissent, demo_signed ''1'' ''alice'' Approve]"]
    by (force simp: authoritative_eq winner_of_def group_of_def)
  ultimately show ?thesis by blast
qed

end
