(* ===== verification/Duty.thy ===== *)
theory Duty
  imports Approval
begin

text \<open>
  Separation of duties (\<^verbatim>\<open>duty/\<close>): who held which protocol role for a manifest, the forbidden
  pairs of roles as a versioned policy with its bundle payload, and the check of an assignment
  against a policy.
\<close>

section \<open>Roles\<close>

datatype protocol_role =
  PROPOSER | RESOLVER | ASSESSOR | SEALER | APPROVER | EXECUTOR | VERIFIER | WITNESS | COMPENSATOR | AUDITOR

primrec role_value :: "protocol_role \<Rightarrow> string" where
  "role_value PROPOSER = ''proposer''"
| "role_value RESOLVER = ''resolver''"
| "role_value ASSESSOR = ''assessor''"
| "role_value SEALER = ''sealer''"
| "role_value APPROVER = ''approver''"
| "role_value EXECUTOR = ''executor''"
| "role_value VERIFIER = ''verifier''"
| "role_value WITNESS = ''witness''"
| "role_value COMPENSATOR = ''compensator''"
| "role_value AUDITOR = ''auditor''"

definition valid_roles :: "string list" where
  "valid_roles = map role_value
     [PROPOSER, RESOLVER, ASSESSOR, SEALER, APPROVER, EXECUTOR, VERIFIER, WITNESS, COMPENSATOR, AUDITOR]"

definition MAX_ROLE_ASSIGNMENTS :: nat where
  "MAX_ROLE_ASSIGNMENTS = 256"

record role_assignment =
  ra_manifest_hash :: string
  ra_assignments :: "(string \<times> string) list"

text \<open>\<^verbatim>\<open>__post_init__\<close>, with its loop over the entries.\<close>

fun assignment_entries_check :: "(string \<times> string) list \<Rightarrow> (string \<times> string) list \<Rightarrow> unit res" where
  "assignment_entries_check seen [] = Inr ()"
| "assignment_entries_check seen ((role, pid) # rest) =
     (if role \<notin> set valid_roles then Inl (SeparationOfDutyE RoleAssignmentError)
      else if pid = [] \<or> length pid > 256 then Inl (SeparationOfDutyE RoleAssignmentError)
      else if (role, pid) \<in> set seen then Inl (SeparationOfDutyE RoleAssignmentError)
      else assignment_entries_check ((role, pid) # seen) rest)"

definition role_assignment_new :: "string \<Rightarrow> (string \<times> string) list \<Rightarrow> role_assignment res" where
  "role_assignment_new mh entries =
     thenR (allR [raise_if (\<not> digest_shape mh) (SeparationOfDutyE RoleAssignmentError),
       raise_if (length entries > MAX_ROLE_ASSIGNMENTS) (SeparationOfDutyE RoleAssignmentError),
       assignment_entries_check [] entries])
     (Inr \<lparr>ra_manifest_hash = mh, ra_assignments = entries\<rparr>)"

definition principals_for :: "role_assignment \<Rightarrow> string \<Rightarrow> string list" where
  "principals_for a role = sorted_set (map snd (filter (\<lambda>(r, _). r = role) (ra_assignments a)))"

definition merge :: "role_assignment \<Rightarrow> role_assignment option \<Rightarrow> role_assignment res" where
  "merge a other = (case other of
      None \<Rightarrow> Inr a
    | Some b \<Rightarrow> if ra_manifest_hash b \<noteq> ra_manifest_hash a then Inl (SeparationOfDutyE RoleAssignmentError)
        else role_assignment_new (ra_manifest_hash a) (sort (remdups (ra_assignments a @ ra_assignments b))))"

definition as_role_participation :: "role_assignment \<Rightarrow> (string \<times> string) list" where
  "as_role_participation a =
     map (\<lambda>role. (role, join '','' (principals_for a role))) (sorted_set (map fst (ra_assignments a)))"

definition base_role_assignment :: "string \<Rightarrow> string \<Rightarrow> string \<Rightarrow> string list \<Rightarrow> role_assignment res" where
  "base_role_assignment mh proposer_id executor_id approver_ids =
     role_assignment_new mh (sort (remdups
       ([(role_value PROPOSER, proposer_id), (role_value EXECUTOR, executor_id)]
        @ map (\<lambda>i. (role_value APPROVER, i)) approver_ids)))"

section \<open>The policy\<close>

definition POLICY_TYPE_SEPARATION :: string where
  "POLICY_TYPE_SEPARATION = ''separation.v1''"

definition MAX_FORBIDDEN_ROLE_PAIRS :: nat where
  "MAX_FORBIDDEN_ROLE_PAIRS = 64"

definition canonical_pair :: "string \<times> string \<Rightarrow> string \<times> string" where
  "canonical_pair p = (case p of (a, b) \<Rightarrow> if a \<le> b then (a, b) else (b, a))"

record separation_policy =
  sd_policy_id :: string
  sd_policy_version :: string
  sd_forbidden_role_pairs :: "(string \<times> string) list"

definition DEFAULT_FORBIDDEN_PAIRS :: "(string \<times> string) list" where
  "DEFAULT_FORBIDDEN_PAIRS =
     [(role_value SEALER, role_value APPROVER), (role_value PROPOSER, role_value APPROVER),
      (role_value APPROVER, role_value EXECUTOR)]"

fun forbidden_pairs_check :: "(string \<times> string) list \<Rightarrow> (string \<times> string) list \<Rightarrow> unit res" where
  "forbidden_pairs_check seen [] = Inr ()"
| "forbidden_pairs_check seen (p # rest) =
     (if fst p \<notin> set valid_roles \<or> snd p \<notin> set valid_roles then Inl ValueError
      else if fst p = snd p then Inl ValueError
      else if canonical_pair p \<in> set seen then Inl ValueError
      else forbidden_pairs_check (canonical_pair p # seen) rest)"

definition separation_policy_validate :: "separation_policy \<Rightarrow> unit res" where
  "separation_policy_validate p = allR
     [raise_if (sd_policy_id p = [] \<or> length (sd_policy_id p) > 128) ValueError,
      raise_if (CHR ''.'' \<notin> set (sd_policy_version p)) ValueError,
      raise_if (length (sd_forbidden_role_pairs p) > MAX_FORBIDDEN_ROLE_PAIRS) ValueError,
      forbidden_pairs_check [] (sd_forbidden_role_pairs p)]"

definition separation_policy_dict :: "separation_policy \<Rightarrow> (string \<times> json) list" where
  "separation_policy_dict p =
     [(''policy_id'', JStr (sd_policy_id p)),
      (''policy_version'', JStr (sd_policy_version p)),
      (''forbidden_role_pairs'', JList (map (\<lambda>(a, b). JList [JStr a, JStr b])
         (sort (map canonical_pair (sd_forbidden_role_pairs p)))))]"

definition build_separation_of_duty_policy_bundle :: "separation_policy \<Rightarrow> string \<Rightarrow> string \<Rightarrow> principal \<Rightarrow> time
    \<Rightarrow> time \<Rightarrow> time option \<Rightarrow> string option \<Rightarrow> policy_bundle res" where
  "build_separation_of_duty_policy_bundle p bid version issuer created from until tenant =
     (if principal_type issuer = AGENT then Inl (PolicyBundleE PolicyBundleIssuerNotAuthorizedError)
      else let b = \<lparr>pb_schema_version = ''1.0'', pb_bundle_id = bid, pb_bundle_version = version,
             pb_policy_type = POLICY_TYPE_SEPARATION, pb_payload = separation_policy_dict p, pb_issuer = issuer,
             pb_tenant_id = tenant, pb_created_at = created, pb_effective_from = from, pb_effective_until = until\<rparr>
           in thenR (bundle_validate b) (Inr b))"

fun as_pairs :: "json list \<Rightarrow> (string \<times> string) list res" where
  "as_pairs [] = Inr []"
| "as_pairs (JList [JStr a, JStr b] # xs) = bindR (as_pairs xs) (\<lambda>ps. Inr ((a, b) # ps))"
| "as_pairs (_ # xs) = Inl ValueError"

definition as_role_pairs :: "(string \<times> json) list \<Rightarrow> string \<Rightarrow> (string \<times> string) list res" where
  "as_role_pairs payload key = (case map_of payload key of Some (JList xs) \<Rightarrow> as_pairs xs | _ \<Rightarrow> Inl ValueError)"

definition separation_of_duty_policy_from_bundle_payload :: "(string \<times> json) list \<Rightarrow> separation_policy res" where
  "separation_of_duty_policy_from_bundle_payload payload =
     bindR (as_str payload ''policy_id'') (\<lambda>pid.
     bindR (as_str payload ''policy_version'') (\<lambda>version.
     bindR (as_role_pairs payload ''forbidden_role_pairs'') (\<lambda>pairs.
       let p = \<lparr>sd_policy_id = pid, sd_policy_version = version, sd_forbidden_role_pairs = pairs\<rparr>
       in thenR (separation_policy_validate p) (Inr p))))"

section \<open>The check\<close>

record sod_violation =
  v_role_a :: string
  v_role_b :: string
  v_principal_id :: string

text \<open>\<^verbatim>\<open>ProtocolRole(value)\<close> raises \<^verbatim>\<open>ValueError\<close> for an unknown value.\<close>

definition pair_violations :: "role_assignment \<Rightarrow> string \<times> string \<Rightarrow> sod_violation list res" where
  "pair_violations a p =
     (if fst p \<notin> set valid_roles \<or> snd p \<notin> set valid_roles then Inl ValueError
      else let as = principals_for a (fst p); bs = principals_for a (snd p)
           in Inr (map (\<lambda>i. \<lparr>v_role_a = fst p, v_role_b = snd p, v_principal_id = i\<rparr>)
                (filter (\<lambda>i. i \<in> set bs) as)))"

record sod_result =
  sd_satisfied :: bool
  sd_violations :: "sod_violation list"

definition check_separation_of_duty :: "role_assignment \<Rightarrow> separation_policy \<Rightarrow> sod_result res" where
  "check_separation_of_duty a policy =
     bindR (seqR (map (pair_violations a) (sd_forbidden_role_pairs policy))) (\<lambda>vs.
       Inr \<lparr>sd_satisfied = (concat vs = []), sd_violations = concat vs\<rparr>)"

section \<open>Facts\<close>

lemma assignment_entries_check_iff:
  "assignment_entries_check seen es = Inr () \<longleftrightarrow>
     (\<forall>(r, p) \<in> set es. r \<in> set valid_roles \<and> p \<noteq> [] \<and> length p \<le> 256) \<and> distinct es \<and> set es \<inter> set seen = {}"
  by (induction seen es rule: assignment_entries_check.induct) auto

lemma role_assignment_new_iff:
  "role_assignment_new mh es = Inr a \<longleftrightarrow>
     digest_shape mh \<and> length es \<le> 256 \<and> (\<forall>(r, p) \<in> set es. r \<in> set valid_roles \<and> p \<noteq> [] \<and> length p \<le> 256)
     \<and> distinct es \<and> a = \<lparr>ra_manifest_hash = mh, ra_assignments = es\<rparr>"
  using assignment_entries_check_iff [of "[]" es]
  by (auto simp: role_assignment_new_def result_simps is_ok_unit MAX_ROLE_ASSIGNMENTS_def)

lemma set_principals_for: "i \<in> set (principals_for a r) \<longleftrightarrow> (r, i) \<in> set (ra_assignments a)"
  by (force simp: principals_for_def)

lemma seqR_map_Inr [simp]: "seqR (map Inr xs) = Inr xs"
  by (induction xs) auto

lemma forbidden_pairs_valid:
  "forbidden_pairs_check seen ps = Inr () \<Longrightarrow> \<forall>p \<in> set ps. fst p \<in> set valid_roles \<and> snd p \<in> set valid_roles"
proof (induction ps arbitrary: seen)
  case (Cons p rest)
  have "fst p \<in> set valid_roles \<and> snd p \<in> set valid_roles"
    using Cons.prems by (simp split: if_splits)
  moreover have "forbidden_pairs_check (canonical_pair p # seen) rest = Inr ()"
    using Cons.prems by (simp split: if_splits)
  ultimately show ?case using Cons.IH [of "canonical_pair p # seen"] by simp
qed simp

lemma check_sod_result:
  assumes "separation_policy_validate policy = Inr ()"
  shows "\<exists>r. check_separation_of_duty a policy = Inr r
    \<and> set (sd_violations r) = {\<lparr>v_role_a = x, v_role_b = y, v_principal_id = i\<rparr> |x y i.
         (x, y) \<in> set (sd_forbidden_role_pairs policy) \<and> (x, i) \<in> set (ra_assignments a) \<and> (y, i) \<in> set (ra_assignments a)}
    \<and> (sd_satisfied r \<longleftrightarrow> sd_violations r = [])"
proof -
  let ?v = "\<lambda>p. map (\<lambda>i. \<lparr>v_role_a = fst p, v_role_b = snd p, v_principal_id = i\<rparr>)
    (filter (\<lambda>i. i \<in> set (principals_for a (snd p))) (principals_for a (fst p)))"
  have "forbidden_pairs_check [] (sd_forbidden_role_pairs policy) = Inr ()"
    using assms by (auto simp: separation_policy_validate_def result_simps is_ok_unit)
  then have "map (pair_violations a) (sd_forbidden_role_pairs policy) = map Inr (map ?v (sd_forbidden_role_pairs policy))"
    using forbidden_pairs_valid by (auto simp: pair_violations_def Let_def)
  then have "check_separation_of_duty a policy
      = Inr \<lparr>sd_satisfied = (concat (map ?v (sd_forbidden_role_pairs policy)) = []),
             sd_violations = concat (map ?v (sd_forbidden_role_pairs policy))\<rparr>"
    unfolding check_separation_of_duty_def by (simp only: seqR_map_Inr bindR.simps)
  moreover have "set (concat (map ?v (sd_forbidden_role_pairs policy))) = {\<lparr>v_role_a = x, v_role_b = y, v_principal_id = i\<rparr> |x y i.
         (x, y) \<in> set (sd_forbidden_role_pairs policy) \<and> (x, i) \<in> set (ra_assignments a) \<and> (y, i) \<in> set (ra_assignments a)}"
    by (force simp: set_principals_for)
  ultimately show ?thesis by auto
qed

text \<open>Separation of duty is decided exactly: under a valid policy the check never raises, reports
  one violation for every principal and every forbidden pair of roles it holds both of, and is
  satisfied when no principal holds both roles of a forbidden pair.\<close>

theorem separation_of_duty_exact:
  assumes "separation_policy_validate policy = Inr ()"
  shows "\<exists>r. check_separation_of_duty a policy = Inr r \<and>
    (sd_satisfied r \<longleftrightarrow> (\<forall>(x, y) \<in> set (sd_forbidden_role_pairs policy). \<forall>i.
        \<not> ((x, i) \<in> set (ra_assignments a) \<and> (y, i) \<in> set (ra_assignments a)))) \<and>
    set (sd_violations r) = {\<lparr>v_role_a = x, v_role_b = y, v_principal_id = i\<rparr> |x y i.
      (x, y) \<in> set (sd_forbidden_role_pairs policy) \<and> (x, i) \<in> set (ra_assignments a) \<and> (y, i) \<in> set (ra_assignments a)}"
proof -
  obtain r where r: "check_separation_of_duty a policy = Inr r" "sd_satisfied r \<longleftrightarrow> sd_violations r = []"
    "set (sd_violations r) = {\<lparr>v_role_a = x, v_role_b = y, v_principal_id = i\<rparr> |x y i.
      (x, y) \<in> set (sd_forbidden_role_pairs policy) \<and> (x, i) \<in> set (ra_assignments a) \<and> (y, i) \<in> set (ra_assignments a)}"
    using check_sod_result [OF assms] by blast
  moreover have "sd_violations r = [] \<longleftrightarrow> (\<forall>(x, y) \<in> set (sd_forbidden_role_pairs policy). \<forall>i.
        \<not> ((x, i) \<in> set (ra_assignments a) \<and> (y, i) \<in> set (ra_assignments a)))"
    using r(3) by (subst set_empty [symmetric], subst r(3)) blast
  ultimately show ?thesis by blast
qed

definition default_separation_policy :: separation_policy where
  "default_separation_policy = \<lparr>sd_policy_id = ''default'', sd_policy_version = ''1.0'',
     sd_forbidden_role_pairs = DEFAULT_FORBIDDEN_PAIRS\<rparr>"

lemma default_separation_policy_valid: "separation_policy_validate default_separation_policy = Inr ()"
  by code_simp

theorem separation_of_duty_exact_witness:
  "\<exists>r. check_separation_of_duty \<lparr>ra_manifest_hash = ''h'', ra_assignments = [(''approver'', ''alice''), (''sealer'', ''alice'')]\<rparr>
       default_separation_policy = Inr r \<and> \<not> sd_satisfied r"
  using separation_of_duty_exact [OF default_separation_policy_valid,
      of "\<lparr>ra_manifest_hash = ''h'', ra_assignments = [(''approver'', ''alice''), (''sealer'', ''alice'')]\<rparr>"]
  by (force simp: default_separation_policy_def DEFAULT_FORBIDDEN_PAIRS_def)

text \<open>Merging keeps the facts of both sides.\<close>

lemma merge_facts:
  "merge a (Some b) = Inr c \<Longrightarrow> set (ra_assignments c) = set (ra_assignments a) \<union> set (ra_assignments b)
     \<and> ra_manifest_hash c = ra_manifest_hash a"
  by (auto simp: merge_def role_assignment_new_iff split: if_splits)

lemma base_assignment_facts:
  "base_role_assignment mh p e as = Inr a \<Longrightarrow> set (ra_assignments a) = {(''proposer'', p), (''executor'', e)}
     \<union> (\<lambda>i. (''approver'', i)) ` set as \<and> ra_manifest_hash a = mh"
  by (auto simp: base_role_assignment_def role_assignment_new_iff)

end
