(* ===== verification/Tenant.thy ===== *)
theory Tenant
  imports Domain
begin

text \<open>
  Tenants (\<^verbatim>\<open>tenant/org_id.py\<close>, \<^verbatim>\<open>tenant/model.py\<close>, \<^verbatim>\<open>tenant/registry.py\<close>, \<^verbatim>\<open>tenant/enforce.py\<close>):
  the canonical organization identifiers, which double as path segments, the registry of
  tenants, and the fail-closed comparison of tenant identifiers.

  Of Unicode's compatibility normalization only the code points U+0000 to U+00FF matter here:
  the ones it changes are listed in \<open>nfkc_changes\<close>, and there is no combining mark among them,
  so a string is normalized exactly when none of its characters is changed.
\<close>

section \<open>Organization identifiers\<close>

definition MAX_ORG_ID_LENGTH :: nat where
  "MAX_ORG_ID_LENGTH = 64"

definition RESERVED_WINDOWS_NAMES :: "string list" where
  "RESERVED_WINDOWS_NAMES = [''con'', ''prn'', ''aux'', ''nul'']
     @ map (\<lambda>i. ''com'' @ nat_str i) [1..<10] @ map (\<lambda>i. ''lpt'' @ nat_str i) [1..<10]"

definition nfkc_changes :: "char \<Rightarrow> bool" where
  "nfkc_changes c \<longleftrightarrow> (of_char c :: nat) \<in>
     {0xA0, 0xA8, 0xAA, 0xAF, 0xB2, 0xB3, 0xB4, 0xB5, 0xB8, 0xB9, 0xBA, 0xBC, 0xBD, 0xBE}"

definition org_char :: "char \<Rightarrow> bool" where
  "org_char c \<longleftrightarrow> is_lower_char c \<or> is_digit_char c"

text \<open>\<^verbatim>\<open>[a-z0-9](?:[a-z0-9-]{0,62}[a-z0-9])?\<close>\<close>

definition org_id_shape :: "string \<Rightarrow> bool" where
  "org_id_shape s \<longleftrightarrow> s \<noteq> [] \<and> org_char (hd s) \<and>
     (tl s = [] \<or> length (butlast (tl s)) \<le> 62 \<and> list_all (\<lambda>c. org_char c \<or> c = CHR ''-'') (butlast (tl s))
        \<and> org_char (last (tl s)))"

definition ORG_ID_RE_match :: "string \<Rightarrow> bool" where
  "ORG_ID_RE_match s \<longleftrightarrow> org_id_shape s \<or> org_id_shape (before_final_newline s)"

fun contains_dotdot :: "string \<Rightarrow> bool" where
  "contains_dotdot (a # b # s) = (a = CHR ''.'' \<and> b = CHR ''.'' \<or> contains_dotdot (b # s))"
| "contains_dotdot _ = False"

definition validate_canonical_org_id :: "string \<Rightarrow> string res" where
  "validate_canonical_org_id v =
     thenR (allR
       [raise_if (v = []) (TenantE InvalidOrganizationIdError),
        raise_if (length v > MAX_ORG_ID_LENGTH) (TenantE InvalidOrganizationIdError),
        raise_if (\<exists>c \<in> set v. (of_char c :: nat) < 0x20 \<or> c = CHR 0x7F) (TenantE InvalidOrganizationIdError),
        raise_if (\<exists>c \<in> set v. nfkc_changes c) (TenantE InvalidOrganizationIdError),
        raise_if (CHR ''/'' \<in> set v \<or> CHR 0x5C \<in> set v) (TenantE InvalidOrganizationIdError),
        raise_if (contains_dotdot v) (TenantE InvalidOrganizationIdError),
        raise_if (CHR '':'' \<in> set v) (TenantE InvalidOrganizationIdError),
        raise_if (\<not> ORG_ID_RE_match v) (TenantE InvalidOrganizationIdError),
        raise_if (v \<in> set RESERVED_WINDOWS_NAMES) (TenantE InvalidOrganizationIdError)])
     (Inr v)"

section \<open>Tenants and the registry\<close>

datatype tenant_status = TenantActive | TenantSuspended

record tenant =
  tn_tenant_id :: string
  tn_display_name :: string
  tn_status :: tenant_status
  tn_created_at :: "time option"

definition tenant_new :: "string \<Rightarrow> string \<Rightarrow> tenant_status \<Rightarrow> time option \<Rightarrow> tenant res" where
  "tenant_new i name status created =
     thenR (validate_canonical_org_id i)
     (thenR (raise_if (name = [] \<or> length name > 256) ValueError)
       (Inr \<lparr>tn_tenant_id = i, tn_display_name = name, tn_status = status, tn_created_at = created\<rparr>))"

type_synonym tenant_registry = "string \<Rightarrow> tenant option"

definition tr_register :: "tenant_registry \<Rightarrow> tenant \<Rightarrow> tenant_registry" where
  "tr_register reg t = reg(tn_tenant_id t := Some t)"

definition tr_get :: "tenant_registry \<Rightarrow> string \<Rightarrow> tenant option" where
  "tr_get reg i = reg i"

definition tr_require :: "tenant_registry \<Rightarrow> string \<Rightarrow> tenant res" where
  "tr_require reg i = (case tr_get reg i of
      None \<Rightarrow> Inl (TenantE UnknownTenantError)
    | Some t \<Rightarrow> if tn_status t \<noteq> TenantActive then Inl (TenantE TenantIsolationError) else Inr t)"

definition tr_suspend :: "tenant_registry \<Rightarrow> string \<Rightarrow> (tenant \<times> tenant_registry) res" where
  "tr_suspend reg i = (case reg i of
      None \<Rightarrow> Inl (TenantE UnknownTenantError)
    | Some t \<Rightarrow> bindR (tenant_new (tn_tenant_id t) (tn_display_name t) TenantSuspended (tn_created_at t))
        (\<lambda>u. Inr (u, reg(i := Some u))))"

section \<open>Enforcement\<close>

definition assert_tenant_match :: "string option \<Rightarrow> string option \<Rightarrow> unit res" where
  "assert_tenant_match expected presented =
     (if expected = None \<and> presented = None then Inr ()
      else if expected = None \<or> presented = None then Inl (TenantE TenantIsolationError)
      else raise_if (expected \<noteq> presented) (TenantE TenantIsolationError))"

definition bind_engine_and_policy_tenant :: "string option \<Rightarrow> string option \<Rightarrow> unit res" where
  "bind_engine_and_policy_tenant engine policy = assert_tenant_match engine policy"

lemma assert_tenant_match_iff: "assert_tenant_match a b = Inr () \<longleftrightarrow> a = b"
  by (cases a; cases b) (auto simp: assert_tenant_match_def raise_if_def)

section \<open>Facts\<close>

lemma org_char_codes:
  "org_char c \<or> c = CHR ''-'' \<Longrightarrow>
     0x20 \<le> (of_char c :: nat) \<and> (of_char c :: nat) < 0x7F \<and> c \<notin> {CHR ''/'', CHR 0x5C, CHR '':'', CHR ''.''}"
  by (auto simp: org_char_def is_lower_char_def is_digit_char_def less_eq_char_def)

lemma org_id_shape_chars: "org_id_shape s \<Longrightarrow> c \<in> set s \<Longrightarrow> org_char c \<or> c = CHR ''-''"
  unfolding org_id_shape_def list_all_iff
  by (cases s; cases "tl s" rule: rev_cases) auto

lemma no_dotdot: "CHR ''.'' \<notin> set s \<Longrightarrow> \<not> contains_dotdot s"
  by (induction s rule: contains_dotdot.induct) auto

lemma printable_not_nfkc: "(of_char c :: nat) < 0x7F \<Longrightarrow> \<not> nfkc_changes c"
  by (auto simp: nfkc_changes_def)

lemma printable_not_control:
  "0x20 \<le> (of_char c :: nat) \<Longrightarrow> (of_char c :: nat) < 0x7F \<Longrightarrow> \<not> ((of_char c :: nat) < 0x20 \<or> c = CHR 0x7F)"
  by auto

text \<open>An organization identifier is accepted exactly when it is 1 to 64 lower-case letters, digits
  and inner hyphens and no reserved device name, and it is returned unchanged; so an accepted
  identifier is a safe path segment: it contains no separator, no dot, no colon and no control
  character (the newline the pattern's \<^verbatim>\<open>$\<close> overlooks is caught by an earlier check).\<close>

theorem org_id_safe_path_segment:
  "validate_canonical_org_id v = (if org_id_shape v \<and> v \<notin> set RESERVED_WINDOWS_NAMES then Inr v
     else Inl (TenantE InvalidOrganizationIdError))
   \<and> (org_id_shape v \<longrightarrow> length v \<le> 64 \<and>
        (\<forall>c \<in> set v. c \<notin> {CHR ''/'', CHR 0x5C, CHR '':'', CHR ''.''} \<and> 0x20 \<le> (of_char c :: nat)))"
proof (intro conjI impI)
  have ok: "length v \<le> MAX_ORG_ID_LENGTH" "\<forall>c \<in> set v. 0x20 \<le> (of_char c :: nat) \<and> (of_char c :: nat) < 0x7F \<and> c \<notin> {CHR ''/'', CHR 0x5C, CHR '':'', CHR ''.''}"
    "v \<noteq> []" if s: "org_id_shape v"
  proof -
    show "v \<noteq> []" using s by (simp add: org_id_shape_def)
    have "length (butlast (tl v)) \<le> 62" using s by (cases v) (auto simp: org_id_shape_def)
    then show "length v \<le> MAX_ORG_ID_LENGTH" by (simp add: MAX_ORG_ID_LENGTH_def)
    show "\<forall>c \<in> set v. 0x20 \<le> (of_char c :: nat) \<and> (of_char c :: nat) < 0x7F \<and> c \<notin> {CHR ''/'', CHR 0x5C, CHR '':'', CHR ''.''}"
      using org_id_shape_chars [OF s] org_char_codes by blast
  qed
  have nl: "ORG_ID_RE_match v \<longleftrightarrow> org_id_shape v" if "\<not> (\<exists>c \<in> set v. (of_char c :: nat) < 0x20 \<or> c = CHR 0x7F)"
  proof -
    have "v = [] \<or> last v \<noteq> CHR 0x0A" using that last_in_set by fastforce
    then show ?thesis by (auto simp: ORG_ID_RE_match_def before_final_newline_def)
  qed
  show "validate_canonical_org_id v = (if org_id_shape v \<and> v \<notin> set RESERVED_WINDOWS_NAMES then Inr v
     else Inl (TenantE InvalidOrganizationIdError))"
  proof (cases "org_id_shape v")
    case True
    have "CHR ''.'' \<notin> set v" using ok(2) [OF True] by blast
    then have "\<not> contains_dotdot v" by (rule no_dotdot)
    moreover have "\<not> (\<exists>c \<in> set v. nfkc_changes c)"
    proof
      assume "\<exists>c \<in> set v. nfkc_changes c"
      then obtain c where "c \<in> set v" "nfkc_changes c" by (elim bexE)
      then show False using bspec [OF ok(2) [OF True]] printable_not_nfkc [of c] by iprover
    qed
    moreover have "\<not> (\<exists>c \<in> set v. (of_char c :: nat) < 0x20 \<or> c = CHR 0x7F)"
    proof
      assume "\<exists>c \<in> set v. (of_char c :: nat) < 0x20 \<or> c = CHR 0x7F"
      then obtain c where "c \<in> set v" "(of_char c :: nat) < 0x20 \<or> c = CHR 0x7F" by (elim bexE)
      then show False using bspec [OF ok(2) [OF True]] printable_not_control [of c] by iprover
    qed
    moreover have "CHR ''/'' \<notin> set v" "CHR 0x5C \<notin> set v" "CHR '':'' \<notin> set v"
      using ok(2) [OF True] by blast+
    ultimately show ?thesis
      using ok(1,3) [OF True] nl True by (simp add: validate_canonical_org_id_def thenR_def raise_if_def)
  next
    case False
    then show ?thesis using nl by (simp add: validate_canonical_org_id_def thenR_def raise_if_def)
  qed
  assume s: "org_id_shape v"
  show "length v \<le> 64" using ok(1) [OF s] by (simp add: MAX_ORG_ID_LENGTH_def)
  show "\<forall>c \<in> set v. c \<notin> {CHR ''/'', CHR 0x5C, CHR '':'', CHR ''.''} \<and> 0x20 \<le> (of_char c :: nat)"
    using ok(2) [OF s] by blast
qed

theorem org_id_safe_path_segment_witness:
  "validate_canonical_org_id ''acme-1'' = Inr ''acme-1'' \<and> length ''acme-1'' \<le> 64"
proof -
  have "org_id_shape ''acme-1''" "''acme-1'' \<notin> set RESERVED_WINDOWS_NAMES" by code_simp+
  then show ?thesis using org_id_safe_path_segment [of "''acme-1''"] by simp
qed

text \<open>A suspended tenant is refused from then on, until it is registered again.\<close>

lemma suspended_tenant_refused:
  "tr_suspend reg i = Inr (t, reg') \<Longrightarrow> tr_require reg' i = Inl (TenantE TenantIsolationError)"
  by (auto simp: tr_suspend_def tr_require_def tr_get_def tenant_new_def result_simps split: option.splits)

end
