(* ===== verification/Causal.thy ===== *)
theory Causal
  imports Sealing "HOL-Library.Multiset"
begin

text \<open>
  Causal effect graphs (\<^verbatim>\<open>causal/\<close>): signed links between manifest hashes, the validation
  of a graph as a bounded acyclic one by Kahn's algorithm, its roots and ancestors, and the
  deterministic topological order of \<^verbatim>\<open>saga/order.py\<close>, which is the same algorithm with
  a sorted queue.

  The edges are the list of pairs of the links, with multiplicities, as the source's
  adjacency lists have them.  Both loops are total functions: every iteration takes a node
  from the queue, and a node enters it only when its in-degree drops to zero.
\<close>

section \<open>Links\<close>

datatype causal_relation = Causes | DependsOn | Compensates | Verifies

primrec relation_value :: "causal_relation \<Rightarrow> string" where
  "relation_value Causes = ''causes''"
| "relation_value DependsOn = ''depends_on''"
| "relation_value Compensates = ''compensates''"
| "relation_value Verifies = ''verifies''"

record causal_link =
  cl_link_id :: string
  cl_parent_manifest_hash :: string
  cl_child_manifest_hash :: string
  cl_relation :: causal_relation
  cl_created_at :: time
  cl_key_id :: string
  cl_algorithm :: string
  cl_signature :: string

text \<open>The texts \<^verbatim>\<open>int(s, 16)\<close> accepts: surrounding white space, a sign, a prefix \<^verbatim>\<open>0x\<close> and
  single underscores between digits are allowed.\<close>

definition py_space :: "char \<Rightarrow> bool" where
  "py_space c \<longleftrightarrow> (of_char c :: nat) \<in> {9, 10, 11, 12, 13, 28, 29, 30, 31, 32, 0x85, 0xA0}"

definition py_strip :: "string \<Rightarrow> string" where
  "py_strip s = rev (dropWhile py_space (rev (dropWhile py_space s)))"

definition is_hex_char :: "char \<Rightarrow> bool" where
  "is_hex_char c \<longleftrightarrow> is_digit_char c \<or> CHR ''a'' \<le> c \<and> c \<le> CHR ''f'' \<or> CHR ''A'' \<le> c \<and> c \<le> CHR ''F''"

fun hex_digits :: "string \<Rightarrow> bool" where
  "hex_digits [] = False"
| "hex_digits [c] = is_hex_char c"
| "hex_digits (c # d # s) =
     (is_hex_char c \<and> (if d = CHR ''_'' then hex_digits s else hex_digits (d # s)))"

definition py_int16_accepts :: "string \<Rightarrow> bool" where
  "py_int16_accepts s =
     (let t = py_strip s;
          u = (case t of [] \<Rightarrow> [] | c # cs \<Rightarrow> if c = CHR ''+'' \<or> c = CHR ''-'' then cs else t);
          v = (if starts_with ''0x'' u \<or> starts_with ''0X'' u then drop 2 u else u);
          w = (if v \<noteq> u \<and> starts_with ''_'' v then tl v else v)
      in hex_digits w)"

definition link_hash_check :: "string \<Rightarrow> unit res" where
  "link_hash_check v = allR
     [raise_if (\<not> starts_with ''sha256:'' v \<or> length v \<noteq> 71) ValueError,
      raise_if (\<not> py_int16_accepts (drop 7 v)) ValueError]"

definition link_validate :: "causal_link \<Rightarrow> unit res" where
  "link_validate l = allR
     [link_hash_check (cl_parent_manifest_hash l), link_hash_check (cl_child_manifest_hash l),
      raise_if (cl_algorithm l \<noteq> ''ed25519'') ValueError]"

definition link_fields :: "crypto \<Rightarrow> causal_link \<Rightarrow> (string \<times> json) list" where
  "link_fields cr l =
     [(''link_id'', JStr (cl_link_id l)),
      (''parent_manifest_hash'', JStr (cl_parent_manifest_hash l)),
      (''child_manifest_hash'', JStr (cl_child_manifest_hash l)),
      (''relation'', JStr (relation_value (cl_relation l))),
      (''created_at'', JStr (cr_iso cr (cl_created_at l))),
      (''key_id'', JStr (cl_key_id l)),
      (''algorithm'', JStr (cl_algorithm l))]"

definition link_signing_payload :: "crypto \<Rightarrow> causal_link \<Rightarrow> json" where
  "link_signing_payload cr l = JObj (link_fields cr l)"

definition link_json :: "crypto \<Rightarrow> causal_link \<Rightarrow> json" where
  "link_json cr l = JObj (link_fields cr l @ [(''signature'', JStr (cl_signature l))])"

definition sign_causal_link :: "crypto \<Rightarrow> string \<Rightarrow> string \<Rightarrow> string \<Rightarrow> causal_relation \<Rightarrow> signing_key
    \<Rightarrow> time \<Rightarrow> causal_link res" where
  "sign_causal_link cr link_id parent child relation key created =
     (let u = \<lparr>cl_link_id = link_id, cl_parent_manifest_hash = parent, cl_child_manifest_hash = child,
               cl_relation = relation, cl_created_at = created, cl_key_id = sk_key_id key,
               cl_algorithm = ''ed25519'', cl_signature = ''pending''\<rparr>
      in thenR (link_validate u)
           (Inr (u\<lparr>cl_signature := sk_sign cr key (canonical_json_bytes (link_signing_payload cr u))\<rparr>)))"

definition verify_causal_link :: "crypto \<Rightarrow> causal_link \<Rightarrow> keyring \<Rightarrow> unit res" where
  "verify_causal_link cr l kr =
     kr_verify cr kr (cl_key_id l) (canonical_json_bytes (link_signing_payload cr l)) (cl_signature l)"

section \<open>Kahn's algorithm\<close>

type_synonym edges = "(string \<times> string) list"

definition children :: "edges \<Rightarrow> string \<Rightarrow> string list" where
  "children es n = map snd (filter (\<lambda>e. fst e = n) es)"

definition indegrees :: "edges \<Rightarrow> string \<Rightarrow> int" where
  "indegrees es n = int (length (filter (\<lambda>e. snd e = n) es))"

text \<open>\<open>srt\<close> is true for the saga order, which sorts the children and, after every insertion,
  the queue.\<close>

definition enqueue :: "bool \<Rightarrow> string list \<Rightarrow> string \<Rightarrow> string list" where
  "enqueue srt q c = (if srt then sort (q @ [c]) else q @ [c])"

definition relax :: "bool \<Rightarrow> (string \<Rightarrow> int) \<times> string list \<Rightarrow> string \<Rightarrow> (string \<Rightarrow> int) \<times> string list" where
  "relax srt dq c = (case dq of (d, q) \<Rightarrow>
     let v = d c - 1 in (d(c := v), if v = 0 then enqueue srt q c else q))"

definition node_children :: "bool \<Rightarrow> edges \<Rightarrow> string \<Rightarrow> string list" where
  "node_children srt es n = (if srt then sort (children es n) else children es n)"

text \<open>The weight of a state of the loop: the queue and the in-degrees still to be used up.\<close>

definition weight :: "edges \<Rightarrow> (string \<Rightarrow> int) \<times> string list \<Rightarrow> nat" where
  "weight es dq = length (snd dq) + sum (\<lambda>n. nat (fst dq n)) (set (map snd es))"

lemma weight_relax:
  assumes "c \<in> set (map snd es)"
  shows "weight es (relax srt dq c) \<le> weight es dq"
proof -
  obtain d q where dq: "dq = (d, q)" by (cases dq)
  let ?A = "set (map snd es)"
  have "sum (\<lambda>n. nat ((d(c := d c - 1)) n)) ?A = nat (d c - 1) + sum (\<lambda>n. nat ((d(c := d c - 1)) n)) (?A - {c})"
    using assms by (subst sum.remove [of _ c]) simp_all
  also have "sum (\<lambda>n. nat ((d(c := d c - 1)) n)) (?A - {c}) = sum (\<lambda>n. nat (d n)) (?A - {c})"
    by (rule sum.cong) auto
  finally have "sum (\<lambda>n. nat ((d(c := d c - 1)) n)) ?A + (nat (d c) - nat (d c - 1)) = sum (\<lambda>n. nat (d n)) ?A"
    using assms by (subst (2) sum.remove [of _ c]) simp_all
  then show ?thesis
    by (auto simp: weight_def relax_def dq Let_def enqueue_def)
qed

lemma weight_relaxes:
  "set cs \<subseteq> set (map snd es) \<Longrightarrow> weight es (foldl (relax srt) dq cs) \<le> weight es dq"
proof (induction cs arbitrary: dq)
  case (Cons c cs)
  have "weight es (foldl (relax srt) (relax srt dq c) cs) \<le> weight es (relax srt dq c)"
    using Cons by simp
  also have "\<dots> \<le> weight es dq"
    using Cons.prems by (intro weight_relax) simp
  finally show ?case by simp
qed simp

lemma set_node_children: "set (node_children srt es n) \<subseteq> set (map snd es)"
  by (auto simp: node_children_def children_def)

text \<open>The loop of \<open>topo_manifest_hashes\<close> (sorted), and the order in which \<open>_validate_dag\<close>
  visits the nodes (first in, first out).\<close>

function kahn_loop :: "bool \<Rightarrow> edges \<Rightarrow> (string \<Rightarrow> int) \<Rightarrow> string list \<Rightarrow> string list \<Rightarrow> string list" where
  "kahn_loop srt es d [] ordered = ordered"
| "kahn_loop srt es d (n # q) ordered =
     kahn_loop srt es (fst (foldl (relax srt) (d, q) (node_children srt es n)))
       (snd (foldl (relax srt) (d, q) (node_children srt es n))) (ordered @ [n])"
  by pat_completeness auto

termination
proof (relation "measure (\<lambda>(srt, es, d, q, ordered). weight es (d, q))", simp)
  fix srt es d n q ordered
  show "((srt, es, fst (foldl (relax srt) (d, q) (node_children srt es n)),
      snd (foldl (relax srt) (d, q) (node_children srt es n)), ordered @ [n]), srt, es, d, n # q, ordered)
    \<in> measure (\<lambda>(srt, es, d, q, ordered). weight es (d, q))"
    using weight_relaxes [OF set_node_children [of srt es n], of srt "(d, q)"] by (simp add: weight_def)
qed

text \<open>The loop of \<open>_validate_dag\<close>, with the depth of every node and the largest one.\<close>

fun relax_depth :: "int \<Rightarrow> (string \<Rightarrow> int) \<Rightarrow> string list \<Rightarrow> string \<Rightarrow> int" where
  "relax_depth depth dep [] = dep"
| "relax_depth depth dep (c # cs) = relax_depth depth (dep(c := max (dep c) (depth + 1))) cs"

function dag_loop :: "edges \<Rightarrow> (string \<Rightarrow> int) \<Rightarrow> string list \<Rightarrow> (string \<Rightarrow> int) \<Rightarrow> nat \<Rightarrow> int \<Rightarrow> nat \<times> int" where
  "dag_loop es d [] dep visited max_depth = (visited, max_depth)"
| "dag_loop es d (n # q) dep visited max_depth =
     dag_loop es (fst (foldl (relax False) (d, q) (children es n)))
       (snd (foldl (relax False) (d, q) (children es n)))
       (relax_depth (dep n) dep (children es n)) (visited + 1) (max max_depth (dep n))"
  by pat_completeness auto

termination
proof (relation "measure (\<lambda>(es, d, q, dep, visited, m). weight es (d, q))", simp)
  fix es d n q dep visited m
  show "((es, fst (foldl (relax False) (d, q) (children es n)), snd (foldl (relax False) (d, q) (children es n)),
      relax_depth (dep n) dep (children es n), visited + 1, max m (dep n)), es, d, n # q, dep, visited, m)
    \<in> measure (\<lambda>(es, d, q, dep, visited, m). weight es (d, q))"
    using weight_relaxes [OF set_node_children [of False es n], of False "(d, q)"]
    by (simp add: weight_def node_children_def)
qed

section \<open>The graph\<close>

definition MAX_GRAPH_NODES :: nat where "MAX_GRAPH_NODES = 256"

definition MAX_GRAPH_DEPTH :: int where "MAX_GRAPH_DEPTH = 32"

record causal_graph =
  cg_graph_id :: string
  cg_nodes :: "string list"
  cg_links :: "causal_link list"

definition graph_edges :: "causal_link list \<Rightarrow> edges" where
  "graph_edges ls = map (\<lambda>l. (cl_parent_manifest_hash l, cl_child_manifest_hash l)) ls"

definition nodes_validate :: "string list \<Rightarrow> unit res" where
  "nodes_validate ns = allR
     [raise_if (ns = []) ValueError, raise_if (length ns > MAX_GRAPH_NODES) ValueError,
      raise_if (\<not> distinct ns) ValueError]"

definition validate_dag :: "string list \<Rightarrow> causal_link list \<Rightarrow> unit res" where
  "validate_dag ns ls =
     (let es = graph_edges ls in
      if \<exists>(p, c) \<in> set es. p \<notin> set ns \<or> c \<notin> set ns then Inl ValueError
      else if \<exists>(p, c) \<in> set es. p = c then Inl ValueError
      else case dag_loop es (indegrees es) (filter (\<lambda>n. indegrees es n = 0) ns) (\<lambda>_. 1) 0 0 of
          (visited, max_depth) \<Rightarrow>
            if visited \<noteq> length ns then Inl ValueError
            else if max_depth > MAX_GRAPH_DEPTH then Inl ValueError
            else Inr ())"

definition build_causal_graph :: "string \<Rightarrow> string list \<Rightarrow> causal_link list \<Rightarrow> causal_graph res" where
  "build_causal_graph gid ns ls =
     thenR (nodes_validate ns)
     (thenR (raise_if (\<not> distinct (map cl_link_id ls)) ValueError)
      (let ns' = sort ns; ls' = sort_key cl_link_id ls
       in thenR (validate_dag ns' ls')
            (Inr \<lparr>cg_graph_id = gid, cg_nodes = ns', cg_links = ls'\<rparr>)))"

definition graph_json :: "crypto \<Rightarrow> causal_graph \<Rightarrow> json" where
  "graph_json cr g = JObj
     [(''graph_id'', JStr (cg_graph_id g)),
      (''node_manifest_hashes'', JList (map JStr (cg_nodes g))),
      (''links'', JList (map (link_json cr) (cg_links g)))]"

definition graph_hash :: "crypto \<Rightarrow> causal_graph \<Rightarrow> string" where
  "graph_hash cr g = canonical_hash (cr_sha256 cr) (graph_json cr g)"

definition graph_roots :: "causal_graph \<Rightarrow> string list" where
  "graph_roots g =
     (let cs = map cl_child_manifest_hash (cg_links g) in filter (\<lambda>n. n \<notin> set cs) (cg_nodes g))"

definition parents :: "edges \<Rightarrow> string \<Rightarrow> string list" where
  "parents es n = map fst (filter (\<lambda>e. snd e = n) es)"

function ancestor_loop :: "edges \<Rightarrow> string list \<Rightarrow> string list \<Rightarrow> string list" where
  "ancestor_loop es seen [] = seen"
| "ancestor_loop es seen (n # q) =
     (if n \<in> set seen then ancestor_loop es seen q
      else ancestor_loop es (n # seen) (q @ parents es n))"
  by pat_completeness auto

termination
proof (relation "measures [\<lambda>(es, seen, q). card (set (map fst es) \<union> set q - set seen),
      \<lambda>(es, seen, q). length q]", simp)
  fix es :: edges and seen :: "string list" and n :: string and q :: "string list"
  have f: "finite (set (map fst es) \<union> set q - set seen)" for es q and seen :: "string list"
    by simp
  show "((es, seen, q), es, seen, n # q) \<in> measures [\<lambda>(es, seen, q). card (set (map fst es) \<union> set q - set seen),
      \<lambda>(es, seen, q). length q]" if "n \<in> set seen"
  proof -
    have "set (map fst es) \<union> set q - set seen = set (map fst es) \<union> set (n # q) - set seen"
      using that by auto
    then show ?thesis by simp
  qed
  show "((es, n # seen, q @ parents es n), es, seen, n # q)
      \<in> measures [\<lambda>(es, seen, q). card (set (map fst es) \<union> set q - set seen), \<lambda>(es, seen, q). length q]"
    if "n \<notin> set seen"
  proof -
    have "set (parents es n) \<subseteq> set (map fst es)"
      by (auto simp: parents_def)
    then have "set (map fst es) \<union> set (q @ parents es n) - set (n # seen)
        \<subset> set (map fst es) \<union> set (n # q) - set seen"
      using that by auto
    from psubset_card_mono [OF f this] show ?thesis by simp
  qed
qed

definition ancestors_of :: "causal_graph \<Rightarrow> string \<Rightarrow> string list res" where
  "ancestors_of g h =
     (if h \<notin> set (cg_nodes g) then Inl CausalGraphError
      else let es = graph_edges (cg_links g) in Inr (sort (ancestor_loop es [] (parents es h))))"

definition graph_verify :: "crypto \<Rightarrow> causal_graph \<Rightarrow> keyring \<Rightarrow> unit res" where
  "graph_verify cr g kr = allR (map (\<lambda>l. verify_causal_link cr l kr) (cg_links g))"

section \<open>The saga order\<close>

definition MAX_SAGA_STEPS :: nat where "MAX_SAGA_STEPS = 256"

definition topo_manifest_hashes :: "causal_graph \<Rightarrow> string list res" where
  "topo_manifest_hashes g =
     (let ns = remdups (cg_nodes g); es = graph_edges (cg_links g) in
      if length ns > MAX_SAGA_STEPS then Inl (SagaE SagaOrderingError)
      else let ordered = kahn_loop True es (indegrees es) (sort (filter (\<lambda>n. indegrees es n = 0) ns)) []
           in if length ordered \<noteq> length ns then Inl (SagaE SagaOrderingError) else Inr ordered)"


section \<open>What Kahn's algorithm computes\<close>

definition edges_within :: "string list \<Rightarrow> edges \<Rightarrow> bool" where
  "edges_within ns es \<longleftrightarrow> set es \<subseteq> set ns \<times> set ns"

definition open_indegree :: "edges \<Rightarrow> string list \<Rightarrow> string \<Rightarrow> int" where
  "open_indegree es ordered n = int (length (filter (\<lambda>e. snd e = n \<and> fst e \<notin> set ordered) es))"

text \<open>A list of nodes in which every node comes after all its parents.\<close>

definition topological :: "edges \<Rightarrow> string list \<Rightarrow> bool" where
  "topological es xs \<longleftrightarrow> distinct xs \<and> (\<forall>us c vs p. xs = us @ c # vs \<and> (p, c) \<in> set es \<longrightarrow> p \<in> set us)"

text \<open>The invariant of the loop: the in-degrees count the parents not yet ordered, and the
  nodes ordered or queued are those without such a parent.\<close>

definition kahn_inv :: "string list \<Rightarrow> edges \<Rightarrow> (string \<Rightarrow> int) \<Rightarrow> string list \<Rightarrow> string list \<Rightarrow> bool" where
  "kahn_inv ns es d q ordered \<longleftrightarrow>
     d = open_indegree es ordered \<and> distinct (ordered @ q) \<and>
     set ordered \<union> set q = {n \<in> set ns. d n = 0} \<and> topological es ordered"

lemma relaxes:
  assumes "\<forall>c. int (count_list cs c) \<le> d c" "distinct q" "\<forall>c \<in> set q. d c = 0"
  shows "fst (foldl (relax srt) (d, q) cs) = (\<lambda>c. d c - int (count_list cs c))
    \<and> distinct (snd (foldl (relax srt) (d, q) cs))
    \<and> set (snd (foldl (relax srt) (d, q) cs)) = set q \<union> {c \<in> set cs. d c = int (count_list cs c)}"
  using assms
proof (induction cs arbitrary: d q)
  case (Cons c cs)
  let ?d = "d(c := d c - 1)" and ?q = "if d c = 1 then enqueue srt q c else q"
  have c: "d c \<ge> 1 + int (count_list cs c)" "c \<notin> set q"
    using Cons.prems(1) [rule_format, of c] Cons.prems(3) by force+
  have le: "\<forall>x. int (count_list cs x) \<le> ?d x"
    using Cons.prems(1) by (auto split: if_splits)
  have q: "distinct ?q" "\<forall>x \<in> set ?q. ?d x = 0" "set ?q = (if d c = 1 then insert c (set q) else set q)"
    using Cons.prems(2,3) c by (auto simp: enqueue_def)
  have step: "relax srt (d, q) c = (?d, ?q)"
    by (simp add: relax_def Let_def)
  have "set ?q \<union> {x \<in> set cs. ?d x = int (count_list cs x)}
      = set q \<union> {x \<in> set (c # cs). d x = int (count_list (c # cs) x)}"
    using c unfolding q(3) by (auto simp: count_list_0_iff)
  moreover have "(\<lambda>x. ?d x - int (count_list cs x)) = (\<lambda>x. d x - int (count_list (c # cs) x))"
    by auto
  ultimately show ?case
    using Cons.IH [OF le q(1,2)] unfolding foldl_Cons step by metis
qed simp

lemma count_children: "count_list (children es n) c = length (filter (\<lambda>e. fst e = n \<and> snd e = c) es)"
  by (induction es) (auto simp: children_def)

lemma count_node_children: "count_list (node_children srt es n) c = count_list (children es n) c"
  by (metis count_mset mset_sort node_children_def)

lemma open_indegree_extend:
  "n \<notin> set ordered \<Longrightarrow>
     open_indegree es (ordered @ [n]) c = open_indegree es ordered c - int (count_list (children es n) c)"
  unfolding open_indegree_def count_children by (induction es) auto

lemma open_indegree_0_iff: "open_indegree es ordered c = 0 \<longleftrightarrow> (\<forall>p. (p, c) \<in> set es \<longrightarrow> p \<in> set ordered)"
  by (auto simp: open_indegree_def filter_empty_conv)

lemma count_children_le:
  "n \<notin> set ordered \<Longrightarrow> int (count_list (children es n) c) \<le> open_indegree es ordered c"
  unfolding open_indegree_def count_children by (induction es) auto

lemma topological_snoc:
  assumes "topological es xs" "n \<notin> set xs" "\<forall>p. (p, n) \<in> set es \<longrightarrow> p \<in> set xs"
  shows "topological es (xs @ [n])"
  unfolding topological_def
proof (intro conjI allI impI)
  fix us c vs p
  assume *: "xs @ [n] = us @ c # vs \<and> (p, c) \<in> set es"
  show "p \<in> set us"
  proof (cases vs rule: rev_cases)
    case Nil
    then show ?thesis using * assms(3) by simp
  next
    case (snoc ws w)
    then have "xs = us @ c # ws" using * by simp
    then show ?thesis using * assms(1) unfolding topological_def by blast
  qed
qed (use assms in \<open>simp add: topological_def\<close>)

lemma kahn_step:
  assumes inv: "kahn_inv ns es d (n # q) ordered" and within: "edges_within ns es"
  shows "kahn_inv ns es (fst (foldl (relax srt) (d, q) (node_children srt es n)))
    (snd (foldl (relax srt) (d, q) (node_children srt es n))) (ordered @ [n])"
proof -
  have d: "d = open_indegree es ordered" and dis: "distinct (ordered @ n # q)"
    and nodes: "set ordered \<union> set (n # q) = {x \<in> set ns. d x = 0}" and top: "topological es ordered"
    using inv by (simp_all only: kahn_inv_def)
  have n: "n \<notin> set ordered" "d n = 0" using dis nodes by auto
  have "\<forall>c. int (count_list (node_children srt es n) c) \<le> d c"
    using count_children_le [OF n(1)] by (simp add: count_node_children d)
  moreover have "distinct q" "\<forall>c \<in> set q. d c = 0" using dis nodes by auto
  ultimately have r: "fst (foldl (relax srt) (d, q) (node_children srt es n)) = (\<lambda>c. d c - int (count_list (node_children srt es n) c))"
    "distinct (snd (foldl (relax srt) (d, q) (node_children srt es n)))"
    "set (snd (foldl (relax srt) (d, q) (node_children srt es n)))
       = set q \<union> {c \<in> set (node_children srt es n). d c = int (count_list (node_children srt es n) c)}"
    using relaxes by blast+
  have d': "(\<lambda>c. d c - int (count_list (node_children srt es n) c)) = open_indegree es (ordered @ [n])"
    by (simp add: fun_eq_iff d open_indegree_extend [OF n(1)] count_node_children)
  have cs: "set (node_children srt es n) \<subseteq> set ns"
    using within by (auto simp: node_children_def children_def edges_within_def)
  have pos: "c \<in> set (node_children srt es n) \<Longrightarrow> d c \<noteq> 0" for c
    using n(1) unfolding d open_indegree_0_iff
    by (auto simp: node_children_def children_def split: if_splits)
  have zero: "{x \<in> set ns. open_indegree es (ordered @ [n]) x = 0}
      = {x \<in> set ns. d x = 0} \<union> {c \<in> set (node_children srt es n). d c = int (count_list (node_children srt es n) c)}"
  proof -
    have "count_list (node_children srt es n) x = 0 \<or> x \<in> set (node_children srt es n)" for x
      by (simp add: count_list_0_iff)
    then show ?thesis
      using cs pos by (auto simp flip: d') (metis cancel_comm_monoid_add_class.diff_cancel pos count_list_0_iff diff_zero of_nat_0)+
  qed
  have "topological es (ordered @ [n])"
    using topological_snoc [OF top n(1)] n(2) by (simp add: d open_indegree_0_iff)
  moreover have "distinct ((ordered @ [n]) @ snd (foldl (relax srt) (d, q) (node_children srt es n)))"
    using dis r(2) pos nodes unfolding distinct_append r(3) by auto
  ultimately show ?thesis
    unfolding kahn_inv_def r(1) d' zero r(3) nodes [symmetric] by auto
qed


lemma kahn_loop_inv:
  "kahn_inv ns es d q ordered \<Longrightarrow> edges_within ns es \<Longrightarrow>
     \<exists>d'. kahn_inv ns es d' [] (kahn_loop srt es d q ordered)"
proof (induction srt es d q ordered rule: kahn_loop.induct)
  case (2 srt es d n q ordered)
  then show ?case using kahn_step [of ns es d n q ordered srt] by simp
qed auto

lemma open_indegree_Nil: "open_indegree es [] = indegrees es"
  by (simp add: fun_eq_iff open_indegree_def indegrees_def)

lemma kahn_inv_start:
  assumes "distinct ns" "mset q = mset (filter (\<lambda>n. indegrees es n = 0) ns)"
  shows "kahn_inv ns es (indegrees es) q []"
proof -
  have "distinct q" "set q = {n \<in> set ns. indegrees es n = 0}"
    using assms mset_eq_imp_distinct_iff [OF assms(2)] mset_eq_setD [OF assms(2)] by auto
  then show ?thesis by (simp add: kahn_inv_def open_indegree_Nil topological_def)
qed

lemma topological_acyclic:
  assumes "topological es xs" "edges_within xs es"
  shows "acyclic (set es)"
proof -
  let ?f = "\<lambda>p. length (takeWhile (\<lambda>x. x \<noteq> p) xs)"
  have "?f p < ?f c" if e: "(p, c) \<in> set es" for p c
  proof -
    have "c \<in> set xs" using assms(2) e by (auto simp: edges_within_def)
    then obtain us vs where xs: "xs = us @ c # vs" by (auto dest: split_list)
    have "p \<in> set us" using assms(1) e xs unfolding topological_def by blast
    then obtain us1 us2 where us: "us = us1 @ p # us2" "p \<notin> set us1"
      by (auto dest: split_list_first)
    have "c \<notin> set us" using assms(1) xs by (auto simp: topological_def)
    then have "takeWhile (\<lambda>x. x \<noteq> c) xs = us" by (auto simp: xs takeWhile_append)
    moreover have "takeWhile (\<lambda>x. x \<noteq> p) xs = us1"
      using us(2) by (auto simp: xs us(1) takeWhile_append)
    ultimately show ?thesis by (simp add: us)
  qed
  then have "set es \<subseteq> inv_image less_than ?f" by auto
  then show ?thesis by (rule acyclic_subset [rotated]) (simp add: wf_acyclic)
qed

lemma kahn_inv_full:
  assumes "kahn_inv ns es d q ordered" "length ordered = length ns" "distinct ns"
  shows "set ordered = set ns"
proof (rule card_subset_eq)
  show "set ordered \<subseteq> set ns" using assms(1) unfolding kahn_inv_def by blast
  have "distinct ordered" using assms(1) by (simp add: kahn_inv_def)
  then show "card (set ordered) = card (set ns)" using assms by (simp add: distinct_card)
qed simp

text \<open>When the queue is empty, all nodes are ordered exactly if there is no cycle.\<close>

lemma kahn_complete_iff:
  assumes inv: "kahn_inv ns es d [] ordered" and within: "edges_within ns es" and "distinct ns"
  shows "length ordered = length ns \<longleftrightarrow> acyclic (set es)"
proof
  have dis: "distinct ordered" and top: "topological es ordered"
    and nodes: "set ordered = {n \<in> set ns. d n = 0}" and d: "d = open_indegree es ordered"
    using inv by (simp_all add: kahn_inv_def)
  have sub: "set ordered \<subseteq> set ns"
    and closed: "n \<in> set ns \<Longrightarrow> \<forall>p. (p, n) \<in> set es \<longrightarrow> p \<in> set ordered \<Longrightarrow> n \<in> set ordered" for n
    using nodes open_indegree_0_iff [of es ordered] d by blast+
  show "acyclic (set es)" if "length ordered = length ns"
  proof (rule topological_acyclic [OF top])
    have "set ordered = set ns" using kahn_inv_full [OF inv that \<open>distinct ns\<close>] .
    then show "edges_within ordered es" using within by (simp add: edges_within_def)
  qed
  show "length ordered = length ns" if "acyclic (set es)"
  proof -
    have wf: "wf (set es)" using that by (simp add: finite_acyclic_wf)
    have "n \<in> set ns \<longrightarrow> n \<in> set ordered" for n
    proof (induction n rule: wf_induct_rule [OF wf])
      case (1 n)
      then show ?case using within closed [of n] unfolding edges_within_def by blast
    qed
    then have "set ordered = set ns" using sub by blast
    then show ?thesis using dis \<open>distinct ns\<close> by (metis distinct_card)
  qed
qed

section \<open>Depth\<close>

definition walk :: "edges \<Rightarrow> string list \<Rightarrow> bool" where
  "walk es ps \<longleftrightarrow> ps \<noteq> [] \<and> successively (\<lambda>p c. (p, c) \<in> set es) ps"

definition depth_inv :: "string list \<Rightarrow> edges \<Rightarrow> (string \<Rightarrow> int) \<Rightarrow> int \<Rightarrow> string list \<Rightarrow> bool" where
  "depth_inv ns es dep m ordered \<longleftrightarrow>
     (\<forall>n. 1 \<le> dep n) \<and>
     (\<forall>p c. p \<in> set ordered \<and> (p, c) \<in> set es \<longrightarrow> dep p + 1 \<le> dep c) \<and>
     (\<forall>n \<in> set ns. \<exists>ps. walk es (ps @ [n]) \<and> set ps \<subseteq> set ns \<and> int (length ps) + 1 = dep n) \<and>
     (\<forall>n \<in> set ordered. dep n \<le> m) \<and> (m = 0 \<or> m \<in> dep ` set ordered)"

lemma relax_depth_eq:
  "relax_depth k dep cs c = (if c \<in> set cs then max (dep c) (k + 1) else dep c)"
  by (induction k dep cs rule: relax_depth.induct) (auto simp del: fun_upd_apply, auto)

lemma walk_snoc: "walk es (ps @ [p]) \<Longrightarrow> (p, c) \<in> set es \<Longrightarrow> walk es ((ps @ [p]) @ [c])"
  unfolding walk_def by (subst successively_append_iff) simp

lemma depth_step:
  assumes inv: "kahn_inv ns es d (n # q) ordered" and within: "edges_within ns es"
    and dinv: "depth_inv ns es dep m ordered"
  shows "depth_inv ns es (relax_depth (dep n) dep (children es n)) (max m (dep n)) (ordered @ [n])"
proof -
  let ?dep = "relax_depth (dep n) dep (children es n)"
  have d: "d = open_indegree es ordered" and dis: "distinct (ordered @ n # q)"
    and nodes: "set ordered \<union> set (n # q) = {x \<in> set ns. d x = 0}"
    using inv by (simp_all only: kahn_inv_def)
  have n: "n \<in> set ns" "n \<notin> set ordered" using dis nodes by auto
  have closed: "p \<in> set ordered" if "c \<in> insert n (set ordered)" "(p, c) \<in> set es" for c p
    using nodes that open_indegree_0_iff [of es ordered c] unfolding d by auto
  have ch: "c \<in> set (children es n) \<longleftrightarrow> (n, c) \<in> set es" for c
    by (force simp: children_def)
  have same: "?dep c = dep c" if "c \<in> set (ordered @ [n])" for c
    using closed [of c n] that n(2) by (auto simp: relax_depth_eq ch)
  have up: "dep c \<le> ?dep c" for c by (simp add: relax_depth_eq)
  have "dep p + 1 \<le> dep c" if "p \<in> set ordered" "(p, c) \<in> set es" for p c
    using dinv that by (simp add: depth_inv_def)
  then have 1: "?dep p + 1 \<le> ?dep c" if "p \<in> set (ordered @ [n])" "(p, c) \<in> set es" for p c
    using that same [OF that(1)] up [of c] by (fastforce simp: relax_depth_eq ch)
  have "\<exists>ps. walk es (ps @ [c]) \<and> set ps \<subseteq> set ns \<and> int (length ps) + 1 = ?dep c" if c: "c \<in> set ns" for c
  proof (cases "?dep c = dep c")
    case True
    then show ?thesis using dinv c by (simp add: depth_inv_def)
  next
    case False
    then have e: "(n, c) \<in> set es" "?dep c = dep n + 1"
      by (auto simp: relax_depth_eq ch max_def split: if_splits)
    obtain ps where "walk es (ps @ [n])" "set ps \<subseteq> set ns" "int (length ps) + 1 = dep n"
      using dinv n(1) unfolding depth_inv_def by blast
    then show ?thesis using walk_snoc [OF _ e(1)] e(2) n(1)
      by (intro exI [of _ "ps @ [n]"]) auto
  qed
  moreover have "max m (dep n) = 0 \<or> max m (dep n) \<in> ?dep ` set (ordered @ [n])"
    using dinv same by (force simp: depth_inv_def max_def image_iff)
  moreover have "\<forall>x \<in> set (ordered @ [n]). ?dep x \<le> max m (dep n)"
    using dinv same by (force simp: depth_inv_def)
  moreover have "\<forall>x. 1 \<le> ?dep x"
    using dinv up order_trans unfolding depth_inv_def by blast
  ultimately show ?thesis using 1 unfolding depth_inv_def by blast
qed

lemma dag_loop_inv:
  "kahn_inv ns es d q ordered \<Longrightarrow> edges_within ns es \<Longrightarrow> depth_inv ns es dep m ordered \<Longrightarrow>
   visited = length ordered \<Longrightarrow>
     \<exists>d' dep' ordered' m'. kahn_inv ns es d' [] ordered' \<and> depth_inv ns es dep' m' ordered'
       \<and> dag_loop es d q dep visited m = (length ordered', m')"
proof (induction es d q dep visited m arbitrary: ordered rule: dag_loop.induct)
  case (2 es d n q dep visited m)
  then show ?case
    using kahn_step [of ns es d n q ordered False] depth_step [of ns es d n q ordered dep m]
      "2.IH" [of "ordered @ [n]"] by (simp add: node_children_def)
qed auto

lemma walk_depth:
  assumes "\<forall>p c. (p, c) \<in> set es \<longrightarrow> dep p + 1 \<le> dep c" "\<forall>n. 1 \<le> dep n" "walk es ps"
  shows "int (length ps) \<le> dep (last ps)"
  using assms(3)
proof (induction ps rule: rev_induct)
  case (snoc c ps)
  show ?case
  proof (cases ps rule: rev_cases)
    case Nil
    then show ?thesis using assms(2) by simp
  next
    case (snoc qs p)
    then have "walk es ps" "(p, c) \<in> set es" "last ps = p"
      using snoc.prems by (auto simp: walk_def successively_append_iff)
    then show ?thesis using snoc.IH assms(1) by force
  qed
qed (simp add: walk_def)

lemma walk_within: "walk es ps \<Longrightarrow> edges_within ns es \<Longrightarrow> length ps > 1 \<Longrightarrow> set ps \<subseteq> set ns"
proof (induction ps)
  case (Cons a ps)
  then show ?case
    by (cases ps; cases "tl ps") (auto simp: walk_def edges_within_def)
qed (simp add: walk_def)


section \<open>Which graphs are accepted\<close>

definition depth_bounded :: "edges \<Rightarrow> bool" where
  "depth_bounded es \<longleftrightarrow> (\<forall>ps. walk es ps \<longrightarrow> int (length ps) \<le> MAX_GRAPH_DEPTH)"

lemma acyclic_no_loop: "acyclic (set es) \<Longrightarrow> \<not> (\<exists>(p, c) \<in> set es. p = c)"
  by (auto simp: acyclic_def)

lemma depth_exact:
  assumes "depth_inv ns es dep m ordered" "set ordered = set ns" "edges_within ns es"
  shows "m \<le> MAX_GRAPH_DEPTH \<longleftrightarrow> depth_bounded es"
proof
  have e: "\<forall>p c. (p, c) \<in> set es \<longrightarrow> dep p + 1 \<le> dep c" and pos: "\<forall>n. 1 \<le> dep n"
    and le: "\<forall>n \<in> set ns. dep n \<le> m"
    using assms by (auto simp: depth_inv_def edges_within_def)
  show "depth_bounded es" if "m \<le> MAX_GRAPH_DEPTH"
    unfolding depth_bounded_def
  proof (intro allI impI)
    fix ps
    assume w: "walk es ps"
    show "int (length ps) \<le> MAX_GRAPH_DEPTH"
    proof (cases "length ps > 1")
      case True
      then have "last ps \<in> set ns"
        using walk_within [OF w assms(3)] w by (auto simp: walk_def)
      then show ?thesis using walk_depth [OF e pos w] le that by force
    qed (simp add: MAX_GRAPH_DEPTH_def)
  qed
  show "m \<le> MAX_GRAPH_DEPTH" if b: "depth_bounded es"
  proof (cases "m = 0")
    case False
    then obtain n where "n \<in> set ns" "m = dep n"
      using assms(1,2) by (auto simp: depth_inv_def)
    then obtain ps where "walk es (ps @ [n])" "int (length ps) + 1 = m"
      using assms(1) unfolding depth_inv_def by blast
    then show ?thesis using b unfolding depth_bounded_def by force
  qed (simp add: MAX_GRAPH_DEPTH_def)
qed

lemma depth_inv_start: "depth_inv ns es (\<lambda>_. 1) 0 []"
  unfolding depth_inv_def walk_def by (force intro: exI [of _ "[]"])

lemma validate_dag_iff:
  assumes "distinct ns"
  shows "is_ok (validate_dag ns ls) \<longleftrightarrow>
    edges_within ns (graph_edges ls) \<and> acyclic (set (graph_edges ls)) \<and> depth_bounded (graph_edges ls)"
proof (cases "edges_within ns (graph_edges ls)")
  case True
  let ?es = "graph_edges ls"
  obtain d dep ordered m where k: "kahn_inv ns ?es d [] ordered" and dep: "depth_inv ns ?es dep m ordered"
    and loop: "dag_loop ?es (indegrees ?es) (filter (\<lambda>n. indegrees ?es n = 0) ns) (\<lambda>_. 1) 0 0 = (length ordered, m)"
    using dag_loop_inv [OF kahn_inv_start [OF assms refl] True depth_inv_start] by auto
  have full: "length ordered = length ns \<longleftrightarrow> acyclic (set ?es)"
    using kahn_complete_iff [OF k True assms] .
  have "set ordered = set ns" if "length ordered = length ns"
    using kahn_inv_full [OF k that assms] .
  then have "acyclic (set ?es) \<Longrightarrow> m \<le> MAX_GRAPH_DEPTH \<longleftrightarrow> depth_bounded ?es"
    using depth_exact [OF dep _ True] full by blast
  moreover have "\<not> (\<exists>(p, c) \<in> set ?es. p \<notin> set ns \<or> c \<notin> set ns)"
    using True by (auto simp: edges_within_def)
  ultimately show ?thesis
    using True full acyclic_no_loop [of ?es] by (auto simp: validate_dag_def Let_def loop)
next
  case False
  then show ?thesis by (auto simp: validate_dag_def Let_def edges_within_def)
qed

lemma graph_edges_sort: "mset (graph_edges (sort_key cl_link_id ls)) = mset (graph_edges ls)"
  by (simp add: graph_edges_def)

lemma build_causal_graph_eq:
  "build_causal_graph gid ns ls = Inr g \<longleftrightarrow>
     ns \<noteq> [] \<and> length ns \<le> MAX_GRAPH_NODES \<and> distinct ns \<and> distinct (map cl_link_id ls) \<and>
     edges_within ns (graph_edges ls) \<and> acyclic (set (graph_edges ls)) \<and> depth_bounded (graph_edges ls) \<and>
     g = \<lparr>cg_graph_id = gid, cg_nodes = sort ns, cg_links = sort_key cl_link_id ls\<rparr>"
proof -
  have e: "set (graph_edges (sort_key cl_link_id ls)) = set (graph_edges ls)"
    using graph_edges_sort by (rule mset_eq_setD)
  then have "edges_within (sort ns) (graph_edges (sort_key cl_link_id ls)) \<longleftrightarrow> edges_within ns (graph_edges ls)"
    "depth_bounded (graph_edges (sort_key cl_link_id ls)) \<longleftrightarrow> depth_bounded (graph_edges ls)"
    by (simp_all add: edges_within_def depth_bounded_def walk_def)
  then show ?thesis
    using validate_dag_iff [of "sort ns" "sort_key cl_link_id ls"] e
    by (auto simp: build_causal_graph_def nodes_validate_def result_simps Let_def)
qed

text \<open>C19. A causal graph is built exactly when it has between one and 256 distinct nodes, its
  links have distinct ids and join nodes of the graph, there is no cycle, and no chain of links
  passes through more than 32 nodes.  The queue of Kahn's algorithm thus detects every cycle, and
  the depths it propagates are the lengths of the longest chains.\<close>

theorem build_causal_graph_accepts:
  "is_ok (build_causal_graph gid ns ls) \<longleftrightarrow>
     ns \<noteq> [] \<and> length ns \<le> 256 \<and> distinct ns \<and> distinct (map cl_link_id ls) \<and>
     set (graph_edges ls) \<subseteq> set ns \<times> set ns \<and> acyclic (set (graph_edges ls)) \<and>
     (\<forall>ps. ps \<noteq> [] \<and> successively (\<lambda>p c. (p, c) \<in> set (graph_edges ls)) ps \<longrightarrow> length ps \<le> 32)"
  unfolding is_ok_iff build_causal_graph_eq
  by (auto simp: edges_within_def depth_bounded_def walk_def MAX_GRAPH_NODES_def MAX_GRAPH_DEPTH_def)

definition demo_link :: "string \<Rightarrow> string \<Rightarrow> string \<Rightarrow> causal_link" where
  "demo_link i p c = \<lparr>cl_link_id = i, cl_parent_manifest_hash = p, cl_child_manifest_hash = c,
     cl_relation = Causes, cl_created_at = 0, cl_key_id = ''k'', cl_algorithm = ''ed25519'',
     cl_signature = ''s''\<rparr>"


theorem build_causal_graph_accepts_witness:
  "is_ok (build_causal_graph ''g'' [''b'', ''a'', ''c''] [demo_link ''2'' ''a'' ''b'', demo_link ''1'' ''b'' ''c''])
     \<and> acyclic {(''a'', ''b''), (''b'', ''c'')}"
proof -
  have ok: "is_ok (build_causal_graph ''g'' [''b'', ''a'', ''c''] [demo_link ''2'' ''a'' ''b'', demo_link ''1'' ''b'' ''c''])"
    by code_simp
  then show ?thesis
    using build_causal_graph_accepts [of "''g''" "[''b'', ''a'', ''c'']" "[demo_link ''2'' ''a'' ''b'', demo_link ''1'' ''b'' ''c'']"]
    by (simp add: graph_edges_def demo_link_def)
qed

section \<open>The topological order\<close>

lemma topo_manifest_hashes_ok:
  assumes "distinct (cg_nodes g)" "length (cg_nodes g) \<le> MAX_SAGA_STEPS"
    "edges_within (cg_nodes g) (graph_edges (cg_links g))" "acyclic (set (graph_edges (cg_links g)))"
  shows "\<exists>xs. topo_manifest_hashes g = Inr xs \<and> set xs = set (cg_nodes g)
    \<and> topological (graph_edges (cg_links g)) xs"
proof -
  let ?ns = "cg_nodes g" and ?es = "graph_edges (cg_links g)"
  let ?q = "sort (filter (\<lambda>n. indegrees ?es n = 0) ?ns)"
  obtain d where k: "kahn_inv ?ns ?es d [] (kahn_loop True ?es (indegrees ?es) ?q [])"
    using kahn_loop_inv [OF kahn_inv_start [OF assms(1), of ?q] assms(3)] by auto
  have len: "length (kahn_loop True ?es (indegrees ?es) ?q []) = length ?ns"
    using kahn_complete_iff [OF k assms(3,1)] assms(4) by simp
  have top: "topological ?es (kahn_loop True ?es (indegrees ?es) ?q [])"
    using k by (simp only: kahn_inv_def)
  have "topo_manifest_hashes g = Inr (kahn_loop True ?es (indegrees ?es) ?q [])"
    using len assms by (simp add: topo_manifest_hashes_def Let_def distinct_remdups_id)
  then show ?thesis using top kahn_inv_full [OF k len assms(1)] by blast
qed

text \<open>The saga order of a graph that was built is a topological one: it lists every node
  exactly once, and every node comes after all its causal parents.  In particular the order
  exists: the error branches of \<^verbatim>\<open>topo_manifest_hashes\<close> are unreachable for such a graph.\<close>

theorem topo_manifest_hashes_topological:
  assumes "build_causal_graph gid ns ls = Inr g"
  shows "\<exists>xs. topo_manifest_hashes g = Inr xs \<and> distinct xs \<and> set xs = set ns \<and>
    (\<forall>us c vs l. xs = us @ c # vs \<and> l \<in> set ls \<and> cl_child_manifest_hash l = c \<longrightarrow> cl_parent_manifest_hash l \<in> set us)"
proof -
  have g: "cg_nodes g = sort ns" "cg_links g = sort_key cl_link_id ls" "distinct ns"
    "length ns \<le> MAX_GRAPH_NODES" "edges_within ns (graph_edges ls)" "acyclic (set (graph_edges ls))"
    using assms by (auto simp: build_causal_graph_eq)
  have e: "set (graph_edges (cg_links g)) = set (graph_edges ls)"
    unfolding g(2) using graph_edges_sort by (rule mset_eq_setD)
  have "edges_within (cg_nodes g) (graph_edges (cg_links g))" "acyclic (set (graph_edges (cg_links g)))"
    using g(5,6) by (simp_all only: edges_within_def e g(1) set_sort)
  then obtain xs where "topo_manifest_hashes g = Inr xs" "set xs = set ns" "topological (graph_edges (cg_links g)) xs"
    using topo_manifest_hashes_ok [of g] g(1,3,4) by (auto simp: MAX_SAGA_STEPS_def MAX_GRAPH_NODES_def)
  moreover have "(cl_parent_manifest_hash l, cl_child_manifest_hash l) \<in> set (graph_edges ls)" if "l \<in> set ls" for l
    using that by (auto simp: graph_edges_def)
  ultimately show ?thesis
    unfolding topological_def e by blast
qed

theorem topo_manifest_hashes_topological_witness:
  "\<exists>g xs. build_causal_graph ''g'' [''b'', ''a'', ''c''] [demo_link ''2'' ''a'' ''b'', demo_link ''1'' ''b'' ''c''] = Inr g
     \<and> topo_manifest_hashes g = Inr xs \<and> set xs = {''a'', ''b'', ''c''}"
proof -
  have "is_ok (build_causal_graph ''g'' [''b'', ''a'', ''c''] [demo_link ''2'' ''a'' ''b'', demo_link ''1'' ''b'' ''c''])"
    by code_simp
  then obtain g where g: "build_causal_graph ''g'' [''b'', ''a'', ''c''] [demo_link ''2'' ''a'' ''b'', demo_link ''1'' ''b'' ''c''] = Inr g"
    by (auto simp: is_ok_iff)
  obtain xs where "topo_manifest_hashes g = Inr xs" "set xs = {''a'', ''b'', ''c''}"
    using topo_manifest_hashes_topological [OF g] by auto
  then show ?thesis using g by blast
qed

lemma kahn_loop_cong:
  "mset es = mset es' \<Longrightarrow> kahn_loop True es d q ordered = kahn_loop True es' d q ordered"
proof (induction "True" es d q ordered rule: kahn_loop.induct)
  case (2 es d n q ordered)
  have "mset (children es n) = mset (children es' n)"
    using 2(2) by (simp add: children_def)
  then have "node_children True es n = node_children True es' n"
    unfolding node_children_def by (metis properties_for_sort sorted_sort mset_sort)
  then show ?case using 2 by simp
qed simp

lemma indegrees_cong: "mset es = mset es' \<Longrightarrow> indegrees es = indegrees es'"
  unfolding indegrees_def fun_eq_iff by (metis mset_filter size_mset)

text \<open>The order does not depend on how the graph was presented: two graphs with the same
  nodes and the same causal edges give the same saga order, whatever the ids, the order and
  the signatures of the links.\<close>

theorem topo_manifest_hashes_deterministic:
  assumes "build_causal_graph gid ns ls = Inr g" "build_causal_graph gid' ns' ls' = Inr g'"
    and "set ns = set ns'" "mset (graph_edges ls) = mset (graph_edges ls')"
  shows "topo_manifest_hashes g = topo_manifest_hashes g'"
proof -
  have n: "cg_nodes g = cg_nodes g'"
    using assms by (auto simp: build_causal_graph_eq) (metis set_eq_iff_mset_eq_distinct properties_for_sort sorted_sort mset_sort)
  have e: "mset (graph_edges (cg_links g)) = mset (graph_edges (cg_links g'))"
    using assms(1,2,4) by (auto simp: build_causal_graph_eq graph_edges_sort)
  show ?thesis
    unfolding topo_manifest_hashes_def n Let_def indegrees_cong [OF e] kahn_loop_cong [OF e] by (rule refl)
qed

theorem topo_manifest_hashes_deterministic_witness:
  "\<exists>g g'. build_causal_graph ''g'' [''b'', ''a'', ''c''] [demo_link ''2'' ''a'' ''b'', demo_link ''1'' ''b'' ''c''] = Inr g
     \<and> build_causal_graph ''h'' [''c'', ''b'', ''a''] [demo_link ''4'' ''b'' ''c'', demo_link ''9'' ''a'' ''b''] = Inr g'
     \<and> topo_manifest_hashes g = topo_manifest_hashes g'"
proof -
  have "is_ok (build_causal_graph ''g'' [''b'', ''a'', ''c''] [demo_link ''2'' ''a'' ''b'', demo_link ''1'' ''b'' ''c''])"
    by code_simp
  then obtain g where g: "build_causal_graph ''g'' [''b'', ''a'', ''c''] [demo_link ''2'' ''a'' ''b'', demo_link ''1'' ''b'' ''c''] = Inr g"
    by (auto simp: is_ok_iff)
  have "is_ok (build_causal_graph ''h'' [''c'', ''b'', ''a''] [demo_link ''4'' ''b'' ''c'', demo_link ''9'' ''a'' ''b''])"
    by code_simp
  then obtain g' where g': "build_causal_graph ''h'' [''c'', ''b'', ''a''] [demo_link ''4'' ''b'' ''c'', demo_link ''9'' ''a'' ''b''] = Inr g'"
    by (auto simp: is_ok_iff)
  have "topo_manifest_hashes g = topo_manifest_hashes g'"
    by (rule topo_manifest_hashes_deterministic [OF g g']) (auto simp: graph_edges_def demo_link_def)
  then show ?thesis using g g' by blast
qed

section \<open>Ancestors\<close>

lemma set_parents: "p \<in> set (parents es c) \<longleftrightarrow> (p, c) \<in> set es"
  by (force simp: parents_def)

lemma ancestor_loop_set:
  "\<forall>x \<in> set seen. set (parents es x) \<subseteq> set seen \<union> set q \<Longrightarrow>
     set (ancestor_loop es seen q) = {x. \<exists>y \<in> set seen \<union> set q. (x, y) \<in> (set es)\<^sup>*}"
proof (induction es seen q rule: ancestor_loop.induct)
  case (1 es seen)
  have "x \<in> set seen" if "(x, y) \<in> (set es)\<^sup>*" "y \<in> set seen" for x y
    using that by (induction rule: converse_rtrancl_induct) (use 1 set_parents in fastforce)+
  then show ?case by auto
next
  case (2 es seen n q)
  show ?case
  proof (cases "n \<in> set seen")
    case True
    then have "\<forall>x \<in> set seen. set (parents es x) \<subseteq> set seen \<union> set q" using 2(3) by auto
    then show ?thesis using 2(1) [OF True] True by (simp add: insert_absorb)
  next
    case False
    have "\<forall>x \<in> set (n # seen). set (parents es x) \<subseteq> set (n # seen) \<union> set (q @ parents es n)"
      using 2(3) by auto
    then have "set (ancestor_loop es seen (n # q)) = {x. \<exists>y \<in> set (n # seen) \<union> set (q @ parents es n). (x, y) \<in> (set es)\<^sup>*}"
      using 2(2) [OF False] False by simp
    also have "\<dots> = {x. \<exists>y \<in> set seen \<union> set (n # q). (x, y) \<in> (set es)\<^sup>*}"
      by (auto simp: set_parents intro: rtrancl_into_rtrancl)
    finally show ?thesis .
  qed
qed

lemma ancestor_loop_distinct: "distinct seen \<Longrightarrow> distinct (ancestor_loop es seen q)"
  by (induction es seen q rule: ancestor_loop.induct) auto

text \<open>The ancestors of a node are exactly the nodes from which a chain of one or more links
  leads to it, listed once each and in order; asking for a hash outside the graph raises.\<close>

theorem ancestors_of_correct:
  "case ancestors_of g h of
     Inl e \<Rightarrow> e = CausalGraphError \<and> h \<notin> set (cg_nodes g)
   | Inr xs \<Rightarrow> h \<in> set (cg_nodes g) \<and> sorted xs \<and> distinct xs \<and> set xs = {a. (a, h) \<in> (set (graph_edges (cg_links g)))\<^sup>+}"
proof -
  let ?es = "graph_edges (cg_links g)"
  have "{x. \<exists>y \<in> set [] \<union> set (parents ?es h). (x, y) \<in> (set ?es)\<^sup>*} = {a. (a, h) \<in> (set ?es)\<^sup>+}"
    by (auto simp: set_parents Bex_def dest: tranclD2 intro: rtrancl_into_trancl1)
  then show ?thesis
    using ancestor_loop_set [of "[]" ?es "parents ?es h"]
    by (simp add: ancestors_of_def Let_def ancestor_loop_distinct)
qed

section \<open>Links and the roots\<close>

lemma sign_verify_link:
  assumes "crypto_ok cr" "sign_causal_link cr i p c r key t = Inr l"
    and "kr (sk_key_id key) = Some (sk_verification_key cr key)"
  shows "verify_causal_link cr l kr = Inr () \<and> link_validate l = Inr ()"
  using assms vk_verify_sign [OF assms(1)]
  by (auto simp: sign_causal_link_def verify_causal_link_def kr_verify_def kr_get_def Let_def
      link_validate_def link_signing_payload_def link_fields_def result_simps is_ok_unit)

text \<open>The roots are the nodes without ancestors.\<close>

lemma graph_roots_correct:
  "n \<in> set (graph_roots g) \<longleftrightarrow> n \<in> set (cg_nodes g) \<and> ancestors_of g n = Inr []"
proof -
  let ?es = "graph_edges (cg_links g)"
  have "n \<notin> set (map cl_child_manifest_hash (cg_links g)) \<longleftrightarrow> parents ?es n = []"
    by (auto simp: parents_def graph_edges_def filter_empty_conv)
  moreover have "sort (ancestor_loop ?es [] (parents ?es n)) = [] \<longleftrightarrow> parents ?es n = []"
    using ancestor_loop_set [of "[]" ?es "parents ?es n"]
    by (metis (no_types, lifting) UnCI empty_Collect_eq empty_iff ex_in_conv list.set(1) rtrancl.rtrancl_refl set_empty set_sort ancestor_loop.simps(1) sort_key_simps(1))
  ultimately show ?thesis
    by (auto simp: graph_roots_def ancestors_of_def Let_def)
qed

end
