(* ===== verification/Envelope.thy ===== *)
theory Envelope
  imports Causal Grants
begin

text \<open>
  Decision envelopes (\<^verbatim>\<open>envelope/\<close>): constraints on single parameters, the signed envelope that
  bounds the manifests an authorization covers, the order in which one envelope is at most as
  wide as another, substitution of concrete parameters, and the membership test of atomic plans.

  Parameters are compared with Python's equality, under which \<^verbatim>\<open>True == 1\<close> and \<^verbatim>\<open>False == 0\<close>:
  this is \<open>pv_eq\<close>.
\<close>

section \<open>Parameter constraints\<close>

datatype constraint_kind = ExactK | EnumK | IntegerRangeK | MonetaryRangeK

primrec kind_value :: "constraint_kind \<Rightarrow> string" where
  "kind_value ExactK = ''exact''"
| "kind_value EnumK = ''enum''"
| "kind_value IntegerRangeK = ''integer_range''"
| "kind_value MonetaryRangeK = ''monetary_range''"

fun pv_eq :: "parameter_value \<Rightarrow> parameter_value \<Rightarrow> bool" where
  "pv_eq (PBool b) (PInt i) = (i = (if b then 1 else 0))"
| "pv_eq (PInt i) (PBool b) = (i = (if b then 1 else 0))"
| "pv_eq v w = (v = w)"

definition pv_in :: "parameter_value \<Rightarrow> parameter_value list \<Rightarrow> bool" where
  "pv_in v ws \<longleftrightarrow> list_ex (pv_eq v) ws"

fun pv_unique :: "parameter_value list \<Rightarrow> bool" where
  "pv_unique [] = True"
| "pv_unique (v # vs) = (\<not> pv_in v vs \<and> pv_unique vs)"

record parameter_constraint =
  pc_kind :: constraint_kind
  pc_exact_value :: parameter_value
  pc_allowed_values :: "parameter_value list option"
  pc_min_int :: "int option"
  pc_max_int :: "int option"
  pc_currency :: "string option"
  pc_min_amount :: "monetary_amount option"
  pc_max_amount :: "monetary_amount option"

definition MAX_ENUM_VALUES :: nat where
  "MAX_ENUM_VALUES = 64"

definition sets_money :: "parameter_constraint \<Rightarrow> bool" where
  "sets_money c \<longleftrightarrow> pc_min_amount c \<noteq> None \<or> pc_max_amount c \<noteq> None \<or> pc_currency c \<noteq> None"

definition sets_ints :: "parameter_constraint \<Rightarrow> bool" where
  "sets_ints c \<longleftrightarrow> pc_min_int c \<noteq> None \<or> pc_max_int c \<noteq> None"

definition above :: "'a::linorder option \<Rightarrow> 'a option \<Rightarrow> bool" where
  "above lo hi \<longleftrightarrow> (case (lo, hi) of (Some l, Some h) \<Rightarrow> l > h | _ \<Rightarrow> False)"

text \<open>\<open>exact_set\<close>: whether \<^verbatim>\<open>exact_value\<close> is in \<^verbatim>\<open>model_fields_set\<close>.\<close>

definition constraint_validate :: "bool \<Rightarrow> parameter_constraint \<Rightarrow> unit res" where
  "constraint_validate exact_set c = (case pc_kind c of
      ExactK \<Rightarrow> allR
        [raise_if (\<not> exact_set) ValueError,
         raise_if (pc_allowed_values c \<noteq> None \<or> sets_ints c) ValueError,
         raise_if (sets_money c) ValueError]
    | EnumK \<Rightarrow> (case pc_allowed_values c of
          None \<Rightarrow> Inl ValueError
        | Some vs \<Rightarrow> allR
            [raise_if (vs = []) ValueError, raise_if (length vs > MAX_ENUM_VALUES) ValueError,
             raise_if (\<not> pv_unique vs) ValueError,
             raise_if (sets_ints c) ValueError, raise_if (sets_money c) ValueError])
    | IntegerRangeK \<Rightarrow> allR
        [raise_if (\<not> sets_ints c) ValueError,
         raise_if (above (pc_min_int c) (pc_max_int c)) ValueError,
         raise_if (pc_allowed_values c \<noteq> None) ValueError,
         raise_if (sets_money c) ValueError, raise_if (pc_exact_value c \<noteq> PNone) ValueError]
    | MonetaryRangeK \<Rightarrow> allR
        [raise_if (pc_min_amount c = None \<and> pc_max_amount c = None) ValueError,
         raise_if (pc_currency c = None) ValueError,
         raise_if (case pc_min_amount c of None \<Rightarrow> False | Some a \<Rightarrow> Some (currency a) \<noteq> pc_currency c) ValueError,
         raise_if (case pc_max_amount c of None \<Rightarrow> False | Some a \<Rightarrow> Some (currency a) \<noteq> pc_currency c) ValueError,
         raise_if (above (map_option minor_units (pc_min_amount c)) (map_option minor_units (pc_max_amount c))) ValueError,
         raise_if (pc_allowed_values c \<noteq> None \<or> sets_ints c) ValueError,
         raise_if (pc_exact_value c \<noteq> PNone) ValueError])"

text \<open>The values of an enumeration are sorted by the name of their type and their \<^verbatim>\<open>repr\<close>.
  Both sorts are stable, so sorting by the second component first gives the order on pairs.\<close>

primrec type_name :: "parameter_value \<Rightarrow> string" where
  "type_name (PStr _) = ''str''"
| "type_name (PInt _) = ''int''"
| "type_name (PBool _) = ''bool''"
| "type_name PNone = ''NoneType''"

definition hex_char :: "nat \<Rightarrow> char" where
  "hex_char d = (if d < 10 then char_of (48 + d) else char_of (87 + d))"

definition repr_char :: "char \<Rightarrow> char \<Rightarrow> string" where
  "repr_char quote c = (let n = of_char c :: nat in
     if c = quote \<or> n = 92 then [CHR 0x5C, c]
     else if n = 9 then [CHR 0x5C, CHR ''t'']
     else if n = 10 then [CHR 0x5C, CHR ''n'']
     else if n = 13 then [CHR 0x5C, CHR ''r'']
     else if n < 32 \<or> 127 \<le> n \<and> n < 161 \<or> n = 173
       then [CHR 0x5C, CHR ''x'', hex_char (n div 16), hex_char (n mod 16)]
     else [c])"

definition repr_str :: "string \<Rightarrow> string" where
  "repr_str s = (let quote = if CHR 0x27 \<in> set s \<and> CHR 0x22 \<notin> set s then CHR 0x22 else CHR 0x27
     in quote # concat (map (repr_char quote) s) @ [quote])"

primrec py_repr :: "parameter_value \<Rightarrow> string" where
  "py_repr (PStr s) = repr_str s"
| "py_repr (PInt i) = int_str i"
| "py_repr (PBool b) = (if b then ''True'' else ''False'')"
| "py_repr PNone = ''None''"

definition sort_allowed_values :: "parameter_value list \<Rightarrow> parameter_value list" where
  "sort_allowed_values vs = sort_key type_name (sort_key py_repr vs)"

text \<open>Construction: the values of an enumeration are sorted, then the shape is checked.\<close>

definition constraint_new :: "bool \<Rightarrow> parameter_constraint \<Rightarrow> parameter_constraint res" where
  "constraint_new exact_set c =
     (let c' = c\<lparr>pc_allowed_values := map_option sort_allowed_values (pc_allowed_values c)\<rparr>
      in thenR (constraint_validate exact_set c') (Inr c'))"

definition blank_constraint :: "constraint_kind \<Rightarrow> parameter_constraint" where
  "blank_constraint k = \<lparr>pc_kind = k, pc_exact_value = PNone, pc_allowed_values = None, pc_min_int = None,
     pc_max_int = None, pc_currency = None, pc_min_amount = None, pc_max_amount = None\<rparr>"

definition exact_constraint :: "parameter_value \<Rightarrow> parameter_constraint res" where
  "exact_constraint v = constraint_new True ((blank_constraint ExactK)\<lparr>pc_exact_value := v\<rparr>)"

definition enum_of :: "parameter_value list \<Rightarrow> parameter_constraint res" where
  "enum_of vs = constraint_new False
     ((blank_constraint EnumK)\<lparr>pc_allowed_values := Some (sort_allowed_values vs)\<rparr>)"

definition integer_range :: "int option \<Rightarrow> int option \<Rightarrow> parameter_constraint res" where
  "integer_range lo hi = constraint_new False ((blank_constraint IntegerRangeK)\<lparr>pc_min_int := lo, pc_max_int := hi\<rparr>)"

definition monetary_bound :: "string \<Rightarrow> int option \<Rightarrow> monetary_amount option res" where
  "monetary_bound cur b = (case b of None \<Rightarrow> Inr None
     | Some i \<Rightarrow> (let a = \<lparr>currency = cur, minor_units = i\<rparr> in
         thenR (monetary_amount_validate a) (Inr (Some a))))"

definition monetary_range :: "string \<Rightarrow> int option \<Rightarrow> int option \<Rightarrow> parameter_constraint res" where
  "monetary_range cur lo hi = bindR (monetary_bound cur lo) (\<lambda>mn. bindR (monetary_bound cur hi) (\<lambda>mx.
     constraint_new False ((blank_constraint MonetaryRangeK)\<lparr>pc_currency := Some cur,
       pc_min_amount := mn, pc_max_amount := mx\<rparr>)))"

abbreviation constraint_error :: exn where
  "constraint_error \<equiv> DecisionEnvelopeE DecisionEnvelopeConstraintError"

definition accepts :: "parameter_constraint \<Rightarrow> parameter_value \<Rightarrow> unit res" where
  "accepts c v = (case pc_kind c of
      ExactK \<Rightarrow> raise_if (\<not> pv_eq v (pc_exact_value c)) constraint_error
    | EnumK \<Rightarrow> (case pc_allowed_values c of
          None \<Rightarrow> Inl constraint_error
        | Some vs \<Rightarrow> raise_if (\<not> pv_in v vs) constraint_error)
    | IntegerRangeK \<Rightarrow> (case v of
          PInt i \<Rightarrow> allR
            [raise_if (case pc_min_int c of None \<Rightarrow> False | Some l \<Rightarrow> i < l) constraint_error,
             raise_if (case pc_max_int c of None \<Rightarrow> False | Some h \<Rightarrow> i > h) constraint_error]
        | _ \<Rightarrow> Inl constraint_error)
    | MonetaryRangeK \<Rightarrow> (case v of
          PInt i \<Rightarrow> (case pc_currency c of
              None \<Rightarrow> Inl constraint_error
            | Some cur \<Rightarrow> allR
                [monetary_amount_validate \<lparr>currency = cur, minor_units = i\<rparr>,
                 raise_if (case pc_min_amount c of None \<Rightarrow> False | Some a \<Rightarrow> i < minor_units a) constraint_error,
                 raise_if (case pc_max_amount c of None \<Rightarrow> False | Some a \<Rightarrow> i > minor_units a) constraint_error])
        | _ \<Rightarrow> Inl constraint_error))"

definition lower_widens :: "int option \<Rightarrow> int option \<Rightarrow> bool" where
  "lower_widens child parent \<longleftrightarrow> (case parent of None \<Rightarrow> False
     | Some p \<Rightarrow> (case child of None \<Rightarrow> True | Some c \<Rightarrow> c < p))"

definition upper_widens :: "int option \<Rightarrow> int option \<Rightarrow> bool" where
  "upper_widens child parent \<longleftrightarrow> (case parent of None \<Rightarrow> False
     | Some p \<Rightarrow> (case child of None \<Rightarrow> True | Some c \<Rightarrow> c > p))"

definition assert_int_bounds_narrower :: "parameter_constraint \<Rightarrow> parameter_constraint \<Rightarrow> unit res" where
  "assert_int_bounds_narrower child parent = allR
     [raise_if (lower_widens (pc_min_int child) (pc_min_int parent)) constraint_error,
      raise_if (upper_widens (pc_max_int child) (pc_max_int parent)) constraint_error]"

definition assert_money_bounds_narrower :: "parameter_constraint \<Rightarrow> parameter_constraint \<Rightarrow> unit res" where
  "assert_money_bounds_narrower child parent = allR
     [raise_if (lower_widens (map_option minor_units (pc_min_amount child)) (map_option minor_units (pc_min_amount parent))) constraint_error,
      raise_if (upper_widens (map_option minor_units (pc_max_amount child)) (map_option minor_units (pc_max_amount parent))) constraint_error]"

definition assert_constraint_narrower_or_equal :: "parameter_constraint \<Rightarrow> parameter_constraint \<Rightarrow> unit res" where
  "assert_constraint_narrower_or_equal child parent = (case pc_kind child of
      ExactK \<Rightarrow> accepts parent (pc_exact_value child)
    | EnumK \<Rightarrow> (case pc_kind parent of
          ExactK \<Rightarrow> Inl constraint_error
        | EnumK \<Rightarrow> (case (pc_allowed_values child, pc_allowed_values parent) of
              (Some cs, Some ps) \<Rightarrow> raise_if (\<not> list_all (\<lambda>v. pv_in v ps) cs) constraint_error
            | _ \<Rightarrow> Inl constraint_error)
        | _ \<Rightarrow> (case pc_allowed_values child of
              None \<Rightarrow> Inl constraint_error
            | Some vs \<Rightarrow> allR (map (accepts parent) vs)))
    | IntegerRangeK \<Rightarrow> (case pc_kind parent of
          ExactK \<Rightarrow> Inl constraint_error
        | IntegerRangeK \<Rightarrow> assert_int_bounds_narrower child parent
        | _ \<Rightarrow> Inl (DelegationE IncomparableConstraintError))
    | MonetaryRangeK \<Rightarrow> (case pc_kind parent of
          ExactK \<Rightarrow> Inl constraint_error
        | MonetaryRangeK \<Rightarrow>
            if pc_currency child \<noteq> pc_currency parent then Inl (DelegationE IncomparableConstraintError)
            else assert_money_bounds_narrower child parent
        | _ \<Rightarrow> Inl (DelegationE IncomparableConstraintError)))"

definition MAX_CONSTRAINT_KEY_LENGTH :: nat where
  "MAX_CONSTRAINT_KEY_LENGTH = 64"

definition validate_constraint_key :: "string \<Rightarrow> unit res" where
  "validate_constraint_key k = allR
     [raise_if (k = [] \<or> length k > MAX_CONSTRAINT_KEY_LENGTH) ValueError,
      raise_if (\<exists>c \<in> set k. (of_char c :: nat) < 0x20) ValueError]"

definition constraint_json :: "parameter_constraint \<Rightarrow> json" where
  "constraint_json c = JObj
     [(''kind'', JStr (kind_value (pc_kind c))),
      (''exact_value'', parameter_json (pc_exact_value c)),
      (''allowed_values'', case pc_allowed_values c of None \<Rightarrow> JNull | Some vs \<Rightarrow> JList (map parameter_json vs)),
      (''min_int'', case pc_min_int c of None \<Rightarrow> JNull | Some i \<Rightarrow> JInt i),
      (''max_int'', case pc_max_int c of None \<Rightarrow> JNull | Some i \<Rightarrow> JInt i),
      (''currency'', jstr_opt (pc_currency c)),
      (''min_amount'', case pc_min_amount c of None \<Rightarrow> JNull | Some a \<Rightarrow> monetary_json a),
      (''max_amount'', case pc_max_amount c of None \<Rightarrow> JNull | Some a \<Rightarrow> monetary_json a)]"

section \<open>The envelope\<close>

definition ENVELOPE_SCHEMA_VERSION :: string where "ENVELOPE_SCHEMA_VERSION = ''1.0''"

definition MAX_ENVELOPE_CONSTRAINTS :: nat where "MAX_ENVELOPE_CONSTRAINTS = 64"

definition MAX_TARGET_RESOURCES :: nat where "MAX_TARGET_RESOURCES = 64"

record decision_envelope =
  de_schema_version :: string
  de_envelope_id :: string
  de_effect_type :: string
  de_adapter :: adapter_identity
  de_target_resources :: "string list"
  de_parameter_constraints :: "(string \<times> parameter_constraint) list"
  de_forbid_unknown_parameters :: bool
  de_require_all_constrained_parameters :: bool
  de_max_estimated_cost :: "monetary_amount option"
  de_causal_graph_hash :: "string option"
  de_issuer :: principal
  de_created_at :: time
  de_not_before :: time
  de_expires_at :: time
  de_nonce :: string
  de_key_id :: string
  de_algorithm :: string
  de_signature :: "string option"

definition targets_check :: "string list \<Rightarrow> unit res" where
  "targets_check ts = allR
     ([raise_if (ts = []) ValueError, raise_if (length ts > MAX_TARGET_RESOURCES) ValueError,
       raise_if (\<not> distinct ts) ValueError]
      @ map (\<lambda>t. raise_if (t = [] \<or> length t > 256 \<or> (\<exists>c \<in> set t. (of_char c :: nat) < 0x20)) ValueError) ts)"

definition envelope_validate :: "decision_envelope \<Rightarrow> unit res" where
  "envelope_validate e = allR
     ([raise_if (de_schema_version e \<noteq> ENVELOPE_SCHEMA_VERSION) ValueError,
       id_length_check (de_envelope_id e), id_length_check (de_effect_type e),
       targets_check (de_target_resources e),
       raise_if (length (de_parameter_constraints e) > MAX_ENVELOPE_CONSTRAINTS) ValueError]
      @ map (\<lambda>(k, _). validate_constraint_key k) (de_parameter_constraints e)
      @ [opt_digest_check (de_causal_graph_hash e),
         id_length_check (de_nonce e), id_length_check (de_key_id e),
         raise_if (de_algorithm e \<noteq> ''ed25519'') ValueError,
         raise_if (de_expires_at e \<le> de_not_before e) ValueError])"

text \<open>Construction sorts the resources and the constraints.\<close>

definition envelope_new :: "decision_envelope \<Rightarrow> decision_envelope res" where
  "envelope_new e = thenR (envelope_validate e)
     (Inr (e\<lparr>de_target_resources := sort (de_target_resources e),
             de_parameter_constraints := sort_key fst (de_parameter_constraints e)\<rparr>))"

definition build_decision_envelope :: "decision_envelope \<Rightarrow> decision_envelope res" where
  "build_decision_envelope args =
     (if principal_type (de_issuer args) = AGENT then Inl (DecisionEnvelopeE DecisionEnvelopeIssuerNotAuthorizedError)
      else envelope_new (args\<lparr>de_schema_version := ENVELOPE_SCHEMA_VERSION, de_algorithm := ''ed25519'', de_signature := None\<rparr>))"

definition envelope_payload :: "crypto \<Rightarrow> decision_envelope \<Rightarrow> json" where
  "envelope_payload cr e = JObj
     [(''schema_version'', JStr (de_schema_version e)),
      (''envelope_id'', JStr (de_envelope_id e)),
      (''effect_type'', JStr (de_effect_type e)),
      (''adapter'', adapter_identity_json (de_adapter e)),
      (''target_resources'', jstrs (de_target_resources e)),
      (''parameter_constraints'', JObj (map (\<lambda>(k, c). (k, constraint_json c)) (de_parameter_constraints e))),
      (''forbid_unknown_parameters'', JBool (de_forbid_unknown_parameters e)),
      (''require_all_constrained_parameters'', JBool (de_require_all_constrained_parameters e)),
      (''max_estimated_cost'', case de_max_estimated_cost e of None \<Rightarrow> JNull | Some a \<Rightarrow> monetary_json a),
      (''causal_graph_hash'', jstr_opt (de_causal_graph_hash e)),
      (''issuer'', principal_json (de_issuer e)),
      (''created_at'', JStr (cr_iso cr (de_created_at e))),
      (''not_before'', JStr (cr_iso cr (de_not_before e))),
      (''expires_at'', JStr (cr_iso cr (de_expires_at e))),
      (''nonce'', JStr (de_nonce e)),
      (''key_id'', JStr (de_key_id e)),
      (''algorithm'', JStr (de_algorithm e))]"

definition envelope_hash :: "crypto \<Rightarrow> decision_envelope \<Rightarrow> string" where
  "envelope_hash cr e = canonical_hash (cr_sha256 cr) (envelope_payload cr e)"

definition envelope_effective_at :: "decision_envelope \<Rightarrow> time \<Rightarrow> bool" where
  "envelope_effective_at e when \<longleftrightarrow> de_not_before e \<le> when \<and> when < de_expires_at e"

definition assert_manifest_fits_envelope :: "effect_manifest \<Rightarrow> decision_envelope \<Rightarrow> unit res" where
  "assert_manifest_fits_envelope m e =
     (let params = m_parameters m; constraints = de_parameter_constraints e;
          param_keys = map fst params; constrained_keys = map fst constraints
      in allR
       ([raise_if (m_effect_type m \<noteq> de_effect_type e) constraint_error,
         raise_if (m_adapter m \<noteq> de_adapter e) constraint_error,
         raise_if (m_target_resource m \<notin> set (de_target_resources e)) constraint_error,
         raise_if (de_forbid_unknown_parameters e \<and> \<not> set param_keys \<subseteq> set constrained_keys) constraint_error,
         raise_if (de_require_all_constrained_parameters e \<and> \<not> set constrained_keys \<subseteq> set param_keys) constraint_error]
        @ map (\<lambda>(k, c). case map_of params k of None \<Rightarrow> Inr () | Some v \<Rightarrow> accepts c v) constraints
        @ [case de_max_estimated_cost e of
             None \<Rightarrow> Inr ()
           | Some cap \<Rightarrow> (case m_estimated_cost m of
               None \<Rightarrow> Inl constraint_error
             | Some cost \<Rightarrow> allR [raise_if (currency cost \<noteq> currency cap) constraint_error,
                 raise_if (minor_units cost > minor_units cap) constraint_error])]))"

definition cost_cap_check :: "monetary_amount option \<Rightarrow> monetary_amount option \<Rightarrow> unit res" where
  "cost_cap_check child parent = (case parent of
      None \<Rightarrow> Inr ()
    | Some p \<Rightarrow> (case child of
        None \<Rightarrow> Inl constraint_error
      | Some c \<Rightarrow> allR [raise_if (currency c \<noteq> currency p) (DelegationE IncomparableConstraintError),
          raise_if (minor_units c > minor_units p) constraint_error]))"

definition assert_envelope_narrower_or_equal :: "decision_envelope \<Rightarrow> decision_envelope \<Rightarrow> unit res" where
  "assert_envelope_narrower_or_equal child parent =
     (let pcs = de_parameter_constraints parent; ccs = de_parameter_constraints child in allR
      ([raise_if (de_effect_type child \<noteq> de_effect_type parent) (DelegationE IncomparableConstraintError),
        raise_if (de_adapter child \<noteq> de_adapter parent) (DelegationE IncomparableConstraintError),
        raise_if (\<not> set (de_target_resources child) \<subseteq> set (de_target_resources parent)) constraint_error,
        cost_cap_check (de_max_estimated_cost child) (de_max_estimated_cost parent),
        raise_if (de_causal_graph_hash child \<noteq> de_causal_graph_hash parent) constraint_error,
        raise_if (de_forbid_unknown_parameters parent \<and> \<not> de_forbid_unknown_parameters child) constraint_error,
        raise_if (de_require_all_constrained_parameters parent \<and> \<not> de_require_all_constrained_parameters child) constraint_error,
        raise_if (\<not> set (map fst pcs) \<subseteq> set (map fst ccs)) constraint_error]
       @ map (\<lambda>(k, p). case map_of ccs k of None \<Rightarrow> Inl KeyError | Some c \<Rightarrow> assert_constraint_narrower_or_equal c p)
           (sort_key fst pcs)
       @ [raise_if (de_expires_at child > de_expires_at parent) constraint_error,
          raise_if (de_not_before child < de_not_before parent) constraint_error]))"

definition require_matching_envelope_hash :: "crypto \<Rightarrow> decision_envelope \<Rightarrow> string \<Rightarrow> unit res" where
  "require_matching_envelope_hash cr e expected =
     raise_if (envelope_hash cr e \<noteq> expected) (DecisionEnvelopeE DecisionEnvelopeMismatchError)"

section \<open>Sealing\<close>

definition seal_decision_envelope :: "crypto \<Rightarrow> decision_envelope \<Rightarrow> signing_key \<Rightarrow> decision_envelope res" where
  "seal_decision_envelope cr e key =
     thenR (allR [raise_if (de_key_id e \<noteq> sk_key_id key) (CryptoE InvalidSignatureError),
                  raise_if (de_signature e \<noteq> None) (CryptoE InvalidSignatureError)])
       (Inr (e\<lparr>de_signature := Some (sk_sign cr key (envelope_hash cr e))\<rparr>))"

definition verify_decision_envelope :: "crypto \<Rightarrow> decision_envelope \<Rightarrow> keyring \<Rightarrow> time \<Rightarrow> unit res" where
  "verify_decision_envelope cr e kr now = (case de_signature e of
      None \<Rightarrow> Inl (CryptoE InvalidSignatureError)
    | Some sig \<Rightarrow> allR
        [kr_verify cr kr (de_key_id e) (envelope_hash cr e) sig,
         raise_if (now < de_not_before e) (DecisionEnvelopeE DecisionEnvelopeNotYetValidError),
         raise_if (now \<ge> de_expires_at e) (DecisionEnvelopeE DecisionEnvelopeExpiredError)])"

definition assert_envelope_integrity :: "crypto \<Rightarrow> decision_envelope \<Rightarrow> string \<Rightarrow> unit res" where
  "assert_envelope_integrity cr e expected =
     raise_if (envelope_hash cr e \<noteq> expected) (DecisionEnvelopeE DecisionEnvelopeTamperedError)"

section \<open>Substitution\<close>

abbreviation substitution_error :: exn where
  "substitution_error \<equiv> DecisionEnvelopeE DecisionEnvelopeSubstitutionError"

definition substitute_one ::
    "(string \<times> parameter_value) list \<Rightarrow> string \<times> parameter_constraint \<Rightarrow> (string \<times> parameter_value) res" where
  "substitute_one choices kc = (case kc of (k, c) \<Rightarrow>
     bindR (if pc_kind c = ExactK
            then (case map_of choices k of
                Some v \<Rightarrow> if pv_eq v (pc_exact_value c) then Inr (pc_exact_value c) else Inl substitution_error
              | None \<Rightarrow> Inr (pc_exact_value c))
            else (case map_of choices k of None \<Rightarrow> Inl substitution_error | Some v \<Rightarrow> Inr v))
       (\<lambda>v. case accepts c v of
          Inl x \<Rightarrow> Inl (if x = constraint_error then substitution_error else x)
        | Inr _ \<Rightarrow> Inr (k, v)))"

definition substitute_parameters ::
    "decision_envelope \<Rightarrow> (string \<times> parameter_value) list \<Rightarrow> (string \<times> parameter_value) list res" where
  "substitute_parameters e choices =
     (if \<not> set (map fst choices) \<subseteq> set (map fst (de_parameter_constraints e)) then Inl substitution_error
      else seqR (map (substitute_one choices) (sort_key fst (de_parameter_constraints e))))"

definition default_exact_parameters :: "decision_envelope \<Rightarrow> (string \<times> parameter_value) list" where
  "default_exact_parameters e = map (\<lambda>(k, c). (k, pc_exact_value c))
     (filter (\<lambda>(k, c). pc_kind c = ExactK) (sort_key fst (de_parameter_constraints e)))"

definition missing_substitution_keys :: "decision_envelope \<Rightarrow> (string \<times> parameter_value) list \<Rightarrow> string list" where
  "missing_substitution_keys e choices = sort (map fst
     (filter (\<lambda>(k, c). pc_kind c \<noteq> ExactK \<and> k \<notin> set (map fst choices)) (de_parameter_constraints e)))"

definition is_fully_exact :: "decision_envelope \<Rightarrow> bool" where
  "is_fully_exact e \<longleftrightarrow> list_all (\<lambda>(k, c). pc_kind c = ExactK) (de_parameter_constraints e)"

section \<open>Atomic plans\<close>

definition assert_manifest_in_plan :: "crypto \<Rightarrow> string \<Rightarrow> causal_graph \<Rightarrow> keyring option \<Rightarrow> unit res" where
  "assert_manifest_in_plan cr mh g kr =
     thenR (case kr of None \<Rightarrow> Inr ()
            | Some k \<Rightarrow> (case graph_verify cr g k of Inl _ \<Rightarrow> Inl AtomicPlanError | Inr _ \<Rightarrow> Inr ()))
       (raise_if (mh \<notin> set (cg_nodes g)) AtomicPlanError)"

definition require_matching_plan_hash :: "crypto \<Rightarrow> causal_graph \<Rightarrow> string \<Rightarrow> unit res" where
  "require_matching_plan_hash cr g expected = raise_if (graph_hash cr g \<noteq> expected) AtomicPlanError"

definition plan_node_count :: "causal_graph \<Rightarrow> nat" where
  "plan_node_count g = length (cg_nodes g)"

section \<open>Narrowing is sound\<close>

text \<open>\<open>pv_eq\<close> identifies a value with its reading as a number.\<close>

fun pv_norm :: "parameter_value \<Rightarrow> parameter_value" where
  "pv_norm (PBool b) = PInt (if b then 1 else 0)"
| "pv_norm v = v"

lemma pv_eq_norm: "pv_eq v w \<longleftrightarrow> pv_norm v = pv_norm w"
  by (cases v; cases w) auto

lemma pv_in_norm: "pv_in v ws \<longleftrightarrow> pv_norm v \<in> pv_norm ` set ws"
  by (auto simp: pv_in_def list_ex_iff pv_eq_norm)

fun is_pbool :: "parameter_value \<Rightarrow> bool" where
  "is_pbool (PBool _) = True"
| "is_pbool _ = False"

lemma pv_norm_not_bool: "pv_norm w = PInt i \<Longrightarrow> \<not> is_pbool w \<Longrightarrow> w = PInt i"
  by (cases w) auto

definition is_range :: "parameter_constraint \<Rightarrow> bool" where
  "is_range c \<longleftrightarrow> pc_kind c = IntegerRangeK \<or> pc_kind c = MonetaryRangeK"

lemma accepts_norm:
  assumes "is_ok (accepts c v)" "pv_norm v = pv_norm w" "is_range c \<longrightarrow> \<not> is_pbool w"
  shows "is_ok (accepts c w)"
proof (cases "is_range c")
  case True
  then obtain i where v: "v = PInt i"
    using assms(1) by (cases v) (auto simp: accepts_def is_range_def)
  then have "w = PInt i"
    using assms(2,3) True pv_norm_not_bool [of w i] by simp
  then show ?thesis using assms(1) v by simp
next
  case False
  then show ?thesis using assms(1,2)
    by (cases "pc_kind c") (auto simp: accepts_def is_range_def pv_eq_norm pv_in_norm split: option.splits)
qed

lemma constraint_narrowing_sound:
  assumes "is_ok (assert_constraint_narrower_or_equal c p)" "is_ok (accepts c v)" "is_range p \<longrightarrow> \<not> is_pbool v"
  shows "is_ok (accepts p v)"
proof (cases "pc_kind c")
  case ExactK
  then show ?thesis using assms accepts_norm [of p "pc_exact_value c" v]
    by (simp add: assert_constraint_narrower_or_equal_def accepts_def [of c] pv_eq_norm)
next
  case EnumK
  then obtain vs w where vs: "pc_allowed_values c = Some vs" "w \<in> set vs" "pv_norm v = pv_norm w"
    using assms(2) by (auto simp: accepts_def pv_in_norm split: option.splits)
  have "is_ok (accepts p w)"
    using EnumK assms(1) vs(1,2)
    by (cases "pc_kind p")
      (auto simp: assert_constraint_narrower_or_equal_def accepts_def [of p] list_all_iff split: option.splits)
  then show ?thesis using accepts_norm [of p w v] vs(3) assms(3) by simp
next
  case IntegerRangeK
  then show ?thesis using assms(1,2)
    by (cases "pc_kind p"; cases v)
      (auto simp: assert_constraint_narrower_or_equal_def accepts_def assert_int_bounds_narrower_def
        lower_widens_def upper_widens_def split: option.splits)
next
  case MonetaryRangeK
  then show ?thesis using assms(1,2)
    by (cases "pc_kind p"; cases v; cases "pc_currency p")
      (auto simp: assert_constraint_narrower_or_equal_def accepts_def assert_money_bounds_narrower_def
        lower_widens_def upper_widens_def split: option.splits if_splits)
qed

text \<open>A boolean given for a parameter that the envelope bounds by a range.\<close>

definition bool_under_range :: "effect_manifest \<Rightarrow> decision_envelope \<Rightarrow> bool" where
  "bool_under_range m e \<longleftrightarrow> list_ex (\<lambda>(k, c). is_range c \<and>
     (case map_of (m_parameters m) k of None \<Rightarrow> False | Some v \<Rightarrow> is_pbool v)) (de_parameter_constraints e)"

definition cost_fits :: "monetary_amount option \<Rightarrow> monetary_amount option \<Rightarrow> bool" where
  "cost_fits cap cost \<longleftrightarrow> (case cap of None \<Rightarrow> True | Some p \<Rightarrow>
     (case cost of None \<Rightarrow> False | Some c \<Rightarrow> currency c = currency p \<and> minor_units c \<le> minor_units p))"

text \<open>The envelope's conditions as a predicate.\<close>

definition header_fits :: "effect_manifest \<Rightarrow> decision_envelope \<Rightarrow> bool" where
  "header_fits m e \<longleftrightarrow> m_effect_type m = de_effect_type e \<and> m_adapter m = de_adapter e
     \<and> m_target_resource m \<in> set (de_target_resources e)
     \<and> cost_fits (de_max_estimated_cost e) (m_estimated_cost m)"

definition parameters_fit :: "(string \<times> parameter_value) list \<Rightarrow> decision_envelope \<Rightarrow> bool" where
  "parameters_fit ps e \<longleftrightarrow>
     (de_forbid_unknown_parameters e \<longrightarrow> fst ` set ps \<subseteq> fst ` set (de_parameter_constraints e))
   \<and> (de_require_all_constrained_parameters e \<longrightarrow> fst ` set (de_parameter_constraints e) \<subseteq> fst ` set ps)
   \<and> (\<forall>(k, c) \<in> set (de_parameter_constraints e). \<forall>v. map_of ps k = Some v \<longrightarrow> is_ok (accepts c v))"

lemma manifest_fits_iff:
  "assert_manifest_fits_envelope m e = Inr () \<longleftrightarrow> header_fits m e \<and> parameters_fit (m_parameters m) e"
proof -
  have cost: "is_ok (case de_max_estimated_cost e of None \<Rightarrow> Inr ()
       | Some cap \<Rightarrow> (case m_estimated_cost m of None \<Rightarrow> Inl constraint_error
         | Some cost \<Rightarrow> allR [raise_if (currency cost \<noteq> currency cap) constraint_error,
             raise_if (minor_units cost > minor_units cap) constraint_error]))
     \<longleftrightarrow> cost_fits (de_max_estimated_cost e) (m_estimated_cost m)"
    by (auto simp: cost_fits_def split: option.splits)
  have acc: "(\<forall>x\<in>set (de_parameter_constraints e).
       is_ok (case x of (k, c) \<Rightarrow> case map_of (m_parameters m) k of None \<Rightarrow> Inr () | Some v \<Rightarrow> accepts c v))
     \<longleftrightarrow> (\<forall>(k, c) \<in> set (de_parameter_constraints e). \<forall>v. map_of (m_parameters m) k = Some v \<longrightarrow> is_ok (accepts c v))"
    by (fastforce split: option.splits)
  show ?thesis
    by (simp add: assert_manifest_fits_envelope_def header_fits_def parameters_fit_def Let_def
        is_ok_unit [symmetric] ball_Un acc cost)
       (auto simp: cost)
qed

lemma envelope_narrower_iff:
  "assert_envelope_narrower_or_equal child parent = Inr () \<longleftrightarrow>
     de_effect_type child = de_effect_type parent \<and> de_adapter child = de_adapter parent
   \<and> set (de_target_resources child) \<subseteq> set (de_target_resources parent)
   \<and> is_ok (cost_cap_check (de_max_estimated_cost child) (de_max_estimated_cost parent))
   \<and> de_causal_graph_hash child = de_causal_graph_hash parent
   \<and> (de_forbid_unknown_parameters parent \<longrightarrow> de_forbid_unknown_parameters child)
   \<and> (de_require_all_constrained_parameters parent \<longrightarrow> de_require_all_constrained_parameters child)
   \<and> fst ` set (de_parameter_constraints parent) \<subseteq> fst ` set (de_parameter_constraints child)
   \<and> (\<forall>(k, p) \<in> set (de_parameter_constraints parent). \<exists>c. map_of (de_parameter_constraints child) k = Some c
        \<and> is_ok (assert_constraint_narrower_or_equal c p))
   \<and> de_expires_at child \<le> de_expires_at parent \<and> de_not_before parent \<le> de_not_before child"
proof -
  have cs: "(\<forall>x\<in>set (de_parameter_constraints parent).
       is_ok (case x of (k, p) \<Rightarrow> case map_of (de_parameter_constraints child) k of None \<Rightarrow> Inl KeyError
              | Some c \<Rightarrow> assert_constraint_narrower_or_equal c p))
     \<longleftrightarrow> (\<forall>(k, p) \<in> set (de_parameter_constraints parent). \<exists>c. map_of (de_parameter_constraints child) k = Some c
        \<and> is_ok (assert_constraint_narrower_or_equal c p))"
    by (fastforce split: option.splits)
  show ?thesis
    by (simp add: assert_envelope_narrower_or_equal_def Let_def is_ok_unit [symmetric] ball_Un cs) auto
qed

lemma envelope_narrowerD:
  assumes "assert_envelope_narrower_or_equal child parent = Inr ()"
  shows "de_effect_type child = de_effect_type parent" "de_adapter child = de_adapter parent"
    and "set (de_target_resources child) \<subseteq> set (de_target_resources parent)"
    and "is_ok (cost_cap_check (de_max_estimated_cost child) (de_max_estimated_cost parent))"
    and "de_forbid_unknown_parameters parent \<Longrightarrow> de_forbid_unknown_parameters child"
    and "de_require_all_constrained_parameters parent \<Longrightarrow> de_require_all_constrained_parameters child"
    and "fst ` set (de_parameter_constraints parent) \<subseteq> fst ` set (de_parameter_constraints child)"
    and "de_expires_at child \<le> de_expires_at parent" "de_not_before parent \<le> de_not_before child"
  using assms [unfolded envelope_narrower_iff] by simp_all

lemma cost_cap_sound:
  "is_ok (cost_cap_check cc pc) \<Longrightarrow> cost_fits cc cost \<Longrightarrow> cost_fits pc cost"
  by (auto simp: cost_cap_check_def cost_fits_def split: option.splits)

lemma parameters_fit_narrower:
  assumes narrow: "assert_envelope_narrower_or_equal child parent = Inr ()"
    and fits: "parameters_fit (m_parameters m) child"
    and known: "de_forbid_unknown_parameters parent \<longrightarrow>
      fst ` set (de_parameter_constraints child) \<subseteq> fst ` set (de_parameter_constraints parent)"
    and plain: "\<not> bool_under_range m parent"
  shows "parameters_fit (m_parameters m) parent"
  unfolding parameters_fit_def
proof (intro conjI impI)
  assume "de_forbid_unknown_parameters parent"
  then show "fst ` set (m_parameters m) \<subseteq> fst ` set (de_parameter_constraints parent)"
    using envelope_narrowerD(5) [OF narrow] fits known
    by (simp add: parameters_fit_def) (meson subset_trans)
next
  assume "de_require_all_constrained_parameters parent"
  then show "fst ` set (de_parameter_constraints parent) \<subseteq> fst ` set (m_parameters m)"
    using envelope_narrowerD(6,7) [OF narrow] fits
    by (simp add: parameters_fit_def) (meson subset_trans)
next
  show "\<forall>(k, p) \<in> set (de_parameter_constraints parent). \<forall>v. map_of (m_parameters m) k = Some v \<longrightarrow> is_ok (accepts p v)"
  proof clarify
    fix k p v
    assume p: "(k, p) \<in> set (de_parameter_constraints parent)" and v: "map_of (m_parameters m) k = Some v"
    then obtain c where c: "map_of (de_parameter_constraints child) k = Some c"
        "is_ok (assert_constraint_narrower_or_equal c p)"
      using narrow unfolding envelope_narrower_iff by blast
    then have "is_ok (accepts c v)"
      using fits v map_of_SomeD [OF c(1)] unfolding parameters_fit_def by blast
    moreover have "is_range p \<longrightarrow> \<not> is_pbool v"
      using plain p v by (auto simp: bool_under_range_def list_ex_iff)
    ultimately show "is_ok (accepts p v)"
      using constraint_narrowing_sound [OF c(2)] by blast
  qed
qed

text \<open>C23. Attenuating an envelope never widens it: what fits a narrower envelope fits the wider one, and
  the narrower one is in force only while the wider one is.  Two things the code does not check are
  hypotheses here: under a parent that forbids unknown parameters the child constrains no further
  parameter, and no boolean is given where the parent asks for a number.\<close>

theorem envelope_narrowing_sound:
  assumes "assert_envelope_narrower_or_equal child parent = Inr ()"
    and "assert_manifest_fits_envelope m child = Inr ()"
    and "de_forbid_unknown_parameters parent \<longrightarrow>
      fst ` set (de_parameter_constraints child) \<subseteq> fst ` set (de_parameter_constraints parent)"
    and "\<not> bool_under_range m parent"
  shows "assert_manifest_fits_envelope m parent = Inr ()
     \<and> (\<forall>now. envelope_effective_at child now \<longrightarrow> envelope_effective_at parent now)"
proof
  have h: "header_fits m child" "parameters_fit (m_parameters m) child"
    using assms(2) by (simp_all add: manifest_fits_iff)
  note n = envelope_narrowerD [OF assms(1)]
  have "header_fits m parent"
    using h(1) n(1-3) cost_cap_sound [OF n(4)] by (auto simp: header_fits_def)
  then show "assert_manifest_fits_envelope m parent = Inr ()"
    using parameters_fit_narrower [OF assms(1) h(2) assms(3,4)] by (simp add: manifest_fits_iff)
  show "\<forall>now. envelope_effective_at child now \<longrightarrow> envelope_effective_at parent now"
    using n(8,9) by (auto simp: envelope_effective_at_def)
qed

definition toy_envelope :: decision_envelope where
  "toy_envelope = \<lparr>de_schema_version = ''1.0'', de_envelope_id = ''e-1'', de_effect_type = ''refund'',
     de_adapter = \<lparr>adapter_id = ''pay'', adapter_version = ''1''\<rparr>, de_target_resources = [''order/7''],
     de_parameter_constraints = [(''amount'', (blank_constraint IntegerRangeK)\<lparr>pc_min_int := Some 1, pc_max_int := Some 500\<rparr>)],
     de_forbid_unknown_parameters = True, de_require_all_constrained_parameters = True,
     de_max_estimated_cost = None, de_causal_graph_hash = None, de_issuer = toy_principal ''alice'' HUMAN,
     de_created_at = 0, de_not_before = 0, de_expires_at = 900, de_nonce = ''n-2'', de_key_id = ''key-1'',
     de_algorithm = ''ed25519'', de_signature = None\<rparr>"

definition narrow_envelope :: decision_envelope where
  "narrow_envelope = toy_envelope\<lparr>de_expires_at := 800, de_parameter_constraints :=
     [(''amount'', (blank_constraint EnumK)\<lparr>pc_allowed_values := Some [PInt 50, PInt 100]\<rparr>)]\<rparr>"

theorem envelope_narrowing_sound_witness:
  "assert_envelope_narrower_or_equal narrow_envelope toy_envelope = Inr ()
   \<and> assert_manifest_fits_envelope toy_manifest toy_envelope = Inr ()"
proof -
  have n: "assert_envelope_narrower_or_equal narrow_envelope toy_envelope = Inr ()"
    by code_simp
  have "assert_manifest_fits_envelope toy_manifest narrow_envelope = Inr ()"
    by code_simp
  moreover have "fst ` set (de_parameter_constraints narrow_envelope) \<subseteq> fst ` set (de_parameter_constraints toy_envelope)"
    by (simp add: narrow_envelope_def toy_envelope_def)
  moreover have "\<not> bool_under_range toy_manifest toy_envelope"
    by code_simp
  ultimately show ?thesis
    using n envelope_narrowing_sound [of narrow_envelope toy_envelope toy_manifest] by blast
qed

text \<open>Without the first hypothesis the check lets a child widen its parent: the parent forbids the
  parameter \<^verbatim>\<open>note\<close>, the child constrains it, and a manifest with that parameter fits the child only.\<close>

definition noted_envelope :: decision_envelope where
  "noted_envelope = toy_envelope\<lparr>de_parameter_constraints :=
     (''note'', (blank_constraint ExactK)\<lparr>pc_exact_value := PStr ''x''\<rparr>) # de_parameter_constraints toy_envelope\<rparr>"

definition noted_manifest :: effect_manifest where
  "noted_manifest = toy_manifest\<lparr>m_parameters := [(''amount'', PInt 100), (''note'', PStr ''x'')]\<rparr>"

lemma envelope_added_key_widens:
  "assert_envelope_narrower_or_equal noted_envelope toy_envelope = Inr ()
   \<and> assert_manifest_fits_envelope noted_manifest noted_envelope = Inr ()
   \<and> assert_manifest_fits_envelope noted_manifest toy_envelope = Inl constraint_error"
  by code_simp

section \<open>Substitution stays inside the envelope\<close>

lemma seqR_Inr_iff: "seqR rs = Inr xs \<longleftrightarrow> list_all2 (\<lambda>r x. r = Inr x) rs xs"
proof (induction rs arbitrary: xs)
  case (Cons r rs)
  then show ?case by (cases xs) (auto simp: result_simps)
qed (auto simp: list_all2_Nil)

lemma substitute_oneD:
  "substitute_one choices (k, c) = Inr kv \<Longrightarrow> fst kv = k \<and> is_ok (accepts c (snd kv))"
  unfolding substitute_one_def prod.case bindR_Inr_iff
  by (elim exE conjE, rename_tac v, case_tac "accepts c v") auto

lemma substitute_keys:
  assumes "list_all2 (\<lambda>r x. r = Inr x) (map (substitute_one choices) cs) ps"
  shows "map fst ps = map fst cs"
  using assms
proof (induction cs arbitrary: ps)
  case (Cons kc cs)
  then show ?case using substitute_oneD [of choices "fst kc" "snd kc"]
    by (auto simp: list_all2_Cons1)
qed (auto simp: list_all2_Nil)

lemma substitute_accepts:
  assumes "list_all2 (\<lambda>r x. r = Inr x) (map (substitute_one choices) cs) ps"
    and "distinct (map fst cs)" "(k, c) \<in> set cs" "map_of ps k = Some v"
  shows "is_ok (accepts c v)"
  using assms
proof (induction cs arbitrary: ps)
  case (Cons kc cs)
  then obtain kv ps' where ps: "ps = kv # ps'" "substitute_one choices kc = Inr kv"
      "list_all2 (\<lambda>r x. r = Inr x) (map (substitute_one choices) cs) ps'"
    by (auto simp: list_all2_Cons1)
  have kv: "fst kv = fst kc" "is_ok (accepts (snd kc) (snd kv))"
    using substitute_oneD [of choices "fst kc" "snd kc" kv] ps(2) by simp_all
  show ?case
  proof (cases "k = fst kc")
    case True
    then have "kc = (k, c)" using Cons.prems(2,3) by (force simp: image_iff)
    then show ?thesis using kv Cons.prems(4) ps(1) by (cases kv) simp
  next
    case False
    then have "(k, c) \<in> set cs" "map_of ps' k = Some v"
      using Cons.prems(3,4) ps(1) kv(1) by (auto split: if_splits)
    then show ?thesis using Cons.IH [OF ps(3)] Cons.prems(2) by simp
  qed
qed simp

lemma map_fst_sort_key: "map fst (sort_key fst xs) = sort (map fst xs)"
  by (rule properties_for_sort [symmetric]) simp_all

lemma seqR_substitute:
  assumes "substitute_parameters e choices = Inr ps"
  shows "list_all2 (\<lambda>r x. r = Inr x) (map (substitute_one choices) (sort_key fst (de_parameter_constraints e))) ps"
  using assms by (simp add: substitute_parameters_def seqR_Inr_iff split: if_splits)

lemma substitute_no_missing:
  assumes "list_all2 (\<lambda>r x. r = Inr x) (map (substitute_one choices) cs) ps" "(k, c) \<in> set cs"
  shows "pc_kind c = ExactK \<or> k \<in> fst ` set choices"
proof -
  have "\<exists>kv. substitute_one choices (k, c) = Inr kv"
    using assms by (auto simp: list_all2_conv_all_nth in_set_conv_nth)
  then show ?thesis
    by (cases "map_of choices k")
      (auto simp: substitute_one_def dest!: map_of_SomeD intro: rev_image_eqI)
qed

text \<open>Substitution resolves exactly the constrained parameters, in sorted order, to values the
  envelope accepts: a manifest with these parameters fits the envelope as soon as its effect type,
  adapter, target and cost do.  It succeeds only when no choice is missing.\<close>

theorem substitution_fits_envelope:
  assumes "substitute_parameters e choices = Inr ps"
    and "distinct (map fst (de_parameter_constraints e))"
  shows "(assert_manifest_fits_envelope (m\<lparr>m_parameters := ps\<rparr>) e = Inr () \<longleftrightarrow> header_fits m e)
     \<and> map fst ps = sort (map fst (de_parameter_constraints e))
     \<and> missing_substitution_keys e choices = []"
proof -
  note sub = seqR_substitute [OF assms(1)]
  have keys: "map fst ps = sort (map fst (de_parameter_constraints e))"
    using substitute_keys [OF sub] by (simp add: map_fst_sort_key)
  then have "fst ` set ps = fst ` set (de_parameter_constraints e)"
    by (metis set_map set_sort)
  moreover have "distinct (map fst (sort_key fst (de_parameter_constraints e)))"
    using assms(2) by (simp add: map_fst_sort_key)
  ultimately have "parameters_fit ps e"
    using substitute_accepts [OF sub] by (auto simp: parameters_fit_def)
  moreover have "filter (\<lambda>(k, c). pc_kind c \<noteq> ExactK \<and> k \<notin> set (map fst choices)) (de_parameter_constraints e) = []"
    using substitute_no_missing [OF sub] by (auto simp: filter_empty_conv)
  then have "missing_substitution_keys e choices = []"
    by (simp only: missing_substitution_keys_def) simp
  ultimately show ?thesis
    using keys by (simp add: manifest_fits_iff header_fits_def)
qed

theorem substitution_fits_envelope_witness:
  "substitute_parameters toy_envelope [(''amount'', PInt 100)] = Inr [(''amount'', PInt 100)]
   \<and> missing_substitution_keys toy_envelope [(''amount'', PInt 100)] = []"
proof -
  have "substitute_parameters toy_envelope [(''amount'', PInt 100)] = Inr [(''amount'', PInt 100)]"
    by code_simp
  then show ?thesis
    using substitution_fits_envelope [of toy_envelope "[(''amount'', PInt 100)]" "[(''amount'', PInt 100)]" toy_manifest]
    by (simp add: toy_envelope_def)
qed

section \<open>Sealed envelopes verify\<close>

lemma seal_verify_envelope:
  assumes "crypto_ok cr" "kr (sk_key_id key) = Some (sk_verification_key cr key)"
    and "seal_decision_envelope cr e key = Inr e'"
  shows "verify_decision_envelope cr e' kr now = Inr () \<longleftrightarrow> envelope_effective_at e now"
    and "envelope_hash cr e' = envelope_hash cr e"
proof -
  have e': "e' = e\<lparr>de_signature := Some (sk_sign cr key (envelope_hash cr e))\<rparr>" "de_key_id e = sk_key_id key"
    using assms(3) by (auto simp: seal_decision_envelope_def result_simps)
  show h: "envelope_hash cr e' = envelope_hash cr e"
    by (simp add: e'(1) envelope_hash_def envelope_payload_def)
  show "verify_decision_envelope cr e' kr now = Inr () \<longleftrightarrow> envelope_effective_at e now"
    unfolding verify_decision_envelope_def h
    by (auto simp: e' kr_verify_def kr_get_def assms(2) vk_verify_sign [OF assms(1)] result_simps
        envelope_effective_at_def)
qed

end
