(* ===== verification/Saga.thy ===== *)
theory Saga
  imports Causal
begin

text \<open>
  Sagas (\<^verbatim>\<open>saga/model.py\<close>, \<^verbatim>\<open>saga/machine.py\<close>): the plan built from a causal graph, the run with
  one record per step, and the transition functions on runs.  The engine's saga methods compose
  these functions; what they do to a run is the step relation \<open>saga_step\<close>, over which the
  invariants are proved.

  Step indices and cursors start at zero and are only ever set to a step's index or its
  successor, so they are natural numbers, and the test \<^verbatim>\<open>run.cursor < 0\<close> never applies.  A subscript
  out of range raises \<^verbatim>\<open>IndexError\<close>.
\<close>

section \<open>Plans and runs\<close>

datatype compensation_status = REFUSED | ATTEMPTED | COMP_VERIFIED

primrec compensation_status_value :: "compensation_status \<Rightarrow> string" where
  "compensation_status_value REFUSED = ''refused''"
| "compensation_status_value ATTEMPTED = ''attempted''"
| "compensation_status_value COMP_VERIFIED = ''verified''"

datatype saga_run_status =
    RunPending | RunRunning | RunAwaitingRecovery | RunCompensating | RunCompleted
  | RunFailedPartial | RunAborted

primrec run_status_value :: "saga_run_status \<Rightarrow> string" where
  "run_status_value RunPending = ''pending''"
| "run_status_value RunRunning = ''running''"
| "run_status_value RunAwaitingRecovery = ''awaiting_recovery''"
| "run_status_value RunCompensating = ''compensating''"
| "run_status_value RunCompleted = ''completed''"
| "run_status_value RunFailedPartial = ''failed_partial''"
| "run_status_value RunAborted = ''aborted''"

datatype saga_step_status =
    StepPending | StepReady | StepAuthorized | StepCommitting | StepCommitted | StepVerified
  | StepFailed | StepAmbiguous | StepCompensating | StepCompensated | StepCompensationRefused
  | StepCompensationFailed

primrec step_status_value :: "saga_step_status \<Rightarrow> string" where
  "step_status_value StepPending = ''pending''"
| "step_status_value StepReady = ''ready''"
| "step_status_value StepAuthorized = ''authorized''"
| "step_status_value StepCommitting = ''committing''"
| "step_status_value StepCommitted = ''committed''"
| "step_status_value StepVerified = ''verified''"
| "step_status_value StepFailed = ''failed''"
| "step_status_value StepAmbiguous = ''ambiguous''"
| "step_status_value StepCompensating = ''compensating''"
| "step_status_value StepCompensated = ''compensated''"
| "step_status_value StepCompensationRefused = ''compensation_refused''"
| "step_status_value StepCompensationFailed = ''compensation_failed''"

record saga_step_record =
  ss_manifest_hash :: string
  ss_index :: nat
  ss_status :: saga_step_status
  ss_grant_id :: "string option"
  ss_commit_success :: "bool option"
  ss_provider_reference :: "string option"
  ss_ambiguous :: bool
  ss_compensation_status :: "compensation_status option"
  ss_detail :: "string option"

record saga_plan =
  sp_saga_id :: string
  sp_causal_graph_hash :: string
  sp_step_manifest_hashes :: "string list"
  sp_created_at :: time
  sp_nonce :: string

definition plan_validate :: "saga_plan \<Rightarrow> unit res" where
  "plan_validate p = (let steps = sp_step_manifest_hashes p in allR
     [raise_if (steps = []) ValueError, raise_if (length steps > MAX_SAGA_STEPS) ValueError,
      raise_if (\<not> distinct steps) ValueError])"

definition plan_json :: "crypto \<Rightarrow> saga_plan \<Rightarrow> json" where
  "plan_json cr p = JObj
     [(''saga_id'', JStr (sp_saga_id p)), (''causal_graph_hash'', JStr (sp_causal_graph_hash p)),
      (''step_manifest_hashes'', JList (map JStr (sp_step_manifest_hashes p))),
      (''created_at'', JStr (cr_iso cr (sp_created_at p))), (''nonce'', JStr (sp_nonce p))]"

definition plan_hash :: "crypto \<Rightarrow> saga_plan \<Rightarrow> string" where
  "plan_hash cr p = canonical_hash (cr_sha256 cr) (plan_json cr p)"

record saga_run =
  sr_run_id :: string
  sr_plan :: saga_plan
  sr_status :: saga_run_status
  sr_steps :: "saga_step_record list"
  sr_cursor :: nat
  sr_compensation_cursor :: "nat option"

definition build_saga_plan :: "crypto \<Rightarrow> causal_graph \<Rightarrow> string \<Rightarrow> string \<Rightarrow> time \<Rightarrow> saga_plan res" where
  "build_saga_plan cr graph saga_id nonce created_at =
     bindR (topo_manifest_hashes graph) (\<lambda>ordered.
     thenR (raise_if (set ordered \<noteq> set (cg_nodes graph)) (SagaE SagaPlanError))
       (let p = \<lparr>sp_saga_id = saga_id, sp_causal_graph_hash = graph_hash cr graph,
                 sp_step_manifest_hashes = ordered, sp_created_at = created_at, sp_nonce = nonce\<rparr>
        in thenR (plan_validate p) (Inr p)))"

definition new_step :: "nat \<Rightarrow> string \<Rightarrow> saga_step_record" where
  "new_step i h = \<lparr>ss_manifest_hash = h, ss_index = i,
     ss_status = (if i = 0 then StepReady else StepPending), ss_grant_id = None,
     ss_commit_success = None, ss_provider_reference = None, ss_ambiguous = False,
     ss_compensation_status = None, ss_detail = None\<rparr>"

definition build_saga_run :: "saga_plan \<Rightarrow> string \<Rightarrow> saga_run" where
  "build_saga_run plan run_id =
     \<lparr>sr_run_id = run_id, sr_plan = plan, sr_status = RunPending,
      sr_steps = map (\<lambda>i. new_step i (sp_step_manifest_hashes plan ! i)) [0..<length (sp_step_manifest_hashes plan)],
      sr_cursor = 0, sr_compensation_cursor = None\<rparr>"

section \<open>Transitions\<close>

definition step_at :: "saga_run \<Rightarrow> nat \<Rightarrow> saga_step_record res" where
  "step_at run i = (if i < length (sr_steps run) then Inr (sr_steps run ! i) else Inl (OtherError ''IndexError''))"

definition replace_step :: "saga_run \<Rightarrow> nat \<Rightarrow> saga_step_record \<Rightarrow> saga_run res" where
  "replace_step run i step =
     (if i < length (sr_steps run) then Inr (run\<lparr>sr_steps := (sr_steps run)[i := step]\<rparr>)
      else Inl (OtherError ''IndexError''))"

definition find_step :: "saga_run \<Rightarrow> string \<Rightarrow> saga_step_record option" where
  "find_step run h = find (\<lambda>s. ss_manifest_hash s = h) (sr_steps run)"

definition assert_can_commit_step :: "saga_run \<Rightarrow> string \<Rightarrow> nat res" where
  "assert_can_commit_step run h =
     (if sr_cursor run \<ge> length (sr_steps run) then Inl (SagaE SagaIllegalTransitionError)
      else let step = sr_steps run ! sr_cursor run in
        if ss_manifest_hash step \<noteq> h then Inl (SagaE SagaIllegalTransitionError)
        else if ss_status step = StepAmbiguous \<or> ss_ambiguous step then Inl (SagaE SagaAmbiguousStepError)
        else if sr_status run \<in> {RunAwaitingRecovery, RunCompensating, RunCompleted, RunFailedPartial, RunAborted}
          then Inl (SagaE SagaIllegalTransitionError)
        else if ss_status step \<noteq> StepAuthorized then Inl (SagaE SagaIllegalTransitionError)
        else Inr (sr_cursor run))"

definition assert_can_recover_step :: "saga_run \<Rightarrow> string \<Rightarrow> nat res" where
  "assert_can_recover_step run h =
     (if sr_status run \<noteq> RunAwaitingRecovery then Inl (SagaE SagaIllegalTransitionError)
      else case find_step run h of
          None \<Rightarrow> Inl (SagaE SagaIllegalTransitionError)
        | Some step \<Rightarrow> if ss_status step \<noteq> StepAmbiguous then Inl (SagaE SagaIllegalTransitionError)
            else Inr (ss_index step))"

definition mark_step_authorized :: "saga_run \<Rightarrow> string \<Rightarrow> string \<Rightarrow> saga_run res" where
  "mark_step_authorized run h grant_id =
     (if sr_cursor run \<ge> length (sr_steps run) then Inl (SagaE SagaIllegalTransitionError)
      else let step = sr_steps run ! sr_cursor run in
        if ss_manifest_hash step \<noteq> h then Inl (SagaE SagaIllegalTransitionError)
        else if ss_status step \<notin> {StepReady, StepPending} then Inl (SagaE SagaIllegalTransitionError)
        else bindR (replace_step run (ss_index step)
               (step\<lparr>ss_status := StepAuthorized, ss_grant_id := Some grant_id\<rparr>))
             (\<lambda>updated. Inr (updated\<lparr>sr_status := RunRunning\<rparr>)))"

definition committed_indices :: "saga_run \<Rightarrow> nat list" where
  "committed_indices run =
     map ss_index (filter (\<lambda>s. ss_status s \<in> {StepCommitted, StepVerified}) (sr_steps run))"

definition start_compensation :: "saga_run \<Rightarrow> saga_run" where
  "start_compensation run =
     (if committed_indices run = [] then run\<lparr>sr_status := RunAborted\<rparr>
      else run\<lparr>sr_status := RunCompensating, sr_compensation_cursor := Some (Max (set (committed_indices run)))\<rparr>)"

definition mark_step_failed :: "saga_run \<Rightarrow> string \<Rightarrow> string option \<Rightarrow> saga_run res" where
  "mark_step_failed run h detail = (case find_step run h of
      None \<Rightarrow> Inl (SagaE SagaIllegalTransitionError)
    | Some step \<Rightarrow> bindR (replace_step run (ss_index step)
          (step\<lparr>ss_status := StepFailed, ss_commit_success := Some False, ss_detail := detail\<rparr>))
        (\<lambda>updated. Inr (start_compensation updated)))"

definition mark_step_committed :: "saga_run \<Rightarrow> string \<Rightarrow> bool \<Rightarrow> string option \<Rightarrow> string option \<Rightarrow> saga_run res" where
  "mark_step_committed run h success provider_reference detail =
     bindR (assert_can_commit_step run h) (\<lambda>index.
     bindR (step_at run index) (\<lambda>step.
       if \<not> success then mark_step_failed run h detail
       else bindR (replace_step run index
              (step\<lparr>ss_status := StepCommitted, ss_commit_success := Some True,
                    ss_provider_reference := provider_reference, ss_detail := detail\<rparr>))
            (\<lambda>updated. Inr (updated\<lparr>sr_status := RunRunning\<rparr>))))"

definition mark_step_verified :: "saga_run \<Rightarrow> string \<Rightarrow> saga_run res" where
  "mark_step_verified run h = (case find_step run h of
      None \<Rightarrow> Inl (SagaE SagaIllegalTransitionError)
    | Some step \<Rightarrow>
        if ss_status step \<noteq> StepCommitted then Inl (SagaE SagaIllegalTransitionError)
        else bindR (replace_step run (ss_index step) (step\<lparr>ss_status := StepVerified\<rparr>)) (\<lambda>updated.
          let next_cursor = ss_index step + 1 in
          if next_cursor \<ge> length (sr_steps run)
          then Inr (updated\<lparr>sr_cursor := next_cursor, sr_status := RunCompleted\<rparr>)
          else bindR (step_at updated next_cursor) (\<lambda>next_step.
               bindR (replace_step updated next_cursor (next_step\<lparr>ss_status := StepReady\<rparr>)) (\<lambda>updated'.
               Inr (updated'\<lparr>sr_cursor := next_cursor, sr_status := RunRunning\<rparr>)))))"

definition mark_step_ambiguous :: "saga_run \<Rightarrow> string \<Rightarrow> string option \<Rightarrow> saga_run res" where
  "mark_step_ambiguous run h detail =
     bindR (assert_can_commit_step run h) (\<lambda>index.
     bindR (step_at run index) (\<lambda>step.
     bindR (replace_step run index
       (step\<lparr>ss_status := StepAmbiguous, ss_ambiguous := True, ss_detail := detail\<rparr>)) (\<lambda>updated.
     Inr (updated\<lparr>sr_status := RunAwaitingRecovery\<rparr>))))"

primrec compensation_step_status :: "compensation_status \<Rightarrow> saga_step_status" where
  "compensation_step_status COMP_VERIFIED = StepCompensated"
| "compensation_step_status REFUSED = StepCompensationRefused"
| "compensation_step_status ATTEMPTED = StepCompensationFailed"

definition mark_compensation_result ::
    "saga_run \<Rightarrow> string \<Rightarrow> compensation_status \<Rightarrow> string option \<Rightarrow> saga_run res" where
  "mark_compensation_result run h status detail =
     (if sr_status run \<noteq> RunCompensating then Inl (SagaE SagaIllegalTransitionError)
      else case find_step run h of
          None \<Rightarrow> Inl (SagaE SagaIllegalTransitionError)
        | Some step \<Rightarrow>
            if sr_compensation_cursor run \<noteq> Some (ss_index step) then Inl (SagaE SagaIllegalTransitionError)
            else bindR (replace_step run (ss_index step)
                (step\<lparr>ss_status := compensation_step_status status, ss_compensation_status := Some status,
                      ss_detail := detail\<rparr>)) (\<lambda>updated.
              let remaining = filter (\<lambda>i. i < ss_index step) (committed_indices updated) in
              if remaining = []
              then Inr (updated\<lparr>sr_status := RunFailedPartial, sr_compensation_cursor := None\<rparr>)
              else Inr (updated\<lparr>sr_compensation_cursor := Some (Max (set remaining))\<rparr>)))"

definition next_compensation_manifest_hash :: "saga_run \<Rightarrow> string option res" where
  "next_compensation_manifest_hash run =
     (if sr_status run \<noteq> RunCompensating then Inr None
      else case sr_compensation_cursor run of
          None \<Rightarrow> Inr None
        | Some i \<Rightarrow> bindR (step_at run i) (\<lambda>step. Inr (Some (ss_manifest_hash step))))"

text \<open>The two outcomes of \<^verbatim>\<open>recover_saga_step\<close>: evidence of the effect makes the ambiguous step
  authorized again and commits it; no evidence fails it.\<close>

definition reauthorize_steps :: "saga_run \<Rightarrow> string \<Rightarrow> saga_run" where
  "reauthorize_steps run h = run\<lparr>sr_status := RunRunning,
     sr_steps := map (\<lambda>s. if ss_manifest_hash s = h then s\<lparr>ss_status := StepAuthorized, ss_ambiguous := False\<rparr> else s)
       (sr_steps run)\<rparr>"

definition saga_recover :: "saga_run \<Rightarrow> string \<Rightarrow> bool \<Rightarrow> string option \<Rightarrow> string option \<Rightarrow> saga_run res" where
  "saga_recover run h matched reference detail =
     (if matched then mark_step_committed (reauthorize_steps run h) h True reference detail
      else mark_step_failed run h detail)"

text \<open>What the engine does to a run.  \<^verbatim>\<open>mark_step_failed\<close> is only reached after
  \<^verbatim>\<open>assert_can_commit_step\<close> or \<^verbatim>\<open>assert_can_recover_step\<close> accepted the run.\<close>

inductive saga_step :: "saga_run \<Rightarrow> saga_run \<Rightarrow> bool" where
  authorize: "mark_step_authorized run h gid = Inr run' \<Longrightarrow> saga_step run run'"
| commit: "mark_step_committed run h True ref detail = Inr run' \<Longrightarrow> saga_step run run'"
| fail: "is_ok (assert_can_commit_step run h) \<Longrightarrow> mark_step_failed run h detail = Inr run' \<Longrightarrow> saga_step run run'"
| ambiguous: "mark_step_ambiguous run h detail = Inr run' \<Longrightarrow> saga_step run run'"
| verify: "mark_step_verified run h = Inr run' \<Longrightarrow> saga_step run run'"
| recover: "is_ok (assert_can_recover_step run h) \<Longrightarrow> saga_recover run h matched ref detail = Inr run' \<Longrightarrow> saga_step run run'"
| compensate: "mark_compensation_result run h status detail = Inr run' \<Longrightarrow> saga_step run run'"

text \<open>The run \<^verbatim>\<open>begin_saga\<close> starts with.\<close>

definition saga_start :: "saga_plan \<Rightarrow> string \<Rightarrow> saga_run" where
  "saga_start plan run_id = (build_saga_run plan run_id)\<lparr>sr_status := RunRunning\<rparr>"

inductive saga_reachable :: "saga_plan \<Rightarrow> string \<Rightarrow> saga_run \<Rightarrow> bool" for plan run_id where
  start: "saga_reachable plan run_id (saga_start plan run_id)"
| step: "saga_reachable plan run_id run \<Longrightarrow> saga_step run run' \<Longrightarrow> saga_reachable plan run_id run'"


section \<open>The invariant of a run\<close>

abbreviation step_status :: "saga_run \<Rightarrow> nat \<Rightarrow> saga_step_status" where
  "step_status run i \<equiv> ss_status (sr_steps run ! i)"

definition resolved_statuses :: "saga_step_status set" where
  "resolved_statuses = {StepCompensated, StepCompensationRefused, StepCompensationFailed}"

definition saga_shape :: "saga_plan \<Rightarrow> saga_run \<Rightarrow> bool" where
  "saga_shape plan run \<longleftrightarrow> sr_plan run = plan \<and>
     map ss_manifest_hash (sr_steps run) = sp_step_manifest_hashes plan \<and>
     map ss_index (sr_steps run) = [0..<length (sr_steps run)]"

text \<open>The phases of a run: up to the cursor everything is verified, the step at the cursor is in
  flight, and everything after it is untouched; a failed step turns the verified prefix into one
  that is compensated from its end.\<close>

definition saga_phase :: "saga_run \<Rightarrow> bool" where
  "saga_phase run =
     (let n = length (sr_steps run); c = sr_cursor run; st = step_status run in
      (\<forall>i. c < i \<and> i < n \<longrightarrow> st i = StepPending \<and> \<not> ss_ambiguous (sr_steps run ! i)) \<and>
      (case sr_status run of
         RunPending \<Rightarrow> False
       | RunRunning \<Rightarrow> c < n \<and> (\<forall>i < c. st i = StepVerified) \<and> st c \<in> {StepReady, StepAuthorized, StepCommitted}
           \<and> \<not> ss_ambiguous (sr_steps run ! c)
       | RunAwaitingRecovery \<Rightarrow> c < n \<and> (\<forall>i < c. st i = StepVerified) \<and> st c = StepAmbiguous
       | RunCompleted \<Rightarrow> c = n \<and> (\<forall>i < n. st i = StepVerified)
       | RunCompensating \<Rightarrow> c < n \<and> st c = StepFailed \<and>
           (\<exists>k < c. sr_compensation_cursor run = Some k \<and> (\<forall>i \<le> k. st i = StepVerified)
             \<and> (\<forall>i. k < i \<and> i < c \<longrightarrow> st i \<in> resolved_statuses))
       | RunFailedPartial \<Rightarrow> c < n \<and> st c = StepFailed \<and> 0 < c \<and> (\<forall>i < c. st i \<in> resolved_statuses)
       | RunAborted \<Rightarrow> c = 0 \<and> 0 < n \<and> st 0 = StepFailed))"

definition saga_inv :: "saga_plan \<Rightarrow> saga_run \<Rightarrow> bool" where
  "saga_inv plan run \<longleftrightarrow> saga_shape plan run \<and> saga_phase run \<and> distinct (sp_step_manifest_hashes plan)"

lemma shape_index: "saga_shape plan run \<Longrightarrow> i < length (sr_steps run) \<Longrightarrow> ss_index (sr_steps run ! i) = i"
  by (metis length_map map_nth nth_map nth_upt add_0 saga_shape_def)

lemma shape_hash:
  "saga_shape plan run \<Longrightarrow> i < length (sr_steps run) \<Longrightarrow>
     ss_manifest_hash (sr_steps run ! i) = sp_step_manifest_hashes plan ! i"
  by (metis nth_map saga_shape_def)

lemma shape_length: "saga_shape plan run \<Longrightarrow> length (sp_step_manifest_hashes plan) = length (sr_steps run)"
  by (metis length_map saga_shape_def)

lemma shape_update:
  assumes "saga_shape plan run" "ss_index s = ss_index (sr_steps run ! i)"
    "ss_manifest_hash s = ss_manifest_hash (sr_steps run ! i)"
  shows "saga_shape plan (run\<lparr>sr_steps := (sr_steps run)[i := s]\<rparr>)"
proof (cases "i < length (sr_steps run)")
  case True
  then have "map ss_manifest_hash ((sr_steps run)[i := s]) = map ss_manifest_hash (sr_steps run)"
    "map ss_index ((sr_steps run)[i := s]) = map ss_index (sr_steps run)"
    by (simp_all add: map_update assms(2,3) list_update_same_conv)
  then show ?thesis using assms(1) by (simp add: saga_shape_def)
qed (use assms(1) in \<open>simp add: list_update_beyond\<close>)

lemma find_step_SomeD:
  assumes "saga_shape plan run" "find_step run h = Some s"
  shows "\<exists>i < length (sr_steps run). s = sr_steps run ! i \<and> ss_index s = i \<and> ss_manifest_hash s = h"
  using assms shape_index by (auto simp: find_step_def find_Some_iff)

lemma set_committed_indices:
  assumes "saga_shape plan run"
  shows "set (committed_indices run) = {i. i < length (sr_steps run) \<and> step_status run i \<in> {StepCommitted, StepVerified}}"
proof -
  have "set (committed_indices run) = {ss_index s |s. s \<in> set (sr_steps run) \<and> ss_status s \<in> {StepCommitted, StepVerified}}"
    by (auto simp: committed_indices_def)
  also have "\<dots> = {ss_index (sr_steps run ! i) |i. i < length (sr_steps run) \<and> step_status run i \<in> {StepCommitted, StepVerified}}"
    by (fastforce simp: in_set_conv_nth)
  also have "\<dots> = {i. i < length (sr_steps run) \<and> step_status run i \<in> {StepCommitted, StepVerified}}"
    using shape_index [OF assms] by (auto) metis+
  finally show ?thesis .
qed

lemma can_commit_iff:
  "assert_can_commit_step run h = Inr i \<longleftrightarrow>
     i = sr_cursor run \<and> i < length (sr_steps run) \<and> ss_manifest_hash (sr_steps run ! i) = h \<and>
     step_status run i = StepAuthorized \<and> \<not> ss_ambiguous (sr_steps run ! i) \<and> sr_status run \<in> {RunPending, RunRunning}"
  by (cases "sr_status run") (auto simp: assert_can_commit_step_def Let_def)

lemma Max_prefix: "(A :: nat set) = {..<c} \<Longrightarrow> 0 < c \<Longrightarrow> Max A = c - 1"
  by (intro Max_eqI) auto

text \<open>Failing the step at the cursor, whose predecessors are verified, opens the compensation of
  all of them, the last one first.\<close>

lemma fail_inv:
  assumes shape: "saga_shape plan run" and c: "sr_cursor run < length (sr_steps run)"
    and pre: "\<forall>i < sr_cursor run. step_status run i = StepVerified"
    and post: "\<forall>i. sr_cursor run < i \<and> i < length (sr_steps run) \<longrightarrow>
      step_status run i = StepPending \<and> \<not> ss_ambiguous (sr_steps run ! i)"
    and s: "ss_index s = sr_cursor run" "ss_manifest_hash s = ss_manifest_hash (sr_steps run ! sr_cursor run)"
      "ss_status s = StepFailed"
  shows "saga_shape plan (start_compensation (run\<lparr>sr_steps := (sr_steps run)[sr_cursor run := s]\<rparr>))
    \<and> saga_phase (start_compensation (run\<lparr>sr_steps := (sr_steps run)[sr_cursor run := s]\<rparr>))"
proof -
  let ?c = "sr_cursor run" and ?run = "run\<lparr>sr_steps := (sr_steps run)[sr_cursor run := s]\<rparr>"
  have sh: "saga_shape plan ?run"
    using shape_update [OF shape] s shape_index [OF shape c] by simp
  have ci: "set (committed_indices ?run) = {..<?c}"
  proof (rule set_eqI)
    fix i
    show "i \<in> set (committed_indices ?run) \<longleftrightarrow> i \<in> {..<?c}"
      using pre post s(3) c by (cases i ?c rule: linorder_cases) (auto simp: set_committed_indices [OF sh])
  qed
  show ?thesis
  proof (cases "?c = 0")
    case True
    then have "committed_indices ?run = []" using ci by simp
    then show ?thesis using sh c post True s
      by (simp add: start_compensation_def saga_shape_def saga_phase_def Let_def)
  next
    case False
    then have ne: "committed_indices ?run \<noteq> []" using ci by force
    have mx: "Max (set (committed_indices ?run)) = ?c - 1" using Max_prefix [OF ci] False by simp
    show ?thesis
      using sh False post pre c s ne mx
      by (auto simp: start_compensation_def saga_shape_def saga_phase_def Let_def intro!: exI [of _ "?c - 1"])
  qed
qed


lemmas phase_simps = saga_phase_def Let_def nth_list_update

lemma shape_frame [simp]:
  "saga_shape plan (run\<lparr>sr_status := x\<rparr>) = saga_shape plan run"
  "saga_shape plan (run\<lparr>sr_cursor := n\<rparr>) = saga_shape plan run"
  "saga_shape plan (run\<lparr>sr_compensation_cursor := k\<rparr>) = saga_shape plan run"
  by (simp_all add: saga_shape_def)

lemma authorize_inv:
  assumes "mark_step_authorized run h gid = Inr run'" "saga_shape plan run" "saga_phase run"
  shows "saga_shape plan run' \<and> saga_phase run'"
proof -
  let ?c = "sr_cursor run"
  let ?s = "(sr_steps run ! ?c)\<lparr>ss_status := StepAuthorized, ss_grant_id := Some gid\<rparr>"
  have c: "?c < length (sr_steps run)" and st: "step_status run ?c \<in> {StepReady, StepPending}"
    using assms(1) by (auto simp: mark_step_authorized_def Let_def split: if_splits)
  have r: "run' = run\<lparr>sr_steps := (sr_steps run)[?c := ?s], sr_status := RunRunning\<rparr>"
    using assms(1) shape_index [OF assms(2) c]
    by (auto simp: mark_step_authorized_def replace_step_def Let_def split: if_splits)
  have "saga_shape plan run'"
    unfolding r using shape_update [OF assms(2), of ?s ?c] by (simp add: saga_shape_def)
  moreover have "saga_phase run'"
    using assms(3) st c unfolding r by (cases "sr_status run") (auto simp: phase_simps)
  ultimately show ?thesis ..
qed

lemma commit_inv:
  assumes "mark_step_committed run h True ref detail = Inr run'" "saga_shape plan run" "saga_phase run"
  shows "saga_shape plan run' \<and> saga_phase run'"
proof -
  let ?c = "sr_cursor run"
  let ?s = "(sr_steps run ! ?c)\<lparr>ss_status := StepCommitted, ss_commit_success := Some True,
    ss_provider_reference := ref, ss_detail := detail\<rparr>"
  have c: "?c < length (sr_steps run)" "step_status run ?c = StepAuthorized"
    and r: "run' = run\<lparr>sr_steps := (sr_steps run)[?c := ?s], sr_status := RunRunning\<rparr>"
    using assms(1) by (auto simp: mark_step_committed_def step_at_def replace_step_def can_commit_iff
        result_simps split: if_splits)
  have "saga_shape plan run'"
    unfolding r using shape_update [OF assms(2), of ?s ?c] by (simp add: saga_shape_def)
  moreover have "saga_phase run'"
    using assms(3) c unfolding r by (cases "sr_status run") (auto simp: phase_simps)
  ultimately show ?thesis ..
qed

lemma ambiguous_inv:
  assumes "mark_step_ambiguous run h detail = Inr run'" "saga_shape plan run" "saga_phase run"
  shows "saga_shape plan run' \<and> saga_phase run'"
proof -
  let ?c = "sr_cursor run"
  let ?s = "(sr_steps run ! ?c)\<lparr>ss_status := StepAmbiguous, ss_ambiguous := True, ss_detail := detail\<rparr>"
  have c: "?c < length (sr_steps run)" "step_status run ?c = StepAuthorized"
    and r: "run' = run\<lparr>sr_steps := (sr_steps run)[?c := ?s], sr_status := RunAwaitingRecovery\<rparr>"
    using assms(1) by (auto simp: mark_step_ambiguous_def step_at_def replace_step_def can_commit_iff
        result_simps split: if_splits)
  have "saga_shape plan run'"
    unfolding r using shape_update [OF assms(2), of ?s ?c] by (simp add: saga_shape_def)
  moreover have "saga_phase run'"
    using assms(3) c unfolding r by (cases "sr_status run") (auto simp: phase_simps)
  ultimately show ?thesis ..
qed

lemma before_cursor:
  assumes "saga_phase run" "i < sr_cursor run"
  shows "step_status run i \<in> insert StepVerified resolved_statuses"
proof (cases "sr_status run = RunCompensating")
  case True
  then obtain k where "\<forall>j \<le> k. step_status run j = StepVerified"
    "\<forall>j. k < j \<and> j < sr_cursor run \<longrightarrow> step_status run j \<in> resolved_statuses"
    using assms(1) by (auto simp: saga_phase_def Let_def)
  then show ?thesis using assms(2) by (cases "i \<le> k") auto
next
  case False
  then show ?thesis using assms by (cases "sr_status run") (auto simp: saga_phase_def Let_def)
qed

lemma after_cursor:
  "saga_phase run \<Longrightarrow> sr_cursor run < i \<Longrightarrow> i < length (sr_steps run) \<Longrightarrow> step_status run i = StepPending"
  by (simp add: saga_phase_def Let_def)

lemma in_flight_at_cursor:
  assumes "saga_phase run" "i < length (sr_steps run)"
    "step_status run i \<in> {StepReady, StepAuthorized, StepCommitted, StepAmbiguous}"
  shows "i = sr_cursor run"
  using assms before_cursor [OF assms(1), of i] after_cursor [OF assms(1), of i]
  by (cases i "sr_cursor run" rule: linorder_cases) (auto simp: resolved_statuses_def)

lemma committed_running:
  assumes "saga_phase run" "sr_cursor run < length (sr_steps run)" "step_status run (sr_cursor run) = StepCommitted"
  shows "sr_status run = RunRunning"
  using assms by (cases "sr_status run") (auto simp: saga_phase_def Let_def)

lemma verify_inv:
  assumes "mark_step_verified run h = Inr run'" "saga_shape plan run" "saga_phase run"
  shows "saga_shape plan run' \<and> saga_phase run'"
proof -
  let ?c = "sr_cursor run" and ?n = "length (sr_steps run)"
  obtain i where i: "i < ?n" "find_step run h = Some (sr_steps run ! i)" "step_status run i = StepCommitted"
    using assms(1) find_step_SomeD [OF assms(2), of h]
    by (auto simp: mark_step_verified_def split: option.splits if_splits)
  have ic: "i = ?c" using in_flight_at_cursor [OF assms(3) i(1)] i(3) by simp
  then have rs: "sr_status run = RunRunning" using committed_running [OF assms(3)] i by simp
  have pre: "\<forall>j < ?c. step_status run j = StepVerified"
    and post: "\<forall>j. ?c < j \<and> j < ?n \<longrightarrow> step_status run j = StepPending \<and> \<not> ss_ambiguous (sr_steps run ! j)"
    using assms(3) rs by (auto simp: saga_phase_def Let_def)
  let ?s = "(sr_steps run ! ?c)\<lparr>ss_status := StepVerified\<rparr>"
  let ?up = "run\<lparr>sr_steps := (sr_steps run)[?c := ?s]\<rparr>"
  have idx: "ss_index (sr_steps run ! ?c) = ?c" using shape_index [OF assms(2)] i(1) ic by simp
  have sh: "saga_shape plan ?up" using shape_update [OF assms(2), of ?s ?c] by simp
  show ?thesis
  proof (cases "?c + 1 < ?n")
    case False
    then have "run' = ?up\<lparr>sr_cursor := ?c + 1, sr_status := RunCompleted\<rparr>"
      using assms(1) i ic idx by (auto simp: mark_step_verified_def replace_step_def Let_def)
    then show ?thesis using sh pre False i(1) ic by (auto simp: phase_simps less_Suc_eq)
  next
    case True
    let ?s2 = "(sr_steps run ! (?c + 1))\<lparr>ss_status := StepReady\<rparr>"
    have "run' = run\<lparr>sr_steps := (sr_steps run)[?c := ?s, ?c + 1 := ?s2], sr_cursor := ?c + 1, sr_status := RunRunning\<rparr>"
      using assms(1) i ic idx True by (auto simp: mark_step_verified_def replace_step_def step_at_def Let_def)
    moreover have "saga_shape plan (run\<lparr>sr_steps := (sr_steps run)[?c := ?s, ?c + 1 := ?s2]\<rparr>)"
      using shape_update [OF sh, of ?s2 "?c + 1"] True by simp
    ultimately show ?thesis using pre post True by (auto simp: phase_simps less_Suc_eq)
  qed
qed

lemma fail_step_inv:
  assumes "mark_step_failed run h detail = Inr run'" "saga_shape plan run" "saga_phase run"
    "distinct (sp_step_manifest_hashes plan)"
    "sr_cursor run < length (sr_steps run)" "ss_manifest_hash (sr_steps run ! sr_cursor run) = h"
    "sr_status run \<in> {RunRunning, RunAwaitingRecovery}"
  shows "saga_shape plan run' \<and> saga_phase run'"
proof -
  let ?c = "sr_cursor run"
  let ?s = "(sr_steps run ! ?c)\<lparr>ss_status := StepFailed, ss_commit_success := Some False, ss_detail := detail\<rparr>"
  obtain i where i: "i < length (sr_steps run)" "find_step run h = Some (sr_steps run ! i)"
    "ss_manifest_hash (sr_steps run ! i) = h"
    using assms(1) find_step_SomeD [OF assms(2), of h] by (auto simp: mark_step_failed_def split: option.splits)
  then have ic: "i = ?c"
    using assms(2,4-6) shape_hash [OF assms(2)] shape_length [OF assms(2)]
    by (metis nth_eq_iff_index_eq)
  have "run' = start_compensation (run\<lparr>sr_steps := (sr_steps run)[?c := ?s]\<rparr>)"
    using assms(1) i ic shape_index [OF assms(2,5)] by (auto simp: mark_step_failed_def replace_step_def)
  then show ?thesis
    using fail_inv [OF assms(2,5), of ?s] assms(3,7) shape_index [OF assms(2,5)]
    by (auto simp: saga_phase_def Let_def)
qed

lemma recover_inv:
  assumes "is_ok (assert_can_recover_step run h)" "saga_recover run h matched ref detail = Inr run'"
    "saga_shape plan run" "saga_phase run" "distinct (sp_step_manifest_hashes plan)"
  shows "saga_shape plan run' \<and> saga_phase run'"
proof -
  let ?c = "sr_cursor run"
  have rs: "sr_status run = RunAwaitingRecovery"
    using assms(1) by (auto simp: assert_can_recover_step_def split: if_splits)
  obtain i where i: "i < length (sr_steps run)" "ss_manifest_hash (sr_steps run ! i) = h" "step_status run i = StepAmbiguous"
    using assms(1) find_step_SomeD [OF assms(3), of h]
    by (auto simp: assert_can_recover_step_def split: option.splits if_splits)
  have ic: "i = ?c" using in_flight_at_cursor [OF assms(4) i(1)] i(3) by simp
  show ?thesis
  proof (cases matched)
    case False
    then show ?thesis using fail_step_inv [OF _ assms(3,4,5)] assms(2) i ic rs by (simp add: saga_recover_def)
  next
    case True
    have h: "ss_manifest_hash (sr_steps run ! j) = h \<longleftrightarrow> j = ?c" if "j < length (sr_steps run)" for j
      using that i ic assms(5) shape_hash [OF assms(3)] shape_length [OF assms(3)] by (metis nth_eq_iff_index_eq)
    have "saga_phase (reauthorize_steps run h)"
      using assms(4) rs i ic h by (auto simp: phase_simps reauthorize_steps_def)
    moreover have "saga_shape plan (reauthorize_steps run h)"
      using assms(3) by (auto simp: saga_shape_def reauthorize_steps_def comp_def
        if_distrib [of ss_index] if_distrib [of ss_manifest_hash] cong: if_cong)
    ultimately show ?thesis using commit_inv assms(2) True by (simp add: saga_recover_def)
  qed
qed

lemma compensate_eq:
  assumes "saga_inv plan run" "sr_status run = RunCompensating" "sr_compensation_cursor run = Some k"
    and "h = sp_step_manifest_hashes plan ! k"
  shows "k < sr_cursor run \<and> mark_compensation_result run h status detail = Inr
    (run\<lparr>sr_steps := (sr_steps run)[k := (sr_steps run ! k)\<lparr>ss_status := compensation_step_status status,
           ss_compensation_status := Some status, ss_detail := detail\<rparr>],
         sr_status := (if k = 0 then RunFailedPartial else RunCompensating),
         sr_compensation_cursor := (if k = 0 then None else Some (k - 1))\<rparr>)"
proof -
  let ?c = "sr_cursor run" and ?n = "length (sr_steps run)"
  let ?s = "(sr_steps run ! k)\<lparr>ss_status := compensation_step_status status,
           ss_compensation_status := Some status, ss_detail := detail\<rparr>"
  let ?up = "run\<lparr>sr_steps := (sr_steps run)[k := ?s]\<rparr>"
  have shape: "saga_shape plan run" and dist: "distinct (sp_step_manifest_hashes plan)"
    using assms(1) by (auto simp: saga_inv_def)
  have ph: "?c < ?n" "k < ?c" "\<forall>i \<le> k. step_status run i = StepVerified"
    using assms(1-3) by (auto simp: saga_inv_def saga_phase_def Let_def)
  have k: "k < ?n" using ph by simp
  have "find_step run h \<noteq> None"
    using nth_mem [OF k] shape_hash [OF shape k] assms(4) unfolding find_step_def find_None_iff by metis
  then obtain i where i: "i < ?n" "find_step run h = Some (sr_steps run ! i)" "ss_manifest_hash (sr_steps run ! i) = h"
    using find_step_SomeD [OF shape, of h] by blast
  then have ik: "i = k"
    using shape_hash [OF shape] shape_length [OF shape] dist k assms(4) by (metis nth_eq_iff_index_eq)
  have sh: "saga_shape plan ?up" using shape_update [OF shape, of ?s k] by simp
  have rem: "set (filter (\<lambda>j. j < k) (committed_indices ?up)) = {..<k}"
    using set_committed_indices [OF sh] ph k by auto
  have "filter (\<lambda>j. j < k) (committed_indices ?up) = [] \<longleftrightarrow> k = 0"
    using rem by (metis lessThan_empty_iff set_empty)
  moreover have "k \<noteq> 0 \<Longrightarrow> Max (set (filter (\<lambda>j. j < k) (committed_indices ?up))) = k - 1"
    using Max_prefix [OF rem] by simp
  ultimately show ?thesis
    using assms(2,3) i ik k shape_index [OF shape k] ph(2)
    by (auto simp: mark_compensation_result_def replace_step_def Let_def)
qed


lemma compensate_hash:
  assumes "mark_compensation_result run h status detail = Inr run'" "saga_shape plan run"
  shows "\<exists>k. sr_status run = RunCompensating \<and> sr_compensation_cursor run = Some k \<and> h = sp_step_manifest_hashes plan ! k"
proof -
  obtain step where s: "find_step run h = Some step" "sr_status run = RunCompensating"
    "sr_compensation_cursor run = Some (ss_index step)"
    using assms(1) by (auto simp: mark_compensation_result_def split: option.splits if_splits)
  then show ?thesis
    using find_step_SomeD [OF assms(2) s(1)] shape_hash [OF assms(2)] by metis
qed

lemma compensate_inv:
  assumes "mark_compensation_result run h status detail = Inr run'" "saga_inv plan run"
  shows "saga_shape plan run' \<and> saga_phase run'"
proof -
  have shape: "saga_shape plan run" and phase: "saga_phase run" using assms(2) by (auto simp: saga_inv_def)
  obtain k where k: "sr_status run = RunCompensating" "sr_compensation_cursor run = Some k"
    "h = sp_step_manifest_hashes plan ! k"
    using compensate_hash [OF assms(1) shape] by blast
  let ?s = "(sr_steps run ! k)\<lparr>ss_status := compensation_step_status status,
           ss_compensation_status := Some status, ss_detail := detail\<rparr>"
  have r: "k < sr_cursor run" "run' = run\<lparr>sr_steps := (sr_steps run)[k := ?s],
         sr_status := (if k = 0 then RunFailedPartial else RunCompensating),
         sr_compensation_cursor := (if k = 0 then None else Some (k - 1))\<rparr>"
    using compensate_eq [OF assms(2) k, of status detail] assms(1) by auto
  have res: "ss_status ?s \<in> resolved_statuses" by (cases status) (auto simp: resolved_statuses_def)
  have ph: "sr_cursor run < length (sr_steps run)" "step_status run (sr_cursor run) = StepFailed"
    "\<forall>i \<le> k. step_status run i = StepVerified" "\<forall>i. k < i \<and> i < sr_cursor run \<longrightarrow> step_status run i \<in> resolved_statuses"
    "\<forall>i. sr_cursor run < i \<and> i < length (sr_steps run) \<longrightarrow> step_status run i = StepPending \<and> \<not> ss_ambiguous (sr_steps run ! i)"
    using phase k by (auto simp: saga_phase_def Let_def)
  have "saga_shape plan run'"
    unfolding r(2) using shape_update [OF shape, of ?s k] by (simp add: saga_shape_def)
  moreover have "saga_phase run'"
  proof -
    have st: "step_status run' i = (if i = k then ss_status ?s else step_status run i)" if "i < length (sr_steps run)" for i
      using that by (simp add: r(2) nth_list_update)
    have lt: "step_status run' i = StepVerified" if "i < k" for i
      using st [of i] that ph(1,3) r(1) by simp
    have "step_status run' i \<in> resolved_statuses" if "k \<le> i" "i < sr_cursor run" for i
      using st [of i] that ph(1,4) res by (cases "i = k") auto
    moreover have "step_status run' (sr_cursor run) = StepFailed" using st [OF ph(1)] ph(2) r(1) by simp
    moreover have "step_status run' i = StepPending \<and> \<not> ss_ambiguous (sr_steps run' ! i)"
      if "sr_cursor run < i" "i < length (sr_steps run)" for i
      using ph(5) that r(1) by (simp add: r(2))
    moreover have "length (sr_steps run') = length (sr_steps run)" "sr_cursor run' = sr_cursor run"
      "sr_status run' = (if k = 0 then RunFailedPartial else RunCompensating)"
      "sr_compensation_cursor run' = (if k = 0 then None else Some (k - 1))"
      by (simp_all add: r(2))
    ultimately show ?thesis
      using lt ph(1) r(1) by (cases "k = 0") (auto simp: saga_phase_def Let_def intro!: exI [of _ "k - 1"])
  qed
  ultimately show ?thesis ..
qed

lemma saga_step_inv: "saga_step run run' \<Longrightarrow> saga_inv plan run \<Longrightarrow> saga_inv plan run'"
proof (induction rule: saga_step.induct)
  case (fail run h detail run')
  have c: "sr_cursor run < length (sr_steps run)" "ss_manifest_hash (sr_steps run ! sr_cursor run) = h"
    "sr_status run \<in> {RunPending, RunRunning}"
    using fail(1) by (auto simp: is_ok_iff can_commit_iff)
  moreover have "sr_status run \<noteq> RunPending"
    using fail(3) by (auto simp: saga_inv_def saga_phase_def Let_def)
  ultimately show ?case using fail_step_inv [OF fail(2)] fail(3) by (auto simp: saga_inv_def)
next
  case (compensate run h status detail run')
  then show ?case using compensate_inv by (auto simp: saga_inv_def)
qed (auto simp: saga_inv_def dest: authorize_inv commit_inv ambiguous_inv verify_inv recover_inv)

lemma saga_start_inv:
  assumes "plan_validate plan = Inr ()"
  shows "saga_inv plan (saga_start plan run_id)"
proof -
  let ?hs = "sp_step_manifest_hashes plan"
  have "?hs \<noteq> []" "distinct ?hs"
    using assms by (auto simp: plan_validate_def Let_def result_simps)
  moreover have "map ((!) ?hs) [0..<length ?hs] = ?hs" by (rule map_nth)
  ultimately show ?thesis
    by (auto simp: saga_inv_def saga_shape_def saga_phase_def Let_def saga_start_def build_saga_run_def
        new_step_def comp_def)
qed

lemma saga_reachable_inv:
  "saga_reachable plan run_id run \<Longrightarrow> plan_validate plan = Inr () \<Longrightarrow> saga_inv plan run"
  by (induction rule: saga_reachable.induct) (auto intro: saga_start_inv saga_step_inv)

section \<open>Properties of saga runs\<close>

text \<open>Every run that can be reached from a valid plan is well formed: its steps carry the
  plan's hashes and their positions, everything before the cursor is verified or, after a
  failure, compensated from the end, the step at the cursor is the only one in flight, and
  everything after it is still pending.  A completed run has every step verified; an aborted one
  executed nothing.\<close>

theorem saga_run_invariant:
  assumes "plan_validate plan = Inr ()" "saga_reachable plan run_id run"
  shows "saga_inv plan run"
  using assms saga_reachable_inv by blast

definition demo_plan :: saga_plan where
  "demo_plan = \<lparr>sp_saga_id = ''s'', sp_causal_graph_hash = ''g'', sp_step_manifest_hashes = [''a'', ''b''],
     sp_created_at = 0, sp_nonce = ''n''\<rparr>"

lemma demo_plan_valid: "plan_validate demo_plan = Inr ()"
  by (simp add: plan_validate_def demo_plan_def MAX_SAGA_STEPS_def thenR_def raise_if_def)

text \<open>A run of two steps, of which the first is verified and the second fails.\<close>

definition demo_run :: "saga_run res" where
  "demo_run =
     bindR (mark_step_authorized (saga_start demo_plan ''r'') ''a'' ''g1'') (\<lambda>r1.
     bindR (mark_step_committed r1 ''a'' True None None) (\<lambda>r2.
     bindR (mark_step_verified r2 ''a'') (\<lambda>r3.
     bindR (mark_step_authorized r3 ''b'' ''g2'') (\<lambda>r4.
     bindR (mark_step_committed r4 ''b'' False None None) Inr))))"

lemma demo_run_reachable:
  assumes "demo_run = Inr run"
  shows "saga_reachable demo_plan ''r'' run"
proof -
  obtain r1 r2 r3 r4 where r: "mark_step_authorized (saga_start demo_plan ''r'') ''a'' ''g1'' = Inr r1"
    "mark_step_committed r1 ''a'' True None None = Inr r2" "mark_step_verified r2 ''a'' = Inr r3"
    "mark_step_authorized r3 ''b'' ''g2'' = Inr r4" "mark_step_committed r4 ''b'' False None None = Inr run"
    using assms by (auto simp: demo_run_def result_simps)
  have "is_ok (assert_can_commit_step r4 ''b'')" "mark_step_failed r4 ''b'' None = Inr run"
    using r(5) by (auto simp: mark_step_committed_def result_simps is_ok_iff)
  then show ?thesis
    using r by (meson saga_reachable.intros saga_step.intros)
qed

lemma demo_run_ok: "\<exists>run. demo_run = Inr run \<and> sr_status run = RunCompensating"
proof -
  have "(case demo_run of Inr run \<Rightarrow> sr_status run = RunCompensating | Inl _ \<Rightarrow> False)"
    by code_simp
  then show ?thesis by (auto split: sum.splits)
qed

theorem saga_run_invariant_witness:
  "\<exists>run. demo_run = Inr run \<and> saga_reachable demo_plan ''r'' run \<and> saga_inv demo_plan run"
  using demo_run_ok demo_run_reachable saga_run_invariant [OF demo_plan_valid] by blast


lemma topological_before:
  assumes "topological es xs" "(a, b) \<in> (set es)\<^sup>+" "i < length xs" "xs ! i = b" "set es \<subseteq> set xs \<times> set xs"
  shows "\<exists>j < i. xs ! j = a"
  using assms(2-4)
proof (induction arbitrary: i rule: trancl_induct)
  case (base b)
  have "xs = take i xs @ b # drop (Suc i) xs" using base id_take_nth_drop by metis
  then have "a \<in> set (take i xs)" using assms(1) base(1) unfolding topological_def by blast
  then show ?case using base(2) by (auto simp: in_set_conv_nth)
next
  case (step b c)
  have "xs = take i xs @ c # drop (Suc i) xs" using step(4,5) id_take_nth_drop by metis
  then have "b \<in> set (take i xs)" using assms(1) step(2) unfolding topological_def by blast
  then obtain j where "j < i" "xs ! j = b" using step(4) by (auto simp: in_set_conv_nth)
  moreover from this obtain j' where "j' < j" "xs ! j' = a" using step.IH [of j] step(4) by auto
  ultimately show ?case by (intro exI [of _ j']) auto
qed

lemma build_saga_plan_topological:
  assumes "build_causal_graph gid ns ls = Inr g"
  shows "\<exists>plan. build_saga_plan cr g sid nonce t = Inr plan \<and> plan_validate plan = Inr ()
    \<and> topological (graph_edges ls) (sp_step_manifest_hashes plan) \<and> set (sp_step_manifest_hashes plan) = set ns
    \<and> sp_causal_graph_hash plan = graph_hash cr g"
proof -
  have g: "cg_nodes g = sort ns" "cg_links g = sort_key cl_link_id ls" "distinct ns" "ns \<noteq> []"
    "length ns \<le> MAX_GRAPH_NODES" "edges_within ns (graph_edges ls)" "acyclic (set (graph_edges ls))"
    using assms by (auto simp: build_causal_graph_eq)
  have e: "set (graph_edges (cg_links g)) = set (graph_edges ls)"
    unfolding g(2) using graph_edges_sort by (rule mset_eq_setD)
  have "edges_within (cg_nodes g) (graph_edges (cg_links g))" "acyclic (set (graph_edges (cg_links g)))"
    using g(6,7) by (simp_all only: edges_within_def e g(1) set_sort)
  then obtain xs where xs: "topo_manifest_hashes g = Inr xs" "set xs = set ns" "topological (graph_edges (cg_links g)) xs"
    using topo_manifest_hashes_ok [of g] g(1,3,5) by (auto simp: MAX_SAGA_STEPS_def MAX_GRAPH_NODES_def)
  have top: "topological (graph_edges ls) xs" using xs(3) unfolding topological_def e .
  moreover have "length xs = length ns"
    using xs(2) top g(3) by (metis distinct_card topological_def)
  ultimately show ?thesis
    using xs(1,2) g by (auto simp: build_saga_plan_def plan_validate_def thenR_def raise_if_def topological_def
        MAX_SAGA_STEPS_def MAX_GRAPH_NODES_def)
qed

text \<open>C20. Causal order: in every reachable run of the saga planned for a causal graph, a step that
  is ready, authorized, committed or ambiguous has all its causal ancestors verified.\<close>

theorem saga_respects_causality:
  assumes "build_causal_graph gid ns ls = Inr g" "build_saga_plan cr g sid nonce t = Inr plan"
    and "saga_reachable plan run_id run"
    and "i < length (sr_steps run)" "ss_status (sr_steps run ! i) \<in> {StepReady, StepAuthorized, StepCommitted, StepAmbiguous}"
    and "(a, ss_manifest_hash (sr_steps run ! i)) \<in> (set (graph_edges ls))\<^sup>+"
  shows "\<exists>j < length (sr_steps run). ss_manifest_hash (sr_steps run ! j) = a \<and> ss_status (sr_steps run ! j) = StepVerified"
proof -
  have p: "plan_validate plan = Inr ()" "topological (graph_edges ls) (sp_step_manifest_hashes plan)"
    "set (sp_step_manifest_hashes plan) = set ns"
    using build_saga_plan_topological [OF assms(1), of cr sid nonce t] assms(2) by auto
  have within: "set (graph_edges ls) \<subseteq> set (sp_step_manifest_hashes plan) \<times> set (sp_step_manifest_hashes plan)"
    using assms(1) by (simp add: build_causal_graph_eq edges_within_def p(3))
  have inv: "saga_shape plan run" "saga_phase run"
    using saga_reachable_inv [OF assms(3) p(1)] by (simp_all add: saga_inv_def)
  have c: "i = sr_cursor run" using in_flight_at_cursor [OF inv(2) assms(4,5)] .
  obtain j where j: "j < i" "sp_step_manifest_hashes plan ! j = a"
    using topological_before [OF p(2) assms(6), of i] within shape_hash [OF inv(1) assms(4)]
      shape_length [OF inv(1)] assms(4) by auto
  moreover have "step_status run j = StepVerified"
    using inv(2) assms(5) j(1) c by (cases "sr_status run") (auto simp: saga_phase_def Let_def)
  ultimately show ?thesis using shape_hash [OF inv(1), of j] assms(4) by (intro exI [of _ j]) auto
qed

text \<open>Recording the outcomes of a list of compensations, each for the step at the reverse cursor.\<close>

fun compensate_all :: "saga_run \<Rightarrow> compensation_status list \<Rightarrow> saga_run res" where
  "compensate_all run [] = Inr run"
| "compensate_all run (status # statuses) =
     bindR (next_compensation_manifest_hash run) (\<lambda>h.
     bindR (mark_compensation_result run (case h of None \<Rightarrow> [] | Some h \<Rightarrow> h) status None) (\<lambda>run'.
     compensate_all run' statuses))"

lemma compensate_all_completes:
  assumes "saga_inv plan run" "sr_status run = RunCompensating" "sr_compensation_cursor run = Some k"
    "length statuses = k + 1"
  shows "\<exists>run'. compensate_all run statuses = Inr run' \<and> sr_status run' = RunFailedPartial
    \<and> (\<forall>i \<le> k. ss_compensation_status (sr_steps run' ! i) = Some (statuses ! (k - i)))
    \<and> (\<forall>i > k. sr_steps run' ! i = sr_steps run ! i)"
  using assms
proof (induction statuses arbitrary: run k)
  case (Cons st sts)
  let ?h = "sp_step_manifest_hashes plan ! k"
  let ?s = "(sr_steps run ! k)\<lparr>ss_status := compensation_step_status st, ss_compensation_status := Some st, ss_detail := None\<rparr>"
  let ?run = "run\<lparr>sr_steps := (sr_steps run)[k := ?s],
         sr_status := (if k = 0 then RunFailedPartial else RunCompensating),
         sr_compensation_cursor := (if k = 0 then None else Some (k - 1))\<rparr>"
  have inv: "saga_shape plan run" "saga_phase run" using Cons.prems(1) by (auto simp: saga_inv_def)
  have m: "k < sr_cursor run" "mark_compensation_result run ?h st None = Inr ?run"
    using compensate_eq [OF Cons.prems(1-3) refl, of st None] by auto
  have k: "k < length (sr_steps run)" using m(1) inv(2) Cons.prems(2) by (auto simp: saga_phase_def Let_def)
  have nx: "next_compensation_manifest_hash run = Inr (Some ?h)"
    using Cons.prems(2,3) k shape_hash [OF inv(1) k] by (simp add: next_compensation_manifest_hash_def step_at_def)
  have inv': "saga_inv plan ?run"
    using saga_step_inv [OF saga_step.compensate [OF m(2)] Cons.prems(1)] .
  show ?case
  proof (cases "k = 0")
    case True
    then show ?thesis using Cons.prems(4) nx m(2) k by auto
  next
    case False
    have "\<exists>run'. compensate_all ?run sts = Inr run' \<and> sr_status run' = RunFailedPartial
      \<and> (\<forall>i \<le> k - 1. ss_compensation_status (sr_steps run' ! i) = Some (sts ! (k - 1 - i)))
      \<and> (\<forall>i > k - 1. sr_steps run' ! i = sr_steps ?run ! i)"
      using Cons.IH [OF inv', of "k - 1"] False Cons.prems(4) by simp
    then obtain run' where r: "compensate_all ?run sts = Inr run'" "sr_status run' = RunFailedPartial"
      "\<forall>i \<le> k - 1. ss_compensation_status (sr_steps run' ! i) = Some (sts ! (k - 1 - i))"
      "\<forall>i > k - 1. sr_steps run' ! i = sr_steps ?run ! i" by blast
    have "ss_compensation_status (sr_steps run' ! i) = Some ((st # sts) ! (k - i))" if "i \<le> k" for i
    proof (cases "i = k")
      case True
      then show ?thesis using r(4) False k by simp
    next
      case False
      then have "k - i = Suc (k - 1 - i)" using that by simp
      then show ?thesis using r(3) False that by simp
    qed
    then show ?thesis using r nx m(2) False by auto
  qed
qed simp

text \<open>C21. Compensation runs in reverse and ends: in a reachable compensating run the only outcome
  that can be recorded is that of the last verified step, and recording one outcome for each of
  the verified steps, from the last to the first, succeeds and leaves the run failed-partial
  with the outcome of every one of them on its step.\<close>

theorem saga_compensation_reverse_complete:
  assumes "plan_validate plan = Inr ()" "saga_reachable plan run_id run" "sr_status run = RunCompensating"
  shows "\<exists>k < sr_cursor run. (\<forall>i \<le> k. ss_status (sr_steps run ! i) = StepVerified)
    \<and> (\<forall>h status detail. is_ok (mark_compensation_result run h status detail) \<longleftrightarrow> h = sp_step_manifest_hashes plan ! k)
    \<and> (\<forall>statuses. length statuses = k + 1 \<longrightarrow>
         (\<exists>run'. compensate_all run statuses = Inr run' \<and> sr_status run' = RunFailedPartial
            \<and> (\<forall>i \<le> k. ss_compensation_status (sr_steps run' ! i) = Some (statuses ! (k - i)))))"
proof -
  have inv: "saga_inv plan run" using saga_reachable_inv assms by blast
  obtain k where k: "k < sr_cursor run" "sr_compensation_cursor run = Some k" "\<forall>i \<le> k. step_status run i = StepVerified"
    using inv assms(3) by (auto simp: saga_inv_def saga_phase_def Let_def)
  have shape: "saga_shape plan run" using inv by (simp add: saga_inv_def)
  have "is_ok (mark_compensation_result run h status detail) \<longleftrightarrow> h = sp_step_manifest_hashes plan ! k" for h status detail
  proof
    assume "is_ok (mark_compensation_result run h status detail)"
    then show "h = sp_step_manifest_hashes plan ! k"
      using compensate_hash [OF _ shape] k(2) unfolding is_ok_iff by fastforce
  next
    assume "h = sp_step_manifest_hashes plan ! k"
    then show "is_ok (mark_compensation_result run h status detail)"
      using compensate_eq [OF inv assms(3) k(2)] by simp
  qed
  moreover have "\<exists>run'. compensate_all run statuses = Inr run' \<and> sr_status run' = RunFailedPartial
      \<and> (\<forall>i \<le> k. ss_compensation_status (sr_steps run' ! i) = Some (statuses ! (k - i)))"
    if "length statuses = k + 1" for statuses
    using compensate_all_completes [OF inv assms(3) k(2) that] by blast
  ultimately show ?thesis using k(1,3) by metis
qed

theorem saga_compensation_reverse_complete_witness:
  "\<exists>run run'. demo_run = Inr run \<and> sr_status run = RunCompensating
     \<and> compensate_all run [REFUSED] = Inr run' \<and> sr_status run' = RunFailedPartial"
proof -
  have c: "case demo_run of Inr run \<Rightarrow> sr_status run = RunCompensating \<and> sr_cursor run = 1 | Inl _ \<Rightarrow> False"
    by code_simp
  then obtain run where run: "demo_run = Inr run" "sr_status run = RunCompensating" "sr_cursor run = 1"
    by (auto split: sum.splits)
  obtain k where "k < sr_cursor run" "\<And>statuses. length statuses = k + 1 \<Longrightarrow>
      (\<exists>run'. compensate_all run statuses = Inr run' \<and> sr_status run' = RunFailedPartial)"
    using saga_compensation_reverse_complete [OF demo_plan_valid demo_run_reachable [OF run(1)] run(2)] by metis
  then have "\<exists>run'. compensate_all run [REFUSED] = Inr run' \<and> sr_status run' = RunFailedPartial"
    using run(3) by (simp del: compensate_all.simps)
  then show ?thesis using run by blast
qed

text \<open>The graph of the example, and the run in which its first step is verified.\<close>

definition demo_graph_links :: "causal_link list" where
  "demo_graph_links = [demo_link ''1'' ''a'' ''b'']"

lemma demo_graph_run:
  "\<exists>g plan run. build_causal_graph ''g'' [''b'', ''a''] demo_graph_links = Inr g
     \<and> build_saga_plan toy_crypto g ''s'' ''n'' 0 = Inr plan \<and> saga_reachable plan ''r'' run
     \<and> length (sr_steps run) = 2 \<and> ss_status (sr_steps run ! 1) = StepReady \<and> ss_manifest_hash (sr_steps run ! 1) = ''b''"
proof -
  let ?run = "bindR (build_causal_graph ''g'' [''b'', ''a''] demo_graph_links) (\<lambda>g.
    bindR (build_saga_plan toy_crypto g ''s'' ''n'' 0) (\<lambda>plan.
    bindR (mark_step_authorized (saga_start plan ''r'') ''a'' ''g1'') (\<lambda>r1.
    bindR (mark_step_committed r1 ''a'' True None None) (\<lambda>r2.
    mark_step_verified r2 ''a''))))"
  have "case ?run of Inr run \<Rightarrow> length (sr_steps run) = 2 \<and> ss_status (sr_steps run ! 1) = StepReady \<and> ss_manifest_hash (sr_steps run ! 1) = ''b''
      | Inl _ \<Rightarrow> False"
    by code_simp
  then obtain run where run: "?run = Inr run" "length (sr_steps run) = 2" "ss_status (sr_steps run ! 1) = StepReady"
    "ss_manifest_hash (sr_steps run ! 1) = ''b''"
    by (auto split: sum.splits)
  obtain g plan r1 r2 where r: "build_causal_graph ''g'' [''b'', ''a''] demo_graph_links = Inr g"
    "build_saga_plan toy_crypto g ''s'' ''n'' 0 = Inr plan"
    "mark_step_authorized (saga_start plan ''r'') ''a'' ''g1'' = Inr r1"
    "mark_step_committed r1 ''a'' True None None = Inr r2" "mark_step_verified r2 ''a'' = Inr run"
    using run(1) by (auto simp: result_simps)
  have "saga_reachable plan ''r'' run"
    using r(3-5) by (meson saga_reachable.intros saga_step.intros)
  then show ?thesis using r(1,2) run(2-4) by blast
qed

theorem saga_respects_causality_witness:
  "\<exists>g plan run j. build_causal_graph ''g'' [''b'', ''a''] demo_graph_links = Inr g
     \<and> build_saga_plan toy_crypto g ''s'' ''n'' 0 = Inr plan \<and> saga_reachable plan ''r'' run
     \<and> ss_status (sr_steps run ! 1) = StepReady
     \<and> ss_manifest_hash (sr_steps run ! j) = ''a'' \<and> ss_status (sr_steps run ! j) = StepVerified"
proof -
  obtain g plan run where r: "build_causal_graph ''g'' [''b'', ''a''] demo_graph_links = Inr g"
    "build_saga_plan toy_crypto g ''s'' ''n'' 0 = Inr plan" "saga_reachable plan ''r'' run"
    "length (sr_steps run) = 2" "ss_status (sr_steps run ! 1) = StepReady" "ss_manifest_hash (sr_steps run ! 1) = ''b''"
    using demo_graph_run by blast
  have "(''a'', ss_manifest_hash (sr_steps run ! 1)) \<in> (set (graph_edges demo_graph_links))\<^sup>+"
    using r(6) by (auto simp: demo_graph_links_def graph_edges_def demo_link_def)
  then show ?thesis
    using saga_respects_causality [OF r(1-3), of 1 "''a''"] r by auto
qed

end
