(* ===== verification/Adapters.thy ===== *)
theory Adapters
  imports Grants "HOL-Library.AList"
begin

text \<open>
  Effect adapters as the engine sees them (\<^verbatim>\<open>adapters/base.py\<close>) and the allow-list of trusted
  adapters (\<^verbatim>\<open>adapters/registry.py\<close>).

  An adapter is code outside the core.  \<open>effect_adapter\<close> holds its identity and what its methods
  answer, as functions of the arguments the engine passes (\<open>ad_prepare\<close> for the request at hand);
  each may raise any exception, and nothing is assumed of them.  A handler of the engine calls each
  method at most once, so an adapter whose answers change over time is one \<open>effect_adapter\<close> per call
  of a handler.
\<close>

section \<open>Adapters\<close>

record precondition_result =
  pr_satisfied :: bool
  pr_reason :: "string option"
  pr_observed_fingerprint :: "state_fingerprint option"

record commit_result =
  cm_success :: bool
  cm_idempotency_key :: string
  cm_provider_reference :: "string option"
  cm_detail :: "string option"
  cm_after_state_digest :: "string option"

record outcome_proof =
  op_matched_expected :: bool
  op_observed_at :: time
  op_observed_after_state_digest :: "string option"
  op_detail :: "string option"

record compensation_result =
  cp_attempted :: bool
  cp_succeeded :: bool
  cp_reason :: "string option"
  cp_detail :: "string option"

record effect_adapter =
  ad_identity :: adapter_identity
  ad_prepare :: "effect_manifest res"
  ad_validate_preconditions :: "effect_manifest \<Rightarrow> precondition_result res"
  ad_commit :: "effect_manifest \<Rightarrow> execution_grant \<Rightarrow> commit_result res"
  ad_verify :: "effect_manifest \<Rightarrow> commit_result \<Rightarrow> outcome_proof res"
  ad_compensate :: "effect_manifest \<Rightarrow> commit_result \<Rightarrow> compensation_result res"

section \<open>Capabilities\<close>

definition MAX_EFFECT_TYPES :: nat where "MAX_EFFECT_TYPES = 64"

definition MAX_ENVIRONMENTS :: nat where "MAX_ENVIRONMENTS = 32"

definition registry_validate_id :: "string \<Rightarrow> unit res" where
  "registry_validate_id v = raise_if (v = [] \<or> length v > 128) ValueError"

definition registry_validate_version :: "string \<Rightarrow> unit res" where
  "registry_validate_version v = raise_if (v = [] \<or> length v > 64) ValueError"

record adapter_capability =
  ac_adapter_id :: string
  ac_adapter_version :: string
  ac_supported_effect_types :: "string list"
  ac_environments :: "string list"
  ac_provider_idempotent :: "bool option"
  ac_compensation_feasible :: "bool option"
  ac_description :: "string option"

definition capability_validate :: "adapter_capability \<Rightarrow> unit res" where
  "capability_validate c = allR
     ([registry_validate_id (ac_adapter_id c), registry_validate_version (ac_adapter_version c),
       raise_if (ac_supported_effect_types c = []) ValueError,
       raise_if (length (ac_supported_effect_types c) > MAX_EFFECT_TYPES) ValueError]
      @ map (\<lambda>et. raise_if (et = [] \<or> length et > 128) ValueError) (ac_supported_effect_types c)
      @ [raise_if (length (ac_environments c) > MAX_ENVIRONMENTS) ValueError]
      @ map (\<lambda>env. raise_if (env = [] \<or> length env > 64) ValueError) (ac_environments c)
      @ [raise_if (case ac_description c of None \<Rightarrow> False | Some d \<Rightarrow> length d > 512) ValueError])"

definition capability_new :: "adapter_capability \<Rightarrow> adapter_capability res" where
  "capability_new c = thenR (capability_validate c)
     (Inr (c\<lparr>ac_supported_effect_types := sorted_set (ac_supported_effect_types c),
             ac_environments := sorted_set (ac_environments c)\<rparr>))"

definition ac_identity :: "adapter_capability \<Rightarrow> adapter_identity" where
  "ac_identity c = \<lparr>adapter_id = ac_adapter_id c, adapter_version = ac_adapter_version c\<rparr>"

definition supports_effect_type :: "adapter_capability \<Rightarrow> string \<Rightarrow> bool" where
  "supports_effect_type c et \<longleftrightarrow> et \<in> set (ac_supported_effect_types c)"

definition jbool_opt :: "bool option \<Rightarrow> json" where
  "jbool_opt b = (case b of None \<Rightarrow> JNull | Some x \<Rightarrow> JBool x)"

definition capability_json :: "adapter_capability \<Rightarrow> json" where
  "capability_json c = JObj
     [(''adapter_id'', JStr (ac_adapter_id c)),
      (''adapter_version'', JStr (ac_adapter_version c)),
      (''supported_effect_types'', JList (map JStr (ac_supported_effect_types c))),
      (''environments'', JList (map JStr (ac_environments c))),
      (''provider_idempotent'', jbool_opt (ac_provider_idempotent c)),
      (''compensation_feasible'', jbool_opt (ac_compensation_feasible c)),
      (''description'', jstr_opt (ac_description c))]"

definition capability_hash :: "crypto \<Rightarrow> adapter_capability \<Rightarrow> string" where
  "capability_hash cr c = canonical_hash (cr_sha256 cr) (capability_json c)"

section \<open>The registry\<close>

record registry_entry =
  re_capability :: adapter_capability
  re_revoked :: bool
  re_revoked_at :: "time option"
  re_revoke_reason :: "string option"

definition entry_validate :: "registry_entry \<Rightarrow> unit res" where
  "entry_validate e = allR
     [raise_if (re_revoked e \<and> re_revoked_at e = None) ValueError,
      raise_if (case re_revoke_reason e of None \<Rightarrow> False | Some r \<Rightarrow> length r > 256) ValueError]"

type_synonym adapter_registry = "((string \<times> string) \<times> registry_entry) list"

definition reg_register :: "adapter_registry \<Rightarrow> adapter_capability \<Rightarrow> registry_entry \<times> adapter_registry" where
  "reg_register r c = (let e = \<lparr>re_capability = c, re_revoked = False, re_revoked_at = None, re_revoke_reason = None\<rparr>
     in (e, AList.update (ac_adapter_id c, ac_adapter_version c) e r))"

definition reg_init :: "adapter_capability list \<Rightarrow> adapter_registry" where
  "reg_init cs = foldl (\<lambda>r c. snd (reg_register r c)) [] cs"

definition reg_lookup :: "adapter_registry \<Rightarrow> string \<Rightarrow> string \<Rightarrow> registry_entry option" where
  "reg_lookup r i v = map_of r (i, v)"

definition reg_revoke ::
    "adapter_registry \<Rightarrow> string \<Rightarrow> string \<Rightarrow> time \<Rightarrow> string option \<Rightarrow> registry_entry res \<times> adapter_registry" where
  "reg_revoke r i v at reason = (case reg_lookup r i v of
      None \<Rightarrow> (Inl (AdapterE UntrustedAdapterError), r)
    | Some old \<Rightarrow>
        let e = \<lparr>re_capability = re_capability old, re_revoked = True, re_revoked_at = Some at, re_revoke_reason = reason\<rparr>
        in (case entry_validate e of
              Inl x \<Rightarrow> (Inl x, r)
            | Inr _ \<Rightarrow> (Inr e, AList.update (i, v) e r)))"

definition reg_is_trusted :: "adapter_registry \<Rightarrow> string \<Rightarrow> string \<Rightarrow> bool" where
  "reg_is_trusted r i v \<longleftrightarrow> (case reg_lookup r i v of None \<Rightarrow> False | Some e \<Rightarrow> \<not> re_revoked e)"

definition reg_require :: "adapter_registry \<Rightarrow> string \<Rightarrow> string \<Rightarrow> adapter_capability res" where
  "reg_require r i v = (case reg_lookup r i v of
      None \<Rightarrow> Inl (AdapterE UntrustedAdapterError)
    | Some e \<Rightarrow> if re_revoked e then Inl (AdapterE UntrustedAdapterError) else Inr (re_capability e))"

definition reg_require_adapter :: "adapter_registry \<Rightarrow> effect_adapter \<Rightarrow> adapter_capability res" where
  "reg_require_adapter r a = reg_require r (adapter_id (ad_identity a)) (adapter_version (ad_identity a))"

definition reg_require_effect :: "adapter_registry \<Rightarrow> string \<Rightarrow> string \<Rightarrow> string \<Rightarrow> adapter_capability res" where
  "reg_require_effect r i v et = bindR (reg_require r i v) (\<lambda>c.
     if supports_effect_type c et then Inr c else Inl (AdapterE UntrustedAdapterError))"

definition reg_require_environment :: "adapter_registry \<Rightarrow> string \<Rightarrow> string \<Rightarrow> string \<Rightarrow> adapter_capability res" where
  "reg_require_environment r i v env = bindR (reg_require r i v) (\<lambda>c.
     if ac_environments c \<noteq> [] \<and> env \<notin> set (ac_environments c)
     then Inl (AdapterE UntrustedAdapterError) else Inr c)"

definition reg_list_entries :: "adapter_registry \<Rightarrow> registry_entry list" where
  "reg_list_entries r = sort_key (ac_adapter_id \<circ> re_capability)
     (sort_key (ac_adapter_version \<circ> re_capability) (map snd r))"

definition reg_len :: "adapter_registry \<Rightarrow> nat" where
  "reg_len r = length r"

definition reference_adapter_capabilities :: "adapter_capability list" where
  "reference_adapter_capabilities =
     [\<lparr>ac_adapter_id = ''payment.simulator'', ac_adapter_version = ''1.0.0'',
       ac_supported_effect_types = [''payment.transfer''], ac_environments = sorted_set [''dev'', ''eval'', ''demo''],
       ac_provider_idempotent = Some True, ac_compensation_feasible = Some True,
       ac_description = Some ''Deterministic payment simulator (no real money)''\<rparr>,
      \<lparr>ac_adapter_id = ''email.sandbox'', ac_adapter_version = ''1.0.0'',
       ac_supported_effect_types = [''email.send''], ac_environments = sorted_set [''dev'', ''eval'', ''demo''],
       ac_provider_idempotent = Some True, ac_compensation_feasible = Some False,
       ac_description = Some ''In-memory email sandbox (send is irreversible)''\<rparr>,
      \<lparr>ac_adapter_id = ''sqlite.row'', ac_adapter_version = ''1.0.0'',
       ac_supported_effect_types = sorted_set [''sqlite.row.delete'', ''sqlite.row.insert'', ''sqlite.row.update''],
       ac_environments = sorted_set [''dev'', ''eval'', ''demo''],
       ac_provider_idempotent = Some True, ac_compensation_feasible = Some True,
       ac_description = Some ''Local SQLite row adapter''\<rparr>]"

definition build_reference_registry :: adapter_registry where
  "build_reference_registry = reg_init reference_adapter_capabilities"

section \<open>Trust after a history of registrations and revocations\<close>

datatype registry_op = TrustAdapter adapter_capability | DistrustAdapter string string time "string option"

primrec reg_apply :: "adapter_registry \<Rightarrow> registry_op \<Rightarrow> adapter_registry" where
  "reg_apply r (TrustAdapter c) = snd (reg_register r c)"
| "reg_apply r (DistrustAdapter i v at reason) = snd (reg_revoke r i v at reason)"

text \<open>What the registry promises of a pair: the capability of its last registration, unless a later
  revocation with an admissible reason withdrew it.\<close>

fun trust_step :: "string \<Rightarrow> string \<Rightarrow> adapter_capability option \<Rightarrow> registry_op \<Rightarrow> adapter_capability option" where
  "trust_step i v t (TrustAdapter c) = (if ac_adapter_id c = i \<and> ac_adapter_version c = v then Some c else t)"
| "trust_step i v t (DistrustAdapter j w at reason) =
     (if j = i \<and> w = v \<and> (case reason of None \<Rightarrow> True | Some x \<Rightarrow> length x \<le> 256) then None else t)"

definition reg_trust :: "adapter_registry \<Rightarrow> string \<Rightarrow> string \<Rightarrow> adapter_capability option" where
  "reg_trust r i v = (case map_of r (i, v) of None \<Rightarrow> None
     | Some e \<Rightarrow> if re_revoked e then None else Some (re_capability e))"

lemma reg_require_trust:
  "reg_require r i v = (case reg_trust r i v of None \<Rightarrow> Inl (AdapterE UntrustedAdapterError) | Some c \<Rightarrow> Inr c)"
  by (auto simp: reg_require_def reg_trust_def reg_lookup_def split: option.splits)

lemma reg_trust_step: "reg_trust (reg_apply r op) i v = trust_step i v (reg_trust r i v) op"
  by (cases op)
    (auto simp: reg_trust_def reg_register_def reg_revoke_def reg_lookup_def Let_def update_conv'
      entry_validate_def thenR_def raise_if_def split: option.splits)

lemma reg_trust_history: "reg_trust (foldl reg_apply r ops) i v = foldl (trust_step i v) (reg_trust r i v) ops"
  by (induction ops arbitrary: r) (simp_all add: reg_trust_step)

text \<open>The registry fails closed: after any sequence of registrations and revocations an adapter
  may perform an effect exactly when its last registration declares the effect type and was not
  revoked since.\<close>

theorem registry_trust_exact:
  "reg_require_effect (foldl reg_apply [] ops) i v et =
     (case foldl (trust_step i v) None ops of
        Some c \<Rightarrow> if et \<in> set (ac_supported_effect_types c) then Inr c else Inl (AdapterE UntrustedAdapterError)
      | None \<Rightarrow> Inl (AdapterE UntrustedAdapterError))"
  by (simp add: reg_require_effect_def reg_require_trust reg_trust_history reg_trust_def [of "[]"]
      supports_effect_type_def split: option.splits)

lemma reg_trusted_iff: "reg_is_trusted r i v \<longleftrightarrow> is_ok (reg_require r i v)"
  by (auto simp: reg_is_trusted_def reg_require_def split: option.splits)

lemma reference_registry_trusts:
  "is_ok (reg_require_effect build_reference_registry ''payment.simulator'' ''1.0.0'' ''payment.transfer'')"
  "\<not> is_ok (reg_require_effect build_reference_registry ''payment.simulator'' ''1.0.1'' ''payment.transfer'')"
  by code_simp+

end
