(* ===== verification/Compensation.thy ===== *)
theory Compensation
  imports Saga Adapters AuditJournal
begin

text \<open>
  Compensation (\<^verbatim>\<open>compensation/\<close>): the manifest of a compensating effect, bound to the sealed
  original by the original's hash among its parameters, the check of that binding, the status
  derived from what the adapter reported and what was observed, and the compensation passport.

  Identifiers drawn by \<^verbatim>\<open>uuid4\<close> are arguments.  The passport's \<^verbatim>\<open>detail\<close> joins the messages of the
  checks that failed; it is modelled as the list of those exceptions.
\<close>

section \<open>The compensation manifest\<close>

definition ORIGINAL_HASH_PARAM :: string where
  "ORIGINAL_HASH_PARAM = ''original_manifest_hash''"

definition ORIGINAL_ID_PARAM :: string where
  "ORIGINAL_ID_PARAM = ''original_manifest_id''"

definition ORIGINAL_COMMIT_REF_PARAM :: string where
  "ORIGINAL_COMMIT_REF_PARAM = ''original_provider_reference''"

definition COMPENSATION_EFFECT_SUFFIX :: string where
  "COMPENSATION_EFFECT_SUFFIX = ''.compensate''"

abbreviation binding_error :: exn where
  "binding_error \<equiv> CompensationE CompensationBindingError"

definition assert_sha256_digest :: "string \<Rightarrow> string res" where
  "assert_sha256_digest v = (if digest_shape v then Inr v else Inl binding_error)"

text \<open>The optional arguments; an empty string stands for an argument not given, as the source tests
  these with \<^verbatim>\<open>or\<close>.\<close>

record compensation_args =
  ca_effect_type :: string
  ca_parameters :: "(string \<times> parameter_value) list"
  ca_target_resource :: string
  ca_risk :: "risk_classification option"
  ca_reversibility :: reversibility_classification
  ca_blast_radius :: "blast_radius_classification option"
  ca_idempotency_key :: string
  ca_manifest_id :: string
  ca_nonce :: string
  ca_ttl_seconds :: int
  ca_created_at :: "time option"

text \<open>\<^verbatim>\<open>x or y\<close> on strings.\<close>

definition or_else :: "string \<Rightarrow> string \<Rightarrow> string" where
  "or_else x y = (if x = [] then y else x)"

definition compensation_parameters ::
    "string \<Rightarrow> string \<Rightarrow> commit_result option \<Rightarrow> (string \<times> parameter_value) list \<Rightarrow> (string \<times> parameter_value) list" where
  "compensation_parameters oh oid oc ps =
     (let ps1 = AList.update ORIGINAL_ID_PARAM (PStr oid) (AList.update ORIGINAL_HASH_PARAM (PStr oh) ps)
      in case oc of
          Some c \<Rightarrow> (case cm_provider_reference c of
              Some r \<Rightarrow> if r = [] then ps1 else AList.update ORIGINAL_COMMIT_REF_PARAM (PStr r) ps1
            | None \<Rightarrow> ps1)
        | None \<Rightarrow> ps1)"

definition build_compensation_manifest :: "crypto \<Rightarrow> time \<Rightarrow> string \<Rightarrow> string \<Rightarrow> string \<Rightarrow> sealed_manifest
    \<Rightarrow> commit_result option \<Rightarrow> compensation_args \<Rightarrow> effect_manifest res" where
  "build_compensation_manifest cr now uuid_id uuid_key uuid_nonce original original_commit a =
     thenR (verify_integrity cr original)
     (bindR (assert_sha256_digest (s_manifest_hash (sm_seal original))) (\<lambda>original_hash.
      let om = sm_manifest original; when = (case ca_created_at a of Some t \<Rightarrow> t | None \<Rightarrow> now);
          m = \<lparr>m_schema_version = CURRENT_SCHEMA_VERSION,
               m_manifest_id = or_else (ca_manifest_id a) uuid_id,
               m_effect_type = or_else (ca_effect_type a) (m_effect_type om @ COMPENSATION_EFFECT_SUFFIX),
               m_actor = m_actor om, m_principal = m_principal om, m_adapter = m_adapter om,
               m_target_resource = or_else (ca_target_resource a) (m_target_resource om),
               m_parameters = compensation_parameters original_hash (m_manifest_id om) original_commit (ca_parameters a),
               m_before_state_digest = None, m_expected_after_state_digest = None,
               m_state_fingerprint = None, m_preconditions = [],
               m_risk = (case ca_risk a of Some r \<Rightarrow> r | None \<Rightarrow> m_risk om),
               m_reversibility = ca_reversibility a,
               m_blast_radius = (case ca_blast_radius a of Some b \<Rightarrow> b | None \<Rightarrow> m_blast_radius om),
               m_estimated_cost = m_estimated_cost om,
               m_idempotency_key = or_else (ca_idempotency_key a)
                 (''compensate:'' @ m_idempotency_key om @ '':'' @ take 12 uuid_key),
               m_created_at = when, m_expires_at = when + ca_ttl_seconds a * second,
               m_nonce = or_else (ca_nonce a) uuid_nonce,
               m_parent_manifest_id = Some (m_manifest_id om),
               m_metadata = [(''compensation_of'', m_manifest_id om), (''compensation_of_hash'', original_hash)]\<rparr>
      in thenR (raise_if (case map_of (ca_parameters a) ORIGINAL_HASH_PARAM of
                    None \<Rightarrow> False | Some v \<Rightarrow> v \<noteq> PStr original_hash) binding_error)
         (thenR (manifest_validate m) (Inr m))))"

definition original_manifest_hash_of :: "effect_manifest \<Rightarrow> string res" where
  "original_manifest_hash_of m = (case map_of (m_parameters m) ORIGINAL_HASH_PARAM of
      Some (PStr raw) \<Rightarrow> assert_sha256_digest raw
    | _ \<Rightarrow> Inl binding_error)"

text \<open>The compensation is a manifest or a sealed one; the latter is checked for integrity first.\<close>

definition assert_manifest_binds_original :: "crypto \<Rightarrow> effect_manifest \<Rightarrow> sealed_manifest \<Rightarrow> unit res" where
  "assert_manifest_binds_original cr m original =
     thenR (verify_integrity cr original)
     (bindR (original_manifest_hash_of m) (\<lambda>bound. allR
       [raise_if (bound \<noteq> s_manifest_hash (sm_seal original)) binding_error,
        raise_if (m_parent_manifest_id m \<notin> {None, Some (m_manifest_id (sm_manifest original))}) binding_error]))"

definition assert_compensation_binds_original :: "crypto \<Rightarrow> sealed_manifest \<Rightarrow> sealed_manifest \<Rightarrow> unit res" where
  "assert_compensation_binds_original cr compensation original =
     thenR (verify_integrity cr compensation)
       (assert_manifest_binds_original cr (sm_manifest compensation) original)"

section \<open>Status and passport\<close>

definition derive_compensation_status ::
    "compensation_result option \<Rightarrow> commit_result option \<Rightarrow> outcome_proof option \<Rightarrow> compensation_status" where
  "derive_compensation_status adapter_result commit_result outcome_proof =
     (if (case adapter_result of Some r \<Rightarrow> \<not> cp_attempted r | None \<Rightarrow> False) then REFUSED
      else if (case outcome_proof of Some p \<Rightarrow> op_matched_expected p | None \<Rightarrow> False) then COMP_VERIFIED
      else if (case commit_result of Some c \<Rightarrow> cm_success c | None \<Rightarrow> False) then ATTEMPTED
      else if (case adapter_result of Some r \<Rightarrow> cp_attempted r | None \<Rightarrow> False) then ATTEMPTED
      else REFUSED)"

record compensation_passport =
  cpp_schema_version :: string
  cpp_generated_at :: time
  cpp_compensation_manifest_id :: string
  cpp_compensation_manifest_hash :: string
  cpp_compensation_effect_type :: string
  cpp_original_manifest_id :: string
  cpp_original_manifest_hash :: string
  cpp_status :: compensation_status
  cpp_grant_id :: "string option"
  cpp_authorized_by :: "principal option"
  cpp_commit_attempted :: bool
  cpp_commit_success :: "bool option"
  cpp_provider_reference :: "string option"
  cpp_commit_detail :: "string option"
  cpp_observed_matched_expected :: "bool option"
  cpp_observation_detail :: "string option"
  cpp_refused :: bool
  cpp_refusal_reason :: "string option"
  cpp_seal_verified :: bool
  cpp_grant_verified :: "bool option"
  cpp_audit_chain_verified :: bool
  cpp_detail :: "exn list"

text \<open>\<^verbatim>\<open>try: check except KarmaSakshiError\<close>: whether the check passed and what it raised.\<close>

definition attempt :: "unit res \<Rightarrow> (bool \<times> exn list) res" where
  "attempt r = (case r of Inr _ \<Rightarrow> Inr (True, []) | Inl x \<Rightarrow> if is_ks x then Inr (False, [x]) else Inl x)"

definition build_compensation_passport :: "crypto \<Rightarrow> 'b audit_ops \<Rightarrow> 'b \<Rightarrow> time \<Rightarrow> sealed_manifest \<Rightarrow> sealed_manifest
    \<Rightarrow> keyring \<Rightarrow> execution_grant option \<Rightarrow> commit_result option \<Rightarrow> outcome_proof option
    \<Rightarrow> compensation_result option \<Rightarrow> compensation_passport res" where
  "build_compensation_passport cr ops journal now compensation original kr grant commit proof adapter_result =
     thenR (assert_compensation_binds_original cr compensation original)
     (bindR (original_manifest_hash_of (sm_manifest compensation)) (\<lambda>original_hash.
      bindR (attempt (verify_integrity cr compensation)) (\<lambda>(seal_verified, d1).
      bindR (case grant of None \<Rightarrow> Inr (None, [])
             | Some g \<Rightarrow> bindR (attempt (verify_grant_signature cr g kr)) (\<lambda>(ok, d). Inr (Some ok, d))) (\<lambda>(grant_verified, d2).
      bindR (attempt (verify_chain cr ops journal)) (\<lambda>(audit_ok, d3).
      let status = derive_compensation_status adapter_result commit proof
      in Inr \<lparr>cpp_schema_version = CURRENT_SCHEMA_VERSION, cpp_generated_at = now,
           cpp_compensation_manifest_id = m_manifest_id (sm_manifest compensation),
           cpp_compensation_manifest_hash = s_manifest_hash (sm_seal compensation),
           cpp_compensation_effect_type = m_effect_type (sm_manifest compensation),
           cpp_original_manifest_id = m_manifest_id (sm_manifest original),
           cpp_original_manifest_hash = original_hash,
           cpp_status = status,
           cpp_grant_id = map_option g_grant_id grant,
           cpp_authorized_by = map_option g_issuer grant,
           cpp_commit_attempted = (commit \<noteq> None \<or> (case adapter_result of None \<Rightarrow> False | Some r \<Rightarrow> cp_attempted r)),
           cpp_commit_success = (case commit of Some c \<Rightarrow> Some (cm_success c) | None \<Rightarrow> map_option cp_succeeded adapter_result),
           cpp_provider_reference = (case commit of Some c \<Rightarrow> cm_provider_reference c | None \<Rightarrow> None),
           cpp_commit_detail = (case commit of Some c \<Rightarrow> cm_detail c
             | None \<Rightarrow> (case adapter_result of Some r \<Rightarrow> cp_detail r | None \<Rightarrow> None)),
           cpp_observed_matched_expected = map_option op_matched_expected proof,
           cpp_observation_detail = (case proof of Some p \<Rightarrow> op_detail p | None \<Rightarrow> None),
           cpp_refused = (status = REFUSED),
           cpp_refusal_reason = (case adapter_result of Some r \<Rightarrow> if status = REFUSED then cp_reason r else None | None \<Rightarrow> None),
           cpp_seal_verified = seal_verified, cpp_grant_verified = grant_verified,
           cpp_audit_chain_verified = audit_ok, cpp_detail = d1 @ d2 @ d3\<rparr>)))))"

section \<open>Facts\<close>

lemma compensation_parameters_hash:
  "map_of (compensation_parameters oh oid oc ps) ORIGINAL_HASH_PARAM = Some (PStr oh)"
  by (simp add: compensation_parameters_def Let_def update_conv' ORIGINAL_HASH_PARAM_def ORIGINAL_ID_PARAM_def
      ORIGINAL_COMMIT_REF_PARAM_def split: option.splits)

text \<open>A compensation built for an original is bound to that original and, once sealed, to no other
  effect: the binding check accepts it for the original, and accepts it for any sealed manifest only
  if that one carries the same hash.\<close>

theorem compensation_binds_one_original:
  assumes "build_compensation_manifest cr now u1 u2 u3 original oc a = Inr m"
  shows "assert_manifest_binds_original cr m original = Inr ()
     \<and> (\<forall>other. assert_manifest_binds_original cr m other = Inr ()
          \<longrightarrow> s_manifest_hash (sm_seal other) = s_manifest_hash (sm_seal original)
            \<and> m_manifest_id (sm_manifest other) = m_manifest_id (sm_manifest original))"
proof -
  let ?oh = "s_manifest_hash (sm_seal original)"
  have m: "verify_integrity cr original = Inr ()" "digest_shape ?oh"
    "m_parent_manifest_id m = Some (m_manifest_id (sm_manifest original))"
    "map_of (m_parameters m) ORIGINAL_HASH_PARAM = Some (PStr ?oh)"
    using assms
    by (auto simp: build_compensation_manifest_def assert_sha256_digest_def Let_def result_simps is_ok_unit
        compensation_parameters_hash split: if_splits)
  have h: "original_manifest_hash_of m = Inr ?oh"
    by (simp add: original_manifest_hash_of_def assert_sha256_digest_def m)
  show ?thesis
    by (auto simp: assert_manifest_binds_original_def h m result_simps)
qed

definition toy_sealed :: sealed_manifest where
  "toy_sealed = \<lparr>sm_manifest = toy_manifest, sm_seal = \<lparr>s_algorithm = ''ed25519'', s_key_id = ''key-1'',
     s_manifest_hash = manifest_hash toy_crypto toy_manifest,
     s_signature = sk_sign toy_crypto toy_key (manifest_hash toy_crypto toy_manifest), s_sealed_at = 5\<rparr>\<rparr>"

definition toy_compensation_args :: compensation_args where
  "toy_compensation_args = \<lparr>ca_effect_type = [], ca_parameters = [(''note'', PStr ''undo'')], ca_target_resource = [],
     ca_risk = None, ca_reversibility = COMPENSATABLE, ca_blast_radius = None, ca_idempotency_key = [],
     ca_manifest_id = ''m-2'', ca_nonce = ''n-2'', ca_ttl_seconds = 300, ca_created_at = None\<rparr>"

lemma toy_compensation_ok:
  "\<exists>m. build_compensation_manifest toy_crypto 10 ''u1'' ''u2'' ''u3'' toy_sealed None toy_compensation_args = Inr m"
proof -
  obtain h where h: "s_manifest_hash (sm_seal toy_sealed) = h" "digest_shape h"
    using canonical_hash_shape [OF toy_crypto_ok] by (simp add: toy_sealed_def manifest_hash_def)
  then have l: "length h = 71"
    by (simp add: digest_shape_def)
  have v: "verify_integrity toy_crypto toy_sealed = Inr ()" "is_ok (assert_supported_schema_version CURRENT_SCHEMA_VERSION)"
    by (simp add: verify_integrity_def toy_sealed_def raise_if_def) code_simp
  have s: "sm_manifest toy_sealed = toy_manifest"
    by (simp add: toy_sealed_def)
  show ?thesis
    unfolding build_compensation_manifest_def s v(1) h(1)
    by (simp add: assert_sha256_digest_def result_simps Let_def h(2) v(2)
        toy_compensation_args_def ORIGINAL_HASH_PARAM_def manifest_validate_def or_else_def id_length_check_def)
       (simp add: toy_manifest_def l COMPENSATION_EFFECT_SUFFIX_def target_resource_validate_def
          parameters_validate_def compensation_parameters_def ORIGINAL_HASH_PARAM_def ORIGINAL_ID_PARAM_def
          metadata_validate_def default_manifest_limits_def default_metadata_limits_def second_def)
qed

theorem compensation_binds_one_original_witness:
  "\<exists>m. build_compensation_manifest toy_crypto 10 ''u1'' ''u2'' ''u3'' toy_sealed None toy_compensation_args = Inr m
     \<and> assert_manifest_binds_original toy_crypto m toy_sealed = Inr ()"
  using toy_compensation_ok compensation_binds_one_original by blast

lemma compensation_verified_needs_observation:
  "derive_compensation_status ar c p = COMP_VERIFIED \<longleftrightarrow>
     (\<exists>q. p = Some q \<and> op_matched_expected q) \<and> (\<forall>r. ar = Some r \<longrightarrow> cp_attempted r)"
  by (auto simp: derive_compensation_status_def split: option.splits if_splits)

end
