(* ===== verification/EngineState.thy ===== *)
theory EngineState
  imports Delegation AuditJournal LifecycleStores Outbox Budget Duty Tenant Envelope Compensation
begin

text \<open>
  The state of the engine (\<^verbatim>\<open>engine/core.py\<close>, \<^verbatim>\<open>engine/context.py\<close>) and the private methods all its
  handlers share: reading the clock, recording an audit event, calling the stores, and moving a
  manifest along its lifecycle.

  A handler is a computation in the state-and-exception monad of \<open>Prelude\<close>.  \<open>engine_context\<close> holds
  what the engine is configured with and everything it does not control: the clock, the identifiers
  that are drawn, and which calls of the journal and of the stores fail.  These are functions of a
  counter that every such call advances, so they may answer differently each time.  Each handler is
  given its own context; what holds for all contexts holds whatever the environment does.

  The grant store, the lifecycle store and the outbox are any that fit the operations of
  \<open>GrantStores\<close>, \<open>LifecycleStores\<close> and \<open>Outbox\<close>; the last two and the budget ledger may be absent.
  The journal is the in-memory one.  Reads of the grant store do not fail.

  \<open>e_effects\<close> is a history variable: the calls of adapters that act on the outside world.  No
  handler reads it.
\<close>

section \<open>State\<close>

datatype effect =
    Committed_effect string string string bool
    \<comment> \<open>\<^verbatim>\<open>adapter.commit\<close>: manifest, grant, idempotency key, whether it reported success\<close>
  | Compensated_effect string
    \<comment> \<open>\<^verbatim>\<open>adapter.compensate\<close>: the original's manifest\<close>

record ('s, 'l, 'o) engine_context =
  ctx_crypto :: crypto
  ctx_keyring :: keyring
  ctx_leeway_seconds :: int
  ctx_adapter_registry :: "adapter_registry option"
  ctx_tenant_id :: "string option"
  ctx_grant_ops :: "'s grant_store_ops"
  ctx_lifecycle_ops :: "'l lifecycle_ops"
  ctx_outbox_step :: "bool \<Rightarrow> 'o \<Rightarrow> outbox_call \<Rightarrow> unit res \<times> 'o"
  ctx_outbox_get :: "'o \<Rightarrow> string \<Rightarrow> outbox_entry option res"
  ctx_outbox_pending :: "'o \<Rightarrow> outbox_entry list res"
  ctx_now :: "nat \<Rightarrow> time"
  ctx_uuid :: "nat \<Rightarrow> string"
  ctx_audit_fault :: "nat \<Rightarrow> bool"
  ctx_store_fault :: "nat \<Rightarrow> fault"
  ctx_lifecycle_fault :: "nat \<Rightarrow> bool"
  ctx_outbox_fault :: "nat \<Rightarrow> bool"
  ctx_text :: "exn \<Rightarrow> string"
    \<comment> \<open>\<^verbatim>\<open>str(exc)\<close>\<close>
  ctx_reason :: "nat \<Rightarrow> string"
    \<comment> \<open>the explanation in a quorum or separation-of-duty result\<close>

record ('s, 'l, 'o) engine =
  e_records :: "string \<Rightarrow> lifecycle_record option"
  e_saga_runs :: "string \<Rightarrow> saga_run option"
  e_store :: 's
  e_journal :: "audit_event list"
  e_budget :: "budget_ledger option"
  e_lifecycle :: "'l option"
  e_outbox :: "'o option"
  e_tick :: nat
  e_effects :: "effect list"

type_synonym ('s, 'l, 'o, 'a) handler = "(('s, 'l, 'o) engine, 'a) sem"

section \<open>Calls of the environment\<close>

definition fresh :: "(nat \<Rightarrow> 'a) \<Rightarrow> ('s, 'l, 'o, 'a) handler" where
  "fresh f = (\<lambda>s. (Inr (f (e_tick s)), s\<lparr>e_tick := Suc (e_tick s)\<rparr>))"

abbreviation clock_now :: "('s, 'l, 'o) engine_context \<Rightarrow> ('s, 'l, 'o, time) handler" where
  "clock_now C \<equiv> fresh (ctx_now C)"

abbreviation uuid4 :: "('s, 'l, 'o) engine_context \<Rightarrow> ('s, 'l, 'o, string) handler" where
  "uuid4 C \<equiv> fresh (ctx_uuid C)"

definition audit :: "('s, 'l, 'o) engine_context \<Rightarrow> audit_entry \<Rightarrow> ('s, 'l, 'o, unit) handler" where
  "audit C en =
     bindE (clock_now C) (\<lambda>t. bindE (uuid4 C) (\<lambda>u. bindE (fresh (ctx_audit_fault C)) (\<lambda>f.
       (\<lambda>s. case journal_record (ctx_crypto C) am_ops t u f en (e_journal s) of
          (Inl x, j) \<Rightarrow> (Inl x, s\<lparr>e_journal := j\<rparr>)
        | (Inr _, j) \<Rightarrow> (Inr (), s\<lparr>e_journal := j\<rparr>)))))"

definition on_store :: "('s, 'l, 'o) engine_context \<Rightarrow> (fault \<Rightarrow> 's \<Rightarrow> 'a res \<times> 's) \<Rightarrow> ('s, 'l, 'o, 'a) handler" where
  "on_store C f = bindE (fresh (ctx_store_fault C)) (\<lambda>ft.
     (\<lambda>s. case f ft (e_store s) of (r, st) \<Rightarrow> (r, s\<lparr>e_store := st\<rparr>)))"

definition store_reserve :: "('s, 'l, 'o) engine_context \<Rightarrow> string \<Rightarrow> int \<Rightarrow> ('s, 'l, 'o, bool) handler" where
  "store_reserve C g m = on_store C (\<lambda>ft st. gs_reserve (ctx_grant_ops C) ft st g m)"

definition store_release :: "('s, 'l, 'o) engine_context \<Rightarrow> string \<Rightarrow> ('s, 'l, 'o, unit) handler" where
  "store_release C g = on_store C (\<lambda>ft st. gs_release (ctx_grant_ops C) ft st g)"

definition store_commit :: "('s, 'l, 'o) engine_context \<Rightarrow> string \<Rightarrow> string \<Rightarrow> string \<Rightarrow> ('s, 'l, 'o, unit) handler" where
  "store_commit C g k out = on_store C (\<lambda>ft st. gs_commit (ctx_grant_ops C) ft st g k out)"

definition store_revoke :: "('s, 'l, 'o) engine_context \<Rightarrow> string \<Rightarrow> ('s, 'l, 'o, unit) handler" where
  "store_revoke C g = on_store C (\<lambda>ft st. gs_revoke (ctx_grant_ops C) ft st g)"

definition store_record_outcome :: "('s, 'l, 'o) engine_context \<Rightarrow> string \<Rightarrow> string \<Rightarrow> ('s, 'l, 'o, unit) handler" where
  "store_record_outcome C k out = on_store C (\<lambda>ft st. gs_record_idempotent_outcome (ctx_grant_ops C) ft st k out)"

definition store_record_lineage ::
    "('s, 'l, 'o) engine_context \<Rightarrow> string \<Rightarrow> string option \<Rightarrow> ('s, 'l, 'o, unit) handler" where
  "store_record_lineage C g p = on_store C (\<lambda>ft st. gs_record_lineage (ctx_grant_ops C) ft st g p)"

text \<open>Calling a method of a ledger or an outbox that is not configured raises \<^verbatim>\<open>AttributeError\<close>; the
  handlers test for it first.\<close>

definition on_budget :: "(budget_ledger, 'a) sem \<Rightarrow> ('s, 'l, 'o, 'a) handler" where
  "on_budget f = (\<lambda>s. case e_budget s of
      None \<Rightarrow> (Inl (OtherError ''AttributeError''), s)
    | Some l \<Rightarrow> (case f l of (r, l') \<Rightarrow> (r, s\<lparr>e_budget := Some l'\<rparr>)))"

definition outbox_call :: "('s, 'l, 'o) engine_context \<Rightarrow> outbox_call \<Rightarrow> ('s, 'l, 'o, unit) handler" where
  "outbox_call C c = bindE (fresh (ctx_outbox_fault C)) (\<lambda>f.
     (\<lambda>s. case e_outbox s of
        None \<Rightarrow> (Inl (OtherError ''AttributeError''), s)
      | Some ob \<Rightarrow> (case ctx_outbox_step C f ob c of (r, ob') \<Rightarrow> (r, s\<lparr>e_outbox := Some ob'\<rparr>))))"

definition outbox_get :: "('s, 'l, 'o) engine_context \<Rightarrow> string \<Rightarrow> ('s, 'l, 'o, outbox_entry option) handler" where
  "outbox_get C k = (\<lambda>s. case e_outbox s of
      None \<Rightarrow> (Inl (OtherError ''AttributeError''), s)
    | Some ob \<Rightarrow> (ctx_outbox_get C ob k, s))"

definition lifecycle_get :: "('s, 'l, 'o) engine_context \<Rightarrow> string \<Rightarrow> ('s, 'l, 'o, lifecycle_state option) handler" where
  "lifecycle_get C mid = (\<lambda>s. case e_lifecycle s of
      None \<Rightarrow> (Inr None, s)
    | Some l \<Rightarrow> (lo_get (ctx_lifecycle_ops C) l mid, s))"

definition lifecycle_set :: "('s, 'l, 'o) engine_context \<Rightarrow> string \<Rightarrow> lifecycle_state \<Rightarrow> ('s, 'l, 'o, unit) handler" where
  "lifecycle_set C mid v = bindE (fresh (ctx_lifecycle_fault C)) (\<lambda>f.
     (\<lambda>s. case e_lifecycle s of
        None \<Rightarrow> (Inr (), s)
      | Some l \<Rightarrow> (case lo_set (ctx_lifecycle_ops C) f l mid v of (r, l') \<Rightarrow> (r, s\<lparr>e_lifecycle := Some l'\<rparr>))))"

definition lifecycle_cas :: "('s, 'l, 'o) engine_context \<Rightarrow> string \<Rightarrow> lifecycle_state option \<Rightarrow> lifecycle_state
    \<Rightarrow> ('s, 'l, 'o, bool) handler" where
  "lifecycle_cas C mid expected new_state = bindE (fresh (ctx_lifecycle_fault C)) (\<lambda>f.
     (\<lambda>s. case e_lifecycle s of
        None \<Rightarrow> (Inl (OtherError ''AttributeError''), s)
      | Some l \<Rightarrow> (case lo_cas (ctx_lifecycle_ops C) f l mid expected new_state of
          (r, l') \<Rightarrow> (r, s\<lparr>e_lifecycle := Some l'\<rparr>))))"

section \<open>Audit entries\<close>

definition entry_of :: "string \<Rightarrow> string \<Rightarrow> string option \<Rightarrow> string option \<Rightarrow> string option \<Rightarrow> string option
    \<Rightarrow> (string \<times> string) list \<Rightarrow> audit_entry" where
  "entry_of et dec mid mh gid actor meta =
     \<lparr>en_event_type = et, en_decision = dec, en_manifest_id = mid, en_manifest_hash = mh, en_grant_id = gid,
      en_actor_id = actor, en_from_state = None, en_to_state = None, en_metadata = meta\<rparr>"

text \<open>An entry of the dictionary only when the value is a nonempty string.\<close>

definition meta_opt :: "string \<Rightarrow> string option \<Rightarrow> (string \<times> string) list" where
  "meta_opt k v = (case v of None \<Rightarrow> [] | Some x \<Rightarrow> if x = [] then [] else [(k, x)])"

definition bool_str :: "bool \<Rightarrow> string" where
  "bool_str b = (if b then ''True'' else ''False'')"

text \<open>\<^verbatim>\<open>(x or "")[:200]\<close>.\<close>

definition clip :: "string option \<Rightarrow> string" where
  "clip x = (case x of None \<Rightarrow> [] | Some v \<Rightarrow> take 200 v)"

text \<open>A dictionary display: later entries of a key replace earlier ones.\<close>

definition dict_of :: "(string \<times> 'v) list \<Rightarrow> (string \<times> 'v) list" where
  "dict_of kvs = foldl (\<lambda>d (k, v). AList.update k v d) [] kvs"

definition role_participation_metadata :: "role_assignment \<Rightarrow> (string \<times> string) list" where
  "role_participation_metadata a = map (\<lambda>(role, ids). (''role:'' @ role, ids)) (as_role_participation a)"

section \<open>Lifecycle records\<close>

definition put_record :: "string \<Rightarrow> lifecycle_record \<Rightarrow> ('s, 'l, 'o, unit) handler" where
  "put_record mid r = modS (\<lambda>s. s\<lparr>e_records := (e_records s)(mid := Some r)\<rparr>)"

definition record_in_state :: "string \<Rightarrow> lifecycle_state \<Rightarrow> lifecycle_record" where
  "record_in_state mid st = \<lparr>lr_manifest_id = mid, lr_state = st, lr_history = []\<rparr>"

definition get_record :: "('s, 'l, 'o) engine_context \<Rightarrow> string \<Rightarrow> ('s, 'l, 'o, lifecycle_record) handler" where
  "get_record C mid = bindE (getS (\<lambda>s. e_records s mid)) (\<lambda>record. case record of
      Some r \<Rightarrow> ret r
    | None \<Rightarrow> bindE (lifecycle_get C mid) (\<lambda>stored.
        let r = (case stored of Some st \<Rightarrow> record_in_state mid st | None \<Rightarrow> new_record mid)
        in thenE (put_record mid r) (ret r)))"

definition get_lifecycle_state :: "('s, 'l, 'o) engine_context \<Rightarrow> string \<Rightarrow> ('s, 'l, 'o, lifecycle_state) handler" where
  "get_lifecycle_state C mid = bindE (get_record C mid) (\<lambda>r. ret (lr_state r))"

definition seed_lifecycle_state :: "('s, 'l, 'o) engine_context \<Rightarrow> string \<Rightarrow> lifecycle_state \<Rightarrow> ('s, 'l, 'o, unit) handler" where
  "seed_lifecycle_state C mid st = thenE (put_record mid (record_in_state mid st)) (lifecycle_set C mid st)"

abbreviation store_unavailable :: exn where
  "store_unavailable \<equiv> StoreE StoreUnavailableError"

definition persist_lifecycle ::
    "('s, 'l, 'o) engine_context \<Rightarrow> string \<Rightarrow> lifecycle_state \<Rightarrow> lifecycle_state \<Rightarrow> ('s, 'l, 'o, unit) handler" where
  "persist_lifecycle C mid from_state target = bindE (getS e_lifecycle) (\<lambda>store.
     if store = None then ret ()
     else bindE (lifecycle_get C mid) (\<lambda>stored.
       if stored = None \<and> from_state = PROPOSED
       then bindE (lifecycle_cas C mid None target) (\<lambda>ok.
            if ok then ret ()
            else bindE (lifecycle_cas C mid (Some from_state) target) (\<lambda>ok'.
                 if ok' then ret () else raiseE store_unavailable))
       else bindE (lifecycle_cas C mid (Some from_state) target) (\<lambda>ok.
            if ok then ret () else raiseE store_unavailable)))"

record transition_args =
  ta_event_type :: string
  ta_grant_id :: "string option"
  ta_manifest_hash :: "string option"
  ta_actor_id :: "string option"
  ta_metadata :: "(string \<times> string) list"

definition targs :: "string \<Rightarrow> string option \<Rightarrow> string option \<Rightarrow> string option \<Rightarrow> (string \<times> string) list \<Rightarrow> transition_args" where
  "targs et gid mh actor meta = \<lparr>ta_event_type = et, ta_grant_id = gid, ta_manifest_hash = mh, ta_actor_id = actor, ta_metadata = meta\<rparr>"

definition transition_entry ::
    "string \<Rightarrow> lifecycle_state \<Rightarrow> lifecycle_state \<Rightarrow> transition_args \<Rightarrow> string \<Rightarrow> audit_entry" where
  "transition_entry mid from_state target a decision =
     (entry_of (ta_event_type a) decision (Some mid) (ta_manifest_hash a) (ta_grant_id a) (ta_actor_id a) (ta_metadata a))
       \<lparr>en_from_state := Some (state_value from_state), en_to_state := Some (state_value target)\<rparr>"

definition transition ::
    "('s, 'l, 'o) engine_context \<Rightarrow> string \<Rightarrow> lifecycle_state \<Rightarrow> transition_args \<Rightarrow> ('s, 'l, 'o, unit) handler" where
  "transition C mid target a =
     bindE (get_record C mid) (\<lambda>record.
     bindE (clock_now C) (\<lambda>at.
     let from_state = lr_state record; entry = transition_entry mid from_state target a in
     case record_transition record target at of
       Inl x \<Rightarrow> if is_ks x then thenE (audit C (entry ''blocked_illegal_transition'')) (raiseE x) else raiseE x
     | Inr moved \<Rightarrow>
         thenE (put_record mid moved)
         (thenE (on_error (\<lambda>x. x = store_unavailable)
            (\<lambda>_. thenE (put_record mid \<lparr>lr_manifest_id = mid, lr_state = from_state, lr_history = butlast (lr_history moved)\<rparr>)
                   (audit C (entry ''blocked_lifecycle_store_unavailable'')))
            (persist_lifecycle C mid from_state target))
         (audit C (entry ''allowed'')))))"

section \<open>Checks shared by the handlers\<close>

definition record_grant_lineage :: "('s, 'l, 'o) engine_context \<Rightarrow> execution_grant \<Rightarrow> ('s, 'l, 'o, unit) handler" where
  "record_grant_lineage C g =
     (if g_parent_grant_id g = None then ret ()
      else store_record_lineage C (g_grant_id g) (g_parent_grant_id g))"

definition assert_authority_budget_registered :: "string option \<Rightarrow> ('s, 'l, 'o, unit) handler" where
  "assert_authority_budget_registered i = (case i of
      None \<Rightarrow> ret ()
    | Some b \<Rightarrow> bindE (getS e_budget) (\<lambda>l. thenE (liftR (require_budget l b)) (ret ())))"

definition require_trusted_adapter :: "('s, 'l, 'o) engine_context \<Rightarrow> effect_adapter \<Rightarrow> string option \<Rightarrow> unit res" where
  "require_trusted_adapter C a effect_type = (case ctx_adapter_registry C of
      None \<Rightarrow> Inr ()
    | Some r \<Rightarrow> (case effect_type of
        None \<Rightarrow> thenR (reg_require_adapter r a) (Inr ())
      | Some et \<Rightarrow> thenR (reg_require_effect r (adapter_id (ad_identity a)) (adapter_version (ad_identity a)) et) (Inr ())))"

definition enforce_policy_tenant :: "('s, 'l, 'o) engine_context \<Rightarrow> sealed_policy_bundle option \<Rightarrow> unit res" where
  "enforce_policy_tenant C pb =
     (if pb = None \<and> ctx_tenant_id C = None then Inr ()
      else bind_engine_and_policy_tenant (ctx_tenant_id C)
             (case pb of None \<Rightarrow> None | Some b \<Rightarrow> pb_tenant_id (spb_bundle b)))"

text \<open>\<^verbatim>\<open>try: check except KarmaSakshiError: audit; raise\<close>.\<close>

definition check_or_audit :: "('s, 'l, 'o) engine_context \<Rightarrow> audit_entry \<Rightarrow> 'a res \<Rightarrow> ('s, 'l, 'o, 'a) handler" where
  "check_or_audit C en r = on_error is_ks (\<lambda>_. audit C en) (liftR r)"

end
