(* ===== verification/EngineAuthorize.thy ===== *)
theory EngineAuthorize
  imports EngineState
begin

text \<open>
  The handlers of the engine up to authorization (\<^verbatim>\<open>engine/core.py\<close>): propose, prepare, seal, the four
  ways to authorize a sealed manifest, and delegation.

  The keyword arguments the four ways share are the record \<open>authorize_args\<close>; an empty grant
  identifier or nonce stands for an argument not given, for which the source draws a fresh one.
\<close>

section \<open>Propose, prepare, seal\<close>

definition propose :: "('s, 'l, 'o) engine_context \<Rightarrow> principal \<Rightarrow> string \<Rightarrow> (string \<times> string) list
    \<Rightarrow> ('s, 'l, 'o, string) handler" where
  "propose C actor effect_type summary = bindE (uuid4 C) (\<lambda>proposal_id.
     thenE (audit C (entry_of ''effect.proposed'' ''proposed'' None None None (Some (principal_id actor))
         (dict_of ([(''proposal_id'', proposal_id), (''effect_type'', effect_type)] @ summary))))
       (ret proposal_id))"

definition prepare :: "('s, 'l, 'o) engine_context \<Rightarrow> effect_adapter \<Rightarrow> ('s, 'l, 'o, effect_manifest) handler" where
  "prepare C adapter =
     thenE (liftR (require_trusted_adapter C adapter None))
     (bindE (liftR (ad_prepare adapter)) (\<lambda>m.
      thenE (liftR (require_trusted_adapter C adapter (Some (m_effect_type m))))
      (thenE (liftR (raise_if (m_adapter m \<noteq> ad_identity adapter) (AdapterE AdapterMismatchError)))
      (thenE (transition C (m_manifest_id m) PREPARED
          (targs ''manifest.prepared'' None (Some (manifest_hash (ctx_crypto C) m)) (Some (principal_id (m_actor m)))
            [(''adapter_id'', adapter_id (ad_identity adapter)), (''effect_type'', m_effect_type m)]))
        (ret m)))))"

definition prepare_compensation :: "('s, 'l, 'o) engine_context \<Rightarrow> effect_manifest \<Rightarrow> sealed_manifest
    \<Rightarrow> ('s, 'l, 'o, effect_manifest) handler" where
  "prepare_compensation C m original =
     thenE (liftR (verify_seal (ctx_crypto C) original (ctx_keyring C)))
     (thenE (liftR (assert_manifest_binds_original (ctx_crypto C) m original))
     (thenE (transition C (m_manifest_id m) PREPARED
         (targs ''compensation.manifest.prepared'' None (Some (manifest_hash (ctx_crypto C) m)) (Some (principal_id (m_actor m)))
           [(''original_manifest_id'', m_manifest_id (sm_manifest original)),
            (''original_manifest_hash'', s_manifest_hash (sm_seal original)), (''effect_type'', m_effect_type m)]))
       (ret m)))"

definition seal :: "('s, 'l, 'o) engine_context \<Rightarrow> effect_manifest \<Rightarrow> signing_key \<Rightarrow> ('s, 'l, 'o, sealed_manifest) handler" where
  "seal C m key = bindE (clock_now C) (\<lambda>t.
     bindE (liftR (seal_manifest (ctx_crypto C) m key t)) (\<lambda>sealed.
     thenE (transition C (m_manifest_id m) SEALED
         (targs ''manifest.sealed'' None (Some (s_manifest_hash (sm_seal sealed))) (Some (principal_id (m_actor m)))
           [(''key_id'', sk_key_id key)]))
       (ret sealed)))"

section \<open>Authorization\<close>

record authorize_args =
  aa_issuer :: principal
  aa_subject :: principal
  aa_audience :: "string list"
  aa_allowed_effect_types :: "string list"
  aa_scope :: scope_constraints
  aa_not_before :: time
  aa_expires_at :: time
  aa_signing_key :: signing_key
  aa_grant_id :: string
  aa_nonce :: string
  aa_max_uses :: int
  aa_parent_grant_id :: "string option"
  aa_authority_budget_id :: "string option"
  aa_policy_bundle :: "sealed_policy_bundle option"
  aa_separation_policy_bundle :: "sealed_policy_bundle option"
  aa_role_assignment :: "role_assignment option"

text \<open>The hashes a grant may be bound to besides the manifest's.\<close>

record grant_bindings =
  gb_policy_bundle_hash :: "string option"
  gb_approval_set_hash :: "string option"
  gb_decision_envelope_hash :: "string option"
  gb_causal_graph_hash :: "string option"

definition no_bindings :: grant_bindings where
  "no_bindings = \<lparr>gb_policy_bundle_hash = None, gb_approval_set_hash = None, gb_decision_envelope_hash = None,
     gb_causal_graph_hash = None\<rparr>"

definition grant_args :: "authorize_args \<Rightarrow> string \<Rightarrow> grant_bindings \<Rightarrow> string \<Rightarrow> string \<Rightarrow> execution_grant" where
  "grant_args a mh b uuid_id uuid_nonce =
     \<lparr>g_schema_version = [], g_grant_id = or_else (aa_grant_id a) uuid_id, g_manifest_hash = Some mh,
      g_policy_bundle_hash = gb_policy_bundle_hash b, g_approval_set_hash = gb_approval_set_hash b,
      g_decision_envelope_hash = gb_decision_envelope_hash b, g_causal_graph_hash = gb_causal_graph_hash b,
      g_authority_budget_id = aa_authority_budget_id a, g_issuer = aa_issuer a, g_subject = aa_subject a,
      g_audience = aa_audience a, g_allowed_effect_types = aa_allowed_effect_types a, g_scope = aa_scope a,
      g_issued_at = 0, g_not_before = aa_not_before a, g_expires_at = aa_expires_at a, g_max_uses = aa_max_uses a,
      g_nonce = or_else (aa_nonce a) uuid_nonce, g_parent_grant_id = aa_parent_grant_id a,
      g_key_id = [], g_algorithm = [], g_signature = None\<rparr>"

text \<open>The entry recorded when a check of an authorization fails.\<close>

definition blocked_entry :: "sealed_manifest \<Rightarrow> principal \<Rightarrow> string \<Rightarrow> (string \<times> string) list \<Rightarrow> audit_entry" where
  "blocked_entry sealed actor et meta =
     entry_of et ''blocked'' (Some (m_manifest_id (sm_manifest sealed))) (Some (s_manifest_hash (sm_seal sealed))) None
       (Some (principal_id actor)) meta"

definition check_policy_bundle :: "('s, 'l, 'o) engine_context \<Rightarrow> sealed_manifest \<Rightarrow> principal
    \<Rightarrow> sealed_policy_bundle option \<Rightarrow> ('s, 'l, 'o, string option) handler" where
  "check_policy_bundle C sealed actor pb = (case pb of
      None \<Rightarrow> ret None
    | Some b \<Rightarrow> bindE (clock_now C) (\<lambda>t.
        thenE (check_or_audit C
            (blocked_entry sealed actor ''policy_bundle.verification_failed'' [(''bundle_id'', pb_bundle_id (spb_bundle b))])
            (verify_policy_bundle (ctx_crypto C) b (ctx_keyring C) t None))
        (thenE (liftR (enforce_policy_tenant C (Some b)))
          (ret (Some (ps_bundle_hash (spb_seal b)))))))"

definition combined_roles ::
    "string \<Rightarrow> string \<Rightarrow> string \<Rightarrow> string list \<Rightarrow> role_assignment option \<Rightarrow> role_assignment res" where
  "combined_roles mh proposer executor approvers extra =
     bindR (base_role_assignment mh proposer executor approvers) (\<lambda>b. merge b extra)"

definition enforce_separation_of_duty :: "('s, 'l, 'o) engine_context \<Rightarrow> sealed_manifest \<Rightarrow> principal
    \<Rightarrow> sealed_policy_bundle option \<Rightarrow> role_assignment \<Rightarrow> ('s, 'l, 'o, unit) handler" where
  "enforce_separation_of_duty C sealed actor bundle roles = (case bundle of
      None \<Rightarrow> ret ()
    | Some b \<Rightarrow> bindE (clock_now C) (\<lambda>t.
        thenE (check_or_audit C
            (blocked_entry sealed actor ''separation_policy_bundle.verification_failed''
              [(''bundle_id'', pb_bundle_id (spb_bundle b))])
            (verify_policy_bundle (ctx_crypto C) b (ctx_keyring C) t (Some POLICY_TYPE_SEPARATION)))
        (bindE (liftR (separation_of_duty_policy_from_bundle_payload (pb_payload (spb_bundle b)))) (\<lambda>policy.
         bindE (liftR (check_separation_of_duty roles policy)) (\<lambda>result.
         bindE (fresh (ctx_reason C)) (\<lambda>reason.
         thenE (audit C (entry_of ''separation_of_duty.evaluated'' (if sd_satisfied result then ''satisfied'' else ''violated'')
             (Some (m_manifest_id (sm_manifest sealed))) (Some (s_manifest_hash (sm_seal sealed))) None
             (Some (principal_id actor)) ((''reason'', take 200 reason) # role_participation_metadata roles)))
         (liftR (raise_if (\<not> sd_satisfied result) (SeparationOfDutyE SeparationOfDutyViolationError)))))))))"

text \<open>The grant is issued, and the manifest becomes authorized.\<close>

definition issue_and_transition :: "('s, 'l, 'o) engine_context \<Rightarrow> sealed_manifest \<Rightarrow> authorize_args
    \<Rightarrow> grant_bindings \<Rightarrow> (string \<times> string) list \<Rightarrow> ('s, 'l, 'o, execution_grant) handler" where
  "issue_and_transition C sealed a b meta =
     (let mh = s_manifest_hash (sm_seal sealed) in
      bindE (uuid4 C) (\<lambda>uuid_id. bindE (uuid4 C) (\<lambda>uuid_nonce. bindE (clock_now C) (\<lambda>t.
      bindE (check_or_audit C (blocked_entry sealed (aa_issuer a) ''grant.issue_denied'' [])
          (issue_grant (ctx_crypto C) t (aa_signing_key a) (grant_args a mh b uuid_id uuid_nonce))) (\<lambda>grant.
      thenE (transition C (m_manifest_id (sm_manifest sealed)) AUTHORIZED
          (targs ''grant.issued'' (Some (g_grant_id grant)) (Some mh) (Some (principal_id (aa_issuer a)))
            ((''subject'', principal_id (aa_subject a)) # meta)))
        (ret grant))))))"

definition authorize :: "('s, 'l, 'o) engine_context \<Rightarrow> sealed_manifest \<Rightarrow> authorize_args
    \<Rightarrow> ('s, 'l, 'o, execution_grant) handler" where
  "authorize C sealed a =
     (let mh = s_manifest_hash (sm_seal sealed) in
      thenE (liftR (verify_seal (ctx_crypto C) sealed (ctx_keyring C)))
      (thenE (assert_authority_budget_registered (aa_authority_budget_id a))
      (bindE (check_policy_bundle C sealed (aa_issuer a) (aa_policy_bundle a)) (\<lambda>pbh.
      bindE (liftR (combined_roles mh (principal_id (m_actor (sm_manifest sealed))) (principal_id (aa_subject a))
          [principal_id (aa_issuer a)] (aa_role_assignment a))) (\<lambda>roles.
      thenE (enforce_separation_of_duty C sealed (aa_issuer a) (aa_separation_policy_bundle a) roles)
      (bindE (issue_and_transition C sealed a (no_bindings\<lparr>gb_policy_bundle_hash := pbh\<rparr>)
          (meta_opt ''policy_bundle_hash'' pbh @ meta_opt ''authority_budget_id'' (aa_authority_budget_id a)
           @ role_participation_metadata roles)) (\<lambda>grant.
      thenE (record_grant_lineage C grant) (ret grant))))))))"

definition authorize_with_envelope :: "('s, 'l, 'o) engine_context \<Rightarrow> sealed_manifest \<Rightarrow> decision_envelope \<Rightarrow> authorize_args
    \<Rightarrow> ('s, 'l, 'o, execution_grant) handler" where
  "authorize_with_envelope C sealed envelope a =
     (let mh = s_manifest_hash (sm_seal sealed) in
      thenE (liftR (verify_seal (ctx_crypto C) sealed (ctx_keyring C)))
      (thenE (assert_authority_budget_registered (aa_authority_budget_id a))
      (bindE (clock_now C) (\<lambda>t.
      thenE (check_or_audit C
          (blocked_entry sealed (aa_issuer a) ''decision_envelope.authorization_failed'' [(''envelope_id'', de_envelope_id envelope)])
          (thenR (verify_decision_envelope (ctx_crypto C) envelope (ctx_keyring C) t)
            (assert_manifest_fits_envelope (sm_manifest sealed) envelope)))
      (let eh = envelope_hash (ctx_crypto C) envelope in
      bindE (check_policy_bundle C sealed (aa_issuer a) (aa_policy_bundle a)) (\<lambda>pbh.
      bindE (liftR (combined_roles mh (principal_id (m_actor (sm_manifest sealed))) (principal_id (aa_subject a))
          [principal_id (aa_issuer a)] (aa_role_assignment a))) (\<lambda>roles.
      thenE (enforce_separation_of_duty C sealed (aa_issuer a) (aa_separation_policy_bundle a) roles)
      (issue_and_transition C sealed a (no_bindings\<lparr>gb_policy_bundle_hash := pbh, gb_decision_envelope_hash := Some eh\<rparr>)
          ([(''decision_envelope_hash'', eh), (''envelope_id'', de_envelope_id envelope)]
           @ meta_opt ''policy_bundle_hash'' pbh @ role_participation_metadata roles)))))))))"

definition authorize_plan :: "('s, 'l, 'o) engine_context \<Rightarrow> sealed_manifest \<Rightarrow> causal_graph \<Rightarrow> authorize_args
    \<Rightarrow> ('s, 'l, 'o, execution_grant) handler" where
  "authorize_plan C sealed graph a =
     (let mh = s_manifest_hash (sm_seal sealed) in
      thenE (liftR (verify_seal (ctx_crypto C) sealed (ctx_keyring C)))
      (thenE (assert_authority_budget_registered (aa_authority_budget_id a))
      (thenE (check_or_audit C
          (blocked_entry sealed (aa_issuer a) ''atomic_plan.authorization_failed'' [(''graph_id'', cg_graph_id graph)])
          (assert_manifest_in_plan (ctx_crypto C) mh graph (Some (ctx_keyring C))))
      (let gh = graph_hash (ctx_crypto C) graph in
      bindE (check_policy_bundle C sealed (aa_issuer a) (aa_policy_bundle a)) (\<lambda>pbh.
      bindE (liftR (combined_roles mh (principal_id (m_actor (sm_manifest sealed))) (principal_id (aa_subject a))
          [principal_id (aa_issuer a)] (aa_role_assignment a))) (\<lambda>roles.
      thenE (enforce_separation_of_duty C sealed (aa_issuer a) (aa_separation_policy_bundle a) roles)
      (issue_and_transition C sealed a (no_bindings\<lparr>gb_policy_bundle_hash := pbh, gb_causal_graph_hash := Some gh\<rparr>)
          ([(''causal_graph_hash'', gh), (''graph_id'', cg_graph_id graph)]
           @ meta_opt ''policy_bundle_hash'' pbh @ role_participation_metadata roles))))))))"

text \<open>The quorum of signed approvals that an authorization with a quorum asks for.\<close>

definition check_quorum :: "('s, 'l, 'o) engine_context \<Rightarrow> sealed_manifest \<Rightarrow> approval_statement list
    \<Rightarrow> sealed_policy_bundle \<Rightarrow> principal \<Rightarrow> principal \<Rightarrow> principal \<Rightarrow> ('s, 'l, 'o, quorum_result) handler" where
  "check_quorum C sealed statements bundle proposer subject grant_issuer =
     bindE (clock_now C) (\<lambda>t.
     thenE (check_or_audit C
         (blocked_entry sealed grant_issuer ''approval_policy_bundle.verification_failed'' [(''bundle_id'', pb_bundle_id (spb_bundle bundle))])
         (verify_policy_bundle (ctx_crypto C) bundle (ctx_keyring C) t (Some POLICY_TYPE_APPROVAL)))
     (bindE (liftR (approval_policy_from_bundle_payload (pb_payload (spb_bundle bundle)))) (\<lambda>policy.
      bindE (clock_now C) (\<lambda>t'.
      bindE (liftR (evaluate_quorum (ctx_crypto C) statements policy (s_manifest_hash (sm_seal sealed))
          (ps_bundle_hash (spb_seal bundle)) (ctx_keyring C) proposer subject t')) (\<lambda>quorum.
      bindE (fresh (ctx_reason C)) (\<lambda>reason.
      thenE (audit C (entry_of ''approval.quorum_evaluated'' (if q_satisfied quorum then ''satisfied'' else ''not_satisfied'')
          (Some (m_manifest_id (sm_manifest sealed))) (Some (s_manifest_hash (sm_seal sealed))) None
          (Some (principal_id grant_issuer))
          [(''approving_count'', nat_str (q_approving_count quorum)),
           (''approving_principal_ids'', join '','' (q_approving_principal_ids quorum)),
           (''approval_set_hash'', q_approval_set_hash quorum), (''reason'', take 200 reason)]))
      (thenE (liftR (raise_if (\<not> q_satisfied quorum) (ApprovalE QuorumNotMetError)))
        (ret quorum))))))))"

definition authorize_with_quorum :: "('s, 'l, 'o) engine_context \<Rightarrow> sealed_manifest \<Rightarrow> approval_statement list
    \<Rightarrow> sealed_policy_bundle \<Rightarrow> principal \<Rightarrow> authorize_args \<Rightarrow> ('s, 'l, 'o, execution_grant) handler" where
  "authorize_with_quorum C sealed statements approval_bundle proposer a =
     (let mh = s_manifest_hash (sm_seal sealed) in
      thenE (liftR (verify_seal (ctx_crypto C) sealed (ctx_keyring C)))
      (thenE (assert_authority_budget_registered (aa_authority_budget_id a))
      (bindE (check_quorum C sealed statements approval_bundle proposer (aa_subject a) (aa_issuer a)) (\<lambda>quorum.
      bindE (liftR (combined_roles mh (principal_id proposer) (principal_id (aa_subject a))
          (q_approving_principal_ids quorum) (aa_role_assignment a))) (\<lambda>roles.
      thenE (enforce_separation_of_duty C sealed (aa_issuer a) (aa_separation_policy_bundle a) roles)
      (bindE (check_policy_bundle C sealed (aa_issuer a) (aa_policy_bundle a)) (\<lambda>pbh.
       issue_and_transition C sealed a
         (no_bindings\<lparr>gb_policy_bundle_hash := pbh, gb_approval_set_hash := Some (q_approval_set_hash quorum)\<rparr>)
         ((''approval_set_hash'', q_approval_set_hash quorum)
          # meta_opt ''policy_bundle_hash'' pbh @ role_participation_metadata roles))))))))"

section \<open>Delegation\<close>

text \<open>The overrides of \<^verbatim>\<open>delegate\<close>; what is not given is inherited from the parent.\<close>

record delegate_args =
  da_issuer :: principal
  da_subject :: principal
  da_signing_key :: signing_key
  da_grant_id :: string
  da_nonce :: string
  da_audience :: "string list option"
  da_allowed_effect_types :: "string list option"
  da_scope :: "scope_constraints option"
  da_not_before :: "time option"
  da_expires_at :: "time option"
  da_max_uses :: "int option"
  da_manifest_hash :: "string option"
  da_authority_budget_id :: "string option"

definition inherit :: "'a option \<Rightarrow> 'a \<Rightarrow> 'a" where
  "inherit x y = (case x of None \<Rightarrow> y | Some v \<Rightarrow> v)"

definition child_args :: "delegate_args \<Rightarrow> execution_grant \<Rightarrow> string \<Rightarrow> string \<Rightarrow> execution_grant" where
  "child_args a parent uuid_id uuid_nonce =
     \<lparr>g_schema_version = [], g_grant_id = or_else (da_grant_id a) uuid_id, g_manifest_hash = da_manifest_hash a,
      g_policy_bundle_hash = None, g_approval_set_hash = None, g_decision_envelope_hash = None, g_causal_graph_hash = None,
      g_authority_budget_id = (case da_authority_budget_id a of None \<Rightarrow> g_authority_budget_id parent | Some b \<Rightarrow> Some b),
      g_issuer = da_issuer a, g_subject = da_subject a,
      g_audience = inherit (da_audience a) (g_audience parent),
      g_allowed_effect_types = inherit (da_allowed_effect_types a) (g_allowed_effect_types parent),
      g_scope = inherit (da_scope a) (g_scope parent), g_issued_at = 0,
      g_not_before = inherit (da_not_before a) (g_not_before parent),
      g_expires_at = inherit (da_expires_at a) (g_expires_at parent),
      g_max_uses = inherit (da_max_uses a) (g_max_uses parent),
      g_nonce = or_else (da_nonce a) uuid_nonce, g_parent_grant_id = Some (g_grant_id parent),
      g_key_id = [], g_algorithm = [], g_signature = None\<rparr>"

definition delegate :: "('s, 'l, 'o) engine_context \<Rightarrow> execution_grant \<Rightarrow> delegate_args
    \<Rightarrow> ('s, 'l, 'o, execution_grant) handler" where
  "delegate C parent a =
     bindE (uuid4 C) (\<lambda>uuid_id. bindE (uuid4 C) (\<lambda>uuid_nonce. bindE (clock_now C) (\<lambda>t.
     bindE (liftR (issue_grant (ctx_crypto C) t (da_signing_key a) (child_args a parent uuid_id uuid_nonce))) (\<lambda>child.
     thenE (check_or_audit C
         (entry_of ''grant.delegation_denied'' ''blocked_widening'' None None (Some (g_grant_id child))
           (Some (principal_id (da_issuer a))) [(''parent_grant_id'', g_grant_id parent)])
         (assert_grant_narrower_or_equal child parent))
     (thenE (audit C (entry_of ''grant.delegated'' ''allowed'' None None (Some (g_grant_id child))
         (Some (principal_id (da_issuer a)))
         [(''parent_grant_id'', g_grant_id parent), (''subject'', principal_id (da_subject a))]))
     (thenE (record_grant_lineage C child) (ret child)))))))"

end
