(* ===== verification/EngineCommit.thy ===== *)
theory EngineCommit
  imports EngineAuthorize
begin

text \<open>
  The commit of an authorized effect and what follows it (\<^verbatim>\<open>engine/core.py\<close>): \<^verbatim>\<open>commit\<close>, recovery after
  an ambiguous outcome, \<^verbatim>\<open>verify\<close> and \<^verbatim>\<open>revoke\<close>.

  \<^verbatim>\<open>commit\<close> is the composition of its phases in the order of the source: the checks of the seal and
  the grant, of the policy bundle, the envelope, the plan, the adapter and the revocations; the
  reservations of budget and grant; the transition to \<^verbatim>\<open>committing\<close>; the outbox; then either the replay
  of a known outcome or the preconditions, the adapter's commit and its finalization.
\<close>

section \<open>Denials\<close>

definition commit_entry :: "sealed_manifest \<Rightarrow> execution_grant \<Rightarrow> string \<Rightarrow> string \<Rightarrow> audit_entry" where
  "commit_entry sealed grant et decision =
     entry_of et decision (Some (m_manifest_id (sm_manifest sealed))) (Some (s_manifest_hash (sm_seal sealed)))
       (Some (g_grant_id grant)) (Some (principal_id (m_actor (sm_manifest sealed)))) []"

definition deny :: "('s, 'l, 'o) engine_context \<Rightarrow> sealed_manifest \<Rightarrow> execution_grant \<Rightarrow> string \<Rightarrow> string \<Rightarrow> exn
    \<Rightarrow> ('s, 'l, 'o, unit) handler" where
  "deny C sealed grant et decision x = thenE (audit C (commit_entry sealed grant et decision)) (raiseE x)"

definition deny_if :: "('s, 'l, 'o) engine_context \<Rightarrow> sealed_manifest \<Rightarrow> execution_grant \<Rightarrow> bool \<Rightarrow> string \<Rightarrow> string \<Rightarrow> exn
    \<Rightarrow> ('s, 'l, 'o, unit) handler" where
  "deny_if C sealed grant c et decision x = whenE c (deny C sealed grant et decision x)"

text \<open>\<^verbatim>\<open>try: check except E as exc: deny(...)\<close>.\<close>

definition deny_on :: "(exn \<Rightarrow> bool) \<Rightarrow> ('s, 'l, 'o) engine_context \<Rightarrow> sealed_manifest \<Rightarrow> execution_grant
    \<Rightarrow> (exn \<Rightarrow> string) \<Rightarrow> (exn \<Rightarrow> string) \<Rightarrow> 'a res \<Rightarrow> ('s, 'l, 'o, 'a) handler" where
  "deny_on p C sealed grant et decision r =
     on_error p (\<lambda>x. audit C (commit_entry sealed grant (et x) (decision x))) (liftR r)"

abbreviation blocked_name :: "exn \<Rightarrow> string" where
  "blocked_name x \<equiv> ''blocked_'' @ exn_name x"

section \<open>The checks of commit\<close>

definition leeway :: "('s, 'l, 'o) engine_context \<Rightarrow> time" where
  "leeway C = ctx_leeway_seconds C * second"

definition commit_check_grant :: "('s, 'l, 'o) engine_context \<Rightarrow> sealed_manifest \<Rightarrow> execution_grant \<Rightarrow> ('s, 'l, 'o, unit) handler" where
  "commit_check_grant C sealed grant =
     thenE (deny_on is_ks C sealed grant (\<lambda>_. ''manifest.seal_verification_failed'') blocked_name
         (verify_seal (ctx_crypto C) sealed (ctx_keyring C)))
     (bindE (clock_now C) (\<lambda>t.
      thenE (deny_on is_ks C sealed grant (\<lambda>_. ''grant.verification_failed'') blocked_name
          (verify_grant (ctx_crypto C) grant (ctx_keyring C) t (leeway C)))
      (deny_if C sealed grant (g_manifest_hash grant \<noteq> Some (s_manifest_hash (sm_seal sealed)))
         ''grant.manifest_mismatch'' ''blocked_manifest_mismatch'' (GrantE GrantManifestMismatchError))))"

definition is_tenant_isolation :: "exn \<Rightarrow> bool" where
  "is_tenant_isolation x \<longleftrightarrow> x = TenantE TenantIsolationError"

definition commit_check_policy :: "('s, 'l, 'o) engine_context \<Rightarrow> sealed_manifest \<Rightarrow> execution_grant
    \<Rightarrow> sealed_policy_bundle option \<Rightarrow> ('s, 'l, 'o, unit) handler" where
  "commit_check_policy C sealed grant pb = (case g_policy_bundle_hash grant of
      Some h \<Rightarrow> (case pb of
          None \<Rightarrow> deny C sealed grant ''policy_bundle.missing_at_commit'' ''blocked_policy_bundle_missing''
            (PolicyBundleE PolicyBundleMismatchError)
        | Some b \<Rightarrow> bindE (clock_now C) (\<lambda>t.
            thenE (deny_on is_ks C sealed grant (\<lambda>_. ''policy_bundle.verification_failed'') blocked_name
                (verify_policy_bundle (ctx_crypto C) b (ctx_keyring C) t None))
            (thenE (deny_if C sealed grant (ps_bundle_hash (spb_seal b) \<noteq> h)
                ''policy_bundle.mismatch'' ''blocked_policy_bundle_mismatch'' (PolicyBundleE PolicyBundleMismatchError))
              (deny_on is_tenant_isolation C sealed grant (\<lambda>_. ''tenant.policy_isolation'')
                (\<lambda>_. ''blocked_tenant_isolation'') (enforce_policy_tenant C (Some b))))))
    | None \<Rightarrow>
        whenE (ctx_tenant_id C \<noteq> None \<and> pb \<noteq> None)
          (deny_on is_tenant_isolation C sealed grant (\<lambda>_. ''tenant.policy_isolation'')
             (\<lambda>_. ''blocked_tenant_isolation'') (enforce_policy_tenant C pb)))"

definition commit_check_envelope :: "('s, 'l, 'o) engine_context \<Rightarrow> sealed_manifest \<Rightarrow> execution_grant
    \<Rightarrow> decision_envelope option \<Rightarrow> ('s, 'l, 'o, unit) handler" where
  "commit_check_envelope C sealed grant envelope = (case g_decision_envelope_hash grant of
      None \<Rightarrow> ret ()
    | Some h \<Rightarrow> (case envelope of
          None \<Rightarrow> deny C sealed grant ''decision_envelope.missing_at_commit'' ''blocked_decision_envelope_missing''
            (DecisionEnvelopeE DecisionEnvelopeMismatchError)
        | Some e \<Rightarrow> bindE (clock_now C) (\<lambda>t.
            thenE (deny_on is_ks C sealed grant (\<lambda>_. ''decision_envelope.verification_failed'') blocked_name
                (verify_decision_envelope (ctx_crypto C) e (ctx_keyring C) t))
            (thenE (deny_if C sealed grant (envelope_hash (ctx_crypto C) e \<noteq> h)
                ''decision_envelope.mismatch'' ''blocked_decision_envelope_mismatch''
                (DecisionEnvelopeE DecisionEnvelopeMismatchError))
              (deny_on is_ks C sealed grant (\<lambda>_. ''decision_envelope.constraint_failed'') blocked_name
                (assert_manifest_fits_envelope (sm_manifest sealed) e))))))"

definition commit_check_plan :: "('s, 'l, 'o) engine_context \<Rightarrow> sealed_manifest \<Rightarrow> execution_grant
    \<Rightarrow> causal_graph option \<Rightarrow> ('s, 'l, 'o, unit) handler" where
  "commit_check_plan C sealed grant graph = (case g_causal_graph_hash grant of
      None \<Rightarrow> ret ()
    | Some h \<Rightarrow> (case graph of
          None \<Rightarrow> deny C sealed grant ''atomic_plan.missing_at_commit'' ''blocked_causal_graph_missing'' AtomicPlanError
        | Some g \<Rightarrow> deny_on is_ks C sealed grant (\<lambda>_. ''atomic_plan.verification_failed'') blocked_name
            (thenR (require_matching_plan_hash (ctx_crypto C) g h)
              (assert_manifest_in_plan (ctx_crypto C) (s_manifest_hash (sm_seal sealed)) g (Some (ctx_keyring C))))))"

definition is_untrusted :: "exn \<Rightarrow> bool" where
  "is_untrusted x \<longleftrightarrow> x = AdapterE UntrustedAdapterError"

definition commit_check_adapter :: "('s, 'l, 'o) engine_context \<Rightarrow> sealed_manifest \<Rightarrow> execution_grant \<Rightarrow> effect_adapter
    \<Rightarrow> ('s, 'l, 'o, unit) handler" where
  "commit_check_adapter C sealed grant adapter =
     (let m = sm_manifest sealed in seqE
       [deny_if C sealed grant (adapter_id (ad_identity adapter) \<notin> set (g_audience grant))
          ''grant.audience_mismatch'' ''blocked_adapter_not_in_audience'' (GrantE GrantAudienceError),
        deny_if C sealed grant (m_adapter m \<noteq> ad_identity adapter)
          ''adapter.identity_mismatch'' ''blocked_adapter_identity_mismatch'' (AdapterE AdapterMismatchError),
        deny_on is_untrusted C sealed grant (\<lambda>_. ''adapter.untrusted'') (\<lambda>_. ''blocked_untrusted_adapter'')
          (require_trusted_adapter C adapter (Some (m_effect_type m))),
        deny_if C sealed grant (m_effect_type m \<notin> set (g_allowed_effect_types grant))
          ''grant.effect_type_mismatch'' ''blocked_effect_type_not_permitted'' (GrantE GrantAudienceError)])"

definition is_ancestor_denial :: "exn \<Rightarrow> bool" where
  "is_ancestor_denial x \<longleftrightarrow> x = GrantE GrantRevokedError \<or> x = DelegationE DelegationLineageError"

definition commit_check_revocation :: "('s, 'l, 'o) engine_context \<Rightarrow> sealed_manifest \<Rightarrow> execution_grant
    \<Rightarrow> ('s, 'l, 'o, unit) handler" where
  "commit_check_revocation C sealed grant =
     bindE (getS (\<lambda>s. gs_is_revoked (ctx_grant_ops C) (e_store s) (g_grant_id grant))) (\<lambda>revoked.
     thenE (deny_if C sealed grant revoked ''grant.revoked'' ''blocked_revoked'' (GrantE GrantRevokedError))
     (bindE (getS (\<lambda>s. assert_no_revoked_ancestors (ctx_grant_ops C) (e_store s) MAX_DELEGATION_DEPTH grant)) (\<lambda>walk.
      bindE (deny_on is_ancestor_denial C sealed grant
          (\<lambda>x. if x = GrantE GrantRevokedError then ''grant.ancestor_revoked'' else ''grant.lineage_uncertain'')
          (\<lambda>x. if x = GrantE GrantRevokedError then ''blocked_ancestor_revoked'' else ''blocked_lineage_uncertain'') walk) (\<lambda>ancestors.
      whenE (ancestors \<noteq> [])
        (audit C ((commit_entry sealed grant ''grant.ancestor_revocation_checked'' ''ancestors_clear'')
           \<lparr>en_metadata := [(''ancestor_count'', nat_str (length ancestors))]\<rparr>))))))"

definition commit_checks :: "('s, 'l, 'o) engine_context \<Rightarrow> sealed_manifest \<Rightarrow> execution_grant \<Rightarrow> effect_adapter
    \<Rightarrow> sealed_policy_bundle option \<Rightarrow> decision_envelope option \<Rightarrow> causal_graph option \<Rightarrow> ('s, 'l, 'o, unit) handler" where
  "commit_checks C sealed grant adapter pb envelope graph = seqE
     [commit_check_grant C sealed grant, commit_check_policy C sealed grant pb,
      commit_check_envelope C sealed grant envelope, commit_check_plan C sealed grant graph,
      commit_check_adapter C sealed grant adapter, commit_check_revocation C sealed grant]"

section \<open>Reservations\<close>

definition is_budget_error :: "exn \<Rightarrow> bool" where
  "is_budget_error x \<longleftrightarrow> (case x of AuthorityBudgetE _ \<Rightarrow> True | _ \<Rightarrow> False)"

definition commit_reserve_budget :: "('s, 'l, 'o) engine_context \<Rightarrow> sealed_manifest \<Rightarrow> execution_grant
    \<Rightarrow> ('s, 'l, 'o, int option) handler" where
  "commit_reserve_budget C sealed grant = (case g_authority_budget_id grant of
      None \<Rightarrow> ret None
    | Some b \<Rightarrow> bindE (getS e_budget) (\<lambda>ledger.
        bindE (deny_on is_budget_error C sealed grant (\<lambda>_. ''authority_budget.resolve_failed'') blocked_name
            (bindR (require_budget ledger b) (\<lambda>budget. resolve_budget_consume_amount budget (sm_manifest sealed)))) (\<lambda>amount.
        bindE (on_budget (bl_reserve b amount)) (\<lambda>ok.
        thenE (deny_if C sealed grant (\<not> ok) ''authority_budget.exhausted'' ''blocked_authority_budget_exhausted''
            (AuthorityBudgetE AuthorityBudgetExhaustedError))
          (ret (Some amount))))))"

definition release_budget :: "execution_grant \<Rightarrow> int option \<Rightarrow> ('s, 'l, 'o, unit) handler" where
  "release_budget grant amount = (case (g_authority_budget_id grant, amount) of
      (Some b, Some n) \<Rightarrow> bindE (getS e_budget) (\<lambda>ledger. if ledger = None then ret () else on_budget (bl_release b n))
    | _ \<Rightarrow> ret ())"

definition commit_reserve_grant :: "('s, 'l, 'o) engine_context \<Rightarrow> sealed_manifest \<Rightarrow> execution_grant \<Rightarrow> int option
    \<Rightarrow> ('s, 'l, 'o, unit) handler" where
  "commit_reserve_grant C sealed grant amount =
     bindE (store_reserve C (g_grant_id grant) (g_max_uses grant)) (\<lambda>ok.
       whenE (\<not> ok) (thenE (release_budget grant amount)
         (deny C sealed grant ''grant.reservation_failed'' ''blocked_exhausted_or_inflight'' (GrantE GrantExhaustedError))))"

text \<open>Both reservations given back.\<close>

definition release_all :: "('s, 'l, 'o) engine_context \<Rightarrow> execution_grant \<Rightarrow> int option \<Rightarrow> ('s, 'l, 'o, unit) handler" where
  "release_all C grant amount = thenE (store_release C (g_grant_id grant)) (release_budget grant amount)"

definition budget_metadata :: "execution_grant \<Rightarrow> int option \<Rightarrow> (string \<times> string) list" where
  "budget_metadata grant amount = (case (g_authority_budget_id grant, amount) of
      (Some b, Some n) \<Rightarrow> [(''authority_budget_id'', b), (''authority_budget_amount'', int_str n)]
    | _ \<Rightarrow> [])"

definition commit_targs :: "sealed_manifest \<Rightarrow> execution_grant \<Rightarrow> string \<Rightarrow> (string \<times> string) list \<Rightarrow> transition_args" where
  "commit_targs sealed grant et meta =
     targs et (Some (g_grant_id grant)) (Some (s_manifest_hash (sm_seal sealed)))
       (Some (principal_id (m_actor (sm_manifest sealed)))) meta"

definition commit_enter :: "('s, 'l, 'o) engine_context \<Rightarrow> sealed_manifest \<Rightarrow> execution_grant \<Rightarrow> int option
    \<Rightarrow> ('s, 'l, 'o, unit) handler" where
  "commit_enter C sealed grant amount =
     on_error (\<lambda>_. True) (\<lambda>_. release_all C grant amount)
       (transition C (m_manifest_id (sm_manifest sealed)) COMMITTING
          (commit_targs sealed grant ''effect.committing'' (budget_metadata grant amount)))"

section \<open>The outbox\<close>

definition is_outbox_failure :: "exn \<Rightarrow> bool" where
  "is_outbox_failure x \<longleftrightarrow> x = OutboxConflictError \<or> x = store_unavailable"

definition commit_record_outbox :: "('s, 'l, 'o) engine_context \<Rightarrow> sealed_manifest \<Rightarrow> execution_grant \<Rightarrow> int option
    \<Rightarrow> ('s, 'l, 'o, bool) handler" where
  "commit_record_outbox C sealed grant amount = bindE (getS e_outbox) (\<lambda>ob.
     if ob = None then ret False
     else bindE (clock_now C) (\<lambda>t.
       thenE (on_error is_outbox_failure
           (\<lambda>x. thenE (release_all C grant amount)
                 (audit C (commit_entry sealed grant ''outbox.record_failed'' (blocked_name x))))
           (outbox_call C (RecordPending
              \<lparr>ob_schema_version = CURRENT_SCHEMA_VERSION, ob_idempotency_key = m_idempotency_key (sm_manifest sealed),
               ob_grant_id = g_grant_id grant, ob_manifest_id = m_manifest_id (sm_manifest sealed),
               ob_manifest_hash = s_manifest_hash (sm_seal sealed), ob_status = Pending, ob_created_at = t,
               ob_outcome_ref = None\<rparr>)))
         (ret True)))"

definition abandon_outbox :: "('s, 'l, 'o) engine_context \<Rightarrow> effect_manifest \<Rightarrow> bool \<Rightarrow> ('s, 'l, 'o, unit) handler" where
  "abandon_outbox C m pending = bindE (getS e_outbox) (\<lambda>ob.
     whenE (pending \<and> ob \<noteq> None) (outbox_call C (MarkAbandoned (m_idempotency_key m))))"

definition is_pending :: "outbox_entry option \<Rightarrow> bool" where
  "is_pending e \<longleftrightarrow> (case e of None \<Rightarrow> False | Some x \<Rightarrow> ob_status x = Pending)"

definition confirm_outbox :: "('s, 'l, 'o) engine_context \<Rightarrow> effect_manifest \<Rightarrow> bool \<Rightarrow> string \<Rightarrow> ('s, 'l, 'o, unit) handler" where
  "confirm_outbox C m pending outcome_ref = bindE (getS e_outbox) (\<lambda>ob.
     if ob = None then ret ()
     else bindE (outbox_get C (m_idempotency_key m)) (\<lambda>existing.
       whenE (is_pending existing \<or> pending) (outbox_call C (MarkConfirmed (m_idempotency_key m) outcome_ref))))"

section \<open>Execution\<close>

definition commit_replay :: "('s, 'l, 'o) engine_context \<Rightarrow> sealed_manifest \<Rightarrow> execution_grant \<Rightarrow> int option \<Rightarrow> bool
    \<Rightarrow> string \<Rightarrow> ('s, 'l, 'o, commit_result) handler" where
  "commit_replay C sealed grant amount pending outcome =
     (let m = sm_manifest sealed in
      thenE (release_budget grant amount)
      (thenE (confirm_outbox C m pending outcome)
      (thenE (store_commit C (g_grant_id grant) (m_idempotency_key m) outcome)
      (thenE (transition C (m_manifest_id m) COMMITTED
          (commit_targs sealed grant ''effect.committed_idempotent_replay'' [(''outcome_ref'', outcome)]))
        (ret \<lparr>cm_success = True, cm_idempotency_key = m_idempotency_key m, cm_provider_reference = Some outcome,
              cm_detail = Some ''idempotent replay: effect was already committed for this idempotency key'',
              cm_after_state_digest = None\<rparr>)))))"

text \<open>A commit that did not take place: reservations and outbox are given back, the manifest fails.\<close>

definition commit_fail :: "('s, 'l, 'o) engine_context \<Rightarrow> sealed_manifest \<Rightarrow> execution_grant \<Rightarrow> int option \<Rightarrow> bool
    \<Rightarrow> string \<Rightarrow> (string \<times> string) list \<Rightarrow> ('s, 'l, 'o, unit) handler" where
  "commit_fail C sealed grant amount abandon et meta =
     thenE (release_all C grant amount)
     (thenE (abandon_outbox C (sm_manifest sealed) abandon)
       (transition C (m_manifest_id (sm_manifest sealed)) FAILED (commit_targs sealed grant et meta)))"

definition commit_preconditions :: "('s, 'l, 'o) engine_context \<Rightarrow> sealed_manifest \<Rightarrow> execution_grant \<Rightarrow> effect_adapter
    \<Rightarrow> int option \<Rightarrow> bool \<Rightarrow> ('s, 'l, 'o, unit) handler" where
  "commit_preconditions C sealed grant adapter amount pending =
     bindE (on_error (\<lambda>_. True)
         (\<lambda>x. commit_fail C sealed grant amount pending ''effect.precondition_check_error'' [(''error'', take 200 (ctx_text C x))])
         (liftR (ad_validate_preconditions adapter (sm_manifest sealed)))) (\<lambda>result.
     whenE (\<not> pr_satisfied result)
       (thenE (commit_fail C sealed grant amount pending ''effect.stale_manifest'' [(''reason'', clip (pr_reason result))])
         (raiseE (PreconditionE StaleManifestError))))"

definition adapter_commit :: "effect_adapter \<Rightarrow> effect_manifest \<Rightarrow> execution_grant \<Rightarrow> ('s, 'l, 'o, commit_result) handler" where
  "adapter_commit adapter m grant = (\<lambda>s.
     let r = ad_commit adapter m grant
     in (r, s\<lparr>e_effects := e_effects s @ [Committed_effect (m_manifest_id m) (g_grant_id grant) (m_idempotency_key m)
          (case r of Inl _ \<Rightarrow> False | Inr c \<Rightarrow> cm_success c)]\<rparr>))"

definition commit_finalize :: "('s, 'l, 'o) engine_context \<Rightarrow> sealed_manifest \<Rightarrow> execution_grant \<Rightarrow> int option \<Rightarrow> bool
    \<Rightarrow> commit_result \<Rightarrow> ('s, 'l, 'o, commit_result) handler" where
  "commit_finalize C sealed grant amount pending result =
     (let m = sm_manifest sealed; outcome_ref = (case cm_provider_reference result of None \<Rightarrow> ''committed'' | Some r \<Rightarrow> or_else r ''committed'') in
      thenE (case (g_authority_budget_id grant, amount) of (Some b, Some n) \<Rightarrow> on_budget (bl_commit b n) | _ \<Rightarrow> ret ())
      (thenE (confirm_outbox C m pending outcome_ref)
      (thenE (store_commit C (g_grant_id grant) (m_idempotency_key m) outcome_ref)
      (thenE (transition C (m_manifest_id m) COMMITTED (commit_targs sealed grant ''effect.committed''
          ((''provider_reference'', take 200 outcome_ref) # budget_metadata grant amount)))
        (ret result)))))"

definition commit_execute :: "('s, 'l, 'o) engine_context \<Rightarrow> sealed_manifest \<Rightarrow> execution_grant \<Rightarrow> effect_adapter
    \<Rightarrow> int option \<Rightarrow> bool \<Rightarrow> ('s, 'l, 'o, commit_result) handler" where
  "commit_execute C sealed grant adapter amount pending =
     bindE (on_error (\<lambda>_. True)
         (\<lambda>x. commit_fail C sealed grant amount False ''effect.commit_error''
            [(''error'', take 200 (ctx_text C x)), (''outbox'', ''pending_ambiguous'')])
         (adapter_commit adapter (sm_manifest sealed) grant)) (\<lambda>result.
     if \<not> cm_success result
     then thenE (commit_fail C sealed grant amount pending ''effect.commit_failed'' [(''detail'', clip (cm_detail result))]) (ret result)
     else commit_finalize C sealed grant amount pending result)"

text \<open>What follows a successful transition to \<^verbatim>\<open>committing\<close>.\<close>

definition commit_committing :: "('s, 'l, 'o) engine_context \<Rightarrow> sealed_manifest \<Rightarrow> execution_grant \<Rightarrow> effect_adapter
    \<Rightarrow> int option \<Rightarrow> ('s, 'l, 'o, commit_result) handler" where
  "commit_committing C sealed grant adapter amount =
     bindE (commit_record_outbox C sealed grant amount) (\<lambda>pending.
     bindE (getS (\<lambda>s. gs_get_idempotent_outcome (ctx_grant_ops C) (e_store s) (m_idempotency_key (sm_manifest sealed)))) (\<lambda>existing.
     case existing of
       Some outcome \<Rightarrow> commit_replay C sealed grant amount pending outcome
     | None \<Rightarrow> thenE (commit_preconditions C sealed grant adapter amount pending)
                 (commit_execute C sealed grant adapter amount pending)))"

definition commit :: "('s, 'l, 'o) engine_context \<Rightarrow> sealed_manifest \<Rightarrow> execution_grant \<Rightarrow> effect_adapter
    \<Rightarrow> sealed_policy_bundle option \<Rightarrow> decision_envelope option \<Rightarrow> causal_graph option
    \<Rightarrow> ('s, 'l, 'o, commit_result) handler" where
  "commit C sealed grant adapter pb envelope graph =
     thenE (commit_checks C sealed grant adapter pb envelope graph)
     (bindE (commit_reserve_budget C sealed grant) (\<lambda>amount.
      thenE (commit_reserve_grant C sealed grant amount)
      (thenE (commit_enter C sealed grant amount)
        (commit_committing C sealed grant adapter amount))))"

section \<open>Recovery, verification, revocation\<close>

definition recovery_probe :: "effect_manifest \<Rightarrow> commit_result" where
  "recovery_probe m = \<lparr>cm_success = True, cm_idempotency_key = m_idempotency_key m, cm_provider_reference = None,
     cm_detail = Some ''ambiguous-outcome recovery probe'', cm_after_state_digest = None\<rparr>"

definition recover_backfill :: "('s, 'l, 'o) engine_context \<Rightarrow> effect_manifest \<Rightarrow> string \<Rightarrow> ('s, 'l, 'o, unit) handler" where
  "recover_backfill C m outcome_ref =
     thenE (store_record_outcome C (m_idempotency_key m) outcome_ref)
     (thenE (bindE (getS e_outbox) (\<lambda>ob.
        if ob = None then ret ()
        else bindE (outbox_get C (m_idempotency_key m)) (\<lambda>e.
          whenE (is_pending e) (outbox_call C (MarkConfirmed (m_idempotency_key m) outcome_ref)))))
     (bindE (get_record C (m_manifest_id m)) (\<lambda>r.
        whenE (is_legal_transition (lr_state r) RECOVERED_COMMITTED)
          (transition C (m_manifest_id m) RECOVERED_COMMITTED
             (targs ''effect.ambiguous_recovery_confirmed'' None (Some (manifest_hash (ctx_crypto C) m))
               (Some (principal_id (m_actor m))) [(''outcome_ref'', take 200 outcome_ref)])))))"

definition recover_ambiguous_commit :: "('s, 'l, 'o) engine_context \<Rightarrow> effect_manifest \<Rightarrow> effect_adapter
    \<Rightarrow> ('s, 'l, 'o, outcome_proof) handler" where
  "recover_ambiguous_commit C m adapter =
     bindE (liftR (ad_verify adapter m (recovery_probe m))) (\<lambda>proof.
     thenE (audit C (entry_of ''effect.ambiguous_recovery_probe''
         (if op_matched_expected proof then ''evidence_found'' else ''no_evidence_found'')
         (Some (m_manifest_id m)) (Some (manifest_hash (ctx_crypto C) m)) None (Some (principal_id (m_actor m)))
         [(''detail'', clip (op_detail proof))]))
     (thenE (whenE (op_matched_expected proof) (recover_backfill C m
         (case op_observed_after_state_digest proof of None \<Rightarrow> ''recovered-externally'' | Some d \<Rightarrow> or_else d ''recovered-externally'')))
       (ret proof)))"

definition list_pending_outbox :: "('s, 'l, 'o) engine_context \<Rightarrow> ('s, 'l, 'o, outbox_entry list) handler" where
  "list_pending_outbox C = bindE (getS e_outbox) (\<lambda>ob. case ob of
      None \<Rightarrow> ret [] | Some x \<Rightarrow> liftR (ctx_outbox_pending C x))"

definition verify :: "('s, 'l, 'o) engine_context \<Rightarrow> effect_manifest \<Rightarrow> commit_result \<Rightarrow> effect_adapter
    \<Rightarrow> ('s, 'l, 'o, outcome_proof) handler" where
  "verify C m result adapter =
     thenE (liftR (require_trusted_adapter C adapter (Some (m_effect_type m))))
     (bindE (liftR (ad_verify adapter m result)) (\<lambda>proof.
      thenE (transition C (m_manifest_id m) VERIFIED
          (targs ''effect.verified'' None (Some (manifest_hash (ctx_crypto C) m)) (Some (principal_id (m_actor m)))
            [(''matched_expected'', bool_str (op_matched_expected proof))]))
        (ret proof)))"

definition revoke :: "('s, 'l, 'o) engine_context \<Rightarrow> execution_grant \<Rightarrow> string \<Rightarrow> principal \<Rightarrow> ('s, 'l, 'o, bool) handler" where
  "revoke C grant mid revoked_by =
     thenE (store_revoke C (g_grant_id grant))
     (bindE (get_record C mid) (\<lambda>r.
      if is_revocable (lr_state r)
      then thenE (transition C mid REVOKED
             (targs ''grant.revoked'' (Some (g_grant_id grant)) None (Some (principal_id revoked_by)) []))
           (ret True)
      else thenE (audit C ((entry_of ''grant.revoke_requested_past_safepoint'' ''grant_marked_revoked_effect_unaffected''
               (Some mid) None (Some (g_grant_id grant)) (Some (principal_id revoked_by)) [])
             \<lparr>en_from_state := Some (state_value (lr_state r)), en_to_state := Some (state_value (lr_state r))\<rparr>))
           (ret False)))"

end
