(* ===== verification/Witness.thy ===== *)
theory Witness
  imports Approval Adapters AuditJournal Causal
begin

text \<open>
  Independent evidence after a commit: signed statements of witnesses and the quorum over them
  (\<^verbatim>\<open>witness/\<close>, \<^verbatim>\<open>engine/witness_quorum.py\<close>), and attributed evidence records with the evaluation of
  their quality (\<^verbatim>\<open>evidence/\<close>).

  The reason for a rejection is a value; how it reads as text is the argument \<open>render\<close>, and the
  results carry the sorted texts as in the source.
\<close>

section \<open>Witness statements\<close>

record witness_statement =
  ws_schema_version :: string
  ws_statement_id :: string
  ws_manifest_hash :: string
  ws_witness_policy_hash :: string
  ws_observed_after_state_digest :: string
  ws_matched_expected :: bool
  ws_witness :: principal
  ws_signed_at :: time
  ws_expires_at :: time
  ws_nonce :: string
  ws_key_id :: string
  ws_algorithm :: string
  ws_signature :: "string option"

definition witness_statement_validate :: "witness_statement \<Rightarrow> unit res" where
  "witness_statement_validate s = allR
     [assert_supported_schema_version (ws_schema_version s),
      id_length_check (ws_statement_id s),
      raise_if (\<not> digest_shape (ws_manifest_hash s)) ValueError,
      raise_if (\<not> digest_shape (ws_witness_policy_hash s)) ValueError,
      nonempty_256 (ws_observed_after_state_digest s),
      id_length_check (ws_nonce s),
      id_length_check (ws_key_id s),
      raise_if (ws_algorithm s \<noteq> ''ed25519'') ValueError,
      raise_if (ws_expires_at s \<le> ws_signed_at s) ValueError]"

definition witness_payload :: "crypto \<Rightarrow> witness_statement \<Rightarrow> json" where
  "witness_payload cr s = JObj
     [(''schema_version'', JStr (ws_schema_version s)),
      (''statement_id'', JStr (ws_statement_id s)),
      (''manifest_hash'', JStr (ws_manifest_hash s)),
      (''witness_policy_hash'', JStr (ws_witness_policy_hash s)),
      (''observed_after_state_digest'', JStr (ws_observed_after_state_digest s)),
      (''matched_expected'', JBool (ws_matched_expected s)),
      (''witness'', principal_json (ws_witness s)),
      (''signed_at'', JStr (cr_iso cr (ws_signed_at s))),
      (''expires_at'', JStr (cr_iso cr (ws_expires_at s))),
      (''nonce'', JStr (ws_nonce s)),
      (''key_id'', JStr (ws_key_id s)),
      (''algorithm'', JStr (ws_algorithm s))]"

definition witness_statement_hash :: "crypto \<Rightarrow> witness_statement \<Rightarrow> string" where
  "witness_statement_hash cr s = canonical_hash (cr_sha256 cr) (witness_payload cr s)"

text \<open>The arguments are the fields of an unsigned statement, as for approvals.\<close>

definition sign_witness_statement :: "crypto \<Rightarrow> time \<Rightarrow> signing_key \<Rightarrow> witness_statement \<Rightarrow> witness_statement res" where
  "sign_witness_statement cr now key args =
     (if principal_type (ws_witness args) = AGENT then Inl (WitnessE WitnessIssuerNotAuthorizedError)
      else let u = args\<lparr>ws_schema_version := CURRENT_SCHEMA_VERSION, ws_signed_at := now,
                        ws_key_id := sk_key_id key, ws_algorithm := sk_algorithm key, ws_signature := None\<rparr>
           in thenR (witness_statement_validate u)
                (Inr (u\<lparr>ws_signature := Some (sk_sign cr key (witness_statement_hash cr u))\<rparr>)))"

definition verify_witness_statement_signature :: "crypto \<Rightarrow> witness_statement \<Rightarrow> keyring \<Rightarrow> unit res" where
  "verify_witness_statement_signature cr s kr =
     thenR (assert_supported_schema_version (ws_schema_version s))
     (thenR (assert_supported_algorithm (ws_algorithm s))
      (case ws_signature s of
         None \<Rightarrow> Inl (CryptoE InvalidSignatureError)
       | Some sig \<Rightarrow> kr_verify cr kr (ws_key_id s) (witness_statement_hash cr s) sig))"

definition verify_witness_statement_time_window :: "witness_statement \<Rightarrow> time \<Rightarrow> unit res" where
  "verify_witness_statement_time_window s now = raise_if (now > ws_expires_at s) (WitnessE WitnessExpiredError)"

section \<open>The witness quorum\<close>

record witness_policy =
  wp_policy_id :: string
  wp_policy_version :: string
  wp_required_witnesses :: int
  wp_forbid_actor_as_witness :: bool
  wp_forbid_subject_as_witness :: bool
  wp_require_matched_expected :: bool
  wp_max_statements_considered :: int

definition witness_policy_validate :: "witness_policy \<Rightarrow> unit res" where
  "witness_policy_validate p = allR
     [id_length_check (wp_policy_id p),
      raise_if (CHR ''.'' \<notin> set (wp_policy_version p)) ValueError,
      raise_if (wp_required_witnesses p < 1 \<or> wp_required_witnesses p > 16) ValueError,
      raise_if (wp_max_statements_considered p < 1 \<or> wp_max_statements_considered p > 128) ValueError]"

definition DEFAULT_WITNESS_POLICY :: witness_policy where
  "DEFAULT_WITNESS_POLICY = \<lparr>wp_policy_id = ''default-witness'', wp_policy_version = ''1.0'', wp_required_witnesses = 1,
     wp_forbid_actor_as_witness = True, wp_forbid_subject_as_witness = True, wp_require_matched_expected = True,
     wp_max_statements_considered = 32\<rparr>"

definition witness_policy_dict :: "witness_policy \<Rightarrow> (string \<times> json) list" where
  "witness_policy_dict p =
     [(''policy_id'', JStr (wp_policy_id p)),
      (''policy_version'', JStr (wp_policy_version p)),
      (''required_witnesses'', JInt (wp_required_witnesses p)),
      (''forbid_actor_as_witness'', JBool (wp_forbid_actor_as_witness p)),
      (''forbid_subject_as_witness'', JBool (wp_forbid_subject_as_witness p)),
      (''require_matched_expected'', JBool (wp_require_matched_expected p)),
      (''max_statements_considered'', JInt (wp_max_statements_considered p))]"

definition witness_policy_hash :: "crypto \<Rightarrow> witness_policy \<Rightarrow> string" where
  "witness_policy_hash cr p = canonical_hash (cr_sha256 cr) (JObj (witness_policy_dict p))"

datatype witness_rejection =
    WManifestHashMismatch | WPolicyHashMismatch | WDigestMismatch | WNotMatched | WAgent | WActor | WSubject
  | WInvalid exn

definition witness_reject_reason :: "crypto \<Rightarrow> keyring \<Rightarrow> time \<Rightarrow> string \<Rightarrow> string \<Rightarrow> string \<Rightarrow> witness_policy
    \<Rightarrow> principal \<Rightarrow> principal \<Rightarrow> witness_statement \<Rightarrow> witness_rejection option res" where
  "witness_reject_reason cr kr now mh ph digest policy actor subject s =
     (if ws_manifest_hash s \<noteq> mh then Inr (Some WManifestHashMismatch)
      else if ws_witness_policy_hash s \<noteq> ph then Inr (Some WPolicyHashMismatch)
      else if ws_observed_after_state_digest s \<noteq> digest then Inr (Some WDigestMismatch)
      else if wp_require_matched_expected policy \<and> \<not> ws_matched_expected s then Inr (Some WNotMatched)
      else if principal_type (ws_witness s) = AGENT then Inr (Some WAgent)
      else if wp_forbid_actor_as_witness policy \<and> principal_id (ws_witness s) = principal_id actor then Inr (Some WActor)
      else if wp_forbid_subject_as_witness policy \<and> principal_id (ws_witness s) = principal_id subject then Inr (Some WSubject)
      else case thenR (verify_witness_statement_signature cr s kr) (verify_witness_statement_time_window s now) of
          Inl e \<Rightarrow> if is_ks e then Inr (Some (WInvalid e)) else Inl e
        | Inr _ \<Rightarrow> Inr None)"

record witness_quorum_result =
  wq_satisfied :: bool
  wq_witness_policy_hash :: string
  wq_witness_set_hash :: "string option"
  wq_accepted_witness_ids :: "string list"
  wq_rejection_reasons :: "string list"

text \<open>The loop that sorts out the statements to reject, for witness statements and evidence records.\<close>

fun sift :: "('a \<Rightarrow> 'r option res) \<Rightarrow> 'a list \<Rightarrow> (('a \<times> 'r) list \<times> 'a list) res" where
  "sift f [] = Inr ([], [])"
| "sift f (s # ss) = bindR (f s) (\<lambda>r. bindR (sift f ss) (\<lambda>(rejected, survivors).
     Inr (case r of Some why \<Rightarrow> ((s, why) # rejected, survivors) | None \<Rightarrow> (rejected, s # survivors))))"

definition witness_id :: "witness_statement \<Rightarrow> string" where
  "witness_id s = principal_id (ws_witness s)"

definition witness_winner :: "witness_statement list \<Rightarrow> string \<Rightarrow> witness_statement" where
  "witness_winner ss pid = (case filter (\<lambda>s. witness_id s = pid) ss of
      g # gs \<Rightarrow> max_first (\<lambda>s. (ws_signed_at s, ws_statement_id s)) g gs
    | [] \<Rightarrow> hd ss)"

definition rejection_text :: "('r \<Rightarrow> string) \<Rightarrow> string \<Rightarrow> 'r \<Rightarrow> string" where
  "rejection_text render i r = i @ '':'' @ render r"

definition evaluate_witness_quorum :: "(witness_rejection \<Rightarrow> string) \<Rightarrow> crypto \<Rightarrow> witness_statement list \<Rightarrow> witness_policy \<Rightarrow> string
    \<Rightarrow> string \<Rightarrow> principal \<Rightarrow> principal \<Rightarrow> keyring \<Rightarrow> time \<Rightarrow> witness_quorum_result res" where
  "evaluate_witness_quorum render cr statements policy mh digest actor subject kr now =
     (let ph = witness_policy_hash cr policy in
      if int (length statements) > wp_max_statements_considered policy then Inl (WitnessE WitnessBatchTooLargeError)
      else bindR (sift (witness_reject_reason cr kr now mh ph digest policy actor subject) statements) (\<lambda>(rejected, survivors).
        let authoritative = sort_key witness_id (map (witness_winner survivors) (first_occurrences (map witness_id survivors)));
            accepted_ids = map witness_id authoritative;
            satisfied = int (length authoritative) \<ge> wp_required_witnesses policy
        in Inr \<lparr>wq_satisfied = satisfied, wq_witness_policy_hash = ph,
                wq_witness_set_hash = (if satisfied then Some (canonical_hash (cr_sha256 cr) (JObj
                   [(''manifest_hash'', JStr mh), (''witness_policy_hash'', JStr ph), (''digest'', JStr digest),
                    (''witnesses'', JList (map JStr accepted_ids))])) else None),
                wq_accepted_witness_ids = accepted_ids,
                wq_rejection_reasons = sort (map (\<lambda>(s, r). rejection_text render (ws_statement_id s) r) rejected)\<rparr>))"

definition assert_witness_quorum :: "(witness_rejection \<Rightarrow> string) \<Rightarrow> crypto \<Rightarrow> witness_statement list \<Rightarrow> witness_policy \<Rightarrow> string
    \<Rightarrow> string \<Rightarrow> principal \<Rightarrow> principal \<Rightarrow> keyring \<Rightarrow> time \<Rightarrow> witness_quorum_result res" where
  "assert_witness_quorum render cr statements policy mh digest actor subject kr now =
     bindR (evaluate_witness_quorum render cr statements policy mh digest actor subject kr now) (\<lambda>result.
       if \<not> wq_satisfied result then Inl (WitnessE WitnessQuorumNotMetError) else Inr result)"

section \<open>Evidence\<close>

datatype evidence_kind = UNATTRIBUTED | PROVIDER_CLAIM | ADAPTER_REOBSERVE | INDEPENDENT_LEDGER | WITNESS_ATTESTATION

primrec evidence_kind_value :: "evidence_kind \<Rightarrow> string" where
  "evidence_kind_value UNATTRIBUTED = ''unattributed''"
| "evidence_kind_value PROVIDER_CLAIM = ''provider_claim''"
| "evidence_kind_value ADAPTER_REOBSERVE = ''adapter_reobserve''"
| "evidence_kind_value INDEPENDENT_LEDGER = ''independent_ledger''"
| "evidence_kind_value WITNESS_ATTESTATION = ''witness_attestation''"

primrec evidence_kind_rank :: "evidence_kind \<Rightarrow> nat" where
  "evidence_kind_rank UNATTRIBUTED = 0"
| "evidence_kind_rank PROVIDER_CLAIM = 1"
| "evidence_kind_rank ADAPTER_REOBSERVE = 2"
| "evidence_kind_rank INDEPENDENT_LEDGER = 3"
| "evidence_kind_rank WITNESS_ATTESTATION = 4"

record evidence_record =
  er_schema_version :: string
  er_evidence_id :: string
  er_manifest_hash :: string
  er_kind :: evidence_kind
  er_source_system :: string
  er_observation_method :: string
  er_observed_at :: time
  er_collected_at :: time
  er_after_state_digest :: "string option"
  er_matched_expected :: "bool option"
  er_source_principal_id :: "string option"
  er_detail :: "string option"

definition evidence_record_validate :: "evidence_record \<Rightarrow> unit res" where
  "evidence_record_validate r = allR
     [assert_supported_schema_version (er_schema_version r),
      nonempty_256 (er_evidence_id r),
      raise_if (\<not> digest_shape (er_manifest_hash r)) ValueError,
      nonempty_256 (er_source_system r),
      nonempty_256 (er_observation_method r),
      raise_if (er_collected_at r < er_observed_at r) ValueError]"

definition evidence_json :: "crypto \<Rightarrow> evidence_record \<Rightarrow> json" where
  "evidence_json cr r = JObj
     [(''schema_version'', JStr (er_schema_version r)),
      (''evidence_id'', JStr (er_evidence_id r)),
      (''manifest_hash'', JStr (er_manifest_hash r)),
      (''kind'', JStr (evidence_kind_value (er_kind r))),
      (''source_system'', JStr (er_source_system r)),
      (''observation_method'', JStr (er_observation_method r)),
      (''observed_at'', JStr (cr_iso cr (er_observed_at r))),
      (''collected_at'', JStr (cr_iso cr (er_collected_at r))),
      (''after_state_digest'', jstr_opt (er_after_state_digest r)),
      (''matched_expected'', jbool_opt (er_matched_expected r)),
      (''source_principal_id'', jstr_opt (er_source_principal_id r)),
      (''detail'', jstr_opt (er_detail r))]"

definition evidence_hash :: "crypto \<Rightarrow> evidence_record \<Rightarrow> string" where
  "evidence_hash cr r = canonical_hash (cr_sha256 cr) (evidence_json cr r)"

record evidence_policy =
  ep_policy_id :: string
  ep_policy_version :: string
  ep_max_age_seconds :: int
  ep_min_kind :: evidence_kind
  ep_require_source_system :: bool
  ep_require_digest :: bool
  ep_reject_unattributed :: bool
  ep_max_records_considered :: int

definition evidence_policy_validate :: "evidence_policy \<Rightarrow> unit res" where
  "evidence_policy_validate p = allR
     [id_length_check (ep_policy_id p),
      raise_if (CHR ''.'' \<notin> set (ep_policy_version p)) ValueError,
      raise_if (ep_max_age_seconds p < 1 \<or> ep_max_age_seconds p > 86400) ValueError,
      raise_if (ep_max_records_considered p < 1 \<or> ep_max_records_considered p > 128) ValueError]"

definition DEFAULT_EVIDENCE_POLICY :: evidence_policy where
  "DEFAULT_EVIDENCE_POLICY = \<lparr>ep_policy_id = ''default-evidence'', ep_policy_version = ''1.0'', ep_max_age_seconds = 300,
     ep_min_kind = ADAPTER_REOBSERVE, ep_require_source_system = True, ep_require_digest = True,
     ep_reject_unattributed = True, ep_max_records_considered = 32\<rparr>"

definition evidence_policy_hash :: "crypto \<Rightarrow> evidence_policy \<Rightarrow> string" where
  "evidence_policy_hash cr p = canonical_hash (cr_sha256 cr) (JObj
     [(''policy_id'', JStr (ep_policy_id p)),
      (''policy_version'', JStr (ep_policy_version p)),
      (''max_age_seconds'', JInt (ep_max_age_seconds p)),
      (''min_kind'', JStr (evidence_kind_value (ep_min_kind p))),
      (''require_source_system'', JBool (ep_require_source_system p)),
      (''require_digest'', JBool (ep_require_digest p)),
      (''reject_unattributed'', JBool (ep_reject_unattributed p)),
      (''max_records_considered'', JInt (ep_max_records_considered p))])"

datatype evidence_rejection =
    EManifestHashMismatch | EUnattributed | ESourceRequired | EDigestRequired | EDigestMismatch | EStale time | EFuture
  | EBelowMinKind evidence_kind evidence_kind

definition evidence_reject_reason :: "time \<Rightarrow> string \<Rightarrow> string option \<Rightarrow> evidence_policy \<Rightarrow> evidence_record \<Rightarrow> evidence_rejection option" where
  "evidence_reject_reason now mh digest policy r =
     (let age = now - er_observed_at r in
      if er_manifest_hash r \<noteq> mh then Some EManifestHashMismatch
      else if ep_reject_unattributed policy \<and> er_kind r = UNATTRIBUTED then Some EUnattributed
      else if ep_require_source_system policy \<and> py_strip (er_source_system r) = [] then Some ESourceRequired
      else if ep_require_digest policy \<and> \<not> truthy (er_after_state_digest r) then Some EDigestRequired
      else if ep_require_digest policy \<and> digest \<noteq> None \<and> er_after_state_digest r \<noteq> digest then Some EDigestMismatch
      else if age > ep_max_age_seconds policy * second then Some (EStale age)
      else if age < 0 then Some EFuture
      else if evidence_kind_rank (er_kind r) < evidence_kind_rank (ep_min_kind policy)
        then Some (EBelowMinKind (er_kind r) (ep_min_kind policy))
      else None)"

record evidence_assessment =
  ea_acceptable :: bool
  ea_evidence_policy_hash :: string
  ea_evidence_set_hash :: "string option"
  ea_accepted_evidence_ids :: "string list"
  ea_strongest_kind :: "evidence_kind option"
  ea_rejection_reasons :: "string list"

text \<open>The dictionary \<^verbatim>\<open>by_id\<close>: of records with the same identifier the one collected last, and of those the last in the list.\<close>

definition keep_latest :: "(string \<times> evidence_record) list \<Rightarrow> evidence_record \<Rightarrow> (string \<times> evidence_record) list" where
  "keep_latest d r = (case map_of d (er_evidence_id r) of
      None \<Rightarrow> AList.update (er_evidence_id r) r d
    | Some prev \<Rightarrow> if er_collected_at r \<ge> er_collected_at prev then AList.update (er_evidence_id r) r d else d)"

definition strongest_of :: "evidence_record list \<Rightarrow> evidence_kind option" where
  "strongest_of rs = (case rs of [] \<Rightarrow> None
     | r # rest \<Rightarrow> Some (er_kind (max_first (\<lambda>r. evidence_kind_rank (er_kind r)) r rest)))"

definition NO_EVIDENCE :: string where "NO_EVIDENCE = ''no evidence records provided''"

definition evaluate_evidence_quality :: "(evidence_rejection \<Rightarrow> string) \<Rightarrow> crypto \<Rightarrow> evidence_record list \<Rightarrow> evidence_policy
    \<Rightarrow> string \<Rightarrow> string option \<Rightarrow> time \<Rightarrow> evidence_assessment res" where
  "evaluate_evidence_quality render cr records policy mh digest now =
     (let ph = evidence_policy_hash cr policy in
      if int (length records) > ep_max_records_considered policy then Inl (EvidenceE EvidenceBatchTooLargeError)
      else bindR (sift (\<lambda>r. Inr (evidence_reject_reason now mh digest policy r)) records) (\<lambda>(rejected, survivors).
        let rejections = map (\<lambda>(r, why). rejection_text render (er_evidence_id r) why) rejected;
            accepted = sort_key (\<lambda>r. (evidence_kind_value (er_kind r), er_evidence_id r)) (map snd (foldl keep_latest [] survivors));
            strongest = strongest_of accepted;
            acceptable = (case strongest of None \<Rightarrow> False | Some k \<Rightarrow> evidence_kind_rank k \<ge> evidence_kind_rank (ep_min_kind policy));
            rejections1 = (if accepted = [] \<and> rejections = [] then rejections @ [NO_EVIDENCE] else rejections);
            rejections2 = (case strongest of
                Some k \<Rightarrow> if accepted \<noteq> [] \<and> \<not> acceptable
                  then rejections1 @ [''strongest_kind='' @ evidence_kind_value k @ '' below min_kind='' @ evidence_kind_value (ep_min_kind policy)]
                  else rejections1
              | None \<Rightarrow> rejections1);
            accepted_ids = map er_evidence_id accepted
        in Inr \<lparr>ea_acceptable = acceptable, ea_evidence_policy_hash = ph,
                ea_evidence_set_hash = (if acceptable then Some (canonical_hash (cr_sha256 cr) (JObj
                   [(''manifest_hash'', JStr mh), (''evidence_policy_hash'', JStr ph), (''digest'', jstr_opt digest),
                    (''evidence_ids'', JList (map JStr accepted_ids)),
                    (''strongest_kind'', jstr_opt (map_option evidence_kind_value strongest))])) else None),
                ea_accepted_evidence_ids = accepted_ids, ea_strongest_kind = strongest,
                ea_rejection_reasons = sort rejections2\<rparr>))"

definition assert_evidence_quality :: "(evidence_rejection \<Rightarrow> string) \<Rightarrow> crypto \<Rightarrow> evidence_record list \<Rightarrow> evidence_policy
    \<Rightarrow> string \<Rightarrow> string option \<Rightarrow> time \<Rightarrow> evidence_assessment res" where
  "assert_evidence_quality render cr records policy mh digest now =
     bindR (evaluate_evidence_quality render cr records policy mh digest now) (\<lambda>result.
       if \<not> ea_acceptable result then Inl (EvidenceE EvidenceQualityError) else Inr result)"

text \<open>A record built from the proof of an outcome; the clock may be behind the time of observation.\<close>

definition evidence_from_outcome_proof :: "time \<Rightarrow> string \<Rightarrow> string \<Rightarrow> outcome_proof \<Rightarrow> evidence_kind \<Rightarrow> string \<Rightarrow> string
    \<Rightarrow> string option \<Rightarrow> evidence_record res" where
  "evidence_from_outcome_proof now i mh pf kind source method who =
     (let r = \<lparr>er_schema_version = CURRENT_SCHEMA_VERSION, er_evidence_id = i, er_manifest_hash = mh, er_kind = kind,
               er_source_system = source, er_observation_method = method, er_observed_at = op_observed_at pf,
               er_collected_at = (if now \<ge> op_observed_at pf then now else op_observed_at pf),
               er_after_state_digest = op_observed_after_state_digest pf, er_matched_expected = Some (op_matched_expected pf),
               er_source_principal_id = who, er_detail = op_detail pf\<rparr>
      in thenR (evidence_record_validate r) (Inr r))"

section \<open>Which statements count\<close>

definition witness_counts :: "crypto \<Rightarrow> keyring \<Rightarrow> time \<Rightarrow> string \<Rightarrow> string \<Rightarrow> witness_policy \<Rightarrow> principal \<Rightarrow> principal
    \<Rightarrow> witness_statement \<Rightarrow> bool" where
  "witness_counts cr kr now mh digest policy actor subject s \<longleftrightarrow>
     ws_manifest_hash s = mh \<and> ws_witness_policy_hash s = witness_policy_hash cr policy
     \<and> ws_observed_after_state_digest s = digest \<and> (wp_require_matched_expected policy \<longrightarrow> ws_matched_expected s)
     \<and> principal_type (ws_witness s) \<noteq> AGENT
     \<and> (wp_forbid_actor_as_witness policy \<longrightarrow> witness_id s \<noteq> principal_id actor)
     \<and> (wp_forbid_subject_as_witness policy \<longrightarrow> witness_id s \<noteq> principal_id subject)
     \<and> verify_witness_statement_signature cr s kr = Inr () \<and> now \<le> ws_expires_at s"

lemma sift_eq:
  assumes "\<And>s. f s = Inr (g s)"
  shows "sift f ss = Inr (List.map_filter (\<lambda>s. map_option (Pair s) (g s)) ss, filter (\<lambda>s. g s = None) ss)"
  by (induction ss) (auto simp: assms List.map_filter_def split: option.splits)

lemma witness_signature_error_ks: "verify_witness_statement_signature cr s kr = Inl e \<Longrightarrow> is_ks e"
  by (auto simp: verify_witness_statement_signature_def assert_supported_schema_version_def assert_supported_algorithm_def
      kr_verify_def kr_get_def vk_verify_def result_simps is_ks_def dest: parse_major_error split: option.splits)

lemma witness_reject_total:
  "witness_reject_reason cr kr now mh (witness_policy_hash cr policy) digest policy actor subject s
     = Inr (projr (witness_reject_reason cr kr now mh (witness_policy_hash cr policy) digest policy actor subject s))"
  "projr (witness_reject_reason cr kr now mh (witness_policy_hash cr policy) digest policy actor subject s) = None
     \<longleftrightarrow> witness_counts cr kr now mh digest policy actor subject s"
proof -
  obtain v where v: "thenR (verify_witness_statement_signature cr s kr) (verify_witness_statement_time_window s now) = v" by blast
  have e: "v = Inl e \<Longrightarrow> is_ks e" for e
    using v by (auto simp: result_simps verify_witness_statement_time_window_def is_ks_def dest: witness_signature_error_ks)
  have ok: "v = Inr u \<longleftrightarrow> verify_witness_statement_signature cr s kr = Inr () \<and> now \<le> ws_expires_at s" for u
    using v by (auto simp: result_simps verify_witness_statement_time_window_def is_ok_unit)
  note r = witness_reject_reason_def [of cr kr now mh "witness_policy_hash cr policy" digest policy actor subject s, unfolded v]
  show "witness_reject_reason cr kr now mh (witness_policy_hash cr policy) digest policy actor subject s
     = Inr (projr (witness_reject_reason cr kr now mh (witness_policy_hash cr policy) digest policy actor subject s))"
    by (cases v) (auto simp: r e)
  show "projr (witness_reject_reason cr kr now mh (witness_policy_hash cr policy) digest policy actor subject s) = None
     \<longleftrightarrow> witness_counts cr kr now mh digest policy actor subject s"
    unfolding witness_counts_def ok [symmetric, of "()"] by (cases v) (auto simp: r e witness_id_def)
qed

lemma witness_winner_id:
  assumes "pid \<in> witness_id ` set ss"
  shows "witness_id (witness_winner ss pid) = pid"
proof -
  obtain g gs where g: "filter (\<lambda>s. witness_id s = pid) ss = g # gs"
    using assms by (cases "filter (\<lambda>s. witness_id s = pid) ss") (auto simp: filter_empty_conv)
  have "set (g # gs) \<subseteq> {s. witness_id s = pid}"
    unfolding g [symmetric] by auto
  then show ?thesis
    using max_first_in [of "\<lambda>s. (ws_signed_at s, ws_statement_id s)" g gs] by (auto simp: witness_winner_def g)
qed

lemma accepted_witnesses:
  "map witness_id (sort_key witness_id (map (witness_winner ss) (first_occurrences (map witness_id ss))))
     = sorted_list_of_set (witness_id ` set ss)"
proof -
  have "map witness_id (map (witness_winner ss) (first_occurrences (map witness_id ss))) = first_occurrences (map witness_id ss)"
    by (auto intro!: map_idI simp: witness_winner_id)
  moreover have "map witness_id (sort_key witness_id xs) = sort (map witness_id xs)" for xs
    by (metis (no_types) mset_map mset_sort properties_for_sort sorted_sort_key)
  ultimately show ?thesis
    by (simp add: sorted_list_of_set_sort_remdups [symmetric] flip: set_map)
      (metis distinct_first_occurrences set_first_occurrences sorted_list_of_set.idem_if_sorted_distinct
        distinct_sort set_sort sorted_sort image_set)
qed

lemma witness_accepted:
  assumes "evaluate_witness_quorum render cr statements policy mh digest actor subject kr now = Inr q"
  defines "W \<equiv> witness_id ` {s \<in> set statements. witness_counts cr kr now mh digest policy actor subject s}"
  shows "wq_accepted_witness_ids q = sorted_list_of_set W
    \<and> (wq_satisfied q \<longleftrightarrow> wp_required_witnesses policy \<le> int (card W))
    \<and> (wq_witness_set_hash q \<noteq> None \<longleftrightarrow> wq_satisfied q)"
proof -
  let ?ss = "filter (witness_counts cr kr now mh digest policy actor subject) statements"
  let ?A = "sort_key witness_id (map (witness_winner ?ss) (first_occurrences (map witness_id ?ss)))"
  have W: "W = witness_id ` set ?ss" by (simp add: W_def)
  have ids: "map witness_id ?A = sorted_list_of_set W"
    unfolding W by (rule accepted_witnesses)
  then have len: "length ?A = card W"
    by (metis length_map length_sorted_list_of_set)
  have "sift (witness_reject_reason cr kr now mh (witness_policy_hash cr policy) digest policy actor subject) statements
     = Inr (List.map_filter (\<lambda>s. map_option (Pair s)
         (projr (witness_reject_reason cr kr now mh (witness_policy_hash cr policy) digest policy actor subject s))) statements, ?ss)"
    by (subst sift_eq [OF witness_reject_total(1)]) (simp only: witness_reject_total(2))
  then show ?thesis
    using assms(1) ids len by (auto simp: evaluate_witness_quorum_def Let_def split: if_splits)
qed

text \<open>C24. The witness quorum counts exactly the independent witnesses: the accepted witnesses are those
  with at least one statement that attests this digest of this manifest under this policy, is signed by
  a trusted key and not expired, and whose author is neither an agent nor, where forbidden, the actor
  or the subject; each counts once however many statements it made, the order of the statements does
  not matter, and the quorum is met exactly when there are as many as the policy requires.\<close>

theorem witness_quorum_exact:
  assumes "evaluate_witness_quorum render cr statements policy mh digest actor subject kr now = Inr q"
  defines "W \<equiv> witness_id ` {s \<in> set statements. witness_counts cr kr now mh digest policy actor subject s}"
  shows "wq_accepted_witness_ids q = sorted_list_of_set W
    \<and> (wq_satisfied q \<longleftrightarrow> wp_required_witnesses policy \<le> int (card W))
    \<and> (wq_witness_set_hash q \<noteq> None \<longleftrightarrow> wq_satisfied q)"
  unfolding W_def by (rule witness_accepted [OF assms(1)])

section \<open>Which evidence counts\<close>

definition evidence_usable :: "time \<Rightarrow> string \<Rightarrow> string option \<Rightarrow> evidence_policy \<Rightarrow> evidence_record \<Rightarrow> bool" where
  "evidence_usable now mh digest policy r \<longleftrightarrow>
     er_manifest_hash r = mh \<and> (ep_reject_unattributed policy \<longrightarrow> er_kind r \<noteq> UNATTRIBUTED)
     \<and> (ep_require_source_system policy \<longrightarrow> py_strip (er_source_system r) \<noteq> [])
     \<and> (ep_require_digest policy \<longrightarrow> truthy (er_after_state_digest r) \<and> (digest = None \<or> er_after_state_digest r = digest))
     \<and> now - ep_max_age_seconds policy * second \<le> er_observed_at r \<and> er_observed_at r \<le> now
     \<and> evidence_kind_rank (ep_min_kind policy) \<le> evidence_kind_rank (er_kind r)"

lemma evidence_reject_None: "evidence_reject_reason now mh digest policy r = None \<longleftrightarrow> evidence_usable now mh digest policy r"
  by (auto simp: evidence_reject_reason_def evidence_usable_def Let_def)

lemma set_update_subset: "set (AList.update k v d) \<subseteq> insert (k, v) (set d)"
  by (induction d) auto

lemma keep_latest_fold:
  assumes "distinct (map fst d)" "\<forall>(k, r) \<in> set d. k = er_evidence_id r"
  shows "distinct (map fst (foldl keep_latest d rs)) \<and> (\<forall>(k, r) \<in> set (foldl keep_latest d rs). k = er_evidence_id r)
    \<and> fst ` set (foldl keep_latest d rs) = fst ` set d \<union> er_evidence_id ` set rs
    \<and> snd ` set (foldl keep_latest d rs) \<subseteq> snd ` set d \<union> set rs"
  using assms
proof (induction rs arbitrary: d)
  case (Cons r rs)
  let ?u = "AList.update (er_evidence_id r) r d" and ?d = "keep_latest d r"
  have "set ?u \<subseteq> insert (er_evidence_id r, r) (set d)"
    by (rule set_update_subset)
  then have u: "distinct (map fst ?u)" "\<forall>(k, r) \<in> set ?u. k = er_evidence_id r" "fst ` set ?u = insert (er_evidence_id r) (fst ` set d)"
      "snd ` set ?u \<subseteq> insert r (snd ` set d)"
    using Cons.prems by (auto simp: distinct_update dom_update)
  have "fst ` set d = insert (er_evidence_id r) (fst ` set d)" if "map_of d (er_evidence_id r) = Some q" for q
    using that by (force dest: map_of_SomeD)
  then have k: "distinct (map fst ?d)" "\<forall>(k, r) \<in> set ?d. k = er_evidence_id r" "fst ` set ?d = insert (er_evidence_id r) (fst ` set d)"
      "snd ` set ?d \<subseteq> insert r (snd ` set d)"
    using u Cons.prems by (auto simp: keep_latest_def split: option.splits)
  note h = Cons.IH [OF k(1,2)]
  have "snd ` set (foldl keep_latest ?d rs) \<subseteq> snd ` set d \<union> set (r # rs)"
    using h k(4) by (simp only: list.set) blast
  then show ?case
    using h k(3) by simp
qed auto

lemma strongest_of_props:
  "strongest_of rs = None \<longleftrightarrow> rs = []"
  "strongest_of rs = Some k \<Longrightarrow> \<exists>r \<in> set rs. er_kind r = k \<and> (\<forall>q \<in> set rs. evidence_kind_rank (er_kind q) \<le> evidence_kind_rank k)"
proof -
  let ?f = "\<lambda>r. evidence_kind_rank (er_kind r)"
  show "strongest_of rs = None \<longleftrightarrow> rs = []"
    by (simp add: strongest_of_def split: list.splits)
  show "\<exists>r \<in> set rs. er_kind r = k \<and> (\<forall>q \<in> set rs. evidence_kind_rank (er_kind q) \<le> evidence_kind_rank k)" if "strongest_of rs = Some k"
  proof (cases rs)
    case (Cons r rest)
    then show ?thesis
      using that max_first_in [of ?f r rest] max_first_ge [of _ r rest ?f] by (auto simp: strongest_of_def)
  qed (use that in \<open>simp add: strongest_of_def\<close>)
qed

lemma evidence_accepted:
  assumes "evaluate_evidence_quality render cr records policy mh digest now = Inr a"
  defines "U \<equiv> {r \<in> set records. evidence_usable now mh digest policy r}"
  shows "(ea_acceptable a \<longleftrightarrow> U \<noteq> {}) \<and> set (ea_accepted_evidence_ids a) = er_evidence_id ` U \<and> distinct (ea_accepted_evidence_ids a)
    \<and> (ea_acceptable a \<longrightarrow> (\<exists>r \<in> U. ea_strongest_kind a = Some (er_kind r)))
    \<and> (ea_evidence_set_hash a \<noteq> None \<longleftrightarrow> ea_acceptable a)"
proof -
  let ?ss = "filter (evidence_usable now mh digest policy) records"
  let ?d = "foldl keep_latest [] ?ss"
  let ?acc = "sort_key (\<lambda>r. (evidence_kind_value (er_kind r), er_evidence_id r)) (map snd ?d)"
  have U: "U = set ?ss" by (simp add: U_def)
  have f: "distinct (map fst ?d)" "\<forall>(k, r) \<in> set ?d. k = er_evidence_id r" "fst ` set ?d = er_evidence_id ` U" "snd ` set ?d \<subseteq> U"
    using keep_latest_fold [of "[]" ?ss] by (simp_all add: U)
  have ids: "map er_evidence_id (map snd ?d) = map fst ?d"
    using f(2) by auto
  have m: "mset (map er_evidence_id ?acc) = mset (map fst ?d)"
    unfolding ids [symmetric] by (simp only: mset_map mset_sort)
  have i: "set (map er_evidence_id ?acc) = er_evidence_id ` U" "distinct (map er_evidence_id ?acc)" "set ?acc \<subseteq> U"
    using mset_eq_setD [OF m] mset_eq_imp_distinct_iff [OF m] f(1,3,4) by simp_all
  have "?acc = [] \<longleftrightarrow> set (map er_evidence_id ?acc) = {}"
    by (simp only: set_empty map_is_Nil_conv)
  then have n: "?acc = [] \<longleftrightarrow> U = {}"
    unfolding i(1) by simp
  have k: "evidence_kind_rank (ep_min_kind policy) \<le> evidence_kind_rank k \<and> (\<exists>r \<in> U. k = er_kind r)" if "strongest_of ?acc = Some k" for k
    using strongest_of_props(2) [OF that] i(3) by (auto simp: U_def evidence_usable_def)
  have sift: "sift (\<lambda>r. Inr (evidence_reject_reason now mh digest policy r)) records
     = Inr (List.map_filter (\<lambda>r. map_option (Pair r) (evidence_reject_reason now mh digest policy r)) records, ?ss)"
    by (subst sift_eq [where g = "evidence_reject_reason now mh digest policy"]) (simp_all add: evidence_reject_None)
  have "\<not> ep_max_records_considered policy < int (length records)"
    using assms(1) by (auto simp: evaluate_evidence_quality_def Let_def)
  note ev = assms(1) [unfolded evaluate_evidence_quality_def Let_def sift bindR.simps prod.case if_not_P [OF this] sum.inject, symmetric]
  have e: "ea_acceptable a = (case strongest_of ?acc of None \<Rightarrow> False
        | Some k \<Rightarrow> evidence_kind_rank k \<ge> evidence_kind_rank (ep_min_kind policy))"
      "ea_accepted_evidence_ids a = map er_evidence_id ?acc" "ea_strongest_kind a = strongest_of ?acc"
      "ea_evidence_set_hash a = None \<longleftrightarrow> \<not> ea_acceptable a"
    by (simp_all add: ev)
  show ?thesis
    unfolding e using i(1,2) k n strongest_of_props(1) [of ?acc] by (cases "strongest_of ?acc") auto
qed

text \<open>Evidence is accepted exactly when some record is usable: it is about this manifest, attributed
  and carrying a source and the expected digest where the policy asks for them, observed neither in the
  future nor longer ago than the policy allows, and at least of the policy's kind.  The accepted
  identifiers are those of the usable records, without repetition, and the reported kind is that of a
  usable record, hence never below the policy's minimum.\<close>

theorem evidence_quality_exact:
  assumes "evaluate_evidence_quality render cr records policy mh digest now = Inr a"
  defines "U \<equiv> {r \<in> set records. evidence_usable now mh digest policy r}"
  shows "(ea_acceptable a \<longleftrightarrow> U \<noteq> {}) \<and> set (ea_accepted_evidence_ids a) = er_evidence_id ` U \<and> distinct (ea_accepted_evidence_ids a)
    \<and> (ea_acceptable a \<longrightarrow> (\<exists>r \<in> U. ea_strongest_kind a = Some (er_kind r)))
    \<and> (ea_evidence_set_hash a \<noteq> None \<longleftrightarrow> ea_acceptable a)"
  unfolding U_def by (rule evidence_accepted [OF assms(1)])

section \<open>Examples\<close>

lemma default_witness_policy_simps [simp]:
  "wp_max_statements_considered DEFAULT_WITNESS_POLICY = 32" "wp_required_witnesses DEFAULT_WITNESS_POLICY = 1"
  by (simp_all add: DEFAULT_WITNESS_POLICY_def)

lemma default_evidence_policy_simps [simp]:
  "ep_max_records_considered DEFAULT_EVIDENCE_POLICY = 32" "ep_min_kind DEFAULT_EVIDENCE_POLICY = ADAPTER_REOBSERVE"
  by (simp_all add: DEFAULT_EVIDENCE_POLICY_def)

lemma evaluate_witness_total:
  "int (length statements) \<le> wp_max_statements_considered policy \<Longrightarrow>
     \<exists>q. evaluate_witness_quorum render cr statements policy mh digest actor subject kr now = Inr q"
  by (simp add: evaluate_witness_quorum_def Let_def sift_eq [OF witness_reject_total(1)])

definition demo_witness :: "string \<Rightarrow> string \<Rightarrow> string \<Rightarrow> witness_statement" where
  "demo_witness mh i who = (let u = \<lparr>ws_schema_version = ''1.0'', ws_statement_id = i, ws_manifest_hash = mh,
       ws_witness_policy_hash = witness_policy_hash toy_crypto DEFAULT_WITNESS_POLICY, ws_observed_after_state_digest = ''d'',
       ws_matched_expected = True, ws_witness = toy_principal who HUMAN, ws_signed_at = 1, ws_expires_at = 100,
       ws_nonce = ''n'', ws_key_id = ''key-1'', ws_algorithm = ''ed25519'', ws_signature = None\<rparr>
     in u\<lparr>ws_signature := Some (sk_sign toy_crypto toy_key (witness_statement_hash toy_crypto u))\<rparr>)"

lemma demo_witness_id [simp]: "witness_id (demo_witness mh i who) = who"
  by (simp add: witness_id_def demo_witness_def toy_principal_def Let_def)

lemma demo_witness_counts:
  assumes "who \<noteq> ''agent-1''"
  shows "witness_counts toy_crypto toy_keyring 50 mh ''d'' DEFAULT_WITNESS_POLICY (toy_principal ''agent-1'' AGENT)
    (toy_principal ''agent-1'' AGENT) (demo_witness mh i who)"
proof -
  let ?s = "demo_witness mh i who"
  have s: "ws_signature ?s = Some (sk_sign toy_crypto toy_key (witness_statement_hash toy_crypto ?s))" "ws_key_id ?s = ''key-1''"
    "ws_algorithm ?s = ''ed25519''" "ws_schema_version ?s = ''1.0''" "ws_expires_at ?s = 100"
    "ws_manifest_hash ?s = mh" "ws_observed_after_state_digest ?s = ''d''" "ws_matched_expected ?s"
    "ws_witness_policy_hash ?s = witness_policy_hash toy_crypto DEFAULT_WITNESS_POLICY" "ws_witness ?s = toy_principal who HUMAN"
    by (simp_all add: demo_witness_def Let_def witness_statement_hash_def witness_payload_def)
  have "assert_supported_schema_version ''1.0'' = Inr ()" by code_simp
  then have "verify_witness_statement_signature toy_crypto ?s toy_keyring = Inr ()"
    using s toy_keyring_key vk_verify_sign [OF toy_crypto_ok]
    by (simp add: verify_witness_statement_signature_def thenR_def assert_supported_algorithm_def SUPPORTED_ALGORITHMS_def
        raise_if_def kr_verify_def kr_get_def)
  then show ?thesis
    using assms s by (simp add: witness_counts_def toy_principal_def)
qed

theorem witness_quorum_exact_witness:
  "\<exists>q. evaluate_witness_quorum (\<lambda>_. []) toy_crypto [demo_witness ''m'' ''2'' ''carol'', demo_witness ''m'' ''1'' ''bob'', demo_witness ''m'' ''3'' ''bob'']
       DEFAULT_WITNESS_POLICY ''m'' ''d'' (toy_principal ''agent-1'' AGENT) (toy_principal ''agent-1'' AGENT) toy_keyring 50 = Inr q
     \<and> wq_accepted_witness_ids q = [''bob'', ''carol''] \<and> wq_satisfied q"
proof -
  let ?ss = "[demo_witness ''m'' ''2'' ''carol'', demo_witness ''m'' ''1'' ''bob'', demo_witness ''m'' ''3'' ''bob'']"
  have "int (length ?ss) \<le> wp_max_statements_considered DEFAULT_WITNESS_POLICY"
    by simp
  then obtain q where q: "evaluate_witness_quorum (\<lambda>_. []) toy_crypto ?ss DEFAULT_WITNESS_POLICY ''m'' ''d''
      (toy_principal ''agent-1'' AGENT) (toy_principal ''agent-1'' AGENT) toy_keyring 50 = Inr q"
    using evaluate_witness_total by meson
  have all: "{s \<in> set ?ss. witness_counts toy_crypto toy_keyring 50 ''m'' ''d'' DEFAULT_WITNESS_POLICY (toy_principal ''agent-1'' AGENT)
      (toy_principal ''agent-1'' AGENT) s} = set ?ss"
    using demo_witness_counts by auto
  have who: "witness_id ` set ?ss = {''bob'', ''carol''}"
    by (simp add: insert_commute)
  have "sorted_list_of_set {''bob'', ''carol''} = [''bob'', ''carol'']"
    by code_simp
  moreover have "card {''bob'', ''carol''} = 2"
    by simp
  ultimately show ?thesis
    using witness_quorum_exact [OF q, unfolded all who] q by simp
qed

definition demo_evidence :: "string \<Rightarrow> evidence_kind \<Rightarrow> evidence_record" where
  "demo_evidence mh k = \<lparr>er_schema_version = ''1.0'', er_evidence_id = ''e'', er_manifest_hash = mh, er_kind = k,
     er_source_system = ''bank'', er_observation_method = ''read'', er_observed_at = 10, er_collected_at = 20,
     er_after_state_digest = Some ''d'', er_matched_expected = Some True, er_source_principal_id = None, er_detail = None\<rparr>"

lemma demo_evidence_usable:
  "evidence_usable 50 mh (Some ''d'') DEFAULT_EVIDENCE_POLICY (demo_evidence mh k) \<longleftrightarrow> 2 \<le> evidence_kind_rank k"
  by (cases k) (simp_all add: evidence_usable_def demo_evidence_def DEFAULT_EVIDENCE_POLICY_def second_def py_strip_def py_space_def)

lemma evaluate_evidence_total:
  "int (length records) \<le> ep_max_records_considered policy \<Longrightarrow> \<exists>a. evaluate_evidence_quality render cr records policy mh digest now = Inr a"
  by (simp add: evaluate_evidence_quality_def Let_def
      sift_eq [of _ "evidence_reject_reason now mh digest policy"])

theorem evidence_quality_exact_witness:
  "\<exists>a. evaluate_evidence_quality (\<lambda>_. []) toy_crypto [demo_evidence ''m'' PROVIDER_CLAIM, demo_evidence ''m'' INDEPENDENT_LEDGER]
       DEFAULT_EVIDENCE_POLICY ''m'' (Some ''d'') 50 = Inr a
     \<and> ea_acceptable a \<and> ea_strongest_kind a = Some INDEPENDENT_LEDGER"
proof -
  let ?rs = "[demo_evidence ''m'' PROVIDER_CLAIM, demo_evidence ''m'' INDEPENDENT_LEDGER]"
  have "int (length ?rs) \<le> ep_max_records_considered DEFAULT_EVIDENCE_POLICY"
    by simp
  then obtain a where a: "evaluate_evidence_quality (\<lambda>_. []) toy_crypto ?rs DEFAULT_EVIDENCE_POLICY ''m'' (Some ''d'') 50 = Inr a"
    using evaluate_evidence_total by meson
  have u: "{r \<in> set ?rs. evidence_usable 50 ''m'' (Some ''d'') DEFAULT_EVIDENCE_POLICY r} = {demo_evidence ''m'' INDEPENDENT_LEDGER}"
    by (auto simp only: demo_evidence_usable list.set evidence_kind_rank.simps)
  have "er_kind (demo_evidence ''m'' INDEPENDENT_LEDGER) = INDEPENDENT_LEDGER"
    by (simp add: demo_evidence_def)
  then show ?thesis
    using evidence_quality_exact [OF a, unfolded u] a by simp
qed

text \<open>Against its documentation the evaluation depends on the order of the records: of two records with one
  identifier collected at the same time the last one wins, and with it the reported kind.\<close>

lemma evidence_tie_order_dependent:
  "\<exists>a a'. evaluate_evidence_quality (\<lambda>_. []) toy_crypto [demo_evidence ''m'' ADAPTER_REOBSERVE, demo_evidence ''m'' INDEPENDENT_LEDGER]
       DEFAULT_EVIDENCE_POLICY ''m'' (Some ''d'') 50 = Inr a
     \<and> evaluate_evidence_quality (\<lambda>_. []) toy_crypto [demo_evidence ''m'' INDEPENDENT_LEDGER, demo_evidence ''m'' ADAPTER_REOBSERVE]
       DEFAULT_EVIDENCE_POLICY ''m'' (Some ''d'') 50 = Inr a'
     \<and> ea_strongest_kind a = Some INDEPENDENT_LEDGER \<and> ea_strongest_kind a' = Some ADAPTER_REOBSERVE"
proof -
  have "evidence_reject_reason 50 ''m'' (Some ''d'') DEFAULT_EVIDENCE_POLICY (demo_evidence ''m'' k) = None" if "2 \<le> evidence_kind_rank k" for k
    using that demo_evidence_usable by (simp add: evidence_reject_None)
  then show ?thesis
    by (simp add: evaluate_evidence_quality_def Let_def keep_latest_def strongest_of_def) (simp add: demo_evidence_def)
qed

end
