(* ===== verification/Intelligence.thy ===== *)
theory Intelligence
  imports Envelope Policy AuditJournal Adapters "HOL-Library.Log_Nat"
begin

text \<open>
  The deterministic risk assessment of an effect (\<^verbatim>\<open>intelligence/\<close>): the scoring policy and its form
  in a signed bundle, the facts a deployment supplies or derives from the journal, the signals, and the
  assessment computed from them.

  \<open>text_ops\<close> holds what the code takes from the standard library and the model does not define: the
  search for a regular expression (\<open>None\<close> for a malformed pattern), and the conversion between floats
  and their text, where \<open>None\<close> stands for a text that is no finite number.  A finite float is its
  rational value.
\<close>

section \<open>Floats\<close>

text \<open>The quotient of two integers as a float: the nearest number with a 53 bit mantissa, ties to even.
  No overflow arises for the quotients used here, which are at most one.\<close>

definition round_half_even :: "rat \<Rightarrow> int" where
  "round_half_even q = (let f = floor q; d = q - of_int f in
     if d < 1 / 2 then f else if 1 / 2 < d then f + 1 else if even f then f else f + 1)"

definition pow2 :: "int \<Rightarrow> rat" where
  "pow2 e = (if 0 \<le> e then 2 ^ nat e else 1 / 2 ^ nat (- e))"

definition binary_exponent :: "rat \<Rightarrow> int" where
  "binary_exponent q = (let (a, b) = quotient_of q; e = bitlen a - bitlen b in if pow2 e \<le> q then e else e - 1)"

definition float_div :: "int \<Rightarrow> int \<Rightarrow> rat" where
  "float_div a b = (let q = of_int a / of_int b; k = max (binary_exponent q - 52) (- 1074) in
     if a = 0 then 0 else of_int (round_half_even (q / pow2 k)) * pow2 k)"

record text_ops =
  tx_search :: "string \<Rightarrow> string \<Rightarrow> bool option"
  tx_float_repr :: "rat \<Rightarrow> string"
  tx_float_parse :: "string \<Rightarrow> rat option"
  tx_fixed2 :: "rat \<Rightarrow> string"

section \<open>Facts\<close>

record assessment_facts =
  af_delegation_depth :: int
  af_recurrence_count :: int
  af_failure_count :: int
  af_provider_idempotent :: "bool option"
  af_compensation_feasible :: "bool option"
  af_cross_tenant :: bool
  af_unusual_parameter_change :: bool
  af_policy_violations :: "string list"

definition DEFAULT_FACTS :: assessment_facts where
  "DEFAULT_FACTS = \<lparr>af_delegation_depth = 0, af_recurrence_count = 0, af_failure_count = 0, af_provider_idempotent = None,
     af_compensation_feasible = None, af_cross_tenant = False, af_unusual_parameter_change = False, af_policy_violations = []\<rparr>"

definition facts_validate :: "assessment_facts \<Rightarrow> unit res" where
  "facts_validate f = allR
     ([raise_if (af_delegation_depth f < 0) ValueError,
       raise_if (af_recurrence_count f < 0) ValueError,
       raise_if (af_failure_count f < 0) ValueError,
       raise_if (af_failure_count f > af_recurrence_count f) ValueError]
      @ map nonempty_256 (af_policy_violations f))"

definition facts_json :: "assessment_facts \<Rightarrow> json" where
  "facts_json f = JObj
     [(''delegation_depth'', JInt (af_delegation_depth f)),
      (''historical_recurrence_count'', JInt (af_recurrence_count f)),
      (''historical_failure_count'', JInt (af_failure_count f)),
      (''provider_idempotent'', jbool_opt (af_provider_idempotent f)),
      (''compensation_feasible'', jbool_opt (af_compensation_feasible f)),
      (''cross_tenant'', JBool (af_cross_tenant f)),
      (''unusual_parameter_change'', JBool (af_unusual_parameter_change f)),
      (''policy_violations'', JList (map JStr (sort (af_policy_violations f))))]"

definition FAILURE_EVENT_TYPES :: "string list" where
  "FAILURE_EVENT_TYPES = [''effect.commit_failed'', ''effect.commit_error'', ''effect.stale_manifest'',
     ''effect.precondition_check_error'']"

text \<open>The manifests this actor prepared for this type of effect, and those of them with a failure.\<close>

definition prior_manifest_ids :: "audit_event list \<Rightarrow> effect_manifest \<Rightarrow> string list" where
  "prior_manifest_ids js m = remdups (List.map_filter (\<lambda>e.
     if ae_event_type e = ''manifest.prepared'' \<and> ae_actor_id e = Some (principal_id (m_actor m))
        \<and> map_of (ae_metadata e) ''effect_type'' = Some (m_effect_type m)
        \<and> ae_manifest_id e \<noteq> Some (m_manifest_id m)
     then ae_manifest_id e else None) js)"

definition failed_manifest_ids :: "audit_event list \<Rightarrow> string list \<Rightarrow> string list" where
  "failed_manifest_ids js prior = remdups (List.map_filter (\<lambda>e.
     case ae_manifest_id e of None \<Rightarrow> None
     | Some i \<Rightarrow> if i \<in> set prior \<and> ae_event_type e \<in> set FAILURE_EVENT_TYPES then Some i else None) js)"

definition derive_facts_from_audit :: "audit_event list \<Rightarrow> effect_manifest \<Rightarrow> int \<Rightarrow> bool option \<Rightarrow> bool option \<Rightarrow> bool \<Rightarrow> bool
    \<Rightarrow> string list \<Rightarrow> assessment_facts res" where
  "derive_facts_from_audit js m depth idempotent feasible cross unusual extra =
     (let prior = prior_manifest_ids js m;
          f = \<lparr>af_delegation_depth = depth, af_recurrence_count = int (length prior),
               af_failure_count = int (length (failed_manifest_ids js prior)), af_provider_idempotent = idempotent,
               af_compensation_feasible = feasible, af_cross_tenant = cross, af_unusual_parameter_change = unusual,
               af_policy_violations = extra\<rparr>
      in thenR (facts_validate f) (Inr f))"

definition facts_from_capability :: "adapter_capability \<Rightarrow> assessment_facts option \<Rightarrow> assessment_facts res" where
  "facts_from_capability c base =
     (let b = (case base of None \<Rightarrow> DEFAULT_FACTS | Some f \<Rightarrow> f);
          f = b\<lparr>af_provider_idempotent := (if ac_provider_idempotent c \<noteq> None then ac_provider_idempotent c else af_provider_idempotent b),
                af_compensation_feasible := (if ac_compensation_feasible c \<noteq> None then ac_compensation_feasible c
                                             else af_compensation_feasible b)\<rparr>
      in thenR (facts_validate f) (Inr f))"

section \<open>The scoring policy\<close>

record intelligence_policy =
  ip_policy_id :: string
  ip_policy_version :: string
  ip_risk_base_points :: "(string \<times> int) list"
  ip_blast_radius_points :: "(string \<times> int) list"
  ip_reversibility_points :: "(string \<times> int) list"
  ip_amount_thresholds :: "(string \<times> (int \<times> int \<times> int)) list"
  ip_default_amount_thresholds :: "int \<times> int \<times> int"
  ip_max_recommended_ttl_seconds :: int
  ip_sensitive_target_patterns :: "string list"
  ip_restricted_effect_types :: "string list"
  ip_max_delegation_depth :: int
  ip_max_acceptable_failure_rate :: rat
  ip_block_threshold :: int
  ip_review_threshold :: int
  ip_risk_level_thresholds :: "int \<times> int \<times> int"
  ip_max_required_human_approvals :: int
  ip_cooling_off_high_seconds :: int
  ip_cooling_off_critical_seconds :: int

definition DEFAULT_RISK_BASE_POINTS :: "(string \<times> int) list" where
  "DEFAULT_RISK_BASE_POINTS = [(''low'', 5), (''medium'', 20), (''high'', 45), (''critical'', 70)]"

definition DEFAULT_BLAST_RADIUS_POINTS :: "(string \<times> int) list" where
  "DEFAULT_BLAST_RADIUS_POINTS = [(''single_resource'', 0), (''bounded_set'', 5), (''broad'', 15), (''unbounded'', 25)]"

definition DEFAULT_REVERSIBILITY_POINTS :: "(string \<times> int) list" where
  "DEFAULT_REVERSIBILITY_POINTS = [(''reversible'', 0), (''compensatable'', 5), (''irreversible'', 15)]"

text \<open>The field's default 0.2 is the float nearest to one fifth.\<close>

definition DEFAULT_INTELLIGENCE_POLICY :: intelligence_policy where
  "DEFAULT_INTELLIGENCE_POLICY = \<lparr>ip_policy_id = ''default'', ip_policy_version = ''1.0'',
     ip_risk_base_points = DEFAULT_RISK_BASE_POINTS, ip_blast_radius_points = DEFAULT_BLAST_RADIUS_POINTS,
     ip_reversibility_points = DEFAULT_REVERSIBILITY_POINTS, ip_amount_thresholds = [],
     ip_default_amount_thresholds = (1000000, 10000000, 100000000), ip_max_recommended_ttl_seconds = 3600,
     ip_sensitive_target_patterns = [], ip_restricted_effect_types = [], ip_max_delegation_depth = 8,
     ip_max_acceptable_failure_rate = float_div 1 5, ip_block_threshold = 85, ip_review_threshold = 40,
     ip_risk_level_thresholds = (25, 50, 75), ip_max_required_human_approvals = 5,
     ip_cooling_off_high_seconds = 60, ip_cooling_off_critical_seconds = 300\<rparr>"

definition intelligence_policy_validate :: "intelligence_policy \<Rightarrow> unit res" where
  "intelligence_policy_validate p = allR
     ([id_length_check (ip_policy_id p),
       raise_if (CHR ''.'' \<notin> set (ip_policy_version p)) ValueError,
       raise_if (\<not> (0 \<le> ip_block_threshold p \<and> ip_block_threshold p \<le> 100)) ValueError,
       raise_if (\<not> (0 \<le> ip_review_threshold p \<and> ip_review_threshold p \<le> ip_block_threshold p)) ValueError,
       (case ip_risk_level_thresholds p of (lo, mid, hi) \<Rightarrow> raise_if (\<not> (0 < lo \<and> lo < mid \<and> mid < hi \<and> hi \<le> 100)) ValueError),
       raise_if (\<not> (0 \<le> ip_max_acceptable_failure_rate p \<and> ip_max_acceptable_failure_rate p \<le> 1)) ValueError,
       raise_if (ip_max_delegation_depth p < 0) ValueError,
       raise_if (ip_max_recommended_ttl_seconds p \<le> 0) ValueError]
      @ map (\<lambda>(_, lo, mid, hi). raise_if (\<not> (0 \<le> lo \<and> lo < mid \<and> mid < hi)) ValueError) (ip_amount_thresholds p))"

definition int3_json :: "int \<times> int \<times> int \<Rightarrow> json" where
  "int3_json t = (case t of (a, b, c) \<Rightarrow> JList [JInt a, JInt b, JInt c])"

definition points_json :: "(string \<times> int) list \<Rightarrow> json" where
  "points_json d = JObj (map (\<lambda>(k, v). (k, JInt v)) (sort_key fst d))"

definition intelligence_policy_dict :: "text_ops \<Rightarrow> intelligence_policy \<Rightarrow> (string \<times> json) list" where
  "intelligence_policy_dict tx p =
     [(''policy_id'', JStr (ip_policy_id p)),
      (''policy_version'', JStr (ip_policy_version p)),
      (''risk_base_points'', points_json (ip_risk_base_points p)),
      (''blast_radius_points'', points_json (ip_blast_radius_points p)),
      (''reversibility_points'', points_json (ip_reversibility_points p)),
      (''amount_thresholds'', JObj (map (\<lambda>(k, t). (k, int3_json t)) (sort_key fst (ip_amount_thresholds p)))),
      (''default_amount_thresholds'', int3_json (ip_default_amount_thresholds p)),
      (''max_recommended_ttl_seconds'', JInt (ip_max_recommended_ttl_seconds p)),
      (''sensitive_target_patterns'', JList (map JStr (sort (ip_sensitive_target_patterns p)))),
      (''restricted_effect_types'', JList (map JStr (sort (ip_restricted_effect_types p)))),
      (''max_delegation_depth'', JInt (ip_max_delegation_depth p)),
      (''max_acceptable_failure_rate'', JStr (tx_float_repr tx (ip_max_acceptable_failure_rate p))),
      (''block_threshold'', JInt (ip_block_threshold p)),
      (''review_threshold'', JInt (ip_review_threshold p)),
      (''risk_level_thresholds'', int3_json (ip_risk_level_thresholds p)),
      (''max_required_human_approvals'', JInt (ip_max_required_human_approvals p)),
      (''cooling_off_high_seconds'', JInt (ip_cooling_off_high_seconds p)),
      (''cooling_off_critical_seconds'', JInt (ip_cooling_off_critical_seconds p))]"

definition intelligence_policy_hash :: "text_ops \<Rightarrow> crypto \<Rightarrow> intelligence_policy \<Rightarrow> string" where
  "intelligence_policy_hash tx cr p = canonical_hash (cr_sha256 cr) (JObj (intelligence_policy_dict tx p))"

definition POLICY_TYPE_INTELLIGENCE :: string where
  "POLICY_TYPE_INTELLIGENCE = ''intelligence.v1''"

definition build_intelligence_bundle :: "text_ops \<Rightarrow> intelligence_policy \<Rightarrow> string \<Rightarrow> string \<Rightarrow> principal \<Rightarrow> time \<Rightarrow> time
    \<Rightarrow> time option \<Rightarrow> string option \<Rightarrow> policy_bundle res" where
  "build_intelligence_bundle tx p bundle_id version issuer created from until tenant =
     (if principal_type issuer = AGENT then Inl (PolicyBundleE PolicyBundleIssuerNotAuthorizedError)
      else let b = \<lparr>pb_schema_version = CURRENT_SCHEMA_VERSION, pb_bundle_id = bundle_id, pb_bundle_version = version,
                    pb_policy_type = POLICY_TYPE_INTELLIGENCE, pb_payload = intelligence_policy_dict tx p, pb_issuer = issuer,
                    pb_tenant_id = tenant, pb_created_at = created, pb_effective_from = from, pb_effective_until = until\<rparr>
           in thenR (bundle_validate b) (Inr b))"

section \<open>Reading a policy out of a bundle\<close>

definition require_key :: "(string \<times> json) list \<Rightarrow> string \<Rightarrow> json res" where
  "require_key payload k = (case map_of payload k of None \<Rightarrow> Inl ValueError | Some v \<Rightarrow> Inr v)"

definition as_str :: "(string \<times> json) list \<Rightarrow> string \<Rightarrow> string res" where
  "as_str payload k = bindR (require_key payload k) (\<lambda>v. case v of JStr s \<Rightarrow> Inr s | _ \<Rightarrow> Inl ValueError)"

definition as_int :: "(string \<times> json) list \<Rightarrow> string \<Rightarrow> int res" where
  "as_int payload k = bindR (require_key payload k) (\<lambda>v. case v of JInt i \<Rightarrow> Inr i | _ \<Rightarrow> Inl ValueError)"

fun mapR :: "('a \<Rightarrow> 'b res) \<Rightarrow> 'a list \<Rightarrow> 'b list res" where
  "mapR f [] = Inr []"
| "mapR f (x # xs) = bindR (f x) (\<lambda>y. bindR (mapR f xs) (\<lambda>ys. Inr (y # ys)))"

definition as_dict_str_int :: "(string \<times> json) list \<Rightarrow> string \<Rightarrow> (string \<times> int) list res" where
  "as_dict_str_int payload k = bindR (require_key payload k) (\<lambda>v. case v of
      JObj kvs \<Rightarrow> mapR (\<lambda>(k, x). case x of JInt i \<Rightarrow> Inr (k, i) | _ \<Rightarrow> Inl ValueError) kvs
    | _ \<Rightarrow> Inl ValueError)"

definition as_tuple_str :: "(string \<times> json) list \<Rightarrow> string \<Rightarrow> string list res" where
  "as_tuple_str payload k = bindR (require_key payload k) (\<lambda>v. case v of
      JList xs \<Rightarrow> mapR (\<lambda>x. case x of JStr s \<Rightarrow> Inr s | _ \<Rightarrow> Inl ValueError) xs
    | _ \<Rightarrow> Inl ValueError)"

text \<open>Here a boolean passes for an integer, which \<open>as_int\<close> refuses.\<close>

definition int_item :: "json \<Rightarrow> int res" where
  "int_item x = (case x of JInt i \<Rightarrow> Inr i | JBool b \<Rightarrow> Inr (if b then 1 else 0) | _ \<Rightarrow> Inl ValueError)"

definition int3_of :: "json \<Rightarrow> (int \<times> int \<times> int) res" where
  "int3_of v = (case v of
      JList xs \<Rightarrow> bindR (mapR int_item xs) (\<lambda>is. case is of [a, b, c] \<Rightarrow> Inr (a, b, c) | _ \<Rightarrow> Inl ValueError)
    | _ \<Rightarrow> Inl ValueError)"

definition as_int3 :: "(string \<times> json) list \<Rightarrow> string \<Rightarrow> (int \<times> int \<times> int) res" where
  "as_int3 payload k = bindR (require_key payload k) int3_of"

definition as_amount_thresholds :: "(string \<times> json) list \<Rightarrow> string \<Rightarrow> (string \<times> (int \<times> int \<times> int)) list res" where
  "as_amount_thresholds payload k = bindR (require_key payload k) (\<lambda>v. case v of
      JObj kvs \<Rightarrow> mapR (\<lambda>(k, x). bindR (int3_of x) (\<lambda>t. Inr (k, t))) kvs
    | _ \<Rightarrow> Inl ValueError)"

definition policy_from_bundle_payload :: "text_ops \<Rightarrow> (string \<times> json) list \<Rightarrow> intelligence_policy res" where
  "policy_from_bundle_payload tx payload =
     bindR (as_str payload ''policy_id'') (\<lambda>pid.
     bindR (as_str payload ''policy_version'') (\<lambda>ver.
     bindR (as_dict_str_int payload ''risk_base_points'') (\<lambda>risk.
     bindR (as_dict_str_int payload ''blast_radius_points'') (\<lambda>blast.
     bindR (as_dict_str_int payload ''reversibility_points'') (\<lambda>rev.
     bindR (as_amount_thresholds payload ''amount_thresholds'') (\<lambda>amounts.
     bindR (as_int3 payload ''default_amount_thresholds'') (\<lambda>default_amounts.
     bindR (as_int payload ''max_recommended_ttl_seconds'') (\<lambda>ttl.
     bindR (as_tuple_str payload ''sensitive_target_patterns'') (\<lambda>patterns.
     bindR (as_tuple_str payload ''restricted_effect_types'') (\<lambda>restricted.
     bindR (as_int payload ''max_delegation_depth'') (\<lambda>depth.
     bindR (as_str payload ''max_acceptable_failure_rate'') (\<lambda>rate_text.
     bindR (case tx_float_parse tx rate_text of None \<Rightarrow> Inl ValueError | Some r \<Rightarrow> Inr r) (\<lambda>rate.
     bindR (as_int payload ''block_threshold'') (\<lambda>block.
     bindR (as_int payload ''review_threshold'') (\<lambda>review.
     bindR (as_int3 payload ''risk_level_thresholds'') (\<lambda>levels.
     bindR (as_int payload ''max_required_human_approvals'') (\<lambda>humans.
     bindR (as_int payload ''cooling_off_high_seconds'') (\<lambda>high.
     bindR (as_int payload ''cooling_off_critical_seconds'') (\<lambda>critical.
       let p = \<lparr>ip_policy_id = pid, ip_policy_version = ver, ip_risk_base_points = risk, ip_blast_radius_points = blast,
                ip_reversibility_points = rev, ip_amount_thresholds = amounts, ip_default_amount_thresholds = default_amounts,
                ip_max_recommended_ttl_seconds = ttl, ip_sensitive_target_patterns = patterns,
                ip_restricted_effect_types = restricted, ip_max_delegation_depth = depth,
                ip_max_acceptable_failure_rate = rate, ip_block_threshold = block, ip_review_threshold = review,
                ip_risk_level_thresholds = levels, ip_max_required_human_approvals = humans,
                ip_cooling_off_high_seconds = high, ip_cooling_off_critical_seconds = critical\<rparr>
       in thenR (intelligence_policy_validate p) (Inr p))))))))))))))))))))"

section \<open>Signals\<close>

datatype risk_level = LEVEL_LOW | LEVEL_MEDIUM | LEVEL_HIGH | LEVEL_CRITICAL

primrec risk_level_value :: "risk_level \<Rightarrow> string" where
  "risk_level_value LEVEL_LOW = ''low''"
| "risk_level_value LEVEL_MEDIUM = ''medium''"
| "risk_level_value LEVEL_HIGH = ''high''"
| "risk_level_value LEVEL_CRITICAL = ''critical''"

datatype recommendation = ALLOW | REVIEW | BLOCK

primrec recommendation_value :: "recommendation \<Rightarrow> string" where
  "recommendation_value ALLOW = ''allow''"
| "recommendation_value REVIEW = ''review''"
| "recommendation_value BLOCK = ''block''"

datatype verification_strength = STANDARD | STRONG | INDEPENDENT

primrec verification_strength_value :: "verification_strength \<Rightarrow> string" where
  "verification_strength_value STANDARD = ''standard''"
| "verification_strength_value STRONG = ''strong''"
| "verification_strength_value INDEPENDENT = ''independent''"

text \<open>Levels and recommendations in the order of their severity.\<close>

instantiation risk_level :: linorder
begin

definition less_eq_risk_level :: "risk_level \<Rightarrow> risk_level \<Rightarrow> bool" where
  "less_eq_risk_level x y \<longleftrightarrow> x = y \<or> x = LEVEL_LOW \<or> y = LEVEL_CRITICAL \<or> x = LEVEL_MEDIUM \<and> y = LEVEL_HIGH"

definition less_risk_level :: "risk_level \<Rightarrow> risk_level \<Rightarrow> bool" where
  "less_risk_level x y \<longleftrightarrow> x \<le> y \<and> x \<noteq> y"

instance
proof
  fix x y z :: risk_level
  show "x < y \<longleftrightarrow> x \<le> y \<and> \<not> y \<le> x" "x \<le> x" "x \<le> y \<or> y \<le> x" "x \<le> y \<Longrightarrow> y \<le> x \<Longrightarrow> x = y"
    by (cases x; cases y; simp add: less_risk_level_def less_eq_risk_level_def)+
  show "x \<le> y \<Longrightarrow> y \<le> z \<Longrightarrow> x \<le> z"
    by (cases x; cases y; cases z; simp add: less_eq_risk_level_def)
qed

end

instantiation recommendation :: linorder
begin

definition less_eq_recommendation :: "recommendation \<Rightarrow> recommendation \<Rightarrow> bool" where
  "less_eq_recommendation x y \<longleftrightarrow> x = y \<or> x = ALLOW \<or> y = BLOCK"

definition less_recommendation :: "recommendation \<Rightarrow> recommendation \<Rightarrow> bool" where
  "less_recommendation x y \<longleftrightarrow> x \<le> y \<and> x \<noteq> y"

instance
proof
  fix x y z :: recommendation
  show "x < y \<longleftrightarrow> x \<le> y \<and> \<not> y \<le> x" "x \<le> x" "x \<le> y \<or> y \<le> x" "x \<le> y \<Longrightarrow> y \<le> x \<Longrightarrow> x = y"
    by (cases x; cases y; simp add: less_recommendation_def less_eq_recommendation_def)+
  show "x \<le> y \<Longrightarrow> y \<le> z \<Longrightarrow> x \<le> z"
    by (cases x; cases y; cases z; simp add: less_eq_recommendation_def)
qed

end

record risk_signal =
  sg_name :: string
  sg_weight :: int
  sg_detail :: string

definition risk_signal_validate :: "risk_signal \<Rightarrow> unit res" where
  "risk_signal_validate s = allR
     [id_length_check (sg_name s),
      raise_if (sg_weight s < 0 \<or> sg_weight s > 100) ValueError,
      raise_if (length (sg_detail s) > 512) ValueError]"

record score_builder =
  sb_signals :: "risk_signal list"
  sb_score :: int
  sb_forced_block_reasons :: "string list"

definition empty_builder :: score_builder where
  "empty_builder = \<lparr>sb_signals = [], sb_score = 0, sb_forced_block_reasons = []\<rparr>"

definition add_signal :: "string \<Rightarrow> int \<Rightarrow> string \<Rightarrow> score_builder \<Rightarrow> score_builder res" where
  "add_signal name w detail b =
     (let s = \<lparr>sg_name = name, sg_weight = w, sg_detail = detail\<rparr>
      in thenR (risk_signal_validate s) (Inr (b\<lparr>sb_signals := sb_signals b @ [s], sb_score := sb_score b + w\<rparr>)))"

definition force_block :: "string \<Rightarrow> string \<Rightarrow> score_builder \<Rightarrow> score_builder res" where
  "force_block name detail b =
     (let s = \<lparr>sg_name = name, sg_weight = 0, sg_detail = detail\<rparr>
      in thenR (risk_signal_validate s)
           (Inr (b\<lparr>sb_signals := sb_signals b @ [s], sb_forced_block_reasons := sb_forced_block_reasons b @ [name]\<rparr>)))"

definition signal_names :: "score_builder \<Rightarrow> string set" where
  "signal_names b = set (map sg_name (sb_signals b))"

text \<open>The methods that score are run one after the other on the builder.\<close>

fun chainR :: "('a \<Rightarrow> 'a res) list \<Rightarrow> 'a \<Rightarrow> 'a res" where
  "chainR [] b = Inr b"
| "chainR (f # fs) b = bindR (f b) (chainR fs)"

definition when_signal :: "bool \<Rightarrow> (score_builder \<Rightarrow> score_builder res) \<Rightarrow> score_builder \<Rightarrow> score_builder res" where
  "when_signal c f b = (if c then f b else Inr b)"

definition points :: "(string \<times> int) list \<Rightarrow> string \<Rightarrow> int" where
  "points d k = (case map_of d k of None \<Rightarrow> 0 | Some v \<Rightarrow> v)"

definition high_risk :: "effect_manifest \<Rightarrow> bool" where
  "high_risk m \<longleftrightarrow> m_risk m = HIGH \<or> m_risk m = CRITICAL"

definition score_declared_classification :: "effect_manifest \<Rightarrow> intelligence_policy \<Rightarrow> score_builder \<Rightarrow> score_builder res" where
  "score_declared_classification m p = chainR
     [add_signal ''declared_risk_classification'' (points (ip_risk_base_points p) (risk_value (m_risk m)))
        (''manifest.risk='' @ risk_value (m_risk m)),
      add_signal ''declared_blast_radius'' (points (ip_blast_radius_points p) (blast_radius_value (m_blast_radius m)))
        (''manifest.blast_radius='' @ blast_radius_value (m_blast_radius m)),
      add_signal ''declared_reversibility'' (points (ip_reversibility_points p) (reversibility_value (m_reversibility m)))
        (''manifest.reversibility='' @ reversibility_value (m_reversibility m))]"

definition int3_str :: "int \<times> int \<times> int \<Rightarrow> string" where
  "int3_str t = (case t of (a, b, c) \<Rightarrow> ''('' @ join '', '' [int_str a, int_str b, int_str c] @ '')'')"

definition amount_tier :: "int \<times> int \<times> int \<Rightarrow> int \<Rightarrow> int" where
  "amount_tier t units = (case t of (low, mid, high) \<Rightarrow>
     if units < low then 0 else if units < mid then 10 else if units < high then 20 else 35)"

definition thresholds_for :: "intelligence_policy \<Rightarrow> string \<Rightarrow> int \<times> int \<times> int" where
  "thresholds_for p cur = (case map_of (ip_amount_thresholds p) cur of None \<Rightarrow> ip_default_amount_thresholds p | Some t \<Rightarrow> t)"

definition score_monetary_exposure :: "effect_manifest \<Rightarrow> intelligence_policy \<Rightarrow> score_builder \<Rightarrow> score_builder res" where
  "score_monetary_exposure m p = (case m_estimated_cost m of
      None \<Rightarrow> when_signal (high_risk m) (add_signal ''high_risk_without_cost_estimate'' 8
                ''manifest declares high/critical risk but no estimated_cost'')
    | Some cost \<Rightarrow> (let t = thresholds_for p (currency cost) in chainR
        [add_signal ''monetary_exposure_tier'' (amount_tier t (minor_units cost))
           (''estimated_cost='' @ monetary_str cost @ '' thresholds(low,mid,high)='' @ int3_str t),
         when_signal (map_of (ip_amount_thresholds p) (currency cost) = None)
           (add_signal ''unclassified_currency_uses_default_thresholds'' 5
             (''no policy thresholds configured for currency '' @ repr_str (currency cost)))]))"

definition score_state_and_preconditions :: "effect_manifest \<Rightarrow> score_builder \<Rightarrow> score_builder res" where
  "score_state_and_preconditions m = chainR
     [when_signal (m_state_fingerprint m = None \<and> m_reversibility m \<noteq> REVERSIBLE)
        (add_signal ''no_state_fingerprint_for_non_reversible_effect'' 10
          ''manifest has no state_fingerprint and is not classified reversible''),
      when_signal (m_preconditions m = [] \<and> high_risk m)
        (add_signal ''no_preconditions_declared_for_high_risk_effect'' 10
          (''manifest.risk='' @ risk_value (m_risk m) @ '' but preconditions is empty''))]"

text \<open>\<^verbatim>\<open>int(...total_seconds())\<close> truncates towards zero.\<close>

definition whole_seconds :: "time \<Rightarrow> int" where
  "whole_seconds d = (if 0 \<le> d then d div second else - ((- d) div second))"

definition score_manifest_lifetime :: "effect_manifest \<Rightarrow> intelligence_policy \<Rightarrow> score_builder \<Rightarrow> score_builder res" where
  "score_manifest_lifetime m p =
     (let ttl = whole_seconds (m_expires_at m - m_created_at m) in
      when_signal (ttl > ip_max_recommended_ttl_seconds p)
        (add_signal ''manifest_lifetime_exceeds_recommended_window'' 8
          (''ttl_seconds='' @ int_str ttl @ '' > policy max '' @ int_str (ip_max_recommended_ttl_seconds p))))"

definition score_pattern :: "text_ops \<Rightarrow> effect_manifest \<Rightarrow> string \<Rightarrow> score_builder \<Rightarrow> score_builder res" where
  "score_pattern tx m pattern = (case tx_search tx pattern (m_target_resource m) of
      None \<Rightarrow> force_block ''sensitive_target_pattern_malformed''
                (''policy pattern '' @ repr_str pattern @ '' is not a valid regex'')
    | Some matched \<Rightarrow> when_signal matched (add_signal ''sensitive_target_pattern_matched'' 15
                (''target_resource='' @ repr_str (m_target_resource m) @ '' matched pattern '' @ repr_str pattern)))"

definition score_target_sensitivity :: "text_ops \<Rightarrow> effect_manifest \<Rightarrow> intelligence_policy \<Rightarrow> score_builder \<Rightarrow> score_builder res" where
  "score_target_sensitivity tx m p = chainR (map (score_pattern tx m) (ip_sensitive_target_patterns p))"

definition score_restricted_effect_type :: "effect_manifest \<Rightarrow> intelligence_policy \<Rightarrow> score_builder \<Rightarrow> score_builder res" where
  "score_restricted_effect_type m p =
     when_signal (m_effect_type m \<in> set (ip_restricted_effect_types p))
       (force_block ''effect_type_restricted_by_policy''
         (''effect_type '' @ repr_str (m_effect_type m) @ '' is on policy '' @ repr_str (ip_policy_id p) @ [CHR 0x27] @ ''s restricted list''))"

definition score_delegation_depth :: "intelligence_policy \<Rightarrow> assessment_facts \<Rightarrow> score_builder \<Rightarrow> score_builder res" where
  "score_delegation_depth p f =
     (if af_delegation_depth f > ip_max_delegation_depth p
      then force_block ''delegation_depth_exceeds_policy_ceiling''
             (''depth='' @ int_str (af_delegation_depth f) @ '' > ceiling='' @ int_str (ip_max_delegation_depth p))
      else when_signal (af_delegation_depth f = ip_max_delegation_depth p)
             (add_signal ''delegation_depth_at_ceiling'' 20
               (''depth='' @ int_str (af_delegation_depth f) @ '' == ceiling='' @ int_str (ip_max_delegation_depth p))))"

definition failure_rate :: "assessment_facts \<Rightarrow> rat" where
  "failure_rate f = float_div (af_failure_count f) (af_recurrence_count f)"

definition score_historical_recurrence :: "text_ops \<Rightarrow> intelligence_policy \<Rightarrow> assessment_facts \<Rightarrow> score_builder \<Rightarrow> score_builder res" where
  "score_historical_recurrence tx p f =
     (if af_recurrence_count f = 0
      then add_signal ''novel_effect_pattern_no_history'' 6 ''no prior instances of this actor+effect_type found''
      else when_signal (failure_rate f > ip_max_acceptable_failure_rate p)
        (add_signal ''elevated_historical_failure_rate'' 25
          (''failure_rate='' @ tx_fixed2 tx (failure_rate f) @ '' > policy max '' @ tx_float_repr tx (ip_max_acceptable_failure_rate p))))"

definition score_idempotency :: "effect_manifest \<Rightarrow> assessment_facts \<Rightarrow> score_builder \<Rightarrow> score_builder res" where
  "score_idempotency m f = (case af_provider_idempotent f of
      None \<Rightarrow> add_signal ''provider_idempotency_unknown'' 8 ''adapter/provider idempotency capability was not declared''
    | Some ok \<Rightarrow> when_signal (\<not> ok \<and> high_risk m) (add_signal ''non_idempotent_provider_high_risk'' 12
        ''provider does not guarantee idempotent execution for a high/critical-risk effect''))"

definition score_compensation :: "effect_manifest \<Rightarrow> assessment_facts \<Rightarrow> score_builder \<Rightarrow> score_builder res" where
  "score_compensation m f = (case af_compensation_feasible f of
      None \<Rightarrow> when_signal (m_reversibility m \<noteq> REVERSIBLE) (add_signal ''compensation_feasibility_unknown'' 8
        ''compensation feasibility was not declared for a non-reversible effect'')
    | Some True \<Rightarrow> Inr
    | Some False \<Rightarrow>
        (if m_reversibility m = COMPENSATABLE
         then force_block ''compensation_feasibility_contradicts_manifest_reversibility''
           ''manifest declares reversibility=compensatable but facts assert compensation is not feasible''
         else when_signal (m_reversibility m = IRREVERSIBLE \<and> m_risk m \<noteq> LOW)
           (add_signal ''irreversible_and_not_compensatable'' 15
             ''effect is irreversible and compensation is confirmed infeasible'')))"

definition score_provider_capabilities :: "effect_manifest \<Rightarrow> assessment_facts \<Rightarrow> score_builder \<Rightarrow> score_builder res" where
  "score_provider_capabilities m f = chainR [score_idempotency m f, score_compensation m f]"

definition score_cross_tenant :: "assessment_facts \<Rightarrow> score_builder \<Rightarrow> score_builder res" where
  "score_cross_tenant f = when_signal (af_cross_tenant f) (add_signal ''cross_tenant_effect'' 20
     ''effect crosses tenant boundaries (advisory only: multi-tenant enforcement is not implemented in this protocol version)'')"

definition score_unusual_parameter_change :: "assessment_facts \<Rightarrow> score_builder \<Rightarrow> score_builder res" where
  "score_unusual_parameter_change f = when_signal (af_unusual_parameter_change f)
     (add_signal ''unusual_parameter_change_detected'' 12
       (''caller flagged this manifest'' @ [CHR 0x27] @ ''s parameters as an unusual change vs. history''))"

definition score_external_policy_violations :: "assessment_facts \<Rightarrow> score_builder \<Rightarrow> score_builder res" where
  "score_external_policy_violations f =
     chainR (map (\<lambda>v. force_block (''external_policy_violation:'' @ v) v) (af_policy_violations f))"

definition scoring_methods :: "text_ops \<Rightarrow> effect_manifest \<Rightarrow> intelligence_policy \<Rightarrow> assessment_facts
    \<Rightarrow> (score_builder \<Rightarrow> score_builder res) list" where
  "scoring_methods tx m p f =
     [score_declared_classification m p, score_monetary_exposure m p, score_state_and_preconditions m,
      score_manifest_lifetime m p, score_target_sensitivity tx m p, score_restricted_effect_type m p,
      score_delegation_depth p f, score_historical_recurrence tx p f, score_provider_capabilities m f,
      score_cross_tenant f, score_unusual_parameter_change f, score_external_policy_violations f]"

section \<open>The assessment\<close>

record effect_assessment =
  as_assessment_id :: string
  as_manifest_id :: string
  as_manifest_hash :: string
  as_policy_id :: string
  as_policy_version :: string
  as_policy_hash :: string
  as_score :: int
  as_risk_level :: risk_level
  as_signals :: "risk_signal list"
  as_recommendation :: recommendation
  as_required_human_approvals :: int
  as_required_service_approvals :: int
  as_cooling_off_period_seconds :: int
  as_required_witness_quorum :: int
  as_required_verification_strength :: verification_strength
  as_explanation :: string
  as_assessed_at :: time

definition assessment_validate :: "effect_assessment \<Rightarrow> unit res" where
  "assessment_validate a = allR
     ([raise_if (\<not> (0 \<le> as_score a \<and> as_score a \<le> 100)) ValueError]
      @ map (\<lambda>v. raise_if (v = [] \<or> length v > 512) ValueError)
          [as_assessment_id a, as_manifest_id a, as_manifest_hash a, as_policy_id a, as_policy_version a, as_policy_hash a]
      @ map (\<lambda>v. raise_if (v < 0) ValueError)
          [as_required_human_approvals a, as_required_service_approvals a, as_cooling_off_period_seconds a,
           as_required_witness_quorum a])"

primrec BASE_HUMAN_APPROVALS :: "risk_level \<Rightarrow> int" where
  "BASE_HUMAN_APPROVALS LEVEL_LOW = 0"
| "BASE_HUMAN_APPROVALS LEVEL_MEDIUM = 1"
| "BASE_HUMAN_APPROVALS LEVEL_HIGH = 2"
| "BASE_HUMAN_APPROVALS LEVEL_CRITICAL = 3"

primrec WITNESS_QUORUM :: "risk_level \<Rightarrow> int" where
  "WITNESS_QUORUM LEVEL_LOW = 1"
| "WITNESS_QUORUM LEVEL_MEDIUM = 1"
| "WITNESS_QUORUM LEVEL_HIGH = 2"
| "WITNESS_QUORUM LEVEL_CRITICAL = 3"

primrec VERIFICATION_STRENGTH :: "risk_level \<Rightarrow> verification_strength" where
  "VERIFICATION_STRENGTH LEVEL_LOW = STANDARD"
| "VERIFICATION_STRENGTH LEVEL_MEDIUM = STANDARD"
| "VERIFICATION_STRENGTH LEVEL_HIGH = STRONG"
| "VERIFICATION_STRENGTH LEVEL_CRITICAL = INDEPENDENT"

definition risk_level_of :: "int \<Rightarrow> intelligence_policy \<Rightarrow> risk_level" where
  "risk_level_of score p = (case ip_risk_level_thresholds p of (lo, mid, hi) \<Rightarrow>
     if score < lo then LEVEL_LOW else if score < mid then LEVEL_MEDIUM else if score < hi then LEVEL_HIGH else LEVEL_CRITICAL)"

definition recommendation_of :: "int \<Rightarrow> bool \<Rightarrow> intelligence_policy \<Rightarrow> recommendation" where
  "recommendation_of score forced p =
     (if forced \<or> score \<ge> ip_block_threshold p then BLOCK
      else if score \<ge> ip_review_threshold p then REVIEW
      else ALLOW)"

definition required_approvals :: "risk_level \<Rightarrow> string set \<Rightarrow> intelligence_policy \<Rightarrow> int \<times> int" where
  "required_approvals level names p =
     (let a = BASE_HUMAN_APPROVALS level
              + (if ''cross_tenant_effect'' \<in> names then 1 else 0)
              + (if ''irreversible_and_not_compensatable'' \<in> names then 1 else 0)
      in (min a (ip_max_required_human_approvals p), if ''non_idempotent_provider_high_risk'' \<in> names then 1 else 0))"

definition cooling_off_seconds :: "risk_level \<Rightarrow> intelligence_policy \<Rightarrow> int" where
  "cooling_off_seconds level p = (case level of
      LEVEL_LOW \<Rightarrow> 0 | LEVEL_MEDIUM \<Rightarrow> 0
    | LEVEL_HIGH \<Rightarrow> ip_cooling_off_high_seconds p | LEVEL_CRITICAL \<Rightarrow> ip_cooling_off_critical_seconds p)"

definition verification_strength_of :: "effect_manifest \<Rightarrow> assessment_facts \<Rightarrow> risk_level \<Rightarrow> verification_strength" where
  "verification_strength_of m f level =
     (if af_provider_idempotent f = Some False \<and> m_reversibility m = IRREVERSIBLE then INDEPENDENT else VERIFICATION_STRENGTH level)"

definition explanation_of :: "int \<Rightarrow> risk_level \<Rightarrow> recommendation \<Rightarrow> score_builder \<Rightarrow> string" where
  "explanation_of score level rec b =
     (let contributing = filter (\<lambda>s. sg_weight s > 0) (sb_signals b) in
      join '' '' (
        [''score='' @ int_str score @ ''/100 risk_level='' @ risk_level_value level
           @ '' recommendation='' @ recommendation_value rec @ ''.'']
        @ (if contributing = [] then [] else
            [''Contributing signals: '' @ join ''; '' (map (\<lambda>s. sg_name s @ ''(+'' @ int_str (sg_weight s) @ '')'') contributing) @ ''.''])
        @ (if sb_forced_block_reasons b = [] then [] else
            [''Forced BLOCK: '' @ join ''; '' (sb_forced_block_reasons b) @ ''.''])))"

definition assess_effect :: "text_ops \<Rightarrow> crypto \<Rightarrow> intelligence_policy \<Rightarrow> effect_manifest \<Rightarrow> assessment_facts \<Rightarrow> string \<Rightarrow> time
    \<Rightarrow> effect_assessment res" where
  "assess_effect tx cr p m f new_id now =
     bindR (chainR (scoring_methods tx m p f) empty_builder) (\<lambda>b.
       let score = min (sb_score b) 100;
           level = risk_level_of score p;
           rec = recommendation_of score (sb_forced_block_reasons b \<noteq> []) p;
           (humans, services) = required_approvals level (signal_names b) p;
           a = \<lparr>as_assessment_id = new_id, as_manifest_id = m_manifest_id m, as_manifest_hash = manifest_hash cr m,
                as_policy_id = ip_policy_id p, as_policy_version = ip_policy_version p,
                as_policy_hash = intelligence_policy_hash tx cr p, as_score = score, as_risk_level = level,
                as_signals = sb_signals b, as_recommendation = rec, as_required_human_approvals = humans,
                as_required_service_approvals = services, as_cooling_off_period_seconds = cooling_off_seconds level p,
                as_required_witness_quorum = WITNESS_QUORUM level,
                as_required_verification_strength = verification_strength_of m f level,
                as_explanation = explanation_of score level rec b, as_assessed_at = now\<rparr>
       in thenR (assessment_validate a) (Inr a))"

definition deterministic_payload :: "effect_assessment \<Rightarrow> json" where
  "deterministic_payload a = JObj
     [(''manifest_id'', JStr (as_manifest_id a)),
      (''manifest_hash'', JStr (as_manifest_hash a)),
      (''policy_id'', JStr (as_policy_id a)),
      (''policy_version'', JStr (as_policy_version a)),
      (''policy_hash'', JStr (as_policy_hash a)),
      (''score'', JInt (as_score a)),
      (''risk_level'', JStr (risk_level_value (as_risk_level a))),
      (''signals'', JList (map (\<lambda>s. JObj [(''name'', JStr (sg_name s)), (''weight'', JInt (sg_weight s)),
                                           (''detail'', JStr (sg_detail s))]) (as_signals a))),
      (''recommendation'', JStr (recommendation_value (as_recommendation a))),
      (''required_human_approvals'', JInt (as_required_human_approvals a)),
      (''required_service_approvals'', JInt (as_required_service_approvals a)),
      (''cooling_off_period_seconds'', JInt (as_cooling_off_period_seconds a)),
      (''required_witness_quorum'', JInt (as_required_witness_quorum a)),
      (''required_verification_strength'', JStr (verification_strength_value (as_required_verification_strength a))),
      (''explanation'', JStr (as_explanation a))]"

definition deterministic_hash :: "crypto \<Rightarrow> effect_assessment \<Rightarrow> string" where
  "deterministic_hash cr a = canonical_hash (cr_sha256 cr) (deterministic_payload a)"

section \<open>What the scoring methods emit\<close>

text \<open>A method that succeeds appends signals and reasons that do not depend on the builder it is given.\<close>

definition emits :: "(score_builder \<Rightarrow> score_builder res) \<Rightarrow> risk_signal list \<Rightarrow> string list \<Rightarrow> bool" where
  "emits f ss rs \<longleftrightarrow> (\<forall>b b'. f b = Inr b' \<longrightarrow>
     b' = \<lparr>sb_signals = sb_signals b @ ss, sb_score = sb_score b + sum_list (map sg_weight ss),
           sb_forced_block_reasons = sb_forced_block_reasons b @ rs\<rparr>
     \<and> (\<forall>s \<in> set ss. 0 \<le> sg_weight s))"

named_theorems emit_intros "what a scoring method emits"

lemma emits_add [emit_intros]:
  "emits (add_signal n w d) [\<lparr>sg_name = n, sg_weight = w, sg_detail = d\<rparr>] []"
  by (auto simp: emits_def add_signal_def Let_def risk_signal_validate_def result_simps)

lemma emits_force [emit_intros]:
  "emits (force_block n d) [\<lparr>sg_name = n, sg_weight = 0, sg_detail = d\<rparr>] [n]"
  by (auto simp: emits_def force_block_def Let_def result_simps)

lemma emits_Inr [emit_intros]: "emits Inr [] []"
  by (auto simp: emits_def)

lemma emits_when [emit_intros]:
  "emits f ss rs \<Longrightarrow> emits (when_signal c f) (if c then ss else []) (if c then rs else [])"
  by (auto simp: emits_def when_signal_def)

lemma emits_if [emit_intros]:
  "emits f ss rs \<Longrightarrow> emits g ss' rs' \<Longrightarrow> emits (if c then f else g) (if c then ss else ss') (if c then rs else rs')"
  by simp

lemma emits_nil [emit_intros]: "emits (chainR []) [] []"
  by (auto simp: emits_def)

lemma emits_cons [emit_intros]:
  assumes "emits f ss rs" "emits (chainR fs) ss' rs'"
  shows "emits (chainR (f # fs)) (ss @ ss') (rs @ rs')"
  using assms by (fastforce simp: emits_def result_simps)

lemma emits_map [emit_intros]:
  "(\<And>x. emits (g x) (S x) (R x)) \<Longrightarrow> emits (chainR (map g xs)) (concat (map S xs)) (concat (map R xs))"
  by (induction xs) (auto intro!: emit_intros)

lemma emits_append:
  assumes "emits (chainR fs) ss rs" "emits (chainR gs) ss' rs'"
  shows "emits (chainR (fs @ gs)) (ss @ ss') (rs @ rs')"
proof -
  have "chainR (fs @ gs) b = bindR (chainR fs b) (chainR gs)" for b
    by (induction fs arbitrary: b) (simp_all, metis bindR.simps sum.exhaust)
  then show ?thesis
    using assms by (fastforce simp: emits_def result_simps)
qed

text \<open>For the reasons to block, the signals do not matter.\<close>

definition blames :: "(score_builder \<Rightarrow> score_builder res) \<Rightarrow> string list \<Rightarrow> bool" where
  "blames f rs \<longleftrightarrow> (\<exists>ss. emits f ss rs)"

named_theorems blame_intros "what a scoring method blames"

lemma blames_simple [blame_intros]:
  "blames (add_signal n w d) []" "blames (force_block n d) [n]" "blames Inr []" "blames (chainR []) []"
  unfolding blames_def by (blast intro: emit_intros)+

lemma blames_when [blame_intros]: "blames f [] \<Longrightarrow> blames (when_signal c f) []"
  unfolding blames_def using emits_when [of f _ "[]" c] by force

lemma blames_when_forced: "blames f rs \<Longrightarrow> blames (when_signal c f) (if c then rs else [])"
  unfolding blames_def by (blast intro: emits_when)

lemma blames_cons [blame_intros]: "blames f [] \<Longrightarrow> blames (chainR fs) rs \<Longrightarrow> blames (chainR (f # fs)) rs"
  unfolding blames_def using emits_cons [of f _ "[]"] by fastforce

lemma blames_append: "blames f rs \<Longrightarrow> blames (chainR fs) rs' \<Longrightarrow> blames (chainR (f # fs)) (rs @ rs')"
  unfolding blames_def using emits_cons by blast

lemma blames_map:
  assumes "\<And>x. blames (g x) (R x)"
  shows "blames (chainR (map g xs)) (concat (map R xs))"
  by (induction xs) (simp_all only: list.map concat.simps blames_simple blames_append [OF assms])

lemma blames_quiet_methods [blame_intros]:
  "blames (score_declared_classification m p) []" "blames (score_monetary_exposure m p) []"
  "blames (score_state_and_preconditions m) []" "blames (score_manifest_lifetime m p) []"
  "blames (score_historical_recurrence tx p f) []" "blames (score_idempotency m f) []"
  "blames (score_cross_tenant f) []" "blames (score_unusual_parameter_change f) []"
  unfolding score_declared_classification_def score_monetary_exposure_def score_state_and_preconditions_def
    score_manifest_lifetime_def score_historical_recurrence_def score_idempotency_def score_cross_tenant_def
    score_unusual_parameter_change_def Let_def
  by (auto intro!: blame_intros split: option.splits)

definition malformed_patterns :: "text_ops \<Rightarrow> effect_manifest \<Rightarrow> intelligence_policy \<Rightarrow> string list" where
  "malformed_patterns tx m p = filter (\<lambda>pat. tx_search tx pat (m_target_resource m) = None) (ip_sensitive_target_patterns p)"

lemma blames_patterns:
  "blames (score_target_sensitivity tx m p) (map (\<lambda>_. ''sensitive_target_pattern_malformed'') (malformed_patterns tx m p))"
proof -
  have "blames (score_pattern tx m pat)
      (if tx_search tx pat (m_target_resource m) = None then [''sensitive_target_pattern_malformed''] else [])" for pat
    unfolding score_pattern_def by (auto intro!: blame_intros split: option.splits)
  then have b: "blames (score_target_sensitivity tx m p) (concat (map (\<lambda>pat.
      if tx_search tx pat (m_target_resource m) = None then [''sensitive_target_pattern_malformed''] else [])
        (ip_sensitive_target_patterns p)))"
    unfolding score_target_sensitivity_def by (rule blames_map)
  have "concat (map (\<lambda>pat. if tx_search tx pat (m_target_resource m) = None then [''sensitive_target_pattern_malformed''] else []) ps)
      = map (\<lambda>_. ''sensitive_target_pattern_malformed'') (filter (\<lambda>pat. tx_search tx pat (m_target_resource m) = None) ps)" for ps
    by (induction ps) auto
  with b show ?thesis by (simp add: malformed_patterns_def)
qed

lemma blames_violations:
  "blames (score_external_policy_violations f) (map (\<lambda>v. ''external_policy_violation:'' @ v) (af_policy_violations f))"
  unfolding score_external_policy_violations_def
  using blames_map [where g = "\<lambda>v. force_block (''external_policy_violation:'' @ v) v"
    and R = "\<lambda>v. [''external_policy_violation:'' @ v]" and xs = "af_policy_violations f"] blames_simple(2)
  by (simp only: concat_map_singleton)

text \<open>What forces a block, read off the inputs.\<close>

definition must_block :: "text_ops \<Rightarrow> effect_manifest \<Rightarrow> intelligence_policy \<Rightarrow> assessment_facts \<Rightarrow> bool" where
  "must_block tx m p f \<longleftrightarrow>
     malformed_patterns tx m p \<noteq> [] \<or> m_effect_type m \<in> set (ip_restricted_effect_types p)
     \<or> af_delegation_depth f > ip_max_delegation_depth p
     \<or> af_compensation_feasible f = Some False \<and> m_reversibility m = COMPENSATABLE \<or> af_policy_violations f \<noteq> []"

lemma methods_blame: "\<exists>rs. blames (chainR (scoring_methods tx m p f)) rs \<and> (rs \<noteq> [] \<longleftrightarrow> must_block tx m p f)"
proof -
  let ?r = "if m_effect_type m \<in> set (ip_restricted_effect_types p) then [''effect_type_restricted_by_policy''] else []"
  let ?d = "if af_delegation_depth f > ip_max_delegation_depth p then [''delegation_depth_exceeds_policy_ceiling''] else []"
  let ?c = "if af_compensation_feasible f = Some False \<and> m_reversibility m = COMPENSATABLE
    then [''compensation_feasibility_contradicts_manifest_reversibility''] else []"
  let ?v = "map (\<lambda>v. ''external_policy_violation:'' @ v) (af_policy_violations f)"
  have r: "blames (score_restricted_effect_type m p) ?r"
    unfolding score_restricted_effect_type_def by (rule blames_when_forced) (rule blames_simple)
  have d: "blames (score_delegation_depth p f) ?d"
    unfolding score_delegation_depth_def by (auto intro!: blame_intros)
  have "blames (score_compensation m f) ?c"
    unfolding score_compensation_def by (auto intro!: blame_intros split: option.splits bool.splits)
  then have c: "blames (score_provider_capabilities m f) ?c"
    unfolding score_provider_capabilities_def
    using blames_cons [OF blames_quiet_methods(6) blames_append [OF _ blames_simple(4)]] by simp
  let ?rs = "map (\<lambda>_. ''sensitive_target_pattern_malformed'') (malformed_patterns tx m p) @ ?r @ ?d @ ?c @ ?v @ []"
  have "blames (chainR (scoring_methods tx m p f)) ?rs"
    unfolding scoring_methods_def
    by (intro blames_cons [OF blames_quiet_methods(1)] blames_cons [OF blames_quiet_methods(2)] blames_cons [OF blames_quiet_methods(3)]
        blames_cons [OF blames_quiet_methods(4)] blames_append [OF blames_patterns] blames_append [OF r] blames_append [OF d]
        blames_cons [OF blames_quiet_methods(5)] blames_append [OF c] blames_cons [OF blames_quiet_methods(7)]
        blames_cons [OF blames_quiet_methods(8)] blames_append [OF blames_violations] blames_simple)
  moreover have "?rs \<noteq> [] \<longleftrightarrow> must_block tx m p f"
    by (auto simp: must_block_def)
  ultimately show ?thesis by blast
qed

lemma emits_unique: "emits f ss rs \<Longrightarrow> blames f rs' \<Longrightarrow> f b = Inr b' \<Longrightarrow> rs' = rs"
  by (force simp: emits_def blames_def)

section \<open>What an assessment says\<close>

text \<open>The builder an assessment is computed from.\<close>

lemma assess_effect_cases:
  assumes "assess_effect tx cr p m f i now = Inr a"
  obtains b where "chainR (scoring_methods tx m p f) empty_builder = Inr b"
    "as_score a = min (sb_score b) 100" "as_risk_level a = risk_level_of (as_score a) p"
    "as_recommendation a = recommendation_of (as_score a) (sb_forced_block_reasons b \<noteq> []) p"
    "as_signals a = sb_signals b" "as_required_human_approvals a = fst (required_approvals (as_risk_level a) (signal_names b) p)"
    "as_required_witness_quorum a = WITNESS_QUORUM (as_risk_level a)"
    "as_cooling_off_period_seconds a = cooling_off_seconds (as_risk_level a) p" "assessment_validate a = Inr ()"
proof -
  obtain b where b: "chainR (scoring_methods tx m p f) empty_builder = Inr b"
    using assms by (auto simp: assess_effect_def result_simps)
  obtain h sv where r: "required_approvals (risk_level_of (min (sb_score b) 100) p) (signal_names b) p = (h, sv)"
    by fastforce
  note a = assms [unfolded assess_effect_def b bindR.simps Let_def r prod.case thenR_Inr_iff sum.inject is_ok_unit]
  show thesis
    by (rule that [OF b]) (use a r in auto)
qed

lemma assess_effect_emits:
  assumes "assess_effect tx cr p m f i now = Inr a" "emits (chainR (scoring_methods tx m p f)) ss rs"
  shows "as_signals a = ss \<and> as_score a = min (sum_list (map sg_weight ss)) 100
    \<and> as_recommendation a = recommendation_of (as_score a) (rs \<noteq> []) p \<and> (\<forall>s \<in> set ss. 0 \<le> sg_weight s)"
proof -
  obtain b where b: "chainR (scoring_methods tx m p f) empty_builder = Inr b"
    "as_score a = min (sb_score b) 100" "as_recommendation a = recommendation_of (as_score a) (sb_forced_block_reasons b \<noteq> []) p"
    "as_signals a = sb_signals b"
    by (rule assess_effect_cases [OF assms(1)]) blast
  have "b = \<lparr>sb_signals = ss, sb_score = sum_list (map sg_weight ss), sb_forced_block_reasons = rs\<rparr> \<and> (\<forall>s \<in> set ss. 0 \<le> sg_weight s)"
    using assms(2) [unfolded emits_def, rule_format, OF b(1)] by (simp add: empty_builder_def)
  then show ?thesis using b by auto
qed

text \<open>C26. An assessment is determined by its signals and by what its inputs force: the score is the sum of
  the signals' weights, capped at 100; a block is recommended exactly when the score reaches the
  policy's block threshold or the inputs force it (a restricted effect type, too deep a delegation,
  a declared compensation known to be infeasible, a malformed pattern of the policy, a reported
  violation), and the effect is let through exactly when nothing forces a block and the score stays
  below the review threshold.\<close>

theorem assessment_exact:
  assumes "assess_effect tx cr p m f i now = Inr a" "intelligence_policy_validate p = Inr ()"
  shows "as_score a = min (sum_list (map sg_weight (as_signals a))) 100
    \<and> (as_recommendation a = BLOCK \<longleftrightarrow> ip_block_threshold p \<le> as_score a \<or> must_block tx m p f)
    \<and> (as_recommendation a = ALLOW \<longleftrightarrow> as_score a < ip_review_threshold p \<and> \<not> must_block tx m p f)"
proof -
  obtain ss rs where e: "emits (chainR (scoring_methods tx m p f)) ss rs" "rs \<noteq> [] \<longleftrightarrow> must_block tx m p f"
    using methods_blame [of tx m p f] by (auto simp: blames_def)
  have "ip_review_threshold p \<le> ip_block_threshold p"
    using assms(2) by (auto simp: intelligence_policy_validate_def is_ok_unit [symmetric])
  then show ?thesis
    using assess_effect_emits [OF assms(1) e(1)] e(2) by (auto simp: recommendation_of_def)
qed

text \<open>Whatever the manifest, the policy and the facts, an assessment that is returned is within
  bounds: its score is between 0 and 100, between one and three witnesses are asked for, no number of
  approvals is negative and the human ones never exceed the policy's maximum nor five.\<close>

theorem assessment_bounds:
  assumes "assess_effect tx cr p m f i now = Inr a"
  shows "0 \<le> as_score a \<and> as_score a \<le> 100 \<and> 1 \<le> as_required_witness_quorum a \<and> as_required_witness_quorum a \<le> 3
    \<and> 0 \<le> as_required_human_approvals a \<and> as_required_human_approvals a \<le> min 5 (ip_max_required_human_approvals p)
    \<and> 0 \<le> as_cooling_off_period_seconds a"
proof -
  obtain b where b: "as_required_human_approvals a = fst (required_approvals (as_risk_level a) (signal_names b) p)"
    "as_required_witness_quorum a = WITNESS_QUORUM (as_risk_level a)" "assessment_validate a = Inr ()"
    by (rule assess_effect_cases [OF assms]) blast
  have "0 \<le> as_score a" "as_score a \<le> 100" "0 \<le> as_required_human_approvals a" "0 \<le> as_cooling_off_period_seconds a"
    using b(3) by (auto simp: assessment_validate_def is_ok_unit [symmetric])
  moreover have "as_required_human_approvals a \<le> min 5 (ip_max_required_human_approvals p)"
    by (cases "as_risk_level a") (simp_all add: b(1) required_approvals_def Let_def min_le_iff_disj)
  ultimately show ?thesis
    by (cases "as_risk_level a") (simp_all add: b(2))
qed

section \<open>Unknown facts\<close>

text \<open>Only the two methods about the provider look at the two facts a provider declares.\<close>

definition confirmed :: "assessment_facts \<Rightarrow> assessment_facts" where
  "confirmed f = f\<lparr>af_provider_idempotent := Some True, af_compensation_feasible := Some True\<rparr>"

lemma chainR_append: "chainR (fs @ gs) b = bindR (chainR fs b) (chainR gs)"
  by (induction fs arbitrary: b) (simp_all, metis bindR.simps sum.exhaust)

lemma other_methods:
  obtains before after rs where
    "\<And>g. g \<in> {f, confirmed f} \<Longrightarrow> scoring_methods tx m p g = before @ score_provider_capabilities m g # after"
    "blames (chainR after) rs"
proof
  show "scoring_methods tx m p g =
      [score_declared_classification m p, score_monetary_exposure m p, score_state_and_preconditions m,
       score_manifest_lifetime m p, score_target_sensitivity tx m p, score_restricted_effect_type m p,
       score_delegation_depth p f, score_historical_recurrence tx p f]
      @ score_provider_capabilities m g # [score_cross_tenant f, score_unusual_parameter_change f, score_external_policy_violations f]"
    if "g \<in> {f, confirmed f}" for g
    using that
    by (auto simp: confirmed_def scoring_methods_def score_delegation_depth_def score_historical_recurrence_def
        failure_rate_def score_cross_tenant_def score_unusual_parameter_change_def score_external_policy_violations_def)
  show "blames (chainR [score_cross_tenant f, score_unusual_parameter_change f, score_external_policy_violations f])
      (map (\<lambda>v. ''external_policy_violation:'' @ v) (af_policy_violations f) @ [])"
    by (intro blames_cons [OF blames_quiet_methods(7)] blames_cons [OF blames_quiet_methods(8)] blames_append [OF blames_violations]
        blames_simple)
qed

lemma provider_confirmed: "score_provider_capabilities m (confirmed f) b = Inr b"
  by (simp add: score_provider_capabilities_def score_idempotency_def score_compensation_def confirmed_def when_signal_def)

lemma provider_raises:
  assumes "score_provider_capabilities m f b = Inr b'"
  shows "sb_score b + (if af_provider_idempotent f = None then 8 else 0) \<le> sb_score b'
    \<and> signal_names b \<subseteq> signal_names b' \<and> (sb_forced_block_reasons b \<noteq> [] \<longrightarrow> sb_forced_block_reasons b' \<noteq> [])"
proof -
  obtain b1 where b1: "score_idempotency m f b = Inr b1" "score_compensation m f b1 = Inr b'"
    using assms by (auto simp: score_provider_capabilities_def result_simps)
  have "sb_score b + (if af_provider_idempotent f = None then 8 else 0) \<le> sb_score b1 \<and> signal_names b \<subseteq> signal_names b1
      \<and> sb_forced_block_reasons b1 = sb_forced_block_reasons b"
    using b1(1)
    by (auto simp: score_idempotency_def when_signal_def add_signal_def Let_def result_simps signal_names_def
        split: option.splits if_splits)
  moreover have "sb_score b1 \<le> sb_score b' \<and> signal_names b1 \<subseteq> signal_names b'
      \<and> (sb_forced_block_reasons b1 \<noteq> [] \<longrightarrow> sb_forced_block_reasons b' \<noteq> [])"
    using b1(2)
    by (auto simp: score_compensation_def when_signal_def add_signal_def force_block_def Let_def result_simps signal_names_def
        split: option.splits bool.splits if_splits)
  ultimately show ?thesis by auto
qed

lemma severity_mono:
  assumes "s \<le> s'" "forced \<longrightarrow> forced'" "N \<subseteq> N'"
  shows "risk_level_of s p \<le> risk_level_of s' p" "recommendation_of s forced p \<le> recommendation_of s' forced' p"
    "L \<le> L' \<Longrightarrow> fst (required_approvals L N p) \<le> fst (required_approvals L' N' p)"
    "L \<le> L' \<Longrightarrow> WITNESS_QUORUM L \<le> WITNESS_QUORUM L'"
proof -
  show "risk_level_of s p \<le> risk_level_of s' p" "recommendation_of s forced p \<le> recommendation_of s' forced' p"
    using assms(1,2) by (auto simp: risk_level_of_def recommendation_of_def less_eq_risk_level_def less_eq_recommendation_def
        split: prod.splits)
  show "WITNESS_QUORUM L \<le> WITNESS_QUORUM L'" if "L \<le> L'"
    using that by (cases L; cases L') (simp_all add: less_eq_risk_level_def)
  show "fst (required_approvals L N p) \<le> fst (required_approvals L' N' p)" if "L \<le> L'"
  proof -
    have "BASE_HUMAN_APPROVALS L \<le> BASE_HUMAN_APPROVALS L'"
      using that by (cases L; cases L') (simp_all add: less_eq_risk_level_def)
    moreover have "(if n \<in> N then 1 else 0) \<le> (if n \<in> N' then 1 else (0::int))" for n
      using assms(3) by auto
    ultimately show ?thesis
      unfolding required_approvals_def Let_def fst_conv by (intro min.mono add_mono order_refl)
  qed
qed

text \<open>What is not known never counts in an effect's favour: once the provider is confirmed to be
  idempotent and compensation to be feasible, the same effect under the same policy is assessed with
  at most the score, the risk level, the recommendation, the human approvals and the witnesses it was
  assessed with before, whatever had been declared; an undeclared idempotency alone costs eight points.\<close>

theorem unknown_facts_not_favorable:
  assumes "assess_effect tx cr p m f i now = Inr a" "assess_effect tx cr p m (confirmed f) i' now' = Inr a'"
  shows "as_score a' \<le> as_score a \<and> as_risk_level a' \<le> as_risk_level a \<and> as_recommendation a' \<le> as_recommendation a
    \<and> as_required_human_approvals a' \<le> as_required_human_approvals a
    \<and> as_required_witness_quorum a' \<le> as_required_witness_quorum a
    \<and> (af_provider_idempotent f = None \<longrightarrow> min 100 (as_score a' + 8) \<le> as_score a)"
proof -
  obtain before after rs where m: "\<And>g. g \<in> {f, confirmed f} \<Longrightarrow>
      scoring_methods tx m p g = before @ score_provider_capabilities m g # after" and "blames (chainR after) rs"
    using other_methods [of f tx m p] by blast
  then obtain ss where e: "emits (chainR after) ss rs"
    by (auto simp: blames_def)
  obtain b where b: "chainR (scoring_methods tx m p f) empty_builder = Inr b"
    "as_score a = min (sb_score b) 100" "as_risk_level a = risk_level_of (as_score a) p"
    "as_recommendation a = recommendation_of (as_score a) (sb_forced_block_reasons b \<noteq> []) p"
    "as_required_human_approvals a = fst (required_approvals (as_risk_level a) (signal_names b) p)"
    "as_required_witness_quorum a = WITNESS_QUORUM (as_risk_level a)"
    by (rule assess_effect_cases [OF assms(1)]) blast
  obtain c where c: "chainR (scoring_methods tx m p (confirmed f)) empty_builder = Inr c"
    "as_score a' = min (sb_score c) 100" "as_risk_level a' = risk_level_of (as_score a') p"
    "as_recommendation a' = recommendation_of (as_score a') (sb_forced_block_reasons c \<noteq> []) p"
    "as_required_human_approvals a' = fst (required_approvals (as_risk_level a') (signal_names c) p)"
    "as_required_witness_quorum a' = WITNESS_QUORUM (as_risk_level a')"
    by (rule assess_effect_cases [OF assms(2)]) blast
  obtain b1 b2 where s: "score_provider_capabilities m f b1 = Inr b2" "chainR after b2 = Inr b" "chainR after b1 = Inr c"
    using b(1) c(1) m [of f] m [of "confirmed f"] by (auto simp: chainR_append result_simps provider_confirmed)
  have "sb_score b = sb_score b2 + sum_list (map sg_weight ss)" "sb_score c = sb_score b1 + sum_list (map sg_weight ss)"
    "signal_names b = signal_names b2 \<union> sg_name ` set ss" "signal_names c = signal_names b1 \<union> sg_name ` set ss"
    "sb_forced_block_reasons b = sb_forced_block_reasons b2 @ rs" "sb_forced_block_reasons c = sb_forced_block_reasons b1 @ rs"
    using e [unfolded emits_def, rule_format, OF s(2)] e [unfolded emits_def, rule_format, OF s(3)]
    by (simp_all add: signal_names_def)
  with provider_raises [OF s(1)]
  have le: "sb_score c + (if af_provider_idempotent f = None then 8 else 0) \<le> sb_score b" "signal_names c \<subseteq> signal_names b"
    "sb_forced_block_reasons c \<noteq> [] \<longrightarrow> sb_forced_block_reasons b \<noteq> []"
    by (simp_all split: if_splits) blast+
  then have score: "as_score a' \<le> as_score a" "af_provider_idempotent f = None \<longrightarrow> min 100 (as_score a' + 8) \<le> as_score a"
    unfolding b(2) c(2) by (auto split: if_splits)
  have level: "as_risk_level a' \<le> as_risk_level a"
    unfolding b(3) c(3) by (rule severity_mono(1) [OF score(1) le(3,2)])
  show ?thesis
    using score level severity_mono(2) [OF score(1) le(3,2), of p] severity_mono(3,4) [OF score(1) le(3,2) level]
    unfolding b(4-6) c(4-6) by simp
qed

section \<open>A policy survives its bundle\<close>

text \<open>Dictionaries and lists come out of a bundle in the order of the canonical form.\<close>

definition canonical_policy :: "intelligence_policy \<Rightarrow> intelligence_policy" where
  "canonical_policy p = p
     \<lparr>ip_risk_base_points := sort_key fst (ip_risk_base_points p),
      ip_blast_radius_points := sort_key fst (ip_blast_radius_points p),
      ip_reversibility_points := sort_key fst (ip_reversibility_points p),
      ip_amount_thresholds := sort_key fst (ip_amount_thresholds p),
      ip_sensitive_target_patterns := sort (ip_sensitive_target_patterns p),
      ip_restricted_effect_types := sort (ip_restricted_effect_types p)\<rparr>"

lemma mapR_Inr: "(\<And>x. x \<in> set xs \<Longrightarrow> f x = Inr (g x)) \<Longrightarrow> mapR f xs = Inr (map g xs)"
  by (induction xs) simp_all

lemma read_strings: "mapR (\<lambda>x. case x of JStr s \<Rightarrow> Inr s | _ \<Rightarrow> Inl ValueError) (map JStr xs) = Inr xs"
  by (induction xs) simp_all

lemma read_points: "mapR (\<lambda>(k, x). case x of JInt i \<Rightarrow> Inr (k, i) | _ \<Rightarrow> Inl ValueError) (map (\<lambda>(k, v). (k, JInt v)) d) = Inr d"
  by (induction d) auto

lemma read_int3: "int3_of (int3_json t) = Inr t"
  by (cases t) (simp add: int3_of_def int3_json_def int_item_def)

lemma read_amounts: "mapR (\<lambda>(k, x). bindR (int3_of x) (\<lambda>t. Inr (k, t))) (map (\<lambda>(k, t). (k, int3_json t)) d) = Inr d"
  by (induction d) (auto simp: read_int3)

lemma canonical_policy_valid: "intelligence_policy_validate (canonical_policy p) = Inr () \<longleftrightarrow> intelligence_policy_validate p = Inr ()"
  by (simp add: is_ok_unit [symmetric] intelligence_policy_validate_def canonical_policy_def)

text \<open>A policy that is wrapped in a bundle is read out again unchanged but for the order of its
  dictionaries and lists, and hashes to the same value: what the payload of a verified bundle yields is
  the policy the owner signed, given that floats survive their conversion to text.\<close>

theorem intelligence_policy_roundtrip:
  assumes "intelligence_policy_validate p = Inr ()"
    and "tx_float_parse tx (tx_float_repr tx (ip_max_acceptable_failure_rate p)) = Some (ip_max_acceptable_failure_rate p)"
  shows "policy_from_bundle_payload tx (intelligence_policy_dict tx p) = Inr (canonical_policy p)
    \<and> intelligence_policy_hash tx cr (canonical_policy p) = intelligence_policy_hash tx cr p"
proof
  show "policy_from_bundle_payload tx (intelligence_policy_dict tx p) = Inr (canonical_policy p)"
    using assms canonical_policy_valid [of p] unfolding canonical_policy_def
    by (cases p) (simp add: policy_from_bundle_payload_def intelligence_policy_dict_def as_str_def as_int_def as_dict_str_int_def
        as_amount_thresholds_def as_int3_def as_tuple_str_def require_key_def points_json_def read_strings read_points
        read_amounts read_int3 Let_def thenR_def)
  show "intelligence_policy_hash tx cr (canonical_policy p) = intelligence_policy_hash tx cr p"
    by (simp add: intelligence_policy_hash_def intelligence_policy_dict_def canonical_policy_def points_json_def
        sorted_sort_id sorted_sort_key sort_key_id_if_sorted)
qed

section \<open>Facts from the journal\<close>

text \<open>Deriving facts from the journal always succeeds for an admissible depth and admissible
  violations: the failures it counts are failures of manifests it counts, and it never counts the
  manifest that is being assessed.\<close>

theorem derived_facts_valid:
  assumes "0 \<le> depth" "\<forall>v \<in> set extra. v \<noteq> [] \<and> length v \<le> 256"
  shows "\<exists>f. derive_facts_from_audit js m depth idempotent feasible cross unusual extra = Inr f
    \<and> af_failure_count f \<le> af_recurrence_count f
    \<and> set (failed_manifest_ids js (prior_manifest_ids js m)) \<subseteq> set (prior_manifest_ids js m)
    \<and> m_manifest_id m \<notin> set (prior_manifest_ids js m)"
proof -
  have s: "set (failed_manifest_ids js (prior_manifest_ids js m)) \<subseteq> set (prior_manifest_ids js m)"
    by (auto simp: failed_manifest_ids_def List.map_filter_def split: option.splits if_splits)
  have "length (failed_manifest_ids js (prior_manifest_ids js m)) \<le> length (prior_manifest_ids js m)"
    using card_mono [OF finite_set s] by (simp add: failed_manifest_ids_def prior_manifest_ids_def card_set)
  moreover have "m_manifest_id m \<notin> set (prior_manifest_ids js m)"
    by (auto simp: prior_manifest_ids_def List.map_filter_def split: if_splits)
  ultimately show ?thesis
    using assms s
    by (auto simp: derive_facts_from_audit_def Let_def facts_validate_def result_simps nonempty_256_def is_ok_unit [symmetric])
qed

text \<open>A reported violation of more than 102 characters is an admissible fact, but the name of its signal
  exceeds the limit for names: the effect is not blocked, assessing it raises.\<close>

lemma long_violation_not_assessed:
  assumes "v \<in> set (af_policy_violations f)" "102 < length v"
  shows "\<not> is_ok (assess_effect tx cr p m f i now)"
proof
  assume "is_ok (assess_effect tx cr p m f i now)"
  then obtain b where "chainR (scoring_methods tx m p f) empty_builder = Inr b"
    by (auto simp: assess_effect_def)
  then obtain c where "chainR (map (\<lambda>v. force_block (''external_policy_violation:'' @ v) v) (af_policy_violations f)) c = Inr b"
    by (auto simp: scoring_methods_def result_simps score_external_policy_violations_def)
  moreover have "\<exists>b c. force_block (''external_policy_violation:'' @ v) v b = Inr c"
    if "v \<in> set vs" "chainR (map (\<lambda>v. force_block (''external_policy_violation:'' @ v) v) vs) b = Inr c" for vs b c
    using that by (induction vs arbitrary: b) (auto simp: result_simps)
  ultimately obtain b c where "force_block (''external_policy_violation:'' @ v) v b = Inr c"
    using assms(1) by blast
  then show False
    using assms(2) by (auto simp: force_block_def Let_def result_simps risk_signal_validate_def id_length_check_def)
qed

section \<open>Examples\<close>

definition plain_text :: text_ops where
  "plain_text = \<lparr>tx_search = (\<lambda>pat s. Some (pat = s)), tx_float_repr = (\<lambda>_. ''0.2''), tx_float_parse = (\<lambda>_. Some (float_div 1 5)),
     tx_fixed2 = (\<lambda>_. [])\<rparr>"

lemma toy_policy_valid: "intelligence_policy_validate DEFAULT_INTELLIGENCE_POLICY = Inr ()"
  by code_simp

lemma toy_hash_length: "length (canonical_hash (cr_sha256 toy_crypto) v) = 71"
  by (simp add: canonical_hash_def toy_crypto_def)

lemma toy_hash_nonempty: "canonical_hash (cr_sha256 toy_crypto) v \<noteq> []"
  using toy_hash_length [of v] by fastforce

text \<open>A method that succeeds whatever the builder, with what it adds to the score.\<close>

definition adds :: "(score_builder \<Rightarrow> score_builder res) \<Rightarrow> int \<Rightarrow> bool" where
  "adds f w \<longleftrightarrow> (\<forall>b. \<exists>b'. f b = Inr b' \<and> sb_score b' = sb_score b + w \<and> sb_forced_block_reasons b' = sb_forced_block_reasons b)"

lemma adds_add: "n \<noteq> [] \<Longrightarrow> length n \<le> 128 \<Longrightarrow> 0 \<le> w \<Longrightarrow> w \<le> 100 \<Longrightarrow> length d \<le> 512 \<Longrightarrow> adds (add_signal n w d) w"
  by (simp add: adds_def add_signal_def Let_def risk_signal_validate_def id_length_check_def raise_if_def thenR_def)

lemma adds_nothing: "adds (chainR []) 0" "adds Inr 0"
  by (simp_all add: adds_def)

lemma adds_when: "adds f w \<Longrightarrow> c \<Longrightarrow> adds (when_signal c f) w" "\<not> c \<Longrightarrow> adds (when_signal c f) 0"
  by (simp_all add: adds_def when_signal_def)

lemma adds_cons: "adds f v \<Longrightarrow> adds (chainR fs) w \<Longrightarrow> adds (chainR (f # fs)) (v + w)"
  unfolding adds_def by (metis (no_types, lifting) add.assoc bindR.simps(2) chainR.simps(2))

definition free_manifest :: effect_manifest where
  "free_manifest = toy_manifest\<lparr>m_estimated_cost := None\<rparr>"

lemma free_manifest_fields [simp]:
  "m_risk free_manifest = LOW" "m_blast_radius free_manifest = SINGLE_RESOURCE" "m_reversibility free_manifest = COMPENSATABLE"
  "m_estimated_cost free_manifest = None" "m_state_fingerprint free_manifest = None" "m_created_at free_manifest = 0"
  "m_expires_at free_manifest = 900" "m_effect_type free_manifest = ''refund''" "m_manifest_id free_manifest = ''m-1''"
  by (simp_all add: free_manifest_def toy_manifest_def)

lemma default_policy_fields [simp]:
  "ip_risk_base_points DEFAULT_INTELLIGENCE_POLICY = DEFAULT_RISK_BASE_POINTS"
  "ip_blast_radius_points DEFAULT_INTELLIGENCE_POLICY = DEFAULT_BLAST_RADIUS_POINTS"
  "ip_reversibility_points DEFAULT_INTELLIGENCE_POLICY = DEFAULT_REVERSIBILITY_POINTS"
  "ip_max_recommended_ttl_seconds DEFAULT_INTELLIGENCE_POLICY = 3600" "ip_sensitive_target_patterns DEFAULT_INTELLIGENCE_POLICY = []"
  "ip_restricted_effect_types DEFAULT_INTELLIGENCE_POLICY = []" "ip_max_delegation_depth DEFAULT_INTELLIGENCE_POLICY = 8"
  "ip_block_threshold DEFAULT_INTELLIGENCE_POLICY = 85" "ip_review_threshold DEFAULT_INTELLIGENCE_POLICY = 40"
  "ip_risk_level_thresholds DEFAULT_INTELLIGENCE_POLICY = (25, 50, 75)" "ip_policy_id DEFAULT_INTELLIGENCE_POLICY = ''default''"
  "ip_policy_version DEFAULT_INTELLIGENCE_POLICY = ''1.0''" "ip_max_required_human_approvals DEFAULT_INTELLIGENCE_POLICY = 5"
  by (simp_all add: DEFAULT_INTELLIGENCE_POLICY_def)

lemma default_facts_fields [simp]:
  "af_delegation_depth DEFAULT_FACTS = 0" "af_recurrence_count DEFAULT_FACTS = 0" "af_provider_idempotent DEFAULT_FACTS = None"
  "af_compensation_feasible DEFAULT_FACTS = None" "\<not> af_cross_tenant DEFAULT_FACTS" "\<not> af_unusual_parameter_change DEFAULT_FACTS"
  "af_policy_violations DEFAULT_FACTS = []"
  by (simp_all add: DEFAULT_FACTS_def)

lemma classification_adds: "adds (score_declared_classification free_manifest DEFAULT_INTELLIGENCE_POLICY) (5 + (0 + (5 + 0)))"
  unfolding score_declared_classification_def
  by (intro adds_cons adds_nothing)
    (simp_all add: points_def DEFAULT_RISK_BASE_POINTS_def DEFAULT_BLAST_RADIUS_POINTS_def DEFAULT_REVERSIBILITY_POINTS_def adds_add)

lemma state_adds: "adds (score_state_and_preconditions free_manifest) (10 + (0 + 0))"
  unfolding score_state_and_preconditions_def
  by (intro adds_cons adds_nothing adds_when) (simp_all add: adds_add high_risk_def)

lemma quiet_adds:
  "adds (score_monetary_exposure free_manifest DEFAULT_INTELLIGENCE_POLICY) 0"
  "adds (score_manifest_lifetime free_manifest DEFAULT_INTELLIGENCE_POLICY) 0"
  "adds (score_target_sensitivity plain_text free_manifest DEFAULT_INTELLIGENCE_POLICY) 0"
  "adds (score_restricted_effect_type free_manifest DEFAULT_INTELLIGENCE_POLICY) 0"
  "adds (score_delegation_depth DEFAULT_INTELLIGENCE_POLICY DEFAULT_FACTS) 0"
  "adds (score_cross_tenant DEFAULT_FACTS) 0" "adds (score_unusual_parameter_change DEFAULT_FACTS) 0"
  "adds (score_external_policy_violations DEFAULT_FACTS) 0"
  by (simp_all add: score_monetary_exposure_def high_risk_def score_manifest_lifetime_def whole_seconds_def second_def
      score_target_sensitivity_def score_restricted_effect_type_def score_delegation_depth_def score_cross_tenant_def
      score_unusual_parameter_change_def score_external_policy_violations_def adds_def when_signal_def)

lemma history_adds: "adds (score_historical_recurrence plain_text DEFAULT_INTELLIGENCE_POLICY DEFAULT_FACTS) 6"
  by (simp add: score_historical_recurrence_def adds_add)

lemma provider_adds: "adds (score_provider_capabilities free_manifest DEFAULT_FACTS) (8 + (8 + 0))"
  unfolding score_provider_capabilities_def score_idempotency_def score_compensation_def
  by (intro adds_cons adds_nothing) (auto intro!: adds_when adds_add)

lemma free_score: "adds (chainR (scoring_methods plain_text free_manifest DEFAULT_INTELLIGENCE_POLICY DEFAULT_FACTS)) 42"
proof -
  have "adds (chainR (scoring_methods plain_text free_manifest DEFAULT_INTELLIGENCE_POLICY DEFAULT_FACTS))
      ((5 + (0 + (5 + 0))) + (0 + ((10 + (0 + 0)) + (0 + (0 + (0 + (0 + (6 + ((8 + (8 + 0)) + (0 + (0 + (0 + 0))))))))))))"
    unfolding scoring_methods_def
    by (intro adds_cons classification_adds state_adds quiet_adds history_adds provider_adds adds_nothing)
  then show ?thesis by simp
qed

lemma adds_empty:
  assumes "adds f w"
  obtains b where "f empty_builder = Inr b" "sb_score b = w" "sb_forced_block_reasons b = []"
proof -
  obtain b where "f empty_builder = Inr b" "sb_score b = sb_score empty_builder + w"
      "sb_forced_block_reasons b = sb_forced_block_reasons empty_builder"
    using assms unfolding adds_def by blast
  then show thesis
    using that by (simp add: empty_builder_def)
qed

lemma free_assessment:
  assumes "sb_score b = w" "w = 42 \<or> w = 26" "sb_forced_block_reasons b = []"
    and "chainR (scoring_methods plain_text free_manifest DEFAULT_INTELLIGENCE_POLICY f) empty_builder = Inr b"
  shows "\<exists>a. assess_effect plain_text toy_crypto DEFAULT_INTELLIGENCE_POLICY free_manifest f ''a-1'' 5 = Inr a
    \<and> as_score a = w \<and> as_risk_level a = LEVEL_MEDIUM \<and> as_recommendation a = (if w = 42 then REVIEW else ALLOW)"
proof -
  have "\<exists>h s. required_approvals LEVEL_MEDIUM N DEFAULT_INTELLIGENCE_POLICY = (h, s) \<and> 0 \<le> h \<and> 0 \<le> s" for N
    by (simp add: required_approvals_def Let_def)
  then obtain h s where "required_approvals LEVEL_MEDIUM (signal_names b) DEFAULT_INTELLIGENCE_POLICY = (h, s)" "0 \<le> h" "0 \<le> s"
    by blast
  then show ?thesis
    using assms toy_hash_length toy_hash_nonempty
    by (auto simp: assess_effect_def Let_def risk_level_of_def recommendation_of_def assessment_validate_def manifest_hash_def
        intelligence_policy_hash_def cooling_off_seconds_def raise_if_def thenR_def)
qed

lemma toy_assessment:
  obtains a where "assess_effect plain_text toy_crypto DEFAULT_INTELLIGENCE_POLICY free_manifest DEFAULT_FACTS ''a-1'' 5 = Inr a"
    "as_score a = 42" "as_recommendation a = REVIEW"
proof -
  obtain b where "chainR (scoring_methods plain_text free_manifest DEFAULT_INTELLIGENCE_POLICY DEFAULT_FACTS) empty_builder = Inr b"
      "sb_score b = 42" "sb_forced_block_reasons b = []"
    by (rule adds_empty [OF free_score])
  then show thesis
    using free_assessment [of b 42] that by auto
qed

lemma toy_confirmed_assessment:
  obtains a where "assess_effect plain_text toy_crypto DEFAULT_INTELLIGENCE_POLICY free_manifest (confirmed DEFAULT_FACTS) ''a-1'' 5 = Inr a"
    "as_score a = 26" "as_recommendation a = ALLOW"
proof -
  have p: "adds (score_provider_capabilities free_manifest (confirmed DEFAULT_FACTS)) 0"
    by (simp add: adds_def provider_confirmed)
  have "adds (chainR (scoring_methods plain_text free_manifest DEFAULT_INTELLIGENCE_POLICY (confirmed DEFAULT_FACTS)))
      ((5 + (0 + (5 + 0))) + (0 + ((10 + (0 + 0)) + (0 + (0 + (0 + (0 + (6 + (0 + (0 + (0 + (0 + 0))))))))))))"
    using classification_adds state_adds quiet_adds history_adds
    unfolding scoring_methods_def
    by (intro adds_cons p adds_nothing)
      (simp_all add: confirmed_def score_delegation_depth_def score_historical_recurrence_def failure_rate_def score_cross_tenant_def
        score_unusual_parameter_change_def score_external_policy_violations_def)
  then have "adds (chainR (scoring_methods plain_text free_manifest DEFAULT_INTELLIGENCE_POLICY (confirmed DEFAULT_FACTS))) 26"
    by simp
  then obtain b where "chainR (scoring_methods plain_text free_manifest DEFAULT_INTELLIGENCE_POLICY (confirmed DEFAULT_FACTS)) empty_builder = Inr b"
      "sb_score b = 26" "sb_forced_block_reasons b = []"
    by (rule adds_empty)
  then show thesis
    using free_assessment [of b 26] that by auto
qed

theorem assessment_exact_witness:
  "\<not> must_block plain_text free_manifest DEFAULT_INTELLIGENCE_POLICY DEFAULT_FACTS
   \<and> (\<exists>a. assess_effect plain_text toy_crypto DEFAULT_INTELLIGENCE_POLICY free_manifest DEFAULT_FACTS ''a-1'' 5 = Inr a
        \<and> min (sum_list (map sg_weight (as_signals a))) 100 = 42)"
proof -
  obtain a where a: "assess_effect plain_text toy_crypto DEFAULT_INTELLIGENCE_POLICY free_manifest DEFAULT_FACTS ''a-1'' 5 = Inr a"
    "as_score a = 42" "as_recommendation a = REVIEW" by (rule toy_assessment)
  have "intelligence_policy_validate DEFAULT_INTELLIGENCE_POLICY = Inr ()"
    by (rule toy_policy_valid)
  from assessment_exact [OF a(1) this] a show ?thesis by auto
qed

theorem assessment_bounds_witness:
  "\<exists>a. assess_effect plain_text toy_crypto DEFAULT_INTELLIGENCE_POLICY free_manifest DEFAULT_FACTS ''a-1'' 5 = Inr a
     \<and> as_required_human_approvals a \<le> 5"
proof -
  obtain a where a: "assess_effect plain_text toy_crypto DEFAULT_INTELLIGENCE_POLICY free_manifest DEFAULT_FACTS ''a-1'' 5 = Inr a"
    by (rule toy_assessment)
  then show ?thesis
    using assessment_bounds [OF a] by auto
qed

theorem unknown_facts_not_favorable_witness:
  "\<exists>a a'. assess_effect plain_text toy_crypto DEFAULT_INTELLIGENCE_POLICY free_manifest DEFAULT_FACTS ''a-1'' 5 = Inr a
     \<and> assess_effect plain_text toy_crypto DEFAULT_INTELLIGENCE_POLICY free_manifest (confirmed DEFAULT_FACTS) ''a-1'' 5 = Inr a'
     \<and> as_recommendation a = REVIEW \<and> as_recommendation a' = ALLOW \<and> as_risk_level a' \<le> as_risk_level a"
proof -
  obtain a where a: "assess_effect plain_text toy_crypto DEFAULT_INTELLIGENCE_POLICY free_manifest DEFAULT_FACTS ''a-1'' 5 = Inr a"
    "as_recommendation a = REVIEW" by (rule toy_assessment)
  obtain a' where a': "assess_effect plain_text toy_crypto DEFAULT_INTELLIGENCE_POLICY free_manifest (confirmed DEFAULT_FACTS) ''a-1'' 5 = Inr a'"
    "as_recommendation a' = ALLOW" by (rule toy_confirmed_assessment)
  show ?thesis
    using unknown_facts_not_favorable [OF a(1) a'(1)] a a' by auto
qed

theorem intelligence_policy_roundtrip_witness:
  "policy_from_bundle_payload plain_text (intelligence_policy_dict plain_text DEFAULT_INTELLIGENCE_POLICY)
     = Inr (canonical_policy DEFAULT_INTELLIGENCE_POLICY)"
proof -
  have "tx_float_parse plain_text (tx_float_repr plain_text (ip_max_acceptable_failure_rate DEFAULT_INTELLIGENCE_POLICY))
      = Some (ip_max_acceptable_failure_rate DEFAULT_INTELLIGENCE_POLICY)"
    by (simp add: plain_text_def DEFAULT_INTELLIGENCE_POLICY_def)
  then show ?thesis
    using intelligence_policy_roundtrip [OF toy_policy_valid] by blast
qed

theorem derived_facts_valid_witness:
  "\<exists>f. derive_facts_from_audit [] toy_manifest 1 None None False False [''sanctions''] = Inr f \<and> af_failure_count f = 0"
  using derived_facts_valid [of 1 "[''sanctions'']" "[]" toy_manifest None None False False]
  by (auto simp: derive_facts_from_audit_def prior_manifest_ids_def failed_manifest_ids_def List.map_filter_def Let_def result_simps)

end
