(* ===== verification/EngineProve.thy ===== *)
theory EngineProve
  imports EngineCommit Witness Intelligence
begin

text \<open>
  The handlers of the engine that accept independent evidence after a commit (\<^verbatim>\<open>engine/core.py\<close>): the
  quorum of witnesses and the quality of evidence, each as a dry run that only reports and as an
  assertion that raises.  None of them touches the lifecycle.  \<open>render\<close> gives the text of a rejection.
  Before them stands the audited risk assessment, which no other handler reads.
\<close>

section \<open>Risk assessment\<close>

text \<open>\<open>bound\<close> is the policy the context's scorer is bound to.\<close>

definition assess :: "('s, 'l, 'o) engine_context \<Rightarrow> text_ops \<Rightarrow> intelligence_policy \<Rightarrow> effect_manifest \<Rightarrow> assessment_facts option
    \<Rightarrow> intelligence_policy option \<Rightarrow> ('s, 'l, 'o, effect_assessment) handler" where
  "assess C tx bound m facts policy =
     bindE (uuid4 C) (\<lambda>i. bindE (clock_now C) (\<lambda>t.
     bindE (liftR (assess_effect tx (ctx_crypto C) (case policy of None \<Rightarrow> bound | Some p \<Rightarrow> p) m
              (case facts of None \<Rightarrow> DEFAULT_FACTS | Some f \<Rightarrow> f) i t)) (\<lambda>a.
     thenE (audit C (entry_of ''effect.assessed'' (recommendation_value (as_recommendation a)) (Some (m_manifest_id m))
         (Some (as_manifest_hash a)) None (Some (principal_id (m_actor m)))
         [(''assessment_id'', as_assessment_id a), (''score'', int_str (as_score a)),
          (''risk_level'', risk_level_value (as_risk_level a)), (''policy_id'', as_policy_id a),
          (''policy_hash'', as_policy_hash a), (''required_human_approvals'', int_str (as_required_human_approvals a))]))
       (ret a))))"

section \<open>Witness quorum\<close>

definition evaluate_witnesses :: "('s, 'l, 'o) engine_context \<Rightarrow> (witness_rejection \<Rightarrow> string) \<Rightarrow> sealed_manifest
    \<Rightarrow> witness_statement list \<Rightarrow> witness_policy \<Rightarrow> string \<Rightarrow> principal \<Rightarrow> principal
    \<Rightarrow> ('s, 'l, 'o, witness_quorum_result) handler" where
  "evaluate_witnesses C render sealed statements policy digest actor subject =
     thenE (liftR (verify_seal (ctx_crypto C) sealed (ctx_keyring C)))
     (bindE (clock_now C) (\<lambda>t.
      bindE (liftR (evaluate_witness_quorum render (ctx_crypto C) statements policy (s_manifest_hash (sm_seal sealed))
               digest actor subject (ctx_keyring C) t)) (\<lambda>result.
      thenE (audit C (entry_of ''witness.quorum_evaluated'' (if wq_satisfied result then ''satisfied'' else ''not_satisfied'')
          (Some (m_manifest_id (sm_manifest sealed))) (Some (s_manifest_hash (sm_seal sealed))) None (Some (principal_id actor))
          [(''accepted_count'', int_str (int (length (wq_accepted_witness_ids result)))),
           (''accepted_witness_ids'', join '','' (wq_accepted_witness_ids result)),
           (''witness_set_hash'', case wq_witness_set_hash result of None \<Rightarrow> [] | Some h \<Rightarrow> h),
           (''witness_policy_hash'', wq_witness_policy_hash result),
           (''required_witnesses'', int_str (wp_required_witnesses policy))]))
        (ret result))))"

definition prove_with_witness_quorum :: "('s, 'l, 'o) engine_context \<Rightarrow> (witness_rejection \<Rightarrow> string) \<Rightarrow> sealed_manifest
    \<Rightarrow> witness_statement list \<Rightarrow> witness_policy \<Rightarrow> string \<Rightarrow> principal \<Rightarrow> principal
    \<Rightarrow> ('s, 'l, 'o, witness_quorum_result) handler" where
  "prove_with_witness_quorum C render sealed statements policy digest actor subject =
     bindE (evaluate_witnesses C render sealed statements policy digest actor subject) (\<lambda>result.
     thenE (liftR (raise_if (\<not> wq_satisfied result) (WitnessE WitnessQuorumNotMetError)))
     (thenE (audit C (entry_of ''witness.quorum_asserted'' ''satisfied''
          (Some (m_manifest_id (sm_manifest sealed))) (Some (s_manifest_hash (sm_seal sealed))) None (Some (principal_id actor))
          [(''witness_set_hash'', case wq_witness_set_hash result of None \<Rightarrow> [] | Some h \<Rightarrow> h),
           (''witness_policy_hash'', wq_witness_policy_hash result)]))
       (ret result)))"

section \<open>Evidence quality\<close>

definition evaluate_evidence :: "('s, 'l, 'o) engine_context \<Rightarrow> (evidence_rejection \<Rightarrow> string) \<Rightarrow> sealed_manifest
    \<Rightarrow> evidence_record list \<Rightarrow> evidence_policy \<Rightarrow> string option \<Rightarrow> ('s, 'l, 'o, evidence_assessment) handler" where
  "evaluate_evidence C render sealed records policy digest =
     thenE (liftR (verify_seal (ctx_crypto C) sealed (ctx_keyring C)))
     (bindE (clock_now C) (\<lambda>t.
      bindE (liftR (evaluate_evidence_quality render (ctx_crypto C) records policy (s_manifest_hash (sm_seal sealed)) digest t)) (\<lambda>result.
      thenE (audit C (entry_of ''evidence.quality_evaluated'' (if ea_acceptable result then ''acceptable'' else ''rejected'')
          (Some (m_manifest_id (sm_manifest sealed))) (Some (s_manifest_hash (sm_seal sealed))) None
          (Some (principal_id (m_actor (sm_manifest sealed))))
          [(''accepted_count'', int_str (int (length (ea_accepted_evidence_ids result)))),
           (''evidence_set_hash'', case ea_evidence_set_hash result of None \<Rightarrow> [] | Some h \<Rightarrow> h),
           (''evidence_policy_hash'', ea_evidence_policy_hash result),
           (''strongest_kind'', case ea_strongest_kind result of None \<Rightarrow> [] | Some k \<Rightarrow> evidence_kind_value k),
           (''min_kind'', evidence_kind_value (ep_min_kind policy))]))
        (ret result))))"

definition engine_assert_evidence_quality :: "('s, 'l, 'o) engine_context \<Rightarrow> (evidence_rejection \<Rightarrow> string) \<Rightarrow> sealed_manifest
    \<Rightarrow> evidence_record list \<Rightarrow> evidence_policy \<Rightarrow> string option \<Rightarrow> ('s, 'l, 'o, evidence_assessment) handler" where
  "engine_assert_evidence_quality C render sealed records policy digest =
     bindE (evaluate_evidence C render sealed records policy digest) (\<lambda>result.
     thenE (liftR (raise_if (\<not> ea_acceptable result) (EvidenceE EvidenceQualityError)))
     (thenE (audit C (entry_of ''evidence.quality_asserted'' ''acceptable''
          (Some (m_manifest_id (sm_manifest sealed))) (Some (s_manifest_hash (sm_seal sealed))) None
          (Some (principal_id (m_actor (sm_manifest sealed))))
          [(''evidence_set_hash'', case ea_evidence_set_hash result of None \<Rightarrow> [] | Some h \<Rightarrow> h),
           (''evidence_policy_hash'', ea_evidence_policy_hash result)]))
       (ret result)))"

end
