(* ===== verification/EngineSaga.thy ===== *)
theory EngineSaga
  imports EngineProve
begin

text \<open>
  The handlers of the engine for compensation and sagas (\<^verbatim>\<open>engine/core.py\<close>).
\<close>

section \<open>Compensation\<close>

definition authorize_compensation :: "('s, 'l, 'o) engine_context \<Rightarrow> sealed_manifest \<Rightarrow> sealed_manifest \<Rightarrow> authorize_args
    \<Rightarrow> ('s, 'l, 'o, execution_grant) handler" where
  "authorize_compensation C original compensation a =
     thenE (liftR (verify_seal (ctx_crypto C) original (ctx_keyring C)))
     (thenE (liftR (verify_seal (ctx_crypto C) compensation (ctx_keyring C)))
     (thenE (check_or_audit C
         (blocked_entry compensation (aa_issuer a) ''compensation.binding_failed''
           [(''original_manifest_id'', m_manifest_id (sm_manifest original))])
         (assert_compensation_binds_original (ctx_crypto C) compensation original))
       (authorize C compensation (a\<lparr>aa_parent_grant_id := None, aa_authority_budget_id := None\<rparr>))))"

definition compensation_check_policy :: "('s, 'l, 'o) engine_context \<Rightarrow> sealed_manifest \<Rightarrow> execution_grant
    \<Rightarrow> sealed_policy_bundle option \<Rightarrow> ('s, 'l, 'o, unit) handler" where
  "compensation_check_policy C sealed grant pb = (case g_policy_bundle_hash grant of
      None \<Rightarrow> ret ()
    | Some h \<Rightarrow> (case pb of
          None \<Rightarrow> deny C sealed grant ''policy_bundle.missing_at_commit'' ''blocked_policy_bundle_missing''
            (PolicyBundleE PolicyBundleMismatchError)
        | Some b \<Rightarrow> bindE (clock_now C) (\<lambda>t.
            thenE (deny_on is_ks C sealed grant (\<lambda>_. ''policy_bundle.verification_failed'') blocked_name
                (verify_policy_bundle (ctx_crypto C) b (ctx_keyring C) t None))
              (deny_if C sealed grant (ps_bundle_hash (spb_seal b) \<noteq> h)
                ''policy_bundle.mismatch'' ''blocked_policy_bundle_mismatch'' (PolicyBundleE PolicyBundleMismatchError)))))"

definition compensation_checks :: "('s, 'l, 'o) engine_context \<Rightarrow> sealed_manifest \<Rightarrow> sealed_manifest \<Rightarrow> execution_grant
    \<Rightarrow> effect_adapter \<Rightarrow> sealed_policy_bundle option \<Rightarrow> ('s, 'l, 'o, unit) handler" where
  "compensation_checks C original compensation grant adapter pb =
     thenE (liftR (verify_seal (ctx_crypto C) original (ctx_keyring C)))
     (thenE (on_error (\<lambda>x. x = binding_error)
         (\<lambda>_. audit C (commit_entry compensation grant ''compensation.binding_failed_at_commit'' ''blocked''))
         (liftR (assert_compensation_binds_original (ctx_crypto C) compensation original)))
     (thenE (deny_on is_ks C compensation grant (\<lambda>_. ''compensation.verification_failed'') blocked_name
         (verify_seal (ctx_crypto C) compensation (ctx_keyring C)))
     (bindE (clock_now C) (\<lambda>t.
      thenE (deny_on is_ks C compensation grant (\<lambda>_. ''compensation.verification_failed'') blocked_name
          (verify_grant (ctx_crypto C) grant (ctx_keyring C) t (leeway C)))
      (seqE
        [deny_if C compensation grant (g_manifest_hash grant \<noteq> Some (s_manifest_hash (sm_seal compensation)))
           ''compensation.grant_manifest_mismatch'' ''blocked_manifest_mismatch'' (GrantE GrantManifestMismatchError),
         compensation_check_policy C compensation grant pb,
         deny_if C compensation grant (adapter_id (ad_identity adapter) \<notin> set (g_audience grant))
           ''grant.audience_mismatch'' ''blocked_adapter_not_in_audience'' (GrantE GrantAudienceError),
         deny_if C compensation grant (m_adapter (sm_manifest original) \<noteq> ad_identity adapter)
           ''adapter.identity_mismatch'' ''blocked_adapter_identity_mismatch'' (AdapterE AdapterMismatchError),
         deny_on is_untrusted C compensation grant (\<lambda>_. ''adapter.untrusted'') (\<lambda>_. ''blocked_untrusted_adapter'')
           (require_trusted_adapter C adapter None),
         deny_if C compensation grant (m_effect_type (sm_manifest compensation) \<notin> set (g_allowed_effect_types grant))
           ''grant.effect_type_mismatch'' ''blocked_effect_type_not_permitted'' (GrantE GrantAudienceError),
         bindE (getS (\<lambda>s. gs_is_revoked (ctx_grant_ops C) (e_store s) (g_grant_id grant))) (\<lambda>revoked.
           deny_if C compensation grant revoked ''grant.revoked'' ''blocked_revoked'' (GrantE GrantRevokedError)),
         bindE (store_reserve C (g_grant_id grant) (g_max_uses grant)) (\<lambda>ok.
           deny_if C compensation grant (\<not> ok) ''grant.reservation_failed'' ''blocked_exhausted_or_inflight''
             (GrantE GrantExhaustedError))])))))"

definition adapter_compensate :: "effect_adapter \<Rightarrow> effect_manifest \<Rightarrow> commit_result
    \<Rightarrow> ('s, 'l, 'o, compensation_result) handler" where
  "adapter_compensate adapter m result = (\<lambda>s.
     (ad_compensate adapter m result, s\<lparr>e_effects := e_effects s @ [Compensated_effect (m_manifest_id m)]\<rparr>))"

definition compensation_outcome :: "string \<Rightarrow> bool \<Rightarrow> string" where
  "compensation_outcome cid succeeded = ''compensation:'' @ cid @ '':'' @ (if succeeded then ''ok'' else ''fail'')"

definition original_targs :: "sealed_manifest \<Rightarrow> sealed_manifest \<Rightarrow> execution_grant \<Rightarrow> string \<Rightarrow> (string \<times> string) list \<Rightarrow> transition_args" where
  "original_targs original compensation grant et meta =
     targs et (Some (g_grant_id grant)) (Some (s_manifest_hash (sm_seal original)))
       (Some (principal_id (m_actor (sm_manifest compensation)))) meta"

text \<open>The transition of the original, the adapter's compensation under the compensation's own
  lifecycle, and what both end with.\<close>

definition compensation_execute :: "('s, 'l, 'o) engine_context \<Rightarrow> sealed_manifest \<Rightarrow> sealed_manifest \<Rightarrow> execution_grant
    \<Rightarrow> effect_adapter \<Rightarrow> commit_result \<Rightarrow> ('s, 'l, 'o, compensation_result) handler" where
  "compensation_execute C original compensation grant adapter original_commit =
     (let cm = sm_manifest compensation in
      on_error (\<lambda>_. True)
        (\<lambda>x. thenE (store_release C (g_grant_id grant))
           (transition C (m_manifest_id cm) FAILED (commit_targs compensation grant ''compensation.commit_error'' [(''error'', exn_name x)])))
        (thenE (transition C (m_manifest_id cm) COMMITTING (commit_targs compensation grant ''compensation.committing'' []))
        (bindE (adapter_compensate adapter (sm_manifest original) original_commit) (\<lambda>result.
         thenE (store_commit C (g_grant_id grant) (m_idempotency_key cm) (compensation_outcome (m_manifest_id cm) (cp_succeeded result)))
           (ret result)))))"

definition compensation_finish :: "('s, 'l, 'o) engine_context \<Rightarrow> sealed_manifest \<Rightarrow> sealed_manifest \<Rightarrow> execution_grant
    \<Rightarrow> lifecycle_state \<Rightarrow> compensation_result \<Rightarrow> ('s, 'l, 'o, commit_result) handler" where
  "compensation_finish C original compensation grant original_state result =
     (let cm = sm_manifest compensation; oid = m_manifest_id (sm_manifest original);
          outcome_ref = compensation_outcome (m_manifest_id cm) (cp_succeeded result) in
      thenE (transition C (m_manifest_id cm) (if cp_succeeded result then COMMITTED else FAILED)
          (commit_targs compensation grant ''compensation.commit_result''
            [(''attempted'', bool_str (cp_attempted result)), (''succeeded'', bool_str (cp_succeeded result)),
             (''reason'', clip (cp_reason result))]))
      (thenE
        (if cp_succeeded result
         then transition C oid COMPENSATED (original_targs original compensation grant ''effect.compensation_committed''
                [(''compensation_manifest_id'', m_manifest_id cm), (''provider_reference'', outcome_ref)])
         else whenE (original_state = VERIFIED)
                (transition C oid FAILED (original_targs original compensation grant ''effect.compensation_failed''
                  [(''compensation_manifest_id'', m_manifest_id cm), (''attempted'', bool_str (cp_attempted result)),
                   (''reason'', clip (cp_reason result))])))
        (ret \<lparr>cm_success = cp_succeeded result, cm_idempotency_key = m_idempotency_key cm,
              cm_provider_reference = Some outcome_ref,
              cm_detail = (case cp_reason result of Some r \<Rightarrow> if r = [] then cp_detail result else Some r | None \<Rightarrow> cp_detail result),
              cm_after_state_digest = None\<rparr>)))"

definition commit_compensation :: "('s, 'l, 'o) engine_context \<Rightarrow> sealed_manifest \<Rightarrow> sealed_manifest \<Rightarrow> execution_grant
    \<Rightarrow> effect_adapter \<Rightarrow> commit_result \<Rightarrow> sealed_policy_bundle option \<Rightarrow> ('s, 'l, 'o, commit_result) handler" where
  "commit_compensation C original compensation grant adapter original_commit pb =
     thenE (compensation_checks C original compensation grant adapter pb)
     (bindE (get_lifecycle_state C (m_manifest_id (sm_manifest original))) (\<lambda>original_state.
      thenE (whenE (original_state = VERIFIED)
          (on_error (\<lambda>_. True) (\<lambda>_. store_release C (g_grant_id grant))
             (transition C (m_manifest_id (sm_manifest original)) COMPENSATING
                (original_targs original compensation grant ''effect.compensating_authorized''
                  [(''compensation_manifest_id'', m_manifest_id (sm_manifest compensation)),
                   (''compensation_manifest_hash'', s_manifest_hash (sm_seal compensation))]))))
      (bindE (compensation_execute C original compensation grant adapter original_commit) (\<lambda>result.
       compensation_finish C original compensation grant original_state result))))"

definition compensate :: "('s, 'l, 'o) engine_context \<Rightarrow> effect_manifest \<Rightarrow> commit_result \<Rightarrow> effect_adapter
    \<Rightarrow> ('s, 'l, 'o, compensation_result) handler" where
  "compensate C m commit_result adapter =
     (let mh = manifest_hash (ctx_crypto C) m; actor = principal_id (m_actor m) in
      thenE (liftR (require_trusted_adapter C adapter (Some (m_effect_type m))))
      (thenE (transition C (m_manifest_id m) COMPENSATING (targs ''effect.compensating'' None (Some mh) (Some actor) []))
      (bindE (adapter_compensate adapter m commit_result) (\<lambda>result.
       thenE (transition C (m_manifest_id m) (if cp_succeeded result then COMPENSATED else FAILED)
           (targs ''effect.compensation_result'' None (Some mh) (Some actor)
             [(''attempted'', bool_str (cp_attempted result)), (''succeeded'', bool_str (cp_succeeded result)),
              (''reason'', clip (cp_reason result)), (''legacy_path'', ''true'')]))
         (ret result)))))"

section \<open>Sagas\<close>

definition put_saga :: "string \<Rightarrow> saga_run \<Rightarrow> ('s, 'l, 'o, unit) handler" where
  "put_saga run_id run = modS (\<lambda>s. s\<lparr>e_saga_runs := (e_saga_runs s)(run_id := Some run)\<rparr>)"

definition get_saga :: "string \<Rightarrow> ('s, 'l, 'o, saga_run) handler" where
  "get_saga run_id = bindE (getS (\<lambda>s. e_saga_runs s run_id)) (\<lambda>run. case run of
      None \<Rightarrow> raiseE (SagaE SagaIllegalTransitionError) | Some r \<Rightarrow> ret r)"

definition begin_saga :: "('s, 'l, 'o) engine_context \<Rightarrow> causal_graph \<Rightarrow> string \<Rightarrow> string \<Rightarrow> string option
    \<Rightarrow> ('s, 'l, 'o, saga_run) handler" where
  "begin_saga C graph saga_id run_id actor_id =
     thenE (liftR (graph_verify (ctx_crypto C) graph (ctx_keyring C)))
     (bindE (uuid4 C) (\<lambda>uuid_saga. bindE (uuid4 C) (\<lambda>nonce. bindE (clock_now C) (\<lambda>t.
      bindE (liftR (build_saga_plan (ctx_crypto C) graph (or_else saga_id uuid_saga) nonce t)) (\<lambda>plan.
      thenE (liftR (raise_if (sp_causal_graph_hash plan \<noteq> graph_hash (ctx_crypto C) graph) (SagaE SagaGraphMismatchError)))
      (bindE (uuid4 C) (\<lambda>uuid_run.
       let run = saga_start plan (or_else run_id uuid_run) in
       thenE (put_saga (sr_run_id run) run)
       (thenE (audit C (entry_of ''saga.begun'' ''started'' None None None actor_id
           [(''run_id'', sr_run_id run), (''saga_id'', sp_saga_id plan), (''plan_hash'', plan_hash (ctx_crypto C) plan),
            (''causal_graph_hash'', sp_causal_graph_hash plan),
            (''steps'', nat_str (length (sp_step_manifest_hashes plan)))]))
         (ret run)))))))))"

definition check_saga_graph :: "('s, 'l, 'o) engine_context \<Rightarrow> saga_run \<Rightarrow> causal_graph \<Rightarrow> unit res" where
  "check_saga_graph C run graph =
     raise_if (graph_hash (ctx_crypto C) graph \<noteq> sp_causal_graph_hash (sr_plan run)) (SagaE SagaGraphMismatchError)"

definition saga_entry :: "string \<Rightarrow> string \<Rightarrow> string option \<Rightarrow> string \<Rightarrow> string option \<Rightarrow> (string \<times> string) list \<Rightarrow> audit_entry" where
  "saga_entry et decision gid mh actor meta = entry_of et decision None (Some mh) gid actor meta"

definition authorize_saga_step :: "('s, 'l, 'o) engine_context \<Rightarrow> string \<Rightarrow> sealed_manifest \<Rightarrow> causal_graph \<Rightarrow> authorize_args
    \<Rightarrow> ('s, 'l, 'o, execution_grant) handler" where
  "authorize_saga_step C run_id sealed graph a =
     (let mh = s_manifest_hash (sm_seal sealed) in
      bindE (get_saga run_id) (\<lambda>run.
      thenE (liftR (check_saga_graph C run graph))
      (bindE (authorize_plan C sealed graph (a\<lparr>aa_parent_grant_id := None, aa_authority_budget_id := None\<rparr>)) (\<lambda>grant.
       bindE (liftR (mark_step_authorized run mh (g_grant_id grant))) (\<lambda>updated.
       thenE (put_saga run_id updated)
       (thenE (audit C (saga_entry ''saga.step_authorized'' ''allowed'' (Some (g_grant_id grant)) mh
           (Some (principal_id (aa_issuer a))) [(''run_id'', run_id), (''cursor'', nat_str (sr_cursor updated))]))
         (ret grant)))))))"

definition is_security_denial :: "exn \<Rightarrow> bool" where
  "is_security_denial x \<longleftrightarrow> is_ks x \<and> x \<noteq> PreconditionE StaleManifestError"

definition saga_step_failed :: "('s, 'l, 'o) engine_context \<Rightarrow> string \<Rightarrow> saga_run \<Rightarrow> string \<Rightarrow> exn \<Rightarrow> ('s, 'l, 'o, unit) handler" where
  "saga_step_failed C run_id run mh x =
     bindE (liftR (mark_step_failed run mh (Some (ctx_text C x)))) (\<lambda>updated.
     thenE (put_saga run_id updated)
       (audit C (saga_entry ''saga.step_failed''
          (if sr_status updated = RunCompensating then ''compensating'' else ''aborted'') None mh None
          [(''run_id'', run_id), (''error'', exn_name x)])))"

definition commit_saga_step :: "('s, 'l, 'o) engine_context \<Rightarrow> string \<Rightarrow> sealed_manifest \<Rightarrow> execution_grant \<Rightarrow> effect_adapter
    \<Rightarrow> causal_graph \<Rightarrow> sealed_policy_bundle option \<Rightarrow> bool \<Rightarrow> ('s, 'l, 'o, commit_result) handler" where
  "commit_saga_step C run_id sealed grant adapter graph pb ambiguous =
     (let mh = s_manifest_hash (sm_seal sealed) in
      bindE (get_saga run_id) (\<lambda>run.
      thenE (liftR (check_saga_graph C run graph))
      (thenE (liftR (assert_can_commit_step run mh))
      (thenE (liftR (raise_if (mh \<notin> set (sp_step_manifest_hashes (sr_plan run))) (SagaE SagaIllegalTransitionError)))
      (if ambiguous
       then bindE (liftR (mark_step_ambiguous run mh (Some ''caller reported ambiguous''))) (\<lambda>updated.
            thenE (put_saga run_id updated)
            (thenE (audit C (saga_entry ''saga.step_ambiguous'' ''awaiting_recovery'' (Some (g_grant_id grant)) mh None
                [(''run_id'', run_id)]))
              (raiseE (SagaE SagaAmbiguousStepError))))
       else bindE (on_error (\<lambda>x. \<not> is_security_denial x) (saga_step_failed C run_id run mh)
              (commit C sealed grant adapter pb None (Some graph))) (\<lambda>result.
            bindE (liftR (if cm_success result
                then mark_step_committed run mh True (cm_provider_reference result) (cm_detail result)
                else mark_step_failed run mh (cm_detail result))) (\<lambda>updated.
            thenE (put_saga run_id updated)
            (thenE (audit C (saga_entry ''saga.step_committed'' (if cm_success result then ''success'' else ''failed'')
                (Some (g_grant_id grant)) mh None
                [(''run_id'', run_id), (''provider_reference'', case cm_provider_reference result of None \<Rightarrow> [] | Some r \<Rightarrow> r),
                 (''saga_status'', run_status_value (sr_status updated))]))
              (ret result)))))))))"

definition verify_saga_step :: "('s, 'l, 'o) engine_context \<Rightarrow> string \<Rightarrow> sealed_manifest \<Rightarrow> commit_result \<Rightarrow> effect_adapter
    \<Rightarrow> ('s, 'l, 'o, outcome_proof) handler" where
  "verify_saga_step C run_id sealed result adapter =
     (let mh = s_manifest_hash (sm_seal sealed) in
      bindE (get_saga run_id) (\<lambda>run.
      bindE (verify C (sm_manifest sealed) result adapter) (\<lambda>proof.
      thenE (whenE (op_matched_expected proof)
          (bindE (liftR (mark_step_verified run mh)) (\<lambda>updated.
           thenE (put_saga run_id updated)
             (audit C (saga_entry ''saga.step_verified'' ''matched'' None mh None
                [(''run_id'', run_id), (''saga_status'', run_status_value (sr_status updated))])))))
        (ret proof))))"

definition recover_saga_step :: "('s, 'l, 'o) engine_context \<Rightarrow> string \<Rightarrow> sealed_manifest \<Rightarrow> effect_adapter
    \<Rightarrow> ('s, 'l, 'o, outcome_proof) handler" where
  "recover_saga_step C run_id sealed adapter =
     (let mh = s_manifest_hash (sm_seal sealed) in
      bindE (get_saga run_id) (\<lambda>run.
      thenE (liftR (assert_can_recover_step run mh))
      (bindE (recover_ambiguous_commit C (sm_manifest sealed) adapter) (\<lambda>proof.
       bindE (liftR (saga_recover run mh (op_matched_expected proof) (op_observed_after_state_digest proof) (op_detail proof))) (\<lambda>updated.
       thenE (put_saga run_id updated)
       (thenE (audit C (saga_entry ''saga.step_recovered'' (if op_matched_expected proof then ''evidence_found'' else ''no_evidence'')
           None mh None [(''run_id'', run_id), (''saga_status'', run_status_value (sr_status updated))]))
         (ret proof)))))))"

definition record_saga_compensation :: "('s, 'l, 'o) engine_context \<Rightarrow> string \<Rightarrow> string \<Rightarrow> compensation_status \<Rightarrow> string option
    \<Rightarrow> ('s, 'l, 'o, saga_run) handler" where
  "record_saga_compensation C run_id mh status detail =
     bindE (get_saga run_id) (\<lambda>run.
     bindE (liftR (next_compensation_manifest_hash run)) (\<lambda>expected.
     thenE (liftR (raise_if (expected \<noteq> Some mh) (SagaE SagaIllegalTransitionError)))
     (bindE (liftR (mark_compensation_result run mh status detail)) (\<lambda>updated.
      thenE (put_saga run_id updated)
      (thenE (audit C (saga_entry ''saga.compensation_recorded'' (compensation_status_value status) None mh None
          [(''run_id'', run_id), (''saga_status'', run_status_value (sr_status updated)),
           (''step_status'', case find_step updated mh of None \<Rightarrow> [] | Some st \<Rightarrow> step_status_value (ss_status st))]))
        (ret updated))))))"

end
