(* ===== verification/EngineFrame.thy ===== *)
theory EngineFrame
  imports EngineSaga
begin

text \<open>
  What the handlers leave alone.  A reflexive and transitive relation between the states before and
  after that holds of the primitive calls holds of every handler composed of them.  The contracts
  are locales of growing strength: \<open>audit_frame\<close> for the checks, which only read and record;
  \<open>quiet_frame\<close> for what does not write to the grant store; \<open>engine_frame\<close> for the handlers that neither reserve a grant nor call an adapter; \<open>commit_frame\<close> and
  \<open>compensation_frame\<close> for the phases around the adapter's calls; \<open>call_frame\<close> for every public method,
  given that the acting ones keep the relation; and \<open>effect_frame\<close>, where they do.  They are
  interpreted in the theories that follow.
\<close>

lemma keeps_snd: "keeps R m \<Longrightarrow> R s (snd (m s))"
  by (simp add: keeps_def)

named_theorems frame_intros "handlers that keep a relation"

locale audit_frame =
  fixes C :: "('s, 'l, 'o) engine_context"
    and R :: "('s, 'l, 'o) engine \<Rightarrow> ('s, 'l, 'o) engine \<Rightarrow> bool"
  assumes refl: "reflp R" and trans: "transp R"
    and tick: "R s (s\<lparr>e_tick := t\<rparr>)"
    and journal: "journal_record (ctx_crypto C) am_ops now u f en (e_journal s) = (r, j) \<Longrightarrow> R s (s\<lparr>e_journal := j\<rparr>)"
begin

lemmas pure = keeps_pure [OF refl]

declare keeps_bindE [OF trans, frame_intros] keeps_thenE [OF trans, frame_intros]
  keeps_whenE [OF refl, frame_intros] keeps_on_error [OF trans refl, frame_intros]
  keeps_seqE [OF trans refl, frame_intros] pure [frame_intros]

lemma fresh [frame_intros]: "keeps R (fresh f)"
  using tick by (auto simp: fresh_def keeps_def)

lemma audit_keeps [frame_intros]: "keeps R (audit C en)"
  unfolding audit_def
  by (intro frame_intros keepsI) (auto split: prod.splits sum.splits intro: journal)

lemma check_or_audit_keeps [frame_intros]: "keeps R (check_or_audit C en r)"
  unfolding check_or_audit_def by (auto intro!: frame_intros)

lemma assert_budget_keeps [frame_intros]: "keeps R (assert_authority_budget_registered i)"
  unfolding assert_authority_budget_registered_def by (auto intro!: frame_intros split: option.splits)

lemma propose_keeps [frame_intros]: "keeps R (propose C actor et summary)"
  unfolding propose_def by (intro frame_intros)

lemma check_policy_bundle_keeps [frame_intros]: "keeps R (check_policy_bundle C sealed actor pb)"
  unfolding check_policy_bundle_def by (auto intro!: frame_intros split: option.splits)

lemma enforce_separation_keeps [frame_intros]: "keeps R (enforce_separation_of_duty C sealed actor bundle roles)"
  unfolding enforce_separation_of_duty_def by (auto intro!: frame_intros split: option.splits)

lemma check_quorum_keeps [frame_intros]: "keeps R (check_quorum C sealed statements bundle proposer subject issuer)"
  unfolding check_quorum_def by (intro frame_intros)

lemma deny_keeps [frame_intros]: "keeps R (deny C sealed grant et d x)"
  unfolding deny_def by (intro frame_intros)

lemma deny_if_keeps [frame_intros]: "keeps R (deny_if C sealed grant c et d x)"
  unfolding deny_if_def by (intro frame_intros)

lemma deny_on_keeps [frame_intros]: "keeps R (deny_on p C sealed grant et d r)"
  unfolding deny_on_def by (intro frame_intros)

lemma commit_check_policy_keeps [frame_intros]: "keeps R (commit_check_policy C sealed grant pb)"
  unfolding commit_check_policy_def by (auto intro!: frame_intros split: option.splits)

lemma commit_check_envelope_keeps [frame_intros]: "keeps R (commit_check_envelope C sealed grant envelope)"
  unfolding commit_check_envelope_def by (auto intro!: frame_intros split: option.splits)

lemma commit_check_plan_keeps [frame_intros]: "keeps R (commit_check_plan C sealed grant graph)"
  unfolding commit_check_plan_def by (auto intro!: frame_intros split: option.splits)

lemma commit_check_adapter_keeps [frame_intros]: "keeps R (commit_check_adapter C sealed grant adapter)"
  unfolding commit_check_adapter_def Let_def by (rule frame_intros) (auto intro!: frame_intros)

lemma commit_check_revocation_keeps [frame_intros]: "keeps R (commit_check_revocation C sealed grant)"
  unfolding commit_check_revocation_def by (intro frame_intros)

lemma commit_check_grant_keeps [frame_intros]: "keeps R (commit_check_grant C sealed grant)"
  unfolding commit_check_grant_def by (intro frame_intros)

lemma commit_checks_keeps [frame_intros]: "keeps R (commit_checks C sealed grant adapter pb envelope graph)"
  unfolding commit_checks_def by (rule keeps_seqE [OF trans refl]) (auto intro!: frame_intros)

lemma assess_keeps [frame_intros]: "keeps R (assess C tx bound m facts policy)"
  unfolding assess_def by (intro frame_intros)

lemma evaluate_witnesses_keeps [frame_intros]: "keeps R (evaluate_witnesses C wr sealed statements policy digest actor subject)"
  unfolding evaluate_witnesses_def by (intro frame_intros)

lemma prove_keeps [frame_intros]: "keeps R (prove_with_witness_quorum C wr sealed statements policy digest actor subject)"
  unfolding prove_with_witness_quorum_def by (intro frame_intros)

lemma evaluate_evidence_keeps [frame_intros]: "keeps R (evaluate_evidence C er sealed records ep ed)"
  unfolding evaluate_evidence_def by (intro frame_intros)

lemma assert_evidence_keeps [frame_intros]: "keeps R (engine_assert_evidence_quality C er sealed records ep ed)"
  unfolding engine_assert_evidence_quality_def by (intro frame_intros)

end

text \<open>The transition of a lifecycle, for relations that do not look at records.\<close>

locale transition_frame = audit_frame +
  assumes lifecycle: "R s (s\<lparr>e_lifecycle := lc\<rparr>)"
    and records: "R s (s\<lparr>e_records := rs\<rparr>)"
begin

lemma lifecycle_get_keeps [frame_intros]: "keeps R (lifecycle_get C mid)"
  using refl by (intro keepsI) (auto simp: lifecycle_get_def reflpD split: option.splits)

lemma lifecycle_cas_keeps [frame_intros]: "keeps R (lifecycle_cas C mid expected new)"
  unfolding lifecycle_cas_def using refl
  by (intro frame_intros keepsI) (auto simp: lifecycle reflpD split: prod.splits option.splits)

lemma put_record_keeps [frame_intros]: "keeps R (put_record mid lr)"
  using records by (auto simp: put_record_def modS_def keeps_def)

lemma persist_keeps [frame_intros]: "keeps R (persist_lifecycle C mid from_state target)"
  unfolding persist_lifecycle_def by (auto intro!: frame_intros)

lemma any_record_keeps [frame_intros]: "keeps R (get_record C mid)"
  unfolding get_record_def Let_def by (auto intro!: frame_intros split: option.splits)

lemma transition_keeps [frame_intros]: "keeps R (transition C mid target a)"
  unfolding transition_def Let_def by (auto intro!: frame_intros split: sum.splits)

end

locale quiet_frame = audit_frame +
  assumes budget: "R s (s\<lparr>e_budget := b\<rparr>)"
    and outbox: "R s (s\<lparr>e_outbox := ob\<rparr>)"
    and sagas: "R s (s\<lparr>e_saga_runs := runs\<rparr>)"
    and new_record: "e_records s mid = None \<Longrightarrow> R s (s\<lparr>e_records := (e_records s)(mid := Some lr)\<rparr>)"
    and transition: "keeps R (transition C mid target a)"
begin

declare transition [frame_intros]

lemma on_budget_keeps [frame_intros]: "keeps R (on_budget f)"
  using refl by (intro keepsI) (auto simp: on_budget_def budget reflpD split: prod.splits option.splits)

lemma outbox_call_keeps [frame_intros]: "keeps R (outbox_call C c)"
  unfolding outbox_call_def using refl
  by (intro frame_intros keepsI) (auto simp: outbox reflpD split: prod.splits option.splits)

lemma outbox_get_keeps [frame_intros]: "keeps R (outbox_get C k)"
  using refl by (intro keepsI) (auto simp: outbox_get_def reflpD split: option.splits)

lemma put_saga_keeps [frame_intros]: "keeps R (put_saga i run)"
  using sagas by (auto simp: put_saga_def modS_def keeps_def)

lemma get_saga_keeps [frame_intros]: "keeps R (get_saga i)"
  unfolding get_saga_def by (auto intro!: frame_intros split: option.splits)

lemma get_record_keeps [frame_intros]: "keeps R (get_record C mid)"
proof (rule keepsI)
  fix s x s'
  assume "get_record C mid s = (x, s')"
  then show "R s s'"
    using refl new_record [of s mid]
    by (auto simp: get_record_def bindE_def thenE_def getS_def ret_def lifecycle_get_def put_record_def modS_def
        Let_def reflpD split: option.splits prod.splits sum.splits)
qed

lemma get_lifecycle_state_keeps [frame_intros]: "keeps R (get_lifecycle_state C mid)"
  unfolding get_lifecycle_state_def by (auto intro!: frame_intros)

lemma prepare_keeps [frame_intros]: "keeps R (prepare C adapter)"
  unfolding prepare_def by (intro frame_intros)

lemma prepare_compensation_keeps [frame_intros]: "keeps R (prepare_compensation C m original)"
  unfolding prepare_compensation_def by (intro frame_intros)

lemma seal_keeps [frame_intros]: "keeps R (seal C m key)"
  unfolding seal_def by (intro frame_intros)

lemma issue_and_transition_keeps [frame_intros]: "keeps R (issue_and_transition C sealed a b meta)"
  unfolding issue_and_transition_def Let_def by (intro frame_intros)

lemma authorize_with_envelope_keeps [frame_intros]: "keeps R (authorize_with_envelope C sealed envelope a)"
  unfolding authorize_with_envelope_def Let_def by (intro frame_intros)

lemma authorize_plan_keeps [frame_intros]: "keeps R (authorize_plan C sealed graph a)"
  unfolding authorize_plan_def Let_def by (intro frame_intros)

lemma authorize_with_quorum_keeps [frame_intros]: "keeps R (authorize_with_quorum C sealed statements bundle proposer a)"
  unfolding authorize_with_quorum_def Let_def by (intro frame_intros)

lemma commit_reserve_budget_keeps [frame_intros]: "keeps R (commit_reserve_budget C sealed grant)"
  unfolding commit_reserve_budget_def by (auto intro!: frame_intros split: option.splits)

lemma release_budget_keeps [frame_intros]: "keeps R (release_budget grant amount)"
  unfolding release_budget_def by (auto intro!: frame_intros split: option.splits)

lemma abandon_outbox_keeps [frame_intros]: "keeps R (abandon_outbox C m pending)"
  unfolding abandon_outbox_def by (intro frame_intros)

lemma confirm_outbox_keeps [frame_intros]: "keeps R (confirm_outbox C m pending out)"
  unfolding confirm_outbox_def by (auto intro!: frame_intros)

lemma list_pending_outbox_keeps [frame_intros]: "keeps R (list_pending_outbox C)"
  unfolding list_pending_outbox_def by (auto intro!: frame_intros split: option.splits)

lemma verify_keeps [frame_intros]: "keeps R (verify C m result adapter)"
  unfolding verify_def by (intro frame_intros)

lemma begin_saga_keeps [frame_intros]: "keeps R (begin_saga C graph saga_id run_id actor)"
  unfolding begin_saga_def Let_def by (intro frame_intros)

lemma authorize_saga_step_keeps [frame_intros]: "keeps R (authorize_saga_step C run_id sealed graph a)"
  unfolding authorize_saga_step_def Let_def by (intro frame_intros)

lemma saga_step_failed_keeps [frame_intros]: "keeps R (saga_step_failed C run_id run mh x)"
  unfolding saga_step_failed_def by (intro frame_intros)

lemma verify_saga_step_keeps [frame_intros]: "keeps R (verify_saga_step C run_id sealed result adapter)"
  unfolding verify_saga_step_def Let_def by (intro frame_intros)

lemma record_saga_compensation_keeps [frame_intros]: "keeps R (record_saga_compensation C run_id mh status detail)"
  unfolding record_saga_compensation_def by (intro frame_intros)

end

locale engine_frame = quiet_frame +
  assumes revoke_store: "keeps R (store_revoke C g)"
    and outcome_store: "keeps R (store_record_outcome C k out)"
    and lineage_store: "keeps R (store_record_lineage C g p)"
begin

declare revoke_store [frame_intros] outcome_store [frame_intros] lineage_store [frame_intros]

lemma record_grant_lineage_keeps [frame_intros]: "keeps R (record_grant_lineage C g)"
  unfolding record_grant_lineage_def by (auto intro!: frame_intros)

lemma authorize_keeps [frame_intros]: "keeps R (authorize C sealed a)"
  unfolding authorize_def Let_def by (intro frame_intros)

lemma delegate_keeps [frame_intros]: "keeps R (delegate C parent a)"
  unfolding delegate_def by (intro frame_intros)

lemma recover_backfill_keeps [frame_intros]: "keeps R (recover_backfill C m out)"
  unfolding recover_backfill_def by (auto intro!: frame_intros)

lemma recover_keeps [frame_intros]: "keeps R (recover_ambiguous_commit C m adapter)"
  unfolding recover_ambiguous_commit_def by (intro frame_intros)

lemma revoke_keeps [frame_intros]: "keeps R (revoke C grant mid by)"
  unfolding revoke_def by (auto intro!: frame_intros)

lemma authorize_compensation_keeps [frame_intros]: "keeps R (authorize_compensation C original compensation a)"
  unfolding authorize_compensation_def by (intro frame_intros)

lemma recover_saga_step_keeps [frame_intros]: "keeps R (recover_saga_step C run_id sealed adapter)"
  unfolding recover_saga_step_def Let_def by (intro frame_intros)

end

section \<open>Around the adapter's call\<close>

locale commit_frame = engine_frame +
  assumes reserve_store: "keeps R (store_reserve C g n)"
    and release_store: "keeps R (store_release C g)"
    and commit_store: "keeps R (store_commit C g k out)"
begin

declare reserve_store [frame_intros] release_store [frame_intros] commit_store [frame_intros]

lemma commit_reserve_grant_keeps [frame_intros]: "keeps R (commit_reserve_grant C sealed grant amount)"
  unfolding commit_reserve_grant_def by (intro frame_intros)

lemma release_all_keeps [frame_intros]: "keeps R (release_all C grant amount)"
  unfolding release_all_def by (intro frame_intros)

lemma commit_enter_keeps [frame_intros]: "keeps R (commit_enter C sealed grant amount)"
  unfolding commit_enter_def by (intro frame_intros)

lemma commit_record_outbox_keeps [frame_intros]: "keeps R (commit_record_outbox C sealed grant amount)"
  unfolding commit_record_outbox_def by (auto intro!: frame_intros)

lemma commit_replay_keeps [frame_intros]: "keeps R (commit_replay C sealed grant amount pending out)"
  unfolding commit_replay_def Let_def by (intro frame_intros)

lemma commit_fail_keeps [frame_intros]: "keeps R (commit_fail C sealed grant amount abandon et meta)"
  unfolding commit_fail_def by (intro frame_intros)

lemma commit_preconditions_keeps [frame_intros]: "keeps R (commit_preconditions C sealed grant adapter amount pending)"
  unfolding commit_preconditions_def by (intro frame_intros)

lemma commit_finalize_keeps [frame_intros]: "keeps R (commit_finalize C sealed grant amount pending result)"
  unfolding commit_finalize_def Let_def by (auto intro!: frame_intros split: option.splits)

lemma compensation_check_policy_keeps [frame_intros]: "keeps R (compensation_check_policy C sealed grant pb)"
  unfolding compensation_check_policy_def by (auto intro!: frame_intros split: option.splits)

lemma compensation_checks_keeps [frame_intros]: "keeps R (compensation_checks C original compensation grant adapter pb)"
  unfolding compensation_checks_def by (auto intro!: frame_intros)

lemma compensation_finish_keeps [frame_intros]: "keeps R (compensation_finish C original compensation grant st result)"
  unfolding compensation_finish_def Let_def by (auto intro!: frame_intros)

end

text \<open>A relation that looks at one field other than the store holds around the adapter's call.\<close>

locale field_frame = transition_frame +
  assumes field_budget: "R s (s\<lparr>e_budget := b\<rparr>)"
    and field_outbox: "R s (s\<lparr>e_outbox := ob\<rparr>)"
    and field_sagas: "R s (s\<lparr>e_saga_runs := runs\<rparr>)"
    and field_store: "R s (s\<lparr>e_store := st\<rparr>)"
begin

lemma on_store_keeps: "keeps R (on_store C f)"
  unfolding on_store_def by (intro frame_intros keepsI) (auto simp: field_store split: prod.splits)

end

sublocale field_frame \<subseteq> commit_frame
  by unfold_locales
    (auto simp: field_budget field_outbox field_sagas records transition_keeps on_store_keeps store_revoke_def
      store_record_outcome_def store_record_lineage_def store_reserve_def store_release_def store_commit_def)

locale compensation_frame = commit_frame +
  assumes compensate_call: "keeps R (adapter_compensate adapter m result)"
begin

declare compensate_call [frame_intros]

lemma compensation_execute_keeps [frame_intros]: "keeps R (compensation_execute C original compensation grant adapter oc)"
  unfolding compensation_execute_def Let_def by (intro frame_intros)

lemma commit_compensation_keeps [frame_intros]: "keeps R (commit_compensation C original compensation grant adapter oc pb)"
  unfolding commit_compensation_def by (intro frame_intros)

lemma compensate_keeps [frame_intros]: "keeps R (compensate C m result adapter)"
  unfolding compensate_def Let_def by (auto intro!: frame_intros)

end

section \<open>Any call of the engine\<close>

text \<open>The public methods with their arguments.  Seeding a lifecycle state, which bypasses the state
  machine by design, is not among them.\<close>

datatype engine_op =
    CallPropose principal string "(string \<times> string) list"
  | CallPrepare effect_adapter
  | CallPrepareCompensation effect_manifest sealed_manifest
  | CallSeal effect_manifest signing_key
  | CallAuthorize sealed_manifest authorize_args
  | CallAuthorizeWithEnvelope sealed_manifest decision_envelope authorize_args
  | CallAuthorizePlan sealed_manifest causal_graph authorize_args
  | CallAuthorizeWithQuorum sealed_manifest "approval_statement list" sealed_policy_bundle principal authorize_args
  | CallDelegate execution_grant delegate_args
  | CallCommit sealed_manifest execution_grant effect_adapter "sealed_policy_bundle option" "decision_envelope option" "causal_graph option"
  | CallRecoverAmbiguousCommit effect_manifest effect_adapter
  | CallListPendingOutbox
  | CallVerify effect_manifest commit_result effect_adapter
  | CallAuthorizeCompensation sealed_manifest sealed_manifest authorize_args
  | CallCommitCompensation sealed_manifest sealed_manifest execution_grant effect_adapter commit_result "sealed_policy_bundle option"
  | CallCompensate effect_manifest commit_result effect_adapter
  | CallRevoke execution_grant string principal
  | CallBeginSaga causal_graph string string "string option"
  | CallAuthorizeSagaStep string sealed_manifest causal_graph authorize_args
  | CallCommitSagaStep string sealed_manifest execution_grant effect_adapter causal_graph "sealed_policy_bundle option" bool
  | CallVerifySagaStep string sealed_manifest commit_result effect_adapter
  | CallRecoverSagaStep string sealed_manifest effect_adapter
  | CallRecordSagaCompensation string string compensation_status "string option"
  | CallAssess text_ops intelligence_policy effect_manifest "assessment_facts option" "intelligence_policy option"
  | CallEvaluateWitnesses "witness_rejection \<Rightarrow> string" sealed_manifest "witness_statement list" witness_policy string principal principal
  | CallProveWithWitnessQuorum "witness_rejection \<Rightarrow> string" sealed_manifest "witness_statement list" witness_policy string principal principal
  | CallEvaluateEvidence "evidence_rejection \<Rightarrow> string" sealed_manifest "evidence_record list" evidence_policy "string option"
  | CallAssertEvidenceQuality "evidence_rejection \<Rightarrow> string" sealed_manifest "evidence_record list" evidence_policy "string option"
  | CallGetLifecycleState string

primrec engine_call :: "('s, 'l, 'o) engine_context \<Rightarrow> engine_op \<Rightarrow> ('s, 'l, 'o) engine \<Rightarrow> ('s, 'l, 'o) engine" where
  "engine_call C (CallPropose p et su) s = snd (propose C p et su s)"
| "engine_call C (CallPrepare a) s = snd (prepare C a s)"
| "engine_call C (CallPrepareCompensation m os) s = snd (prepare_compensation C m os s)"
| "engine_call C (CallSeal m k) s = snd (seal C m k s)"
| "engine_call C (CallAuthorize sm a) s = snd (authorize C sm a s)"
| "engine_call C (CallAuthorizeWithEnvelope sm e a) s = snd (authorize_with_envelope C sm e a s)"
| "engine_call C (CallAuthorizePlan sm g a) s = snd (authorize_plan C sm g a s)"
| "engine_call C (CallAuthorizeWithQuorum sm ss b p a) s = snd (authorize_with_quorum C sm ss b p a s)"
| "engine_call C (CallDelegate g a) s = snd (delegate C g a s)"
| "engine_call C (CallCommit sm g a pb e cg) s = snd (commit C sm g a pb e cg s)"
| "engine_call C (CallRecoverAmbiguousCommit m a) s = snd (recover_ambiguous_commit C m a s)"
| "engine_call C CallListPendingOutbox s = snd (list_pending_outbox C s)"
| "engine_call C (CallVerify m r a) s = snd (verify C m r a s)"
| "engine_call C (CallAuthorizeCompensation os cs a) s = snd (authorize_compensation C os cs a s)"
| "engine_call C (CallCommitCompensation os cs g a oc pb) s = snd (commit_compensation C os cs g a oc pb s)"
| "engine_call C (CallCompensate m r a) s = snd (compensate C m r a s)"
| "engine_call C (CallRevoke g mid p) s = snd (revoke C g mid p s)"
| "engine_call C (CallBeginSaga g i r p) s = snd (begin_saga C g i r p s)"
| "engine_call C (CallAuthorizeSagaStep r sm g a) s = snd (authorize_saga_step C r sm g a s)"
| "engine_call C (CallCommitSagaStep r sm g a cg pb amb) s = snd (commit_saga_step C r sm g a cg pb amb s)"
| "engine_call C (CallVerifySagaStep r sm cr a) s = snd (verify_saga_step C r sm cr a s)"
| "engine_call C (CallRecoverSagaStep r sm a) s = snd (recover_saga_step C r sm a s)"
| "engine_call C (CallRecordSagaCompensation r mh st d) s = snd (record_saga_compensation C r mh st d s)"
| "engine_call C (CallAssess tx b m f p) s = snd (assess C tx b m f p s)"
| "engine_call C (CallEvaluateWitnesses wr sm ss p d a su) s = snd (evaluate_witnesses C wr sm ss p d a su s)"
| "engine_call C (CallProveWithWitnessQuorum wr sm ss p d a su) s = snd (prove_with_witness_quorum C wr sm ss p d a su s)"
| "engine_call C (CallEvaluateEvidence er sm rs p d) s = snd (evaluate_evidence C er sm rs p d s)"
| "engine_call C (CallAssertEvidenceQuality er sm rs p d) s = snd (engine_assert_evidence_quality C er sm rs p d s)"
| "engine_call C (CallGetLifecycleState mid) s = snd (get_lifecycle_state C mid s)"

text \<open>A history: calls, each with the context it meets.\<close>

definition engine_run :: "('s, 'l, 'o) engine \<Rightarrow> (('s, 'l, 'o) engine_context \<times> engine_op) list \<Rightarrow> ('s, 'l, 'o) engine" where
  "engine_run s cs = foldl (\<lambda>s (C, c). engine_call C c s) s cs"

text \<open>The grants a call presents for execution.\<close>

fun presented :: "engine_op \<Rightarrow> execution_grant list" where
  "presented (CallCommit sm g a pb e cg) = [g]"
| "presented (CallCommitCompensation os cs g a oc pb) = [g]"
| "presented (CallCommitSagaStep r sm g a cg pb amb) = [g]"
| "presented _ = []"

text \<open>With the handlers that act on the outside world known to keep a relation, all do.\<close>

locale call_frame = engine_frame +
  fixes ok :: "execution_grant \<Rightarrow> bool"
  assumes commit_handler: "ok grant \<Longrightarrow> keeps R (commit C sealed grant adapter pb envelope graph)"
    and commit_compensation_handler: "ok grant \<Longrightarrow> keeps R (commit_compensation C original compensation grant adapter oc pb)"
    and compensate_handler: "keeps R (compensate C m result adapter)"
begin

lemma commit_saga_step_keeps: "ok grant \<Longrightarrow> keeps R (commit_saga_step C run_id sealed grant adapter graph pb ambiguous)"
  unfolding commit_saga_step_def Let_def by (auto intro!: frame_intros commit_handler)

lemma call_keeps: "\<forall>g \<in> set (presented c). ok g \<Longrightarrow> R s (engine_call C c s)"
  by (cases c) (simp_all add: keeps_snd frame_intros commit_handler commit_compensation_handler compensate_handler commit_saga_step_keeps)

end

locale effect_frame = commit_frame +
  assumes effects: "R s (s\<lparr>e_effects := xs\<rparr>)"
begin

lemma adapter_calls_keep [frame_intros]: "keeps R (adapter_commit adapter m grant)" "keeps R (adapter_compensate adapter m result)"
  using effects by (auto simp: keeps_def adapter_commit_def adapter_compensate_def Let_def)

lemma commit_execute_keeps [frame_intros]: "keeps R (commit_execute C sealed grant adapter amount pending)"
  unfolding commit_execute_def by (auto intro!: frame_intros)

lemma commit_committing_keeps [frame_intros]: "keeps R (commit_committing C sealed grant adapter amount)"
  unfolding commit_committing_def by (auto intro!: frame_intros split: option.splits)

lemma commit_keeps [frame_intros]: "keeps R (commit C sealed grant adapter pb envelope graph)"
  unfolding commit_def by (intro frame_intros)

end

sublocale effect_frame \<subseteq> compensation_frame
  by unfold_locales (rule adapter_calls_keep)

sublocale effect_frame \<subseteq> call_frame C R "\<lambda>_. True"
  by unfold_locales (rule commit_keeps commit_compensation_keeps compensate_keeps)+

end
