(* ===== verification/EngineSafety.thy ===== *)
theory EngineSafety
  imports EngineFrame
begin

text \<open>
  Safety of the engine: its journal is never damaged, its lifecycle records only move along legal
  transitions, no effect is performed unless every check of \<^verbatim>\<open>commit\<close> passed, and the adapter's commit
  is called at most once per manifest.
\<close>

section \<open>The frames\<close>

definition same_effects :: "('s, 'l, 'o) engine \<Rightarrow> ('s, 'l, 'o) engine \<Rightarrow> bool" where
  "same_effects s s' \<longleftrightarrow> e_effects s' = e_effects s"

definition same_store :: "('s, 'l, 'o) engine \<Rightarrow> ('s, 'l, 'o) engine \<Rightarrow> bool" where
  "same_store s s' \<longleftrightarrow> e_store s' = e_store s \<and> e_budget s' = e_budget s"

definition journal_grows :: "crypto \<Rightarrow> ('s, 'l, 'o) engine \<Rightarrow> ('s, 'l, 'o) engine \<Rightarrow> bool" where
  "journal_grows cr s s' \<longleftrightarrow> (\<exists>es. e_journal s' = e_journal s @ es)
     \<and> (verify_chain cr am_ops (e_journal s) = Inr () \<longrightarrow> verify_chain cr am_ops (e_journal s') = Inr ())"

definition same_records :: "('s, 'l, 'o) engine \<Rightarrow> ('s, 'l, 'o) engine \<Rightarrow> bool" where
  "same_records s s' \<longleftrightarrow> e_records s' = e_records s"

abbreviation legal_path :: "lifecycle_state \<Rightarrow> lifecycle_state \<Rightarrow> bool" where
  "legal_path \<equiv> is_legal_transition\<^sup>*\<^sup>*"

text \<open>A record the engine holds stays, in a state reached by legal transitions.\<close>

definition records_advance :: "('s, 'l, 'o) engine \<Rightarrow> ('s, 'l, 'o) engine \<Rightarrow> bool" where
  "records_advance s s' \<longleftrightarrow> (\<forall>mid r. e_records s mid = Some r \<longrightarrow>
     (\<exists>r'. e_records s' mid = Some r' \<and> legal_path (lr_state r) (lr_state r')))"

interpretation eff: field_frame C same_effects for C
  by unfold_locales (auto simp: same_effects_def intro: reflpI transpI)

interpretation sto: transition_frame C same_store for C
  by unfold_locales (auto simp: same_store_def intro: reflpI transpI)

lemma journal_record_prefix:
  "journal_record cr am_ops now u f en js = (r, js') \<Longrightarrow> \<exists>es. js' = js @ es"
  by (auto simp: journal_record_def am_ops_def am_append_def split: sum.splits if_splits)

lemma journal_grows_record:
  assumes "journal_record cr am_ops now u f en (e_journal s) = (r, j)"
  shows "journal_grows cr s (s\<lparr>e_journal := j\<rparr>)"
  using journal_record_prefix [OF assms] am.record_chain(1) [OF _ assms] by (auto simp: journal_grows_def)

interpretation jf: field_frame C "journal_grows (ctx_crypto C)" for C
proof unfold_locales
  show "reflp (journal_grows (ctx_crypto C))" "transp (journal_grows (ctx_crypto C))"
    by (auto simp: journal_grows_def intro!: reflpI transpI)
qed (auto simp: journal_grows_record, auto simp: journal_grows_def)

interpretation jou: effect_frame C "journal_grows (ctx_crypto C)" for C
  by unfold_locales (simp add: journal_grows_def)

text \<open>C6. Whatever the engine is asked to do, in whatever order, and whichever audit writes and store
  calls fail: the journal only grows at its end, and its hash chain verifies.\<close>

theorem engine_journal_intact:
  assumes "\<forall>(C, c) \<in> set cs. ctx_crypto C = cr" "verify_chain cr am_ops (e_journal s) = Inr ()"
  shows "verify_chain cr am_ops (e_journal (engine_run s cs)) = Inr ()
     \<and> (\<exists>es. e_journal (engine_run s cs) = e_journal s @ es)"
  using assms
proof (induction cs arbitrary: s)
  case (Cons x cs)
  obtain C c where x: "x = (C, c)" by (cases x)
  then have "journal_grows cr s (engine_call C c s)"
    using jou.call_keeps [of c C s] Cons.prems(1) by auto
  then have g: "\<exists>es. e_journal (engine_call C c s) = e_journal s @ es"
      "verify_chain cr am_ops (e_journal (engine_call C c s)) = Inr ()"
    using Cons.prems(2) by (simp_all add: journal_grows_def)
  have "verify_chain cr am_ops (e_journal (engine_run (engine_call C c s) cs)) = Inr ()
     \<and> (\<exists>es. e_journal (engine_run (engine_call C c s) cs) = e_journal (engine_call C c s) @ es)"
    using Cons.IH g(2) Cons.prems(1) by simp
  then show ?case
    using g(1) x by (auto simp: engine_run_def)
qed (simp add: engine_run_def)

section \<open>Lifecycle records\<close>

interpretation rec: audit_frame C same_records for C
  by unfold_locales (auto simp: same_records_def intro: reflpI transpI)

lemma persist_same_records: "persist_lifecycle C mid from_state target s = (x, s') \<Longrightarrow> e_records s' = e_records s"
proof -
  have "keeps same_records (lifecycle_get C m)" "keeps same_records (lifecycle_cas C m e n)" for m e n
    unfolding lifecycle_get_def lifecycle_cas_def
    by (auto simp: keeps_def same_records_def bindE_def fresh_def split: option.splits prod.splits)
  then have "keeps same_records (persist_lifecycle C mid from_state target)"
    unfolding persist_lifecycle_def by (auto intro!: frame_intros)
  then show "persist_lifecycle C mid from_state target s = (x, s') \<Longrightarrow> e_records s' = e_records s"
    by (auto dest: keepsD simp: same_records_def)
qed

lemma audit_same_records: "audit C en s = (x, s') \<Longrightarrow> e_records s' = e_records s"
  using keepsD [OF rec.audit_keeps] by (auto simp: same_records_def)

lemma fresh_iff [monad_simps]: "fresh f s = (x, s') \<longleftrightarrow> x = Inr (f (e_tick s)) \<and> s' = s\<lparr>e_tick := Suc (e_tick s)\<rparr>"
  by (auto simp: fresh_def)

lemma put_record_iff [monad_simps]:
  "put_record mid r s = (x, s') \<longleftrightarrow> x = Inr () \<and> s' = s\<lparr>e_records := (e_records s)(mid := Some r)\<rparr>"
  by (auto simp: put_record_def modS_def)

lemma get_record_outcome:
  assumes "get_record C mid s = (x, s')"
  shows "(\<exists>e. x = Inl e \<and> s' = s) \<or>
     (\<exists>r. x = Inr r \<and> s' = s\<lparr>e_records := (e_records s)(mid := Some r)\<rparr> \<and> (\<forall>q. e_records s mid = Some q \<longrightarrow> r = q))"
  using assms
  by (auto simp: get_record_def bindE_def thenE_def getS_def ret_def lifecycle_get_def put_record_def modS_def Let_def
      fun_upd_idem split: option.splits prod.splits sum.splits)

text \<open>The part of a transition after the record has moved: it stays moved, or is put back when the
  durable store refuses.\<close>

definition after_move :: "('s, 'l, 'o) engine_context \<Rightarrow> string \<Rightarrow> lifecycle_state \<Rightarrow> lifecycle_state
    \<Rightarrow> (string \<Rightarrow> audit_entry) \<Rightarrow> lifecycle_record \<Rightarrow> ('s, 'l, 'o, unit) handler" where
  "after_move C mid from_state target entry moved =
     thenE (on_error (\<lambda>x. x = store_unavailable)
        (\<lambda>_. thenE (put_record mid \<lparr>lr_manifest_id = mid, lr_state = from_state, lr_history = butlast (lr_history moved)\<rparr>)
               (audit C (entry ''blocked_lifecycle_store_unavailable'')))
        (persist_lifecycle C mid from_state target))
     (audit C (entry ''allowed''))"

lemma after_move_outcome:
  assumes "after_move C mid from_state target entry moved s = (x, s')" "e_records s mid = Some moved"
  shows "\<exists>r'. e_records s' = (e_records s)(mid := Some r')
     \<and> (r' = moved \<or> lr_state r' = from_state \<and> \<not> is_ok x)"
proof -
  let ?undone = "\<lparr>lr_manifest_id = mid, lr_state = from_state, lr_history = butlast (lr_history moved)\<rparr>"
  obtain y s1 where p: "persist_lifecycle C mid from_state target s = (y, s1)" by fastforce
  note same = persist_same_records [OF p]
  have unchanged: "e_records q = (e_records s)(mid := Some moved)" if "e_records q = e_records s" for q :: "('a, 'b, 'c) engine"
    using that assms(2) by auto
  show ?thesis
  proof (cases y)
    case (Inr u)
    then have "audit C (entry ''allowed'') s1 = (x, s')"
      using assms(1) p by (simp add: after_move_def thenE_def bindE_def on_error_def)
    then show ?thesis
      using audit_same_records same unchanged by metis
  next
    case (Inl e)
    show ?thesis
    proof (cases "e = store_unavailable")
      case True
      obtain z s2 where a: "audit C (entry ''blocked_lifecycle_store_unavailable'')
          (s1\<lparr>e_records := (e_records s1)(mid := Some ?undone)\<rparr>) = (z, s2)" by fastforce
      then have "s' = s2" "\<not> is_ok x"
        using assms(1) p Inl True
        by (auto simp: after_move_def thenE_def bindE_def on_error_def raiseE_def put_record_def modS_def split: sum.splits)
      then have "e_records s' = (e_records s)(mid := Some ?undone)"
        using audit_same_records [OF a] same by simp
      then show ?thesis using \<open>\<not> is_ok x\<close> by force
    next
      case False
      then have "s' = s1"
        using assms(1) p Inl by (simp add: after_move_def thenE_def bindE_def on_error_def)
      then show ?thesis using same unchanged by metis
    qed
  qed
qed

text \<open>What a transition does to the records.\<close>

lemma transition_outcome:
  assumes "transition C mid target a s = (x, s')"
  shows "e_records s' = e_records s \<and> \<not> is_ok x \<or>
     (\<exists>r r'. (\<forall>q. e_records s mid = Some q \<longrightarrow> r = q) \<and> e_records s' = (e_records s)(mid := Some r')
        \<and> (lr_state r' = lr_state r \<and> \<not> is_ok x \<or> lr_state r' = target \<and> is_legal_transition (lr_state r) target))"
proof -
  obtain y s1 where g: "get_record C mid s = (y, s1)" by fastforce
  show ?thesis
  proof (cases y)
    case (Inl e)
    then show ?thesis
      using assms get_record_outcome [OF g] g by (auto simp: transition_def bindE_def)
  next
    case (Inr r)
    then have r: "e_records s1 = (e_records s)(mid := Some r)" "\<forall>q. e_records s mid = Some q \<longrightarrow> r = q"
      using get_record_outcome [OF g] by auto
    let ?s = "s1\<lparr>e_tick := Suc (e_tick s1)\<rparr>" and ?entry = "transition_entry mid (lr_state r) target a"
    show ?thesis
    proof (cases "record_transition r target (ctx_now C (e_tick s1))")
      case (Inl e)
      then have "\<not> is_ok x \<and> e_records s' = e_records ?s"
        using assms g Inr
        by (auto simp: transition_def bindE_def thenE_def fresh_def Let_def raiseE_def
            dest!: audit_same_records split: if_splits prod.splits sum.splits)
      then show ?thesis using r by auto
    next
      case (Inr moved)
      then have legal: "is_legal_transition (lr_state r) target" "lr_state moved = target"
        by (auto simp: record_transition_ok_iff)
      have "after_move C mid (lr_state r) target ?entry moved (?s\<lparr>e_records := (e_records ?s)(mid := Some moved)\<rparr>) = (x, s')"
        using assms g \<open>y = Inr r\<close> Inr
        by (simp add: transition_def after_move_def bindE_def thenE_def fresh_def Let_def put_record_def modS_def)
      from after_move_outcome [OF this] obtain r' where "e_records s' = (e_records s)(mid := Some r')"
        "r' = moved \<or> lr_state r' = lr_state r \<and> \<not> is_ok x"
        using r(1) by auto
      then show ?thesis using legal r(2) by blast
    qed
  qed
qed

lemma transition_ok_state:
  assumes "transition C mid target a s = (Inr u, s')"
  shows "\<exists>r r'. (\<forall>q. e_records s mid = Some q \<longrightarrow> r = q) \<and> e_records s' = (e_records s)(mid := Some r')
     \<and> lr_state r' = target \<and> is_legal_transition (lr_state r) target"
  using transition_outcome [OF assms] by auto

lemma transition_advances: "keeps records_advance (transition C mid target a)"
proof (rule keepsI)
  fix s x s'
  assume "transition C mid target a s = (x, s')"
  from transition_outcome [OF this] show "records_advance s s'"
    by (elim disjE exE conjE) (auto simp: records_advance_def)
qed

lemma store_calls_advance:
  "keeps records_advance (store_reserve C g n)" "keeps records_advance (store_release C g)"
  "keeps records_advance (store_commit C g k out)" "keeps records_advance (store_revoke C g)"
  "keeps records_advance (store_record_outcome C k out)" "keeps records_advance (store_record_lineage C g p)"
  by (auto simp: keeps_def records_advance_def store_reserve_def store_release_def store_commit_def store_revoke_def
      store_record_outcome_def store_record_lineage_def on_store_def bindE_def fresh_def split: prod.splits)

interpretation adv: effect_frame C records_advance for C
proof unfold_locales
  show "reflp records_advance"
    by (auto simp: records_advance_def intro!: reflpI)
  show "transp records_advance"
    by (rule transpI) (unfold records_advance_def, meson rtranclp_trans)
qed (auto simp: store_calls_advance transition_advances, auto simp: records_advance_def)

text \<open>C7. Over any history of calls, whatever fails, each lifecycle record the engine holds is moved
  only along legal transitions of the state machine.\<close>

theorem engine_lifecycle_legal:
  "e_records s mid = Some r \<Longrightarrow>
     \<exists>r'. e_records (engine_run s cs) mid = Some r' \<and> legal_path (lr_state r) (lr_state r')"
proof (induction cs arbitrary: s r)
  case (Cons x cs)
  obtain C c where x: "x = (C, c)" by (cases x)
  obtain r1 where r1: "e_records (engine_call C c s) mid = Some r1" "legal_path (lr_state r) (lr_state r1)"
    using adv.call_keeps [where c = c and C = C and s = s] Cons.prems by (auto simp: records_advance_def)
  then show ?case
    using Cons.IH [OF r1(1)] x by (auto simp: engine_run_def intro: rtranclp_trans)
qed (auto simp: engine_run_def)

section \<open>Complete mediation\<close>

lemma same_effectsD: "keeps same_effects m \<Longrightarrow> m s = (x, s') \<Longrightarrow> e_effects s' = e_effects s"
  by (auto dest: keepsD simp: same_effects_def)

lemmas effect_frames = eff.commit_fail_keeps eff.commit_finalize_keeps eff.commit_replay_keeps
  eff.commit_preconditions_keeps eff.commit_record_outbox_keeps eff.commit_checks_keeps
  eff.commit_reserve_budget_keeps eff.commit_reserve_grant_keeps eff.commit_enter_keeps

lemmas effect_frameD = effect_frames [THEN same_effectsD]

abbreviation commit_effect :: "sealed_manifest \<Rightarrow> execution_grant \<Rightarrow> bool \<Rightarrow> effect" where
  "commit_effect sealed grant ok \<equiv>
     Committed_effect (m_manifest_id (sm_manifest sealed)) (g_grant_id grant) (m_idempotency_key (sm_manifest sealed)) ok"

definition reports_success :: "effect_adapter \<Rightarrow> effect_manifest \<Rightarrow> execution_grant \<Rightarrow> bool" where
  "reports_success adapter m grant \<longleftrightarrow> (case ad_commit adapter m grant of Inl _ \<Rightarrow> False | Inr c \<Rightarrow> cm_success c)"

lemma commit_execute_effects:
  assumes "commit_execute C sealed grant adapter amount pending s = (x, s')"
  shows "e_effects s' = e_effects s @ [commit_effect sealed grant (reports_success adapter (sm_manifest sealed) grant)]"
proof -
  let ?m = "sm_manifest sealed"
  define s1 where "s1 = s\<lparr>e_effects := e_effects s @ [commit_effect sealed grant (reports_success adapter ?m grant)]\<rparr>"
  have a: "adapter_commit adapter ?m grant s = (ad_commit adapter ?m grant, s1)"
    by (simp add: adapter_commit_def s1_def reports_success_def Let_def)
  have "e_effects s' = e_effects s1"
  proof (cases "ad_commit adapter ?m grant")
    case (Inl e)
    then show ?thesis
      using assms a
      by (auto simp: commit_execute_def bindE_def on_error_def raiseE_def dest!: effect_frameD(1) split: prod.splits sum.splits)
  next
    case (Inr c)
    then show ?thesis
      using assms a
      by (auto simp: commit_execute_def bindE_def thenE_def on_error_def ret_def dest!: effect_frameD(1,2)
          split: prod.splits sum.splits if_splits)
  qed
  then show ?thesis by (simp add: s1_def)
qed

text \<open>From \<^verbatim>\<open>committing\<close> on there is either no call of the adapter's commit or exactly one.\<close>

lemma commit_committing_effects:
  assumes "commit_committing C sealed grant adapter amount s = (x, s')"
  shows "e_effects s' = e_effects s \<or>
     e_effects s' = e_effects s @ [commit_effect sealed grant (reports_success adapter (sm_manifest sealed) grant)]
     \<and> (\<exists>pending s1 s2. commit_record_outbox C sealed grant amount s = (Inr pending, s1)
          \<and> gs_get_idempotent_outcome (ctx_grant_ops C) (e_store s1) (m_idempotency_key (sm_manifest sealed)) = None
          \<and> commit_preconditions C sealed grant adapter amount pending s1 = (Inr (), s2)
          \<and> commit_execute C sealed grant adapter amount pending s2 = (x, s'))"
proof -
  obtain y s1 where o: "commit_record_outbox C sealed grant amount s = (y, s1)" by fastforce
  note e1 = effect_frameD(5) [OF o]
  show ?thesis
  proof (cases y)
    case (Inl e)
    then show ?thesis using assms o e1 by (simp add: commit_committing_def bindE_def)
  next
    case (Inr pending)
    show ?thesis
    proof (cases "gs_get_idempotent_outcome (ctx_grant_ops C) (e_store s1) (m_idempotency_key (sm_manifest sealed))")
      case (Some out)
      then have "commit_replay C sealed grant amount pending out s1 = (x, s')"
        using assms o Inr by (simp add: commit_committing_def bindE_def getS_def)
      then show ?thesis using effect_frameD(3) e1 by metis
    next
      case None
      obtain z s2 where p: "commit_preconditions C sealed grant adapter amount pending s1 = (z, s2)" by fastforce
      note e2 = effect_frameD(4) [OF p]
      show ?thesis
      proof (cases z)
        case (Inl e)
        then show ?thesis
          using assms o Inr None p e1 e2 by (simp add: commit_committing_def bindE_def thenE_def getS_def)
      next
        case z: (Inr u)
        then have "commit_execute C sealed grant adapter amount pending s2 = (x, s')"
          using assms o Inr None p by (simp add: commit_committing_def bindE_def thenE_def getS_def)
        then show ?thesis
          using commit_execute_effects e1 e2 o Inr None p z by fastforce
      qed
    qed
  qed
qed

text \<open>The states a commit passes through when its effect takes place.\<close>

lemma commit_phases:
  assumes "commit C sealed grant adapter pb envelope graph s = (x, s')" "e_effects s' \<noteq> e_effects s"
  obtains amount s1 s2 s3 s4 where
    "commit_checks C sealed grant adapter pb envelope graph s = (Inr (), s1)"
    "commit_reserve_budget C sealed grant s1 = (Inr amount, s2)"
    "commit_reserve_grant C sealed grant amount s2 = (Inr (), s3)"
    "commit_enter C sealed grant amount s3 = (Inr (), s4)"
    "commit_committing C sealed grant adapter amount s4 = (x, s')"
    "e_effects s1 = e_effects s" "e_effects s2 = e_effects s" "e_effects s3 = e_effects s" "e_effects s4 = e_effects s"
proof -
  obtain y1 s1 where c: "commit_checks C sealed grant adapter pb envelope graph s = (y1, s1)" by fastforce
  note e1 = effect_frameD(6) [OF c]
  have y1: "y1 = Inr ()"
    using assms c e1 by (cases y1) (auto simp: commit_def thenE_def bindE_def)
  obtain y2 s2 where b: "commit_reserve_budget C sealed grant s1 = (y2, s2)" by fastforce
  note e2 = effect_frameD(7) [OF b]
  obtain amount where y2: "y2 = Inr amount"
    using assms c y1 b e1 e2 by (cases y2) (auto simp: commit_def thenE_def bindE_def)
  obtain y3 s3 where r: "commit_reserve_grant C sealed grant amount s2 = (y3, s3)" by fastforce
  note e3 = effect_frameD(8) [OF r]
  have y3: "y3 = Inr ()"
    using assms c y1 b y2 r e1 e2 e3 by (cases y3) (auto simp: commit_def thenE_def bindE_def)
  obtain y4 s4 where n: "commit_enter C sealed grant amount s3 = (y4, s4)" by fastforce
  note e4 = effect_frameD(9) [OF n]
  have y4: "y4 = Inr ()"
    using assms c y1 b y2 r y3 n e1 e2 e3 e4 by (cases y4) (auto simp: commit_def thenE_def bindE_def)
  have "commit_committing C sealed grant adapter amount s4 = (x, s')"
    using assms(1) c y1 b y2 r y3 n y4 by (simp add: commit_def thenE_def bindE_def)
  then show thesis
    using that c y1 b y2 r y3 n y4 e1 e2 e3 e4 by metis
qed

text \<open>A check that passes did nothing else.\<close>

lemma deny_on_Inr [monad_simps]: "deny_on p C sealed grant et d r s = (Inr v, s') \<longleftrightarrow> r = Inr v \<and> s' = s"
  by (auto simp: deny_on_def on_error_Inr_iff liftR_iff)

lemma deny_not_Inr [monad_simps]: "deny C sealed grant et d x s \<noteq> (Inr v, s')"
  by (auto simp: deny_def thenE_Inr_iff raiseE_iff)

lemma deny_if_Inr [monad_simps]: "deny_if C sealed grant c et d x s = (Inr v, s') \<longleftrightarrow> \<not> c \<and> s' = s"
  by (auto simp: deny_if_def whenE_Inr_iff deny_not_Inr)

text \<open>Everything \<^verbatim>\<open>commit\<close> checks before it reserves anything.  The times are those of the clock's
  readings.\<close>

definition commit_gates_hold :: "('s, 'l, 'o) engine_context \<Rightarrow> sealed_manifest \<Rightarrow> execution_grant \<Rightarrow> effect_adapter
    \<Rightarrow> sealed_policy_bundle option \<Rightarrow> decision_envelope option \<Rightarrow> causal_graph option \<Rightarrow> 's \<Rightarrow> bool" where
  "commit_gates_hold C sealed grant adapter pb envelope graph store \<longleftrightarrow>
     (let cr = ctx_crypto C; kr = ctx_keyring C; m = sm_manifest sealed; mh = s_manifest_hash (sm_seal sealed) in
      verify_seal cr sealed kr = Inr ()
      \<and> (\<exists>n. verify_grant cr grant kr (ctx_now C n) (leeway C) = Inr ())
      \<and> g_manifest_hash grant = Some mh
      \<and> (\<forall>h. g_policy_bundle_hash grant = Some h \<longrightarrow> (\<exists>b n. pb = Some b \<and> ps_bundle_hash (spb_seal b) = h
            \<and> verify_policy_bundle cr b kr (ctx_now C n) None = Inr () \<and> pb_tenant_id (spb_bundle b) = ctx_tenant_id C))
      \<and> (\<forall>h. g_decision_envelope_hash grant = Some h \<longrightarrow> (\<exists>e n. envelope = Some e \<and> envelope_hash cr e = h
            \<and> verify_decision_envelope cr e kr (ctx_now C n) = Inr () \<and> assert_manifest_fits_envelope m e = Inr ()))
      \<and> (\<forall>h. g_causal_graph_hash grant = Some h \<longrightarrow> (\<exists>g. graph = Some g \<and> graph_hash cr g = h
            \<and> graph_verify cr g kr = Inr () \<and> mh \<in> set (cg_nodes g)))
      \<and> adapter_id (ad_identity adapter) \<in> set (g_audience grant)
      \<and> m_adapter m = ad_identity adapter
      \<and> require_trusted_adapter C adapter (Some (m_effect_type m)) = Inr ()
      \<and> m_effect_type m \<in> set (g_allowed_effect_types grant)
      \<and> \<not> gs_is_revoked (ctx_grant_ops C) store (g_grant_id grant)
      \<and> is_ok (assert_no_revoked_ancestors (ctx_grant_ops C) store MAX_DELEGATION_DEPTH grant))"

lemma check_grant_gates:
  assumes "commit_check_grant C sealed grant s = (Inr u, s')"
  shows "verify_seal (ctx_crypto C) sealed (ctx_keyring C) = Inr ()"
    "\<exists>n. verify_grant (ctx_crypto C) grant (ctx_keyring C) (ctx_now C n) (leeway C) = Inr ()"
    "g_manifest_hash grant = Some (s_manifest_hash (sm_seal sealed))"
  using assms by (auto simp: commit_check_grant_def monad_simps)

lemma check_policy_gates:
  assumes "commit_check_policy C sealed grant pb s = (Inr u, s')" "g_policy_bundle_hash grant = Some h"
  shows "\<exists>b n. pb = Some b \<and> ps_bundle_hash (spb_seal b) = h
    \<and> verify_policy_bundle (ctx_crypto C) b (ctx_keyring C) (ctx_now C n) None = Inr ()
    \<and> pb_tenant_id (spb_bundle b) = ctx_tenant_id C"
  using assms
  by (auto simp: commit_check_policy_def monad_simps enforce_policy_tenant_def bind_engine_and_policy_tenant_def
      assert_tenant_match_iff split: option.splits)

lemma check_envelope_gates:
  assumes "commit_check_envelope C sealed grant envelope s = (Inr u, s')" "g_decision_envelope_hash grant = Some h"
  shows "\<exists>e n. envelope = Some e \<and> envelope_hash (ctx_crypto C) e = h
    \<and> verify_decision_envelope (ctx_crypto C) e (ctx_keyring C) (ctx_now C n) = Inr ()
    \<and> assert_manifest_fits_envelope (sm_manifest sealed) e = Inr ()"
  using assms by (auto simp: commit_check_envelope_def monad_simps split: option.splits)

lemma check_plan_gates:
  assumes "commit_check_plan C sealed grant graph s = (Inr u, s')" "g_causal_graph_hash grant = Some h"
  shows "\<exists>g. graph = Some g \<and> graph_hash (ctx_crypto C) g = h \<and> graph_verify (ctx_crypto C) g (ctx_keyring C) = Inr ()
    \<and> s_manifest_hash (sm_seal sealed) \<in> set (cg_nodes g)"
  using assms
  by (auto simp: commit_check_plan_def monad_simps require_matching_plan_hash_def assert_manifest_in_plan_def
      result_simps is_ok_unit split: option.splits sum.splits)

lemma check_adapter_gates:
  assumes "commit_check_adapter C sealed grant adapter s = (Inr u, s')"
  shows "adapter_id (ad_identity adapter) \<in> set (g_audience grant)" "m_adapter (sm_manifest sealed) = ad_identity adapter"
    "require_trusted_adapter C adapter (Some (m_effect_type (sm_manifest sealed))) = Inr ()"
    "m_effect_type (sm_manifest sealed) \<in> set (g_allowed_effect_types grant)"
  using assms by (auto simp: commit_check_adapter_def Let_def monad_simps)

lemma check_revocation_gates:
  assumes "commit_check_revocation C sealed grant s = (Inr u, s')"
  shows "\<not> gs_is_revoked (ctx_grant_ops C) (e_store s) (g_grant_id grant)"
    "is_ok (assert_no_revoked_ancestors (ctx_grant_ops C) (e_store s) MAX_DELEGATION_DEPTH grant)"
  using assms by (auto simp: commit_check_revocation_def monad_simps is_ok_iff)

lemma same_storeD: "keeps same_store m \<Longrightarrow> m s = (x, s') \<Longrightarrow> e_store s' = e_store s \<and> e_budget s' = e_budget s"
  by (auto dest: keepsD simp: same_store_def)

lemma commit_checks_gates:
  assumes "commit_checks C sealed grant adapter pb envelope graph s = (Inr u, s')"
  shows "commit_gates_hold C sealed grant adapter pb envelope graph (e_store s)"
proof -
  obtain s1 s2 s3 s4 s5 where
    c: "commit_check_grant C sealed grant s = (Inr (), s1)" "commit_check_policy C sealed grant pb s1 = (Inr (), s2)"
      "commit_check_envelope C sealed grant envelope s2 = (Inr (), s3)" "commit_check_plan C sealed grant graph s3 = (Inr (), s4)"
      "commit_check_adapter C sealed grant adapter s4 = (Inr (), s5)" "commit_check_revocation C sealed grant s5 = (Inr (), s')"
    using assms by (auto simp: commit_checks_def monad_simps)
  have "e_store s5 = e_store s"
    using sto.commit_check_grant_keeps sto.commit_check_policy_keeps sto.commit_check_envelope_keeps
      sto.commit_check_plan_keeps sto.commit_check_adapter_keeps c same_storeD by metis
  then show ?thesis
    unfolding commit_gates_hold_def Let_def
    using check_grant_gates [OF c(1)] check_policy_gates [OF c(2)] check_envelope_gates [OF c(3)]
      check_plan_gates [OF c(4)] check_adapter_gates [OF c(5)] check_revocation_gates [OF c(6)]
    by auto
qed

section \<open>The audit entry that precedes an effect\<close>

lemma audit_ok:
  assumes "audit C en s = (Inr u, s')"
  shows "\<exists>e. e_journal s' = e_journal s @ [e] \<and> ae_event_type e = en_event_type en
     \<and> ae_decision e = en_decision en \<and> ae_manifest_id e = en_manifest_id en"
  using assms
  by (auto simp: audit_def monad_simps journal_record_def am_ops_def am_append_def build_event_ok(4-6)
      split: sum.splits prod.splits if_splits)

lemma transition_ok_audit:
  assumes "transition C mid target a s = (Inr u, s')"
  shows "\<exists>js e. e_journal s' = js @ [e] \<and> ae_event_type e = ta_event_type a
     \<and> ae_decision e = ''allowed'' \<and> ae_manifest_id e = Some mid"
proof -
  obtain r s1 where g: "get_record C mid s = (Inr r, s1)"
    using assms by (auto simp: transition_def monad_simps)
  obtain moved where "record_transition r target (ctx_now C (e_tick s1)) = Inr moved"
    using assms g
    by (cases "record_transition r target (ctx_now C (e_tick s1))")
      (auto simp: transition_def Let_def bindE_def thenE_def fresh_def raiseE_def split: prod.splits sum.splits if_splits)
  then obtain s2 where "audit C (transition_entry mid (lr_state r) target a ''allowed'') s2 = (Inr (), s')"
    using assms g by (auto simp: transition_def Let_def monad_simps)
  from audit_ok [OF this] show ?thesis
    by (auto simp: transition_entry_def entry_of_def)
qed

definition committing_recorded :: "string \<Rightarrow> audit_event list \<Rightarrow> bool" where
  "committing_recorded mid js \<longleftrightarrow> (\<exists>e \<in> set js. ae_event_type e = ''effect.committing'' \<and> ae_decision e = ''allowed''
     \<and> ae_manifest_id e = Some mid)"

lemma commit_enter_ok:
  assumes "commit_enter C sealed grant amount s = (Inr u, s')"
  shows "\<exists>r. e_records s' (m_manifest_id (sm_manifest sealed)) = Some r \<and> lr_state r = COMMITTING"
    "committing_recorded (m_manifest_id (sm_manifest sealed)) (e_journal s')"
    "e_records s (m_manifest_id (sm_manifest sealed)) = Some q \<Longrightarrow> lr_state q = AUTHORIZED"
proof -
  have t: "transition C (m_manifest_id (sm_manifest sealed)) COMMITTING
      (commit_targs sealed grant ''effect.committing'' (budget_metadata grant amount)) s = (Inr (), s')"
    using assms by (simp add: commit_enter_def on_error_Inr_iff)
  show "\<exists>r. e_records s' (m_manifest_id (sm_manifest sealed)) = Some r \<and> lr_state r = COMMITTING"
    using transition_ok_state [OF t] by auto
  show "committing_recorded (m_manifest_id (sm_manifest sealed)) (e_journal s')"
    using transition_ok_audit [OF t] by (auto simp: committing_recorded_def commit_targs_def targs_def)
  have "is_legal_transition a COMMITTING \<Longrightarrow> a = AUTHORIZED" for a
    by (cases a) (simp_all add: is_legal_transition_def)
  then show "e_records s (m_manifest_id (sm_manifest sealed)) = Some q \<Longrightarrow> lr_state q = AUTHORIZED"
    using transition_ok_state [OF t] by blast
qed

text \<open>C1. Complete mediation: a commit performs its effect only if every check passed -- the seal and the
  grant verify, the grant is bound to this manifest and, where it is bound to a policy bundle, a
  decision envelope or a causal graph, to the ones presented, which verify; the adapter is the one the
  manifest names, in the grant's audience and trusted for the effect type; the grant and its ancestors
  are not revoked.  It performs exactly one effect, after the manifest entered \<^verbatim>\<open>committing\<close> and the
  journal recorded so.\<close>

theorem commit_complete_mediation:
  assumes "commit C sealed grant adapter pb envelope graph s = (x, s')" "e_effects s' \<noteq> e_effects s"
  shows "commit_gates_hold C sealed grant adapter pb envelope graph (e_store s)
     \<and> e_effects s' = e_effects s @ [commit_effect sealed grant (reports_success adapter (sm_manifest sealed) grant)]
     \<and> (\<exists>amount t r. commit_committing C sealed grant adapter amount t = (x, s') \<and> e_effects t = e_effects s
          \<and> e_records t (m_manifest_id (sm_manifest sealed)) = Some r \<and> lr_state r = COMMITTING
          \<and> committing_recorded (m_manifest_id (sm_manifest sealed)) (e_journal t))"
proof -
  obtain amount s1 s2 s3 s4 where p:
    "commit_checks C sealed grant adapter pb envelope graph s = (Inr (), s1)"
    "commit_enter C sealed grant amount s3 = (Inr (), s4)"
    "commit_committing C sealed grant adapter amount s4 = (x, s')" "e_effects s4 = e_effects s"
    using commit_phases [OF assms] by metis
  then show ?thesis
    using commit_checks_gates [OF p(1)] commit_enter_ok(1,2) [OF p(2)] commit_committing_effects [OF p(3)] assms(2) by fastforce
qed

end
