(* ===== verification/EngineOnce.thy ===== *)
theory EngineOnce
  imports EngineSafety
begin

text \<open>
  The adapter's commit is called at most once per manifest in the life of an engine: the call comes
  after the transition to \<^verbatim>\<open>committing\<close>, which a lifecycle passes at most once.
\<close>

fun is_commit_for :: "string \<Rightarrow> effect \<Rightarrow> bool" where
  "is_commit_for mid (Committed_effect m g k ok) \<longleftrightarrow> m = mid"
| "is_commit_for mid (Compensated_effect m) \<longleftrightarrow> False"

definition commits_for :: "string \<Rightarrow> effect list \<Rightarrow> nat" where
  "commits_for mid es = length (filter (is_commit_for mid) es)"

definition past_committing :: "('s, 'l, 'o) engine \<Rightarrow> string \<Rightarrow> bool" where
  "past_committing s mid \<longleftrightarrow> (\<exists>r. e_records s mid = Some r \<and> state_rank COMMITTING \<le> state_rank (lr_state r))"

definition once_inv :: "('s, 'l, 'o) engine \<Rightarrow> bool" where
  "once_inv s \<longleftrightarrow> (\<forall>mid. commits_for mid (e_effects s) \<le> (if past_committing s mid then 1 else 0))"

definition once_step :: "('s, 'l, 'o) engine \<Rightarrow> ('s, 'l, 'o) engine \<Rightarrow> bool" where
  "once_step s s' \<longleftrightarrow> records_advance s s' \<and> (once_inv s \<longrightarrow> once_inv s')"

lemma legal_path_rank: "legal_path a b \<Longrightarrow> state_rank a \<le> state_rank b"
  by (induction rule: rtranclp_induct) (auto dest: legal_rank)

lemma past_committing_stays: "records_advance s s' \<Longrightarrow> past_committing s mid \<Longrightarrow> past_committing s' mid"
  unfolding records_advance_def past_committing_def by (meson legal_path_rank order_trans)

lemma once_inv_advance:
  assumes "records_advance s s'" "\<And>mid. commits_for mid (e_effects s') = commits_for mid (e_effects s)" "once_inv s"
  shows "once_inv s'"
  unfolding once_inv_def
proof
  fix mid
  show "commits_for mid (e_effects s') \<le> (if past_committing s' mid then 1 else 0)"
    using assms(2,3) past_committing_stays [OF assms(1)]
    by (auto simp: once_inv_def dest!: spec [of _ mid] split: if_splits)
qed

text \<open>A handler that performs no commit and moves records legally keeps the invariant.\<close>

lemma once_stepI: "keeps records_advance m \<Longrightarrow> keeps same_effects m \<Longrightarrow> keeps once_step m"
  using once_inv_advance by (fastforce simp: keeps_def once_step_def same_effects_def)

lemma once_step_frame:
  assumes "records_advance s s'" "e_effects s' = e_effects s"
  shows "once_step s s'"
  using assms once_inv_advance by (fastforce simp: once_step_def)

interpretation onc: commit_frame C once_step for C
proof unfold_locales
  show "reflp once_step"
    using adv.refl by (auto simp: once_step_def intro!: reflpI dest: reflpD)
  show "transp once_step"
    using adv.trans by (auto simp: once_step_def intro!: transpI dest: transpD)
qed (auto intro!: once_stepI once_step_frame adv.transition eff.transition store_calls_advance
      eff.reserve_store eff.release_store eff.commit_store eff.revoke_store eff.outcome_store eff.lineage_store
    simp: records_advance_def)

lemma commits_for_snoc: "commits_for mid (es @ [e]) = commits_for mid es + (if is_commit_for mid e then 1 else 0)"
  by (simp add: commits_for_def)

interpretation onco: compensation_frame C once_step for C
proof unfold_locales
  fix adapter :: effect_adapter and m :: effect_manifest and result :: commit_result
  show "keeps once_step (adapter_compensate adapter m result)"
  proof (rule keepsI)
    fix s :: "('s, 'l, 'o) engine" and x s'
    assume "adapter_compensate adapter m result s = (x, s')"
    then have s': "s' = s\<lparr>e_effects := e_effects s @ [Compensated_effect (m_manifest_id m)]\<rparr>"
      by (simp add: adapter_compensate_def)
    have a: "records_advance s s'"
      by (auto simp: records_advance_def s')
    then show "once_step s s'"
      using once_inv_advance [OF a] by (auto simp: once_step_def s' commits_for_snoc)
  qed
qed

lemma commit_once: "keeps once_step (commit C sealed grant adapter pb envelope graph)"
proof (rule keepsI)
  fix s x s'
  assume c: "commit C sealed grant adapter pb envelope graph s = (x, s')"
  have a: "records_advance s s'"
    using keepsD [OF adv.commit_keeps c] .
  show "once_step s s'"
  proof (cases "e_effects s' = e_effects s")
    case True
    then show ?thesis using a once_step_frame by blast
  next
    case False
    let ?mid = "m_manifest_id (sm_manifest sealed)"
    obtain amount s1 s2 s3 s4 where p:
      "commit_checks C sealed grant adapter pb envelope graph s = (Inr (), s1)"
      "commit_reserve_budget C sealed grant s1 = (Inr amount, s2)"
      "commit_reserve_grant C sealed grant amount s2 = (Inr (), s3)"
      "commit_enter C sealed grant amount s3 = (Inr (), s4)"
      "commit_committing C sealed grant adapter amount s4 = (x, s')" "e_effects s4 = e_effects s" "e_effects s3 = e_effects s"
      using commit_phases [OF c False] by metis
    have a3: "records_advance s s3"
      using keepsD [OF adv.commit_checks_keeps p(1)] keepsD [OF adv.commit_reserve_budget_keeps p(2)]
        keepsD [OF adv.commit_reserve_grant_keeps p(3)] adv.trans by (meson transpD)
    have a4: "records_advance s4 s'"
      using keepsD [OF adv.commit_committing_keeps p(5)] .
    have e: "e_effects s' = e_effects s @ [commit_effect sealed grant (reports_success adapter (sm_manifest sealed) grant)]"
      using commit_committing_effects [OF p(5)] p(6) False by auto
    have "\<not> past_committing s3 ?mid"
      using commit_enter_ok(3) [OF p(4)] by (auto simp: past_committing_def)
    then have before: "\<not> past_committing s ?mid"
      using past_committing_stays [OF a3] by blast
    have "past_committing s4 ?mid"
      using commit_enter_ok(1) [OF p(4)] by (auto simp: past_committing_def)
    then have after: "past_committing s' ?mid"
      using past_committing_stays [OF a4] by simp
    have "once_inv s'" if "once_inv s"
      unfolding once_inv_def
    proof
      fix mid
      have "commits_for mid (e_effects s) \<le> (if past_committing s mid then 1 else 0)"
        using that by (simp add: once_inv_def)
      then show "commits_for mid (e_effects s') \<le> (if past_committing s' mid then 1 else 0)"
        using before after past_committing_stays [OF a, of mid] by (auto simp: e commits_for_snoc split: if_splits)
    qed
    then show ?thesis using a by (simp add: once_step_def)
  qed
qed

interpretation once: call_frame C once_step "\<lambda>_. True" for C
  by unfold_locales (rule commit_once onco.commit_compensation_keeps onco.compensate_keeps)+

text \<open>C2. Over any history of calls, whatever fails and however often a commit is retried or replayed
  within a saga, the adapter's commit is called at most once for each manifest.\<close>

theorem adapter_commit_at_most_once:
  assumes "e_effects s = []"
  shows "commits_for mid (e_effects (engine_run s cs)) \<le> 1"
proof -
  have "once_inv (engine_run t ds)" if "once_inv t" for t :: "('a, 'b, 'c) engine" and ds
    using that
  proof (induction ds arbitrary: t)
    case (Cons x ds)
    obtain C c where x: "x = (C, c)" by (cases x)
    have "once_inv (engine_call C c t)"
      using once.call_keeps [where C = C and c = c and s = t] Cons.prems by (simp add: once_step_def)
    then show ?case using Cons.IH x by (simp add: engine_run_def)
  qed (simp add: engine_run_def)
  moreover have "once_inv s"
    using assms by (simp add: once_inv_def commits_for_def)
  ultimately have "once_inv (engine_run s cs)" by blast
  then show ?thesis
    by (auto simp: once_inv_def dest!: spec [of _ mid] split: if_splits)
qed

end
