(* ===== verification/EngineUses.thy ===== *)
theory EngineUses
  imports EngineOnce
begin

text \<open>
  The engine on top of a grant store: over any history of calls the adapter reports success for a
  grant at most as often as the grant allows, and never again once the store has the grant revoked.
  Both are proved once for any store that fulfils the contract, and then hold for all three backends.
\<close>

fun is_success_of :: "string \<Rightarrow> effect \<Rightarrow> bool" where
  "is_success_of gid (Committed_effect m g k ok) \<longleftrightarrow> g = gid \<and> ok"
| "is_success_of gid (Compensated_effect m) \<longleftrightarrow> False"

definition successes_of :: "string \<Rightarrow> effect list \<Rightarrow> nat" where
  "successes_of gid es = length (filter (is_success_of gid) es)"

lemma successes_of_snoc: "successes_of gid (es @ [e]) = successes_of gid es + (if is_success_of gid e then 1 else 0)"
  by (simp add: successes_of_def)

section \<open>What leaves store and effects alone\<close>

definition same_core :: "('s, 'l, 'o) engine \<Rightarrow> ('s, 'l, 'o) engine \<Rightarrow> bool" where
  "same_core s s' \<longleftrightarrow> e_store s' = e_store s \<and> e_effects s' = e_effects s"

interpretation cort: transition_frame C same_core for C
  by unfold_locales (auto simp: same_core_def intro: reflpI transpI)

interpretation core: quiet_frame C same_core for C
  by unfold_locales (auto simp: cort.transition_keeps, auto simp: same_core_def)

text \<open>The number of successes of one grant.\<close>

definition same_successes :: "string \<Rightarrow> ('s, 'l, 'o) engine \<Rightarrow> ('s, 'l, 'o) engine \<Rightarrow> bool" where
  "same_successes g s s' \<longleftrightarrow> successes_of g (e_effects s') = successes_of g (e_effects s)"

interpretation suc: field_frame C "same_successes g" for C g
  by unfold_locales (auto simp: same_successes_def intro: reflpI transpI)

interpretation suco: compensation_frame C "same_successes g" for C g
  by unfold_locales (auto simp: keeps_def same_successes_def adapter_compensate_def successes_of_snoc)

lemma on_store_iff:
  "on_store C f s = (x, s') \<longleftrightarrow> (\<exists>st. f (ctx_store_fault C (e_tick s)) (e_store s) = (x, st)
     \<and> s' = s\<lparr>e_tick := Suc (e_tick s), e_store := st\<rparr>)"
  by (auto simp: on_store_def bindE_def fresh_def split: prod.splits)

text \<open>The uses a store has counted for a grant and the one it holds.\<close>

definition credit :: "grant_view \<Rightarrow> string \<Rightarrow> nat" where
  "credit v g = gv_uses v g + (if gv_held v g then 1 else 0)"

lemma credit_simps [simp]:
  "\<not> gv_held v g \<Longrightarrow> credit v g = gv_uses v g"
  "credit (v\<lparr>gv_held := (gv_held v)(g := True)\<rparr>) h = (if h = g then Suc (gv_uses v g) else credit v h)"
  "credit (v\<lparr>gv_held := (gv_held v)(g := False)\<rparr>) h = (if h = g then gv_uses v g else credit v h)"
  "credit (v\<lparr>gv_revoked := rv\<rparr>) h = credit v h" "credit (v\<lparr>gv_outcome := oc\<rparr>) h = credit v h"
  by (simp_all add: credit_def)

lemma credit_held: "gv_held v g \<Longrightarrow> credit v g = Suc (gv_uses v g)"
  by (simp add: credit_def)

lemma credit_commit:
  "gv_held v g \<Longrightarrow> credit (v\<lparr>gv_uses := (gv_uses v)(g := Suc (gv_uses v g)), gv_held := (gv_held v)(g := False)\<rparr>) h = credit v h"
  by (simp add: credit_def)

section \<open>The contract of a store the engine can use\<close>

text \<open>The engine records any parent identifier, also an empty one, so the contract adds to \<open>grant_store\<close>
  that recording a lineage never touches uses, holds and revocations.\<close>

locale engine_store = grant_store +
  assumes lineage_frame: "inv M s \<Longrightarrow> gs_record_lineage ops f s g p = (x, s') \<Longrightarrow>
      inv M s' \<and> gv_uses (view s') = gv_uses (view s) \<and> gv_held (view s') = gv_held (view s)
      \<and> gv_revoked (view s') = gv_revoked (view s)"
begin

text \<open>Every success is backed by a use the store has counted, or by one that is still held; the grants
  in \<open>RV\<close> are revoked.\<close>

definition use_inv :: "(string \<Rightarrow> int) \<Rightarrow> string set \<Rightarrow> ('a, 'l, 'o) engine \<Rightarrow> bool" where
  "use_inv M RV s \<longleftrightarrow> inv M (e_store s) \<and> view_within M (view (e_store s))
     \<and> (\<forall>g. successes_of g (e_effects s) \<le> credit (view (e_store s)) g)
     \<and> (\<forall>g \<in> RV. gv_revoked (view (e_store s)) g)"

definition settled :: "(string \<Rightarrow> int) \<Rightarrow> string set \<Rightarrow> string \<Rightarrow> ('a, 'l, 'o) engine \<Rightarrow> bool" where
  "settled M RV g s \<longleftrightarrow> use_inv M RV s \<and> successes_of g (e_effects s) \<le> gv_uses (view (e_store s)) g"

definition holding :: "(string \<Rightarrow> int) \<Rightarrow> string set \<Rightarrow> string \<Rightarrow> ('a, 'l, 'o) engine \<Rightarrow> bool" where
  "holding M RV g s \<longleftrightarrow> settled M RV g s \<and> gv_held (view (e_store s)) g"

lemma core_preds:
  "same_core s s' \<Longrightarrow> use_inv M RV s \<Longrightarrow> use_inv M RV s'" "same_core s s' \<Longrightarrow> settled M RV g s \<Longrightarrow> settled M RV g s'"
  "same_core s s' \<Longrightarrow> holding M RV g s \<Longrightarrow> holding M RV g s'"
  by (simp_all add: same_core_def use_inv_def settled_def holding_def)

lemma keep_use: "keeps same_core m \<Longrightarrow> hoare (use_inv M RV) m (\<lambda>_. use_inv M RV) (use_inv M RV)"
  by (rule hoare_keeps [OF _ core_preds(1)])

lemma keep_holding: "keeps same_core m \<Longrightarrow> hoare (holding M RV g) m (\<lambda>_. holding M RV g) (holding M RV g)"
  by (rule hoare_keeps [OF _ core_preds(3)])

lemma holding_settled: "holding M RV g s \<Longrightarrow> settled M RV g s"
  by (simp add: holding_def)

lemma settled_use: "settled M RV g s \<Longrightarrow> use_inv M RV s"
  by (simp add: settled_def)

lemma holding_use: "holding M RV g s \<Longrightarrow> use_inv M RV s"
  by (simp add: holding_def settled_def)

lemma use_room: "use_inv M RV s \<Longrightarrow> successes_of g (e_effects s) \<le> Suc (gv_uses (view (e_store s)) g)"
  by (auto simp: use_inv_def credit_def dest!: spec [of _ g] split: if_splits)

text \<open>A store step seen through the view.\<close>

lemma allowed_within:
  assumes "inv M st" "view_within M (view st)" "disciplined M c" "gs_step ops f st c = (x, st')"
  shows "inv M st'" "spec_allows (view st) c x (view st')" "view_within M (view st')"
  using step_allowed [OF assms(1,3,4)] spec_step_within [OF assms(2,3)] assms(2)
  by (auto simp: spec_allows_def)

lemma reserve_triple:
  assumes "ctx_grant_ops C = ops"
  shows "hoare (use_inv M RV) (store_reserve C g (M g)) (\<lambda>ok. if ok then holding M RV g else use_inv M RV) (use_inv M RV)"
proof (rule hoareI)
  fix s ok s'
  assume u: "use_inv M RV s" and "store_reserve C g (M g) s = (Inr ok, s')"
  then obtain f st where r: "gs_reserve ops f (e_store s) g (M g) = (Inr ok, st)"
      "e_store s' = st" "e_effects s' = e_effects s"
    by (auto simp: store_reserve_def on_store_iff assms)
  then have st: "gs_step ops f (e_store s) (Reserve g (M g)) = (Granted ok, st)"
    by (simp add: gs_step_def)
  note a = allowed_within [OF _ _ _ st, of M]
  have i: "spec_step (view (e_store s)) (Reserve g (M g)) = (Granted ok, view st)" "inv M st" "view_within M (view st)"
    using a u by (auto simp: use_inv_def spec_allows_def)
  then have v: "\<not> ok \<Longrightarrow> view st = view (e_store s)"
      "ok \<Longrightarrow> \<not> gv_held (view (e_store s)) g \<and> view st = (view (e_store s))\<lparr>gv_held := (gv_held (view (e_store s)))(g := True)\<rparr>"
    by (auto simp: spec_step_def spec_reserve_def split: if_splits)
  have "successes_of g (e_effects s) \<le> credit (view (e_store s)) g"
    using u by (simp add: use_inv_def)
  then show "(if ok then holding M RV g else use_inv M RV) s'"
    using u r(2,3) i(2,3) v by (cases ok) (auto simp: use_inv_def settled_def holding_def intro: le_SucI)
next
  fix s e s'
  assume u: "use_inv M RV s" and "store_reserve C g (M g) s = (Inl e, s')"
  then obtain f st where r: "gs_reserve ops f (e_store s) g (M g) = (Inl e, st)"
      "e_store s' = st" "e_effects s' = e_effects s"
    by (auto simp: store_reserve_def on_store_iff assms)
  then have st: "gs_step ops f (e_store s) (Reserve g (M g)) = (Failed, st)"
    by (simp add: gs_step_def)
  note a = allowed_within [OF _ _ _ st, of M]
  have "view st = view (e_store s) \<or> view st = snd (spec_step (view (e_store s)) (Reserve g (M g)))"
      "inv M st" "view_within M (view st)"
    using a u by (auto simp: use_inv_def spec_allows_def)
  then show "use_inv M RV s'"
    using u use_room [OF u, of g] r(2,3)
    by (auto simp: use_inv_def spec_step_def spec_reserve_def split: if_splits)
qed

text \<open>What a call that returns nothing may have done.\<close>

lemma unit_call:
  assumes "inv M st" "view_within M (view st)" "disciplined M c"
    and "gs_step ops f st c = (result_of x, st')"
  shows "inv M st'" "view_within M (view st')" "view st' = view st \<or> view st' = snd (spec_step (view st) c)"
  using allowed_within [OF assms] by (auto simp: spec_allows_def)

lemma release_triple:
  assumes "ctx_grant_ops C = ops"
  shows "hoare (settled M RV g) (store_release C g) (\<lambda>_. use_inv M RV) (use_inv M RV)"
proof -
  have "use_inv M RV s'" if a: "settled M RV g s" and b: "store_release C g s = (x, s')" for s :: "('a, 'b, 'c) engine" and x s'
  proof -
    obtain f st where r: "gs_release ops f (e_store s) g = (x, st)" "e_store s' = st" "e_effects s' = e_effects s"
      using b by (auto simp: store_release_def on_store_iff assms)
    then have "gs_step ops f (e_store s) (Release g) = (result_of x, st)"
      by (simp add: gs_step_def)
    from unit_call [OF _ _ _ this, of M] show ?thesis
      using a r by (auto simp: settled_def use_inv_def spec_step_def spec_release_def)
  qed
  then show ?thesis by (intro hoareI) blast+
qed

lemma commit_triple:
  assumes "ctx_grant_ops C = ops"
  shows "hoare (use_inv M RV) (store_commit C g k out) (\<lambda>_. use_inv M RV) (use_inv M RV)"
    "hoare (holding M RV g) (store_commit C g k out) (\<lambda>_. settled M RV g) (settled M RV g)"
proof -
  have "(use_inv M RV s \<longrightarrow> use_inv M RV s') \<and> (holding M RV g s \<longrightarrow> settled M RV g s')"
    if a: "store_commit C g k out s = (x, s')" for s :: "('a, 'b, 'c) engine" and x s'
  proof -
    obtain f st where r: "gs_commit ops f (e_store s) g k out = (x, st)" "e_store s' = st" "e_effects s' = e_effects s"
      using a by (auto simp: store_commit_def on_store_iff assms)
    then have "gs_step ops f (e_store s) (Commit g k out) = (result_of x, st)"
      by (simp add: gs_step_def)
    from unit_call [OF _ _ _ this, of M] show ?thesis
      using r by (auto simp: holding_def settled_def use_inv_def spec_step_def spec_commit_def credit_commit credit_held split: if_splits)
  qed
  then show "hoare (use_inv M RV) (store_commit C g k out) (\<lambda>_. use_inv M RV) (use_inv M RV)"
    "hoare (holding M RV g) (store_commit C g k out) (\<lambda>_. settled M RV g) (settled M RV g)"
    by (intro hoareI; blast)+
qed

lemma quiet_store_calls:
  assumes "ctx_grant_ops C = ops"
  shows "keeps (\<lambda>s s'. use_inv M RV s \<longrightarrow> use_inv M RV s') (store_revoke C g)"
    "keeps (\<lambda>s s'. use_inv M RV s \<longrightarrow> use_inv M RV s') (store_record_outcome C k out)"
    "keeps (\<lambda>s s'. use_inv M RV s \<longrightarrow> use_inv M RV s') (store_record_lineage C g p)"
proof -
  show "keeps (\<lambda>s s'. use_inv M RV s \<longrightarrow> use_inv M RV s') (store_revoke C g)"
  proof (intro keepsI impI)
    fix s :: "('a, 'b, 'c) engine" and x s'
    assume u: "use_inv M RV s" and "store_revoke C g s = (x, s')"
    then obtain f st where r: "gs_revoke ops f (e_store s) g = (x, st)" "e_store s' = st" "e_effects s' = e_effects s"
      by (auto simp: store_revoke_def on_store_iff assms)
    then have "gs_step ops f (e_store s) (Revoke g) = (result_of x, st)"
      by (simp add: gs_step_def)
    from unit_call [OF _ _ _ this, of M] show "use_inv M RV s'"
      using u r by (auto simp: use_inv_def spec_step_def spec_revoke_def)
  qed
  show "keeps (\<lambda>s s'. use_inv M RV s \<longrightarrow> use_inv M RV s') (store_record_outcome C k out)"
  proof (intro keepsI impI)
    fix s :: "('a, 'b, 'c) engine" and x s'
    assume u: "use_inv M RV s" and "store_record_outcome C k out s = (x, s')"
    then obtain f st where r: "gs_record_idempotent_outcome ops f (e_store s) k out = (x, st)"
        "e_store s' = st" "e_effects s' = e_effects s"
      by (auto simp: store_record_outcome_def on_store_iff assms)
    then have "gs_step ops f (e_store s) (RecordOutcome k out) = (result_of x, st)"
      by (simp add: gs_step_def)
    from unit_call [OF _ _ _ this, of M] show "use_inv M RV s'"
      using u r by (auto simp: use_inv_def spec_step_def spec_record_outcome_def)
  qed
  show "keeps (\<lambda>s s'. use_inv M RV s \<longrightarrow> use_inv M RV s') (store_record_lineage C g p)"
  proof (intro keepsI impI)
    fix s :: "('a, 'b, 'c) engine" and x s'
    assume u: "use_inv M RV s" and "store_record_lineage C g p s = (x, s')"
    then obtain f st where r: "gs_record_lineage ops f (e_store s) g p = (x, st)"
        "e_store s' = st" "e_effects s' = e_effects s"
      by (auto simp: store_record_lineage_def on_store_iff assms)
    then show "use_inv M RV s'"
      using u lineage_frame [OF _ r(1), of M] by (simp add: use_inv_def view_within_def credit_def)
  qed
qed

section \<open>The phases of a commit\<close>

lemma held: "keeps same_core m \<Longrightarrow> hoare (holding M RV g) m (\<lambda>_. holding M RV g) (use_inv M RV)"
  by (rule hoare_weaken [OF keep_holding]) (auto intro: holding_use)

lemma denied: "hoare (use_inv M RV) (deny C sealed grant et d x) Q (use_inv M RV)"
  by (rule hoareI) (auto simp: deny_not_Inr dest!: keepsD [OF cort.deny_keeps] intro: core_preds(1))

lemma release_all_triple:
  assumes "ctx_grant_ops C = ops"
  shows "hoare (settled M RV (g_grant_id grant)) (release_all C grant amount) (\<lambda>_. use_inv M RV) (use_inv M RV)"
  unfolding release_all_def
  by (rule hoare_thenE [OF release_triple [OF assms] keep_use [OF core.release_budget_keeps]])

lemma reserve_grant_triple:
  assumes "ctx_grant_ops C = ops" "g_max_uses grant = M (g_grant_id grant)"
  shows "hoare (use_inv M RV) (commit_reserve_grant C sealed grant amount) (\<lambda>_. holding M RV (g_grant_id grant)) (use_inv M RV)"
  unfolding commit_reserve_grant_def assms(2)
proof (rule hoare_bindE [OF reserve_triple [OF assms(1)]])
  fix ok
  show "hoare (if ok then holding M RV (g_grant_id grant) else use_inv M RV)
     (whenE (\<not> ok) (thenE (release_budget grant amount)
         (deny C sealed grant ''grant.reservation_failed'' ''blocked_exhausted_or_inflight'' (GrantE GrantExhaustedError))))
     (\<lambda>_. holding M RV (g_grant_id grant)) (use_inv M RV)"
    by (cases ok) (auto simp: whenE_def intro: hoare_ret hoare_thenE [OF keep_use [OF core.release_budget_keeps] denied])
qed

lemma enter_triple:
  assumes "ctx_grant_ops C = ops"
  shows "hoare (holding M RV (g_grant_id grant)) (commit_enter C sealed grant amount)
     (\<lambda>_. holding M RV (g_grant_id grant)) (use_inv M RV)"
  unfolding commit_enter_def
  by (rule hoare_on_error [OF keep_holding [OF core.transition]])
    (auto intro: hoare_weaken [OF release_all_triple [OF assms]] holding_settled)

lemma record_outbox_triple:
  assumes "ctx_grant_ops C = ops"
  shows "hoare (holding M RV (g_grant_id grant)) (commit_record_outbox C sealed grant amount)
     (\<lambda>_. holding M RV (g_grant_id grant)) (use_inv M RV)"
proof -
  let ?H = "holding M RV (g_grant_id grant)"
  have h: "hoare ?H (thenE (release_all C grant amount) (audit C en)) (\<lambda>_. use_inv M RV) (use_inv M RV)" for en
    by (rule hoare_thenE [OF hoare_weaken [OF release_all_triple [OF assms]] keep_use [OF cort.audit_keeps]])
      (auto intro: holding_settled)
  show ?thesis
    unfolding commit_record_outbox_def
    by (rule hoare_bindE [OF hoare_getS [where Q = "\<lambda>_. ?H"]], simp)
      (auto intro!: hoare_ret hoare_bindE [OF held [OF cort.fresh]] hoare_thenE
        hoare_on_error [OF keep_holding [OF core.outbox_call_keeps]] h intro: holding_use)
qed

lemma commit_fail_triple:
  assumes "ctx_grant_ops C = ops"
  shows "hoare (holding M RV (g_grant_id grant)) (commit_fail C sealed grant amount abandon et meta)
     (\<lambda>_. use_inv M RV) (use_inv M RV)"
  unfolding commit_fail_def
  by (rule hoare_thenE [OF hoare_weaken [OF release_all_triple [OF assms]]
        hoare_thenE [OF keep_use [OF core.abandon_outbox_keeps] keep_use [OF core.transition]]])
    (auto intro: holding_settled)

lemma preconditions_triple:
  assumes "ctx_grant_ops C = ops"
  shows "hoare (holding M RV (g_grant_id grant)) (commit_preconditions C sealed grant adapter amount pending)
     (\<lambda>_. holding M RV (g_grant_id grant)) (use_inv M RV)"
  unfolding commit_preconditions_def
  by (auto intro!: hoare_bindE hoare_whenE hoare_on_error [OF keep_holding [OF cort.pure(3)]]
      hoare_thenE [OF commit_fail_triple [OF assms] hoare_raiseE] commit_fail_triple [OF assms])

lemma replay_triple:
  assumes "ctx_grant_ops C = ops"
  shows "hoare (use_inv M RV) (commit_replay C sealed grant amount pending out) (\<lambda>_. use_inv M RV) (use_inv M RV)"
  unfolding commit_replay_def Let_def
  by (intro hoare_thenE [OF keep_use [OF core.release_budget_keeps]] hoare_thenE [OF keep_use [OF core.confirm_outbox_keeps]]
      hoare_thenE [OF commit_triple(1) [OF assms]] hoare_thenE [OF keep_use [OF core.transition]] hoare_ret)

lemma finalize_triple:
  assumes "ctx_grant_ops C = ops"
  shows "hoare (use_inv M RV) (commit_finalize C sealed grant amount pending result) (\<lambda>_. use_inv M RV) (use_inv M RV)"
  unfolding commit_finalize_def Let_def
  by (intro hoare_thenE [OF keep_use] hoare_thenE [OF keep_use [OF core.confirm_outbox_keeps]]
      hoare_thenE [OF commit_triple(1) [OF assms]] hoare_thenE [OF keep_use [OF core.transition]] hoare_ret)
    (auto split: option.splits intro: core.on_budget_keeps cort.pure)

text \<open>A success of the adapter uses up the hold.\<close>

lemma adapter_commit_triple:
  "hoare (holding M RV (g_grant_id grant)) (adapter_commit adapter m grant)
     (\<lambda>r. if cm_success r then use_inv M RV else holding M RV (g_grant_id grant)) (holding M RV (g_grant_id grant))"
  by (rule hoareI)
    (auto simp: adapter_commit_def Let_def holding_def settled_def use_inv_def successes_of_snoc credit_held)

lemma execute_triple:
  assumes "ctx_grant_ops C = ops"
  shows "hoare (holding M RV (g_grant_id grant)) (commit_execute C sealed grant adapter amount pending)
     (\<lambda>_. use_inv M RV) (use_inv M RV)"
  unfolding commit_execute_def
proof (rule hoare_bindE [OF hoare_on_error [OF adapter_commit_triple commit_fail_triple [OF assms]]])
  fix result
  show "hoare (if cm_success result then use_inv M RV else holding M RV (g_grant_id grant))
     (if \<not> cm_success result
      then thenE (commit_fail C sealed grant amount pending ''effect.commit_failed'' [(''detail'', clip (cm_detail result))]) (ret result)
      else commit_finalize C sealed grant amount pending result) (\<lambda>_. use_inv M RV) (use_inv M RV)"
    by (cases "cm_success result")
      (auto intro: finalize_triple [OF assms] hoare_thenE [OF commit_fail_triple [OF assms] hoare_ret])
qed simp_all

lemma committing_triple:
  assumes "ctx_grant_ops C = ops"
  shows "hoare (holding M RV (g_grant_id grant)) (commit_committing C sealed grant adapter amount) (\<lambda>_. use_inv M RV) (use_inv M RV)"
  unfolding commit_committing_def
proof (intro hoare_bindE [OF record_outbox_triple [OF assms]])
  fix pending
  show "hoare (holding M RV (g_grant_id grant))
     (bindE (getS (\<lambda>s. gs_get_idempotent_outcome (ctx_grant_ops C) (e_store s) (m_idempotency_key (sm_manifest sealed)))) (\<lambda>existing.
      case existing of
       Some outcome \<Rightarrow> commit_replay C sealed grant amount pending outcome
     | None \<Rightarrow> thenE (commit_preconditions C sealed grant adapter amount pending)
                 (commit_execute C sealed grant adapter amount pending))) (\<lambda>_. use_inv M RV) (use_inv M RV)"
    by (rule hoare_bindE [OF hoare_getS [where Q = "\<lambda>_. holding M RV (g_grant_id grant)"]], simp)
      (auto split: option.splits
        intro: hoare_thenE [OF preconditions_triple [OF assms] execute_triple [OF assms]]
          hoare_weaken [OF replay_triple [OF assms]] holding_use)
qed

lemma commit_uses:
  assumes "ctx_grant_ops C = ops" "g_max_uses grant = M (g_grant_id grant)"
  shows "hoare (use_inv M RV) (commit C sealed grant adapter pb envelope graph) (\<lambda>_. use_inv M RV) (use_inv M RV)"
  unfolding commit_def
  by (intro hoare_thenE [OF keep_use [OF cort.commit_checks_keeps]] hoare_bindE [OF keep_use [OF core.commit_reserve_budget_keeps]]
      hoare_thenE [OF reserve_grant_triple [where M = M, OF assms]] hoare_thenE [OF enter_triple [OF assms(1)]] committing_triple [OF assms(1)])

section \<open>The phases of a compensation\<close>

lemma checked:
  "hoare (use_inv M RV) (deny_if C sealed grant c et d x) (\<lambda>_. use_inv M RV) (use_inv M RV)"
  "hoare (use_inv M RV) (deny_on p C sealed grant et' d' r) (\<lambda>_. use_inv M RV) (use_inv M RV)"
  by (rule keep_use [OF cort.deny_if_keeps] keep_use [OF cort.deny_on_keeps])+

lemma compensation_policy_triple:
  "hoare (use_inv M RV) (compensation_check_policy C sealed grant pb) (\<lambda>_. use_inv M RV) (use_inv M RV)"
  unfolding compensation_check_policy_def
  by (auto split: option.splits intro!: hoare_ret denied hoare_bindE [OF keep_use [OF cort.fresh]] hoare_thenE checked)

lemma compensation_reserve_triple:
  assumes "ctx_grant_ops C = ops" "g_max_uses grant = M (g_grant_id grant)"
  shows "hoare (use_inv M RV) (bindE (store_reserve C (g_grant_id grant) (g_max_uses grant)) (\<lambda>ok.
     deny_if C sealed grant (\<not> ok) et d x)) (\<lambda>_. holding M RV (g_grant_id grant)) (use_inv M RV)"
  unfolding assms(2)
proof (rule hoare_bindE [OF reserve_triple [OF assms(1)]])
  fix ok
  show "hoare (if ok then holding M RV (g_grant_id grant) else use_inv M RV) (deny_if C sealed grant (\<not> ok) et d x)
      (\<lambda>_. holding M RV (g_grant_id grant)) (use_inv M RV)"
    by (cases ok) (auto simp: deny_if_def whenE_def intro: hoare_ret denied)
qed

lemma compensation_checks_triple:
  assumes "ctx_grant_ops C = ops" "g_max_uses grant = M (g_grant_id grant)"
  shows "hoare (use_inv M RV) (compensation_checks C original compensation grant adapter pb)
     (\<lambda>_. holding M RV (g_grant_id grant)) (use_inv M RV)"
  unfolding compensation_checks_def seqE.simps
  by (intro hoare_thenE [OF keep_use [OF cort.pure(3)]] hoare_thenE [OF hoare_on_error [OF keep_use [OF cort.pure(3)] keep_use [OF cort.audit_keeps]]]
      hoare_bindE [OF keep_use [OF cort.fresh]] hoare_thenE [OF checked(1)] hoare_thenE [OF checked(2)]
      hoare_thenE [OF compensation_policy_triple] hoare_thenE [OF hoare_bindE [OF keep_use [OF cort.pure(4)] checked(1)]]
      hoare_thenE [OF compensation_reserve_triple [where M = M, OF assms]] hoare_ret)

lemma adapter_compensate_triples:
  "hoare (use_inv M RV) (adapter_compensate adapter m r) (\<lambda>_. use_inv M RV) (use_inv M RV)"
  "hoare (holding M RV g) (adapter_compensate adapter m r) (\<lambda>_. holding M RV g) (settled M RV g)"
  by (rule hoareI; auto simp: adapter_compensate_def holding_def settled_def use_inv_def successes_of_snoc)+

lemma compensation_execute_triple:
  assumes "ctx_grant_ops C = ops"
  shows "hoare (holding M RV (g_grant_id grant)) (compensation_execute C original compensation grant adapter oc)
     (\<lambda>_. use_inv M RV) (use_inv M RV)"
  unfolding compensation_execute_def Let_def
proof (rule hoare_on_error)
  let ?H = "holding M RV (g_grant_id grant)" and ?S = "settled M RV (g_grant_id grant)"
  have t: "hoare ?H (transition C mid target a) (\<lambda>_. ?H) ?S" for mid target a
    by (rule hoare_weaken [OF keep_holding [OF core.transition]]) (auto intro: holding_settled)
  have c: "hoare ?H (store_commit C (g_grant_id grant) k out) (\<lambda>_. use_inv M RV) ?S" for k out
    by (rule hoare_weaken [OF commit_triple(2) [OF assms]]) (auto intro: settled_use)
  show "hoare ?H
      (thenE (transition C (m_manifest_id (sm_manifest compensation)) COMMITTING (commit_targs compensation grant ''compensation.committing'' []))
        (bindE (adapter_compensate adapter (sm_manifest original) oc) (\<lambda>result.
         thenE (store_commit C (g_grant_id grant) (m_idempotency_key (sm_manifest compensation))
             (compensation_outcome (m_manifest_id (sm_manifest compensation)) (cp_succeeded result)))
           (ret result)))) (\<lambda>_. use_inv M RV) ?S"
    by (intro hoare_thenE [OF t] hoare_bindE [OF adapter_compensate_triples(2)] hoare_thenE [OF c] hoare_ret)
  show "hoare ?S (thenE (store_release C (g_grant_id grant)) (transition C (m_manifest_id (sm_manifest compensation)) FAILED
         (commit_targs compensation grant ''compensation.commit_error'' [(''error'', exn_name x)]))) (\<lambda>_. use_inv M RV) (use_inv M RV)" for x
    by (rule hoare_thenE [OF release_triple [OF assms] keep_use [OF core.transition]])
qed simp

lemma compensation_finish_triple:
  "hoare (use_inv M RV) (compensation_finish C original compensation grant st result) (\<lambda>_. use_inv M RV) (use_inv M RV)"
  unfolding compensation_finish_def Let_def
  by (auto intro!: hoare_thenE [OF keep_use [OF core.transition]] hoare_thenE hoare_ret keep_use [OF core.transition] hoare_whenE)

lemma commit_compensation_uses:
  assumes "ctx_grant_ops C = ops" "g_max_uses grant = M (g_grant_id grant)"
  shows "hoare (use_inv M RV) (commit_compensation C original compensation grant adapter oc pb) (\<lambda>_. use_inv M RV) (use_inv M RV)"
  unfolding commit_compensation_def
proof (intro hoare_thenE [OF compensation_checks_triple [where M = M, OF assms]] hoare_bindE [OF held [OF core.get_lifecycle_state_keeps]])
  let ?H = "holding M RV (g_grant_id grant)"
  fix st
  have o: "hoare ?H (whenE c (on_error (\<lambda>_. True) (\<lambda>_. store_release C (g_grant_id grant)) (transition C mid target a))) (\<lambda>_. ?H) (use_inv M RV)"
    for c mid target a
    by (rule hoare_whenE [OF hoare_on_error [OF keep_holding [OF core.transition]
          hoare_weaken [OF release_triple [OF assms(1)]]]]) (auto intro: holding_settled)
  show "hoare ?H (thenE (whenE (st = VERIFIED)
          (on_error (\<lambda>_. True) (\<lambda>_. store_release C (g_grant_id grant))
             (transition C (m_manifest_id (sm_manifest original)) COMPENSATING
                (original_targs original compensation grant ''effect.compensating_authorized''
                  [(''compensation_manifest_id'', m_manifest_id (sm_manifest compensation)),
                   (''compensation_manifest_hash'', s_manifest_hash (sm_seal compensation))]))))
      (bindE (compensation_execute C original compensation grant adapter oc) (\<lambda>result.
       compensation_finish C original compensation grant st result))) (\<lambda>_. use_inv M RV) (use_inv M RV)"
    by (rule hoare_thenE [OF o hoare_bindE [OF compensation_execute_triple [OF assms(1)] compensation_finish_triple]])
qed

lemma compensate_uses:
  "hoare (use_inv M RV) (compensate C m result adapter) (\<lambda>_. use_inv M RV) (use_inv M RV)"
  unfolding compensate_def Let_def
  by (intro hoare_thenE [OF keep_use [OF cort.pure(3)]] hoare_thenE [OF keep_use [OF core.transition]]
      hoare_bindE [OF adapter_compensate_triples(1)] hoare_ret)

section \<open>Any history\<close>

definition use_step :: "(string \<Rightarrow> int) \<Rightarrow> string set \<Rightarrow> ('a, 'l, 'o) engine \<Rightarrow> ('a, 'l, 'o) engine \<Rightarrow> bool" where
  "use_step M RV s s' \<longleftrightarrow> (use_inv M RV s \<longrightarrow> use_inv M RV s')"

lemma use_stepI: "hoare (use_inv M RV) m (\<lambda>_. use_inv M RV) (use_inv M RV) \<Longrightarrow> keeps (use_step M RV) m"
proof (intro keepsI)
  fix s x s'
  assume "hoare (use_inv M RV) m (\<lambda>_. use_inv M RV) (use_inv M RV)" "m s = (x, s')"
  then show "use_step M RV s s'"
    by (cases x) (auto simp: use_step_def dest: hoare_Inl hoare_Inr)
qed

lemma use_step_core: "same_core s s' \<Longrightarrow> use_step M RV s s'"
  by (simp add: use_step_def core_preds)

lemma store_use_step:
  assumes "ctx_grant_ops C = ops"
  shows "keeps (use_step M RV) (store_revoke C g)" "keeps (use_step M RV) (store_record_outcome C k out)"
    "keeps (use_step M RV) (store_record_lineage C g p)"
  using quiet_store_calls [OF assms, of M RV] unfolding use_step_def by auto

lemma use_call_frame:
  assumes "ctx_grant_ops C = ops"
  shows "call_frame C (use_step M RV) (\<lambda>g. g_max_uses g = M (g_grant_id g))"
proof unfold_locales
  show "reflp (use_step M RV)" "transp (use_step M RV)"
    by (auto simp: use_step_def intro!: reflpI transpI)
  show "keeps (use_step M RV) (store_revoke C g)" "keeps (use_step M RV) (store_record_outcome C k out)"
      "keeps (use_step M RV) (store_record_lineage C g p)" for g k out p
    by (rule store_use_step [OF assms])+
qed (auto intro!: use_stepI use_step_core keep_use core.transition compensate_uses
      commit_uses [OF assms] commit_compensation_uses [OF assms] simp: same_core_def)

lemma run_use_inv:
  assumes "\<forall>(C, c) \<in> set cs. ctx_grant_ops C = ops \<and> (\<forall>g \<in> set (presented c). g_max_uses g = M (g_grant_id g))"
    and "use_inv M RV s"
  shows "use_inv M RV (engine_run s cs)"
  using assms
proof (induction cs arbitrary: s)
  case (Cons x cs)
  obtain C c where x: "x = (C, c)" by (cases x)
  have "use_step M RV s (engine_call C c s)"
    using call_frame.call_keeps [OF use_call_frame [where C = C and M = M and RV = RV]] Cons.prems(1) x by simp
  then show ?case
    using Cons x by (auto simp: use_step_def engine_run_def)
qed (simp add: engine_run_def)

lemma use_inv_bound: "use_inv M RV s \<Longrightarrow> int (successes_of g (e_effects s)) \<le> max 0 (M g)"
proof -
  assume "use_inv M RV s"
  then have "successes_of g (e_effects s) \<le> credit (view (e_store s)) g" "view_within M (view (e_store s))"
    by (simp_all add: use_inv_def)
  moreover have "int (credit v g) \<le> max 0 (M g)" if "view_within M v" for v
    using that by (auto simp: view_within_def credit_def dest!: spec [of _ g])
  ultimately show ?thesis by (meson of_nat_mono order_trans)
qed

text \<open>A presented grant that is revoked causes no success.\<close>

definition frozen :: "(string \<Rightarrow> int) \<Rightarrow> string \<Rightarrow> ('a, 'l, 'o) engine \<Rightarrow> ('a, 'l, 'o) engine \<Rightarrow> bool" where
  "frozen M g s s' \<longleftrightarrow> (use_inv M {g} s \<longrightarrow> use_inv M {g} s' \<and> successes_of g (e_effects s') = successes_of g (e_effects s))"

lemma frozenI: "keeps (use_step M {g}) m \<Longrightarrow> keeps (same_successes g) m \<Longrightarrow> keeps (frozen M g) m"
  by (auto simp: keeps_def frozen_def use_step_def same_successes_def)

lemma commit_frozen:
  assumes "ctx_grant_ops C = ops" "g_max_uses grant = M (g_grant_id grant)"
  shows "keeps (frozen M g) (commit C sealed grant adapter pb envelope graph)"
proof (rule keepsI)
  fix s x s'
  assume c: "commit C sealed grant adapter pb envelope graph s = (x, s')"
  have u: "use_step M {g} s s'"
    using keepsD [OF use_stepI [OF commit_uses [where M = M, OF assms]] c] .
  show "frozen M g s s'"
  proof (cases "e_effects s' = e_effects s")
    case True
    then show ?thesis using u by (simp add: frozen_def use_step_def)
  next
    case False
    obtain amount s1 s4 where p:
      "commit_checks C sealed grant adapter pb envelope graph s = (Inr (), s1)"
      "commit_committing C sealed grant adapter amount s4 = (x, s')" "e_effects s4 = e_effects s"
      using commit_phases [OF c False] by metis
    have "e_effects s' = e_effects s @ [commit_effect sealed grant (reports_success adapter (sm_manifest sealed) grant)]"
      using commit_committing_effects [OF p(2)] p(3) False by auto
    moreover have "\<not> gs_is_revoked ops (e_store s) (g_grant_id grant)"
      using commit_checks_gates [OF p(1)] assms(1) by (simp add: commit_gates_hold_def Let_def)
    then have "g_grant_id grant \<noteq> g" if "use_inv M {g} s"
      using that is_revoked [of M "e_store s" g] by (auto simp: use_inv_def)
    ultimately show ?thesis
      using u by (auto simp: frozen_def use_step_def successes_of_snoc)
  qed
qed

lemma frozen_call_frame:
  assumes "ctx_grant_ops C = ops"
  shows "call_frame C (frozen M g) (\<lambda>g. g_max_uses g = M (g_grant_id g))"
proof unfold_locales
  show "reflp (frozen M g)" "transp (frozen M g)"
    by (auto simp: frozen_def intro!: reflpI transpI)
  show "keeps (frozen M g) (store_revoke C h)" "keeps (frozen M g) (store_record_outcome C k out)"
      "keeps (frozen M g) (store_record_lineage C h p)" for h k out p
    using store_use_step [OF assms] suc.revoke_store suc.outcome_store suc.lineage_store by (auto intro!: frozenI)
qed (auto intro!: frozenI use_stepI keep_use core.transition suc.transition compensate_uses commit_frozen [OF assms]
      commit_compensation_uses [OF assms] suco.commit_compensation_keeps suco.compensate_keeps
    simp: frozen_def use_inv_def)

lemma run_frozen:
  assumes "\<forall>(C, c) \<in> set cs. ctx_grant_ops C = ops \<and> (\<forall>g \<in> set (presented c). g_max_uses g = M (g_grant_id g))"
    and "use_inv M {g} s"
  shows "successes_of g (e_effects (engine_run s cs)) = successes_of g (e_effects s)"
  using assms
proof (induction cs arbitrary: s)
  case (Cons x cs)
  obtain C c where x: "x = (C, c)" by (cases x)
  have "frozen M g s (engine_call C c s)"
    using call_frame.call_keeps [OF frozen_call_frame [where C = C and M = M and g = g]] Cons.prems(1) x by simp
  then show ?case
    using Cons x by (auto simp: frozen_def engine_run_def)
qed (simp add: engine_run_def)

lemma history_uses:
  assumes "\<forall>(C, c) \<in> set (cs @ ds). ctx_grant_ops C = ops \<and> (\<forall>g \<in> set (presented c). g_max_uses g = M (g_grant_id g))"
    and "inv M (e_store s)" "view (e_store s) = empty_view" "e_effects s = []"
  shows "int (successes_of g (e_effects (engine_run s cs))) \<le> max 0 (M g)"
    "gs_is_revoked ops (e_store (engine_run s cs)) g \<Longrightarrow>
       successes_of g (e_effects (engine_run s (cs @ ds))) = successes_of g (e_effects (engine_run s cs))"
proof -
  have "use_inv M {} s"
    using assms(2-4) by (simp add: use_inv_def successes_of_def view_within_def empty_view_def)
  then have u: "use_inv M {} (engine_run s cs)"
    using run_use_inv [of cs M "{}" s] assms(1) by simp
  then show "int (successes_of g (e_effects (engine_run s cs))) \<le> max 0 (M g)"
    by (rule use_inv_bound)
  assume "gs_is_revoked ops (e_store (engine_run s cs)) g"
  then have "use_inv M {g} (engine_run s cs)"
    using u is_revoked [of M "e_store (engine_run s cs)" g] by (simp add: use_inv_def)
  then show "successes_of g (e_effects (engine_run s (cs @ ds))) = successes_of g (e_effects (engine_run s cs))"
    using run_frozen [of ds M g "engine_run s cs"] assms(1) by (simp add: engine_run_def)
qed

end

end
