(* ===== verification/EngineLive.thy ===== *)
theory EngineLive
  imports EngineOnce
begin

text \<open>
  What the engine lets through: when every check of \<^verbatim>\<open>commit\<close> holds, the manifest is authorized and no
  call of the environment fails, a commit performs its effect, records its outcome and returns the
  adapter's result.  The safety properties of \<open>EngineSafety\<close> are therefore not met by refusing everything.
\<close>

section \<open>An environment in which nothing fails\<close>

text \<open>No call fails, identifiers are short, and the clock stands still while a handler runs.\<close>

definition calm :: "('s, 'l, 'o) engine_context \<Rightarrow> bool" where
  "calm C \<longleftrightarrow> (\<forall>n. \<not> ctx_audit_fault C n \<and> ctx_store_fault C n = NoFault
     \<and> ctx_uuid C n \<noteq> [] \<and> length (ctx_uuid C n) \<le> 256 \<and> ctx_now C n = ctx_now C 0)"

definition entry_fits :: "audit_entry \<Rightarrow> bool" where
  "entry_fits en \<longleftrightarrow> en_event_type en \<noteq> [] \<and> length (en_event_type en) \<le> 256
     \<and> en_decision en \<noteq> [] \<and> length (en_decision en) \<le> 256 \<and> length (en_metadata en) \<le> 32
     \<and> (\<forall>(k, v) \<in> set (en_metadata en). length k \<le> 64 \<and> length v \<le> 1024)"

definition journal_numbered :: "audit_event list \<Rightarrow> bool" where
  "journal_numbered js \<longleftrightarrow> js = [] \<or> 1 \<le> ae_sequence (last js)"

text \<open>Only the clock's counter and the journal have moved.\<close>

definition aside :: "('s, 'l, 'o) engine \<Rightarrow> ('s, 'l, 'o) engine \<Rightarrow> bool" where
  "aside s s' \<longleftrightarrow> e_records s' = e_records s \<and> e_saga_runs s' = e_saga_runs s \<and> e_store s' = e_store s
     \<and> e_budget s' = e_budget s \<and> e_lifecycle s' = e_lifecycle s \<and> e_outbox s' = e_outbox s \<and> e_effects s' = e_effects s
     \<and> (journal_numbered (e_journal s) \<longrightarrow> journal_numbered (e_journal s'))"

lemma build_event_fits:
  assumes "entry_fits en" "u \<noteq> []" "length u \<le> 256" "journal_numbered js"
  obtains e where "build_event cr now u (am_last_event js) en = Inr e" "1 \<le> ae_sequence e"
proof -
  let ?n = "case am_last_event js of None \<Rightarrow> 1 | Some p \<Rightarrow> ae_sequence p + 1"
  have n: "1 \<le> ?n"
    using assms(4) by (auto simp: journal_numbered_def am_last_event_def)
  show thesis
  proof (cases "build_event cr now u (am_last_event js) en")
    case (Inl x)
    then have False
      using assms(1-3) n
      by (auto simp: build_event_def Let_def event_validate_def nonempty_256_def result_simps entry_fits_def)
    then show thesis ..
  next
    case (Inr e)
    moreover from Inr have "ae_sequence e = ?n"
      by (auto simp: build_event_def Let_def result_simps)
    ultimately show thesis using that n by simp
  qed
qed

lemma audit_calm:
  assumes "calm C" "entry_fits en" "journal_numbered (e_journal s)"
  obtains s' where "audit C en s = (Inr (), s')" "aside s s'"
proof -
  let ?t = "e_tick s"
  obtain e where e: "build_event (ctx_crypto C) (ctx_now C ?t) (ctx_uuid C (Suc ?t)) (am_last_event (e_journal s)) en = Inr e"
      "1 \<le> ae_sequence e"
    using build_event_fits [OF assms(2) _ _ assms(3)] assms(1) unfolding calm_def by metis
  then have "audit C en s = (Inr (), s\<lparr>e_tick := Suc (Suc (Suc ?t)), e_journal := e_journal s @ [e]\<rparr>)"
    using assms(1) by (simp add: audit_def bindE_def fresh_def journal_record_def am_ops_def am_append_def calm_def)
  moreover have "aside s (s\<lparr>e_tick := Suc (Suc (Suc ?t)), e_journal := e_journal s @ [e]\<rparr>)"
    using e(2) by (simp add: aside_def journal_numbered_def)
  ultimately show thesis using that by blast
qed

lemma transition_calm:
  assumes "calm C" "e_records s mid = Some r" "is_legal_transition (lr_state r) target" "e_lifecycle s = None"
    and "journal_numbered (e_journal s)" "entry_fits (transition_entry mid (lr_state r) target a ''allowed'')"
  obtains r' s' where "transition C mid target a s = (Inr (), s')" "lr_state r' = target"
    "aside (s\<lparr>e_records := (e_records s)(mid := Some r')\<rparr>) s'"
proof -
  obtain r' where r': "record_transition r target (ctx_now C (e_tick s)) = Inr r'" "lr_state r' = target"
    using assms(3) by (auto simp: record_transition_ok_iff)
  let ?s = "s\<lparr>e_tick := Suc (e_tick s), e_records := (e_records s)(mid := Some r')\<rparr>"
  obtain s' where a: "audit C (transition_entry mid (lr_state r) target a ''allowed'') ?s = (Inr (), s')" "aside ?s s'"
    using audit_calm [OF assms(1,6), of ?s] assms(5) by auto
  have "transition C mid target a s = (Inr (), s')"
    using assms(2,4) r'(1) a(1)
    by (simp add: transition_def get_record_def persist_lifecycle_def bindE_def thenE_def getS_def ret_def fresh_def
        Let_def put_record_def modS_def on_error_def)
  moreover have "aside (s\<lparr>e_records := (e_records s)(mid := Some r')\<rparr>) s'"
    using a(2) by (auto simp: aside_def)
  ultimately show thesis using that r'(2) by blast
qed

section \<open>The checks\<close>

lemma passes [simp]:
  "deny_on p C sealed grant et' d' (Inr v) s = (Inr v, s)" "deny_if C sealed grant False et d x s = (Inr (), s)"
  by (simp_all add: deny_on_def on_error_def liftR_def deny_if_def whenE_def ret_def)

lemma clocked: "calm C \<Longrightarrow> ctx_now C k = ctx_now C n"
  unfolding calm_def by metis

text \<open>A check that passes moves nothing but the clock's counter, whatever it is.\<close>

definition clears :: "('s, 'l, 'o, unit) handler \<Rightarrow> ('s, 'l, 'o) engine \<Rightarrow> bool" where
  "clears m s \<longleftrightarrow> (\<forall>t. \<exists>t'. m (s\<lparr>e_tick := t\<rparr>) = (Inr (), s\<lparr>e_tick := t'\<rparr>))"

lemma clears_seqE: "(\<And>m. m \<in> set ms \<Longrightarrow> clears m s) \<Longrightarrow> clears (seqE ms) s"
proof (induction ms)
  case (Cons m ms)
  then have c: "clears m s" "clears (seqE ms) s" by simp_all
  show ?case
    unfolding clears_def
  proof
    fix t
    obtain t1 where 1: "m (s\<lparr>e_tick := t\<rparr>) = (Inr (), s\<lparr>e_tick := t1\<rparr>)"
      using c(1) by (auto simp: clears_def)
    obtain t2 where "seqE ms (s\<lparr>e_tick := t1\<rparr>) = (Inr (), s\<lparr>e_tick := t2\<rparr>)"
      using c(2) by (auto simp: clears_def)
    then have "seqE (m # ms) (s\<lparr>e_tick := t\<rparr>) = (Inr (), s\<lparr>e_tick := t2\<rparr>)"
      using 1 by (simp add: thenE_def bindE_def)
    then show "\<exists>t'. seqE (m # ms) (s\<lparr>e_tick := t\<rparr>) = (Inr (), s\<lparr>e_tick := t'\<rparr>)" ..
  qed
qed (auto simp: clears_def ret_def)

lemma check_grant_clears:
  assumes "calm C" "commit_gates_hold C sealed grant adapter pb envelope graph st"
  shows "clears (commit_check_grant C sealed grant) s"
proof -
  obtain n where g: "verify_seal (ctx_crypto C) sealed (ctx_keyring C) = Inr ()"
      "g_manifest_hash grant = Some (s_manifest_hash (sm_seal sealed))"
      "verify_grant (ctx_crypto C) grant (ctx_keyring C) (ctx_now C n) (leeway C) = Inr ()"
    using assms(2) by (auto simp: commit_gates_hold_def Let_def)
  then have "verify_grant (ctx_crypto C) grant (ctx_keyring C) (ctx_now C k) (leeway C) = Inr ()" for k
    by (metis clocked [OF assms(1)])
  then show ?thesis
    using g by (auto simp: clears_def commit_check_grant_def thenE_def bindE_def fresh_def)
qed

lemma check_policy_clears:
  assumes "calm C" "commit_gates_hold C sealed grant adapter pb envelope graph st" "g_policy_bundle_hash grant = None \<longrightarrow> pb = None"
  shows "clears (commit_check_policy C sealed grant pb) s"
proof (cases "g_policy_bundle_hash grant")
  case None
  then show ?thesis
    using assms(3) by (auto simp: clears_def commit_check_policy_def whenE_def ret_def)
next
  case (Some h)
  then obtain b n where b: "pb = Some b" "ps_bundle_hash (spb_seal b) = h" "pb_tenant_id (spb_bundle b) = ctx_tenant_id C"
      "verify_policy_bundle (ctx_crypto C) b (ctx_keyring C) (ctx_now C n) None = Inr ()"
    using assms(2) by (auto simp: commit_gates_hold_def Let_def)
  then have v: "verify_policy_bundle (ctx_crypto C) b (ctx_keyring C) (ctx_now C k) None = Inr ()" for k
    by (metis clocked [OF assms(1)])
  have "enforce_policy_tenant C (Some b) = Inr ()"
    using b(3) by (simp add: enforce_policy_tenant_def bind_engine_and_policy_tenant_def assert_tenant_match_iff)
  then show ?thesis
    using Some b v by (auto simp: clears_def commit_check_policy_def thenE_def bindE_def fresh_def)
qed

lemma check_envelope_clears:
  assumes "calm C" "commit_gates_hold C sealed grant adapter pb envelope graph st"
  shows "clears (commit_check_envelope C sealed grant envelope) s"
proof (cases "g_decision_envelope_hash grant")
  case None
  then show ?thesis
    by (auto simp: clears_def commit_check_envelope_def ret_def)
next
  case (Some h)
  then obtain e n where e: "envelope = Some e" "envelope_hash (ctx_crypto C) e = h"
      "assert_manifest_fits_envelope (sm_manifest sealed) e = Inr ()"
      "verify_decision_envelope (ctx_crypto C) e (ctx_keyring C) (ctx_now C n) = Inr ()"
    using assms(2) by (auto simp: commit_gates_hold_def Let_def)
  then have "verify_decision_envelope (ctx_crypto C) e (ctx_keyring C) (ctx_now C k) = Inr ()" for k
    by (metis clocked [OF assms(1)])
  then show ?thesis
    using Some e by (auto simp: clears_def commit_check_envelope_def thenE_def bindE_def fresh_def)
qed

lemma check_plan_clears:
  assumes "commit_gates_hold C sealed grant adapter pb envelope graph st"
  shows "clears (commit_check_plan C sealed grant graph) s"
proof (cases "g_causal_graph_hash grant")
  case None
  then show ?thesis
    by (auto simp: clears_def commit_check_plan_def ret_def)
next
  case (Some h)
  then obtain g where "graph = Some g" "graph_hash (ctx_crypto C) g = h" "graph_verify (ctx_crypto C) g (ctx_keyring C) = Inr ()"
      "s_manifest_hash (sm_seal sealed) \<in> set (cg_nodes g)"
    using assms by (auto simp: commit_gates_hold_def Let_def)
  then show ?thesis
    using Some
    by (auto simp: clears_def commit_check_plan_def require_matching_plan_hash_def assert_manifest_in_plan_def thenR_def raise_if_def)
qed

lemma check_adapter_clears:
  assumes "commit_gates_hold C sealed grant adapter pb envelope graph st"
  shows "clears (commit_check_adapter C sealed grant adapter) s"
  using assms
  by (auto simp: commit_gates_hold_def Let_def clears_def commit_check_adapter_def thenE_def bindE_def ret_def)

lemma check_revocation_clears:
  assumes "commit_gates_hold C sealed grant adapter pb envelope graph (e_store s)" "g_parent_grant_id grant = None"
  shows "clears (commit_check_revocation C sealed grant) s"
  using assms
  by (auto simp: commit_gates_hold_def Let_def clears_def commit_check_revocation_def thenE_def bindE_def getS_def whenE_def ret_def
      assert_no_revoked_ancestors_def)

lemma checks_clear:
  assumes "calm C" "commit_gates_hold C sealed grant adapter pb envelope graph (e_store s)"
    and "g_policy_bundle_hash grant = None \<longrightarrow> pb = None" "g_parent_grant_id grant = None"
  obtains t where "commit_checks C sealed grant adapter pb envelope graph s = (Inr (), s\<lparr>e_tick := t\<rparr>)"
proof -
  have "clears (commit_checks C sealed grant adapter pb envelope graph) s"
    unfolding commit_checks_def using assms
    by (intro clears_seqE)
      (auto intro: check_grant_clears check_policy_clears check_envelope_clears check_plan_clears check_adapter_clears check_revocation_clears)
  then show thesis
    using that by (auto simp: clears_def dest!: spec [of _ "e_tick s"])
qed

section \<open>The commit\<close>

lemma mem_reserve_commit:
  assumes "mem_reserve st g m = (True, st1)"
  obtains st2 where "mem_commit st1 g k out = (Inr (), st2)" "mem_get_use_count st2 g = Suc (mem_get_use_count st g)"
    "mem_get_idempotent_outcome st2 k = Some out" "mem_get_idempotent_outcome st1 k = mem_get_idempotent_outcome st k"
  using assms
  by (auto simp: mem_reserve_def mem_commit_def Let_def mem_get_use_count_def mem_get_idempotent_outcome_def new_slot_def
      split: if_splits option.splits)

text \<open>The reference under which a commit is remembered.\<close>

definition outcome_reference :: "commit_result \<Rightarrow> string" where
  "outcome_reference r = (case cm_provider_reference r of None \<Rightarrow> ''committed'' | Some p \<Rightarrow> or_else p ''committed'')"

lemma commit_entries_fit:
  "entry_fits (transition_entry mid a b (commit_targs sealed grant ''effect.committing'' []) ''allowed'')"
  "entry_fits (transition_entry mid a b (commit_targs sealed grant ''effect.committed'' [(''provider_reference'', take 200 p)]) ''allowed'')"
  by (simp_all add: entry_fits_def transition_entry_def entry_of_def commit_targs_def targs_def)

lemma execute_calm:
  assumes "calm C" "ctx_grant_ops C = mem_ops" "g_authority_budget_id grant = None"
    and "e_lifecycle s = None" "e_outbox s = None" "journal_numbered (e_journal s)"
    and "e_records s (m_manifest_id (sm_manifest sealed)) = Some r" "lr_state r = COMMITTING"
    and "ad_commit adapter (sm_manifest sealed) grant = Inr result" "cm_success result"
    and "mem_commit (e_store s) (g_grant_id grant) (m_idempotency_key (sm_manifest sealed)) (outcome_reference result) = (Inr (), st)"
  obtains s' r' where "commit_execute C sealed grant adapter None False s = (Inr result, s')" "e_store s' = st"
    "e_effects s' = e_effects s @ [commit_effect sealed grant True]"
    "e_records s' (m_manifest_id (sm_manifest sealed)) = Some r'" "lr_state r' = COMMITTED"
proof -
  let ?mid = "m_manifest_id (sm_manifest sealed)"
  let ?s = "s\<lparr>e_effects := e_effects s @ [commit_effect sealed grant True], e_tick := Suc (e_tick s), e_store := st\<rparr>"
  have l: "is_legal_transition (lr_state r) COMMITTED"
    using assms(8) by (simp add: is_legal_transition_def)
  obtain r' s' where t: "transition C ?mid COMMITTED
        (commit_targs sealed grant ''effect.committed'' [(''provider_reference'', take 200 (outcome_reference result))]) ?s = (Inr (), s')"
      "lr_state r' = COMMITTED" "aside (?s\<lparr>e_records := (e_records ?s)(?mid := Some r')\<rparr>) s'"
    by (rule transition_calm [OF assms(1) _ l _ _ commit_entries_fit(2), of ?s]) (use assms(4,6,7) in simp_all)
  have "commit_execute C sealed grant adapter None False s = (Inr result, s')"
    using assms(1,2,3,5,9-11) t(1)
    by (simp add: commit_execute_def commit_finalize_def adapter_commit_def confirm_outbox_def store_commit_def on_store_def
        budget_metadata_def bindE_def thenE_def on_error_def getS_def ret_def fresh_def Let_def mem_ops_def calm_def
        outcome_reference_def)
  then show thesis
    using that t(2,3) by (auto simp: aside_def)
qed

lemma commit_calm:
  assumes "calm C" "commit_gates_hold C sealed grant adapter pb envelope graph (e_store s)"
    and "g_policy_bundle_hash grant = None \<longrightarrow> pb = None" "g_parent_grant_id grant = None" "g_authority_budget_id grant = None"
    and "e_lifecycle s = None" "e_outbox s = None" "journal_numbered (e_journal s)"
    and "e_records s (m_manifest_id (sm_manifest sealed)) = Some r" "lr_state r = AUTHORIZED"
    and "ctx_grant_ops C = mem_ops" "fst (mem_reserve (e_store s) (g_grant_id grant) (g_max_uses grant))"
    and "mem_get_idempotent_outcome (e_store s) (m_idempotency_key (sm_manifest sealed)) = None"
    and "ad_validate_preconditions adapter (sm_manifest sealed) = Inr pr" "pr_satisfied pr"
    and "ad_commit adapter (sm_manifest sealed) grant = Inr result" "cm_success result"
  shows "\<exists>s' r'. commit C sealed grant adapter pb envelope graph s = (Inr result, s')
     \<and> e_effects s' = e_effects s @ [commit_effect sealed grant True]
     \<and> mem_get_use_count (e_store s') (g_grant_id grant) = Suc (mem_get_use_count (e_store s) (g_grant_id grant))
     \<and> mem_get_idempotent_outcome (e_store s') (m_idempotency_key (sm_manifest sealed)) = Some (outcome_reference result)
     \<and> e_records s' (m_manifest_id (sm_manifest sealed)) = Some r' \<and> lr_state r' = COMMITTED"
proof -
  let ?mid = "m_manifest_id (sm_manifest sealed)"
  obtain t where c: "commit_checks C sealed grant adapter pb envelope graph s = (Inr (), s\<lparr>e_tick := t\<rparr>)"
    using checks_clear [OF assms(1-4)] .
  obtain st1 where st1: "mem_reserve (e_store s) (g_grant_id grant) (g_max_uses grant) = (True, st1)"
    using assms(12) by (cases "mem_reserve (e_store s) (g_grant_id grant) (g_max_uses grant)") auto
  obtain st2 where st2: "mem_commit st1 (g_grant_id grant) (m_idempotency_key (sm_manifest sealed)) (outcome_reference result) = (Inr (), st2)"
      "mem_get_use_count st2 (g_grant_id grant) = Suc (mem_get_use_count (e_store s) (g_grant_id grant))"
      "mem_get_idempotent_outcome st2 (m_idempotency_key (sm_manifest sealed)) = Some (outcome_reference result)"
      "mem_get_idempotent_outcome st1 (m_idempotency_key (sm_manifest sealed)) = None"
    using mem_reserve_commit [OF st1] assms(13) by metis
  let ?s = "s\<lparr>e_tick := Suc t, e_store := st1\<rparr>"
  have g: "commit_reserve_grant C sealed grant None (s\<lparr>e_tick := t\<rparr>) = (Inr (), ?s)"
    using assms(1,11) st1
    by (simp add: commit_reserve_grant_def store_reserve_def on_store_def bindE_def fresh_def whenE_def ret_def mem_ops_def calm_def)
  have l: "is_legal_transition (lr_state r) COMMITTING"
    using assms(10) by (simp add: is_legal_transition_def)
  obtain r1 s1 where e: "transition C ?mid COMMITTING (commit_targs sealed grant ''effect.committing'' []) ?s = (Inr (), s1)"
      "lr_state r1 = COMMITTING" "aside (?s\<lparr>e_records := (e_records ?s)(?mid := Some r1)\<rparr>) s1"
    by (rule transition_calm [OF assms(1) _ l _ _ commit_entries_fit(1), of ?s]) (use assms(6,8,9) in simp_all)
  then have s1: "e_lifecycle s1 = None" "e_outbox s1 = None" "journal_numbered (e_journal s1)" "e_records s1 ?mid = Some r1"
      "e_store s1 = st1" "e_effects s1 = e_effects s"
    using assms(6-8) by (auto simp: aside_def)
  obtain s' r' where x: "commit_execute C sealed grant adapter None False s1 = (Inr result, s')" "e_store s' = st2"
      "e_effects s' = e_effects s1 @ [commit_effect sealed grant True]" "e_records s' ?mid = Some r'" "lr_state r' = COMMITTED"
    using execute_calm [OF assms(1,11,5) s1(1-4) e(2) assms(16,17), of st2] st2(1) s1(5) by metis
  have "commit_committing C sealed grant adapter None s1 = (Inr result, s')"
    using s1(2,5) st2(4) assms(11,14,15) x(1)
    by (simp add: commit_committing_def commit_record_outbox_def commit_preconditions_def bindE_def thenE_def getS_def ret_def
        on_error_def liftR_def whenE_def mem_ops_def)
  then have "commit C sealed grant adapter pb envelope graph s = (Inr result, s')"
    using c g e(1) assms(5)
    by (simp add: commit_def commit_enter_def commit_reserve_budget_def budget_metadata_def thenE_def bindE_def on_error_def ret_def)
  then show ?thesis
    using x st2(2,3) s1(6) by auto
qed


end
