(* ===== verification/EngineBackends.thy ===== *)
theory EngineBackends
  imports EngineUses EngineLive
begin

text \<open>
  The engine on each of the three grant stores: the contract of \<open>EngineUses\<close> is discharged for the
  in-memory, the SQLite and the Redis backend, and with it the bound on the uses of a grant and the
  permanence of a revocation over whole histories of the engine.  A concrete engine, with the sample
  keys of \<open>Sealing\<close> and a small adapter, shows the properties of the engine at work.
\<close>

section \<open>The backends fulfil the contract\<close>

interpretation memory_engine: engine_store mem_ops mem_view mem_inv
proof unfold_locales
  fix M s f g p x s'
  assume i: "mem_inv M s" and "gs_record_lineage mem_ops f s g p = (x, s')"
  then have s': "s' = s\<lparr>ms_lineage := (ms_lineage s)(g \<mapsto> p)\<rparr>"
    by (simp add: mem_ops_def mem_record_lineage_def)
  show "mem_inv M s' \<and> gv_uses (mem_view s') = gv_uses (mem_view s) \<and> gv_held (mem_view s') = gv_held (mem_view s)
      \<and> gv_revoked (mem_view s') = gv_revoked (mem_view s)"
    using i by (simp add: s' mem_inv_def mem_view_def mem_is_revoked_def mem_get_use_count_def fun_eq_iff)
qed

interpretation sqlite_engine: engine_store sq_ops sq_view sq_inv
proof unfold_locales
  fix M s f g p x s'
  assume i: "sq_inv M s" and "gs_record_lineage sq_ops f s g p = (x, s')"
  then have "\<exists>t. s' = s\<lparr>sq_grant_lineage := t\<rparr>"
    by (auto simp: sq_ops_def sq_record_lineage_def sq_tx_def intro: exI [of _ "sq_grant_lineage s"] split: if_splits)
  then obtain t where s': "s' = s\<lparr>sq_grant_lineage := t\<rparr>" ..
  show "sq_inv M s' \<and> gv_uses (sq_view s') = gv_uses (sq_view s) \<and> gv_held (sq_view s') = gv_held (sq_view s)
      \<and> gv_revoked (sq_view s') = gv_revoked (sq_view s)"
    using i by (simp add: s' sq_inv_def sq_bits_def sq_view_def sq_mem_def mem_inv_def mem_view_def
        mem_is_revoked_def mem_get_use_count_def fun_eq_iff)
qed

interpretation redis_engine: engine_store "rd_ops ns" "rd_view ns" "rd_inv ns" for ns
proof unfold_locales
  fix M s f g p x s'
  assume i: "rd_inv ns M s" and "gs_record_lineage (rd_ops ns) f s g p = (x, s')"
  then have "s' = s \<or> (\<exists>v. s' = s(rd_key ns g ''parent'' := Some v))"
    by (cases f) (auto simp: rd_ops_def rd_record_lineage_def rd_call_def Let_def)
  then show "rd_inv ns M s' \<and> gv_uses (rd_view ns s') = gv_uses (rd_view ns s) \<and> gv_held (rd_view ns s') = gv_held (rd_view ns s)
      \<and> gv_revoked (rd_view ns s') = gv_revoked (rd_view ns s)"
    using i by (elim disjE exE) (simp_all add: rd_inv_def rd_view_def rd_is_revoked_def rd_get_use_count_def fun_eq_iff)
qed

text \<open>A history on one backend, in which every grant is presented with the limit it was issued with.\<close>

definition on_backend :: "'s grant_store_ops \<Rightarrow> (string \<Rightarrow> int) \<Rightarrow> (('s, 'l, 'o) engine_context \<times> engine_op) list \<Rightarrow> bool" where
  "on_backend ops M cs \<longleftrightarrow>
     (\<forall>(C, c) \<in> set cs. ctx_grant_ops C = ops \<and> (\<forall>g \<in> set (presented c). g_max_uses g = M (g_grant_id g)))"

definition fresh_engine :: "('s, 'l, 'o) engine \<Rightarrow> 's \<Rightarrow> bool" where
  "fresh_engine s st \<longleftrightarrow> e_store s = st \<and> e_effects s = []"

text \<open>C4. Over any history of calls on an engine that starts with an empty store, whatever fails and whoever
  calls, the adapters report success for a grant at most as often as the grant allows; with each of the
  three stores.\<close>

theorem engine_grant_uses_bounded:
  "(\<forall>s cs. fresh_engine s mem_init \<and> on_backend mem_ops M cs \<longrightarrow> int (successes_of g (e_effects (engine_run s cs))) \<le> max 0 (M g))
   \<and> (\<forall>s cs. fresh_engine s sq_init \<and> on_backend sq_ops M cs \<longrightarrow> int (successes_of g (e_effects (engine_run s cs))) \<le> max 0 (M g))
   \<and> (\<forall>s cs. fresh_engine s (\<lambda>_. None) \<and> on_backend (rd_ops ns) M cs \<longrightarrow> int (successes_of g (e_effects (engine_run s cs))) \<le> max 0 (M g))"
  by (intro conjI allI impI memory_engine.history_uses(1) [where ds = "[]"] sqlite_engine.history_uses(1) [where ds = "[]"]
      redis_engine.history_uses(1) [where ds = "[]"])
    (auto simp: fresh_engine_def on_backend_def)

text \<open>C5. Once the store of an engine reports a grant revoked, no later call of any kind leads to a success for
  that grant: further histories leave the count of its successes as it is; with each of the three stores.\<close>

theorem engine_revocation_final:
  "(\<forall>s cs ds. fresh_engine s mem_init \<and> on_backend mem_ops M (cs @ ds) \<and> mem_is_revoked (e_store (engine_run s cs)) g
      \<longrightarrow> successes_of g (e_effects (engine_run s (cs @ ds))) = successes_of g (e_effects (engine_run s cs)))
   \<and> (\<forall>s cs ds. fresh_engine s sq_init \<and> on_backend sq_ops M (cs @ ds) \<and> sq_is_revoked (e_store (engine_run s cs)) g
      \<longrightarrow> successes_of g (e_effects (engine_run s (cs @ ds))) = successes_of g (e_effects (engine_run s cs)))
   \<and> (\<forall>s cs ds. fresh_engine s (\<lambda>_. None) \<and> on_backend (rd_ops ns) M (cs @ ds) \<and> rd_is_revoked ns (e_store (engine_run s cs)) g
      \<longrightarrow> successes_of g (e_effects (engine_run s (cs @ ds))) = successes_of g (e_effects (engine_run s cs)))"
  by (intro conjI allI impI memory_engine.history_uses(2) [where M = M] sqlite_engine.history_uses(2) [where M = M]
      redis_engine.history_uses(2) [where M = M])
    (auto simp: fresh_engine_def on_backend_def ops_queries)

section \<open>A concrete engine\<close>

definition toy_adapter :: effect_adapter where
  "toy_adapter = \<lparr>ad_identity = \<lparr>adapter_id = ''pay'', adapter_version = ''1''\<rparr>, ad_prepare = Inr toy_manifest,
     ad_validate_preconditions = (\<lambda>_. Inr \<lparr>pr_satisfied = True, pr_reason = None, pr_observed_fingerprint = None\<rparr>),
     ad_commit = (\<lambda>m g. Inr \<lparr>cm_success = True, cm_idempotency_key = m_idempotency_key m, cm_provider_reference = Some ''ref-1'',
       cm_detail = None, cm_after_state_digest = None\<rparr>),
     ad_verify = (\<lambda>m r. Inr \<lparr>op_matched_expected = True, op_observed_at = 60, op_observed_after_state_digest = None, op_detail = None\<rparr>),
     ad_compensate = (\<lambda>m r. Inr \<lparr>cp_attempted = True, cp_succeeded = True, cp_reason = None, cp_detail = None\<rparr>)\<rparr>"

definition toy_result :: commit_result where
  "toy_result = \<lparr>cm_success = True, cm_idempotency_key = ''k-1'', cm_provider_reference = Some ''ref-1'',
     cm_detail = None, cm_after_state_digest = None\<rparr>"

definition toy_context :: "(mem_store, unit, unit) engine_context" where
  "toy_context = \<lparr>ctx_crypto = toy_crypto, ctx_keyring = toy_keyring, ctx_leeway_seconds = 0, ctx_adapter_registry = None,
     ctx_tenant_id = None, ctx_grant_ops = mem_ops,
     ctx_lifecycle_ops = \<lparr>lo_get = (\<lambda>_ _. Inr None), lo_set = (\<lambda>_ l _ _. (Inr (), l)), lo_cas = (\<lambda>_ l _ _ _. (Inr True, l))\<rparr>,
     ctx_outbox_step = (\<lambda>_ ob _. (Inr (), ob)), ctx_outbox_get = (\<lambda>_ _. Inr None), ctx_outbox_pending = (\<lambda>_. Inr []),
     ctx_now = (\<lambda>_. 50), ctx_uuid = (\<lambda>_. ''u''), ctx_audit_fault = (\<lambda>_. False), ctx_store_fault = (\<lambda>_. NoFault),
     ctx_lifecycle_fault = (\<lambda>_. False), ctx_outbox_fault = (\<lambda>_. False), ctx_text = (\<lambda>_. []), ctx_reason = (\<lambda>_. [])\<rparr>"

definition toy_engine :: "(mem_store, unit, unit) engine" where
  "toy_engine = \<lparr>e_records = [''m-1'' \<mapsto> record_in_state ''m-1'' AUTHORIZED], e_saga_runs = Map.empty, e_store = mem_init,
     e_journal = [], e_budget = None, e_lifecycle = None, e_outbox = None, e_tick = 0, e_effects = []\<rparr>"

definition toy_bound_args :: execution_grant where
  "toy_bound_args = toy_grant_args\<lparr>g_manifest_hash := Some (s_manifest_hash (sm_seal toy_sealed))\<rparr>"

definition toy_bound_grant :: execution_grant where
  "toy_bound_grant = toy_bound_args\<lparr>g_signature := Some (sk_sign toy_crypto toy_key (grant_hash toy_crypto toy_bound_args))\<rparr>"

lemma toy_grant_fields [simp]:
  "g_grant_id toy_bound_grant = ''g-1''" "g_manifest_hash toy_bound_grant = Some (s_manifest_hash (sm_seal toy_sealed))"
  "g_policy_bundle_hash toy_bound_grant = None" "g_decision_envelope_hash toy_bound_grant = None"
  "g_causal_graph_hash toy_bound_grant = None" "g_authority_budget_id toy_bound_grant = None"
  "g_parent_grant_id toy_bound_grant = None" "g_audience toy_bound_grant = [''pay'']"
  "g_allowed_effect_types toy_bound_grant = [''refund'']" "g_max_uses toy_bound_grant = 1"
  "g_not_before toy_bound_grant = 0" "g_expires_at toy_bound_grant = 100"
  by (simp_all add: toy_bound_grant_def toy_bound_args_def toy_grant_args_def)

lemma toy_manifest_fields [simp]:
  "sm_manifest toy_sealed = toy_manifest" "m_manifest_id toy_manifest = ''m-1''" "m_idempotency_key toy_manifest = ''k-1''"
  "m_effect_type toy_manifest = ''refund''" "m_adapter toy_manifest = \<lparr>adapter_id = ''pay'', adapter_version = ''1''\<rparr>"
  by (simp_all add: toy_sealed_def toy_manifest_def)

lemma toy_bound_issued: "issue_grant toy_crypto 0 toy_key toy_bound_args = Inr toy_bound_grant"
proof -
  obtain h where h: "s_manifest_hash (sm_seal toy_sealed) = h" "digest_shape h"
    using canonical_hash_shape [OF toy_crypto_ok] by (simp add: toy_sealed_def manifest_hash_def)
  have v: "is_ok (assert_supported_schema_version ''1.0'')"
    by code_simp
  have "grant_validate toy_bound_args = Inr ()"
    using h(2) v
    by (simp add: is_ok_unit [symmetric] grant_validate_def toy_bound_args_def h(1) toy_grant_args_def opt_digest_check_def
        id_length_check_def raise_if_def thenR_def)
  then show ?thesis
    by (simp add: issue_grant_ok_iff Let_def toy_bound_grant_def)
      (simp add: toy_bound_args_def toy_grant_args_def toy_key_def toy_principal_def CURRENT_SCHEMA_VERSION_def sorted_set_def)
qed

lemma toy_gates: "commit_gates_hold toy_context toy_sealed toy_bound_grant toy_adapter None None None st \<longleftrightarrow> \<not> mem_is_revoked st ''g-1''"
proof -
  have k: "toy_keyring (sk_key_id toy_key) = Some (sk_verification_key toy_crypto toy_key)"
    using toy_keyring_key by (simp add: toy_key_def)
  have g: "verify_grant_signature toy_crypto toy_bound_grant toy_keyring = Inr ()"
    using toy_crypto_ok toy_bound_issued k by (rule issued_grant_signature)
  have w: "verify_grant_time_window toy_bound_grant 50 0 = Inr ()"
    by (simp add: verify_grant_time_window_def)
  have "verify_grant toy_crypto toy_bound_grant toy_keyring 50 0 = Inr ()"
    by (simp add: verify_grant_def g w thenR_def)
  moreover have "verify_seal toy_crypto toy_sealed toy_keyring = Inr ()"
    using vk_verify_sign [OF toy_crypto_ok, of toy_key "manifest_hash toy_crypto toy_manifest"] toy_keyring_key
    by (simp add: toy_sealed_def verify_seal_def verify_integrity_def kr_verify_def kr_get_def thenR_def raise_if_def)
  ultimately show ?thesis
    by (simp add: commit_gates_hold_def Let_def toy_context_def leeway_def require_trusted_adapter_def mem_ops_def
        assert_no_revoked_ancestors_def MAX_DELEGATION_DEPTH_def toy_adapter_def)
qed

lemma toy_engine_ready [simp]:
  "calm toy_context" "ctx_grant_ops toy_context = mem_ops" "ctx_crypto toy_context = toy_crypto"
  "e_lifecycle toy_engine = None" "e_outbox toy_engine = None" "e_journal toy_engine = []" "e_effects toy_engine = []"
  "e_store toy_engine = mem_init" "e_records toy_engine ''m-1'' = Some (record_in_state ''m-1'' AUTHORIZED)"
  "\<not> mem_is_revoked mem_init g" "fst (mem_reserve mem_init g 1)" "mem_get_idempotent_outcome mem_init k = None"
  "mem_get_use_count mem_init g = 0" "lr_state (record_in_state m st) = st"
  "ad_commit toy_adapter toy_manifest g' = Inr toy_result" "cm_success toy_result"
  "ad_validate_preconditions toy_adapter m' = Inr \<lparr>pr_satisfied = True, pr_reason = None, pr_observed_fingerprint = None\<rparr>"
  by (simp_all add: calm_def toy_context_def toy_engine_def toy_adapter_def toy_result_def record_in_state_def
      mem_init_def mem_reserve_def mem_is_revoked_def mem_get_idempotent_outcome_def mem_get_use_count_def new_slot_def)


lemma toy_commit:
  obtains s' where "commit toy_context toy_sealed toy_bound_grant toy_adapter None None None toy_engine = (Inr toy_result, s')"
    "e_effects s' = [Committed_effect ''m-1'' ''g-1'' ''k-1'' True]"
  using commit_calm [of toy_context toy_sealed toy_bound_grant toy_adapter None None None toy_engine
      "record_in_state ''m-1'' AUTHORIZED" "\<lparr>pr_satisfied = True, pr_reason = None, pr_observed_fingerprint = None\<rparr>" toy_result]
  by (auto simp: toy_gates journal_numbered_def)

definition toy_history :: "((mem_store, unit, unit) engine_context \<times> engine_op) list" where
  "toy_history = [(toy_context, CallCommit toy_sealed toy_bound_grant toy_adapter None None None)]"

definition toy_revocation :: "((mem_store, unit, unit) engine_context \<times> engine_op) list" where
  "toy_revocation = [(toy_context, CallRevoke toy_bound_grant ''m-1'' (toy_principal ''alice'' HUMAN))]"

lemma toy_history_effects: "e_effects (engine_run toy_engine toy_history) = [Committed_effect ''m-1'' ''g-1'' ''k-1'' True]"
  by (rule toy_commit) (simp add: engine_run_def toy_history_def)

lemma then_store: "keeps same_core k \<Longrightarrow> e_store (snd (thenE m k s)) = e_store (snd (m s))"
  by (auto simp: thenE_def bindE_def keeps_def same_core_def split: prod.splits sum.splits)

text \<open>Revoking through the engine revokes in the store, whatever becomes of the lifecycle.\<close>

lemma revoke_reaches_store: "e_store (snd (revoke C grant mid p s)) = e_store (snd (store_revoke C (g_grant_id grant) s))"
  unfolding revoke_def by (rule then_store) (auto intro!: frame_intros)

lemma toy_revoked: "mem_is_revoked (e_store (engine_run toy_engine toy_revocation)) ''g-1''"
  by (simp add: engine_run_def toy_revocation_def revoke_reaches_store store_revoke_def on_store_def bindE_def fresh_def
      mem_ops_def mem_is_revoked_def mem_revoke_def mem_init_def)

theorem commit_complete_mediation_witness:
  "\<exists>s'. commit toy_context toy_sealed toy_bound_grant toy_adapter None None None toy_engine = (Inr toy_result, s')
     \<and> commit_gates_hold toy_context toy_sealed toy_bound_grant toy_adapter None None None mem_init
     \<and> e_effects s' = [Committed_effect ''m-1'' ''g-1'' ''k-1'' True]"
proof -
  obtain s' where s': "commit toy_context toy_sealed toy_bound_grant toy_adapter None None None toy_engine = (Inr toy_result, s')"
      "e_effects s' = [Committed_effect ''m-1'' ''g-1'' ''k-1'' True]"
    by (rule toy_commit)
  then show ?thesis
    using commit_complete_mediation [OF s'(1)] by simp
qed

theorem engine_journal_intact_witness:
  "verify_chain toy_crypto am_ops (e_journal (engine_run toy_engine toy_history)) = Inr ()"
  using engine_journal_intact [of toy_history toy_crypto toy_engine]
  by (simp add: toy_history_def verify_chain_def am_ops_def verify_event_chain_def)

theorem engine_lifecycle_legal_witness:
  "\<exists>r'. e_records (engine_run toy_engine toy_history) ''m-1'' = Some r' \<and> legal_path AUTHORIZED (lr_state r')"
  using engine_lifecycle_legal [of toy_engine "''m-1''" "record_in_state ''m-1'' AUTHORIZED" toy_history] by simp

theorem adapter_commit_at_most_once_witness:
  "commits_for ''m-1'' (e_effects (engine_run toy_engine toy_history)) = 1"
proof (rule le_antisym)
  show "commits_for ''m-1'' (e_effects (engine_run toy_engine toy_history)) \<le> 1"
    by (rule adapter_commit_at_most_once) simp
  show "1 \<le> commits_for ''m-1'' (e_effects (engine_run toy_engine toy_history))"
    by (simp add: toy_history_effects commits_for_def)
qed

theorem engine_grant_uses_bounded_witness:
  "successes_of ''g-1'' (e_effects (engine_run toy_engine toy_history)) = 1"
proof (rule le_antisym)
  show "successes_of ''g-1'' (e_effects (engine_run toy_engine toy_history)) \<le> 1"
    using engine_grant_uses_bounded [of "\<lambda>_. 1" "''g-1''" "''ks''"]
    by (auto simp: fresh_engine_def on_backend_def toy_history_def dest!: spec [of _ toy_engine] spec [of _ toy_history])
  show "1 \<le> successes_of ''g-1'' (e_effects (engine_run toy_engine toy_history))"
    by (simp add: toy_history_effects successes_of_def)
qed

theorem engine_revocation_final_witness:
  "mem_is_revoked (e_store (engine_run toy_engine toy_revocation)) ''g-1''
   \<and> successes_of ''g-1'' (e_effects (engine_run toy_engine (toy_revocation @ toy_history)))
     = successes_of ''g-1'' (e_effects (engine_run toy_engine toy_revocation))"
proof -
  have "fresh_engine toy_engine mem_init" "on_backend mem_ops (\<lambda>_. 1) (toy_revocation @ toy_history)"
    by (simp_all add: fresh_engine_def on_backend_def toy_history_def toy_revocation_def)
  then show ?thesis
    using engine_revocation_final [of "\<lambda>_. 1" "''g-1''" "''ks''"] toy_revoked by blast
qed

end
