(* ===== verification/EngineEvidence.thy ===== *)
theory EngineEvidence
  imports EngineBackends
begin

text \<open>
  What the acceptance of independent evidence guarantees: an accepted proof rests on a valid seal and
  on a quorum of witnesses, or on usable evidence, at the time the clock reported, and accepting it
  moves nothing in the engine but its journal.
\<close>

section \<open>Evidence handlers only observe\<close>

definition bystander :: "('s, 'l, 'o) engine \<Rightarrow> ('s, 'l, 'o) engine \<Rightarrow> bool" where
  "bystander s s' \<longleftrightarrow> (\<exists>t js. s' = s\<lparr>e_tick := t, e_journal := js\<rparr>)"

lemma bystanderI: "bystander s (s\<lparr>e_tick := t, e_journal := js\<rparr>)"
  unfolding bystander_def by blast

interpretation bystander: audit_frame C bystander for C :: "('s, 'l, 'o) engine_context"
proof
  show "reflp (bystander :: ('s, 'l, 'o) engine \<Rightarrow> _)"
  proof (rule reflpI)
    show "bystander s s" for s :: "('s, 'l, 'o) engine"
      using bystanderI [of s "e_journal s" "e_tick s"] by simp
  qed
  show "transp (bystander :: ('s, 'l, 'o) engine \<Rightarrow> _)"
    by (rule transpI) (clarsimp simp: bystander_def, blast)
  show "bystander s (s\<lparr>e_tick := t\<rparr>)" for s :: "('s, 'l, 'o) engine" and t
    using bystanderI [of s "e_journal s" t] by simp
  show "bystander s (s\<lparr>e_journal := js\<rparr>)" for s :: "('s, 'l, 'o) engine" and js
    using bystanderI [of s js "e_tick s"] by simp
qed

lemma liftR_ok: "liftR x s = (Inr u, s') \<longleftrightarrow> x = Inr u \<and> s' = s"
  by (auto simp: liftR_def)

lemma bystanderD: "bystander s s' \<Longrightarrow> \<exists>t js. s' = s\<lparr>e_tick := t, e_journal := js\<rparr>"
  unfolding bystander_def by blast

section \<open>Witnesses\<close>

text \<open>An engine accepts the testimony of witnesses only for a manifest whose seal verifies, and only
  if at the clock's time at least as many distinct independent witnesses as the policy requires have
  each signed a valid statement about exactly this manifest, digest and policy; it returns exactly
  these witnesses, and whether it accepts or refuses it changes neither lifecycle, stores, budgets
  nor the outside world.\<close>

theorem witness_proof_sound:
  assumes "prove_with_witness_quorum C render sealed statements policy digest actor subject s = (r, s')"
  defines "W \<equiv> witness_id ` {st \<in> set statements. witness_counts (ctx_crypto C) (ctx_keyring C) (ctx_now C (e_tick s))
      (s_manifest_hash (sm_seal sealed)) digest policy actor subject st}"
  shows "(\<forall>q. r = Inr q \<longrightarrow> verify_seal (ctx_crypto C) sealed (ctx_keyring C) = Inr ()
      \<and> wp_required_witnesses policy \<le> int (card W) \<and> wq_accepted_witness_ids q = sorted_list_of_set W)
    \<and> (\<exists>t js. s' = s\<lparr>e_tick := t, e_journal := js\<rparr>)"
proof
  show "\<forall>q. r = Inr q \<longrightarrow> verify_seal (ctx_crypto C) sealed (ctx_keyring C) = Inr ()
      \<and> wp_required_witnesses policy \<le> int (card W) \<and> wq_accepted_witness_ids q = sorted_list_of_set W"
  proof (intro allI impI)
    fix q assume "r = Inr q"
    with assms(1) have seal: "verify_seal (ctx_crypto C) sealed (ctx_keyring C) = Inr ()" and q: "wq_satisfied q"
      "evaluate_witness_quorum render (ctx_crypto C) statements policy (s_manifest_hash (sm_seal sealed)) digest actor subject
         (ctx_keyring C) (ctx_now C (e_tick s)) = Inr q"
      by (auto simp: prove_with_witness_quorum_def evaluate_witnesses_def bindE_Inr_iff thenE_Inr_iff liftR_ok ret_def fresh_def is_ok_unit raise_if_Inr_iff)
    show "verify_seal (ctx_crypto C) sealed (ctx_keyring C) = Inr ()
        \<and> wp_required_witnesses policy \<le> int (card W) \<and> wq_accepted_witness_ids q = sorted_list_of_set W"
      using witness_accepted [OF q(2)] q(1) seal by (simp add: W_def)
  qed
  show "\<exists>t js. s' = s\<lparr>e_tick := t, e_journal := js\<rparr>"
    by (rule bystanderD [OF keepsD [OF bystander.prove_keeps assms(1)]])
qed

section \<open>Evidence\<close>

text \<open>C25. An engine accepts evidence only for a manifest whose seal verifies and only if at the clock's
  time some usable record supports it, and it reports the kind of such a record; accepting or refusing
  evidence changes neither lifecycle, stores, budgets nor the outside world.\<close>

theorem evidence_proof_sound:
  assumes "engine_assert_evidence_quality C render sealed records policy digest s = (r, s')"
  defines "U \<equiv> {rec \<in> set records. evidence_usable (ctx_now C (e_tick s)) (s_manifest_hash (sm_seal sealed)) digest policy rec}"
  shows "(\<forall>a. r = Inr a \<longrightarrow> verify_seal (ctx_crypto C) sealed (ctx_keyring C) = Inr ()
      \<and> (\<exists>rec \<in> U. ea_strongest_kind a = Some (er_kind rec)))
    \<and> (\<exists>t js. s' = s\<lparr>e_tick := t, e_journal := js\<rparr>)"
proof
  show "\<forall>a. r = Inr a \<longrightarrow> verify_seal (ctx_crypto C) sealed (ctx_keyring C) = Inr ()
      \<and> (\<exists>rec \<in> U. ea_strongest_kind a = Some (er_kind rec))"
  proof (intro allI impI)
    fix a assume "r = Inr a"
    with assms(1) have seal: "verify_seal (ctx_crypto C) sealed (ctx_keyring C) = Inr ()" and a: "ea_acceptable a"
      "evaluate_evidence_quality render (ctx_crypto C) records policy (s_manifest_hash (sm_seal sealed)) digest
         (ctx_now C (e_tick s)) = Inr a"
      by (auto simp: engine_assert_evidence_quality_def evaluate_evidence_def bindE_Inr_iff thenE_Inr_iff liftR_ok ret_def fresh_def is_ok_unit raise_if_Inr_iff)
    show "verify_seal (ctx_crypto C) sealed (ctx_keyring C) = Inr () \<and> (\<exists>rec \<in> U. ea_strongest_kind a = Some (er_kind rec))"
      using evidence_accepted [OF a(2)] a(1) seal by (auto simp: U_def)
  qed
  show "\<exists>t js. s' = s\<lparr>e_tick := t, e_journal := js\<rparr>"
    by (rule bystanderD [OF keepsD [OF bystander.assert_evidence_keeps assms(1)]])
qed

section \<open>The list of witnesses in the journal\<close>

text \<open>The journal refuses metadata values above 1024 characters, and the evaluation records the accepted
  witnesses in one value: with enough long identifiers a quorum that is met cannot be evaluated.\<close>

lemma overlong_metadata_refused:
  assumes "(k, v) \<in> set (en_metadata en)" "1024 < length v"
  shows "\<exists>e. fst (audit C en s) = Inl e"
proof -
  have "\<exists>e. fst (journal_record cr am_ops t u f en js) = Inl e" for cr t u f js
  proof -
    have "\<not> (\<exists>e. build_event cr t u (am_last_event js) en = Inr e)"
      using assms by (auto simp: build_event_def Let_def event_validate_def result_simps)
    then show ?thesis
      by (cases "build_event cr t u (am_last_event js) en") (auto simp: journal_record_def am_ops_def am_append_def)
  qed
  then obtain e where "fst (journal_record (ctx_crypto C) am_ops (ctx_now C (e_tick s)) (ctx_uuid C (Suc (e_tick s)))
      (ctx_audit_fault C (Suc (Suc (e_tick s)))) en (e_journal s)) = Inl e" by blast
  then show ?thesis
    by (auto simp: audit_def bindE_def fresh_def split: prod.splits sum.splits)
qed

lemma long_witness_list_never_accepted:
  assumes "evaluate_witness_quorum render (ctx_crypto C) statements policy (s_manifest_hash (sm_seal sealed)) digest actor subject
      (ctx_keyring C) (ctx_now C (e_tick s)) = Inr q"
    and "1024 < length (join '','' (wq_accepted_witness_ids q))"
  shows "\<exists>e. fst (prove_with_witness_quorum C render sealed statements policy digest actor subject s) = Inl e"
proof (rule ccontr)
  assume "\<not> ?thesis"
  then obtain q' s' where "prove_with_witness_quorum C render sealed statements policy digest actor subject s = (Inr q', s')"
    by (metis prod.collapse sum.exhaust_sel)
  then obtain en s1 s2 where "audit C en s1 = (Inr (), s2)" "(''accepted_witness_ids'', join '','' (wq_accepted_witness_ids q)) \<in> set (en_metadata en)"
    using assms(1) by (auto simp: prove_with_witness_quorum_def evaluate_witnesses_def bindE_Inr_iff thenE_Inr_iff liftR_ok ret_def fresh_def entry_of_def)
  then show False
    using overlong_metadata_refused [of _ _ en C s1] assms(2) by (metis fst_conv sum.distinct(1))
qed

section \<open>Examples\<close>

lemma toy_hash_short: "length (canonical_hash (cr_sha256 toy_crypto) v) \<le> 1024"
  by (simp add: canonical_hash_def toy_crypto_def)

lemma toy_sealed_verifies: "verify_seal toy_crypto toy_sealed toy_keyring = Inr ()"
  using toy_gates [of mem_init] by (simp add: commit_gates_hold_def toy_context_def Let_def)

lemma toy_environment [simp]: "ctx_keyring toy_context = toy_keyring" "ctx_now toy_context n = 50"
  by (simp_all add: toy_context_def)

lemma recorded_twice:
  assumes "entry_fits en1" "entry_fits en2"
  obtains s1 s2 where "audit toy_context en1 (toy_engine\<lparr>e_tick := t\<rparr>) = (Inr (), s1)" "audit toy_context en2 s1 = (Inr (), s2)"
proof -
  have c: "calm toy_context" and j: "journal_numbered (e_journal (toy_engine\<lparr>e_tick := t\<rparr>))"
    by (simp_all add: journal_numbered_def)
  obtain s1 where s1: "audit toy_context en1 (toy_engine\<lparr>e_tick := t\<rparr>) = (Inr (), s1)" "aside (toy_engine\<lparr>e_tick := t\<rparr>) s1"
    by (rule audit_calm [OF c assms(1) j])
  then have "journal_numbered (e_journal s1)"
    using j by (simp add: aside_def)
  then show thesis
    using audit_calm [OF c assms(2)] s1(1) that by blast
qed

theorem witness_proof_sound_witness:
  "\<exists>q s'. prove_with_witness_quorum toy_context (\<lambda>_. []) toy_sealed
       [demo_witness (s_manifest_hash (sm_seal toy_sealed)) ''2'' ''carol'', demo_witness (s_manifest_hash (sm_seal toy_sealed)) ''1'' ''bob'']
       DEFAULT_WITNESS_POLICY ''d'' (toy_principal ''agent-1'' AGENT) (toy_principal ''agent-1'' AGENT) toy_engine = (Inr q, s')
     \<and> wq_accepted_witness_ids q = [''bob'', ''carol''] \<and> e_effects s' = []"
proof -
  let ?mh = "s_manifest_hash (sm_seal toy_sealed)"
  let ?ss = "[demo_witness ?mh ''2'' ''carol'', demo_witness ?mh ''1'' ''bob'']"
  let ?a = "toy_principal ''agent-1'' AGENT"
  have "int (length ?ss) \<le> wp_max_statements_considered DEFAULT_WITNESS_POLICY"
    by simp
  then obtain q where q: "evaluate_witness_quorum (\<lambda>_. []) toy_crypto ?ss DEFAULT_WITNESS_POLICY ?mh ''d'' ?a ?a toy_keyring 50 = Inr q"
    using evaluate_witness_total by meson
  have all: "{s \<in> set ?ss. witness_counts toy_crypto toy_keyring 50 ?mh ''d'' DEFAULT_WITNESS_POLICY ?a ?a s} = set ?ss"
    using demo_witness_counts by auto
  have who: "witness_id ` set ?ss = {''bob'', ''carol''}"
    by (simp add: insert_commute)
  have ids: "wq_accepted_witness_ids q = [''bob'', ''carol'']" "wq_satisfied q"
    using witness_accepted [OF q, unfolded all who] by simp_all
  have h: "length (wq_witness_policy_hash q) \<le> 1024" "\<And>h. wq_witness_set_hash q = Some h \<Longrightarrow> length h \<le> 1024"
    using q toy_hash_short by (auto simp: evaluate_witness_quorum_def Let_def result_simps witness_policy_hash_def split: if_splits)
  have n: "length (int_str 1) \<le> 1024" "length (int_str 2) \<le> 1024" "length (join '','' [''bob'', ''carol'']) \<le> 1024"
    by code_simp+
  obtain s1 s2 where s: "audit toy_context (entry_of ''witness.quorum_evaluated'' ''satisfied'' (Some ''m-1'') (Some ?mh) None (Some ''agent-1'')
      [(''accepted_count'', int_str 2), (''accepted_witness_ids'', join '','' [''bob'', ''carol'']),
       (''witness_set_hash'', case wq_witness_set_hash q of None \<Rightarrow> [] | Some h \<Rightarrow> h),
       (''witness_policy_hash'', wq_witness_policy_hash q), (''required_witnesses'', int_str 1)]) (toy_engine\<lparr>e_tick := 1\<rparr>) = (Inr (), s1)"
    "audit toy_context (entry_of ''witness.quorum_asserted'' ''satisfied'' (Some ''m-1'') (Some ?mh) None (Some ''agent-1'')
      [(''witness_set_hash'', case wq_witness_set_hash q of None \<Rightarrow> [] | Some h \<Rightarrow> h),
       (''witness_policy_hash'', wq_witness_policy_hash q)]) s1 = (Inr (), s2)"
    by (rule recorded_twice) (use h n in \<open>auto simp: entry_fits_def entry_of_def split: option.splits\<close>)
  have "principal_id ?a = ''agent-1''" by (simp add: toy_principal_def)
  then have run: "prove_with_witness_quorum toy_context (\<lambda>_. []) toy_sealed ?ss DEFAULT_WITNESS_POLICY ''d'' ?a ?a toy_engine = (Inr q, s2)"
    using q s ids toy_sealed_verifies
    by (simp add: prove_with_witness_quorum_def evaluate_witnesses_def thenE_def bindE_def liftR_def fresh_def raise_if_def ret_def
        toy_engine_def)
  then show ?thesis
    using witness_proof_sound [OF run] ids(1) by auto
qed

lemma evidence_hashes:
  assumes "evaluate_evidence_quality render cr records policy mh digest now = Inr a"
  shows "ea_evidence_policy_hash a = evidence_policy_hash cr policy"
    and "ea_evidence_set_hash a = Some h \<Longrightarrow> \<exists>v. h = canonical_hash (cr_sha256 cr) v"
proof -
  obtain rejected survivors where s: "sift (\<lambda>r. Inr (evidence_reject_reason now mh digest policy r)) records = Inr (rejected, survivors)"
    by (simp add: sift_eq [of _ "evidence_reject_reason now mh digest policy"])
  have "\<not> ep_max_records_considered policy < int (length records)"
    using assms by (auto simp: evaluate_evidence_quality_def Let_def)
  note ev = assms [unfolded evaluate_evidence_quality_def Let_def s bindR.simps prod.case if_not_P [OF this] sum.inject, symmetric]
  show "ea_evidence_policy_hash a = evidence_policy_hash cr policy"
    by (simp add: ev)
  show "ea_evidence_set_hash a = Some h \<Longrightarrow> \<exists>v. h = canonical_hash (cr_sha256 cr) v"
    by (auto simp: ev split: if_splits)
qed

theorem evidence_proof_sound_witness:
  "\<exists>a s'. engine_assert_evidence_quality toy_context (\<lambda>_. []) toy_sealed
       [demo_evidence (s_manifest_hash (sm_seal toy_sealed)) INDEPENDENT_LEDGER] DEFAULT_EVIDENCE_POLICY (Some ''d'') toy_engine = (Inr a, s')
     \<and> ea_strongest_kind a = Some INDEPENDENT_LEDGER \<and> e_effects s' = []"
proof -
  let ?mh = "s_manifest_hash (sm_seal toy_sealed)"
  let ?rs = "[demo_evidence ?mh INDEPENDENT_LEDGER]"
  have "int (length ?rs) \<le> ep_max_records_considered DEFAULT_EVIDENCE_POLICY"
    by simp
  then obtain a where a: "evaluate_evidence_quality (\<lambda>_. []) toy_crypto ?rs DEFAULT_EVIDENCE_POLICY ?mh (Some ''d'') 50 = Inr a"
    using evaluate_evidence_total by meson
  have u: "{r \<in> set ?rs. evidence_usable 50 ?mh (Some ''d'') DEFAULT_EVIDENCE_POLICY r} = {demo_evidence ?mh INDEPENDENT_LEDGER}"
    by (auto simp only: demo_evidence_usable list.set evidence_kind_rank.simps)
  have k: "er_kind (demo_evidence ?mh INDEPENDENT_LEDGER) = INDEPENDENT_LEDGER" "er_evidence_id (demo_evidence ?mh INDEPENDENT_LEDGER) = ''e''"
    by (simp_all add: demo_evidence_def)
  have e: "ea_acceptable a" "ea_strongest_kind a = Some INDEPENDENT_LEDGER"
      "set (ea_accepted_evidence_ids a) = {''e''}" "distinct (ea_accepted_evidence_ids a)"
    using evidence_accepted [OF a, unfolded u] k by simp_all
  then have l: "length (ea_accepted_evidence_ids a) = 1"
    using distinct_card [of "ea_accepted_evidence_ids a"] by simp
  have h: "length (ea_evidence_policy_hash a) \<le> 1024" "\<And>h. ea_evidence_set_hash a = Some h \<Longrightarrow> length h \<le> 1024"
    using evidence_hashes [OF a] toy_hash_short by (auto simp: evidence_policy_hash_def)
  have n: "length (int_str 1) \<le> 1024"
    by code_simp
  obtain s1 s2 where s: "audit toy_context (entry_of ''evidence.quality_evaluated'' ''acceptable'' (Some ''m-1'') (Some ?mh) None
      (Some (principal_id (m_actor toy_manifest)))
      [(''accepted_count'', int_str 1), (''evidence_set_hash'', case ea_evidence_set_hash a of None \<Rightarrow> [] | Some h \<Rightarrow> h),
       (''evidence_policy_hash'', ea_evidence_policy_hash a), (''strongest_kind'', ''independent_ledger''),
       (''min_kind'', ''adapter_reobserve'')]) (toy_engine\<lparr>e_tick := 1\<rparr>) = (Inr (), s1)"
    "audit toy_context (entry_of ''evidence.quality_asserted'' ''acceptable'' (Some ''m-1'') (Some ?mh) None
      (Some (principal_id (m_actor toy_manifest)))
      [(''evidence_set_hash'', case ea_evidence_set_hash a of None \<Rightarrow> [] | Some h \<Rightarrow> h),
       (''evidence_policy_hash'', ea_evidence_policy_hash a)]) s1 = (Inr (), s2)"
    by (rule recorded_twice) (use h n in \<open>auto simp: entry_fits_def entry_of_def split: option.splits\<close>)
  have run: "engine_assert_evidence_quality toy_context (\<lambda>_. []) toy_sealed ?rs DEFAULT_EVIDENCE_POLICY (Some ''d'') toy_engine = (Inr a, s2)"
    using a s e l toy_sealed_verifies
    by (simp add: engine_assert_evidence_quality_def evaluate_evidence_def thenE_def bindE_def liftR_def fresh_def raise_if_def ret_def
        toy_engine_def)
  then show ?thesis
    using evidence_proof_sound [OF run] e(2) by auto
qed

end
