(* ===== verification/GatewayStore.thy ===== *)
theory GatewayStore
  imports Tenant
begin

text \<open>
  The durable store of the gateway (\<^verbatim>\<open>gateway/models.py\<close>, \<^verbatim>\<open>gateway/migrations.py\<close>,
  \<^verbatim>\<open>gateway/store.py\<close>): organizations, users with their password hashes, the inventory of agents and
  adapters, and the versioned migrations that create its tables.

  A table is the list of its rows in the order of insertion.  The \<open>i\<close>-th SQL statement of a call fails
  when \<open>f i\<close> does; a write that fails is rolled back.  \<open>gateway_env\<close> holds the clock, the salt drawn
  and the key derivation of passwords, with salts and digests in hexadecimal.
\<close>

section \<open>Models\<close>

definition gw_nonempty :: "string \<Rightarrow> unit res" where
  "gw_nonempty v = raise_if (v = [] \<or> length v > 256) ValueError"

definition gw_email :: "string \<Rightarrow> unit res" where
  "gw_email v = raise_if (v = [] \<or> CHR ''@'' \<notin> set v \<or> length v > 320) ValueError"

datatype organization_status = OrgActive | OrgSuspended

record organization =
  go_org_id :: string
  go_name :: string
  go_status :: organization_status
  go_created_at :: time

definition organization_validate :: "organization \<Rightarrow> unit res" where
  "organization_validate g = allR [gw_nonempty (go_org_id g), gw_nonempty (go_name g)]"

definition org_is_active :: "organization \<Rightarrow> bool" where
  "org_is_active g \<longleftrightarrow> go_status g = OrgActive"

datatype gateway_user_role = Owner | Member

record gateway_user =
  gu_user_id :: string
  gu_org_id :: string
  gu_email :: string
  gu_display_name :: string
  gu_role :: gateway_user_role
  gu_created_at :: time

definition gateway_user_validate :: "gateway_user \<Rightarrow> unit res" where
  "gateway_user_validate u = allR
     [gw_nonempty (gu_user_id u), gw_nonempty (gu_org_id u), gw_email (gu_email u), gw_nonempty (gu_display_name u)]"

record gateway_agent =
  gag_agent_id :: string
  gag_org_id :: string
  gag_display_name :: string
  gag_created_at :: time

definition gateway_agent_validate :: "gateway_agent \<Rightarrow> unit res" where
  "gateway_agent_validate a = allR [gw_nonempty (gag_agent_id a), gw_nonempty (gag_org_id a), gw_nonempty (gag_display_name a)]"

record gateway_adapter =
  gad_adapter_id :: string
  gad_org_id :: string
  gad_adapter_version :: string
  gad_effect_types :: "string list"
  gad_created_at :: time

definition gateway_adapter_validate :: "gateway_adapter \<Rightarrow> unit res" where
  "gateway_adapter_validate a = (let v = gad_effect_types a in allR
     [gw_nonempty (gad_adapter_id a), gw_nonempty (gad_org_id a), gw_nonempty (gad_adapter_version a),
      raise_if (v = [] \<or> length v > 32 \<or> (\<exists>x \<in> set v. x = [] \<or> length x > 256)) ValueError,
      raise_if (\<not> distinct v) ValueError])"

section \<open>Migrations\<close>

text \<open>A migration creates one table.  \<^verbatim>\<open>sqlite3\<close> opens a transaction for a data statement only, so the
  \<^verbatim>\<open>CREATE TABLE\<close> of a migration takes effect at once and no rollback undoes it.\<close>

record migration =
  mg_id :: nat
  mg_name :: string
  mg_table :: string

definition MIGRATIONS :: "migration list" where
  "MIGRATIONS =
     [\<lparr>mg_id = 1, mg_name = ''create_organizations'', mg_table = ''organizations''\<rparr>,
      \<lparr>mg_id = 2, mg_name = ''create_gateway_users'', mg_table = ''gateway_users''\<rparr>,
      \<lparr>mg_id = 3, mg_name = ''create_gateway_agents'', mg_table = ''gateway_agents''\<rparr>,
      \<lparr>mg_id = 4, mg_name = ''create_gateway_adapters'', mg_table = ''gateway_adapters''\<rparr>,
      \<lparr>mg_id = 5, mg_name = ''create_gateway_refund_state'', mg_table = ''gateway_refund_state''\<rparr>]"

record schema =
  sc_tables :: "string list"
  sc_migrations :: "nat list"

definition sqlite_error :: exn where
  "sqlite_error = OtherError ''sqlite3.Error''"

text \<open>\<^verbatim>\<open>_ensure_migrations_table\<close>; its statement is idempotent.\<close>

definition ensure_migrations_table :: "bool \<Rightarrow> (schema, unit) sem" where
  "ensure_migrations_table fails = (\<lambda>s.
     if fails then (Inl sqlite_error, s)
     else (Inr (), if ''schema_migrations'' \<in> set (sc_tables s) then s
                   else s\<lparr>sc_tables := sc_tables s @ [''schema_migrations'']\<rparr>))"

definition applied_migration_ids :: "bool \<Rightarrow> bool \<Rightarrow> (schema, nat list) sem" where
  "applied_migration_ids fails_create fails_select =
     thenE (ensure_migrations_table fails_create)
       (if fails_select then raiseE sqlite_error else getS sc_migrations)"

text \<open>One migration: the creation of the table, and the record of it, which a commit makes durable.\<close>

definition apply_migration :: "bool \<Rightarrow> bool \<Rightarrow> migration \<Rightarrow> (schema, unit) sem" where
  "apply_migration fails_create fails_insert m = (\<lambda>s.
     if fails_create \<or> mg_table m \<in> set (sc_tables s) then (Inl (GatewayE GatewayMigrationError), s)
     else let t = s\<lparr>sc_tables := sc_tables s @ [mg_table m]\<rparr>
          in if fails_insert \<or> mg_id m \<in> set (sc_migrations s) then (Inl (GatewayE GatewayMigrationError), t)
             else (Inr (), t\<lparr>sc_migrations := sc_migrations t @ [mg_id m]\<rparr>))"

fun apply_pending :: "(nat \<Rightarrow> bool) \<Rightarrow> nat list \<Rightarrow> migration list \<Rightarrow> (schema, nat list) sem" where
  "apply_pending f already [] = ret []"
| "apply_pending f already (m # ms) =
     (if mg_id m \<in> set already then apply_pending f already ms
      else thenE (apply_migration (f (2 * mg_id m)) (f (2 * mg_id m + 1)) m)
        (bindE (apply_pending f already ms) (\<lambda>ids. ret (mg_id m # ids))))"

definition apply_migrations :: "bool \<Rightarrow> bool \<Rightarrow> bool \<Rightarrow> (nat \<Rightarrow> bool) \<Rightarrow> (schema, nat list) sem" where
  "apply_migrations e1 e2 e3 f =
     thenE (ensure_migrations_table e1)
     (bindE (applied_migration_ids e2 e3) (\<lambda>already. apply_pending f already (sort_key mg_id MIGRATIONS)))"

section \<open>The database\<close>

record user_row =
  ur_user :: gateway_user
  ur_password_hash :: string
  ur_password_salt :: string

record gateway_db =
  db_organizations :: "organization list"
  db_users :: "user_row list"
  db_agents :: "gateway_agent list"
  db_adapters :: "gateway_adapter list"

definition db_init :: gateway_db where
  "db_init = \<lparr>db_organizations = [], db_users = [], db_agents = [], db_adapters = []\<rparr>"

record gateway_env =
  ge_now :: time
  ge_salt :: string
  ge_pbkdf2 :: "string \<Rightarrow> string \<Rightarrow> string"

type_synonym 'a gw = "(gateway_db, 'a) sem"

definition hash_password :: "gateway_env \<Rightarrow> string \<Rightarrow> string \<Rightarrow> string" where
  "hash_password env password salt = ge_pbkdf2 env password salt"

text \<open>\<^verbatim>\<open>SELECT ... fetchone()\<close> and \<^verbatim>\<open>fetchall()\<close> inside a \<^verbatim>\<open>try\<close> for the errors of SQLite.\<close>

definition select_one :: "bool \<Rightarrow> (gateway_db \<Rightarrow> 'r list) \<Rightarrow> ('r \<Rightarrow> bool) \<Rightarrow> 'r option gw" where
  "select_one fails table p = (\<lambda>db. (if fails then Inl (StoreE StoreUnavailableError) else Inr (find p (table db)), db))"

definition select_all :: "bool \<Rightarrow> (gateway_db \<Rightarrow> 'r list) \<Rightarrow> ('r \<Rightarrow> bool) \<Rightarrow> ('r \<Rightarrow> string) \<Rightarrow> 'r list gw" where
  "select_all fails table p k = (\<lambda>db. (if fails then Inl (StoreE StoreUnavailableError) else Inr (sort_key k (filter p (table db))), db))"

text \<open>\<^verbatim>\<open>INSERT\<close> and \<^verbatim>\<open>commit\<close>: a row that clashes with one of the table is an integrity error.\<close>

definition insert_row :: "bool \<Rightarrow> (gateway_db \<Rightarrow> 'r list) \<Rightarrow> (('r list \<Rightarrow> 'r list) \<Rightarrow> gateway_db \<Rightarrow> gateway_db)
    \<Rightarrow> ('r \<Rightarrow> 'r \<Rightarrow> bool) \<Rightarrow> 'r \<Rightarrow> bool gw" where
  "insert_row fails table upd clash r = (\<lambda>db.
     if fails then (Inl (StoreE StoreUnavailableError), db)
     else if \<exists>x \<in> set (table db). clash r x then (Inr False, db)
     else (Inr True, upd (\<lambda>rows. rows @ [r]) db))"

section \<open>Organizations\<close>

definition create_organization :: "gateway_env \<Rightarrow> (nat \<Rightarrow> bool) \<Rightarrow> string \<Rightarrow> string \<Rightarrow> organization gw" where
  "create_organization env f i name =
     (let org = \<lparr>go_org_id = i, go_name = name, go_status = OrgActive, go_created_at = ge_now env\<rparr> in
      thenE (liftR (organization_validate org))
      (bindE (insert_row (f 0) db_organizations db_organizations_update (\<lambda>r x. go_org_id r = go_org_id x) org) (\<lambda>ok.
        if ok then ret org else raiseE (GatewayE OrganizationAlreadyExistsError))))"

definition get_organization :: "(nat \<Rightarrow> bool) \<Rightarrow> string \<Rightarrow> organization gw" where
  "get_organization f i = bindE (select_one (f 0) db_organizations (\<lambda>g. go_org_id g = i)) (\<lambda>row.
     case row of None \<Rightarrow> raiseE (GatewayE OrganizationNotFoundError) | Some g \<Rightarrow> ret g)"

definition list_organizations :: "(nat \<Rightarrow> bool) \<Rightarrow> organization list gw" where
  "list_organizations f = select_all (f 0) db_organizations (\<lambda>_. True) go_org_id"

definition set_organization_status :: "(nat \<Rightarrow> bool) \<Rightarrow> string \<Rightarrow> organization_status \<Rightarrow> organization gw" where
  "set_organization_status f i st =
     bindE (\<lambda>db. if f 0 then (Inl (StoreE StoreUnavailableError), db)
        else (Inr (\<exists>g \<in> set (db_organizations db). go_org_id g = i),
              db\<lparr>db_organizations := map (\<lambda>g. if go_org_id g = i then g\<lparr>go_status := st\<rparr> else g) (db_organizations db)\<rparr>)) (\<lambda>found.
     if found then get_organization (\<lambda>n. f (Suc n)) i else raiseE (GatewayE OrganizationNotFoundError))"

definition require_active_organization :: "(nat \<Rightarrow> bool) \<Rightarrow> string \<Rightarrow> organization gw" where
  "require_active_organization f i = bindE (get_organization f i) (\<lambda>g.
     if org_is_active g then ret g else raiseE (GatewayE OrganizationSuspendedError))"

section \<open>Users\<close>

definition create_user :: "gateway_env \<Rightarrow> (nat \<Rightarrow> bool) \<Rightarrow> string \<Rightarrow> string \<Rightarrow> string \<Rightarrow> string \<Rightarrow> string
    \<Rightarrow> gateway_user_role \<Rightarrow> gateway_user gw" where
  "create_user env f uid i email name password role =
     (let u = \<lparr>gu_user_id = uid, gu_org_id = i, gu_email = email, gu_display_name = name, gu_role = role,
               gu_created_at = ge_now env\<rparr> in
      thenE (require_active_organization f i)
      (thenE (liftR (gateway_user_validate u))
      (bindE (insert_row (f 1) db_users db_users_update
          (\<lambda>r x. gu_user_id (ur_user r) = gu_user_id (ur_user x)
             \<or> gu_org_id (ur_user r) = gu_org_id (ur_user x) \<and> gu_email (ur_user r) = gu_email (ur_user x))
          \<lparr>ur_user = u, ur_password_hash = hash_password env password (ge_salt env), ur_password_salt = ge_salt env\<rparr>) (\<lambda>ok.
        if ok then ret u else raiseE (GatewayE GatewayUserAlreadyExistsError)))))"

definition user_of_row :: "exn \<Rightarrow> user_row option \<Rightarrow> gateway_user gw" where
  "user_of_row missing row = (case row of None \<Rightarrow> raiseE missing | Some r \<Rightarrow> ret (ur_user r))"

definition get_user :: "(nat \<Rightarrow> bool) \<Rightarrow> string \<Rightarrow> string \<Rightarrow> gateway_user gw" where
  "get_user f i email =
     bindE (select_one (f 0) db_users (\<lambda>r. gu_org_id (ur_user r) = i \<and> gu_email (ur_user r) = email))
       (user_of_row (GatewayE GatewayUserNotFoundError))"

definition get_user_by_id :: "(nat \<Rightarrow> bool) \<Rightarrow> string \<Rightarrow> string \<Rightarrow> gateway_user gw" where
  "get_user_by_id f i uid =
     bindE (select_one (f 0) db_users (\<lambda>r. gu_org_id (ur_user r) = i \<and> gu_user_id (ur_user r) = uid))
       (user_of_row (GatewayE GatewayUserNotFoundError))"

definition list_users :: "(nat \<Rightarrow> bool) \<Rightarrow> string \<Rightarrow> gateway_user list gw" where
  "list_users f i = thenE (require_active_organization f i)
     (bindE (select_all (f 1) db_users (\<lambda>r. gu_org_id (ur_user r) = i) (\<lambda>r. gu_email (ur_user r))) (\<lambda>rows.
       ret (map ur_user rows)))"

text \<open>\<^verbatim>\<open>try: ... except E: raise x\<close>.\<close>

definition rename_error :: "(exn \<Rightarrow> bool) \<Rightarrow> exn \<Rightarrow> ('s, 'a) sem \<Rightarrow> ('s, 'a) sem" where
  "rename_error p x m = (\<lambda>s. case m s of (Inl e, s') \<Rightarrow> (Inl (if p e then x else e), s') | (Inr v, s') \<Rightarrow> (Inr v, s'))"

definition authenticate :: "gateway_env \<Rightarrow> (nat \<Rightarrow> bool) \<Rightarrow> string \<Rightarrow> string \<Rightarrow> string \<Rightarrow> gateway_user gw" where
  "authenticate env f i email password =
     bindE (rename_error (\<lambda>e. e = GatewayE OrganizationNotFoundError \<or> e = GatewayE OrganizationSuspendedError)
         (GatewayE GatewayAuthenticationError)
         (thenE (require_active_organization f i)
           (select_one (f 1) db_users (\<lambda>r. gu_org_id (ur_user r) = i \<and> gu_email (ur_user r) = email)))) (\<lambda>row.
     case row of
       None \<Rightarrow> raiseE (GatewayE GatewayAuthenticationError)
     | Some r \<Rightarrow>
         if hash_password env password (ur_password_salt r) \<noteq> ur_password_hash r
         then raiseE (GatewayE GatewayAuthenticationError) else ret (ur_user r))"

definition assert_user_belongs_to_organization :: "gateway_user \<Rightarrow> string \<Rightarrow> unit res" where
  "assert_user_belongs_to_organization u i = raise_if (gu_org_id u \<noteq> i) (GatewayE CrossOrganizationAccessError)"

section \<open>Agents and adapters\<close>

definition register_agent :: "gateway_env \<Rightarrow> (nat \<Rightarrow> bool) \<Rightarrow> string \<Rightarrow> string \<Rightarrow> string \<Rightarrow> gateway_agent gw" where
  "register_agent env f i aid name =
     (let a = \<lparr>gag_agent_id = aid, gag_org_id = i, gag_display_name = name, gag_created_at = ge_now env\<rparr> in
      thenE (require_active_organization f i)
      (thenE (liftR (gateway_agent_validate a))
      (bindE (insert_row (f 1) db_agents db_agents_update
          (\<lambda>r x. gag_org_id r = gag_org_id x \<and> gag_agent_id r = gag_agent_id x) a) (\<lambda>ok.
        if ok then ret a
        else if f 2 then raiseE sqlite_error
        else bindE (getS (\<lambda>db. find (\<lambda>x. gag_org_id x = i \<and> gag_agent_id x = aid) (db_agents db))) (\<lambda>row.
          case row of
            Some x \<Rightarrow> if gag_display_name x = name then ret x else raiseE (GatewayE GatewayAgentAlreadyExistsError)
          | None \<Rightarrow> raiseE (GatewayE GatewayAgentAlreadyExistsError))))))"

definition get_agent :: "(nat \<Rightarrow> bool) \<Rightarrow> string \<Rightarrow> string \<Rightarrow> gateway_agent gw" where
  "get_agent f i aid = thenE (require_active_organization f i)
     (bindE (select_one (f 1) db_agents (\<lambda>x. gag_org_id x = i \<and> gag_agent_id x = aid)) (\<lambda>row.
       case row of None \<Rightarrow> raiseE (GatewayE GatewayAgentNotFoundError) | Some x \<Rightarrow> ret x))"

definition list_agents :: "(nat \<Rightarrow> bool) \<Rightarrow> string \<Rightarrow> gateway_agent list gw" where
  "list_agents f i = thenE (require_active_organization f i)
     (select_all (f 1) db_agents (\<lambda>x. gag_org_id x = i) gag_agent_id)"

text \<open>The effect types are stored as JSON text, which is equal exactly when they are.\<close>

definition register_adapter :: "gateway_env \<Rightarrow> (nat \<Rightarrow> bool) \<Rightarrow> string \<Rightarrow> string \<Rightarrow> string \<Rightarrow> string list \<Rightarrow> gateway_adapter gw" where
  "register_adapter env f i aid version types =
     (let a = \<lparr>gad_adapter_id = aid, gad_org_id = i, gad_adapter_version = version, gad_effect_types = sort types,
               gad_created_at = ge_now env\<rparr> in
      thenE (require_active_organization f i)
      (thenE (liftR (gateway_adapter_validate a))
      (bindE (insert_row (f 1) db_adapters db_adapters_update
          (\<lambda>r x. gad_org_id r = gad_org_id x \<and> gad_adapter_id r = gad_adapter_id x) a) (\<lambda>ok.
        if ok then ret a
        else if f 2 then raiseE sqlite_error
        else bindE (getS (\<lambda>db. find (\<lambda>x. gad_org_id x = i \<and> gad_adapter_id x = aid) (db_adapters db))) (\<lambda>row.
          case row of
            Some x \<Rightarrow> if gad_adapter_version x = version \<and> gad_effect_types x = sort types then ret x
                      else raiseE (GatewayE GatewayAdapterAlreadyExistsError)
          | None \<Rightarrow> raiseE (GatewayE GatewayAdapterAlreadyExistsError))))))"

definition get_adapter :: "(nat \<Rightarrow> bool) \<Rightarrow> string \<Rightarrow> string \<Rightarrow> gateway_adapter gw" where
  "get_adapter f i aid = thenE (require_active_organization f i)
     (bindE (select_one (f 1) db_adapters (\<lambda>x. gad_org_id x = i \<and> gad_adapter_id x = aid)) (\<lambda>row.
       case row of None \<Rightarrow> raiseE (GatewayE GatewayAdapterNotFoundError) | Some x \<Rightarrow> ret x))"

definition list_adapters :: "(nat \<Rightarrow> bool) \<Rightarrow> string \<Rightarrow> gateway_adapter list gw" where
  "list_adapters f i = thenE (require_active_organization f i)
     (select_all (f 1) db_adapters (\<lambda>x. gad_org_id x = i) gad_adapter_id)"

section \<open>Facts about migrations\<close>

text \<open>The first \<open>k\<close> migrations are on record, and their tables exist; \<open>torn\<close> when the next table exists
  without a record.\<close>

definition migrated :: "nat \<Rightarrow> bool \<Rightarrow> schema \<Rightarrow> bool" where
  "migrated k torn s \<longleftrightarrow> k + (if torn then 1 else 0) \<le> length MIGRATIONS \<and> sc_migrations s = map mg_id (take k MIGRATIONS)
     \<and> set (sc_tables s) \<inter> set (map mg_table MIGRATIONS) = set (map mg_table (take (k + (if torn then 1 else 0)) MIGRATIONS))"

lemma MIGRATIONS_facts:
  "length MIGRATIONS = 5" "distinct (map mg_id MIGRATIONS)" "distinct (map mg_table MIGRATIONS)" "sort_key mg_id MIGRATIONS = MIGRATIONS"
  "''schema_migrations'' \<notin> set (map mg_table MIGRATIONS)" "mg_id m \<in> mg_id ` set (take k MIGRATIONS) \<Longrightarrow> m \<in> set MIGRATIONS \<Longrightarrow> m \<in> set (take k MIGRATIONS)"
proof -
  show "distinct (map mg_id MIGRATIONS)"
    by code_simp
  then have "inj_on mg_id (set MIGRATIONS)"
    by (simp add: distinct_map)
  then show "mg_id m \<in> mg_id ` set (take k MIGRATIONS) \<Longrightarrow> m \<in> set MIGRATIONS \<Longrightarrow> m \<in> set (take k MIGRATIONS)"
    by (metis imageE in_set_takeD inj_onD)
qed (code_simp | simp add: MIGRATIONS_def)+

lemma drop_Cons_nth: "drop k xs = y # ys \<Longrightarrow> k < length xs \<and> y = xs ! k \<and> ys = drop (Suc k) xs"
  by (metis Cons_nth_drop_Suc drop_eq_Nil linorder_not_le list.distinct(1) list.inject)

text \<open>One run from an untorn schema.\<close>

lemma apply_migration_migrated:
  assumes "migrated k False s" "k < length MIGRATIONS" and "apply_migration c i (MIGRATIONS ! k) s = (r, s')"
  shows "if c then r = Inl (GatewayE GatewayMigrationError) \<and> s' = s
     else if i then r = Inl (GatewayE GatewayMigrationError) \<and> migrated k True s'
     else r = Inr () \<and> migrated (Suc k) False s'"
proof -
  have t: "take (Suc k) MIGRATIONS = take k MIGRATIONS @ [MIGRATIONS ! k]"
    using assms(2) by (rule take_Suc_conv_app_nth)
  have d: "distinct (map mg_id (take (Suc k) MIGRATIONS))" "distinct (map mg_table (take (Suc k) MIGRATIONS))"
    using MIGRATIONS_facts(2,3) by (simp_all only: take_map [symmetric] distinct_take)
  have m: "MIGRATIONS ! k \<in> set MIGRATIONS"
    using assms(2) by simp
  have new: "mg_table (MIGRATIONS ! k) \<notin> set (sc_tables s)" "mg_id (MIGRATIONS ! k) \<notin> set (sc_migrations s)"
    using assms(1) d m by (auto simp: migrated_def t)
  then show ?thesis
    using assms m by (auto simp: apply_migration_def migrated_def Let_def t split: if_splits)
qed

lemma apply_pending_migrated:
  assumes "migrated k False s" "already = map mg_id (take j MIGRATIONS)" "j \<le> k" "k \<le> length MIGRATIONS"
    and "apply_pending f already (drop k MIGRATIONS) s = (r, s')"
  shows "\<exists>k' torn. migrated k' torn s' \<and> (case r of Inr ids \<Rightarrow> k' = length MIGRATIONS \<and> \<not> torn \<and> ids = map mg_id (drop k MIGRATIONS)
     | Inl e \<Rightarrow> e = GatewayE GatewayMigrationError \<and> (\<exists>n. f n))"
  using assms
proof (induction "length MIGRATIONS - k" arbitrary: k s r s')
  case 0
  then show ?case
    by (intro exI [of _ k] exI [of _ False]) (auto simp: ret_def)
next
  case (Suc n)
  then have k: "k < length MIGRATIONS" by simp
  then obtain m where d: "drop k MIGRATIONS = m # drop (Suc k) MIGRATIONS" "m = MIGRATIONS ! k"
    by (metis Cons_nth_drop_Suc)
  have "mg_id m \<notin> set already"
  proof
    assume "mg_id m \<in> set already"
    then have "m \<in> set (take j MIGRATIONS)"
      using MIGRATIONS_facts(6) [of m j] k Suc.prems(2) by (auto simp: d(2))
    then show False
      using Suc.prems(3) k MIGRATIONS_facts(2) d(2)
      by (metis distinct_map in_set_conv_nth length_take linorder_not_le min.strict_boundedE nth_eq_iff_index_eq nth_take order.strict_trans1 order_less_le)
  qed
  then have e: "thenE (apply_migration (f (2 * mg_id m)) (f (2 * mg_id m + 1)) m)
        (bindE (apply_pending f already (drop (Suc k) MIGRATIONS)) (\<lambda>ids. ret (mg_id m # ids))) s = (r, s')"
    using Suc.prems(5) by (simp add: d(1))
  obtain q t where a: "apply_migration (f (2 * mg_id m)) (f (2 * mg_id m + 1)) m s = (q, t)"
    by fastforce
  note cases = apply_migration_migrated [OF Suc.prems(1) k a [unfolded d(2)], folded d(2)]
  show ?case
  proof (cases q)
    case (Inl x)
    then show ?thesis
      using e a cases Suc.prems(1) by (auto simp: thenE_def bindE_def split: if_splits) blast+
  next
    case (Inr u)
    then have t: "migrated (Suc k) False t"
      using cases by (auto split: if_splits)
    obtain q' where p: "apply_pending f already (drop (Suc k) MIGRATIONS) t = (q', s')"
        "r = (case q' of Inl x \<Rightarrow> Inl x | Inr ids \<Rightarrow> Inr (mg_id m # ids))"
      using e a Inr by (auto simp: thenE_def bindE_def ret_def split: prod.splits sum.splits)
    show ?thesis
      using Suc.hyps(1) [OF _ t Suc.prems(2) _ _ p(1)] Suc.hyps(2) Suc.prems(3) k
      by (auto simp: p(2) d(1) split: sum.splits)
  qed
qed

text \<open>A torn schema refuses every further run.\<close>

lemma apply_pending_torn:
  assumes "migrated k True s"
  shows "apply_pending f (map mg_id (take k MIGRATIONS)) (drop k MIGRATIONS) s = (Inl (GatewayE GatewayMigrationError), s)"
proof -
  have k: "k < length MIGRATIONS"
    using assms by (simp add: migrated_def)
  then obtain m where d: "drop k MIGRATIONS = m # drop (Suc k) MIGRATIONS" "m = MIGRATIONS ! k"
    by (metis Cons_nth_drop_Suc)
  have t: "take (Suc k) MIGRATIONS = take k MIGRATIONS @ [m]"
    using k by (simp add: take_Suc_conv_app_nth d(2))
  have "distinct (map mg_id (take (Suc k) MIGRATIONS))"
    using MIGRATIONS_facts(2) by (simp only: take_map [symmetric] distinct_take)
  then have "mg_id m \<notin> set (map mg_id (take k MIGRATIONS))"
    by (simp add: t)
  moreover have "mg_table m \<in> set (sc_tables s)"
    using assms by (auto simp: migrated_def t)
  ultimately show ?thesis
    by (simp add: d(1) apply_migration_def thenE_def bindE_def)
qed

lemma apply_pending_skip: "set (map mg_id ms) \<subseteq> set already \<Longrightarrow> apply_pending f already (ms @ ns) = apply_pending f already ns"
  by (induction ms) auto

lemma ensure_migrated: "migrated k torn s \<Longrightarrow> ensure_migrations_table e s = (r, s') \<Longrightarrow> migrated k torn s'"
  using MIGRATIONS_facts(5) by (clarsimp simp: ensure_migrations_table_def migrated_def Int_insert_left split: if_splits)

lemma apply_migrations_run:
  assumes "migrated k torn s" "apply_migrations e1 e2 e3 f s = (r, s')"
  shows "\<exists>k' torn'. migrated k' torn' s' \<and> (torn \<longrightarrow> torn' \<and> k' = k)
    \<and> (\<not> e1 \<and> \<not> e2 \<and> \<not> e3 \<longrightarrow> (if torn then r = Inl (GatewayE GatewayMigrationError)
         else (\<forall>n. \<not> f n) \<longrightarrow> r = Inr (map mg_id (drop k MIGRATIONS)) \<and> k' = length MIGRATIONS \<and> \<not> torn'))"
proof -
  obtain q1 s1 where m1: "ensure_migrations_table e1 s = (q1, s1)" by fastforce
  obtain q2 s2 where m2: "ensure_migrations_table e2 s1 = (q2, s2)" by fastforce
  have i1: "migrated k torn s1" using ensure_migrated [OF assms(1) m1] .
  have i2: "migrated k torn s2" using ensure_migrated [OF i1 m2] .
  have k: "k \<le> length MIGRATIONS" "sc_migrations s2 = map mg_id (take k MIGRATIONS)"
    using i2 by (auto simp: migrated_def)
  show ?thesis
  proof (cases "e1 \<or> e2 \<or> e3")
    case True
    then have "s' = s \<or> s' = s1 \<or> s' = s2"
      using assms(2) m1 m2
      by (auto simp: apply_migrations_def applied_migration_ids_def thenE_def bindE_def raiseE_def ensure_migrations_table_def split: if_splits)
    with True assms(1) i1 i2 show ?thesis by blast
  next
    case False
    then have q: "q1 = Inr ()" "q2 = Inr ()"
      using m1 m2 by (auto simp: ensure_migrations_table_def)
    have skip: "apply_pending f (map mg_id (take k MIGRATIONS)) MIGRATIONS = apply_pending f (map mg_id (take k MIGRATIONS)) (drop k MIGRATIONS)"
      by (subst append_take_drop_id [of k MIGRATIONS, symmetric], subst apply_pending_skip) simp_all
    have p: "apply_pending f (map mg_id (take k MIGRATIONS)) (drop k MIGRATIONS) s2 = (r, s')"
      using assms(2) False
      by (simp add: apply_migrations_def applied_migration_ids_def thenE_def bindE_def getS_def m1 m2 q k(2) MIGRATIONS_facts(4) skip)
    show ?thesis
    proof (cases torn)
      case True
      then show ?thesis
        using apply_pending_torn [of k s2 f] i2 p by auto
    next
      case False
      then show ?thesis
        using apply_pending_migrated [OF _ refl order_refl k(1) p] i2 by (cases r) fastforce+
    qed
  qed
qed

definition schema_after :: "(bool \<times> bool \<times> bool \<times> (nat \<Rightarrow> bool)) list \<Rightarrow> schema" where
  "schema_after runs = foldl (\<lambda>s (e1, e2, e3, f). snd (apply_migrations e1 e2 e3 f s)) \<lparr>sc_tables = [], sc_migrations = []\<rparr> runs"

lemma schema_after_migrated: "\<exists>k torn. migrated k torn (schema_after runs)"
proof (induction runs rule: rev_induct)
  case Nil
  have "migrated 0 False (schema_after [])"
    by (simp add: migrated_def schema_after_def)
  then show ?case by blast
next
  case (snoc x xs)
  obtain e1 e2 e3 f where x: "x = (e1, e2, e3, f)"
    using prod_cases4 by blast
  obtain k torn where "migrated k torn (schema_after xs)"
    using snoc.IH by blast
  then obtain k' torn' where "migrated k' torn' (snd (apply_migrations e1 e2 e3 f (schema_after xs)))"
    using apply_migrations_run [of k torn "schema_after xs" e1 e2 e3 f] by (metis prod.collapse)
  then show ?case
    by (auto simp: schema_after_def x)
qed

text \<open>C34. The migrations of the gateway apply in order and once: whatever fails in whatever runs, the record
  holds a prefix of them, each once, and their tables exist.  A run without failures then completes the
  rest and reports exactly it, unless an earlier run failed between the creation of a table and its record:
  then this run and every later one is refused.\<close>

theorem migrations_in_order_once:
  "\<exists>k torn. migrated k torn (schema_after runs)
     \<and> (if torn then \<forall>more. fst (apply_migrations False False False (\<lambda>_. False) (schema_after (runs @ more))) = Inl (GatewayE GatewayMigrationError)
        else fst (apply_migrations False False False (\<lambda>_. False) (schema_after runs)) = Inr (map mg_id (drop k MIGRATIONS))
          \<and> migrated (length MIGRATIONS) False (snd (apply_migrations False False False (\<lambda>_. False) (schema_after runs))))"
proof -
  obtain k torn where m: "migrated k torn (schema_after runs)"
    using schema_after_migrated by blast
  have stays: "migrated k True (schema_after (runs @ more))" if "torn" for more
  proof (induction more rule: rev_induct)
    case Nil
    then show ?case using m that by simp
  next
    case (snoc x xs)
    obtain e1 e2 e3 f where x: "x = (e1, e2, e3, f)"
      using prod_cases4 by blast
    have "schema_after (runs @ xs @ [x]) = snd (apply_migrations e1 e2 e3 f (schema_after (runs @ xs)))"
      by (simp add: schema_after_def x)
    then show ?case
      using apply_migrations_run [OF snoc.IH, of e1 e2 e3 f] by (metis append.assoc prod.collapse)
  qed
  have run: "fst (apply_migrations False False False (\<lambda>_. False) t) = Inl (GatewayE GatewayMigrationError)" if "migrated k True t" for t
    using apply_migrations_run [OF that, of False False False "\<lambda>_. False"] by (metis prod.collapse)
  show ?thesis
    using m stays run apply_migrations_run [OF m, of False False False "\<lambda>_. False"]
    by (intro exI [of _ k] exI [of _ torn]) (auto simp: prod_eq_iff split: if_splits)
qed

section \<open>Facts about the store\<close>

definition active_org :: "gateway_db \<Rightarrow> string \<Rightarrow> bool" where
  "active_org db i \<longleftrightarrow> (\<exists>g. find (\<lambda>g. go_org_id g = i) (db_organizations db) = Some g \<and> go_status g = OrgActive)"

lemma require_active_Inr [monad_simps]:
  "require_active_organization f i db = (Inr g, db') \<longleftrightarrow>
     db' = db \<and> \<not> f 0 \<and> find (\<lambda>g. go_org_id g = i) (db_organizations db) = Some g \<and> go_status g = OrgActive"
  by (auto simp: require_active_organization_def get_organization_def select_one_def bindE_def ret_def raiseE_def org_is_active_def
      split: option.splits)

lemma require_active_Inl:
  "require_active_organization f i db = (Inl e, db') \<Longrightarrow>
     db' = db \<and> (if f 0 then e = StoreE StoreUnavailableError
       else \<not> active_org db i \<and> (e = GatewayE OrganizationNotFoundError \<or> e = GatewayE OrganizationSuspendedError))"
  by (auto simp: require_active_organization_def get_organization_def select_one_def bindE_def ret_def raiseE_def org_is_active_def
      active_org_def split: option.splits if_splits)

lemma insert_row_outcome:
  "insert_row fails table upd clash r db = (q, db') \<Longrightarrow>
     db' = db \<or> db' = upd (\<lambda>rows. rows @ [r]) db \<and> (\<forall>x \<in> set (table db). \<not> clash r x)"
  by (auto simp: insert_row_def split: if_splits)

text \<open>A well-formed database: the keys of each table are unique, every row passed the validation of its
  model, and every row belongs to an organization.\<close>

definition db_wf :: "gateway_db \<Rightarrow> bool" where
  "db_wf db \<longleftrightarrow>
     distinct (map go_org_id (db_organizations db)) \<and> (\<forall>g \<in> set (db_organizations db). is_ok (organization_validate g))
     \<and> distinct (map (gu_user_id \<circ> ur_user) (db_users db))
     \<and> distinct (map (\<lambda>r. (gu_org_id (ur_user r), gu_email (ur_user r))) (db_users db))
     \<and> (\<forall>r \<in> set (db_users db). is_ok (gateway_user_validate (ur_user r)) \<and> gu_org_id (ur_user r) \<in> go_org_id ` set (db_organizations db))
     \<and> distinct (map (\<lambda>a. (gag_org_id a, gag_agent_id a)) (db_agents db))
     \<and> (\<forall>a \<in> set (db_agents db). is_ok (gateway_agent_validate a) \<and> gag_org_id a \<in> go_org_id ` set (db_organizations db))
     \<and> distinct (map (\<lambda>a. (gad_org_id a, gad_adapter_id a)) (db_adapters db))
     \<and> (\<forall>a \<in> set (db_adapters db). is_ok (gateway_adapter_validate a) \<and> gad_org_id a \<in> go_org_id ` set (db_organizations db))"

text \<open>Any call that writes.\<close>

datatype store_request =
    CreateOrganization string string
  | SetOrganizationStatus string organization_status
  | CreateUser string string string string string gateway_user_role
  | RegisterAgent string string string
  | RegisterAdapter string string string "string list"

primrec store_call :: "gateway_env \<Rightarrow> (nat \<Rightarrow> bool) \<Rightarrow> store_request \<Rightarrow> gateway_db \<Rightarrow> gateway_db" where
  "store_call env f (CreateOrganization i name) db = snd (create_organization env f i name db)"
| "store_call env f (SetOrganizationStatus i st) db = snd (set_organization_status f i st db)"
| "store_call env f (CreateUser uid i email name pw role) db = snd (create_user env f uid i email name pw role db)"
| "store_call env f (RegisterAgent i aid name) db = snd (register_agent env f i aid name db)"
| "store_call env f (RegisterAdapter i aid v ts) db = snd (register_adapter env f i aid v ts db)"

definition store_after :: "(gateway_env \<times> (nat \<Rightarrow> bool) \<times> store_request) list \<Rightarrow> gateway_db" where
  "store_after calls = foldl (\<lambda>db (env, f, c). store_call env f c db) db_init calls"

text \<open>What a call may have done.\<close>

lemma store_call_cases:
  assumes "store_call env f c db = db'"
  obtains (same) "db' = db"
  | (org) g where "c = CreateOrganization (go_org_id g) (go_name g)" "db' = db\<lparr>db_organizations := db_organizations db @ [g]\<rparr>"
      "is_ok (organization_validate g)" "go_org_id g \<notin> go_org_id ` set (db_organizations db)" "go_status g = OrgActive"
  | (status) i st where "c = SetOrganizationStatus i st"
      "db' = db\<lparr>db_organizations := map (\<lambda>g. if go_org_id g = i then g\<lparr>go_status := st\<rparr> else g) (db_organizations db)\<rparr>"
  | (user) r pw where "c = CreateUser (gu_user_id (ur_user r)) (gu_org_id (ur_user r)) (gu_email (ur_user r)) (gu_display_name (ur_user r)) pw (gu_role (ur_user r))"
      "db' = db\<lparr>db_users := db_users db @ [r]\<rparr>" "active_org db (gu_org_id (ur_user r))" "is_ok (gateway_user_validate (ur_user r))"
      "gu_user_id (ur_user r) \<notin> (gu_user_id \<circ> ur_user) ` set (db_users db)"
      "(gu_org_id (ur_user r), gu_email (ur_user r)) \<notin> (\<lambda>r. (gu_org_id (ur_user r), gu_email (ur_user r))) ` set (db_users db)"
      "ur_password_hash r = hash_password env pw (ur_password_salt r)"
  | (agent) a where "c = RegisterAgent (gag_org_id a) (gag_agent_id a) (gag_display_name a)" "db' = db\<lparr>db_agents := db_agents db @ [a]\<rparr>"
      "active_org db (gag_org_id a)" "is_ok (gateway_agent_validate a)"
      "(gag_org_id a, gag_agent_id a) \<notin> (\<lambda>a. (gag_org_id a, gag_agent_id a)) ` set (db_agents db)"
  | (adapter) a ts where "c = RegisterAdapter (gad_org_id a) (gad_adapter_id a) (gad_adapter_version a) ts" "gad_effect_types a = sort ts"
      "db' = db\<lparr>db_adapters := db_adapters db @ [a]\<rparr>" "active_org db (gad_org_id a)" "is_ok (gateway_adapter_validate a)"
      "(gad_org_id a, gad_adapter_id a) \<notin> (\<lambda>a. (gad_org_id a, gad_adapter_id a)) ` set (db_adapters db)"
proof (cases c)
  case (CreateOrganization i name)
  let ?g = "\<lparr>go_org_id = i, go_name = name, go_status = OrgActive, go_created_at = ge_now env\<rparr>"
  obtain q d where m: "insert_row (f 0) db_organizations db_organizations_update (\<lambda>r x. go_org_id r = go_org_id x) ?g db = (q, d)"
    by fastforce
  have "db' = db \<or> is_ok (organization_validate ?g) \<and> db' = d"
    using assms CreateOrganization m
    by (cases "organization_validate ?g")
      (auto simp: create_organization_def Let_def thenE_def bindE_def liftR_def ret_def raiseE_def split: sum.splits)
  then consider "db' = db" | "db' \<noteq> db" "db' = d" "is_ok (organization_validate ?g)"
    by auto
  then show ?thesis
  proof cases
    case 2
    with insert_row_outcome [OF m] CreateOrganization show ?thesis
      by (intro org [of ?g]) auto
  qed (rule same)
next
  case (SetOrganizationStatus i st)
  show ?thesis
  proof (cases "f 0")
    case True
    then show ?thesis
      using assms SetOrganizationStatus same by (simp add: set_organization_status_def bindE_def)
  next
    case False
    then show ?thesis
      using assms SetOrganizationStatus
      by (intro status [of i st]) (auto simp: set_organization_status_def bindE_def get_organization_def select_one_def raiseE_def ret_def split: option.splits)
  qed
next
  case (CreateUser uid i email name pw role)
  let ?u = "\<lparr>gu_user_id = uid, gu_org_id = i, gu_email = email, gu_display_name = name, gu_role = role, gu_created_at = ge_now env\<rparr>"
  let ?r = "\<lparr>ur_user = ?u, ur_password_hash = hash_password env pw (ge_salt env), ur_password_salt = ge_salt env\<rparr>"
  obtain p d0 where a: "require_active_organization f i db = (p, d0)" by fastforce
  obtain q d where m: "insert_row (f 1) db_users db_users_update
          (\<lambda>r x. gu_user_id (ur_user r) = gu_user_id (ur_user x)
             \<or> gu_org_id (ur_user r) = gu_org_id (ur_user x) \<and> gu_email (ur_user r) = gu_email (ur_user x)) ?r db = (q, d)"
    by fastforce
  have d0: "d0 = db \<and> (is_ok p \<longrightarrow> active_org db i)"
    using a require_active_Inl [of f i db] by (cases p) (auto simp: monad_simps active_org_def)
  have "db' = db \<or> is_ok p \<and> is_ok (gateway_user_validate ?u) \<and> db' = d"
    using assms CreateUser m a d0
    by (cases p; cases "gateway_user_validate ?u")
      (auto simp: create_user_def Let_def thenE_def bindE_def liftR_def ret_def raiseE_def split: sum.splits)
  then consider "db' = db" | "db' \<noteq> db" "db' = d" "is_ok p" "is_ok (gateway_user_validate ?u)"
    by auto
  then show ?thesis
  proof cases
    case 2
    with insert_row_outcome [OF m] CreateUser d0 show ?thesis
      by (intro user [of ?r pw]) auto
  qed (rule same)
next
  case (RegisterAgent i aid name)
  let ?a = "\<lparr>gag_agent_id = aid, gag_org_id = i, gag_display_name = name, gag_created_at = ge_now env\<rparr>"
  obtain p d0 where a: "require_active_organization f i db = (p, d0)" by fastforce
  obtain q d where m: "insert_row (f 1) db_agents db_agents_update
          (\<lambda>r x. gag_org_id r = gag_org_id x \<and> gag_agent_id r = gag_agent_id x) ?a db = (q, d)"
    by fastforce
  have d0: "d0 = db \<and> (is_ok p \<longrightarrow> active_org db i)"
    using a require_active_Inl [of f i db] by (cases p) (auto simp: monad_simps active_org_def)
  have "db' = db \<or> is_ok p \<and> is_ok (gateway_agent_validate ?a) \<and> db' = d"
    using assms RegisterAgent m a d0
    by (cases p; cases "gateway_agent_validate ?a")
      (auto simp: register_agent_def Let_def thenE_def bindE_def liftR_def ret_def raiseE_def getS_def split: sum.splits option.splits if_splits)
  then consider "db' = db" | "db' \<noteq> db" "db' = d" "is_ok p" "is_ok (gateway_agent_validate ?a)"
    by auto
  then show ?thesis
  proof cases
    case 2
    with insert_row_outcome [OF m] RegisterAgent d0 show ?thesis
      by (intro agent [of ?a]) auto
  qed (rule same)
next
  case (RegisterAdapter i aid v ts)
  let ?a = "\<lparr>gad_adapter_id = aid, gad_org_id = i, gad_adapter_version = v, gad_effect_types = sort ts, gad_created_at = ge_now env\<rparr>"
  obtain p d0 where a: "require_active_organization f i db = (p, d0)" by fastforce
  obtain q d where m: "insert_row (f 1) db_adapters db_adapters_update
          (\<lambda>r x. gad_org_id r = gad_org_id x \<and> gad_adapter_id r = gad_adapter_id x) ?a db = (q, d)"
    by fastforce
  have d0: "d0 = db \<and> (is_ok p \<longrightarrow> active_org db i)"
    using a require_active_Inl [of f i db] by (cases p) (auto simp: monad_simps active_org_def)
  have "db' = db \<or> is_ok p \<and> is_ok (gateway_adapter_validate ?a) \<and> db' = d"
    using assms RegisterAdapter m a d0
    by (cases p; cases "gateway_adapter_validate ?a")
      (auto simp: register_adapter_def Let_def thenE_def bindE_def liftR_def ret_def raiseE_def getS_def split: sum.splits option.splits if_splits)
  then consider "db' = db" | "db' \<noteq> db" "db' = d" "is_ok p" "is_ok (gateway_adapter_validate ?a)"
    by auto
  then show ?thesis
  proof cases
    case 2
    with insert_row_outcome [OF m] RegisterAdapter d0 show ?thesis
      by (intro adapter [of ?a ts]) auto
  qed (rule same)
qed

lemma active_org_known: "active_org db i \<Longrightarrow> i \<in> go_org_id ` set (db_organizations db)"
  by (auto simp: active_org_def find_Some_iff)

lemma status_map:
  assumes "gs' = map (\<lambda>g. if go_org_id g = i then g\<lparr>go_status := st\<rparr> else g) gs"
  shows "map go_org_id gs' = map go_org_id gs" "go_org_id ` set gs' = go_org_id ` set gs"
    "(\<forall>g \<in> set gs. is_ok (organization_validate g)) \<Longrightarrow> \<forall>g \<in> set gs'. is_ok (organization_validate g)"
proof -
  show m: "map go_org_id gs' = map go_org_id gs"
    by (simp add: assms)
  show "go_org_id ` set gs' = go_org_id ` set gs"
    using arg_cong [OF m, of set] by simp
  show "(\<forall>g \<in> set gs. is_ok (organization_validate g)) \<Longrightarrow> \<forall>g \<in> set gs'. is_ok (organization_validate g)"
    by (auto simp: assms organization_validate_def)
qed

lemma store_call_wf: "db_wf db \<Longrightarrow> db_wf (store_call env f c db)"
proof (rule store_call_cases [OF refl, of env f c db], goal_cases)
  case 1
  then show ?case by simp
next
  case (3 i st)
  define gs where "gs = map (\<lambda>g. if go_org_id g = i then g\<lparr>go_status := st\<rparr> else g) (db_organizations db)"
  have "store_call env f c db = db\<lparr>db_organizations := gs\<rparr>"
    using 3 by (simp add: gs_def)
  with 3(1) status_map [OF gs_def] show ?case
    by (simp add: db_wf_def)
qed (auto simp: db_wf_def active_org_known)

lemma foldl_invariant: "P s \<Longrightarrow> (\<And>s x. P s \<Longrightarrow> P (f s x)) \<Longrightarrow> P (foldl f s xs)"
  by (induction xs arbitrary: s) simp_all

lemma store_after_wf: "db_wf (store_after calls)"
  unfolding store_after_def
  by (rule foldl_invariant) (auto simp: store_call_wf db_init_def db_wf_def [of "\<lparr>db_organizations = [], db_users = [], db_agents = [], db_adapters = []\<rparr>"])


text \<open>The organization a request is about.\<close>

primrec request_org :: "store_request \<Rightarrow> string" where
  "request_org (CreateOrganization i name) = i"
| "request_org (SetOrganizationStatus i st) = i"
| "request_org (CreateUser uid i email name pw role) = i"
| "request_org (RegisterAgent i aid name) = i"
| "request_org (RegisterAdapter i aid v ts) = i"

text \<open>What the database says of one organization.\<close>

definition org_view :: "gateway_db \<Rightarrow> string \<Rightarrow> organization option \<times> user_row list \<times> gateway_agent list \<times> gateway_adapter list" where
  "org_view db i = (find (\<lambda>g. go_org_id g = i) (db_organizations db), filter (\<lambda>r. gu_org_id (ur_user r) = i) (db_users db),
     filter (\<lambda>a. gag_org_id a = i) (db_agents db), filter (\<lambda>a. gad_org_id a = i) (db_adapters db))"

lemma find_append_other: "\<not> p x \<Longrightarrow> find p (xs @ [x]) = find p xs"
  by (induction xs) auto

lemma find_map_other: "j \<noteq> i \<Longrightarrow> find (\<lambda>g. go_org_id g = j) (map (\<lambda>g. if go_org_id g = i then g\<lparr>go_status := st\<rparr> else g) gs)
    = find (\<lambda>g. go_org_id g = j) gs"
  by (induction gs) auto

lemma store_call_other_org: "request_org c \<noteq> j \<Longrightarrow> org_view (store_call env f c db) j = org_view db j"
  by (rule store_call_cases [OF refl, of env f c db]) (auto simp: org_view_def find_append_other find_map_other)

text \<open>C32. Organizations are isolated in the store: no call made for one organization changes what the
  database says of another, its status, users, password hashes, agents and adapters.\<close>

theorem store_isolates_organizations:
  assumes "\<forall>(env, f, c) \<in> set calls. request_org c \<noteq> j"
  shows "org_view (foldl (\<lambda>db (env, f, c). store_call env f c db) db calls) j = org_view db j"
  using assms by (induction calls arbitrary: db) (auto simp: store_call_other_org)

definition demo_env :: gateway_env where
  "demo_env = \<lparr>ge_now = 0, ge_salt = ''00'', ge_pbkdf2 = (\<lambda>pw salt. salt @ pw)\<rparr>"

theorem store_isolates_organizations_witness:
  "org_view (store_after
      [(demo_env, \<lambda>_. False, CreateOrganization ''acme'' ''Acme''), (demo_env, \<lambda>_. False, SetOrganizationStatus ''acme'' OrgSuspended)]) ''beta''
     = (None, [], [], [])"
  unfolding store_after_def by (subst store_isolates_organizations) (simp_all add: org_view_def db_init_def)

text \<open>User identifiers are not scoped to an organization: one that an organization has taken is refused to
  every other, as if its own user existed.\<close>

lemma user_id_taken_elsewhere:
  assumes "r \<in> set (db_users db)" "gu_user_id (ur_user r) = uid" "active_org db i" "\<not> f 0" "\<not> f 1"
    and "is_ok (gateway_user_validate \<lparr>gu_user_id = uid, gu_org_id = i, gu_email = email, gu_display_name = name, gu_role = role, gu_created_at = ge_now env\<rparr>)"
  shows "create_user env f uid i email name pw role db = (Inl (GatewayE GatewayUserAlreadyExistsError), db)"
proof -
  obtain g where g: "require_active_organization f i db = (Inr g, db)"
    using assms(3,4) by (auto simp: active_org_def require_active_Inr)
  show ?thesis
    using assms(1,2,5,6)
    by (auto simp: create_user_def Let_def thenE_def bindE_def g liftR_def insert_row_def raiseE_def is_ok_unit split: sum.splits)
qed

section \<open>Authentication\<close>

lemma db_wf_user_unique:
  "db_wf db \<Longrightarrow> r \<in> set (db_users db) \<Longrightarrow> r' \<in> set (db_users db) \<Longrightarrow> gu_org_id (ur_user r) = gu_org_id (ur_user r')
     \<Longrightarrow> gu_email (ur_user r) = gu_email (ur_user r') \<Longrightarrow> r = r'"
  by (auto simp: db_wf_def distinct_map inj_on_def)

lemma authenticate_result:
  "authenticate env f i email pw db =
     (if f 0 then Inl (StoreE StoreUnavailableError)
      else if \<not> active_org db i then Inl (GatewayE GatewayAuthenticationError)
      else if f 1 then Inl (StoreE StoreUnavailableError)
      else case find (\<lambda>r. gu_org_id (ur_user r) = i \<and> gu_email (ur_user r) = email) (db_users db) of
          None \<Rightarrow> Inl (GatewayE GatewayAuthenticationError)
        | Some r \<Rightarrow> if hash_password env pw (ur_password_salt r) = ur_password_hash r then Inr (ur_user r)
                    else Inl (GatewayE GatewayAuthenticationError), db)"
proof -
  obtain q d where a: "require_active_organization f i db = (q, d)" by fastforce
  show ?thesis
  proof (cases q)
    case (Inl e)
    then show ?thesis
      using require_active_Inl [of f i db e d] a
      by (auto simp: authenticate_def thenE_def bindE_def rename_error_def split: if_splits)
  next
    case (Inr g)
    with a have "d = db" "\<not> f 0" "active_org db i"
      by (auto simp: require_active_Inr active_org_def)
    then show ?thesis
      using a Inr by (simp add: authenticate_def thenE_def bindE_def rename_error_def select_one_def raiseE_def ret_def split: option.split)
  qed
qed

text \<open>C33. A password authenticates exactly the user on record: in any database the store can reach, the answer
  is a user exactly when the organization is active and holds that user under the email with a hash that
  the password reproduces.  Every other answer is one and the same error, so it does not tell an
  unknown organization or email from a wrong password; only a failure of the database is told apart.\<close>

theorem authentication_exact:
  "snd (authenticate env f i email pw (store_after calls)) = store_after calls
   \<and> (fst (authenticate env f i email pw (store_after calls)) = Inr u \<longleftrightarrow>
        \<not> f 0 \<and> \<not> f 1 \<and> active_org (store_after calls) i
        \<and> (\<exists>r \<in> set (db_users (store_after calls)). ur_user r = u \<and> gu_org_id u = i \<and> gu_email u = email
             \<and> hash_password env pw (ur_password_salt r) = ur_password_hash r))
   \<and> (case fst (authenticate env f i email pw (store_after calls)) of Inr _ \<Rightarrow> True
      | Inl e \<Rightarrow> e = GatewayE GatewayAuthenticationError \<or> (f 0 \<or> f 1) \<and> e = StoreE StoreUnavailableError)"
proof -
  define db where "db = store_after calls"
  let ?p = "\<lambda>r. gu_org_id (ur_user r) = i \<and> gu_email (ur_user r) = email"
  have found: "find ?p (db_users db) = Some r \<longleftrightarrow> r \<in> set (db_users db) \<and> ?p r" for r
  proof
    assume "find ?p (db_users db) = Some r"
    then show "r \<in> set (db_users db) \<and> ?p r"
      by (metis (mono_tags, lifting) find_Some_iff nth_mem)
  next
    assume r: "r \<in> set (db_users db) \<and> ?p r"
    then obtain r' where "find ?p (db_users db) = Some r'"
      by (cases "find ?p (db_users db)") (auto simp: find_None_iff)
    moreover from this have "r' \<in> set (db_users db)" "?p r'"
      by (metis (mono_tags, lifting) find_Some_iff nth_mem)+
    ultimately show "find ?p (db_users db) = Some r"
      using db_wf_user_unique [OF store_after_wf [of calls, folded db_def], of r' r] r by simp
  qed
  have "(fst (authenticate env f i email pw db) = Inr u \<longleftrightarrow> \<not> f 0 \<and> \<not> f 1 \<and> active_org db i
        \<and> (\<exists>r \<in> set (db_users db). ur_user r = u \<and> gu_org_id u = i \<and> gu_email u = email
             \<and> hash_password env pw (ur_password_salt r) = ur_password_hash r))
      \<and> (case fst (authenticate env f i email pw db) of Inr _ \<Rightarrow> True
         | Inl e \<Rightarrow> e = GatewayE GatewayAuthenticationError \<or> (f 0 \<or> f 1) \<and> e = StoreE StoreUnavailableError)"
  proof (cases "find ?p (db_users db)")
    case None
    then have "\<not> (r \<in> set (db_users db) \<and> ?p r)" for r
      using found [of r] by simp
    then show ?thesis
      by (auto simp: authenticate_result None)
  next
    case (Some r)
    then have "r' \<in> set (db_users db) \<and> ?p r' \<longleftrightarrow> r' = r" for r'
      using found [of r'] by auto
    then have "(\<exists>r' \<in> set (db_users db). ur_user r' = u \<and> gu_org_id u = i \<and> gu_email u = email
             \<and> hash_password env pw (ur_password_salt r') = ur_password_hash r')
        \<longleftrightarrow> ur_user r = u \<and> hash_password env pw (ur_password_salt r) = ur_password_hash r"
      by metis
    then show ?thesis
      by (auto simp: authenticate_result Some)
  qed
  then show ?thesis
    by (simp add: db_def [symmetric]) (simp add: authenticate_result)
qed

end
