(* ===== verification/PyText.thy ===== *)
theory PyText
  imports Envelope
begin

text \<open>
  The methods of Python's \<^verbatim>\<open>str\<close> that several components use, on the code points up to U+00FF, the reading
  of an integer, and the helpers by which the reference adapters (\<^verbatim>\<open>adapters/\<close>) read the parameters of a
  manifest.
\<close>

section \<open>Texts\<close>

text \<open>\<^verbatim>\<open>str.lower\<close> on the code points up to U+00FF, and the test \<^verbatim>\<open>p in s\<close>.\<close>

definition lower_char :: "char \<Rightarrow> char" where
  "lower_char c = (let n = of_char c :: nat in
     if 65 \<le> n \<and> n \<le> 90 \<or> 192 \<le> n \<and> n \<le> 222 \<and> n \<noteq> 215 then char_of (n + 32) else c)"

definition lower :: "string \<Rightarrow> string" where
  "lower s = map lower_char s"

fun str_in :: "string \<Rightarrow> string \<Rightarrow> bool" where
  "str_in p [] = (p = [])"
| "str_in p (c # s) = (starts_with p (c # s) \<or> str_in p s)"

text \<open>\<^verbatim>\<open>str.encode("utf-8")\<close>.\<close>

definition utf8_encode :: "string \<Rightarrow> string" where
  "utf8_encode s = concat (map (\<lambda>c. let n = of_char c :: nat in
     if n < 128 then [c] else [char_of (192 + n div 64), char_of (128 + n mod 64)]) s)"

section \<open>Integers and parameters\<close>

text \<open>\<^verbatim>\<open>isinstance(value, int)\<close> holds of a bool, which stays a bool but counts as 0 or 1.\<close>

primrec int_param :: "parameter_value \<Rightarrow> int res" where
  "int_param (PStr s) = Inl TypeError"
| "int_param (PInt i) = Inr i"
| "int_param (PBool b) = Inr (if b then 1 else 0)"
| "int_param PNone = Inl TypeError"

definition param :: "effect_manifest \<Rightarrow> string \<Rightarrow> parameter_value res" where
  "param m k = (case map_of (m_parameters m) k of None \<Rightarrow> Inl KeyError | Some v \<Rightarrow> Inr v)"

text \<open>\<^verbatim>\<open>str(value)\<close>.\<close>

definition py_str :: "parameter_value \<Rightarrow> string" where
  "py_str v = (case v of PStr s \<Rightarrow> s | _ \<Rightarrow> py_repr v)"

definition str_param :: "effect_manifest \<Rightarrow> string \<Rightarrow> string res" where
  "str_param m k = bindR (param m k) (\<lambda>v. Inr (py_str v))"

definition int_of_param :: "effect_manifest \<Rightarrow> string \<Rightarrow> int res" where
  "int_of_param m k = bindR (param m k) int_param"

text \<open>\<^verbatim>\<open>int(text)\<close> of a decimal text: white space around it, a sign, and digits with single underscores
  between them.  The limit on the number of digits of recent versions of Python is left out.\<close>

fun dec_digits :: "string \<Rightarrow> bool" where
  "dec_digits [] = False"
| "dec_digits [c] = is_digit_char c"
| "dec_digits (c # d # s) = (is_digit_char c \<and> (if d = CHR ''_'' then dec_digits s else dec_digits (d # s)))"

definition py_int :: "string \<Rightarrow> int res" where
  "py_int s = (let t = py_strip s;
       sgn = (case t of c # _ \<Rightarrow> c = CHR ''-'' | [] \<Rightarrow> False);
       u = (case t of c # cs \<Rightarrow> if c = CHR ''-'' \<or> c = CHR ''+'' then cs else t | [] \<Rightarrow> [])
     in if dec_digits u
        then Inr ((if sgn then - 1 else 1) * int (nat_of_str (filter (\<lambda>c. c \<noteq> CHR ''_'') u)))
        else Inl ValueError)"

lemma py_int_error: "py_int s = Inl e \<Longrightarrow> e = ValueError"
  by (auto simp: py_int_def Let_def split: if_splits)


section \<open>Numerals\<close>

lemma digit_not_special: "is_digit_char c \<Longrightarrow> \<not> py_space c \<and> c \<noteq> CHR ''_'' \<and> c \<noteq> CHR ''-'' \<and> c \<noteq> CHR ''+''"
  by (auto simp: is_digit_char_def py_space_def)

lemma dec_digits_all: "list_all is_digit_char s \<Longrightarrow> dec_digits s \<longleftrightarrow> s \<noteq> []"
  by (induction s rule: dec_digits.induct) (auto simp: digit_not_special)

lemma strip_none: "s = [] \<or> \<not> py_space (hd s) \<and> \<not> py_space (last s) \<Longrightarrow> py_strip s = s"
  by (auto simp: py_strip_def dropWhile_eq_self_iff [THEN iffD2] hd_rev)

lemma nat_str_all_digits: "list_all is_digit_char (nat_str n)"
  using nat_str_digits by (simp add: list_all_iff)

lemma nat_str_no_underscore: "filter (\<lambda>c. c \<noteq> CHR ''_'') (nat_str n) = nat_str n"
  by (rule filter_True) (metis nat_str_digits digit_not_special)

lemma py_int_int_str [simp]: "py_int (int_str i) = Inr i"
proof -
  have ends: "\<not> py_space (hd (nat_str n)) \<and> \<not> py_space (last (nat_str n)) \<and> hd (nat_str n) \<noteq> CHR ''-'' \<and> hd (nat_str n) \<noteq> CHR ''+''" for n
    using nat_str_digits [of n] by (metis digit_not_special hd_in_set last_in_set nat_str_not_Nil)
  have minus: "\<not> py_space CHR ''-''"
    by (simp add: py_space_def)
  have strip: "py_strip (int_str i) = int_str i"
    using ends minus by (intro strip_none) (simp add: int_str_def)
  have neg: "py_int (CHR ''-'' # nat_str n) = Inr (- int n)" if "py_strip (CHR ''-'' # nat_str n) = CHR ''-'' # nat_str n" for n
    by (simp add: py_int_def that dec_digits_all nat_str_all_digits nat_str_no_underscore)
  have pos: "py_int (nat_str n) = Inr (int n)" if t: "py_strip (nat_str n) = nat_str n" for n
  proof -
    obtain c cs where c: "nat_str n = c # cs"
      by (cases "nat_str n") simp_all
    have "c \<noteq> CHR ''-''" "c \<noteq> CHR ''+''"
      using ends [of n] by (simp_all add: c)
    then have "py_int (c # cs) = Inr (int (nat_of_str (filter (\<lambda>c. c \<noteq> CHR ''_'') (c # cs))))"
      using t nat_str_all_digits [of n] by (simp add: py_int_def c dec_digits_all)
    then show ?thesis
      by (metis c nat_str_no_underscore nat_of_nat_str)
  qed
  show ?thesis
    using strip by (cases "i < 0") (simp_all add: int_str_def neg pos)
qed

end
