(* ===== verification/Payment.thy ===== *)
theory Payment
  imports PyText Compensation
begin

text \<open>
  The payment provider simulator and its adapter (\<^verbatim>\<open>adapters/payment_simulator.py\<close>): the provider's
  ledger of balances and of payments by idempotency key, with its two injected failures, and the
  adapter's methods as computations over the ledger.

  The two dictionaries are association lists.  \<open>payment_adapter\<close> is the adapter the engine meets at one
  call: its methods answer from the ledger of that moment.  \<open>payment_commit\<close> is the one that changes it.
\<close>

section \<open>The provider\<close>

datatype payment_status = Settled | PaymentFailed

primrec payment_status_value :: "payment_status \<Rightarrow> string" where
  "payment_status_value Settled = ''settled''"
| "payment_status_value PaymentFailed = ''failed''"

record payment_record =
  pay_provider_idempotency_key :: string
  pay_beneficiary :: string
  pay_amount_minor_units :: int
  pay_currency :: string
  pay_fee_minor_units :: int
  pay_status :: payment_status
  pay_reference :: string

record payment_request =
  rq_actor :: principal
  rq_principal :: principal
  rq_source_account :: string
  rq_beneficiary :: string
  rq_amount_minor_units :: int
  rq_currency :: string
  rq_reference :: string
  rq_fee_minor_units :: int
  rq_idempotency_key :: string
  rq_ttl_seconds :: int

record payment_simulator =
  sim_balances :: "(string \<times> int) list"
  sim_payments :: "(string \<times> payment_record) list"
  sim_fail_next :: bool
  sim_timeout_next :: bool

definition sim_init :: payment_simulator where
  "sim_init = \<lparr>sim_balances = [], sim_payments = [], sim_fail_next = False, sim_timeout_next = False\<rparr>"

definition get_balance :: "payment_simulator \<Rightarrow> string \<Rightarrow> int" where
  "get_balance s a = (case map_of (sim_balances s) a of None \<Rightarrow> 0 | Some b \<Rightarrow> b)"

definition fund_account :: "string \<Rightarrow> int \<Rightarrow> payment_simulator \<Rightarrow> payment_simulator" where
  "fund_account a n s = s\<lparr>sim_balances := AList.update a (get_balance s a + n) (sim_balances s)\<rparr>"

definition inject_failure :: "payment_simulator \<Rightarrow> payment_simulator" where
  "inject_failure s = s\<lparr>sim_fail_next := True\<rparr>"

definition inject_ambiguous_timeout :: "payment_simulator \<Rightarrow> payment_simulator" where
  "inject_ambiguous_timeout s = s\<lparr>sim_timeout_next := True\<rparr>"

definition get_payment :: "payment_simulator \<Rightarrow> string \<Rightarrow> payment_record option" where
  "get_payment s k = map_of (sim_payments s) k"

definition put_payment :: "payment_record \<Rightarrow> payment_simulator \<Rightarrow> payment_simulator" where
  "put_payment r s = s\<lparr>sim_payments := AList.update (pay_provider_idempotency_key r) r (sim_payments s)\<rparr>"

abbreviation timeout_error :: exn where
  "timeout_error \<equiv> OtherError ''TimeoutError''"

definition submit_payment :: "string \<Rightarrow> string \<Rightarrow> string \<Rightarrow> int \<Rightarrow> string \<Rightarrow> int \<Rightarrow> string \<Rightarrow> (payment_simulator, payment_record) sem" where
  "submit_payment k source ben amount cur fee ref = (\<lambda>s.
     case get_payment s k of
       Some existing \<Rightarrow> (Inr existing, s)
     | None \<Rightarrow>
         let r = (\<lambda>st. \<lparr>pay_provider_idempotency_key = k, pay_beneficiary = ben, pay_amount_minor_units = amount, pay_currency = cur,
                  pay_fee_minor_units = fee, pay_status = st, pay_reference = ref\<rparr>);
             total = amount + fee
         in if sim_fail_next s then (Inr (r PaymentFailed), put_payment (r PaymentFailed) (s\<lparr>sim_fail_next := False\<rparr>))
            else if get_balance s source < total then (Inr (r PaymentFailed), put_payment (r PaymentFailed) s)
            else case map_of (sim_balances s) source of
                None \<Rightarrow> (Inl KeyError, s)
              | Some b \<Rightarrow>
                  let s' = put_payment (r Settled) (s\<lparr>sim_balances := AList.update source (b - total) (sim_balances s)\<rparr>)
                  in if sim_timeout_next s then (Inl timeout_error, s'\<lparr>sim_timeout_next := False\<rparr>)
                     else (Inr (r Settled), s'))"

section \<open>The adapter\<close>

definition removeprefix :: "string \<Rightarrow> string \<Rightarrow> string" where
  "removeprefix p s = (if starts_with p s then drop (length p) s else s)"

definition payment_identity :: adapter_identity where
  "payment_identity = \<lparr>adapter_id = ''payment.simulator'', adapter_version = ''1.0.0''\<rparr>"

definition balance_fingerprint :: "int \<Rightarrow> state_fingerprint" where
  "balance_fingerprint b = \<lparr>fp_kind = PROVIDER_STATUS, fp_value = ''balance:'' @ int_str b\<rparr>"

text \<open>\<open>now\<close>, \<open>u\<close> and \<open>n\<close> are the clock and the two identifiers drawn.\<close>

definition payment_prepare :: "payment_simulator \<Rightarrow> time \<Rightarrow> string \<Rightarrow> string \<Rightarrow> payment_request \<Rightarrow> effect_manifest res" where
  "payment_prepare s now u n q =
     (let cost = \<lparr>currency = rq_currency q, minor_units = rq_amount_minor_units q + rq_fee_minor_units q\<rparr>;
          fp = balance_fingerprint (get_balance s (rq_source_account q));
          m = \<lparr>m_schema_version = CURRENT_SCHEMA_VERSION, m_manifest_id = u, m_effect_type = ''payment.transfer'',
               m_actor = rq_actor q, m_principal = rq_principal q, m_adapter = payment_identity,
               m_target_resource = ''payment:beneficiary/'' @ rq_beneficiary q,
               m_parameters =
                 [(''source_account'', PStr (rq_source_account q)), (''beneficiary'', PStr (rq_beneficiary q)),
                  (''amount_minor_units'', PInt (rq_amount_minor_units q)), (''currency'', PStr (rq_currency q)),
                  (''fee_minor_units'', PInt (rq_fee_minor_units q)), (''reference'', PStr (rq_reference q))],
               m_before_state_digest = None, m_expected_after_state_digest = None, m_state_fingerprint = Some fp,
               m_preconditions = [], m_risk = HIGH, m_reversibility = COMPENSATABLE, m_blast_radius = SINGLE_RESOURCE,
               m_estimated_cost = Some cost,
               m_idempotency_key = or_else (rq_idempotency_key q) (''payment-'' @ rq_reference q),
               m_created_at = now, m_expires_at = now + rq_ttl_seconds q * second, m_nonce = n,
               m_parent_manifest_id = None, m_metadata = []\<rparr>
      in thenR (fingerprint_validate fp) (thenR (monetary_amount_validate cost) (thenR (manifest_validate m) (Inr m))))"

definition pre_ok :: precondition_result where
  "pre_ok = \<lparr>pr_satisfied = True, pr_reason = None, pr_observed_fingerprint = None\<rparr>"

definition pre_failed :: "string \<Rightarrow> state_fingerprint option \<Rightarrow> precondition_result" where
  "pre_failed reason fp = \<lparr>pr_satisfied = False, pr_reason = Some reason, pr_observed_fingerprint = fp\<rparr>"

definition payment_validate :: "payment_simulator \<Rightarrow> effect_manifest \<Rightarrow> precondition_result res" where
  "payment_validate s m = (case m_state_fingerprint m of
      None \<Rightarrow> Inl (OtherError ''AssertionError'')
    | Some fp \<Rightarrow>
        bindR (str_param m ''source_account'') (\<lambda>source.
        bindR (py_int (removeprefix ''balance:'' (fp_value fp))) (\<lambda>expected.
        let current = get_balance s source in
        if current \<noteq> expected
        then Inr (pre_failed (''source account balance changed since prepare: expected '' @ int_str expected
               @ '', observed '' @ int_str current) (Some (balance_fingerprint current)))
        else
          bindR (int_of_param m ''amount_minor_units'') (\<lambda>amount.
          bindR (int_of_param m ''fee_minor_units'') (\<lambda>fee.
          if current < amount + fee then Inr (pre_failed ''insufficient balance'' None) else Inr pre_ok)))))"

text \<open>The arguments of the call of the provider, evaluated in their order.\<close>

definition payment_args :: "effect_manifest \<Rightarrow> (string \<times> string \<times> int \<times> string \<times> int \<times> string) res" where
  "payment_args m =
     bindR (str_param m ''source_account'') (\<lambda>source. bindR (str_param m ''beneficiary'') (\<lambda>ben.
     bindR (int_of_param m ''amount_minor_units'') (\<lambda>amount. bindR (str_param m ''currency'') (\<lambda>cur.
     bindR (int_of_param m ''fee_minor_units'') (\<lambda>fee. bindR (str_param m ''reference'') (\<lambda>ref.
       Inr (source, ben, amount, cur, fee, ref)))))))"

definition payment_commit :: "effect_manifest \<Rightarrow> (payment_simulator, commit_result) sem" where
  "payment_commit m = bindE (liftR (payment_args m))
     (\<lambda>(source, ben, amount, cur, fee, ref). \<lambda>s.
        case submit_payment (m_idempotency_key m) source ben amount cur fee ref s of
          (Inl x, s') \<Rightarrow>
            (if x = timeout_error
             then Inr \<lparr>cm_success = False, cm_idempotency_key = m_idempotency_key m, cm_provider_reference = None,
                    cm_detail = Some (''ambiguous: request timed out, outcome unknown -- call verify() or ''
                       @ ''engine.recover_ambiguous_commit() before retrying''), cm_after_state_digest = None\<rparr>
             else Inl x, s')
        | (Inr r, s') \<Rightarrow>
            (Inr (case pay_status r of
                PaymentFailed \<Rightarrow> \<lparr>cm_success = False, cm_idempotency_key = m_idempotency_key m, cm_provider_reference = None,
                   cm_detail = Some ''payment failed'', cm_after_state_digest = None\<rparr>
              | Settled \<Rightarrow> \<lparr>cm_success = True, cm_idempotency_key = m_idempotency_key m,
                   cm_provider_reference = Some (pay_reference r), cm_detail = None,
                   cm_after_state_digest = Some (''settled:'' @ pay_provider_idempotency_key r)\<rparr>), s'))"

definition payment_verify :: "payment_simulator \<Rightarrow> time \<Rightarrow> effect_manifest \<Rightarrow> outcome_proof res" where
  "payment_verify s now m = (case get_payment s (m_idempotency_key m) of
      None \<Rightarrow> Inr \<lparr>op_matched_expected = False, op_observed_at = now, op_observed_after_state_digest = None,
                  op_detail = Some ''no payment record found for this idempotency key''\<rparr>
    | Some r \<Rightarrow>
        bindR (if pay_status r \<noteq> Settled then Inr False
               else bindR (int_of_param m ''amount_minor_units'') (\<lambda>amount.
                 if pay_amount_minor_units r \<noteq> amount then Inr False
                 else bindR (str_param m ''beneficiary'') (\<lambda>ben. Inr (pay_beneficiary r = ben)))) (\<lambda>matched.
        Inr \<lparr>op_matched_expected = matched, op_observed_at = now,
             op_observed_after_state_digest = Some (''settled:'' @ pay_provider_idempotency_key r),
             op_detail = Some (''provider status: '' @ payment_status_value (pay_status r))\<rparr>))"

definition payment_compensate :: "payment_simulator \<Rightarrow> effect_manifest \<Rightarrow> compensation_result" where
  "payment_compensate s m = (case get_payment s (m_idempotency_key m) of
      Some r \<Rightarrow> if pay_status r = PaymentFailed
        then \<lparr>cp_attempted = False, cp_succeeded = False, cp_reason = Some ''nothing to compensate'', cp_detail = None\<rparr>
        else \<lparr>cp_attempted = True, cp_succeeded = False,
              cp_reason = Some (''settled transfers cannot be reversed by this simulator; a real reversing ''
                 @ ''payment would be required, and providers do not guarantee one succeeds''), cp_detail = None\<rparr>
    | None \<Rightarrow> \<lparr>cp_attempted = False, cp_succeeded = False, cp_reason = Some ''nothing to compensate'', cp_detail = None\<rparr>)"

text \<open>The adapter as the engine meets it, with what it prepares of the request at hand.\<close>

definition payment_adapter :: "payment_simulator \<Rightarrow> time \<Rightarrow> effect_manifest res \<Rightarrow> effect_adapter" where
  "payment_adapter s now prepared =
     \<lparr>ad_identity = payment_identity, ad_prepare = prepared,
      ad_validate_preconditions = payment_validate s,
      ad_commit = (\<lambda>m _. fst (payment_commit m s)),
      ad_verify = (\<lambda>m _. payment_verify s now m),
      ad_compensate = (\<lambda>m _. Inr (payment_compensate s m))\<rparr>"

section \<open>The ledger\<close>

lemma get_payment_put [simp]:
  "get_payment (put_payment r s) k = (if k = pay_provider_idempotency_key r then Some r else get_payment s k)"
  by (simp add: get_payment_def put_payment_def update_conv')

lemma get_payment_updates [simp]:
  "get_payment (s\<lparr>sim_fail_next := f\<rparr>) k = get_payment s k"
  "get_payment (s\<lparr>sim_timeout_next := f\<rparr>) k = get_payment s k"
  "get_payment (s\<lparr>sim_balances := b\<rparr>) k = get_payment s k"
  by (simp_all add: get_payment_def)

lemma get_balance_updates [simp]:
  "get_balance (put_payment r s) a = get_balance s a"
  "get_balance (s\<lparr>sim_fail_next := f\<rparr>) a = get_balance s a"
  "get_balance (s\<lparr>sim_timeout_next := f\<rparr>) a = get_balance s a"
  "get_balance (s\<lparr>sim_balances := AList.update x b (sim_balances s)\<rparr>) a = (if a = x then b else get_balance s a)"
  by (simp_all add: get_balance_def put_payment_def update_conv')

text \<open>What one call of the provider does, by the case it falls into.\<close>

lemma submit_payment_cases:
  assumes "submit_payment k source ben amount cur fee ref s = (r, s')"
  obtains (existing) p where "get_payment s k = Some p" "r = Inr p" "s' = s"
  | (no_account) "get_payment s k = None" "r = Inl KeyError" "s' = s"
  | (failed) p where "get_payment s k = None" "get_payment s' k = Some p" "r = Inr p" "pay_status p = PaymentFailed"
      "pay_provider_idempotency_key p = k" "sim_balances s' = sim_balances s" "sim_payments s' = AList.update k p (sim_payments s)"
  | (settled) p b where "get_payment s k = None" "get_payment s' k = Some p" "r = Inr p \<or> r = Inl timeout_error"
      "pay_status p = Settled" "pay_provider_idempotency_key p = k" "pay_beneficiary p = ben" "pay_amount_minor_units p = amount"
      "pay_fee_minor_units p = fee" "pay_reference p = ref" "map_of (sim_balances s) source = Some b"
      "amount + fee \<le> b" "sim_balances s' = AList.update source (b - (amount + fee)) (sim_balances s)"
      "sim_payments s' = AList.update k p (sim_payments s)"
proof (cases "get_payment s k")
  case (Some p)
  with assms show ?thesis
    by (intro existing) (auto simp: submit_payment_def)
next
  case None
  note new = None
  consider (f) "sim_fail_next s" | (i) "\<not> sim_fail_next s" "get_balance s source < amount + fee"
    | (a) "\<not> sim_fail_next s" "\<not> get_balance s source < amount + fee" "map_of (sim_balances s) source = None"
    | (o) b where "\<not> sim_fail_next s" "\<not> get_balance s source < amount + fee" "map_of (sim_balances s) source = Some b"
    by (cases "map_of (sim_balances s) source") auto
  then show ?thesis
  proof cases
    case f
    with assms new show ?thesis
      by (intro failed [of "\<lparr>pay_provider_idempotency_key = k, pay_beneficiary = ben, pay_amount_minor_units = amount, pay_currency = cur,
                  pay_fee_minor_units = fee, pay_status = PaymentFailed, pay_reference = ref\<rparr>"])
        (auto simp: submit_payment_def put_payment_def get_payment_def update_conv')
  next
    case i
    with assms new show ?thesis
      by (intro failed [of "\<lparr>pay_provider_idempotency_key = k, pay_beneficiary = ben, pay_amount_minor_units = amount, pay_currency = cur,
                  pay_fee_minor_units = fee, pay_status = PaymentFailed, pay_reference = ref\<rparr>"])
        (auto simp: submit_payment_def put_payment_def get_payment_def update_conv')
  next
    case a
    with assms new show ?thesis
      by (intro no_account) (simp_all add: submit_payment_def)
  next
    case o
    then have "amount + fee \<le> b"
      by (simp add: get_balance_def)
    with o assms new show ?thesis
      by (intro settled [of "\<lparr>pay_provider_idempotency_key = k, pay_beneficiary = ben, pay_amount_minor_units = amount, pay_currency = cur,
                  pay_fee_minor_units = fee, pay_status = Settled, pay_reference = ref\<rparr>" b])
        (auto simp: submit_payment_def Let_def put_payment_def get_payment_def update_conv' split: if_splits)
  qed
qed

text \<open>A payment, once on record, is never changed; a second request for its key changes nothing.\<close>

lemma submit_payment_keeps: "get_payment s k = Some p \<Longrightarrow> get_payment (snd (submit_payment k' source ben amount cur fee ref s)) k = Some p"
proof -
  obtain r s' where e: "submit_payment k' source ben amount cur fee ref s = (r, s')"
    by fastforce
  assume "get_payment s k = Some p"
  with e show "get_payment (snd (submit_payment k' source ben amount cur fee ref s)) k = Some p"
    by (cases rule: submit_payment_cases) (auto simp: e get_payment_def update_conv')
qed

lemma payment_commit_submit:
  "snd (payment_commit m s) = (case payment_args m of Inl _ \<Rightarrow> s
     | Inr (source, ben, amount, cur, fee, ref) \<Rightarrow> snd (submit_payment (m_idempotency_key m) source ben amount cur fee ref s))"
  by (auto simp: payment_commit_def bindE_def liftR_def split: sum.splits prod.splits)

lemma payment_commit_keeps: "get_payment s k = Some p \<Longrightarrow> get_payment (snd (payment_commit m s)) k = Some p"
  by (simp add: payment_commit_submit submit_payment_keeps split: sum.splits prod.splits)

text \<open>Whatever is done to the provider.\<close>

datatype provider_op = Fund string int | InjectFailure | InjectTimeout
  | Submit string string string int string int string | AdapterCommit effect_manifest

primrec provider_step :: "payment_simulator \<Rightarrow> provider_op \<Rightarrow> payment_simulator" where
  "provider_step s (Fund a n) = fund_account a n s"
| "provider_step s InjectFailure = inject_failure s"
| "provider_step s InjectTimeout = inject_ambiguous_timeout s"
| "provider_step s (Submit k source ben amount cur fee ref) = snd (submit_payment k source ben amount cur fee ref s)"
| "provider_step s (AdapterCommit m) = snd (payment_commit m s)"

primrec funded :: "provider_op \<Rightarrow> int" where
  "funded (Fund a n) = n"
| "funded InjectFailure = 0"
| "funded InjectTimeout = 0"
| "funded (Submit k source ben amount cur fee ref) = 0"
| "funded (AdapterCommit m) = 0"

definition settled_amount :: "payment_record \<Rightarrow> int" where
  "settled_amount r = (if pay_status r = Settled then pay_amount_minor_units r + pay_fee_minor_units r else 0)"

definition total_balance :: "payment_simulator \<Rightarrow> int" where
  "total_balance s = sum_list (map (\<lambda>x. snd x) (sim_balances s))"

definition total_settled :: "payment_simulator \<Rightarrow> int" where
  "total_settled s = sum_list (map (\<lambda>x. settled_amount (snd x)) (sim_payments s))"

lemma sum_update:
  fixes f :: "'v \<Rightarrow> int"
  shows "sum_list (map (\<lambda>x. f (snd x)) (AList.update k v xs)) =
    sum_list (map (\<lambda>x. f (snd x)) xs) - (case map_of xs k of None \<Rightarrow> 0 | Some w \<Rightarrow> f w) + f v"
  by (induction xs) auto

lemmas sum_update_id = sum_update [where f = "\<lambda>x. x"]

lemma settled_amounts:
  "pay_status r = Settled \<Longrightarrow> settled_amount r = pay_amount_minor_units r + pay_fee_minor_units r"
  "pay_status r = PaymentFailed \<Longrightarrow> settled_amount r = 0"
  by (simp_all add: settled_amount_def)

lemma submit_conserves:
  "total_balance (snd (submit_payment k source ben amount cur fee ref s)) + total_settled (snd (submit_payment k source ben amount cur fee ref s))
     = total_balance s + total_settled s"
proof -
  obtain r s' where e: "submit_payment k source ben amount cur fee ref s = (r, s')"
    by fastforce
  then have "total_balance s' + total_settled s' = total_balance s + total_settled s"
    by (cases rule: submit_payment_cases)
      (auto simp: total_balance_def total_settled_def sum_update sum_update_id get_payment_def settled_amounts)
  then show ?thesis
    by (simp add: e)
qed

lemma step_conserves: "total_balance (provider_step s op) + total_settled (provider_step s op) = total_balance s + total_settled s + funded op"
proof (cases op)
  case (Fund a n)
  then show ?thesis
    by (simp add: fund_account_def total_balance_def total_settled_def sum_update_id get_balance_def split: option.split)
next
  case (AdapterCommit m)
  then show ?thesis
    by (simp add: payment_commit_submit submit_conserves split: sum.split prod.split)
qed (simp_all add: submit_conserves inject_failure_def inject_ambiguous_timeout_def total_balance_def [of "s\<lparr>sim_fail_next := True\<rparr>"]
      total_settled_def [of "s\<lparr>sim_fail_next := True\<rparr>"] total_balance_def [of "s\<lparr>sim_timeout_next := True\<rparr>"]
      total_settled_def [of "s\<lparr>sim_timeout_next := True\<rparr>"] total_balance_def [of s] total_settled_def [of s])

lemma step_keeps_payment: "get_payment s k = Some p \<Longrightarrow> get_payment (provider_step s op) k = Some p"
  by (cases op) (simp_all add: submit_payment_keeps payment_commit_keeps fund_account_def inject_failure_def inject_ambiguous_timeout_def)

lemma run_conserves: "total_balance (foldl provider_step s ops) + total_settled (foldl provider_step s ops)
    = total_balance s + total_settled s + sum_list (map funded ops)"
  by (induction ops arbitrary: s) (simp_all add: step_conserves)

lemma run_keeps_payment: "get_payment s k = Some p \<Longrightarrow> get_payment (foldl provider_step s ops) k = Some p"
  by (induction ops arbitrary: s) (simp_all add: step_keeps_payment)

text \<open>C29. The payment provider neither creates nor loses money: after any sequence of funding, injected
  failures and timeouts, direct requests and commits of manifests, the balances together with the
  settled payments are what was paid in.  A payment on record for an idempotency key is never replaced,
  so a key is charged at most once.\<close>

theorem provider_conserves_money:
  "total_balance (foldl provider_step sim_init ops) + total_settled (foldl provider_step sim_init ops) = sum_list (map funded ops)
   \<and> (get_payment (foldl provider_step sim_init ops) k = None \<or>
      get_payment (foldl provider_step sim_init (ops @ ops')) k = get_payment (foldl provider_step sim_init ops) k)"
proof -
  have "total_balance sim_init + total_settled sim_init = 0"
    by (simp add: sim_init_def total_balance_def total_settled_def)
  then show ?thesis
    using run_keeps_payment [of "foldl provider_step sim_init ops" k _ ops']
    by (cases "get_payment (foldl provider_step sim_init ops) k") (simp_all add: run_conserves)
qed

section \<open>What the adapter reports\<close>

text \<open>A manifest the adapter prepared, and any other whose parameters it can read.\<close>

lemma payment_args_prepared:
  "payment_prepare s now u n q = Inr m \<Longrightarrow> payment_args m =
     Inr (rq_source_account q, rq_beneficiary q, rq_amount_minor_units q, rq_currency q, rq_fee_minor_units q, rq_reference q)"
  by (auto simp: payment_prepare_def Let_def payment_args_def str_param_def int_of_param_def param_def py_str_def result_simps thenR_def)

lemma payment_prepared_fields:
  "payment_prepare s now u n q = Inr m \<Longrightarrow> m_idempotency_key m = or_else (rq_idempotency_key q) (''payment-'' @ rq_reference q)
     \<and> m_manifest_id m = u \<and> m_effect_type m = ''payment.transfer'' \<and> m_adapter m = payment_identity \<and> m_actor m = rq_actor q
     \<and> m_parent_manifest_id m = None \<and> m_state_fingerprint m = Some (balance_fingerprint (get_balance s (rq_source_account q)))"
  by (auto simp: payment_prepare_def Let_def result_simps thenR_def)

lemma payment_argsD:
  "payment_args m = Inr (source, ben, amount, cur, fee, ref) \<Longrightarrow>
     str_param m ''source_account'' = Inr source \<and> str_param m ''beneficiary'' = Inr ben
     \<and> int_of_param m ''amount_minor_units'' = Inr amount \<and> int_of_param m ''fee_minor_units'' = Inr fee"
  by (auto simp: payment_args_def result_simps)

text \<open>What the adapter observes is what happened.  Take a manifest whose idempotency key the provider
  has not seen.  Whatever a commit answers (success, failure, or the ambiguous timeout after the money
  moved), a later verification matches exactly when the payment was settled; it matches exactly when
  the source account was debited by the amount and the fee, no other account is touched, a reported
  success is always confirmed, and committing again, as a blind retry would, moves nothing more.\<close>

theorem payment_verification_exact:
  assumes "payment_args m = Inr (source, ben, amount, cur, fee, ref)" and "get_payment s (m_idempotency_key m) = None"
    and "payment_commit m s = (r, s')"
  shows "\<exists>p. payment_verify s' now m = Inr p
    \<and> (\<forall>a. get_balance s' a = get_balance s a - (if op_matched_expected p \<and> a = source then amount + fee else 0))
    \<and> (op_matched_expected p \<longleftrightarrow> (\<exists>x. get_payment s' (m_idempotency_key m) = Some x \<and> pay_status x = Settled))
    \<and> (\<forall>c. r = Inr c \<and> cm_success c \<longrightarrow> op_matched_expected p)
    \<and> sim_balances (snd (payment_commit m s')) = sim_balances s'"
proof -
  let ?k = "m_idempotency_key m"
  obtain q where e: "submit_payment ?k source ben amount cur fee ref s = (q, s')"
    using assms(1,3) by (auto simp: payment_commit_def bindE_def liftR_def split: prod.splits sum.splits)
  have again: "sim_balances (snd (payment_commit m s')) = sim_balances s'" if "get_payment s' ?k = Some x" for x
    using that by (simp add: payment_commit_submit assms(1) submit_payment_def)
  have same: "get_balance s' a = get_balance s a" if "sim_balances s' = sim_balances s" for a
    using that by (simp add: get_balance_def)
  from e show ?thesis
  proof (cases rule: submit_payment_cases)
    case (existing p)
    with assms(2) show ?thesis by simp
  next
    case no_account
    have "submit_payment ?k source ben amount cur fee ref s' = (q, s')"
      using e no_account by simp
    then show ?thesis
      using no_account assms by (auto simp: payment_verify_def payment_commit_submit payment_commit_def bindE_def liftR_def)
  next
    case (failed p)
    then show ?thesis
      using assms(1,3) again [of p] same e by (auto simp: payment_verify_def payment_commit_def bindE_def liftR_def)
  next
    case (settled p b)
    then show ?thesis
      using assms(1) payment_argsD [OF assms(1)] again [of p]
      by (auto simp: payment_verify_def get_balance_def update_conv')
  qed
qed

text \<open>A manifest the adapter prepared passes its preconditions later exactly when the balance of the source
  account is what it was and covers the payment: any other movement on the account makes it stale.\<close>

theorem payment_preconditions_exact:
  assumes "payment_prepare s now u n q = Inr m"
  shows "payment_validate s' m = Inr pre_ok \<longleftrightarrow>
     get_balance s' (rq_source_account q) = get_balance s (rq_source_account q)
     \<and> rq_amount_minor_units q + rq_fee_minor_units q \<le> get_balance s' (rq_source_account q)"
proof -
  have m: "m_state_fingerprint m = Some (balance_fingerprint (get_balance s (rq_source_account q)))"
    using payment_prepared_fields [OF assms] by simp
  have v: "removeprefix ''balance:'' (fp_value (balance_fingerprint b)) = int_str b" for b
    by (simp add: removeprefix_def balance_fingerprint_def starts_with_def)
  show ?thesis
    using payment_argsD [OF payment_args_prepared [OF assms]]
    by (auto simp: payment_validate_def m v Let_def pre_ok_def pre_failed_def)
qed

section \<open>A concrete provider\<close>

definition demo_request :: payment_request where
  "demo_request = \<lparr>rq_actor = \<lparr>principal_id = ''agent-1'', principal_type = AGENT, display_name = None\<rparr>,
     rq_principal = \<lparr>principal_id = ''ops'', principal_type = HUMAN, display_name = None\<rparr>,
     rq_source_account = ''acct-src'', rq_beneficiary = ''bob'', rq_amount_minor_units = 40, rq_currency = ''INR'',
     rq_reference = ''r-1'', rq_fee_minor_units = 2, rq_idempotency_key = ''k-1'', rq_ttl_seconds = 300\<rparr>"

definition demo_simulator :: payment_simulator where
  "demo_simulator = inject_ambiguous_timeout (fund_account ''acct-src'' 100 sim_init)"

definition demo_payment :: effect_manifest where
  "demo_payment = (case payment_prepare demo_simulator 1000 ''m-1'' ''n-1'' demo_request of Inr m \<Rightarrow> m | Inl _ \<Rightarrow> undefined)"

lemma demo_prepared: "payment_prepare demo_simulator 1000 ''m-1'' ''n-1'' demo_request = Inr demo_payment"
proof -
  have "is_ok (payment_prepare demo_simulator 1000 ''m-1'' ''n-1'' demo_request)"
    by code_simp
  then show ?thesis
    by (auto simp: demo_payment_def split: sum.splits)
qed

text \<open>The timeout: the commit reports a failure, the money has moved, and the verification says so.\<close>

theorem payment_verification_exact_witness:
  "\<exists>p r s'. payment_commit demo_payment demo_simulator = (Inr r, s') \<and> \<not> cm_success r \<and> payment_verify s' 2000 demo_payment = Inr p
     \<and> op_matched_expected p \<and> get_balance s' ''acct-src'' = 58"
proof -
  have k: "m_idempotency_key demo_payment = ''k-1''"
    using payment_prepared_fields [OF demo_prepared] by (simp add: demo_request_def or_else_def)
  obtain r s' where c: "payment_commit demo_payment demo_simulator = (r, s')"
    by fastforce
  have a: "payment_args demo_payment = Inr (''acct-src'', ''bob'', 40, ''INR'', 2, ''r-1'')"
    using payment_args_prepared [OF demo_prepared] by (simp add: demo_request_def)
  have n: "get_payment demo_simulator (m_idempotency_key demo_payment) = None"
    by (simp add: demo_simulator_def get_payment_def inject_ambiguous_timeout_def fund_account_def sim_init_def)
  have r: "(case r of Inr x \<Rightarrow> \<not> cm_success x | Inl _ \<Rightarrow> False) \<and> get_balance s' ''acct-src'' = 58"
    using c a by (auto simp: payment_commit_def bindE_def liftR_def k submit_payment_def Let_def demo_simulator_def get_payment_def
        inject_ambiguous_timeout_def fund_account_def sim_init_def get_balance_def put_payment_def)
  have b: "get_balance demo_simulator ''acct-src'' = 100"
    by (simp add: demo_simulator_def get_balance_def inject_ambiguous_timeout_def fund_account_def sim_init_def)
  obtain p where "payment_verify s' 2000 demo_payment = Inr p"
      "get_balance s' ''acct-src'' = get_balance demo_simulator ''acct-src'' - (if op_matched_expected p then 42 else 0)"
    using payment_verification_exact [OF a n c, of 2000] by auto
  with r b c show ?thesis
    by (cases r) (auto split: if_splits)
qed

theorem payment_preconditions_exact_witness:
  "payment_validate demo_simulator demo_payment = Inr pre_ok
   \<and> payment_validate (fund_account ''acct-src'' 1 demo_simulator) demo_payment \<noteq> Inr pre_ok"
  unfolding payment_preconditions_exact [OF demo_prepared] by code_simp

end
