(* ===== verification/Gateway.thy ===== *)
theory Gateway
  imports GatewayStore Payment
begin

text \<open>
  The HTTP surface of the gateway over its store (\<^verbatim>\<open>gateway/sessions.py\<close>, \<^verbatim>\<open>gateway/schemas.py\<close>,
  \<^verbatim>\<open>gateway/api.py\<close>, \<^verbatim>\<open>tenant/control_plane.py\<close>, \<^verbatim>\<open>api/auth.py\<close>): bearer sessions, the checks every
  organization-scoped request passes, the bootstrap of an organization, and the runtime of each tenant.

  A request is a computation over \<open>gateway_state\<close>.  The runtime of a tenant is any type \<open>'r\<close>; the refund
  journey instantiates it.  \<open>gateway_context\<close> holds what a request meets: the headers, the clock, the
  token drawn, the failures of the statements of its \<open>n\<close>-th call of the store, and what building the
  runtime of a tenant gives.  A request whose body fails its validation is answered with status 422.
\<close>

section \<open>Sessions\<close>

record gateway_session =
  ses_token :: string
  ses_user_id :: string
  ses_org_id :: string
  ses_issued_at :: time
  ses_expires_at :: time

definition session_is_expired :: "gateway_session \<Rightarrow> time \<Rightarrow> bool" where
  "session_is_expired s at \<longleftrightarrow> ses_expires_at s \<le> at"

definition DEFAULT_SESSION_TTL :: time where
  "DEFAULT_SESSION_TTL = 12 * 3600 * second"

type_synonym session_store = "string \<Rightarrow> gateway_session option"

definition session_issue :: "time \<Rightarrow> time \<Rightarrow> string \<Rightarrow> gateway_user \<Rightarrow> session_store \<Rightarrow> gateway_session \<times> session_store" where
  "session_issue ttl now token u st =
     (let s = \<lparr>ses_token = token, ses_user_id = gu_user_id u, ses_org_id = gu_org_id u, ses_issued_at = now, ses_expires_at = now + ttl\<rparr>
      in (s, st(token := Some s)))"

definition session_get :: "time \<Rightarrow> string \<Rightarrow> session_store \<Rightarrow> gateway_session option \<times> session_store" where
  "session_get now token st = (case st token of
      None \<Rightarrow> (None, st)
    | Some s \<Rightarrow> if session_is_expired s now then (None, st(token := None)) else (Some s, st))"

definition session_revoke :: "string \<Rightarrow> session_store \<Rightarrow> session_store" where
  "session_revoke token st = st(token := None)"

definition session_revoke_all_for_user :: "string \<Rightarrow> session_store \<Rightarrow> session_store" where
  "session_revoke_all_for_user uid st =
     (\<lambda>t. case st t of None \<Rightarrow> None | Some s \<Rightarrow> if ses_user_id s = uid then None else Some s)"

section \<open>Request bodies\<close>

definition validate_principal_safe_id :: "string \<Rightarrow> unit res" where
  "validate_principal_safe_id v = raise_if (v = [] \<or> \<not> ID_RE_match v) ValueError"

definition MIN_PASSWORD_LENGTH :: nat where "MIN_PASSWORD_LENGTH = 6"

definition validate_new_password :: "string \<Rightarrow> unit res" where
  "validate_new_password v = allR
     [raise_if (length v < MIN_PASSWORD_LENGTH) ValueError, raise_if (py_strip v = []) ValueError]"

definition unprocessable :: "unit res \<Rightarrow> unit res" where
  "unprocessable r = raise_if (\<not> is_ok r) (HTTPException 422)"

record organization_bootstrap =
  bs_org_id :: string
  bs_name :: string
  bs_owner_email :: string
  bs_owner_display_name :: string
  bs_owner_password :: string

definition bootstrap_validate :: "organization_bootstrap \<Rightarrow> unit res" where
  "bootstrap_validate b = unprocessable
     (thenR (validate_canonical_org_id (bs_org_id b)) (validate_new_password (bs_owner_password b)))"

record user_create =
  uc_user_id :: string
  uc_email :: string
  uc_display_name :: string
  uc_password :: string
  uc_role :: gateway_user_role

definition user_create_validate :: "user_create \<Rightarrow> unit res" where
  "user_create_validate b = unprocessable
     (thenR (validate_principal_safe_id (uc_user_id b)) (validate_new_password (uc_password b)))"

section \<open>The control plane\<close>

record 'r gateway_state =
  gw_db :: gateway_db
  gw_sessions :: session_store
  gw_registry :: tenant_registry
  gw_states :: "string \<Rightarrow> 'r option"

record 'r gateway_context =
  gc_env :: gateway_env
  gc_fault :: "nat \<Rightarrow> nat \<Rightarrow> bool"
  gc_clock :: time
  gc_ttl :: time
  gc_token :: string
  gc_authorization :: "string option"
  gc_dev_mode :: bool
  gc_api_token :: "string option"
  gc_build :: "string \<Rightarrow> 'r res"

type_synonym ('r, 'a) request = "('r gateway_state, 'a) sem"

definition on_db :: "'a gw \<Rightarrow> ('r, 'a) request" where
  "on_db m = (\<lambda>s. case m (gw_db s) of (r, db) \<Rightarrow> (r, s\<lparr>gw_db := db\<rparr>))"

definition map_error :: "(exn \<Rightarrow> exn) \<Rightarrow> ('s, 'a) sem \<Rightarrow> ('s, 'a) sem" where
  "map_error g m = (\<lambda>s. case m s of (Inl e, s') \<Rightarrow> (Inl (g e), s') | (Inr v, s') \<Rightarrow> (Inr v, s'))"

definition require_active_tenant :: "tenant_registry \<Rightarrow> string \<Rightarrow> tenant res" where
  "require_active_tenant reg i =
     (if py_strip i = [] then Inl (TenantE TenantIsolationError) else tr_require reg (py_strip i))"

text \<open>\<open>gc_build\<close> is the construction of the runtime below the tenant's directory, which fails when the
  resolved path leaves the data root.\<close>

definition build_state :: "'r gateway_context \<Rightarrow> string \<Rightarrow> 'r res" where
  "build_state C i = thenR (validate_canonical_org_id i) (gc_build C i)"

definition create_tenant :: "'r gateway_context \<Rightarrow> tenant \<Rightarrow> ('r, tenant) request" where
  "create_tenant C t = (\<lambda>s.
     if tr_get (gw_registry s) (tn_tenant_id t) \<noteq> None then (Inl (TenantE TenantIsolationError), s)
     else let s1 = s\<lparr>gw_registry := tr_register (gw_registry s) t\<rparr>
          in case build_state C (tn_tenant_id t) of
               Inl x \<Rightarrow> (Inl x, s1)
             | Inr r \<Rightarrow> (Inr t, s1\<lparr>gw_states := (gw_states s1)(tn_tenant_id t := Some r)\<rparr>))"

definition get_state_unchecked :: "string \<Rightarrow> ('r, 'r) request" where
  "get_state_unchecked i = bindE (getS (\<lambda>s. gw_states s i)) (\<lambda>st.
     case st of None \<Rightarrow> raiseE (TenantE TenantIsolationError) | Some r \<Rightarrow> ret r)"

definition get_state :: "string \<Rightarrow> ('r, 'r) request" where
  "get_state i = bindE (getS (\<lambda>s. require_active_tenant (gw_registry s) i)) (\<lambda>q.
     thenE (liftR q) (get_state_unchecked i))"

definition reject_cross_tenant :: "string \<Rightarrow> string \<Rightarrow> ('r, unit) request" where
  "reject_cross_tenant acting resource = bindE (getS (\<lambda>s. require_active_tenant (gw_registry s) acting)) (\<lambda>q.
     thenE (liftR q) (liftR (raise_if (acting \<noteq> resource) (TenantE TenantIsolationError))))"

text \<open>After a restart: every organization on record gets its tenant and its runtime back.  \<open>rehydrate\<close>
  restores the refund journey of one.\<close>

primrec rehydrate_organizations :: "'r gateway_context \<Rightarrow> (string \<Rightarrow> 'r \<Rightarrow> 'r res) \<Rightarrow> organization list \<Rightarrow> ('r, unit) request" where
  "rehydrate_organizations C rehydrate [] = ret ()"
| "rehydrate_organizations C rehydrate (g # gs) =
     thenE
      (bindE (getS (\<lambda>s. tr_get (gw_registry s) (go_org_id g))) (\<lambda>known.
       if known \<noteq> None then ret ()
       else bindE (liftR (tenant_new (go_org_id g) (go_name g)
              (if go_status g = OrgSuspended then TenantSuspended else TenantActive) (Some (go_created_at g)))) (\<lambda>t.
            thenE (create_tenant C t)
            (bindE (get_state_unchecked (go_org_id g)) (\<lambda>r.
             bindE (liftR (rehydrate (go_org_id g) r)) (\<lambda>r'.
               modS (\<lambda>s. s\<lparr>gw_states := (gw_states s)(go_org_id g := Some r')\<rparr>)))))))
      (rehydrate_organizations C rehydrate gs)"

definition rehydrate_tenant_registrations :: "'r gateway_context \<Rightarrow> (string \<Rightarrow> 'r \<Rightarrow> 'r res) \<Rightarrow> ('r, unit) request" where
  "rehydrate_tenant_registrations C rehydrate =
     bindE (on_db (list_organizations (gc_fault C 0))) (rehydrate_organizations C rehydrate)"

section \<open>The checks of a request\<close>

definition require_auth :: "'r gateway_context \<Rightarrow> unit res" where
  "require_auth C =
     (if gc_dev_mode C then Inr ()
      else case gc_api_token C of
          None \<Rightarrow> Inl (HTTPException 500)
        | Some t \<Rightarrow> if t = [] then Inl (HTTPException 500)
                    else raise_if (gc_authorization C \<noteq> Some (''Bearer '' @ t)) (HTTPException 401))"

definition bearer_token :: "string option \<Rightarrow> string res" where
  "bearer_token h = (case h of
      None \<Rightarrow> Inl (HTTPException 401)
    | Some a \<Rightarrow> if starts_with ''Bearer '' a then Inr (removeprefix ''Bearer '' a) else Inl (HTTPException 401))"

definition on_sessions :: "(session_store \<Rightarrow> 'a \<times> session_store) \<Rightarrow> ('r, 'a) request" where
  "on_sessions m = (\<lambda>s. case m (gw_sessions s) of (x, st) \<Rightarrow> (Inr x, s\<lparr>gw_sessions := st\<rparr>))"

definition require_gateway_session :: "'r gateway_context \<Rightarrow> ('r, gateway_user) request" where
  "require_gateway_session C = bindE (liftR (bearer_token (gc_authorization C))) (\<lambda>token.
     bindE (on_sessions (session_get (gc_clock C) token)) (\<lambda>session.
     case session of
       None \<Rightarrow> raiseE (HTTPException 401)
     | Some s \<Rightarrow> rename_error is_ks (HTTPException 401) (on_db (get_user_by_id (gc_fault C 0) (ses_org_id s) (ses_user_id s)))))"

definition org_scope_error :: "exn \<Rightarrow> exn" where
  "org_scope_error e =
     (if e = GatewayE CrossOrganizationAccessError \<or> e = GatewayE OrganizationSuspendedError then HTTPException 403
      else if e = GatewayE OrganizationNotFoundError then HTTPException 404 else e)"

definition assert_org_scope :: "'r gateway_context \<Rightarrow> gateway_user \<Rightarrow> string \<Rightarrow> ('r, unit) request" where
  "assert_org_scope C u i =
     thenE (rename_error (\<lambda>e. e = TenantE InvalidOrganizationIdError) (HTTPException 400) (liftR (validate_canonical_org_id i)))
     (map_error org_scope_error
       (thenE (liftR (assert_user_belongs_to_organization u i))
       (thenE (on_db (require_active_organization (gc_fault C 1) i)) (ret ()))))"

definition resolve_org_runtime :: "'r gateway_context \<Rightarrow> gateway_user \<Rightarrow> string \<Rightarrow> ('r, 'r) request" where
  "resolve_org_runtime C u i =
     thenE (assert_org_scope C u i)
       (rename_error (\<lambda>e. e = TenantE TenantIsolationError \<or> e = TenantE UnknownTenantError) (HTTPException 404) (get_state i))"

definition require_registered_refund_resources :: "'r gateway_context \<Rightarrow> gateway_user \<Rightarrow> string \<Rightarrow> string \<Rightarrow> string \<Rightarrow> string
    \<Rightarrow> ('r, 'r) request" where
  "require_registered_refund_resources C u i agent adapter version =
     bindE (resolve_org_runtime C u i) (\<lambda>runtime.
     thenE (rename_error (\<lambda>e. e = GatewayE GatewayAgentNotFoundError) (HTTPException 409) (on_db (get_agent (gc_fault C 2) i agent)))
     (bindE (rename_error (\<lambda>e. e = GatewayE GatewayAdapterNotFoundError) (HTTPException 409) (on_db (get_adapter (gc_fault C 3) i adapter))) (\<lambda>reg.
      thenE (liftR (raise_if (gad_adapter_version reg \<noteq> version) (HTTPException 409)))
      (thenE (liftR (raise_if (''payment.transfer'' \<notin> set (gad_effect_types reg)) (HTTPException 409)))
        (ret runtime)))))"

section \<open>The routes\<close>

definition bootstrap_organization :: "'r gateway_context \<Rightarrow> organization_bootstrap \<Rightarrow> ('r, organization \<times> gateway_user) request" where
  "bootstrap_organization C b =
     thenE (liftR (require_auth C))
     (thenE (liftR (bootstrap_validate b))
     (bindE (rename_error (\<lambda>e. e = GatewayE OrganizationAlreadyExistsError \<or> e = GatewayE GatewayUserAlreadyExistsError) (HTTPException 409)
        (bindE (on_db (create_organization (gc_env C) (gc_fault C 0) (bs_org_id b) (bs_name b))) (\<lambda>g.
         bindE (on_db (create_user (gc_env C) (gc_fault C 1) (bs_org_id b @ ''-owner'') (bs_org_id b) (bs_owner_email b)
            (bs_owner_display_name b) (bs_owner_password b) Owner)) (\<lambda>u. ret (g, u))))) (\<lambda>(g, u).
      thenE (map_error (\<lambda>e. if e = TenantE InvalidOrganizationIdError then HTTPException 400
               else if e = TenantE TenantIsolationError then HTTPException 409 else e)
          (bindE (liftR (tenant_new (bs_org_id b) (bs_name b) TenantActive (Some (go_created_at g)))) (create_tenant C)))
        (ret (g, u)))))"

definition login :: "'r gateway_context \<Rightarrow> string \<Rightarrow> string \<Rightarrow> string \<Rightarrow> ('r, gateway_session \<times> gateway_user) request" where
  "login C i email password =
     bindE (rename_error (\<lambda>e. e = GatewayE GatewayAuthenticationError) (HTTPException 401)
        (on_db (authenticate (gc_env C) (gc_fault C 0) i email password))) (\<lambda>u.
     bindE (on_sessions (session_issue (gc_ttl C) (gc_clock C) (gc_token C) u)) (\<lambda>session. ret (session, u)))"

definition me :: "'r gateway_context \<Rightarrow> ('r, gateway_user) request" where
  "me C = require_gateway_session C"

definition logout :: "'r gateway_context \<Rightarrow> ('r, bool) request" where
  "logout C = thenE (require_gateway_session C)
     (thenE (modS (\<lambda>s. s\<lparr>gw_sessions := session_revoke (removeprefix ''Bearer ''
          (case gc_authorization C of None \<Rightarrow> [] | Some a \<Rightarrow> a)) (gw_sessions s)\<rparr>)) (ret True))"

text \<open>A route behind a session that is scoped to an organization.\<close>

definition scoped :: "'r gateway_context \<Rightarrow> string \<Rightarrow> (gateway_user \<Rightarrow> ('r, 'a) request) \<Rightarrow> ('r, 'a) request" where
  "scoped C i h = bindE (require_gateway_session C) (\<lambda>u. thenE (assert_org_scope C u i) (h u))"

definition get_organization_route :: "'r gateway_context \<Rightarrow> string \<Rightarrow> ('r, organization) request" where
  "get_organization_route C i = scoped C i (\<lambda>_.
     rename_error (\<lambda>e. e = GatewayE OrganizationNotFoundError) (HTTPException 404) (on_db (get_organization (gc_fault C 2) i)))"

definition list_organization_users :: "'r gateway_context \<Rightarrow> string \<Rightarrow> ('r, gateway_user list) request" where
  "list_organization_users C i = scoped C i (\<lambda>_. map_error org_scope_error (on_db (list_users (gc_fault C 2) i)))"

text \<open>The session is checked before the body is validated.\<close>

definition create_organization_user :: "'r gateway_context \<Rightarrow> string \<Rightarrow> user_create \<Rightarrow> ('r, gateway_user) request" where
  "create_organization_user C i b = bindE (require_gateway_session C) (\<lambda>u.
     thenE (liftR (user_create_validate b))
     (thenE (assert_org_scope C u i)
     (thenE (liftR (raise_if (gu_role u \<noteq> Owner) (HTTPException 403)))
     (map_error (\<lambda>e. if e = GatewayE GatewayUserAlreadyExistsError then HTTPException 409
               else if e = GatewayE OrganizationSuspendedError then HTTPException 403 else e)
        (on_db (create_user (gc_env C) (gc_fault C 2) (uc_user_id b) i (uc_email b) (uc_display_name b) (uc_password b) (uc_role b)))))))"

definition register_organization_agent :: "'r gateway_context \<Rightarrow> string \<Rightarrow> string \<Rightarrow> string \<Rightarrow> ('r, gateway_agent) request" where
  "register_organization_agent C i aid name = bindE (require_gateway_session C) (\<lambda>u.
     thenE (liftR (unprocessable (validate_principal_safe_id aid)))
     (thenE (assert_org_scope C u i)
       (rename_error (\<lambda>e. e = GatewayE GatewayAgentAlreadyExistsError) (HTTPException 409)
         (on_db (register_agent (gc_env C) (gc_fault C 2) i aid name)))))"

definition list_organization_agents :: "'r gateway_context \<Rightarrow> string \<Rightarrow> ('r, gateway_agent list) request" where
  "list_organization_agents C i = scoped C i (\<lambda>_. on_db (list_agents (gc_fault C 2) i))"

text \<open>\<open>running\<close> are the adapters of a runtime with their versions, \<open>trusted\<close> is its registry.\<close>

definition register_organization_adapter :: "'r gateway_context \<Rightarrow> ('r \<Rightarrow> string \<Rightarrow> string option) \<Rightarrow> ('r \<Rightarrow> adapter_registry)
    \<Rightarrow> string \<Rightarrow> string \<Rightarrow> string \<Rightarrow> ('r, gateway_adapter) request" where
  "register_organization_adapter C running trusted i aid version =
     bindE (require_gateway_session C) (\<lambda>u. bindE (resolve_org_runtime C u i) (\<lambda>runtime.
     case running runtime aid of
       None \<Rightarrow> raiseE (HTTPException 404)
     | Some v \<Rightarrow>
         thenE (liftR (raise_if (v \<noteq> version) (HTTPException 409)))
         (map_error (\<lambda>e. if e = AdapterE UntrustedAdapterError then HTTPException 403
                 else if e = GatewayE GatewayAdapterAlreadyExistsError then HTTPException 409 else e)
           (bindE (liftR (reg_require (trusted runtime) aid version)) (\<lambda>cap.
             on_db (register_adapter (gc_env C) (gc_fault C 2) i aid version (ac_supported_effect_types cap)))))))"

definition list_organization_adapters :: "'r gateway_context \<Rightarrow> string \<Rightarrow> ('r, gateway_adapter list) request" where
  "list_organization_adapters C i = scoped C i (\<lambda>_. on_db (list_adapters (gc_fault C 2) i))"

section \<open>The life of a session\<close>

datatype session_op = SIssue time string gateway_user | SGet time string | SRevoke string | SRevokeAll string

primrec session_step :: "time \<Rightarrow> session_store \<Rightarrow> session_op \<Rightarrow> session_store" where
  "session_step ttl st (SIssue now tok u) = snd (session_issue ttl now tok u st)"
| "session_step ttl st (SGet now tok) = snd (session_get now tok st)"
| "session_step ttl st (SRevoke tok) = session_revoke tok st"
| "session_step ttl st (SRevokeAll uid) = session_revoke_all_for_user uid st"

definition sessions_after :: "time \<Rightarrow> session_op list \<Rightarrow> session_store" where
  "sessions_after ttl ops = foldl (session_step ttl) Map.empty ops"

definition issued_session :: "time \<Rightarrow> time \<Rightarrow> string \<Rightarrow> gateway_user \<Rightarrow> gateway_session" where
  "issued_session ttl now tok u = fst (session_issue ttl now tok u Map.empty)"

text \<open>What ends a session: the token issued anew, revoked, or seen after it expired, or its user revoked.\<close>

primrec ends_session :: "string \<Rightarrow> gateway_session \<Rightarrow> session_op \<Rightarrow> bool" where
  "ends_session tok s (SIssue now tok' u) \<longleftrightarrow> tok' = tok"
| "ends_session tok s (SGet now tok') \<longleftrightarrow> tok' = tok \<and> ses_expires_at s \<le> now"
| "ends_session tok s (SRevoke tok') \<longleftrightarrow> tok' = tok"
| "ends_session tok s (SRevokeAll uid) \<longleftrightarrow> uid = ses_user_id s"

lemma session_step_Some:
  "session_step ttl st op tok = Some s \<longleftrightarrow>
     (\<exists>now u. op = SIssue now tok u \<and> s = issued_session ttl now tok u) \<or> st tok = Some s \<and> \<not> ends_session tok s op"
  by (cases op)
    (auto simp: session_issue_def issued_session_def Let_def session_get_def session_is_expired_def session_revoke_def
      session_revoke_all_for_user_def split: option.splits)

lemma sessions_after_snoc: "sessions_after ttl (ops @ [op]) = session_step ttl (sessions_after ttl ops) op"
  by (simp add: sessions_after_def)

lemma sessions_after_Some:
  "sessions_after ttl ops tok = Some s \<longleftrightarrow>
     (\<exists>before now u after. ops = before @ SIssue now tok u # after \<and> s = issued_session ttl now tok u
        \<and> (\<forall>op \<in> set after. \<not> ends_session tok s op))"
proof (induction ops rule: rev_induct)
  case Nil
  then show ?case by (simp add: sessions_after_def)
next
  case (snoc op ops)
  note IH = snoc.IH
  show ?case
  proof
    assume "sessions_after ttl (ops @ [op]) tok = Some s"
    then consider (new) now u where "op = SIssue now tok u" "s = issued_session ttl now tok u"
      | (old) "sessions_after ttl ops tok = Some s" "\<not> ends_session tok s op"
      by (auto simp: sessions_after_snoc session_step_Some)
    then show "\<exists>before now u after. ops @ [op] = before @ SIssue now tok u # after \<and> s = issued_session ttl now tok u
        \<and> (\<forall>op \<in> set after. \<not> ends_session tok s op)"
    proof cases
      case new
      then show ?thesis by fastforce
    next
      case old
      then obtain before now u after where "ops = before @ SIssue now tok u # after" "s = issued_session ttl now tok u"
          "\<forall>op \<in> set after. \<not> ends_session tok s op"
        using snoc.IH by blast
      with old(2) show ?thesis
        by (intro exI [of _ before] exI [of _ now] exI [of _ u] exI [of _ "after @ [op]"]) simp
    qed
  next
    assume "\<exists>before now u after. ops @ [op] = before @ SIssue now tok u # after \<and> s = issued_session ttl now tok u
        \<and> (\<forall>op \<in> set after. \<not> ends_session tok s op)"
    then obtain before now u after where a: "ops @ [op] = before @ SIssue now tok u # after" "s = issued_session ttl now tok u"
        "\<forall>op \<in> set after. \<not> ends_session tok s op"
      by blast
    then show "sessions_after ttl (ops @ [op]) tok = Some s"
    proof (cases after rule: rev_cases)
      case Nil
      then show ?thesis
        using a(1,2) unfolding sessions_after_snoc session_step_Some by simp
    next
      case (snoc ys x)
      then have "ops = before @ SIssue now tok u # ys" "x = op"
        using a(1) by simp_all
      moreover have "\<forall>op \<in> set ys. \<not> ends_session tok s op" "\<not> ends_session tok s x"
        using a(3) snoc by simp_all
      ultimately have "sessions_after ttl ops tok = Some s" "\<not> ends_session tok s op"
        using IH [THEN iffD2] a(2) by blast+
      then show ?thesis
        by (simp add: sessions_after_snoc session_step_Some)
    qed
  qed
qed

text \<open>A bearer token is honoured exactly while its session lives: after any history of the session store, a
  lookup at time \<open>t\<close> gives a session exactly when the history issued it for that token, \<open>t\<close> is before its
  expiry, and since then neither the token nor its user was revoked, the token was not issued again, and no
  lookup met it expired, so it does not come back when the clock is set back.\<close>

theorem session_valid_exact:
  "fst (session_get t tok (sessions_after ttl ops)) = Some s \<longleftrightarrow>
     (\<exists>before now u after. ops = before @ SIssue now tok u # after \<and> s = issued_session ttl now tok u \<and> t < now + ttl
        \<and> list_all (\<lambda>op. \<not> ends_session tok s op) after)"
proof -
  have "fst (session_get t tok st) = Some s \<longleftrightarrow> st tok = Some s \<and> t < ses_expires_at s" for st
    by (auto simp: session_get_def session_is_expired_def split: option.splits)
  moreover have "ses_expires_at (issued_session ttl now tok u) = now + ttl" for now u
    by (simp add: issued_session_def session_issue_def Let_def)
  ultimately show ?thesis
    by (simp add: sessions_after_Some list_all_iff) (metis)
qed

section \<open>Tenant isolation\<close>

lemma canonical_strip: "validate_canonical_org_id i = Inr v \<Longrightarrow> py_strip i = i \<and> v = i \<and> i \<noteq> []"
proof -
  assume v: "validate_canonical_org_id i = Inr v"
  then have c: "\<forall>c \<in> set i. \<not> ((of_char c :: nat) < 0x20 \<or> c = CHR 0x7F)" "ORG_ID_RE_match i" "i \<noteq> []" "v = i"
    by (auto simp: validate_canonical_org_id_def thenR_def result_simps)
  have "c \<noteq> CHR 0x0A" if "c \<in> set i" for c
    using c(1) that by force
  then have "before_final_newline i = i"
    using c(3) by (simp add: before_final_newline_def)
  then have "org_id_shape i"
    using c(2) by (simp add: ORG_ID_RE_match_def)
  then have "\<not> py_space c" if "c \<in> set i" for c
    using org_id_shape_chars [OF _ that] by (auto simp: org_char_def is_lower_char_def is_digit_char_def py_space_def less_eq_char_def)
  then have "py_strip i = i"
    using c(3) by (intro strip_none) auto
  with c(3,4) show ?thesis by simp
qed

lemma rename_error_Inr [monad_simps]: "rename_error p x m s = (Inr v, s') \<longleftrightarrow> m s = (Inr v, s')"
  by (auto simp: rename_error_def split: prod.splits sum.splits)

lemma map_error_Inr [monad_simps]: "map_error g m s = (Inr v, s') \<longleftrightarrow> m s = (Inr v, s')"
  by (auto simp: map_error_def split: prod.splits sum.splits)

lemma on_db_Inr [monad_simps]: "on_db m s = (Inr v, s') \<longleftrightarrow> (\<exists>db. m (gw_db s) = (Inr v, db) \<and> s' = s\<lparr>gw_db := db\<rparr>)"
  by (auto simp: on_db_def split: prod.splits)

lemma starts_with_append: "starts_with p s \<Longrightarrow> s = p @ drop (length p) s"
  by (metis append_take_drop_id starts_with_def)

lemma bearer_token_Inr: "bearer_token h = Inr tok \<Longrightarrow> h = Some (''Bearer '' @ tok)"
  using starts_with_append [of "''Bearer ''"] by (auto simp: bearer_token_def removeprefix_def split: option.splits if_splits)

lemma require_session_Inr:
  "require_gateway_session C s = (Inr u, s') \<Longrightarrow> \<exists>tok ses. gc_authorization C = Some (''Bearer '' @ tok) \<and> gw_sessions s tok = Some ses
     \<and> gc_clock C < ses_expires_at ses \<and> gu_org_id u = ses_org_id ses \<and> gu_user_id u = ses_user_id ses
     \<and> (\<exists>r \<in> set (db_users (gw_db s)). ur_user r = u) \<and> s' = s"
proof -
  assume a: "require_gateway_session C s = (Inr u, s')"
  then obtain tok where t: "bearer_token (gc_authorization C) = Inr tok"
    by (cases "bearer_token (gc_authorization C)") (auto simp: require_gateway_session_def monad_simps)
  then have b: "gc_authorization C = Some (''Bearer '' @ tok)"
    by (rule bearer_token_Inr)
  obtain ses where s: "gw_sessions s tok = Some ses" "gc_clock C < ses_expires_at ses"
      "on_db (get_user_by_id (gc_fault C 0) (ses_org_id ses) (ses_user_id ses)) s = (Inr u, s')"
    using a t by (auto simp: require_gateway_session_def monad_simps on_sessions_def session_get_def session_is_expired_def
        split: option.splits if_splits)
  then obtain r where "find (\<lambda>r. gu_org_id (ur_user r) = ses_org_id ses \<and> gu_user_id (ur_user r) = ses_user_id ses) (db_users (gw_db s)) = Some r"
      "ur_user r = u" "s' = s"
    by (auto simp: monad_simps get_user_by_id_def select_one_def user_of_row_def split: option.splits if_splits)
  with b s show ?thesis
    by (auto simp: find_Some_iff)
qed

lemma resolve_Inr:
  "resolve_org_runtime C u i s = (Inr r, s') \<Longrightarrow> validate_canonical_org_id i = Inr i \<and> gu_org_id u = i \<and> active_org (gw_db s) i
     \<and> (\<exists>t. gw_registry s i = Some t \<and> tn_status t = TenantActive) \<and> gw_states s i = Some r \<and> s' = s"
proof -
  assume a: "resolve_org_runtime C u i s = (Inr r, s')"
  then obtain v where v: "validate_canonical_org_id i = Inr v"
    by (cases "validate_canonical_org_id i") (auto simp: resolve_org_runtime_def assert_org_scope_def monad_simps)
  from a have "assert_user_belongs_to_organization u i = Inr ()" "active_org (gw_db s) i" "get_state i s = (Inr r, s')"
    by (auto simp: resolve_org_runtime_def assert_org_scope_def monad_simps active_org_def)
  then show ?thesis
    using canonical_strip [OF v] v
    by (auto simp: assert_user_belongs_to_organization_def result_simps raise_if_def get_state_def get_state_unchecked_def monad_simps
        require_active_tenant_def tr_require_def tr_get_def split: if_splits option.splits)
qed

text \<open>C35. A request reaches the runtime of an organization only for its own users: when the checks of a request
  give a runtime, the bearer token belongs to a session that has not expired and was issued for a user of
  exactly that organization, the user is still on record, the organization is active in the database and
  in the registry of tenants, and the runtime is that organization's.\<close>

theorem runtime_only_for_own_session:
  assumes "bindE (require_gateway_session C) (\<lambda>u. bindE (resolve_org_runtime C u i) (\<lambda>r. ret (u, r))) s = (Inr (u, r), s')"
  shows "\<exists>tok ses. gc_authorization C = Some (''Bearer '' @ tok) \<and> gw_sessions s tok = Some ses \<and> gc_clock C < ses_expires_at ses
     \<and> ses_org_id ses = i \<and> ses_user_id ses = gu_user_id u \<and> gu_org_id u = i \<and> (\<exists>row \<in> set (db_users (gw_db s)). ur_user row = u)
     \<and> active_org (gw_db s) i \<and> (\<exists>t. gw_registry s i = Some t \<and> tn_status t = TenantActive) \<and> gw_states s i = Some r \<and> s' = s"
proof -
  obtain s1 where "require_gateway_session C s = (Inr u, s1)" "resolve_org_runtime C u i s1 = (Inr r, s')"
    using assms by (auto simp: monad_simps)
  then show ?thesis
    using require_session_Inr [of C s u s1] resolve_Inr [of C u i s1 r s'] by fastforce
qed

definition demo_user :: gateway_user where
  "demo_user = \<lparr>gu_user_id = ''acme-owner'', gu_org_id = ''acme'', gu_email = ''a@acme'', gu_display_name = ''Ann'', gu_role = Owner, gu_created_at = 0\<rparr>"

definition demo_state :: "nat gateway_state" where
  "demo_state =
     \<lparr>gw_db = \<lparr>db_organizations = [\<lparr>go_org_id = ''acme'', go_name = ''Acme'', go_status = OrgActive, go_created_at = 0\<rparr>],
               db_users = [\<lparr>ur_user = demo_user, ur_password_hash = ''00secret'', ur_password_salt = ''00''\<rparr>], db_agents = [], db_adapters = []\<rparr>,
      gw_sessions = [''t'' \<mapsto> issued_session 100 0 ''t'' demo_user],
      gw_registry = [''acme'' \<mapsto> \<lparr>tn_tenant_id = ''acme'', tn_display_name = ''Acme'', tn_status = TenantActive, tn_created_at = Some 0\<rparr>],
      gw_states = [''acme'' \<mapsto> 7]\<rparr>"

definition demo_request_context :: "nat gateway_context" where
  "demo_request_context = \<lparr>gc_env = demo_env, gc_fault = (\<lambda>_ _. False), gc_clock = 50, gc_ttl = 100, gc_token = ''t2'',
     gc_authorization = Some ''Bearer t'', gc_dev_mode = False, gc_api_token = None, gc_build = (\<lambda>_. Inr 0)\<rparr>"

theorem runtime_only_for_own_session_witness:
  "\<exists>u tok ses. gw_sessions demo_state tok = Some ses \<and> ses_org_id ses = ''acme'' \<and> gu_org_id u = ''acme''
     \<and> bindE (require_gateway_session demo_request_context) (\<lambda>u. bindE (resolve_org_runtime demo_request_context u ''acme'') (\<lambda>r. ret (u, r))) demo_state
        = (Inr (u, 7), demo_state)"
proof -
  have v: "validate_canonical_org_id ''acme'' = Inr ''acme''" "py_strip ''acme'' = ''acme''"
    by code_simp+
  have r: "bindE (require_gateway_session demo_request_context) (\<lambda>u. bindE (resolve_org_runtime demo_request_context u ''acme'') (\<lambda>r. ret (u, r))) demo_state
        = (Inr (demo_user, 7), demo_state)"
    by (simp add: require_gateway_session_def bindE_def thenE_def liftR_def bearer_token_def removeprefix_def starts_with_def
        demo_request_context_def demo_state_def on_sessions_def session_get_def issued_session_def session_issue_def Let_def session_is_expired_def
        on_db_def get_user_by_id_def select_one_def user_of_row_def ret_def rename_error_def demo_user_def resolve_org_runtime_def
        assert_org_scope_def v map_error_def assert_user_belongs_to_organization_def raise_if_def require_active_organization_def
        get_organization_def org_is_active_def get_state_def get_state_unchecked_def getS_def require_active_tenant_def tr_require_def tr_get_def)
  show ?thesis
    using runtime_only_for_own_session [OF r] r by blast
qed

text \<open>An identifier of the form \<^verbatim>\<open><org>-owner\<close> that any organization has given to one of its users blocks the
  bootstrap of that organization for good: the organization is left on record, active and without a user
  or a tenant, and bootstrapping it again is refused.\<close>

lemma bootstrap_blocked:
  assumes "require_auth C = Inr ()" "bootstrap_validate b = Inr ()" "\<forall>n m. \<not> gc_fault C n m" "db_wf (gw_db s)"
    and "row \<in> set (db_users (gw_db s))" "gu_user_id (ur_user row) = bs_org_id b @ ''-owner''"
    and "bs_org_id b \<notin> go_org_id ` set (db_organizations (gw_db s))"
    and "is_ok (organization_validate \<lparr>go_org_id = bs_org_id b, go_name = bs_name b, go_status = OrgActive, go_created_at = ge_now (gc_env C)\<rparr>)"
    and "is_ok (gateway_user_validate \<lparr>gu_user_id = bs_org_id b @ ''-owner'', gu_org_id = bs_org_id b, gu_email = bs_owner_email b,
        gu_display_name = bs_owner_display_name b, gu_role = Owner, gu_created_at = ge_now (gc_env C)\<rparr>)"
  shows "\<exists>db. bootstrap_organization C b s = (Inl (HTTPException 409), s\<lparr>gw_db := db\<rparr>) \<and> active_org db (bs_org_id b)
    \<and> (\<forall>r \<in> set (db_users db). gu_org_id (ur_user r) \<noteq> bs_org_id b)
    \<and> bootstrap_organization C b (s\<lparr>gw_db := db\<rparr>) = (Inl (HTTPException 409), s\<lparr>gw_db := db\<rparr>)"
proof -
  let ?g = "\<lparr>go_org_id = bs_org_id b, go_name = bs_name b, go_status = OrgActive, go_created_at = ge_now (gc_env C)\<rparr>"
  define db where "db = gw_db s\<lparr>db_organizations := db_organizations (gw_db s) @ [?g]\<rparr>"
  have none: "find (\<lambda>g. go_org_id g = bs_org_id b) (db_organizations (gw_db s)) = None"
    using assms(7) by (metis (mono_tags, lifting) find_None_iff image_eqI)
  have find_snoc: "find p xs = None \<Longrightarrow> p x \<Longrightarrow> find p (xs @ [x]) = Some x" for p :: "organization \<Rightarrow> bool" and xs x
    by (induction xs) (auto split: if_splits)
  have active: "active_org db (bs_org_id b)"
    using find_snoc [OF none, of ?g] by (simp add: active_org_def db_def)
  have g: "create_organization (gc_env C) (gc_fault C 0) (bs_org_id b) (bs_name b) (gw_db s) = (Inr ?g, db)"
    using assms(3,7,8) by (auto simp: create_organization_def Let_def thenE_def bindE_def liftR_def insert_row_def is_ok_unit ret_def db_def)
  have again: "create_organization (gc_env C) (gc_fault C 0) (bs_org_id b) (bs_name b) db = (Inl (GatewayE OrganizationAlreadyExistsError), db)"
    using assms(3,8) by (auto simp: create_organization_def Let_def thenE_def bindE_def liftR_def insert_row_def is_ok_unit raiseE_def db_def)
  have u: "create_user (gc_env C) (gc_fault C 1) (bs_org_id b @ ''-owner'') (bs_org_id b) (bs_owner_email b) (bs_owner_display_name b)
      (bs_owner_password b) Owner db = (Inl (GatewayE GatewayUserAlreadyExistsError), db)"
    using assms(3,5,6,9) active by (intro user_id_taken_elsewhere [of row]) (auto simp: db_def)
  have "\<forall>r \<in> set (db_users db). gu_org_id (ur_user r) \<noteq> bs_org_id b"
    using assms(4,7) unfolding db_def db_wf_def by (metis (no_types, lifting) gateway_db.select_convs(2) gateway_db.surjective gateway_db.update_convs(1))
  then show ?thesis
    using assms(1,2) active g again u
    by (intro exI [of _ db]) (simp add: bootstrap_organization_def thenE_def bindE_def liftR_def rename_error_def on_db_def)
qed

text \<open>Only an owner of an organization adds a user to it, and only to it.\<close>

lemma only_owner_creates_users:
  assumes "create_organization_user C i b s = (Inr u, s')"
  shows "\<exists>w tok ses. gu_role w = Owner \<and> gu_org_id w = i \<and> (\<exists>r \<in> set (db_users (gw_db s)). ur_user r = w)
    \<and> gc_authorization C = Some (''Bearer '' @ tok) \<and> gw_sessions s tok = Some ses \<and> ses_user_id ses = gu_user_id w
    \<and> gu_org_id u = i"
proof -
  obtain v s1 where v: "require_gateway_session C s = (Inr v, s1)"
      "thenE (liftR (user_create_validate b)) (thenE (assert_org_scope C v i) (thenE (liftR (raise_if (gu_role v \<noteq> Owner) (HTTPException 403)))
        (map_error (\<lambda>e. if e = GatewayE GatewayUserAlreadyExistsError then HTTPException 409
               else if e = GatewayE OrganizationSuspendedError then HTTPException 403 else e)
        (on_db (create_user (gc_env C) (gc_fault C 2) (uc_user_id b) i (uc_email b) (uc_display_name b) (uc_password b) (uc_role b)))))) s1 = (Inr u, s')"
    using assms by (auto simp: create_organization_user_def monad_simps)
  from v(2) have "gu_org_id v = i" "gu_role v = Owner" "gu_org_id u = i"
    by (auto simp: monad_simps assert_org_scope_def assert_user_belongs_to_organization_def raise_if_def create_user_def Let_def
        split: if_splits)
  then show ?thesis
    using require_session_Inr [OF v(1)] by fastforce
qed

section \<open>Restart\<close>

text \<open>What a successful start restores.\<close>

lemma rehydrate_restores:
  assumes "rehydrate_organizations C rehydrate gs s = (Inr (), s')" "distinct (map go_org_id gs)"
    and "\<forall>g \<in> set gs. gw_registry s (go_org_id g) = None"
  shows "(\<forall>g \<in> set gs. \<exists>t r r'. gw_registry s' (go_org_id g) = Some t \<and> (tn_status t = TenantActive \<longleftrightarrow> go_status g = OrgActive)
      \<and> gc_build C (go_org_id g) = Inr r \<and> rehydrate (go_org_id g) r = Inr r' \<and> gw_states s' (go_org_id g) = Some r')
    \<and> (\<forall>i. i \<notin> go_org_id ` set gs \<longrightarrow> gw_registry s' i = gw_registry s i \<and> gw_states s' i = gw_states s i)"
  using assms
proof (induction gs arbitrary: s)
  case Nil
  then show ?case by (simp add: monad_simps)
next
  case (Cons g gs)
  let ?st = "if go_status g = OrgSuspended then TenantSuspended else TenantActive"
  have new: "gw_registry s (go_org_id g) = None"
    using Cons.prems(3) by simp
  obtain t where t: "tenant_new (go_org_id g) (go_name g) ?st (Some (go_created_at g)) = Inr t"
    using Cons.prems(1) new
    by (cases "tenant_new (go_org_id g) (go_name g) ?st (Some (go_created_at g))") (auto simp: monad_simps tr_get_def)
  then have i: "tn_tenant_id t = go_org_id g" "tn_status t = ?st"
    by (auto simp: tenant_new_def thenR_def result_simps)
  obtain r where r: "build_state C (go_org_id g) = Inr r"
    using Cons.prems(1) new t i
    by (cases "build_state C (go_org_id g)") (auto simp: monad_simps tr_get_def create_tenant_def Let_def)
  define s1 where "s1 = s\<lparr>gw_registry := (gw_registry s)(go_org_id g := Some t), gw_states := (gw_states s)(go_org_id g := Some r)\<rparr>"
  have c: "create_tenant C t s = (Inr t, s1)" "get_state_unchecked (go_org_id g) s1 = (Inr r, s1)"
    using new i r by (simp_all add: create_tenant_def tr_get_def tr_register_def s1_def get_state_unchecked_def bindE_def getS_def ret_def)
  obtain r' where r': "rehydrate (go_org_id g) r = Inr r'"
    using Cons.prems(1) new t c
    by (cases "rehydrate (go_org_id g) r") (auto simp: tr_get_def thenE_def bindE_def getS_def liftR_def)
  define s2 where "s2 = s\<lparr>gw_registry := (gw_registry s)(go_org_id g := Some t), gw_states := (gw_states s)(go_org_id g := Some r')\<rparr>"
  have rest: "rehydrate_organizations C rehydrate gs s2 = (Inr (), s')"
    using Cons.prems(1) new t c r' by (simp add: tr_get_def thenE_def bindE_def getS_def liftR_def modS_def s1_def s2_def)
  have new_id: "go_org_id g \<notin> go_org_id ` set gs" and d: "distinct (map go_org_id gs)"
    using Cons.prems(2) by simp_all
  have "gw_registry s2 (go_org_id g') = None" if "g' \<in> set gs" for g'
    using Cons.prems(3) new_id that by (cases "go_org_id g' = go_org_id g") (simp_all add: s2_def image_eqI [of _ go_org_id g'])
  then have "\<forall>g' \<in> set gs. gw_registry s2 (go_org_id g') = None"
    by blast
  note IH = Cons.IH [OF rest d this]
  have "gw_registry s' (go_org_id g) = Some t" "gw_states s' (go_org_id g) = Some r'"
    using IH new_id by (simp_all add: s2_def)
  moreover have "gc_build C (go_org_id g) = Inr r"
    using r by (auto simp: build_state_def thenR_def result_simps)
  moreover have "tn_status t = TenantActive \<longleftrightarrow> go_status g = OrgActive"
    using i(2) by (cases "go_status g") simp_all
  ultimately show ?case
    using IH r' by (auto simp: s2_def)
qed

text \<open>C36. A start that succeeds gives every organization on record its own runtime back: for each there is a
  tenant in the registry, active exactly when the organization is, and a runtime that was built for it and
  restored from its own records; nothing else is in the registry.\<close>

theorem restart_restores_organizations:
  assumes "rehydrate_tenant_registrations C rehydrate s = (Inr (), s')" and "db_wf (gw_db s)"
    and "gw_registry s = Map.empty" "gw_states s = Map.empty"
  shows "\<forall>i. case find (\<lambda>g. go_org_id g = i) (db_organizations (gw_db s)) of
      None \<Rightarrow> gw_registry s' i = None \<and> gw_states s' i = None
    | Some g \<Rightarrow> \<exists>t r r'. gw_registry s' i = Some t \<and> (tn_status t = TenantActive \<longleftrightarrow> go_status g = OrgActive)
        \<and> gc_build C i = Inr r \<and> rehydrate i r = Inr r' \<and> gw_states s' i = Some r'"
proof -
  let ?gs = "sort_key go_org_id (db_organizations (gw_db s))"
  have "rehydrate_organizations C rehydrate ?gs s = (Inr (), s')"
    using assms(1) by (auto simp: rehydrate_tenant_registrations_def monad_simps list_organizations_def select_all_def split: if_splits)
  moreover have "distinct (map go_org_id ?gs)"
    using assms(2) by (simp add: db_wf_def distinct_map)
  ultimately have r: "\<forall>g \<in> set (db_organizations (gw_db s)). \<exists>t r r'. gw_registry s' (go_org_id g) = Some t
        \<and> (tn_status t = TenantActive \<longleftrightarrow> go_status g = OrgActive)
        \<and> gc_build C (go_org_id g) = Inr r \<and> rehydrate (go_org_id g) r = Inr r' \<and> gw_states s' (go_org_id g) = Some r'"
      "\<forall>i. i \<notin> go_org_id ` set (db_organizations (gw_db s)) \<longrightarrow> gw_registry s' i = None \<and> gw_states s' i = None"
    using rehydrate_restores [of C rehydrate ?gs s s'] assms(3,4) by simp_all
  show ?thesis
  proof
    fix i
    show "case find (\<lambda>g. go_org_id g = i) (db_organizations (gw_db s)) of None \<Rightarrow> gw_registry s' i = None \<and> gw_states s' i = None
      | Some g \<Rightarrow> \<exists>t r r'. gw_registry s' i = Some t \<and> (tn_status t = TenantActive \<longleftrightarrow> go_status g = OrgActive)
        \<and> gc_build C i = Inr r \<and> rehydrate i r = Inr r' \<and> gw_states s' i = Some r'"
    proof (cases "find (\<lambda>g. go_org_id g = i) (db_organizations (gw_db s))")
      case None
      then have "i \<notin> go_org_id ` set (db_organizations (gw_db s))"
        by (auto simp: find_None_iff)
      then show ?thesis
        using r(2) None by simp
    next
      case (Some g)
      then have "g \<in> set (db_organizations (gw_db s))" "go_org_id g = i"
        by (auto simp: find_Some_iff)
      then show ?thesis
        using r(1) Some by fastforce
    qed
  qed
qed

theorem restart_restores_organizations_witness:
  "\<exists>s' t. rehydrate_tenant_registrations demo_request_context (\<lambda>i n. Inr (n + 5)) (demo_state\<lparr>gw_registry := Map.empty, gw_states := Map.empty\<rparr>) = (Inr (), s')
     \<and> gw_registry s' ''acme'' = Some t \<and> tn_status t = TenantActive \<and> gw_states s' ''acme'' = Some 5"
proof -
  let ?s = "demo_state\<lparr>gw_registry := Map.empty, gw_states := Map.empty\<rparr>"
  have v: "validate_canonical_org_id ''acme'' = Inr ''acme''"
    by code_simp
  obtain s' where r: "rehydrate_tenant_registrations demo_request_context (\<lambda>i n. Inr (n + 5)) ?s = (Inr (), s')"
    by (simp add: rehydrate_tenant_registrations_def bindE_def on_db_def list_organizations_def select_all_def demo_request_context_def
        demo_state_def thenE_def getS_def tr_get_def liftR_def tenant_new_def v thenR_def raise_if_def create_tenant_def Let_def build_state_def
        get_state_unchecked_def ret_def modS_def)
  have "db_wf (gw_db ?s)"
    by (simp add: demo_state_def db_wf_def demo_user_def organization_validate_def gateway_user_validate_def gw_nonempty_def gw_email_def raise_if_def)
  then show ?thesis
    using restart_restores_organizations [OF r, THEN spec, of "''acme''"] r
    by (auto simp: demo_state_def demo_request_context_def)
qed

end
