(* ===== verification/Refunds.thy ===== *)
theory Refunds
  imports EngineSafety Gateway
begin

text \<open>
  The refund journey of one organization (\<^verbatim>\<open>gateway/refunds.py\<close>, \<^verbatim>\<open>gateway/refund_state.py\<close>, the
  dictionaries of \<^verbatim>\<open>api/state.py\<close>): propose, approve, deny, execute, verify, recover, compensate, and the
  activation of a risk policy, as the gateway composes them from the engine, the payment simulator and
  its durable copy of the journey.

  A handler is what a route does once the checks of \<open>Gateway\<close> have given it the user and the runtime.
  Its state is \<open>refund_world\<close>: the engine, the provider, the dictionaries, and the rows the store holds
  for the organization by bucket and key.  A dictionary whose entries are lists is a function that gives
  the empty list for a missing key, as every reader takes it.  The adapter is the payment simulator, and
  the clock and the identifiers a handler draws itself come from the same environment as the engine's.
  A row holds the value that was written; its form as JSON is left out.
\<close>

section \<open>State\<close>

datatype refund_item =
    ISealedManifest sealed_manifest
  | IAssessment effect_assessment
  | IGrant execution_grant
  | IGrantIds "string list"
  | ICommitResult commit_result
  | IOutcomeProof outcome_proof
  | IPolicyBundle sealed_policy_bundle
  | IApprovalStatements "approval_statement list"
  | IActivePolicyBundleId "string option"

datatype bucket = BSealedManifest | BAssessment | BGrant | BGrantsByManifest | BCommitResult | BOutcomeProof | BPolicyBundle
  | BApprovalPolicyBundle | BAssessmentPolicyBundle | BApprovalStatements | BActivePolicyBundleId

type_synonym refund_store = "bucket \<Rightarrow> string \<Rightarrow> refund_item option"

record refund_dicts =
  rd_sealed_manifests :: "string \<Rightarrow> sealed_manifest option"
  rd_grants :: "string \<Rightarrow> execution_grant option"
  rd_grants_by_manifest :: "string \<Rightarrow> string list"
  rd_commit_results :: "string \<Rightarrow> commit_result option"
  rd_outcome_proofs :: "string \<Rightarrow> outcome_proof option"
  rd_assessments :: "string \<Rightarrow> effect_assessment option"
  rd_policy_bundles :: "(string \<times> sealed_policy_bundle) list"
  rd_assessment_policy_bundles :: "string \<Rightarrow> sealed_policy_bundle option"
  rd_approval_policy_bundles :: "string \<Rightarrow> sealed_policy_bundle option"
  rd_approval_statements :: "string \<Rightarrow> approval_statement list"
  rd_active_policy_bundle_id :: "string option"

definition no_refunds :: refund_dicts where
  "no_refunds = \<lparr>rd_sealed_manifests = Map.empty, rd_grants = Map.empty, rd_grants_by_manifest = (\<lambda>_. []), rd_commit_results = Map.empty,
     rd_outcome_proofs = Map.empty, rd_assessments = Map.empty, rd_policy_bundles = [], rd_assessment_policy_bundles = Map.empty,
     rd_approval_policy_bundles = Map.empty, rd_approval_statements = (\<lambda>_. []), rd_active_policy_bundle_id = None\<rparr>"

record ('s, 'l, 'o) refund_world =
  rw_engine :: "('s, 'l, 'o) engine"
  rw_simulator :: payment_simulator
  rw_dicts :: refund_dicts
  rw_store :: refund_store

record ('s, 'l, 'o) refund_context =
  rc_engine :: "('s, 'l, 'o) engine_context"
  rc_org_id :: string
  rc_signing_key :: signing_key
  rc_text :: text_ops
  rc_bound_policy :: intelligence_policy
  rc_put_fault :: "nat \<Rightarrow> bool"

type_synonym ('s, 'l, 'o, 'a) refund_handler = "(('s, 'l, 'o) refund_world, 'a) sem"

definition on_engine :: "('s, 'l, 'o, 'a) handler \<Rightarrow> ('s, 'l, 'o, 'a) refund_handler" where
  "on_engine h = (\<lambda>w. case h (rw_engine w) of (r, s) \<Rightarrow> (r, w\<lparr>rw_engine := s\<rparr>))"

definition dict :: "(refund_dicts \<Rightarrow> 'a) \<Rightarrow> ('s, 'l, 'o, 'a) refund_handler" where
  "dict f = getS (\<lambda>w. f (rw_dicts w))"

definition set_dict :: "(refund_dicts \<Rightarrow> refund_dicts) \<Rightarrow> ('s, 'l, 'o, unit) refund_handler" where
  "set_dict f = modS (\<lambda>w. w\<lparr>rw_dicts := f (rw_dicts w)\<rparr>)"

abbreviation rnow :: "('s, 'l, 'o) refund_context \<Rightarrow> ('s, 'l, 'o, time) refund_handler" where
  "rnow R \<equiv> on_engine (clock_now (rc_engine R))"

abbreviation ruuid :: "('s, 'l, 'o) refund_context \<Rightarrow> ('s, 'l, 'o, string) refund_handler" where
  "ruuid R \<equiv> on_engine (uuid4 (rc_engine R))"

text \<open>\<^verbatim>\<open>try: m except KarmaSakshiError: raise HTTPException(code)\<close>, and a lookup that must succeed.\<close>

definition ks_as :: "int \<Rightarrow> ('w, 'a) sem \<Rightarrow> ('w, 'a) sem" where
  "ks_as code m = rename_error is_ks (HTTPException code) m"

definition must :: "int \<Rightarrow> 'a option \<Rightarrow> ('w, 'a) sem" where
  "must code x = (case x of None \<Rightarrow> raiseE (HTTPException code) | Some v \<Rightarrow> ret v)"

definition reject_if :: "bool \<Rightarrow> int \<Rightarrow> ('w, unit) sem" where
  "reject_if c code = whenE c (raiseE (HTTPException code))"

section \<open>Persistence\<close>

definition put_refund_state :: "('s, 'l, 'o) refund_context \<Rightarrow> bucket \<Rightarrow> string \<Rightarrow> refund_item \<Rightarrow> ('s, 'l, 'o, unit) refund_handler" where
  "put_refund_state R b k x = bindE (on_engine (fresh (rc_put_fault R))) (\<lambda>fails.
     if fails then raiseE (StoreE StoreUnavailableError)
     else modS (\<lambda>w. w\<lparr>rw_store := (rw_store w)(b := (rw_store w b)(k := Some x))\<rparr>))"

definition persist_sealed_manifest :: "('s, 'l, 'o) refund_context \<Rightarrow> sealed_manifest \<Rightarrow> ('s, 'l, 'o, unit) refund_handler" where
  "persist_sealed_manifest R sealed = put_refund_state R BSealedManifest (m_manifest_id (sm_manifest sealed)) (ISealedManifest sealed)"

definition persist_assessment :: "('s, 'l, 'o) refund_context \<Rightarrow> string \<Rightarrow> effect_assessment \<Rightarrow> ('s, 'l, 'o, unit) refund_handler" where
  "persist_assessment R mid a = put_refund_state R BAssessment mid (IAssessment a)"

definition persist_grant_and_index :: "('s, 'l, 'o) refund_context \<Rightarrow> string \<Rightarrow> execution_grant \<Rightarrow> string list
    \<Rightarrow> ('s, 'l, 'o, unit) refund_handler" where
  "persist_grant_and_index R mid g ids =
     thenE (put_refund_state R BGrant (g_grant_id g) (IGrant g)) (put_refund_state R BGrantsByManifest mid (IGrantIds ids))"

definition persist_commit_result :: "('s, 'l, 'o) refund_context \<Rightarrow> string \<Rightarrow> commit_result \<Rightarrow> ('s, 'l, 'o, unit) refund_handler" where
  "persist_commit_result R mid r = put_refund_state R BCommitResult mid (ICommitResult r)"

definition persist_outcome_proof :: "('s, 'l, 'o) refund_context \<Rightarrow> string \<Rightarrow> outcome_proof \<Rightarrow> ('s, 'l, 'o, unit) refund_handler" where
  "persist_outcome_proof R mid p = put_refund_state R BOutcomeProof mid (IOutcomeProof p)"

definition persist_policy_bundle :: "('s, 'l, 'o) refund_context \<Rightarrow> string \<Rightarrow> sealed_policy_bundle \<Rightarrow> ('s, 'l, 'o, unit) refund_handler" where
  "persist_policy_bundle R bid b = put_refund_state R BPolicyBundle bid (IPolicyBundle b)"

definition persist_active_policy_bundle_id :: "('s, 'l, 'o) refund_context \<Rightarrow> string option \<Rightarrow> ('s, 'l, 'o, unit) refund_handler" where
  "persist_active_policy_bundle_id R bid = put_refund_state R BActivePolicyBundleId ''_'' (IActivePolicyBundleId bid)"

definition persist_approval_policy_bundle :: "('s, 'l, 'o) refund_context \<Rightarrow> string \<Rightarrow> sealed_policy_bundle
    \<Rightarrow> ('s, 'l, 'o, unit) refund_handler" where
  "persist_approval_policy_bundle R mid b = put_refund_state R BApprovalPolicyBundle mid (IPolicyBundle b)"

definition persist_assessment_policy_bundle :: "('s, 'l, 'o) refund_context \<Rightarrow> string \<Rightarrow> sealed_policy_bundle
    \<Rightarrow> ('s, 'l, 'o, unit) refund_handler" where
  "persist_assessment_policy_bundle R mid b = put_refund_state R BAssessmentPolicyBundle mid (IPolicyBundle b)"

definition persist_approval_statements :: "('s, 'l, 'o) refund_context \<Rightarrow> string \<Rightarrow> approval_statement list
    \<Rightarrow> ('s, 'l, 'o, unit) refund_handler" where
  "persist_approval_statements R mid ss = put_refund_state R BApprovalStatements mid (IApprovalStatements ss)"

text \<open>The dictionaries rebuilt from the rows.  The policy bundles come back in some order, here that of
  \<open>order\<close>, which lists the keys of their bucket.\<close>

definition load :: "(refund_item \<Rightarrow> 'a option) \<Rightarrow> refund_store \<Rightarrow> bucket \<Rightarrow> string \<Rightarrow> 'a option" where
  "load f st b k = (case st b k of None \<Rightarrow> None | Some x \<Rightarrow> f x)"

definition as_sealed_manifest :: "refund_item \<Rightarrow> sealed_manifest option" where
  "as_sealed_manifest i = (case i of ISealedManifest x \<Rightarrow> Some x | _ \<Rightarrow> None)"

definition as_assessment :: "refund_item \<Rightarrow> effect_assessment option" where
  "as_assessment i = (case i of IAssessment x \<Rightarrow> Some x | _ \<Rightarrow> None)"

definition as_grant :: "refund_item \<Rightarrow> execution_grant option" where
  "as_grant i = (case i of IGrant x \<Rightarrow> Some x | _ \<Rightarrow> None)"

definition as_grant_ids :: "refund_item \<Rightarrow> string list option" where
  "as_grant_ids i = (case i of IGrantIds x \<Rightarrow> Some x | _ \<Rightarrow> None)"

definition as_commit_result :: "refund_item \<Rightarrow> commit_result option" where
  "as_commit_result i = (case i of ICommitResult x \<Rightarrow> Some x | _ \<Rightarrow> None)"

definition as_outcome_proof :: "refund_item \<Rightarrow> outcome_proof option" where
  "as_outcome_proof i = (case i of IOutcomeProof x \<Rightarrow> Some x | _ \<Rightarrow> None)"

definition as_policy_bundle :: "refund_item \<Rightarrow> sealed_policy_bundle option" where
  "as_policy_bundle i = (case i of IPolicyBundle x \<Rightarrow> Some x | _ \<Rightarrow> None)"

definition as_statements :: "refund_item \<Rightarrow> approval_statement list option" where
  "as_statements i = (case i of IApprovalStatements x \<Rightarrow> Some x | _ \<Rightarrow> None)"

definition as_active_id :: "refund_item \<Rightarrow> string option option" where
  "as_active_id i = (case i of IActivePolicyBundleId x \<Rightarrow> Some x | _ \<Rightarrow> None)"

definition or_empty :: "'a list option \<Rightarrow> 'a list" where
  "or_empty x = (case x of None \<Rightarrow> [] | Some l \<Rightarrow> l)"

definition rehydrate_refund_state :: "string list \<Rightarrow> refund_store \<Rightarrow> refund_dicts" where
  "rehydrate_refund_state order st =
     \<lparr>rd_sealed_manifests = load as_sealed_manifest st BSealedManifest,
      rd_grants = load as_grant st BGrant,
      rd_grants_by_manifest = (\<lambda>k. or_empty (load as_grant_ids st BGrantsByManifest k)),
      rd_commit_results = load as_commit_result st BCommitResult,
      rd_outcome_proofs = load as_outcome_proof st BOutcomeProof,
      rd_assessments = load as_assessment st BAssessment,
      rd_policy_bundles = List.map_filter (\<lambda>k. map_option (Pair k) (load as_policy_bundle st BPolicyBundle k)) order,
      rd_assessment_policy_bundles = load as_policy_bundle st BAssessmentPolicyBundle,
      rd_approval_policy_bundles = load as_policy_bundle st BApprovalPolicyBundle,
      rd_approval_statements = (\<lambda>k. or_empty (load as_statements st BApprovalStatements k)),
      rd_active_policy_bundle_id = (case load as_active_id st BActivePolicyBundleId ''_'' of None \<Rightarrow> None | Some x \<Rightarrow> x)\<rparr>"

section \<open>The policy of the organization\<close>

definition human :: "string \<Rightarrow> principal res" where
  "human i = (let p = \<lparr>principal_id = i, principal_type = HUMAN, display_name = None\<rparr> in thenR (principal_validate p) (Inr p))"

definition agent :: "string \<Rightarrow> principal res" where
  "agent i = (let p = \<lparr>principal_id = i, principal_type = AGENT, display_name = None\<rparr> in thenR (principal_validate p) (Inr p))"

definition quorum_service :: principal where
  "quorum_service = \<lparr>principal_id = ''gateway-quorum-service'', principal_type = SERVICE, display_name = None\<rparr>"

definition active_policy_bundle :: "('s, 'l, 'o) refund_context \<Rightarrow> ('s, 'l, 'o, sealed_policy_bundle option) refund_handler" where
  "active_policy_bundle R = bindE (dict rd_active_policy_bundle_id) (\<lambda>active. case active of
      None \<Rightarrow> ret None
    | Some bid \<Rightarrow>
        bindE (dict rd_policy_bundles) (\<lambda>bundles.
        bindE (must 500 (map_of bundles bid)) (\<lambda>b.
        bindE (rnow R) (\<lambda>t.
        thenE (ks_as 409 (liftR (verify_policy_bundle (ctx_crypto (rc_engine R)) b (ctx_keyring (rc_engine R)) t (Some POLICY_TYPE_INTELLIGENCE))))
          (ret (Some b))))))"

definition policy_bundle_by_hash :: "(string \<times> sealed_policy_bundle) list \<Rightarrow> string \<Rightarrow> sealed_policy_bundle option" where
  "policy_bundle_by_hash bundles h = find (\<lambda>b. ps_bundle_hash (spb_seal b) = h) (map snd bundles)"

record policy_activate =
  pa_bundle_id :: string
  pa_block_threshold :: int
  pa_review_threshold :: int
  pa_effective_seconds :: int

definition activate_policy :: "('s, 'l, 'o) refund_context \<Rightarrow> gateway_user \<Rightarrow> policy_activate \<Rightarrow> ('s, 'l, 'o, string \<times> string) refund_handler" where
  "activate_policy R u b =
     thenE (reject_if (gu_role u \<noteq> Owner) 403)
     (bindE (rnow R) (\<lambda>now.
      let policy = DEFAULT_INTELLIGENCE_POLICY\<lparr>ip_policy_id := pa_bundle_id b, ip_block_threshold := pa_block_threshold b,
                     ip_review_threshold := pa_review_threshold b\<rparr> in
      thenE (liftR (intelligence_policy_validate policy))
      (bindE (ks_as 422 (bindE (liftR (human (gu_user_id u))) (\<lambda>issuer.
         bindE (liftR (build_intelligence_bundle (rc_text R) policy (pa_bundle_id b) ''1.0'' issuer now now
            (Some (now + pa_effective_seconds b * second)) (Some (rc_org_id R)))) (\<lambda>bundle.
         bindE (rnow R) (\<lambda>t. liftR (seal_policy_bundle (ctx_crypto (rc_engine R)) bundle (rc_signing_key R) t)))))) (\<lambda>sealed.
       thenE (set_dict (\<lambda>d. d\<lparr>rd_policy_bundles := AList.update (pa_bundle_id b) sealed (rd_policy_bundles d),
                              rd_active_policy_bundle_id := Some (pa_bundle_id b)\<rparr>))
       (thenE (persist_policy_bundle R (pa_bundle_id b) sealed)
       (thenE (persist_active_policy_bundle_id R (Some (pa_bundle_id b)))
         (ret (pa_bundle_id b, ps_bundle_hash (spb_seal sealed)))))))))"

section \<open>Propose\<close>

record refund_propose =
  rp_agent_id :: string
  rp_requested_by :: string
  rp_source_account :: string
  rp_beneficiary :: string
  rp_amount_minor_units :: int
  rp_currency :: string
  rp_reference :: string
  rp_idempotency_key :: string

definition propose_validate :: "refund_propose \<Rightarrow> unit res" where
  "propose_validate b = unprocessable (thenR (validate_principal_safe_id (rp_agent_id b)) (validate_principal_safe_id (rp_requested_by b)))"

definition required_approvals_for :: "effect_assessment \<Rightarrow> int" where
  "required_approvals_for a = max 1 (as_required_human_approvals a)"

definition quorum_policy :: "string \<Rightarrow> effect_assessment \<Rightarrow> approval_policy" where
  "quorum_policy mid a = DEFAULT_APPROVAL_POLICY\<lparr>aq_policy_id := ''refund-quorum-'' @ mid, aq_required_approvals := required_approvals_for a\<rparr>"

text \<open>The adapter of the provider as it is now.\<close>

definition payment_now :: "('s, 'l, 'o) refund_context \<Rightarrow> ('s, 'l, 'o, effect_adapter) refund_handler" where
  "payment_now R = bindE (rnow R) (\<lambda>t. getS (\<lambda>w. payment_adapter (rw_simulator w) t (Inl (OtherError ''no request''))))"

definition payment_for :: "('s, 'l, 'o) refund_context \<Rightarrow> payment_request \<Rightarrow> ('s, 'l, 'o, effect_adapter) refund_handler" where
  "payment_for R q = bindE (rnow R) (\<lambda>t. bindE (ruuid R) (\<lambda>u. bindE (ruuid R) (\<lambda>n.
     getS (\<lambda>w. payment_adapter (rw_simulator w) t (payment_prepare (rw_simulator w) t u n q)))))"

definition propose_refund :: "('s, 'l, 'o) refund_context \<Rightarrow> refund_propose
    \<Rightarrow> ('s, 'l, 'o, string \<times> string \<times> effect_assessment) refund_handler" where
  "propose_refund R b =
     bindE (liftR (agent (rp_agent_id b))) (\<lambda>actor. bindE (liftR (human (rp_requested_by b))) (\<lambda>requester.
     let q = \<lparr>rq_actor = actor, rq_principal = requester, rq_source_account = rp_source_account b, rq_beneficiary = rp_beneficiary b,
              rq_amount_minor_units = rp_amount_minor_units b, rq_currency = rp_currency b, rq_reference = rp_reference b,
              rq_fee_minor_units = 0, rq_idempotency_key = rp_idempotency_key b, rq_ttl_seconds = 300\<rparr> in
     bindE (active_policy_bundle R) (\<lambda>active.
     bindE (liftR (case active of None \<Rightarrow> Inr None
         | Some sb \<Rightarrow> bindR (policy_from_bundle_payload (rc_text R) (pb_payload (spb_bundle sb))) (\<lambda>p. Inr (Some p)))) (\<lambda>policy.
     bindE (ks_as 422
        (bindE (payment_for R q) (\<lambda>adapter.
         bindE (on_engine (prepare (rc_engine R) adapter)) (\<lambda>m.
         bindE (on_engine (seal (rc_engine R) m (rc_signing_key R))) (\<lambda>sealed.
         bindE (on_engine (assess (rc_engine R) (rc_text R) (rc_bound_policy R) m None policy)) (\<lambda>a. ret (m, sealed, a))))))) (\<lambda>(m, sealed, a).
     let mid = m_manifest_id m in
     thenE (set_dict (\<lambda>d. d\<lparr>rd_sealed_manifests := (rd_sealed_manifests d)(mid := Some sealed), rd_assessments := (rd_assessments d)(mid := Some a)\<rparr>))
     (thenE (case active of None \<Rightarrow> ret () | Some sb \<Rightarrow>
        set_dict (\<lambda>d. d\<lparr>rd_assessment_policy_bundles := (rd_assessment_policy_bundles d)(mid := Some sb)\<rparr>))
     (bindE (rnow R) (\<lambda>now.
      thenE (liftR (approval_policy_validate (quorum_policy mid a)))
      (bindE (liftR (build_approval_policy_bundle (quorum_policy mid a) (''refund-quorum-'' @ mid) ''1.0'' quorum_service now now None
          (Some (rc_org_id R)))) (\<lambda>bundle.
      bindE (rnow R) (\<lambda>t.
      bindE (liftR (seal_policy_bundle (ctx_crypto (rc_engine R)) bundle (rc_signing_key R) t)) (\<lambda>quorum_bundle.
      thenE (set_dict (\<lambda>d. d\<lparr>rd_approval_policy_bundles := (rd_approval_policy_bundles d)(mid := Some quorum_bundle)\<rparr>))
      (thenE (persist_sealed_manifest R sealed)
      (thenE (persist_assessment R mid a)
      (thenE (persist_approval_policy_bundle R mid quorum_bundle)
      (thenE (case active of None \<Rightarrow> ret () | Some sb \<Rightarrow> persist_assessment_policy_bundle R mid sb)
        (ret (mid, s_manifest_hash (sm_seal sealed), a))))))))))))))))))"

section \<open>Approve and deny\<close>

definition is_denial :: "string \<Rightarrow> audit_event \<Rightarrow> bool" where
  "is_denial mid e \<longleftrightarrow> ae_manifest_id e = Some mid \<and> ae_event_type e = ''manifest.authorization_denied''"

definition denial_event :: "('s, 'l, 'o) refund_world \<Rightarrow> string \<Rightarrow> audit_event option" where
  "denial_event w mid = find (\<lambda>e. ae_event_type e = ''manifest.authorization_denied'')
     (rev (events_for_manifest am_ops (e_journal (rw_engine w)) mid))"

record approval_answer =
  an_grant_id :: "string option"
  an_policy_bundle_hash :: "string option"
  an_completed :: nat
  an_required :: int

definition statement_args :: "string \<Rightarrow> string \<Rightarrow> string \<Rightarrow> principal \<Rightarrow> time \<Rightarrow> string \<Rightarrow> approval_statement" where
  "statement_args i mh ph approver expires nonce =
     \<lparr>st_schema_version = [], st_statement_id = i, st_manifest_hash = mh, st_approval_policy_bundle_hash = ph, st_approver = approver,
      st_role = None, st_decision = Approve, st_reason = None, st_signed_at = 0, st_expires_at = expires, st_nonce = nonce,
      st_key_id = [], st_algorithm = [], st_signature = None\<rparr>"

definition refund_grant_args :: "('s, 'l, 'o) refund_context \<Rightarrow> principal \<Rightarrow> sealed_manifest \<Rightarrow> time \<Rightarrow> int
    \<Rightarrow> sealed_policy_bundle option \<Rightarrow> authorize_args" where
  "refund_grant_args R issuer sealed now ttl pb =
     \<lparr>aa_issuer = issuer, aa_subject = m_actor (sm_manifest sealed), aa_audience = [''payment.simulator''],
      aa_allowed_effect_types = [m_effect_type (sm_manifest sealed)], aa_scope = unrestricted, aa_not_before = now,
      aa_expires_at = now + ttl * second, aa_signing_key = rc_signing_key R, aa_grant_id = [], aa_nonce = [], aa_max_uses = 1,
      aa_parent_grant_id = None, aa_authority_budget_id = None, aa_policy_bundle = pb, aa_separation_policy_bundle = None,
      aa_role_assignment = None\<rparr>"

definition register_grant :: "string \<Rightarrow> execution_grant \<Rightarrow> ('s, 'l, 'o, unit) refund_handler" where
  "register_grant mid g = set_dict (\<lambda>d. d\<lparr>rd_grants := (rd_grants d)(g_grant_id g := Some g),
     rd_grants_by_manifest := (rd_grants_by_manifest d)(mid := rd_grants_by_manifest d mid @ [g_grant_id g])\<rparr>)"

text \<open>The statement of one user, and then, once there are enough, the grant.\<close>

definition sign_refund_approval :: "('s, 'l, 'o) refund_context \<Rightarrow> gateway_user \<Rightarrow> sealed_manifest \<Rightarrow> sealed_policy_bundle \<Rightarrow> time \<Rightarrow> int
    \<Rightarrow> ('s, 'l, 'o, approval_statement) refund_handler" where
  "sign_refund_approval R u sealed quorum_bundle now ttl =
     ks_as 403 (bindE (ruuid R) (\<lambda>i. bindE (liftR (human (gu_user_id u))) (\<lambda>approver. bindE (ruuid R) (\<lambda>n. bindE (rnow R) (\<lambda>t.
       liftR (sign_approval_statement (ctx_crypto (rc_engine R)) t (rc_signing_key R)
         (statement_args i (s_manifest_hash (sm_seal sealed)) (ps_bundle_hash (spb_seal quorum_bundle)) approver (now + ttl * second) n)))))))"

definition issue_refund_grant :: "('s, 'l, 'o) refund_context \<Rightarrow> string \<Rightarrow> sealed_manifest \<Rightarrow> approval_statement list \<Rightarrow> sealed_policy_bundle
    \<Rightarrow> time \<Rightarrow> int \<Rightarrow> sealed_policy_bundle option \<Rightarrow> ('s, 'l, 'o, execution_grant) refund_handler" where
  "issue_refund_grant R mid sealed statements quorum_bundle now ttl pb =
     bindE (ks_as 403 (on_engine (authorize_with_quorum (rc_engine R) sealed statements quorum_bundle (m_actor (sm_manifest sealed))
        (refund_grant_args R quorum_service sealed now ttl pb)))) (\<lambda>g.
     thenE (register_grant mid g)
     (bindE (dict (\<lambda>d. rd_grants_by_manifest d mid)) (\<lambda>ids.
      thenE (persist_grant_and_index R mid g ids) (ret g))))"

definition approve_refund :: "('s, 'l, 'o) refund_context \<Rightarrow> gateway_user \<Rightarrow> string \<Rightarrow> int \<Rightarrow> string option
    \<Rightarrow> ('s, 'l, 'o, approval_answer) refund_handler" where
  "approve_refund R u mid ttl policy_bundle_id =
     bindE (bindE (dict (\<lambda>d. rd_sealed_manifests d mid)) (must 404)) (\<lambda>sealed.
     bindE (getS (\<lambda>w. denial_event w mid)) (\<lambda>denied. thenE (reject_if (denied \<noteq> None) 409)
     (bindE (dict (\<lambda>d. rd_grants_by_manifest d mid)) (\<lambda>grants. thenE (reject_if (grants \<noteq> []) 409)
     (bindE (bindE (dict (\<lambda>d. rd_assessments d mid)) (must 500)) (\<lambda>a.
     bindE (bindE (dict (\<lambda>d. rd_approval_policy_bundles d mid)) (must 500)) (\<lambda>quorum_bundle.
     bindE (dict (\<lambda>d. rd_approval_statements d mid)) (\<lambda>before.
     thenE (reject_if (\<exists>s \<in> set before. principal_id (st_approver s) = gu_user_id u) 409)
     (bindE (case policy_bundle_id of
          Some bid \<Rightarrow> bindE (dict rd_policy_bundles) (\<lambda>bundles. bindE (must 404 (map_of bundles bid)) (\<lambda>b. ret (Some b)))
        | None \<Rightarrow> dict (\<lambda>d. rd_assessment_policy_bundles d mid)) (\<lambda>pb.
     bindE (rnow R) (\<lambda>now.
     bindE (sign_refund_approval R u sealed quorum_bundle now ttl) (\<lambda>statement.
     let statements = before @ [statement]; required = required_approvals_for a in
     thenE (set_dict (\<lambda>d. d\<lparr>rd_approval_statements := (rd_approval_statements d)(mid := statements)\<rparr>))
     (thenE (persist_approval_statements R mid statements)
     (thenE (on_engine (audit (rc_engine R) (entry_of ''approval.statement_recorded'' ''approve'' (Some mid)
          (Some (s_manifest_hash (sm_seal sealed))) None (Some (gu_user_id u))
          [(''statement_id'', st_statement_id statement), (''completed_human_approvals'', nat_str (length statements)),
           (''required_human_approvals'', int_str required)])))
     (if int (length statements) < required
      then ret \<lparr>an_grant_id = None, an_policy_bundle_hash = None, an_completed = length statements, an_required = required\<rparr>
      else bindE (issue_refund_grant R mid sealed statements quorum_bundle now ttl pb) (\<lambda>g.
        ret \<lparr>an_grant_id = Some (g_grant_id g), an_policy_bundle_hash = g_policy_bundle_hash g, an_completed = length statements,
             an_required = required\<rparr>))))))))))))))))"

definition deny_refund :: "('s, 'l, 'o) refund_context \<Rightarrow> gateway_user \<Rightarrow> string \<Rightarrow> string \<Rightarrow> ('s, 'l, 'o, unit) refund_handler" where
  "deny_refund R u mid reason =
     thenE (liftR (unprocessable (raise_if (reason = [] \<or> length reason > 200) ValueError)))
     (bindE (bindE (dict (\<lambda>d. rd_sealed_manifests d mid)) (must 404)) (\<lambda>sealed.
      bindE (getS (\<lambda>w. denial_event w mid)) (\<lambda>denied. thenE (reject_if (denied \<noteq> None) 409)
      (bindE (on_engine (get_lifecycle_state (rc_engine R) mid)) (\<lambda>st.
       bindE (dict (\<lambda>d. rd_grants_by_manifest d mid)) (\<lambda>grants.
       thenE (reject_if (st \<noteq> SEALED \<or> grants \<noteq> []) 409)
         (on_engine (audit (rc_engine R) ((entry_of ''manifest.authorization_denied'' ''denied'' (Some mid)
            (Some (s_manifest_hash (sm_seal sealed))) None (Some (gu_user_id u)) [(''reason'', reason)])
            \<lparr>en_from_state := Some (state_value st), en_to_state := Some (state_value st)\<rparr>)))))))))"

section \<open>Execute, verify, recover\<close>

text \<open>The engine's commit with the provider's adapter; when the adapter acts, so does the provider.\<close>

definition commit_payment :: "('s, 'l, 'o) refund_context \<Rightarrow> sealed_manifest \<Rightarrow> execution_grant \<Rightarrow> sealed_policy_bundle option
    \<Rightarrow> ('s, 'l, 'o, commit_result) refund_handler" where
  "commit_payment R sealed g pb = bindE (payment_now R) (\<lambda>adapter. \<lambda>w.
     case commit (rc_engine R) sealed g adapter pb None None (rw_engine w) of
       (r, s) \<Rightarrow> (r, w\<lparr>rw_engine := s, rw_simulator := (if e_effects s = e_effects (rw_engine w) then rw_simulator w
                      else snd (payment_commit (sm_manifest sealed) (rw_simulator w)))\<rparr>))"

definition execute_refund :: "('s, 'l, 'o) refund_context \<Rightarrow> string \<Rightarrow> string \<Rightarrow> ('s, 'l, 'o, commit_result) refund_handler" where
  "execute_refund R mid grant_id =
     bindE (bindE (dict (\<lambda>d. rd_sealed_manifests d mid)) (must 404)) (\<lambda>sealed.
     bindE (bindE (dict (\<lambda>d. rd_grants d grant_id)) (must 404)) (\<lambda>g.
     bindE (case g_policy_bundle_hash g of
         None \<Rightarrow> ret None
       | Some h \<Rightarrow> bindE (dict rd_policy_bundles) (\<lambda>bundles. bindE (must 409 (policy_bundle_by_hash bundles h)) (\<lambda>b. ret (Some b)))) (\<lambda>pb.
     bindE (ks_as 409 (commit_payment R sealed g pb)) (\<lambda>result.
     thenE (set_dict (\<lambda>d. d\<lparr>rd_commit_results := (rd_commit_results d)(mid := Some result)\<rparr>))
     (thenE (persist_commit_result R mid result) (ret result))))))"

definition store_proof :: "('s, 'l, 'o) refund_context \<Rightarrow> string \<Rightarrow> outcome_proof \<Rightarrow> ('s, 'l, 'o, outcome_proof) refund_handler" where
  "store_proof R mid proof =
     thenE (set_dict (\<lambda>d. d\<lparr>rd_outcome_proofs := (rd_outcome_proofs d)(mid := Some proof)\<rparr>))
     (thenE (persist_outcome_proof R mid proof) (ret proof))"

definition verify_refund :: "('s, 'l, 'o) refund_context \<Rightarrow> string \<Rightarrow> ('s, 'l, 'o, outcome_proof) refund_handler" where
  "verify_refund R mid =
     bindE (bindE (dict (\<lambda>d. rd_sealed_manifests d mid)) (must 404)) (\<lambda>sealed.
     bindE (bindE (dict (\<lambda>d. rd_commit_results d mid)) (must 404)) (\<lambda>result.
     bindE (payment_now R) (\<lambda>adapter.
     bindE (on_engine (verify (rc_engine R) (sm_manifest sealed) result adapter)) (store_proof R mid))))"

definition recover_refund :: "('s, 'l, 'o) refund_context \<Rightarrow> string \<Rightarrow> ('s, 'l, 'o, outcome_proof) refund_handler" where
  "recover_refund R mid =
     bindE (bindE (dict (\<lambda>d. rd_sealed_manifests d mid)) (must 404)) (\<lambda>sealed.
     bindE (payment_now R) (\<lambda>adapter.
     bindE (ks_as 409 (on_engine (recover_ambiguous_commit (rc_engine R) (sm_manifest sealed) adapter))) (store_proof R mid)))"

section \<open>Compensate\<close>

definition default_compensation_args :: compensation_args where
  "default_compensation_args = \<lparr>ca_effect_type = [], ca_parameters = [], ca_target_resource = [], ca_risk = None,
     ca_reversibility = COMPENSATABLE, ca_blast_radius = None, ca_idempotency_key = [], ca_manifest_id = [], ca_nonce = [],
     ca_ttl_seconds = 300, ca_created_at = None\<rparr>"

text \<open>The part inside \<^verbatim>\<open>try\<close>: the compensation manifest, its grant, and what committing it gave.\<close>

definition run_compensation :: "('s, 'l, 'o) refund_context \<Rightarrow> gateway_user \<Rightarrow> sealed_manifest \<Rightarrow> commit_result \<Rightarrow> time \<Rightarrow> int
    \<Rightarrow> effect_adapter \<Rightarrow> ('s, 'l, 'o, sealed_manifest \<times> execution_grant \<times> commit_result) refund_handler" where
  "run_compensation R u original original_commit now ttl adapter =
     bindE (rnow R) (\<lambda>t. bindE (ruuid R) (\<lambda>i. bindE (ruuid R) (\<lambda>k. bindE (ruuid R) (\<lambda>n.
     bindE (liftR (build_compensation_manifest (ctx_crypto (rc_engine R)) t i k n original (Some original_commit) default_compensation_args)) (\<lambda>unsigned.
     thenE (on_engine (prepare_compensation (rc_engine R) unsigned original))
     (bindE (on_engine (seal (rc_engine R) unsigned (rc_signing_key R))) (\<lambda>compensation.
      bindE (liftR (human (gu_user_id u))) (\<lambda>issuer.
      bindE (on_engine (authorize_compensation (rc_engine R) original compensation
         ((refund_grant_args R issuer compensation now ttl None)\<lparr>aa_subject := m_actor (sm_manifest original)\<rparr>))) (\<lambda>g.
      bindE (on_engine (commit_compensation (rc_engine R) original compensation g adapter original_commit None)) (\<lambda>result.
        ret (compensation, g, result)))))))))))"

record compensation_answer =
  cn_manifest_id :: string
  cn_attempted :: bool
  cn_succeeded :: bool
  cn_detail :: "string option"

definition compensate_refund :: "('s, 'l, 'o) refund_context \<Rightarrow> gateway_user \<Rightarrow> string \<Rightarrow> int \<Rightarrow> ('s, 'l, 'o, compensation_answer) refund_handler" where
  "compensate_refund R u mid ttl =
     bindE (bindE (dict (\<lambda>d. rd_sealed_manifests d mid)) (must 404)) (\<lambda>original.
     bindE (bindE (dict (\<lambda>d. rd_commit_results d mid)) (must 404)) (\<lambda>original_commit.
     bindE (dict (\<lambda>d. rd_approval_statements d mid)) (\<lambda>statements.
     thenE (reject_if (gu_user_id u \<notin> (\<lambda>s. principal_id (st_approver s)) ` set statements) 403)
     (bindE (rnow R) (\<lambda>now. bindE (payment_now R) (\<lambda>adapter.
      bindE (ks_as 409 (run_compensation R u original original_commit now ttl adapter)) (\<lambda>(compensation, g, result).
      let cid = m_manifest_id (sm_manifest compensation) in
      thenE (set_dict (\<lambda>d. d\<lparr>rd_sealed_manifests := (rd_sealed_manifests d)(cid := Some compensation)\<rparr>))
      (thenE (register_grant cid g)
      (thenE (set_dict (\<lambda>d. d\<lparr>rd_commit_results := (rd_commit_results d)(cid := Some result)\<rparr>))
      (thenE (persist_sealed_manifest R compensation)
      (bindE (dict (\<lambda>d. rd_grants_by_manifest d cid)) (\<lambda>ids.
       thenE (persist_grant_and_index R cid g ids)
       (thenE (persist_commit_result R cid result)
         (ret \<lparr>cn_manifest_id = cid, cn_attempted = (cm_success result \<or> cm_detail result \<noteq> None), cn_succeeded = cm_success result,
               cn_detail = cm_detail result\<rparr>))))))))))))))"

definition inject_payment_simulator_ambiguity :: "('s, 'l, 'o) refund_context \<Rightarrow> gateway_user \<Rightarrow> ('s, 'l, 'o, unit) refund_handler" where
  "inject_payment_simulator_ambiguity R u =
     thenE (modS (\<lambda>w. w\<lparr>rw_simulator := inject_ambiguous_timeout (rw_simulator w)\<rparr>))
       (on_engine (audit (rc_engine R) (entry_of ''evaluation.payment_simulator.ambiguous_timeout_armed'' ''armed'' None None None
          (Some (gu_user_id u)) [(''adapter_id'', ''payment.simulator'')])))"

end
