(* ===== verification/RefundSafety.thy ===== *)
theory RefundSafety
  imports Refunds
begin

text \<open>
  What a history of calls of the refund journey keeps.  \<open>refund_call\<close> is one call of a route with its own
  context, \<open>refund_run\<close> any sequence of them.  A handler that only reads the dictionaries, uses the engine
  and writes rows is \<open>quiet\<close>; what the other steps do to the dictionaries and to the provider is followed
  by triples.
\<close>

section \<open>Histories\<close>

datatype refund_op =
    CActivate gateway_user policy_activate
  | CPropose refund_propose
  | CApprove gateway_user string int "string option"
  | CDeny gateway_user string string
  | CExecute string string
  | CVerify string
  | CRecover string
  | CCompensate gateway_user string int
  | CInject gateway_user

text \<open>A call with its result left out: the exception, if it raised one.\<close>

definition outcome_of :: "('w, 'a) sem \<Rightarrow> ('w, unit) sem" where
  "outcome_of m = (\<lambda>w. case m w of (Inl e, w') \<Rightarrow> (Inl e, w') | (Inr _, w') \<Rightarrow> (Inr (), w'))"

primrec refund_call :: "('s, 'l, 'o) refund_context \<Rightarrow> refund_op \<Rightarrow> ('s, 'l, 'o, unit) refund_handler" where
  "refund_call R (CActivate u b) = outcome_of (activate_policy R u b)"
| "refund_call R (CPropose b) = outcome_of (propose_refund R b)"
| "refund_call R (CApprove u mid ttl pb) = outcome_of (approve_refund R u mid ttl pb)"
| "refund_call R (CDeny u mid reason) = outcome_of (deny_refund R u mid reason)"
| "refund_call R (CExecute mid gid) = outcome_of (execute_refund R mid gid)"
| "refund_call R (CVerify mid) = outcome_of (verify_refund R mid)"
| "refund_call R (CRecover mid) = outcome_of (recover_refund R mid)"
| "refund_call R (CCompensate u mid ttl) = outcome_of (compensate_refund R u mid ttl)"
| "refund_call R (CInject u) = outcome_of (inject_payment_simulator_ambiguity R u)"

definition refund_run :: "('s, 'l, 'o) refund_world \<Rightarrow> (('s, 'l, 'o) refund_context \<times> refund_op) list \<Rightarrow> ('s, 'l, 'o) refund_world" where
  "refund_run w calls = foldl (\<lambda>w (R, c). snd (refund_call R c w)) w calls"

lemma refund_run_Nil [simp]: "refund_run w [] = w"
  by (simp add: refund_run_def)

lemma refund_run_snoc [simp]: "refund_run w (calls @ [(R, c)]) = snd (refund_call R c (refund_run w calls))"
  by (simp add: refund_run_def)

lemma hoare_outcome_of [simp]: "hoare P (outcome_of m) (\<lambda>_. Q) E \<longleftrightarrow> hoare P m (\<lambda>_. Q) E"
  by (auto simp: hoare_def outcome_of_def split: prod.splits sum.splits)

section \<open>Quiet handlers\<close>

definition quiet :: "('s, 'l, 'o) refund_world \<Rightarrow> ('s, 'l, 'o) refund_world \<Rightarrow> bool" where
  "quiet w w' \<longleftrightarrow> rw_dicts w' = rw_dicts w \<and> rw_simulator w' = rw_simulator w \<and> records_advance (rw_engine w) (rw_engine w')"

lemma quiet_refl: "reflp quiet"
  using adv.refl by (auto simp: quiet_def intro!: reflpI dest: reflpD)

lemma quiet_trans: "transp quiet"
  using adv.trans by (auto simp: quiet_def intro!: transpI dest: transpD)

named_theorems quiet_intros "handlers that are quiet"

lemmas [quiet_intros] = keeps_bindE [OF quiet_trans] keeps_thenE [OF quiet_trans] keeps_whenE [OF quiet_refl]
  keeps_pure [OF quiet_refl]

lemma quiet_on_engine: "keeps records_advance h \<Longrightarrow> keeps quiet (on_engine h)"
  by (auto simp: keeps_def quiet_def on_engine_def split: prod.splits) (metis snd_conv)

lemma quiet_ks_as [quiet_intros]: "keeps quiet m \<Longrightarrow> keeps quiet (ks_as code m)"
  by (auto simp: keeps_def ks_as_def rename_error_def split: prod.splits sum.splits) (metis snd_conv)+

lemma quiet_basic [quiet_intros]:
  "keeps quiet (dict f)" "keeps quiet (must code x)" "keeps quiet (reject_if c code)"
  by (auto simp: dict_def must_def reject_if_def split: option.splits intro!: quiet_intros)

lemma quiet_engine_calls [quiet_intros]:
  "keeps quiet (rnow R)" "keeps quiet (ruuid R)" "keeps quiet (on_engine (fresh f))" "keeps quiet (on_engine (audit C en))"
  "keeps quiet (on_engine (prepare C adapter))" "keeps quiet (on_engine (seal C m key))"
  "keeps quiet (on_engine (assess C tx bound m facts policy))"
  "keeps quiet (on_engine (authorize_with_quorum C sealed statements bundle proposer a))"
  "keeps quiet (on_engine (get_lifecycle_state C mid))" "keeps quiet (on_engine (verify C m result adapter))"
  "keeps quiet (on_engine (recover_ambiguous_commit C m adapter))" "keeps quiet (on_engine (prepare_compensation C m original))"
  "keeps quiet (on_engine (authorize_compensation C original compensation a))"
  "keeps quiet (on_engine (commit_compensation C original compensation grant adapter oc pb))"
  by (intro quiet_on_engine adv.prepare_keeps adv.seal_keeps adv.assess_keeps adv.authorize_with_quorum_keeps
      adv.get_lifecycle_state_keeps adv.verify_keeps adv.recover_keeps adv.prepare_compensation_keeps
      adv.authorize_compensation_keeps adv.commit_compensation_keeps adv.audit_keeps adv.fresh)+

lemma quiet_store: "keeps quiet (modS (\<lambda>w. w\<lparr>rw_store := f w\<rparr>))"
  using reflpD [OF adv.refl] by (auto simp: keeps_def quiet_def modS_def)

lemma quiet_put [quiet_intros]: "keeps quiet (put_refund_state R b k x)"
  unfolding put_refund_state_def
  by (intro quiet_intros) (auto intro!: quiet_intros quiet_store)

lemma quiet_persist [quiet_intros]:
  "keeps quiet (persist_sealed_manifest R sealed)" "keeps quiet (persist_assessment R mid a)"
  "keeps quiet (persist_grant_and_index R mid g ids)" "keeps quiet (persist_commit_result R mid c)"
  "keeps quiet (persist_outcome_proof R mid p)" "keeps quiet (persist_policy_bundle R i b)"
  "keeps quiet (persist_active_policy_bundle_id R j)" "keeps quiet (persist_approval_policy_bundle R mid b)"
  "keeps quiet (persist_assessment_policy_bundle R mid b)" "keeps quiet (persist_approval_statements R mid ss)"
  unfolding persist_sealed_manifest_def persist_assessment_def persist_grant_and_index_def persist_commit_result_def
    persist_outcome_proof_def persist_policy_bundle_def persist_active_policy_bundle_id_def persist_approval_policy_bundle_def
    persist_assessment_policy_bundle_def persist_approval_statements_def
  by (intro quiet_intros)+

lemma quiet_parts [quiet_intros]:
  "keeps quiet (active_policy_bundle R)" "keeps quiet (payment_now R)" "keeps quiet (payment_for R q)"
  "keeps quiet (sign_refund_approval R u sealed qb now ttl)" "keeps quiet (run_compensation R u original c now ttl adapter)"
  unfolding active_policy_bundle_def payment_now_def payment_for_def sign_refund_approval_def run_compensation_def
  by (auto split: option.split intro!: quiet_intros)

lemma quiet_deny: "keeps quiet (deny_refund R u mid reason)"
  unfolding deny_refund_def by (intro quiet_intros)

section \<open>The invariant\<close>

definition approvers :: "('c \<times> refund_op) list \<Rightarrow> string \<Rightarrow> string set" where
  "approvers calls mid = {i. \<exists>R u ttl pb. (R, CApprove u mid ttl pb) \<in> set calls \<and> gu_user_id u = i}"

text \<open>A manifest of this hash was proposed, and as many users as its assessment requires approved it, the
  agent that asked for it not among them.\<close>

definition approved :: "(string \<Rightarrow> string set) \<Rightarrow> refund_dicts \<Rightarrow> string \<Rightarrow> bool" where
  "approved A d h \<longleftrightarrow> (\<exists>mid sealed a. rd_sealed_manifests d mid = Some sealed \<and> s_manifest_hash (sm_seal sealed) = h
     \<and> rd_assessments d mid = Some a
     \<and> required_approvals_for a \<le> int (card (A mid - {principal_id (m_actor (sm_manifest sealed))})))"

text \<open>The payment is what an approved manifest says.\<close>

definition paid_for :: "(string \<Rightarrow> string set) \<Rightarrow> refund_dicts \<Rightarrow> string \<Rightarrow> payment_record \<Rightarrow> bool" where
  "paid_for A d k p \<longleftrightarrow> (\<exists>mid sealed source cur fee ref. rd_sealed_manifests d mid = Some sealed
     \<and> m_idempotency_key (sm_manifest sealed) = k
     \<and> payment_args (sm_manifest sealed) = Inr (source, pay_beneficiary p, pay_amount_minor_units p, cur, fee, ref)
     \<and> approved A d (s_manifest_hash (sm_seal sealed)))"

definition moved_on :: "(string \<Rightarrow> lifecycle_record option) \<Rightarrow> string \<Rightarrow> bool" where
  "moved_on recs mid \<longleftrightarrow> (\<exists>r. recs mid = Some r \<and> lr_state r \<noteq> PROPOSED)"

definition grant_justified :: "(string \<Rightarrow> string set) \<Rightarrow> refund_dicts \<Rightarrow> execution_grant \<Rightarrow> bool" where
  "grant_justified A d g \<longleftrightarrow> (\<exists>h. g_manifest_hash g = Some h \<and> approved A d h) \<or> ''payment.transfer'' \<notin> set (g_allowed_effect_types g)"

definition statements_ok :: "(string \<Rightarrow> string set) \<Rightarrow> refund_dicts \<Rightarrow> bool" where
  "statements_ok A d \<longleftrightarrow> (\<forall>mid. finite (A mid) \<and> (\<forall>s \<in> set (rd_approval_statements d mid). approver_of s \<in> A mid))"

definition quorums_ok :: "refund_dicts \<Rightarrow> bool" where
  "quorums_ok d \<longleftrightarrow> (\<forall>mid qb. rd_approval_policy_bundles d mid = Some qb \<longrightarrow> (\<exists>a. rd_assessments d mid = Some a
     \<and> approval_policy_from_bundle_payload (pb_payload (spb_bundle qb)) = Inr (quorum_policy mid a)))"

definition known_moved :: "refund_dicts \<Rightarrow> (string \<Rightarrow> lifecycle_record option) \<Rightarrow> bool" where
  "known_moved d recs \<longleftrightarrow> (\<forall>mid. rd_sealed_manifests d mid \<noteq> None \<or> rd_assessments d mid \<noteq> None \<longrightarrow> moved_on recs mid)"

definition payable :: "effect_manifest \<Rightarrow> bool" where
  "payable m \<longleftrightarrow> m_effect_type m = ''payment.transfer'' \<or> \<not> is_ok (payment_args m)"

definition refund_inv :: "(string \<Rightarrow> string set) \<Rightarrow> payment_simulator \<Rightarrow> refund_dicts \<Rightarrow> payment_simulator
    \<Rightarrow> (string \<Rightarrow> lifecycle_record option) \<Rightarrow> bool" where
  "refund_inv A sim0 d sim recs \<longleftrightarrow> statements_ok A d \<and> quorums_ok d \<and> known_moved d recs
   \<and> (\<forall>mid sealed. rd_sealed_manifests d mid = Some sealed \<longrightarrow> payable (sm_manifest sealed))
   \<and> (\<forall>gid g. rd_grants d gid = Some g \<longrightarrow> grant_justified A d g)
   \<and> (\<forall>k p. get_payment sim k = Some p \<longrightarrow> get_payment sim0 k = Some p \<or> pay_status p = PaymentFailed \<or> paid_for A d k p)"

lemma moved_on_advance: "records_advance s s' \<Longrightarrow> moved_on (e_records s) mid \<Longrightarrow> moved_on (e_records s') mid"
proof -
  have "legal_path a b \<Longrightarrow> a \<noteq> PROPOSED \<Longrightarrow> b \<noteq> PROPOSED" for a b
  proof (induction rule: rtranclp_induct)
    case (step y z)
    then show ?case by (cases y; cases z) (simp_all add: is_legal_transition_def)
  qed simp
  then show "records_advance s s' \<Longrightarrow> moved_on (e_records s) mid \<Longrightarrow> moved_on (e_records s') mid"
    by (fastforce simp: records_advance_def moved_on_def)
qed

definition grows :: "(string \<Rightarrow> string set) \<Rightarrow> refund_dicts \<Rightarrow> (string \<Rightarrow> string set) \<Rightarrow> refund_dicts \<Rightarrow> bool" where
  "grows A d A' d' \<longleftrightarrow> (\<forall>mid. A mid \<subseteq> A' mid \<and> finite (A' mid))
     \<and> (\<forall>mid x. rd_sealed_manifests d mid = Some x \<longrightarrow> rd_sealed_manifests d' mid = Some x)
     \<and> (\<forall>mid x. rd_assessments d mid = Some x \<longrightarrow> rd_assessments d' mid = Some x)"

lemma approved_mono:
  assumes "grows A d A' d'" "approved A d h"
  shows "approved A' d' h"
proof -
  obtain mid sealed a where b: "rd_sealed_manifests d mid = Some sealed" "s_manifest_hash (sm_seal sealed) = h"
    "rd_assessments d mid = Some a" "required_approvals_for a \<le> int (card (A mid - {principal_id (m_actor (sm_manifest sealed))}))"
    using assms(2) by (auto simp: approved_def)
  have "card (A mid - {principal_id (m_actor (sm_manifest sealed))}) \<le> card (A' mid - {principal_id (m_actor (sm_manifest sealed))})"
    using assms(1) by (intro card_mono) (auto simp: grows_def)
  then show ?thesis
    using b assms(1) unfolding approved_def grows_def by (intro exI [of _ mid] exI [of _ sealed] exI [of _ a]) auto
qed

lemma paid_for_mono: "grows A d A' d' \<Longrightarrow> paid_for A d k p \<Longrightarrow> paid_for A' d' k p"
  using approved_mono [of A d A' d'] unfolding paid_for_def grows_def by blast

lemma grant_justified_mono: "grows A d A' d' \<Longrightarrow> grant_justified A d g \<Longrightarrow> grant_justified A' d' g"
  using approved_mono [of A d A' d'] unfolding grant_justified_def by blast

lemma refund_inv_grows:
  assumes "refund_inv A sim0 d sim recs" "grows A d A' d'" "statements_ok A' d'" "quorums_ok d'" "known_moved d' recs'"
    and "\<And>mid sealed. rd_sealed_manifests d' mid = Some sealed \<Longrightarrow> rd_sealed_manifests d mid = Some sealed \<or> payable (sm_manifest sealed)"
    and "\<And>gid g. rd_grants d' gid = Some g \<Longrightarrow> rd_grants d gid = Some g \<or> grant_justified A' d' g"
  shows "refund_inv A' sim0 d' sim recs'"
proof -
  have "payable (sm_manifest sealed)" if "rd_sealed_manifests d' mid = Some sealed" for mid sealed
    using assms(1) assms(6) [OF that] by (auto simp: refund_inv_def)
  moreover have "grant_justified A' d' g" if "rd_grants d' gid = Some g" for gid g
    using assms(1) assms(7) [OF that] grant_justified_mono [OF assms(2)] unfolding refund_inv_def by blast
  moreover have "get_payment sim0 k = Some p \<or> pay_status p = PaymentFailed \<or> paid_for A' d' k p" if "get_payment sim k = Some p" for k p
  proof -
    have "get_payment sim0 k = Some p \<or> pay_status p = PaymentFailed \<or> paid_for A d k p"
      using assms(1) that by (simp add: refund_inv_def)
    then show ?thesis
      using paid_for_mono [OF assms(2)] by blast
  qed
  ultimately show ?thesis
    using assms(3,4,5) by (simp add: refund_inv_def)
qed

lemma refund_inv_more_approvers:
  assumes "refund_inv A sim0 d sim recs" "\<And>mid. A mid \<subseteq> A' mid \<and> finite (A' mid)"
  shows "refund_inv A' sim0 d sim recs"
proof (rule refund_inv_grows [OF assms(1)])
  show "grows A d A' d" using assms(2) by (simp add: grows_def)
  show "statements_ok A' d" using assms by (auto simp: refund_inv_def statements_ok_def)
qed (use assms(1) in \<open>simp_all add: refund_inv_def\<close>)

section \<open>Triples around the invariant\<close>

text \<open>The state at a point of a handler: the invariant holds, the dictionaries are \<open>d\<close>.\<close>

definition sound :: "(string \<Rightarrow> string set) \<Rightarrow> payment_simulator \<Rightarrow> ('s, 'l, 'o) refund_world \<Rightarrow> bool" where
  "sound A sim0 w \<longleftrightarrow> refund_inv A sim0 (rw_dicts w) (rw_simulator w) (e_records (rw_engine w))"

definition point :: "(string \<Rightarrow> string set) \<Rightarrow> payment_simulator \<Rightarrow> refund_dicts \<Rightarrow> ('s, 'l, 'o) refund_world \<Rightarrow> bool" where
  "point A sim0 d w \<longleftrightarrow> rw_dicts w = d \<and> sound A sim0 w"

lemma sound_quiet: "quiet w w' \<Longrightarrow> sound A sim0 w \<Longrightarrow> sound A sim0 w'"
  using moved_on_advance [of "rw_engine w" "rw_engine w'"] by (auto simp: sound_def quiet_def refund_inv_def known_moved_def)

lemma point_quiet: "quiet w w' \<Longrightarrow> point A sim0 d w \<Longrightarrow> point A sim0 d w'"
  using sound_quiet [of w w' A sim0] by (simp add: point_def) (simp add: quiet_def)

lemma point_start: "(\<And>d. hoare (point A sim0 d) m Q E) \<Longrightarrow> hoare (sound A sim0) m Q E"
  by (auto simp: hoare_def point_def)

lemma point_bind:
  assumes "keeps quiet m" "\<And>x s s'. point A sim0 d s \<Longrightarrow> m s = (Inr x, s') \<Longrightarrow> hoare (point A sim0 d) (f x) Q (sound A sim0)"
  shows "hoare (point A sim0 d) (bindE m f) Q (sound A sim0)"
proof (rule hoareI)
  fix s x s'
  assume *: "point A sim0 d s" "bindE m f s = (Inr x, s')"
  then obtain y t where t: "m s = (Inr y, t)" "f y t = (Inr x, s')"
    by (auto simp: monad_simps)
  then show "Q x s'"
    using assms(2) [OF *(1) t(1)] point_quiet [OF keepsD [OF assms(1) t(1)] *(1)] by (auto dest: hoare_Inr)
next
  fix s e s'
  assume *: "point A sim0 d s" "bindE m f s = (Inl e, s')"
  obtain y t where t: "m s = (y, t)" by fastforce
  have q: "point A sim0 d t" using point_quiet [OF keepsD [OF assms(1) t] *(1)] .
  then show "sound A sim0 s'"
    using * t assms(2) [OF *(1)] by (cases y) (auto simp: bindE_def point_def intro: hoare_Inl)
qed

lemma point_then:
  "keeps quiet m \<Longrightarrow> (\<And>s s' x. point A sim0 d s \<Longrightarrow> m s = (Inr x, s') \<Longrightarrow> hoare (point A sim0 d) k Q (sound A sim0))
    \<Longrightarrow> hoare (point A sim0 d) (thenE m k) Q (sound A sim0)"
  unfolding thenE_def by (rule point_bind)

lemma point_set:
  assumes "\<And>sim recs. refund_inv A sim0 d sim recs \<Longrightarrow> refund_inv A sim0 (g d) sim recs"
    and "hoare (point A sim0 (g d)) k Q (sound A sim0)"
  shows "hoare (point A sim0 d) (thenE (set_dict g) k) Q (sound A sim0)"
proof -
  have "hoare (point A sim0 d) (set_dict g) (\<lambda>_. point A sim0 (g d)) (sound A sim0)"
    using assms(1) by (auto simp: hoare_def set_dict_def modS_def point_def sound_def)
  then show ?thesis
    using assms(2) by (rule hoare_thenE)
qed

lemma point_dict:
  "hoare (point A sim0 d) (k (f d)) Q (sound A sim0) \<Longrightarrow> hoare (point A sim0 d) (bindE (dict f) k) Q (sound A sim0)"
  by (rule point_bind) (auto simp: point_def dict_def monad_simps intro!: quiet_intros)

lemma point_lookup:
  "(\<And>x. f d = Some x \<Longrightarrow> hoare (point A sim0 d) (k x) Q (sound A sim0))
    \<Longrightarrow> hoare (point A sim0 d) (bindE (bindE (dict f) (must code)) k) Q (sound A sim0)"
  by (rule point_bind) (auto simp: point_def dict_def must_def monad_simps intro!: quiet_intros split: option.splits)

lemmas point_rules = point_dict point_lookup point_bind point_set point_then quiet_intros

lemma point_sound: "point A sim0 d w \<Longrightarrow> sound A sim0 w"
  by (simp add: point_def)

lemma point_end: "keeps quiet m \<Longrightarrow> hoare (point A sim0 d) m (\<lambda>_. sound A sim0) (sound A sim0)"
  using keepsD [of quiet m] point_sound [OF point_quiet] by (intro hoareI) blast+

section \<open>What a handler found out\<close>

lemma on_engine_Inr [monad_simps]:
  "on_engine h w = (Inr v, w') \<longleftrightarrow> (\<exists>s. h (rw_engine w) = (Inr v, s) \<and> w' = w\<lparr>rw_engine := s\<rparr>)"
  by (auto simp: on_engine_def split: prod.splits)

lemma ks_as_Inr [monad_simps]: "ks_as code m s = (Inr v, s') \<longleftrightarrow> m s = (Inr v, s')"
  by (simp add: ks_as_def monad_simps)

lemma dict_Inr [monad_simps]: "dict f w = (Inr v, w') \<longleftrightarrow> v = f (rw_dicts w) \<and> w' = w"
  by (auto simp: dict_def monad_simps)

lemma must_Inr [monad_simps]: "must code x w = (Inr v, w') \<longleftrightarrow> x = Some v \<and> w' = w"
  by (auto simp: must_def monad_simps split: option.splits)

lemma reject_if_Inr [monad_simps]: "reject_if c code w = (Inr v, w') \<longleftrightarrow> \<not> c \<and> w' = w"
  by (auto simp: reject_if_def monad_simps)

lemma check_or_audit_Inr: "check_or_audit C en r s = (Inr v, s') \<longleftrightarrow> r = Inr v \<and> s' = s"
  by (auto simp: check_or_audit_def on_error_Inr_iff monad_simps)

text \<open>Signing gives a statement of the user, and a quorum that was met has enough approvers.\<close>

lemma human_id: "human i = Inr p \<Longrightarrow> principal_id p = i"
  by (auto simp: human_def Let_def thenR_def result_simps)

lemma sign_refund_approval_approver:
  assumes "sign_refund_approval R u sealed qb now ttl w = (Inr st, w')"
  shows "approver_of st = gu_user_id u"
  using assms
  by (auto simp: sign_refund_approval_def statement_args_def sign_approval_statement_def approver_of_def Let_def
      monad_simps result_simps split: if_splits dest!: sym [of "Inr _"] human_id)

lemma quorum_policy_fields:
  "aq_required_approvals (quorum_policy mid a) = required_approvals_for a" "aq_forbid_proposer_as_approver (quorum_policy mid a)"
  by (simp_all add: quorum_policy_def DEFAULT_APPROVAL_POLICY_def)

lemma issued_grant_manifest:
  assumes "issue_and_transition C sealed a b meta s = (Inr g, s')"
  shows "g_manifest_hash g = Some (s_manifest_hash (sm_seal sealed))" "set (g_allowed_effect_types g) = set (aa_allowed_effect_types a)"
proof -
  obtain b' i n t where "issue_grant (ctx_crypto C) t (aa_signing_key a) (grant_args a (s_manifest_hash (sm_seal sealed)) b' i n) = Inr g"
    using assms by (auto simp: issue_and_transition_def check_or_audit_Inr Let_def monad_simps)
  then show "g_manifest_hash g = Some (s_manifest_hash (sm_seal sealed))"
    "set (g_allowed_effect_types g) = set (aa_allowed_effect_types a)"
    by (auto simp: issue_grant_ok_iff Let_def grant_args_def)
qed

lemma check_quorum_met:
  assumes "check_quorum C sealed statements qb proposer subject issuer s = (Inr q, s')"
    and "approval_policy_from_bundle_payload (pb_payload (spb_bundle qb)) = Inr p"
  obtains t where "evaluate_quorum (ctx_crypto C) statements p
      (s_manifest_hash (sm_seal sealed)) (ps_bundle_hash (spb_seal qb)) (ctx_keyring C) proposer subject t = Inr q" "q_satisfied q"
  using assms by (auto simp: check_quorum_def monad_simps eq_commute [of "Inr _" "raise_if _ _"] result_simps intro: that [OF sym])

lemma quorum_grant_approvers:
  assumes "authorize_with_quorum C sealed statements qb proposer a s = (Inr g, s')"
    and "approval_policy_from_bundle_payload (pb_payload (spb_bundle qb)) = Inr (quorum_policy mid x)"
    and "\<forall>s \<in> set statements. approver_of s \<in> U" "finite U"
  shows "g_manifest_hash g = Some (s_manifest_hash (sm_seal sealed))
    \<and> required_approvals_for x \<le> int (card (U - {principal_id proposer}))"
proof -
  obtain q s0 s1 roles s2 pbh s3 where q: "check_quorum C sealed statements qb proposer (aa_subject a) (aa_issuer a) s0 = (Inr q, s1)"
    and g: "issue_and_transition C sealed a (no_bindings\<lparr>gb_policy_bundle_hash := pbh, gb_approval_set_hash := Some (q_approval_set_hash q)\<rparr>)
      ((''approval_set_hash'', q_approval_set_hash q) # meta_opt ''policy_bundle_hash'' pbh @ role_participation_metadata roles) s3 = (Inr g, s')"
    using assms(1) by (auto simp: authorize_with_quorum_def Let_def bindE_Inr_iff thenE_Inr_iff)
  obtain t' where q: "evaluate_quorum (ctx_crypto C) statements (quorum_policy mid x)
      (s_manifest_hash (sm_seal sealed)) (ps_bundle_hash (spb_seal qb)) (ctx_keyring C) proposer (aa_subject a) t' = Inr q" "q_satisfied q"
    using check_quorum_met [OF q assms(2)] .
  obtain L where L: "set L \<subseteq> set statements" "distinct (map approver_of L)" "required_approvals_for x \<le> int (length L)"
    "\<forall>s \<in> set L. approver_of s \<noteq> principal_id proposer"
    using satisfied_quorum_backed [OF q(1) q(2)] by (auto simp: quorum_policy_fields counts_def)
  have "approver_of ` set L \<subseteq> U - {principal_id proposer}"
    using L(1,4) assms(3) by auto
  then have "card (approver_of ` set L) \<le> card (U - {principal_id proposer})"
    using assms(4) by (intro card_mono) auto
  moreover have "card (approver_of ` set L) = length L"
    using distinct_card [OF L(2)] by simp
  ultimately show ?thesis
    using L(3) issued_grant_manifest [OF g] by simp
qed

lemma prepared_new:
  assumes "transition C mid PREPARED a s = (Inr u, s')"
  shows "\<not> moved_on (e_records s) mid" "moved_on (e_records s') mid"
proof -
  obtain r r' where r: "\<forall>q. e_records s mid = Some q \<longrightarrow> r = q" "e_records s' = (e_records s)(mid := Some r')" "lr_state r' = PREPARED"
    "is_legal_transition (lr_state r) PREPARED"
    using transition_ok_state [OF assms] by blast
  have "is_legal_transition x PREPARED \<Longrightarrow> x = PROPOSED" for x
    by (cases x) (simp_all add: is_legal_transition_def)
  then show "\<not> moved_on (e_records s) mid" "moved_on (e_records s') mid"
    using r by (auto simp: moved_on_def)
qed

text \<open>A proposal that goes through is for a manifest the engine had not moved on.\<close>

lemma proposed_new:
  assumes "ks_as 422 (bindE (payment_for R q) (\<lambda>adapter.
         bindE (on_engine (prepare (rc_engine R) adapter)) (\<lambda>m.
         bindE (on_engine (seal (rc_engine R) m (rc_signing_key R))) (\<lambda>sealed.
         bindE (on_engine (assess (rc_engine R) (rc_text R) (rc_bound_policy R) m None policy)) (\<lambda>a. ret (m, sealed, a)))))) w
     = (Inr (m, sealed, a), w')"
  shows "\<not> moved_on (e_records (rw_engine w)) (m_manifest_id m)" "moved_on (e_records (rw_engine w')) (m_manifest_id m)"
    "sm_manifest sealed = m" "payable m"
proof -
  obtain adapter w1 s2 s3 where f: "payment_for R q w = (Inr adapter, w1)" "prepare (rc_engine R) adapter (rw_engine w1) = (Inr m, s2)"
    and s3: "seal (rc_engine R) m (rc_signing_key R) s2 = (Inr sealed, s3)"
    and s4: "assess (rc_engine R) (rc_text R) (rc_bound_policy R) m None policy s3 = (Inr a, rw_engine w')"
    using assms by (auto simp: monad_simps)
  obtain t u n where ad: "adapter = payment_adapter (rw_simulator w) t (payment_prepare (rw_simulator w) t u n q)"
    and rec: "e_records (rw_engine w1) = e_records (rw_engine w)"
    using f(1) by (auto simp: payment_for_def monad_simps)
  obtain ta where p: "ad_prepare adapter = Inr m" "transition (rc_engine R) (m_manifest_id m) PREPARED ta (rw_engine w1) = (Inr (), s2)"
    using f(2) by (auto simp: prepare_def monad_simps intro: that [OF sym])
  show "\<not> moved_on (e_records (rw_engine w)) (m_manifest_id m)"
    using prepared_new(1) [OF p(2)] rec by simp
  show "moved_on (e_records (rw_engine w')) (m_manifest_id m)"
    using prepared_new(2) [OF p(2)] moved_on_advance [OF keepsD [OF adv.seal_keeps s3]]
      moved_on_advance [OF keepsD [OF adv.assess_keeps s4]] by blast
  show "sm_manifest sealed = m"
    using s3 by (auto simp: seal_def seal_manifest_def Let_def thenR_def monad_simps result_simps dest!: sym [of "Inr _"])
  show "payable m"
    using payment_prepared_fields p(1) ad by (auto simp: payment_adapter_def payable_def)
qed

text \<open>So is a compensation; its manifest pays nothing, and its grant is for no payment.\<close>

lemma compensation_pays_nothing:
  assumes "build_compensation_manifest cr t i k n original oc default_compensation_args = Inr m"
  shows "\<not> is_ok (payment_args m)" "m_effect_type m \<noteq> ''payment.transfer''"
proof -
  have m: "m_parameters m = compensation_parameters oh oid oc [] \<Longrightarrow> \<not> is_ok (payment_args m)" for oh oid
    by (auto simp: payment_args_def str_param_def param_def compensation_parameters_def Let_def ORIGINAL_ID_PARAM_def
        ORIGINAL_HASH_PARAM_def ORIGINAL_COMMIT_REF_PARAM_def is_ok_iff result_simps split: option.splits)
  have "last (m_effect_type m) = CHR ''e''"
    using assms by (auto simp: build_compensation_manifest_def default_compensation_args_def or_else_def Let_def thenR_def result_simps
        COMPENSATION_EFFECT_SUFFIX_def split: if_splits)
  then show "m_effect_type m \<noteq> ''payment.transfer''" by auto
  show "\<not> is_ok (payment_args m)"
    using assms m by (auto simp: build_compensation_manifest_def default_compensation_args_def Let_def thenR_def result_simps split: if_splits)
qed

lemma compensated_new:
  assumes "run_compensation R u original oc now ttl adapter w = (Inr (compensation, g, result), w')"
  shows "\<not> moved_on (e_records (rw_engine w)) (m_manifest_id (sm_manifest compensation))"
    "moved_on (e_records (rw_engine w')) (m_manifest_id (sm_manifest compensation))"
    "payable (sm_manifest compensation)" "''payment.transfer'' \<notin> set (g_allowed_effect_types g)"
proof -
  let ?C = "rc_engine R"
  obtain t i k n m s1 s2 s3 s4 issuer x a where
    b: "build_compensation_manifest (ctx_crypto ?C) t i k n original (Some oc) default_compensation_args = Inr m"
    and p: "prepare_compensation ?C m original s1 = (Inr x, s2)" "e_records s1 = e_records (rw_engine w)"
    and s: "seal ?C m (rc_signing_key R) s2 = (Inr compensation, s3)"
    and a: "authorize_compensation ?C original compensation a s3 = (Inr g, s4)"
       "a = (refund_grant_args R issuer compensation now ttl None)\<lparr>aa_subject := m_actor (sm_manifest original)\<rparr>"
    and c: "commit_compensation ?C original compensation g adapter oc None s4 = (Inr result, rw_engine w')"
    using assms by (auto simp: run_compensation_def monad_simps intro!: that [OF sym])
  obtain ta where q: "transition ?C (m_manifest_id m) PREPARED ta s1 = (Inr (), s2)"
    using p(1) by (auto simp: prepare_compensation_def monad_simps)
  have m: "sm_manifest compensation = m"
    using s by (auto simp: seal_def seal_manifest_def Let_def thenR_def monad_simps result_simps dest!: sym [of "Inr _"])
  show "\<not> moved_on (e_records (rw_engine w)) (m_manifest_id (sm_manifest compensation))"
    using prepared_new(1) [OF q] p(2) m by simp
  show "moved_on (e_records (rw_engine w')) (m_manifest_id (sm_manifest compensation))"
    using prepared_new(2) [OF q] moved_on_advance [OF keepsD [OF adv.seal_keeps s]] m
      moved_on_advance [OF keepsD [OF adv.authorize_compensation_keeps a(1)]]
      moved_on_advance [OF keepsD [OF adv.commit_compensation_keeps c]] by blast
  show "payable (sm_manifest compensation)"
    using compensation_pays_nothing(1) [OF b] m by (simp add: payable_def)
  have "set (g_allowed_effect_types g) = {m_effect_type m}"
    using a m by (auto simp: authorize_compensation_def authorize_def refund_grant_args_def Let_def monad_simps dest: issued_grant_manifest)
  then show "''payment.transfer'' \<notin> set (g_allowed_effect_types g)"
    using compensation_pays_nothing(2) [OF b] by auto
qed

section \<open>Every handler keeps the invariant\<close>

text \<open>Dictionaries the invariant does not look at.\<close>

lemma refund_inv_elsewhere [simp]:
  "refund_inv A sim0 (d\<lparr>rd_policy_bundles := x1, rd_active_policy_bundle_id := x2\<rparr>) sim recs = refund_inv A sim0 d sim recs"
  "refund_inv A sim0 (d\<lparr>rd_assessment_policy_bundles := x3\<rparr>) sim recs = refund_inv A sim0 d sim recs"
  "refund_inv A sim0 (d\<lparr>rd_commit_results := x4\<rparr>) sim recs = refund_inv A sim0 d sim recs"
  "refund_inv A sim0 (d\<lparr>rd_outcome_proofs := x5\<rparr>) sim recs = refund_inv A sim0 d sim recs"
  by (simp_all add: refund_inv_def statements_ok_def quorums_ok_def known_moved_def grant_justified_def approved_def paid_for_def)

lemma activate_sound: "hoare (sound A sim0) (activate_policy R u b) (\<lambda>_. sound A sim0) (sound A sim0)"
  unfolding activate_policy_def Let_def
  by (intro point_start point_then point_bind point_set point_end quiet_intros | simp)+

lemma store_proof_sound: "hoare (point A sim0 d) (store_proof R mid p) (\<lambda>_. sound A sim0) (sound A sim0)"
  unfolding store_proof_def by (intro point_set point_end quiet_intros) simp

lemma verify_sound: "hoare (sound A sim0) (verify_refund R mid) (\<lambda>_. sound A sim0) (sound A sim0)"
  unfolding verify_refund_def by (intro point_start point_bind store_proof_sound quiet_intros)

lemma recover_sound: "hoare (sound A sim0) (recover_refund R mid) (\<lambda>_. sound A sim0) (sound A sim0)"
  unfolding recover_refund_def by (intro point_start point_bind store_proof_sound quiet_intros)

lemma deny_sound: "hoare (sound A sim0) (deny_refund R u mid reason) (\<lambda>_. sound A sim0) (sound A sim0)"
  by (intro point_start point_end quiet_deny)

lemma inject_sound: "hoare (sound A sim0) (inject_payment_simulator_ambiguity R u) (\<lambda>_. sound A sim0) (sound A sim0)"
  unfolding inject_payment_simulator_ambiguity_def
proof (rule hoare_thenE)
  show "hoare (sound A sim0) (modS (\<lambda>w. w\<lparr>rw_simulator := inject_ambiguous_timeout (rw_simulator w)\<rparr>)) (\<lambda>_. sound A sim0) (sound A sim0)"
    by (simp add: hoare_def modS_def sound_def refund_inv_def inject_ambiguous_timeout_def)
qed (intro point_start point_end quiet_intros)

lemma statement_recorded:
  assumes "refund_inv A sim0 d sim recs" "approver_of st \<in> A mid"
  shows "refund_inv A sim0 (d\<lparr>rd_approval_statements := (rd_approval_statements d)(mid := rd_approval_statements d mid @ [st])\<rparr>) sim recs"
  using assms(2) by (intro refund_inv_grows [OF assms(1)])
    (use assms(1) in \<open>auto simp: refund_inv_def grows_def statements_ok_def quorums_ok_def known_moved_def\<close>)

lemma grant_registered:
  assumes "refund_inv A sim0 d sim recs" "grant_justified A d g"
  shows "refund_inv A sim0 (d\<lparr>rd_grants := (rd_grants d)(gid := Some g), rd_grants_by_manifest := x\<rparr>) sim recs"
  by (rule refund_inv_grows [OF assms(1)])
    (use assms in \<open>auto simp: refund_inv_def grows_def statements_ok_def quorums_ok_def known_moved_def grant_justified_def approved_def
      split: if_splits\<close>)

lemma issue_sound:
  assumes "rd_sealed_manifests d mid = Some sealed" "rd_approval_policy_bundles d mid = Some qb"
  shows "hoare (point A sim0 d) (issue_refund_grant R mid sealed (rd_approval_statements d mid) qb now ttl pb) (\<lambda>_. sound A sim0) (sound A sim0)"
  unfolding issue_refund_grant_def register_grant_def
proof (intro point_bind point_set point_end quiet_intros grant_registered)
  fix g s s'
  assume p: "point A sim0 d s"
    and g: "ks_as 403 (on_engine (authorize_with_quorum (rc_engine R) sealed (rd_approval_statements d mid) qb (m_actor (sm_manifest sealed))
      (refund_grant_args R quorum_service sealed now ttl pb))) s = (Inr g, s')"
  have i: "statements_ok A d" "quorums_ok d"
    using p by (auto simp: point_def sound_def refund_inv_def)
  obtain x where x: "rd_assessments d mid = Some x"
    "approval_policy_from_bundle_payload (pb_payload (spb_bundle qb)) = Inr (quorum_policy mid x)"
    using i(2) assms(2) by (auto simp: quorums_ok_def)
  obtain t where t: "authorize_with_quorum (rc_engine R) sealed (rd_approval_statements d mid) qb (m_actor (sm_manifest sealed))
      (refund_grant_args R quorum_service sealed now ttl pb) (rw_engine s) = (Inr g, t)"
    using g by (auto simp: monad_simps)
  show "grant_justified A d g"
    using quorum_grant_approvers [OF t x(2), where U = "A mid"] i(1) x(1) assms(1)
    unfolding grant_justified_def approved_def statements_ok_def by blast
qed

lemma approve_end:
  assumes "rd_sealed_manifests d mid = Some sealed" "rd_approval_policy_bundles d mid = Some qb" "ss = rd_approval_statements d mid"
  shows "hoare (point A sim0 d) (if c then ret v else bindE (issue_refund_grant R mid sealed ss qb now ttl pb) (\<lambda>g. ret (f g)))
    (\<lambda>_. sound A sim0) (sound A sim0)"
  unfolding assms(3) using issue_sound [OF assms(1,2)]
  by (auto intro!: hoare_bindE [where Q = "\<lambda>_. sound A sim0"] hoare_ret simp: point_sound)

lemma approve_sound:
  assumes "gu_user_id u \<in> A mid"
  shows "hoare (sound A sim0) (approve_refund R u mid ttl pbid) (\<lambda>_. sound A sim0) (sound A sim0)"
  unfolding approve_refund_def Let_def
  apply (intro point_start point_rules)
  subgoal by (cases pbid) (auto intro!: quiet_intros)
  subgoal by (simp add: statement_recorded sign_refund_approval_approver assms)
  subgoal by (rule approve_end) simp_all
  done

text \<open>Executing: the provider moves only when the engine's gates hold.\<close>

lemma payment_commit_new:
  assumes "get_payment (snd (payment_commit m s)) k = Some p" "get_payment s k \<noteq> Some p"
  shows "pay_status p = PaymentFailed \<or> k = m_idempotency_key m
    \<and> (\<exists>source cur fee ref. payment_args m = Inr (source, pay_beneficiary p, pay_amount_minor_units p, cur, fee, ref))"
proof (cases "payment_args m")
  case (Inr q)
  then obtain source ben amount cur fee ref where q: "payment_args m = Inr (source, ben, amount, cur, fee, ref)"
    by (cases q) auto
  obtain r s' where e: "submit_payment (m_idempotency_key m) source ben amount cur fee ref s = (r, s')"
    by fastforce
  have k: "get_payment s' k = Some p"
    using assms(1) by (simp add: payment_commit_submit q e)
  from e show ?thesis
  proof (cases rule: submit_payment_cases)
    case (failed p')
    then show ?thesis using k assms(2) by (auto simp: get_payment_def update_conv' split: if_splits)
  next
    case (settled p' b)
    then show ?thesis using k assms(2) q by (auto simp: get_payment_def update_conv' split: if_splits)
  qed (use k assms(2) in auto)
qed (use assms in \<open>simp add: payment_commit_submit\<close>)

lemma commit_payment_sound:
  assumes "rd_sealed_manifests d mid = Some sealed" "rd_grants d gid = Some g"
  shows "hoare (point A sim0 d) (commit_payment R sealed g pb) (\<lambda>_. point A sim0 d) (sound A sim0)"
  unfolding commit_payment_def
proof (rule point_bind)
  fix adapter s s' w
  let ?m = "sm_manifest sealed"
  show "hoare (point A sim0 d) (\<lambda>w. case commit (rc_engine R) sealed g adapter pb None None (rw_engine w) of
       (r, s) \<Rightarrow> (r, w\<lparr>rw_engine := s, rw_simulator := (if e_effects s = e_effects (rw_engine w) then rw_simulator w
                      else snd (payment_commit ?m (rw_simulator w)))\<rparr>)) (\<lambda>_. point A sim0 d) (sound A sim0)"
  proof -
    have "point A sim0 d (w\<lparr>rw_engine := t, rw_simulator := (if e_effects t = e_effects (rw_engine w) then rw_simulator w
                      else snd (payment_commit ?m (rw_simulator w)))\<rparr>)"
      if w: "point A sim0 d w" and c: "commit (rc_engine R) sealed g adapter pb None None (rw_engine w) = (r, t)" for w r t
    proof (cases "e_effects t = e_effects (rw_engine w)")
      case True
      have "quiet w (w\<lparr>rw_engine := t\<rparr>)"
        using keepsD [OF adv.commit_keeps c] by (simp add: quiet_def)
      then show ?thesis
        using point_quiet [OF _ w] True by simp
    next
      case False
      obtain amount s1 where "commit_checks (rc_engine R) sealed g adapter pb None None (rw_engine w) = (Inr (), s1)"
        using commit_phases [OF c False] by metis
      from commit_checks_gates [OF this] have gates: "g_manifest_hash g = Some (s_manifest_hash (sm_seal sealed))"
        "m_effect_type ?m \<in> set (g_allowed_effect_types g)"
        by (simp_all add: commit_gates_hold_def Let_def)
      have i: "refund_inv A sim0 d (rw_simulator w) (e_records (rw_engine w))"
        using w by (auto simp: point_def sound_def)
      then have j: "payable ?m" "grant_justified A d g"
        using assms by (auto simp: refund_inv_def)
      have pay: "get_payment sim0 k = Some p \<or> pay_status p = PaymentFailed \<or> paid_for A d k p"
        if p: "get_payment (snd (payment_commit ?m (rw_simulator w))) k = Some p" for k p
      proof (cases "get_payment (rw_simulator w) k = Some p")
        case True
        then show ?thesis using i by (simp add: refund_inv_def)
      next
        case new: False
        from payment_commit_new [OF p new] show ?thesis
        proof
          assume a: "k = m_idempotency_key ?m
            \<and> (\<exists>source cur fee ref. payment_args ?m = Inr (source, pay_beneficiary p, pay_amount_minor_units p, cur, fee, ref))"
          then have "m_effect_type ?m = ''payment.transfer''"
            using j(1) by (auto simp: payable_def)
          then have "approved A d (s_manifest_hash (sm_seal sealed))"
            using j(2) gates by (auto simp: grant_justified_def)
          then show ?thesis
            using a assms(1) unfolding paid_for_def by blast
        qed simp
      qed
      have "known_moved d (e_records t)"
        using i moved_on_advance [OF keepsD [OF adv.commit_keeps c]] by (auto simp: refund_inv_def known_moved_def)
      then show ?thesis
        using w i pay False by (simp add: point_def sound_def refund_inv_def)
    qed
    then show ?thesis
      by (intro hoareI) (auto intro: point_sound split: prod.splits)
  qed
qed (rule quiet_intros)

lemma hoare_ks_as: "hoare P m Q E \<Longrightarrow> hoare P (ks_as code m) Q E"
  by (rule hoareI) (auto simp: ks_as_def rename_error_def split: prod.splits sum.splits dest: hoare_Inr hoare_Inl)

lemma execute_sound: "hoare (sound A sim0) (execute_refund R mid gid) (\<lambda>_. sound A sim0) (sound A sim0)"
proof (rule point_start)
  fix d
  have pb: "keeps quiet (case g_policy_bundle_hash g of None \<Rightarrow> ret None
       | Some h \<Rightarrow> bindE (dict rd_policy_bundles) (\<lambda>bundles. bindE (must 409 (policy_bundle_by_hash bundles h)) (\<lambda>b. ret (Some b))))" for g
    by (cases "g_policy_bundle_hash g") (auto intro!: quiet_intros)
  show "hoare (point A sim0 d) (execute_refund R mid gid) (\<lambda>_. sound A sim0) (sound A sim0)"
    unfolding execute_refund_def
    by (rule point_lookup, rule point_lookup, rule point_bind [OF pb],
        rule hoare_bindE [OF hoare_ks_as [OF commit_payment_sound]], assumption, assumption,
        intro point_set point_then point_end quiet_intros, simp)
qed

text \<open>A handler that finds a new manifest: the invariant holds, and the engine has moved it on.\<close>

definition point_new :: "(string \<Rightarrow> string set) \<Rightarrow> payment_simulator \<Rightarrow> refund_dicts \<Rightarrow> string \<Rightarrow> ('s, 'l, 'o) refund_world \<Rightarrow> bool" where
  "point_new A sim0 d mid w \<longleftrightarrow> point A sim0 d w \<and> moved_on (e_records (rw_engine w)) mid
     \<and> rd_sealed_manifests d mid = None \<and> rd_assessments d mid = None"

lemma point_new_bind:
  assumes "keeps quiet m"
    and "\<And>s x s'. m s = (Inr x, s') \<Longrightarrow> \<not> moved_on (e_records (rw_engine s)) (i x) \<and> moved_on (e_records (rw_engine s')) (i x) \<and> F x"
    and "\<And>x. F x \<Longrightarrow> hoare (point_new A sim0 d (i x)) (f x) Q (sound A sim0)"
  shows "hoare (point A sim0 d) (bindE m f) Q (sound A sim0)"
proof (rule hoare_bindE)
  show "hoare (point A sim0 d) m (\<lambda>x s. F x \<and> point_new A sim0 d (i x) s) (sound A sim0)"
  proof (rule hoareI)
    fix s x s'
    assume p: "point A sim0 d s" and m: "m s = (Inr x, s')"
    have "known_moved d (e_records (rw_engine s))"
      using p by (auto simp: point_def sound_def refund_inv_def)
    then show "F x \<and> point_new A sim0 d (i x) s'"
      using assms(2) [OF m] point_quiet [OF keepsD [OF assms(1) m] p] by (auto simp: point_new_def known_moved_def)
  qed (blast intro: point_sound point_quiet keepsD [OF assms(1)])
  show "hoare (\<lambda>s. F x \<and> point_new A sim0 d (i x) s) (f x) Q (sound A sim0)" for x
    using assms(3) [of x] by (auto simp: hoare_def)
qed

lemma point_new_set:
  assumes "\<And>sim recs. refund_inv A sim0 d sim recs \<Longrightarrow> moved_on recs mid \<Longrightarrow> rd_sealed_manifests d mid = None
      \<Longrightarrow> rd_assessments d mid = None \<Longrightarrow> refund_inv A sim0 (g d) sim recs"
    and "hoare (point A sim0 (g d)) k Q (sound A sim0)"
  shows "hoare (point_new A sim0 d mid) (thenE (set_dict g) k) Q (sound A sim0)"
proof -
  have "hoare (point_new A sim0 d mid) (set_dict g) (\<lambda>_. point A sim0 (g d)) (sound A sim0)"
    using assms(1) by (auto simp: hoare_def set_dict_def modS_def point_new_def point_def sound_def)
  then show ?thesis
    using assms(2) by (rule hoare_thenE)
qed

lemma no_quorum_for_unassessed:
  "quorums_ok d \<Longrightarrow> rd_assessments d mid = None \<Longrightarrow> rd_approval_policy_bundles d mid = None"
  unfolding quorums_ok_def by (metis not_None_eq)

lemma manifest_recorded:
  assumes "refund_inv A sim0 d sim recs" "moved_on recs mid" "rd_sealed_manifests d mid = None" "rd_assessments d mid = None"
    "payable (sm_manifest sealed)"
  shows "refund_inv A sim0 (d\<lparr>rd_sealed_manifests := (rd_sealed_manifests d)(mid := Some sealed)\<rparr>) sim recs"
    "refund_inv A sim0 (d\<lparr>rd_sealed_manifests := (rd_sealed_manifests d)(mid := Some sealed),
       rd_assessments := (rd_assessments d)(mid := Some a)\<rparr>) sim recs"
proof -
  have i: "statements_ok A d" "quorums_ok d" "known_moved d recs"
    using assms(1) by (simp_all add: refund_inv_def)
  note none = no_quorum_for_unassessed [OF i(2) assms(4)]
  show "refund_inv A sim0 (d\<lparr>rd_sealed_manifests := (rd_sealed_manifests d)(mid := Some sealed)\<rparr>) sim recs"
    by (rule refund_inv_grows [OF assms(1)])
      (use assms i in \<open>auto simp: grows_def statements_ok_def quorums_ok_def known_moved_def split: if_splits\<close>)
  show "refund_inv A sim0 (d\<lparr>rd_sealed_manifests := (rd_sealed_manifests d)(mid := Some sealed),
       rd_assessments := (rd_assessments d)(mid := Some a)\<rparr>) sim recs"
    by (rule refund_inv_grows [OF assms(1)])
      (use assms i none in \<open>auto simp: grows_def statements_ok_def quorums_ok_def known_moved_def split: if_splits\<close>)
qed

lemma quorum_recorded:
  assumes "refund_inv A sim0 d sim recs" "rd_assessments d mid = Some a"
    "approval_policy_from_bundle_payload (pb_payload (spb_bundle qb)) = Inr (quorum_policy mid a)"
  shows "refund_inv A sim0 (d\<lparr>rd_approval_policy_bundles := (rd_approval_policy_bundles d)(mid := Some qb)\<rparr>) sim recs"
  by (rule refund_inv_grows [OF assms(1)])
    (use assms in \<open>auto simp: refund_inv_def grows_def statements_ok_def quorums_ok_def known_moved_def\<close>)

lemma quorum_bundle_payload:
  assumes "approval_policy_validate (quorum_policy mid a) = Inr ()"
    "build_approval_policy_bundle (quorum_policy mid a) bid v issuer c f t i = Inr bundle"
    "seal_policy_bundle cr bundle key now = Inr qb"
  shows "approval_policy_from_bundle_payload (pb_payload (spb_bundle qb)) = Inr (quorum_policy mid a)"
proof -
  have "pb_payload (spb_bundle qb) = approval_policy_dict (quorum_policy mid a)"
    using assms(2,3) by (auto simp: build_approval_policy_bundle_def seal_policy_bundle_def Let_def thenR_def result_simps split: if_splits)
  then show ?thesis
    using approval_policy_payload_roundtrip [OF assms(1)] by (simp add: quorum_policy_def DEFAULT_APPROVAL_POLICY_def)
qed

lemma compensate_sound: "hoare (sound A sim0) (compensate_refund R u mid ttl) (\<lambda>_. sound A sim0) (sound A sim0)"
proof (rule point_start)
  fix d
  show "hoare (point A sim0 d) (compensate_refund R u mid ttl) (\<lambda>_. sound A sim0) (sound A sim0)"
    unfolding compensate_refund_def Let_def register_grant_def
    apply (rule point_lookup, rule point_lookup, rule point_dict, rule point_then [OF quiet_basic(3)])
    apply (rule point_bind, intro quiet_intros)
    apply (rule point_bind, intro quiet_intros)
    apply (rule point_new_bind [where i = "\<lambda>(compensation, g, result). m_manifest_id (sm_manifest compensation)"
          and F = "\<lambda>(compensation, g, result). payable (sm_manifest compensation) \<and> ''payment.transfer'' \<notin> set (g_allowed_effect_types g)"])
      apply (intro quiet_intros)
     apply (auto simp: monad_simps dest: compensated_new) []
    apply (clarsimp split: prod.split)
    apply (rule point_new_set)
     apply (rule manifest_recorded(1); assumption)
    apply (rule point_set, erule grant_registered, simp add: grant_justified_def)
    apply (rule point_set, simp)
    apply (intro point_rules point_end)
    done
qed

lemma point_liftR:
  "(\<And>x. r = Inr x \<Longrightarrow> hoare (point A sim0 d) (k x) Q (sound A sim0)) \<Longrightarrow> hoare (point A sim0 d) (bindE (liftR r) k) Q (sound A sim0)"
  by (rule point_bind) (auto simp: monad_simps intro!: quiet_intros)

lemmas quiet_pure = keeps_pure [OF quiet_refl]

lemma propose_end:
  assumes "rd_assessments d mid = Some a" and quiet: "\<And>qb. keeps quiet (k qb)"
  shows "hoare (point A sim0 d)
     (bindE (rnow R) (\<lambda>now.
      thenE (liftR (approval_policy_validate (quorum_policy mid a)))
      (bindE (liftR (build_approval_policy_bundle (quorum_policy mid a) (''refund-quorum-'' @ mid) ''1.0'' quorum_service now now None
          (Some (rc_org_id R)))) (\<lambda>bundle.
      bindE (rnow R) (\<lambda>t.
      bindE (liftR (seal_policy_bundle (ctx_crypto (rc_engine R)) bundle (rc_signing_key R) t)) (\<lambda>quorum_bundle.
      thenE (set_dict (\<lambda>d. d\<lparr>rd_approval_policy_bundles := (rd_approval_policy_bundles d)(mid := Some quorum_bundle)\<rparr>))
      (k quorum_bundle)))))))
     (\<lambda>_. sound A sim0) (sound A sim0)"
proof (rule point_bind)
  fix now s s'
  show "hoare (point A sim0 d) (thenE (liftR (approval_policy_validate (quorum_policy mid a)))
      (bindE (liftR (build_approval_policy_bundle (quorum_policy mid a) (''refund-quorum-'' @ mid) ''1.0'' quorum_service now now None
          (Some (rc_org_id R)))) (\<lambda>bundle.
      bindE (rnow R) (\<lambda>t.
      bindE (liftR (seal_policy_bundle (ctx_crypto (rc_engine R)) bundle (rc_signing_key R) t)) (\<lambda>quorum_bundle.
      thenE (set_dict (\<lambda>d. d\<lparr>rd_approval_policy_bundles := (rd_approval_policy_bundles d)(mid := Some quorum_bundle)\<rparr>))
      (k quorum_bundle)))))) (\<lambda>_. sound A sim0) (sound A sim0)"
    unfolding thenE_def
    by (intro point_liftR point_bind [OF quiet_engine_calls(1)])
      (intro point_set [unfolded thenE_def] point_end quiet; simp add: quorum_recorded assms(1) quorum_bundle_payload)
qed (rule quiet_intros)

lemma propose_sound: "hoare (sound A sim0) (propose_refund R b) (\<lambda>_. sound A sim0) (sound A sim0)"
proof (rule point_start)
  fix d
  show "hoare (point A sim0 d) (propose_refund R b) (\<lambda>_. sound A sim0) (sound A sim0)"
    unfolding propose_refund_def Let_def
    apply (rule point_liftR, rule point_liftR, rule point_bind, intro quiet_intros, rule point_liftR)
    apply (rule point_new_bind [where i = "\<lambda>(m, sealed, a). m_manifest_id m"
          and F = "\<lambda>(m, sealed, a). sm_manifest sealed = m \<and> payable m"])
      apply (intro quiet_intros)
     apply (auto dest: proposed_new) []
    apply (simp only: split_paired_all prod.case, elim conjE, hypsubst_thin)
    apply (rule point_new_set)
     apply (rule manifest_recorded(2); assumption)
    subgoal for actor requester active
      by (cases active; simp only: option.case)
        (rule point_then [OF quiet_pure(1)] point_set, (simp; fail)?, rule propose_end, (simp; fail), intro quiet_intros)+
    done
qed

section \<open>No payment without its quorum\<close>

definition approves :: "(string \<Rightarrow> string set) \<Rightarrow> refund_op \<Rightarrow> bool" where
  "approves A c \<longleftrightarrow> (case c of CApprove u mid ttl pb \<Rightarrow> gu_user_id u \<in> A mid | _ \<Rightarrow> True)"

lemma call_sound: "approves A c \<Longrightarrow> hoare (sound A sim0) (refund_call R c) (\<lambda>_. sound A sim0) (sound A sim0)"
  by (cases c) (simp_all add: approves_def activate_sound propose_sound approve_sound deny_sound execute_sound verify_sound
      recover_sound compensate_sound inject_sound)

lemma hoare_snd: "hoare P m (\<lambda>_. Q) Q \<Longrightarrow> P s \<Longrightarrow> Q (snd (m s))"
  by (cases "m s"; cases "fst (m s)") (auto dest: hoare_Inr hoare_Inl)

definition refund_start :: "('s, 'l, 'o) engine \<Rightarrow> payment_simulator \<Rightarrow> ('s, 'l, 'o) refund_world" where
  "refund_start e sim = \<lparr>rw_engine = e, rw_simulator = sim, rw_dicts = no_refunds, rw_store = (\<lambda>_ _. None)\<rparr>"

lemma approvers_snoc:
  "approvers (calls @ [(R, c)]) mid = approvers calls mid
     \<union> (case c of CApprove u m ttl pb \<Rightarrow> if m = mid then {gu_user_id u} else {} | _ \<Rightarrow> {})"
  by (cases c) (auto simp: approvers_def)

lemma finite_approvers: "finite (approvers calls mid)"
  by (induction calls rule: rev_induct) (auto simp: approvers_snoc split: prod.split refund_op.split, simp add: approvers_def)

lemma run_sound: "sound (approvers calls) sim (refund_run (refund_start e sim) calls)"
proof (induction calls rule: rev_induct)
  case Nil
  show ?case
    by (simp add: sound_def refund_start_def refund_inv_def statements_ok_def quorums_ok_def known_moved_def no_refunds_def finite_approvers)
next
  case (snoc x xs)
  obtain R c where x: "x = (R, c)" by fastforce
  have "sound (approvers (xs @ [x])) sim (refund_run (refund_start e sim) xs)"
    unfolding sound_def
    by (rule refund_inv_more_approvers [OF snoc.IH [unfolded sound_def]])
      (use finite_approvers [of "xs @ [x]"] in \<open>simp add: x approvers_snoc\<close>)
  moreover have "approves (approvers (xs @ [x])) c"
    by (cases c) (simp_all add: approves_def x approvers_snoc)
  ultimately show ?case
    using hoare_snd [OF call_sound] by (simp add: x)
qed

text \<open>C3. No refund is paid without its quorum.  Start with no refunds on record and let any calls of the
  refund routes follow, by any users, whatever fails.  A payment the provider settled since then is for
  the beneficiary and the amount of a manifest on record, under its idempotency key, and a manifest of
  that very hash was proposed, assessed, and approved by at least as many different users, the requesting
  agent not among them, as its assessment requires.\<close>

theorem no_payment_without_quorum:
  "case get_payment (rw_simulator (refund_run (refund_start e sim) calls)) k of
     None \<Rightarrow> True
   | Some p \<Rightarrow> get_payment sim k = Some p \<or> pay_status p = PaymentFailed
       \<or> paid_for (approvers calls) (rw_dicts (refund_run (refund_start e sim) calls)) k p"
  using run_sound [of calls sim e] by (auto simp: sound_def refund_inv_def split: option.split)

end
