(* ===== verification/RefundRestart.thy ===== *)
theory RefundRestart
  imports RefundSafety EngineBackends
begin

text \<open>
  What survives: a restart, which rebuilds the dictionaries of the refund journey from the rows of the
  store (\<^verbatim>\<open>gateway/refund_state.py\<close>), and a denial, which is a record of the journal.
\<close>

section \<open>Rows and dictionaries\<close>

text \<open>The dictionaries apart from the policy bundles, whose order shows, and these as a map: what is kept in
  memory and what the rows give back.\<close>

definition in_memory :: "refund_dicts \<Rightarrow> refund_dicts \<times> (string \<Rightarrow> sealed_policy_bundle option)" where
  "in_memory d = (d\<lparr>rd_policy_bundles := []\<rparr>, map_of (rd_policy_bundles d))"

definition in_rows :: "refund_store \<Rightarrow> refund_dicts \<times> (string \<Rightarrow> sealed_policy_bundle option)" where
  "in_rows st = (rehydrate_refund_state [] st, load as_policy_bundle st BPolicyBundle)"

definition synced :: "('s, 'l, 'o) refund_world \<Rightarrow> bool" where
  "synced w \<longleftrightarrow> in_memory (rw_dicts w) = in_rows (rw_store w) \<and> distinct (map fst (rd_policy_bundles (rw_dicts w)))"

lemma map_filter_agree: "(\<And>x. x \<in> set xs \<Longrightarrow> f x = g x) \<Longrightarrow> List.map_filter f xs = List.map_filter g xs"
  by (induction xs) (auto split: option.split)

lemma map_filter_map_of: "distinct (map fst xs) \<Longrightarrow> List.map_filter (\<lambda>k. map_option (Pair k) (map_of xs k)) (map fst xs) = xs"
proof (induction xs)
  case (Cons x xs)
  have "List.map_filter (\<lambda>k'. map_option (Pair k') (map_of (x # xs) k')) (map fst xs)
    = List.map_filter (\<lambda>k'. map_option (Pair k') (map_of xs k')) (map fst xs)"
  proof (rule map_filter_agree)
    fix k
    assume "k \<in> set (map fst xs)"
    then have "k \<noteq> fst x" using Cons.prems by (metis distinct.simps(2) list.map(2))
    then show "map_option (Pair k) (map_of (x # xs) k) = map_option (Pair k) (map_of xs k)"
      by (cases x) simp
  qed
  then show ?case
    using Cons by (cases x) simp
qed simp

lemma synced_restart:
  assumes "synced w"
  shows "rehydrate_refund_state (map fst (rd_policy_bundles (rw_dicts w))) (rw_store w) = rw_dicts w"
proof -
  let ?d = "rw_dicts w"
  have r: "rehydrate_refund_state [] (rw_store w) = ?d\<lparr>rd_policy_bundles := []\<rparr>"
    and m: "load as_policy_bundle (rw_store w) BPolicyBundle = map_of (rd_policy_bundles ?d)"
    using assms by (simp_all add: synced_def in_memory_def in_rows_def)
  have "rehydrate_refund_state order (rw_store w) = (rehydrate_refund_state [] (rw_store w))
      \<lparr>rd_policy_bundles := List.map_filter (\<lambda>k. map_option (Pair k) (load as_policy_bundle (rw_store w) BPolicyBundle k)) order\<rparr>" for order
    by (simp add: rehydrate_refund_state_def)
  then show ?thesis
    using assms by (simp add: r m map_filter_map_of synced_def)
qed

text \<open>What a row written does to what the rows give back.\<close>

definition put_row :: "refund_store \<Rightarrow> bucket \<Rightarrow> string \<Rightarrow> refund_item \<Rightarrow> refund_store" where
  "put_row st b k x = st(b := (st b)(k := Some x))"

lemmas item_readers = as_sealed_manifest_def as_assessment_def as_grant_def as_grant_ids_def as_commit_result_def
  as_outcome_proof_def as_policy_bundle_def as_statements_def as_active_id_def

lemma load_put [simp]:
  "load f (put_row st b k x) b' = (if b' = b then (load f st b)(k := f x) else load f st b')"
  by (auto simp: load_def put_row_def fun_eq_iff)

lemma in_rows_put:
  "in_rows (put_row st BSealedManifest k (ISealedManifest v)) = apfst (\<lambda>r. r\<lparr>rd_sealed_manifests := (rd_sealed_manifests r)(k := Some v)\<rparr>) (in_rows st)"
  "in_rows (put_row st BAssessment k (IAssessment a)) = apfst (\<lambda>r. r\<lparr>rd_assessments := (rd_assessments r)(k := Some a)\<rparr>) (in_rows st)"
  "in_rows (put_row st BGrant k (IGrant g)) = apfst (\<lambda>r. r\<lparr>rd_grants := (rd_grants r)(k := Some g)\<rparr>) (in_rows st)"
  "in_rows (put_row st BGrantsByManifest k (IGrantIds ids)) = apfst (\<lambda>r. r\<lparr>rd_grants_by_manifest := (rd_grants_by_manifest r)(k := ids)\<rparr>) (in_rows st)"
  "in_rows (put_row st BCommitResult k (ICommitResult c)) = apfst (\<lambda>r. r\<lparr>rd_commit_results := (rd_commit_results r)(k := Some c)\<rparr>) (in_rows st)"
  "in_rows (put_row st BOutcomeProof k (IOutcomeProof p)) = apfst (\<lambda>r. r\<lparr>rd_outcome_proofs := (rd_outcome_proofs r)(k := Some p)\<rparr>) (in_rows st)"
  "in_rows (put_row st BPolicyBundle k (IPolicyBundle b)) = apsnd (\<lambda>f. f(k := Some b)) (in_rows st)"
  "in_rows (put_row st BApprovalPolicyBundle k (IPolicyBundle b)) = apfst (\<lambda>r. r\<lparr>rd_approval_policy_bundles := (rd_approval_policy_bundles r)(k := Some b)\<rparr>) (in_rows st)"
  "in_rows (put_row st BAssessmentPolicyBundle k (IPolicyBundle b)) = apfst (\<lambda>r. r\<lparr>rd_assessment_policy_bundles := (rd_assessment_policy_bundles r)(k := Some b)\<rparr>) (in_rows st)"
  "in_rows (put_row st BApprovalStatements k (IApprovalStatements ss)) = apfst (\<lambda>r. r\<lparr>rd_approval_statements := (rd_approval_statements r)(k := ss)\<rparr>) (in_rows st)"
  "in_rows (put_row st BActivePolicyBundleId ''_'' (IActivePolicyBundleId i)) = apfst (\<lambda>r. r\<lparr>rd_active_policy_bundle_id := i\<rparr>) (in_rows st)"
  by (simp_all add: in_rows_def rehydrate_refund_state_def item_readers or_empty_def fun_eq_iff)

section \<open>Answers\<close>

text \<open>A call is answered when it returns or raises an HTTP error of its own; any other exception is a crash of
  the request.  Triples that leave crashes out.\<close>

definition is_http :: "exn \<Rightarrow> bool" where
  "is_http e \<longleftrightarrow> (\<exists>c. e = HTTPException c)"

definition answers :: "('w \<Rightarrow> bool) \<Rightarrow> ('w, 'a) sem \<Rightarrow> ('a \<Rightarrow> 'w \<Rightarrow> bool) \<Rightarrow> ('w \<Rightarrow> bool) \<Rightarrow> bool" where
  "answers P m Q E \<longleftrightarrow> (\<forall>s. P s \<longrightarrow> (case m s of (Inr x, s') \<Rightarrow> Q x s' | (Inl e, s') \<Rightarrow> is_http e \<longrightarrow> E s'))"

definition crashes_only :: "('w, 'a) sem \<Rightarrow> bool" where
  "crashes_only m \<longleftrightarrow> (\<forall>s e s'. m s = (Inl e, s') \<longrightarrow> \<not> is_http e)"

lemma answersI:
  "(\<And>s x s'. P s \<Longrightarrow> m s = (Inr x, s') \<Longrightarrow> Q x s') \<Longrightarrow> (\<And>s e s'. P s \<Longrightarrow> m s = (Inl e, s') \<Longrightarrow> is_http e \<Longrightarrow> E s')
    \<Longrightarrow> answers P m Q E"
  by (auto simp: answers_def split: prod.splits sum.splits)

lemma answers_Inr: "answers P m Q E \<Longrightarrow> P s \<Longrightarrow> m s = (Inr x, s') \<Longrightarrow> Q x s'"
  by (auto simp: answers_def dest!: spec [of _ s])

lemma answers_Inl: "answers P m Q E \<Longrightarrow> P s \<Longrightarrow> m s = (Inl e, s') \<Longrightarrow> is_http e \<Longrightarrow> E s'"
  by (auto simp: answers_def dest!: spec [of _ s])

lemma answers_bindE: "answers P m Q E \<Longrightarrow> (\<And>x. answers (Q x) (f x) Q' E) \<Longrightarrow> answers P (bindE m f) Q' E"
  by (intro answersI) (auto simp: monad_simps dest: answers_Inr answers_Inl)

text \<open>Memory is \<open>d\<close>, the rows give back \<open>r\<close>.\<close>

definition held :: "refund_dicts \<Rightarrow> refund_dicts \<times> (string \<Rightarrow> sealed_policy_bundle option) \<Rightarrow> ('s, 'l, 'o) refund_world \<Rightarrow> bool" where
  "held d r w \<longleftrightarrow> rw_dicts w = d \<and> in_rows (rw_store w) = r"

definition level :: "refund_dicts \<Rightarrow> refund_dicts \<times> (string \<Rightarrow> sealed_policy_bundle option) \<Rightarrow> bool" where
  "level d r \<longleftrightarrow> in_memory d = r \<and> distinct (map fst (rd_policy_bundles d))"

definition same_rows :: "('s, 'l, 'o) refund_world \<Rightarrow> ('s, 'l, 'o) refund_world \<Rightarrow> bool" where
  "same_rows w w' \<longleftrightarrow> rw_dicts w' = rw_dicts w \<and> rw_store w' = rw_store w"

lemma synced_held: "synced w \<longleftrightarrow> level (rw_dicts w) (in_rows (rw_store w))"
  by (simp add: synced_def level_def)

lemma answers_start: "(\<And>d r. level d r \<Longrightarrow> answers (held d r) m Q E) \<Longrightarrow> answers synced m Q E"
  by (simp add: answers_def synced_held held_def)

lemma answers_level:
  assumes "level d r" "keeps same_rows m" "\<And>x. answers (held d r) (f x) Q synced"
  shows "answers (held d r) (bindE m f) Q synced"
proof (rule answers_bindE)
  show "answers (held d r) m (\<lambda>_. held d r) synced"
    using assms(1) keepsD [OF assms(2)] by (intro answersI) (force simp: held_def same_rows_def synced_held)+
qed (rule assms(3))

lemma answers_pending:
  assumes "crashes_only m" "keeps same_rows m" "\<And>x. answers (held d r) (f x) Q synced"
  shows "answers (held d r) (bindE m f) Q synced"
proof (rule answers_bindE)
  show "answers (held d r) m (\<lambda>_. held d r) synced"
    using assms(1) keepsD [OF assms(2)] by (intro answersI) (force simp: held_def same_rows_def crashes_only_def)+
qed (rule assms(3))

lemma answers_set:
  "answers (held (g d) r) k Q synced \<Longrightarrow> answers (held d r) (thenE (set_dict g) k) Q synced"
  by (auto simp: answers_def held_def set_dict_def modS_def thenE_def bindE_def)

lemma answers_put:
  assumes "\<And>st. in_rows (put_row st b i x) = F (in_rows st)" "answers (held d (F r)) k Q synced"
  shows "answers (held d r) (thenE (put_refund_state R b i x) k) Q synced"
  unfolding thenE_def
proof (rule answers_bindE)
  show "answers (held d r) (put_refund_state R b i x) (\<lambda>_. held d (F r)) synced"
    using assms(1) by (auto simp: answers_def held_def put_refund_state_def put_row_def bindE_def on_engine_def fresh_def raiseE_def
        modS_def is_http_def)
qed (rule assms(2))

lemmas answers_puts = in_rows_put [THEN answers_put]

lemma answers_dict: "answers (held d r) (k (f d)) Q synced \<Longrightarrow> answers (held d r) (bindE (dict f) k) Q synced"
  by (auto simp: answers_def held_def dict_def getS_def bindE_def)

lemma answers_synced: "answers synced m Q E \<Longrightarrow> level d r \<Longrightarrow> answers (held d r) m Q E"
  by (auto simp: answers_def held_def synced_held)

lemma synced_bind:
  assumes "keeps same_rows m" "\<And>x. answers synced (f x) Q synced"
  shows "answers synced (bindE m f) Q synced"
  by (rule answers_start, rule answers_level [OF _ assms(1)], assumption, rule answers_synced [OF assms(2)])

lemma synced_then: "keeps same_rows m \<Longrightarrow> answers synced k Q synced \<Longrightarrow> answers synced (thenE m k) Q synced"
  unfolding thenE_def by (rule synced_bind)

lemma synced_end: "keeps same_rows m \<Longrightarrow> answers synced m (\<lambda>_. synced) synced"
  by (intro answersI) (auto dest!: keepsD simp: same_rows_def synced_def)

lemma thenE_assoc: "thenE (thenE a b) k = thenE a (thenE b k)"
  by (auto simp: thenE_def bindE_def fun_eq_iff split: prod.splits sum.splits)

lemma answers_done: "level d r \<Longrightarrow> answers (held d r) (ret x) (\<lambda>_. synced) synced"
  by (simp add: answers_def held_def synced_held ret_def)

lemma answers_weaken: "answers P m (\<lambda>_. Q) E \<Longrightarrow> answers P (outcome_of m) (\<lambda>_. Q) E"
  by (auto simp: answers_def outcome_of_def split: prod.splits sum.splits)

section \<open>Handlers that leave memory and rows alone\<close>

lemma same_rows_refl: "reflp same_rows" and same_rows_trans: "transp same_rows"
  by (auto simp: same_rows_def intro!: reflpI transpI)

named_theorems row_intros "handlers that leave memory and rows alone"

lemmas [row_intros] = keeps_bindE [OF same_rows_trans] keeps_thenE [OF same_rows_trans] keeps_whenE [OF same_rows_refl]
  keeps_pure [OF same_rows_refl]

lemma rows_on_engine [row_intros]: "keeps same_rows (on_engine h)"
  by (auto simp: keeps_def same_rows_def on_engine_def split: prod.splits)

lemma rows_ks_as [row_intros]: "keeps same_rows m \<Longrightarrow> keeps same_rows (ks_as code m)"
  by (auto simp: keeps_def ks_as_def rename_error_def split: prod.splits sum.splits) (metis snd_conv)+

lemma rows_basic [row_intros]:
  "keeps same_rows (dict f)" "keeps same_rows (must code x)" "keeps same_rows (reject_if c code)"
  by (auto simp: dict_def must_def reject_if_def split: option.splits intro!: row_intros)

lemma rows_parts [row_intros]:
  "keeps same_rows (active_policy_bundle R)" "keeps same_rows (payment_now R)" "keeps same_rows (payment_for R q)"
  "keeps same_rows (sign_refund_approval R u sealed qb now ttl)" "keeps same_rows (run_compensation R u original c now ttl adapter)"
  unfolding active_policy_bundle_def payment_now_def payment_for_def sign_refund_approval_def run_compensation_def
  by (auto split: option.split intro!: row_intros)

lemma rows_commit [row_intros]: "keeps same_rows (commit_payment R sealed g pb)"
proof -
  have "keeps same_rows (\<lambda>w. case commit (rc_engine R) sealed g adapter pb None None (rw_engine w) of
       (r, s) \<Rightarrow> (r, w\<lparr>rw_engine := s, rw_simulator := f s w\<rparr>))" for adapter f
    by (auto simp: keeps_def same_rows_def split: prod.splits)
  then show ?thesis
    unfolding commit_payment_def by (intro row_intros)
qed

section \<open>Every answered call leaves memory and rows equal\<close>

lemmas persist_defs = persist_sealed_manifest_def persist_assessment_def persist_grant_and_index_def persist_commit_result_def
  persist_outcome_proof_def persist_policy_bundle_def persist_active_policy_bundle_id_def persist_approval_policy_bundle_def
  persist_assessment_policy_bundle_def persist_approval_statements_def

lemmas level_simps = level_def in_memory_def update_conv' distinct_update

lemma synced_write:
  "(\<And>d r. level d r \<Longrightarrow> answers (held d r) (thenE (set_dict g) k) Q synced) \<Longrightarrow> answers synced (thenE (set_dict g) k) Q synced"
  by (rule answers_start)

lemmas write_rules = synced_write answers_set answers_puts answers_dict answers_done
lemmas read_rules = write_rules synced_bind synced_then row_intros

lemma activate_synced: "answers synced (activate_policy R u b) (\<lambda>_. synced) synced"
  unfolding activate_policy_def Let_def persist_defs
  by (intro read_rules) (auto simp: level_simps intro!: refund_dicts.equality)

lemma store_proof_synced: "answers synced (store_proof R mid p) (\<lambda>_. synced) synced"
  unfolding store_proof_def persist_defs
  by (rule answers_start, intro write_rules) (auto simp: level_simps intro!: refund_dicts.equality)

lemma verify_synced: "answers synced (verify_refund R mid) (\<lambda>_. synced) synced"
  unfolding verify_refund_def by (intro read_rules store_proof_synced)

lemma recover_synced: "answers synced (recover_refund R mid) (\<lambda>_. synced) synced"
  unfolding recover_refund_def by (intro read_rules store_proof_synced)

lemma deny_synced: "answers synced (deny_refund R u mid reason) (\<lambda>_. synced) synced"
  unfolding deny_refund_def by (intro synced_end row_intros)

lemma inject_synced: "answers synced (inject_payment_simulator_ambiguity R u) (\<lambda>_. synced) synced"
proof -
  have "keeps same_rows (modS (\<lambda>w. w\<lparr>rw_simulator := f w\<rparr>))" for f :: "('s, 'l, 'o) refund_world \<Rightarrow> payment_simulator"
    by (simp add: keeps_def modS_def same_rows_def)
  then show ?thesis
    unfolding inject_payment_simulator_ambiguity_def by (intro synced_end row_intros)
qed

lemma execute_synced: "answers synced (execute_refund R mid gid) (\<lambda>_. synced) synced"
proof -
  have "keeps same_rows (case h of None \<Rightarrow> ret None
       | Some h \<Rightarrow> bindE (dict rd_policy_bundles) (\<lambda>bundles. bindE (must 409 (policy_bundle_by_hash bundles h)) (\<lambda>b. ret (Some b))))" for h
    by (cases h) (auto intro!: row_intros)
  then show ?thesis
    unfolding execute_refund_def persist_defs
    by (intro read_rules) (auto simp: level_simps intro!: refund_dicts.equality)
qed

lemma issue_synced: "answers synced (issue_refund_grant R mid sealed ss qb now ttl pb) (\<lambda>_. synced) synced"
  unfolding issue_refund_grant_def register_grant_def persist_defs thenE_assoc
  by (intro read_rules) (auto simp: level_simps intro!: refund_dicts.equality)

lemma compensate_synced: "answers synced (compensate_refund R u mid ttl) (\<lambda>_. synced) synced"
  unfolding compensate_refund_def register_grant_def persist_defs thenE_assoc Let_def
  apply (intro read_rules)
  apply (simp only: split_paired_all prod.case)
  apply (intro read_rules)
  apply (auto simp: level_simps intro!: refund_dicts.equality)
  done

lemma approve_synced: "answers synced (approve_refund R u mid ttl pbid) (\<lambda>_. synced) synced"
proof -
  have pb: "keeps same_rows (case pbid of
          Some bid \<Rightarrow> bindE (dict rd_policy_bundles) (\<lambda>bundles. bindE (must 404 (map_of bundles bid)) (\<lambda>b. ret (Some b)))
        | None \<Rightarrow> dict (\<lambda>d. rd_assessment_policy_bundles d mid))"
    by (cases pbid) (auto intro!: row_intros)
  have finish: "answers synced (if c then ret v else bindE (issue_refund_grant R mid sealed ss qb now ttl pb) (\<lambda>g. ret (f g))) (\<lambda>_. synced) synced"
    for c v sealed ss qb now pb f
    by (cases c) (auto intro!: synced_end row_intros answers_bindE [OF issue_synced])
  show ?thesis
    unfolding approve_refund_def persist_defs Let_def
    by (intro read_rules pb answers_synced finish) (auto simp: level_simps intro!: refund_dicts.equality)
qed

lemma allR_raises: "allR rs = Inl e \<Longrightarrow> Inl e \<in> set rs"
  by (induction rs) (auto simp: result_simps)

text \<open>What may raise between a change in memory and its row raises no HTTP error.\<close>

lemma crashes_only_calls: "crashes_only (rnow R)" "crashes_only (liftR (approval_policy_validate p))"
  "crashes_only (liftR (build_approval_policy_bundle p bid v issuer c f t i))" "crashes_only (liftR (seal_policy_bundle cr bundle key now))"
  by (auto simp: crashes_only_def is_http_def on_engine_def fresh_def liftR_def approval_policy_validate_def build_approval_policy_bundle_def
      bundle_validate_def id_length_check_def bundle_version_check_def seal_policy_bundle_def bundle_seal_validate_def Let_def result_simps
      eq_commute [of "Inl _" "raise_if _ _"] split: if_splits dest!: allR_raises)

lemma answers_pending_then:
  "crashes_only m \<Longrightarrow> keeps same_rows m \<Longrightarrow> answers (held d r) k Q synced \<Longrightarrow> answers (held d r) (thenE m k) Q synced"
  unfolding thenE_def by (rule answers_pending)

lemma then_ret: "thenE (ret ()) k = k"
  by (simp add: thenE_def bindE_def ret_def fun_eq_iff)

lemma synced_bind_fact:
  assumes "keeps same_rows m" "\<And>s x s'. m s = (Inr x, s') \<Longrightarrow> F x" "\<And>x. F x \<Longrightarrow> answers synced (f x) Q synced"
  shows "answers synced (bindE m f) Q synced"
proof (rule answers_bindE)
  show "answers synced m (\<lambda>x s. F x \<and> synced s) synced"
    using assms(2) keepsD [OF assms(1)] by (intro answersI) (force simp: same_rows_def synced_def)+
  show "answers (\<lambda>s. F x \<and> synced s) (f x) Q synced" for x
    using assms(3) [of x] by (auto simp: answers_def)
qed

lemma propose_synced: "answers synced (propose_refund R b) (\<lambda>_. synced) synced"
  unfolding propose_refund_def Let_def persist_defs
  apply (rule synced_bind, intro row_intros, rule synced_bind, intro row_intros, rule synced_bind, intro row_intros, rule synced_bind, intro row_intros)
  apply (rule synced_bind_fact [where F = "\<lambda>(m, sealed, a). sm_manifest sealed = m"])
    apply (intro row_intros)
   apply (auto dest: proposed_new(3)) []
  apply (simp only: split_paired_all prod.case, hypsubst_thin)
  subgoal for actor requester active
    by (cases active; simp only: option.case then_ret)
      (intro write_rules answers_pending answers_pending_then crashes_only_calls row_intros,
        auto simp: level_simps intro!: refund_dicts.equality)+
  done

section \<open>Restart\<close>

lemma call_synced: "answers synced (refund_call R c) (\<lambda>_. synced) synced"
  by (cases c) (simp_all add: answers_weaken activate_synced propose_synced approve_synced deny_synced execute_synced verify_synced
      recover_synced compensate_synced inject_synced)

primrec refund_results :: "('s, 'l, 'o) refund_world \<Rightarrow> (('s, 'l, 'o) refund_context \<times> refund_op) list \<Rightarrow> unit res list" where
  "refund_results w [] = []"
| "refund_results w (x # xs) =
     fst (refund_call (fst x) (snd x) w) # refund_results (snd (refund_call (fst x) (snd x) w)) xs"

definition answered :: "unit res \<Rightarrow> bool" where
  "answered r \<longleftrightarrow> (case r of Inl e \<Rightarrow> is_http e | Inr _ \<Rightarrow> True)"

lemma run_synced:
  "synced w \<Longrightarrow> list_all answered (refund_results w calls) \<Longrightarrow> synced (refund_run w calls)"
proof (induction calls arbitrary: w)
  case (Cons x calls)
  obtain R c where x: "x = (R, c)" by fastforce
  obtain r w' where r: "refund_call R c w = (r, w')" by fastforce
  have "answered r"
    using Cons.prems(2) by (simp add: x r)
  then have "synced w'"
    using call_synced [of R c] Cons.prems(1) r by (cases r) (auto simp: answered_def dest: answers_Inr answers_Inl)
  then show ?case
    using Cons.IH [of w'] Cons.prems(2) by (simp add: x r refund_run_def)
qed simp

lemma start_synced: "synced (refund_start e sim)"
  by (simp add: synced_def refund_start_def no_refunds_def in_memory_def in_rows_def rehydrate_refund_state_def load_def or_empty_def fun_eq_iff)


section \<open>Denial\<close>

definition denied :: "string \<Rightarrow> ('s, 'l, 'o) refund_world \<Rightarrow> bool" where
  "denied mid w \<longleftrightarrow> denial_event w mid \<noteq> None \<and> rd_sealed_manifests (rw_dicts w) mid \<noteq> None
     \<and> rd_grants_by_manifest (rw_dicts w) mid = [] \<and> moved_on (e_records (rw_engine w)) mid"

definition stays_denied :: "string \<Rightarrow> ('s, 'l, 'o) refund_world \<Rightarrow> ('s, 'l, 'o) refund_world \<Rightarrow> bool" where
  "stays_denied mid w w' \<longleftrightarrow> (denied mid w \<longrightarrow> denied mid w')"

lemma denial_event_iff: "denial_event w mid \<noteq> None \<longleftrightarrow> (\<exists>e \<in> set (e_journal (rw_engine w)). is_denial mid e)"
  by (auto simp: denial_event_def is_denial_def events_for_manifest_def am_ops_def find_None_iff)

lemma stays_refl: "reflp (stays_denied mid)" and stays_trans: "transp (stays_denied mid)"
  by (auto simp: stays_denied_def intro!: reflpI transpI)

named_theorems denial_intros "handlers that keep a denial"

lemmas [denial_intros] = keeps_bindE [OF stays_trans] keeps_thenE [OF stays_trans] keeps_whenE [OF stays_refl]
  keeps_pure [OF stays_refl]

lemma stays_engine:
  assumes "keeps records_advance h" "keeps (journal_grows cr) h"
  shows "keeps (stays_denied mid) (on_engine h)"
proof (rule keepsI)
  fix w r w'
  assume "on_engine h w = (r, w')"
  then obtain s where h: "h (rw_engine w) = (r, s)" and w': "w' = w\<lparr>rw_engine := s\<rparr>"
    by (auto simp: on_engine_def split: prod.splits)
  have "set (e_journal (rw_engine w)) \<subseteq> set (e_journal s)"
    using keepsD [OF assms(2) h] by (auto simp: journal_grows_def)
  then show "stays_denied mid w w'"
    using moved_on_advance [OF keepsD [OF assms(1) h]] unfolding stays_denied_def denied_def denial_event_iff w' by auto
qed

lemma stays_ks_as [denial_intros]: "keeps (stays_denied mid) m \<Longrightarrow> keeps (stays_denied mid) (ks_as code m)"
  by (auto simp: keeps_def ks_as_def rename_error_def split: prod.splits sum.splits) (metis snd_conv)+

lemma stays_basic [denial_intros]:
  "keeps (stays_denied mid) (dict f)" "keeps (stays_denied mid) (must code x)" "keeps (stays_denied mid) (reject_if c code)"
  by (auto simp: dict_def must_def reject_if_def split: option.splits intro!: denial_intros)

lemmas engine_records = adv.prepare_keeps adv.seal_keeps adv.assess_keeps adv.authorize_with_quorum_keeps
  adv.get_lifecycle_state_keeps adv.verify_keeps adv.recover_keeps adv.prepare_compensation_keeps
  adv.authorize_compensation_keeps adv.commit_compensation_keeps adv.audit_keeps

lemmas engine_journal = jf.prepare_keeps jf.seal_keeps jf.assess_keeps jf.authorize_with_quorum_keeps
  jf.get_lifecycle_state_keeps jf.verify_keeps jf.recover_keeps jf.prepare_compensation_keeps
  jf.authorize_compensation_keeps jou.commit_compensation_keeps jf.audit_keeps

lemma stays_fresh [denial_intros]: "keeps (stays_denied i) (on_engine (fresh f))"
  by (rule stays_engine [OF adv.fresh jf.fresh])

lemma stays_engine_calls [denial_intros]:
  "keeps (stays_denied i) (on_engine (audit C en))"
  "keeps (stays_denied i) (on_engine (prepare C adapter))" "keeps (stays_denied i) (on_engine (seal C m key))"
  "keeps (stays_denied i) (on_engine (assess C tx bound m facts policy))"
  "keeps (stays_denied i) (on_engine (authorize_with_quorum C sealed statements bundle proposer a))"
  "keeps (stays_denied i) (on_engine (get_lifecycle_state C mid))" "keeps (stays_denied i) (on_engine (verify C m result adapter))"
  "keeps (stays_denied i) (on_engine (recover_ambiguous_commit C m adapter))" "keeps (stays_denied i) (on_engine (prepare_compensation C m original))"
  "keeps (stays_denied i) (on_engine (authorize_compensation C original compensation a))"
  "keeps (stays_denied i) (on_engine (commit_compensation C original compensation grant adapter oc pb))"
  by (intro stays_engine [where cr = "ctx_crypto C"] engine_records engine_journal)+


lemma stays_same:
  assumes "\<And>w. rw_engine (f w) = rw_engine w" "\<And>w. rw_dicts (f w) = rw_dicts w"
  shows "keeps (stays_denied i) (modS f)"
  using assms by (auto simp: keeps_def modS_def stays_denied_def denied_def denial_event_def)

lemma stays_put [denial_intros]: "keeps (stays_denied i) (put_refund_state R b k x)"
  unfolding put_refund_state_def
  by (intro denial_intros) (auto intro!: denial_intros stays_same)

lemma stays_set:
  assumes "\<And>d. rd_sealed_manifests d i \<noteq> None \<Longrightarrow> rd_sealed_manifests (g d) i \<noteq> None"
    "\<And>d. rd_grants_by_manifest (g d) i = rd_grants_by_manifest d i"
  shows "keeps (stays_denied i) (set_dict g)"
  using assms by (auto simp: keeps_def set_dict_def modS_def stays_denied_def denied_def denial_event_def)

lemma stays_sets [denial_intros]:
  "keeps (stays_denied i) (set_dict (\<lambda>d. d\<lparr>rd_sealed_manifests := (rd_sealed_manifests d)(k1 := Some x1)\<rparr>))"
  "keeps (stays_denied i) (set_dict (\<lambda>d. d\<lparr>rd_sealed_manifests := (rd_sealed_manifests d)(k1 := Some x1),
     rd_assessments := (rd_assessments d)(k2 := Some x2)\<rparr>))"
  "keeps (stays_denied i) (set_dict (\<lambda>d. d\<lparr>rd_commit_results := (rd_commit_results d)(k3 := Some x3)\<rparr>))"
  "keeps (stays_denied i) (set_dict (\<lambda>d. d\<lparr>rd_outcome_proofs := (rd_outcome_proofs d)(k4 := Some x4)\<rparr>))"
  "keeps (stays_denied i) (set_dict (\<lambda>d. d\<lparr>rd_assessment_policy_bundles := (rd_assessment_policy_bundles d)(k5 := Some x5)\<rparr>))"
  "keeps (stays_denied i) (set_dict (\<lambda>d. d\<lparr>rd_approval_policy_bundles := (rd_approval_policy_bundles d)(k6 := Some x6)\<rparr>))"
  "keeps (stays_denied i) (set_dict (\<lambda>d. d\<lparr>rd_approval_statements := (rd_approval_statements d)(k7 := x7)\<rparr>))"
  "keeps (stays_denied i) (set_dict (\<lambda>d. d\<lparr>rd_policy_bundles := AList.update k8 x8 (rd_policy_bundles d), rd_active_policy_bundle_id := x9\<rparr>))"
  by (rule stays_set; simp)+

lemma stays_parts [denial_intros]:
  "keeps (stays_denied i) (active_policy_bundle R)" "keeps (stays_denied i) (payment_now R)" "keeps (stays_denied i) (payment_for R q)"
  "keeps (stays_denied i) (sign_refund_approval R u sealed qb now ttl)" "keeps (stays_denied i) (store_proof R mid p)"
  "keeps (stays_denied i) (run_compensation R u original c now ttl adapter)"
  unfolding active_policy_bundle_def payment_now_def payment_for_def sign_refund_approval_def store_proof_def run_compensation_def persist_defs
  by (auto split: option.split intro!: denial_intros)

lemma stays_commit_payment [denial_intros]: "keeps (stays_denied i) (commit_payment R sealed g pb)"
proof -
  have "keeps (stays_denied i) (\<lambda>w. case commit (rc_engine R) sealed g adapter pb None None (rw_engine w) of
       (r, s) \<Rightarrow> (r, w\<lparr>rw_engine := s, rw_simulator := f s w\<rparr>))" for adapter f
  proof (rule keepsI)
    fix w r w'
    assume "(case commit (rc_engine R) sealed g adapter pb None None (rw_engine w) of
       (r, s) \<Rightarrow> (r, w\<lparr>rw_engine := s, rw_simulator := f s w\<rparr>)) = (r, w')"
    then obtain s where c: "on_engine (commit (rc_engine R) sealed g adapter pb None None) w = (r, w\<lparr>rw_engine := s\<rparr>)"
      and w': "w' = w\<lparr>rw_engine := s, rw_simulator := f s w\<rparr>"
      by (auto simp: on_engine_def split: prod.splits)
    show "stays_denied i w w'"
      using keepsD [OF stays_engine [OF adv.commit_keeps jou.commit_keeps] c] by (simp add: w' stays_denied_def denied_def denial_event_def)
  qed
  then show ?thesis
    unfolding commit_payment_def by (intro denial_intros)
qed

text \<open>Only a new manifest gets a grant registered.\<close>

lemma stays_register: "mid \<noteq> i \<Longrightarrow> keeps (stays_denied i) (register_grant mid g)"
  unfolding register_grant_def by (rule stays_set) simp_all

lemma stays_approve: "keeps (stays_denied i) (approve_refund R u mid ttl pbid)"
proof (cases "mid = i")
  case False
  have "keeps (stays_denied i) (issue_refund_grant R mid sealed ss qb now ttl pb)" for sealed ss qb now pb
    unfolding issue_refund_grant_def persist_defs using stays_register [OF False] by (intro denial_intros)
  then show ?thesis
    unfolding approve_refund_def persist_defs Let_def by (auto intro!: denial_intros split: option.split)
next
  case True
  have "approve_refund R u mid ttl pbid w = (Inl (HTTPException 409), w)" if "denied i w" for w
    using that True by (auto simp: approve_refund_def denied_def bindE_def thenE_def dict_def getS_def must_def ret_def reject_if_def whenE_def raiseE_def)
  then show ?thesis
    by (metis keepsI stays_denied_def prod.inject)
qed

lemma stays_compensate: "keeps (stays_denied i) (compensate_refund R u mid ttl)"
proof -
  have rest: "keeps (stays_denied i) (bindE (ks_as 409 (run_compensation R u original oc now ttl adapter)) (\<lambda>(compensation, g, result). k compensation g result))"
    if "\<And>compensation g result. m_manifest_id (sm_manifest compensation) \<noteq> i \<Longrightarrow> keeps (stays_denied i) (k compensation g result)"
    for original oc now adapter and k :: "sealed_manifest \<Rightarrow> execution_grant \<Rightarrow> commit_result \<Rightarrow> ('a, 'b, 'c, compensation_answer) refund_handler"
  proof (rule keepsI)
    fix w r w'
    assume b: "bindE (ks_as 409 (run_compensation R u original oc now ttl adapter)) (\<lambda>(compensation, g, result). k compensation g result) w = (r, w')"
    obtain x t where x: "ks_as 409 (run_compensation R u original oc now ttl adapter) w = (x, t)" by fastforce
    have "keeps (stays_denied i) (ks_as 409 (run_compensation R u original oc now ttl adapter))"
      by (intro denial_intros)
    from keepsD [OF this x] have t: "stays_denied i w t" .
    show "stays_denied i w w'"
    proof (cases x)
      case (Inr y)
      obtain c g q where y: "y = (c, g, q)" by (cases y)
      have k: "k c g q t = (r, w')"
        using b x by (simp add: bindE_def Inr y)
      show ?thesis
      proof (cases "m_manifest_id (sm_manifest c) = i")
        case True
        then have "\<not> denied i w"
          using compensated_new(1) [of R u original oc now ttl adapter w c g q t] x by (auto simp: Inr y monad_simps denied_def)
        then show ?thesis by (simp add: stays_denied_def)
      next
        case False
        then show ?thesis
          using t keepsD [OF that [OF False] k] by (simp add: stays_denied_def)
      qed
    qed (use b x t in \<open>simp add: bindE_def\<close>)
  qed
  show ?thesis
    unfolding compensate_refund_def Let_def persist_defs
    by (intro denial_intros rest stays_register) assumption
qed

lemma stays_call: "keeps (stays_denied i) (refund_call R c)"
proof -
  have o: "keeps (stays_denied i) (outcome_of m)" if "keeps (stays_denied i) m" for m :: "('s, 'l, 'o, 'x) refund_handler"
    using that by (auto simp: keeps_def outcome_of_def split: prod.splits sum.splits) (metis snd_conv)+
  show ?thesis
  proof (cases c)
    case (CActivate u b)
    show ?thesis
      unfolding CActivate refund_call.simps activate_policy_def Let_def persist_defs by (intro o denial_intros)
  next
    case (CPropose b)
    have "keeps (stays_denied i) (propose_refund R b)"
      unfolding propose_refund_def Let_def persist_defs by (auto intro!: denial_intros split: option.split)
    then show ?thesis by (simp add: CPropose o)
  next
    case (CExecute mid gid)
    have "keeps (stays_denied i) (execute_refund R mid gid)"
      unfolding execute_refund_def persist_defs by (auto intro!: denial_intros split: option.split)
    then show ?thesis by (simp add: CExecute o)
  next
    case (CInject u)
    show ?thesis
      unfolding CInject refund_call.simps inject_payment_simulator_ambiguity_def by (intro o denial_intros stays_same) simp_all
  qed (simp_all add: o stays_approve stays_compensate deny_refund_def verify_refund_def recover_refund_def denial_intros)
qed

lemma deny_denies:
  assumes "deny_refund R u mid reason w = (Inr (), w')"
  shows "denied mid w'"
proof -
  obtain sealed st s1 en where
    d: "rd_sealed_manifests (rw_dicts w) mid = Some sealed" "rd_grants_by_manifest (rw_dicts w) mid = []"
    and g: "get_lifecycle_state (rc_engine R) mid (rw_engine w) = (Inr SEALED, s1)"
    and a: "audit (rc_engine R) en s1 = (Inr (), rw_engine w')" "en_event_type en = ''manifest.authorization_denied''"
      "en_manifest_id en = Some mid" "rw_dicts w' = rw_dicts w"
    using assms by (auto simp: deny_refund_def monad_simps entry_of_def)
  have "moved_on (e_records s1) mid"
    using g get_record_outcome [of "rc_engine R" mid "rw_engine w"] by (auto simp: get_lifecycle_state_def monad_simps moved_on_def)
  moreover have "e_records (rw_engine w') = e_records s1"
    using audit_same_records [OF a(1)] .
  moreover have "\<exists>e \<in> set (e_journal (rw_engine w')). is_denial mid e"
    using audit_ok [OF a(1)] a(2,3) by (force simp: is_denial_def)
  ultimately show ?thesis
    unfolding denied_def denial_event_iff using d a(4) by auto
qed

text \<open>C27. A denial is final.  Once a refund was denied, no later history of calls, of whatever users and
  whatever fails, gets a grant for it, and every further attempt to approve it is answered with 409.\<close>

theorem denial_final:
  assumes "deny_refund R u mid reason w = (Inr (), w')"
  shows "rd_grants_by_manifest (rw_dicts (refund_run w' calls)) mid = []
    \<and> fst (approve_refund R' u' mid ttl pb (refund_run w' calls)) = Inl (HTTPException 409)"
proof -
  have "denied mid (refund_run w' calls)"
  proof (induction calls rule: rev_induct)
    case (snoc x xs)
    obtain R c where "x = (R, c)" by fastforce
    then show ?case
      using snoc stays_call [of mid R c] by (auto simp: keeps_def stays_denied_def)
  qed (simp add: deny_denies [OF assms])
  then show ?thesis
    by (auto simp: denied_def approve_refund_def bindE_def thenE_def dict_def getS_def must_def ret_def reject_if_def whenE_def raiseE_def)
qed

section \<open>A concrete journey\<close>

definition toy_refunds :: "(mem_store, unit, unit) refund_context" where
  "toy_refunds = \<lparr>rc_engine = toy_context, rc_org_id = ''acme'', rc_signing_key = toy_key, rc_text = plain_text,
     rc_bound_policy = DEFAULT_INTELLIGENCE_POLICY, rc_put_fault = (\<lambda>_. False)\<rparr>"

text \<open>The manifest \<open>m-1\<close> is proposed and sealed.\<close>

definition toy_proposed :: "(mem_store, unit, unit) refund_world" where
  "toy_proposed = (refund_start (toy_engine\<lparr>e_records := [''m-1'' \<mapsto> record_in_state ''m-1'' SEALED]\<rparr>) sim_init)
     \<lparr>rw_dicts := no_refunds\<lparr>rd_sealed_manifests := [''m-1'' \<mapsto> toy_sealed]\<rparr>\<rparr>"

theorem denial_final_witness:
  "\<exists>w'. deny_refund toy_refunds demo_user ''m-1'' ''fraud'' toy_proposed = (Inr (), w')
     \<and> rd_grants_by_manifest (rw_dicts (refund_run w' [(toy_refunds, CApprove demo_user ''m-1'' 300 None)])) ''m-1'' = []
     \<and> fst (approve_refund toy_refunds demo_user ''m-1'' 300 None (refund_run w' [])) = Inl (HTTPException 409)"
proof -
  let ?s = "toy_engine\<lparr>e_records := [''m-1'' \<mapsto> record_in_state ''m-1'' SEALED]\<rparr>"
  let ?en = "(entry_of ''manifest.authorization_denied'' ''denied'' (Some ''m-1'') (Some (s_manifest_hash (sm_seal toy_sealed))) None
    (Some ''acme-owner'') [(''reason'', ''fraud'')])\<lparr>en_from_state := Some (state_value SEALED), en_to_state := Some (state_value SEALED)\<rparr>"
  obtain s' where s': "audit toy_context ?en ?s = (Inr (), s')"
    by (rule audit_calm [of toy_context ?en ?s]) (simp_all add: entry_fits_def entry_of_def journal_numbered_def)
  have "deny_refund toy_refunds demo_user ''m-1'' ''fraud'' toy_proposed = (Inr (), toy_proposed\<lparr>rw_engine := s'\<rparr>)"
    using s' by (simp add: deny_refund_def toy_refunds_def toy_proposed_def refund_start_def bindE_def thenE_def dict_def getS_def must_def
        ret_def reject_if_def whenE_def liftR_def unprocessable_def raise_if_def denial_event_def events_for_manifest_def am_ops_def
        no_refunds_def on_engine_def get_lifecycle_state_def get_record_def demo_user_def)
  from this denial_final [OF this] show ?thesis by blast
qed

text \<open>The same with an assessment that asks for two approvals, and the rows to it.\<close>

definition toy_assessed :: effect_assessment where
  "toy_assessed = \<lparr>as_assessment_id = ''a-1'', as_manifest_id = ''m-1'', as_manifest_hash = ''h'', as_policy_id = ''p'', as_policy_version = ''1.0'',
     as_policy_hash = ''h'', as_score = 50, as_risk_level = LEVEL_HIGH, as_signals = [], as_recommendation = REVIEW, as_required_human_approvals = 2,
     as_required_service_approvals = 0, as_cooling_off_period_seconds = 0, as_required_witness_quorum = 0,
     as_required_verification_strength = STANDARD, as_explanation = ''e'', as_assessed_at = 0\<rparr>"

definition toy_recorded :: "sealed_policy_bundle \<Rightarrow> (mem_store, unit, unit) refund_world" where
  "toy_recorded qb = toy_proposed\<lparr>rw_dicts := no_refunds\<lparr>rd_sealed_manifests := [''m-1'' \<mapsto> toy_sealed], rd_assessments := [''m-1'' \<mapsto> toy_assessed],
       rd_approval_policy_bundles := [''m-1'' \<mapsto> qb]\<rparr>,
     rw_store := put_row (put_row (put_row (\<lambda>_ _. None) BSealedManifest ''m-1'' (ISealedManifest toy_sealed))
       BAssessment ''m-1'' (IAssessment toy_assessed)) BApprovalPolicyBundle ''m-1'' (IPolicyBundle qb)\<rparr>"

lemma toy_recorded_synced: "synced (toy_recorded qb)"
proof -
  have "in_rows (\<lambda>_ _. None) = (no_refunds, Map.empty)"
    using start_synced [of toy_engine sim_init] by (simp add: synced_def refund_start_def in_memory_def no_refunds_def)
  then show ?thesis
    by (simp add: synced_def toy_recorded_def in_rows_put in_memory_def no_refunds_def)
qed

lemma toy_signs:
  assumes "digest_shape (ps_bundle_hash (spb_seal qb))"
  obtains st where "sign_refund_approval toy_refunds demo_user toy_sealed qb 50 300 w
    = (Inr st, w\<lparr>rw_engine := (rw_engine w)\<lparr>e_tick := Suc (Suc (Suc (e_tick (rw_engine w))))\<rparr>\<rparr>)"
proof -
  have k: "human ''acme-owner'' = Inr \<lparr>principal_id = ''acme-owner'', principal_type = HUMAN, display_name = None\<rparr>"
    by code_simp
  have v: "assert_supported_schema_version CURRENT_SCHEMA_VERSION = Inr ()"
    by code_simp
  have h: "digest_shape (s_manifest_hash (sm_seal toy_sealed))"
    using canonical_hash_shape [OF toy_crypto_ok] by (simp add: toy_sealed_def manifest_hash_def)
  show thesis
    by (rule that, simp add: sign_refund_approval_def ks_as_def rename_error_def bindE_def on_engine_def fresh_def liftR_def toy_refunds_def
        toy_context_def demo_user_def k sign_approval_statement_def statement_args_def Let_def statement_validate_def v h assms thenR_def
        raise_if_def id_length_check_def toy_key_def second_def)
qed

lemma toy_approval:
  assumes "digest_shape (ps_bundle_hash (spb_seal qb))"
  obtains st w' where "approve_refund toy_refunds demo_user ''m-1'' 300 None (toy_recorded qb)
      = (Inr \<lparr>an_grant_id = None, an_policy_bundle_hash = None, an_completed = 1, an_required = 2\<rparr>, w')"
    "rd_approval_statements (rw_dicts w') ''m-1'' = [st]"
proof -
  let ?w = "toy_recorded qb"
  have p: "rw_dicts ?w = no_refunds\<lparr>rd_sealed_manifests := [''m-1'' \<mapsto> toy_sealed], rd_assessments := [''m-1'' \<mapsto> toy_assessed],
       rd_approval_policy_bundles := [''m-1'' \<mapsto> qb]\<rparr>" "e_journal (rw_engine ?w) = []" "e_tick (rw_engine ?w) = 0"
    by (simp_all add: toy_recorded_def toy_proposed_def refund_start_def toy_engine_def)
  obtain st where st: "sign_refund_approval toy_refunds demo_user toy_sealed qb 50 300 (?w\<lparr>rw_engine := (rw_engine ?w)\<lparr>e_tick := 1\<rparr>\<rparr>)
    = (Inr st, ?w\<lparr>rw_engine := (rw_engine ?w)\<lparr>e_tick := 4\<rparr>\<rparr>)"
    using toy_signs [OF assms, of "?w\<lparr>rw_engine := (rw_engine ?w)\<lparr>e_tick := 1\<rparr>\<rparr>"] by (auto simp: numeral_eq_Suc)
  let ?s = "(rw_engine ?w)\<lparr>e_tick := 5\<rparr>"
  let ?en = "entry_of ''approval.statement_recorded'' ''approve'' (Some ''m-1'') (Some (s_manifest_hash (sm_seal toy_sealed))) None (Some ''acme-owner'')
     [(''statement_id'', st_statement_id st), (''completed_human_approvals'', nat_str 1), (''required_human_approvals'', int_str 2)]"
  have "st_statement_id st = ''u''"
    using st by (auto simp: sign_refund_approval_def monad_simps result_simps toy_refunds_def toy_context_def statement_args_def
        sign_approval_statement_def Let_def dest!: sym [of "Inr _"] split: if_splits)
  moreover have "length (nat_str 1) = 1" "length (int_str 2) = 1"
    by code_simp+
  ultimately obtain s' where s': "audit toy_context ?en ?s = (Inr (), s')"
    by - (rule audit_calm [of toy_context ?en ?s], simp_all add: entry_fits_def entry_of_def journal_numbered_def p)
  show thesis
    by (rule that [of "?w\<lparr>rw_engine := s', rw_dicts := (rw_dicts ?w)\<lparr>rd_approval_statements := (\<lambda>_. [])(''m-1'' := [st])\<rparr>,
        rw_store := put_row (rw_store ?w) BApprovalStatements ''m-1'' (IApprovalStatements [st])\<rparr>" st])
      (use st s' in \<open>simp_all add: approve_refund_def bindE_def thenE_def dict_def getS_def must_def ret_def p no_refunds_def denial_event_def
        events_for_manifest_def am_ops_def reject_if_def whenE_def on_engine_def fresh_def toy_refunds_def toy_context_def Let_def
        set_dict_def modS_def persist_approval_statements_def put_refund_state_def put_row_def demo_user_def required_approvals_for_def toy_assessed_def\<close>)
qed


end
