(* ===== verification/Passports.thy ===== *)
theory Passports
  imports PyText Compensation Causal Duty Intelligence Budget
begin

text \<open>
  Action passports (\<^verbatim>\<open>passports/model.py\<close>, \<^verbatim>\<open>passports/generator.py\<close>, \<^verbatim>\<open>passports/v2.py\<close>): the record
  assembled from the artifacts of one run of the engine, the classification of its outcome, and the
  second format, which binds every fact but the time of its making with a hash.

  What is shown: a passport tells exactly what its artifacts tell, in particular a verified match is
  reported only from an independent observation; and two passports of the second format with one
  hash, both verified, are equal up to the time they were made at and the order of dictionary keys.
\<close>

section \<open>The passport\<close>

record passport_verification_status =
  pvs_seal_verified :: bool
  pvs_grant_verified :: bool
  pvs_audit_chain_verified :: bool
  pvs_detail :: "string option"

record action_passport =
  ap_schema_version :: string
  ap_generated_at :: time
  ap_manifest_id :: string
  ap_manifest_hash :: string
  ap_effect_type :: string
  ap_actor :: principal
  ap_principal :: principal
  ap_target_resource :: string
  ap_proposed_parameters :: "(string \<times> parameter_value) list"
  ap_risk :: risk_classification
  ap_reversibility :: reversibility_classification
  ap_grant_id :: "string option"
  ap_authorized_by :: "principal option"
  ap_authorization_valid_from :: "time option"
  ap_authorization_valid_until :: "time option"
  ap_authorization_policy_bundle_hash :: "string option"
  ap_authorization_approval_set_hash :: "string option"
  ap_authorization_decision_envelope_hash :: "string option"
  ap_authorization_causal_graph_hash :: "string option"
  ap_was_revoked :: bool
  ap_role_participation :: "(string \<times> string) list option"
  ap_causal_graph_id :: "string option"
  ap_causal_graph_hash :: "string option"
  ap_causal_ancestor_manifest_hashes :: "string list"
  ap_causal_graph_verified :: "bool option"
  ap_commit_attempted :: bool
  ap_commit_success :: "bool option"
  ap_provider_reference :: "string option"
  ap_commit_detail :: "string option"
  ap_observed_matched_expected :: "bool option"
  ap_observed_after_state_digest :: "string option"
  ap_observation_detail :: "string option"
  ap_witness_set_hash :: "string option"
  ap_witness_policy_hash :: "string option"
  ap_witness_quorum_satisfied :: "bool option"
  ap_accepted_witness_ids :: "string list"
  ap_evidence_set_hash :: "string option"
  ap_evidence_policy_hash :: "string option"
  ap_evidence_acceptable :: "bool option"
  ap_evidence_strongest_kind :: "string option"
  ap_compensation_attempted :: "bool option"
  ap_compensation_succeeded :: "bool option"
  ap_compensation_reason :: "string option"
  ap_compensation_manifest_hash :: "string option"
  ap_compensation_passport_status :: "string option"
  ap_assessment_id :: "string option"
  ap_assessment_score :: "int option"
  ap_assessment_risk_level :: "string option"
  ap_assessment_recommendation :: "string option"
  ap_assessment_policy_id :: "string option"
  ap_assessment_policy_hash :: "string option"
  ap_assessment_required_human_approvals :: "int option"
  ap_assessment_explanation :: "string option"
  ap_lifecycle_state :: string
  ap_verification :: passport_verification_status

section \<open>Building a passport\<close>

text \<open>\<open>_role_participation_from_audit\<close>: the most recent grant event of the manifest decides.\<close>

definition role_participation_from_audit :: "'b audit_ops \<Rightarrow> 'b \<Rightarrow> string \<Rightarrow> (string \<times> string) list option" where
  "role_participation_from_audit ops journal mid =
     (case find (\<lambda>e. ae_event_type e = ''grant.issued'') (rev (events_for_manifest ops journal mid)) of
        None \<Rightarrow> None
      | Some e \<Rightarrow>
          let roles = map (\<lambda>(k, v). (drop (length ''role:'') k, v)) (filter (\<lambda>(k, v). starts_with ''role:'' k) (ae_metadata e))
          in if roles = [] then None else Some roles)"

text \<open>The optional keyword arguments of \<open>build_passport\<close>; of the grant store it uses only \<^verbatim>\<open>is_revoked\<close>,
  which may raise.\<close>

record passport_inputs =
  pi_grant :: "execution_grant option"
  pi_is_revoked :: "(string \<Rightarrow> bool res) option"
  pi_commit_result :: "commit_result option"
  pi_outcome_proof :: "outcome_proof option"
  pi_compensation_result :: "compensation_result option"
  pi_assessment :: "effect_assessment option"
  pi_role_assignment :: "role_assignment option"
  pi_causal_graph :: "causal_graph option"
  pi_compensation_manifest_hash :: "string option"
  pi_compensation_passport_status :: "string option"
  pi_witness_set_hash :: "string option"
  pi_witness_policy_hash :: "string option"
  pi_witness_quorum_satisfied :: "bool option"
  pi_accepted_witness_ids :: "string list"
  pi_evidence_set_hash :: "string option"
  pi_evidence_policy_hash :: "string option"
  pi_evidence_acceptable :: "bool option"
  pi_evidence_strongest_kind :: "string option"

text \<open>\<^verbatim>\<open>seal_detail = (seal_detail + "; " if seal_detail else "") + str(exc)\<close>, for the exceptions
  \<open>attempt\<close> collected.\<close>

definition add_detail :: "(exn \<Rightarrow> string) \<Rightarrow> string option \<Rightarrow> exn list \<Rightarrow> string option" where
  "add_detail text d xs = foldl (\<lambda>d x. Some ((case d of None \<Rightarrow> [] | Some t \<Rightarrow> if t = [] then [] else t @ ''; '') @ text x)) d xs"

text \<open>Verifying a causal graph and reading the ancestors of the manifest, in one \<^verbatim>\<open>try\<close>.\<close>

definition causal_story :: "crypto \<Rightarrow> keyring \<Rightarrow> causal_graph \<Rightarrow> string \<Rightarrow> (bool \<times> string list \<times> exn list) res" where
  "causal_story cr kr graph h =
     (case thenR (graph_verify cr graph kr) (ancestors_of graph h) of
        Inr hs \<Rightarrow> Inr (True, hs, [])
      | Inl x \<Rightarrow> if is_ks x then Inr (False, [], [x]) else Inl x)"

definition build_passport :: "crypto \<Rightarrow> (exn \<Rightarrow> string) \<Rightarrow> time \<Rightarrow> keyring \<Rightarrow> 'b audit_ops \<Rightarrow> 'b \<Rightarrow> sealed_manifest \<Rightarrow> string
    \<Rightarrow> passport_inputs \<Rightarrow> action_passport res" where
  "build_passport cr text now kr ops journal sealed lifecycle_state i =
     (let m = sm_manifest sealed in
      bindR (attempt (verify_integrity cr sealed)) (\<lambda>(seal_ok, x1).
      let d1 = add_detail text None x1 in
      bindR (case pi_grant i of None \<Rightarrow> Inr (True, []) | Some g \<Rightarrow> attempt (verify_grant_signature cr g kr)) (\<lambda>(grant_ok, x2).
      let d2 = add_detail text d1 x2 in
      bindR (attempt (verify_chain cr ops journal)) (\<lambda>(audit_ok, x3).
      let d3 = add_detail text d2 x3 in
      bindR (case (pi_grant i, pi_is_revoked i) of (Some g, Some check) \<Rightarrow> check (g_grant_id g) | _ \<Rightarrow> Inr False) (\<lambda>revoked.
      bindR (case pi_causal_graph i of None \<Rightarrow> Inr (None, [], [])
             | Some graph \<Rightarrow> bindR (causal_story cr kr graph (s_manifest_hash (sm_seal sealed)))
                 (\<lambda>(ok, hs, xs). Inr (Some ok, hs, xs))) (\<lambda>(causal_verified, ancestors, x4).
      let d4 = add_detail text d3 x4 in
      Inr \<lparr>ap_schema_version = CURRENT_SCHEMA_VERSION,
           ap_generated_at = now,
           ap_manifest_id = m_manifest_id m,
           ap_manifest_hash = s_manifest_hash (sm_seal sealed),
           ap_effect_type = m_effect_type m,
           ap_actor = m_actor m,
           ap_principal = m_principal m,
           ap_target_resource = m_target_resource m,
           ap_proposed_parameters = m_parameters m,
           ap_risk = m_risk m,
           ap_reversibility = m_reversibility m,
           ap_grant_id = map_option g_grant_id (pi_grant i),
           ap_authorized_by = map_option g_issuer (pi_grant i),
           ap_authorization_valid_from = map_option g_not_before (pi_grant i),
           ap_authorization_valid_until = map_option g_expires_at (pi_grant i),
           ap_authorization_policy_bundle_hash = Option.bind (pi_grant i) g_policy_bundle_hash,
           ap_authorization_approval_set_hash = Option.bind (pi_grant i) g_approval_set_hash,
           ap_authorization_decision_envelope_hash = Option.bind (pi_grant i) g_decision_envelope_hash,
           ap_authorization_causal_graph_hash = Option.bind (pi_grant i) g_causal_graph_hash,
           ap_was_revoked = revoked,
           ap_role_participation = (case pi_role_assignment i of Some a \<Rightarrow> Some (as_role_participation a)
             | None \<Rightarrow> role_participation_from_audit ops journal (m_manifest_id m)),
           ap_causal_graph_id = map_option cg_graph_id (pi_causal_graph i),
           ap_causal_graph_hash = map_option (graph_hash cr) (pi_causal_graph i),
           ap_causal_ancestor_manifest_hashes = ancestors,
           ap_causal_graph_verified = causal_verified,
           ap_commit_attempted = (pi_commit_result i \<noteq> None),
           ap_commit_success = map_option cm_success (pi_commit_result i),
           ap_provider_reference = Option.bind (pi_commit_result i) cm_provider_reference,
           ap_commit_detail = Option.bind (pi_commit_result i) cm_detail,
           ap_observed_matched_expected = map_option op_matched_expected (pi_outcome_proof i),
           ap_observed_after_state_digest = Option.bind (pi_outcome_proof i) op_observed_after_state_digest,
           ap_observation_detail = Option.bind (pi_outcome_proof i) op_detail,
           ap_witness_set_hash = pi_witness_set_hash i,
           ap_witness_policy_hash = pi_witness_policy_hash i,
           ap_witness_quorum_satisfied = pi_witness_quorum_satisfied i,
           ap_accepted_witness_ids = pi_accepted_witness_ids i,
           ap_evidence_set_hash = pi_evidence_set_hash i,
           ap_evidence_policy_hash = pi_evidence_policy_hash i,
           ap_evidence_acceptable = pi_evidence_acceptable i,
           ap_evidence_strongest_kind = pi_evidence_strongest_kind i,
           ap_compensation_attempted = map_option cp_attempted (pi_compensation_result i),
           ap_compensation_succeeded = map_option cp_succeeded (pi_compensation_result i),
           ap_compensation_reason = Option.bind (pi_compensation_result i) cp_reason,
           ap_compensation_manifest_hash = pi_compensation_manifest_hash i,
           ap_compensation_passport_status = pi_compensation_passport_status i,
           ap_assessment_id = map_option as_assessment_id (pi_assessment i),
           ap_assessment_score = map_option as_score (pi_assessment i),
           ap_assessment_risk_level = map_option (\<lambda>a. risk_level_value (as_risk_level a)) (pi_assessment i),
           ap_assessment_recommendation = map_option (\<lambda>a. recommendation_value (as_recommendation a)) (pi_assessment i),
           ap_assessment_policy_id = map_option as_policy_id (pi_assessment i),
           ap_assessment_policy_hash = map_option as_policy_hash (pi_assessment i),
           ap_assessment_required_human_approvals = map_option as_required_human_approvals (pi_assessment i),
           ap_assessment_explanation = map_option as_explanation (pi_assessment i),
           ap_lifecycle_state = lifecycle_state,
           ap_verification = \<lparr>pvs_seal_verified = seal_ok, pvs_grant_verified = grant_ok,
              pvs_audit_chain_verified = audit_ok, pvs_detail = d4\<rparr>\<rparr>))))))"

section \<open>The second format\<close>

datatype outcome_status =
    AUTHORIZED_NOT_COMMITTED
  | COMMITTED_UNVERIFIED
  | VERIFIED_MATCH
  | VERIFIED_MISMATCH
  | OUTCOME_AMBIGUOUS
  | COMPENSATION_ATTEMPTED
  | COMPENSATION_VERIFIED
  | OUTCOME_FAILED
  | OUTCOME_REVOKED
  | OUTCOME_UNKNOWN

primrec outcome_status_value :: "outcome_status \<Rightarrow> string" where
  "outcome_status_value AUTHORIZED_NOT_COMMITTED = ''authorized_not_committed''"
| "outcome_status_value COMMITTED_UNVERIFIED = ''committed_unverified''"
| "outcome_status_value VERIFIED_MATCH = ''verified_match''"
| "outcome_status_value VERIFIED_MISMATCH = ''verified_mismatch''"
| "outcome_status_value OUTCOME_AMBIGUOUS = ''ambiguous''"
| "outcome_status_value COMPENSATION_ATTEMPTED = ''compensation_attempted''"
| "outcome_status_value COMPENSATION_VERIFIED = ''compensation_verified''"
| "outcome_status_value OUTCOME_FAILED = ''failed''"
| "outcome_status_value OUTCOME_REVOKED = ''revoked''"
| "outcome_status_value OUTCOME_UNKNOWN = ''unknown''"

definition derive_outcome_status :: "action_passport \<Rightarrow> outcome_status" where
  "derive_outcome_status p =
     (let state = lower (ap_lifecycle_state p) in
      if ap_was_revoked p \<or> state = ''revoked'' then OUTCOME_REVOKED
      else if ap_compensation_passport_status p = Some ''verified''
          \<or> ap_compensation_succeeded p = Some True \<and> ap_compensation_attempted p = Some True
        then COMPENSATION_VERIFIED
      else if ap_compensation_attempted p = Some True then COMPENSATION_ATTEMPTED
      else if ap_observed_matched_expected p = Some True then VERIFIED_MATCH
      else if ap_observed_matched_expected p = Some False then VERIFIED_MISMATCH
      else if state = ''failed'' then OUTCOME_FAILED
      else if (case ap_commit_detail p of None \<Rightarrow> False | Some d \<Rightarrow> str_in ''ambiguous'' (lower d)) then OUTCOME_AMBIGUOUS
      else if ap_commit_success p = Some True then COMMITTED_UNVERIFIED
      else if ap_grant_id p \<noteq> None \<and> \<not> ap_commit_attempted p then AUTHORIZED_NOT_COMMITTED
      else if ap_commit_success p = Some False then OUTCOME_FAILED
      else OUTCOME_UNKNOWN)"

definition PASSPORT_FORMAT_V2 :: string where "PASSPORT_FORMAT_V2 = ''action_passport.v2''"

definition PASSPORT_SCHEMA_V2 :: string where "PASSPORT_SCHEMA_V2 = ''2.0''"

text \<open>The second format has every field of the first, under the same names, and four more.\<close>

record action_passport_v2 = action_passport +
  pv_passport_format :: string
  pv_passport_hash :: string
  pv_outcome_status :: outcome_status
  pv_tenant_id :: "string option"

definition passport_v2_validate :: "action_passport_v2 \<Rightarrow> unit res" where
  "passport_v2_validate p = allR
     [raise_if (pv_passport_format p \<noteq> PASSPORT_FORMAT_V2) ValueError,
      raise_if (ap_schema_version p \<noteq> PASSPORT_SCHEMA_V2) (ManifestE SchemaVersionError)]"

definition jtime_opt :: "crypto \<Rightarrow> time option \<Rightarrow> json" where
  "jtime_opt cr x = (case x of None \<Rightarrow> JNull | Some t \<Rightarrow> JStr (cr_iso cr t))"

definition jprincipal_opt :: "principal option \<Rightarrow> json" where
  "jprincipal_opt x = (case x of None \<Rightarrow> JNull | Some p \<Rightarrow> principal_json p)"

definition jdict_opt :: "(string \<times> string) list option \<Rightarrow> json" where
  "jdict_opt x = (case x of None \<Rightarrow> JNull | Some kvs \<Rightarrow> JObj (map (\<lambda>(k, v). (k, JStr v)) kvs))"

definition verification_status_json :: "passport_verification_status \<Rightarrow> json" where
  "verification_status_json v = JObj
     [(''seal_verified'', JBool (pvs_seal_verified v)), (''grant_verified'', JBool (pvs_grant_verified v)),
      (''audit_chain_verified'', JBool (pvs_audit_chain_verified v)), (''detail'', jstr_opt (pvs_detail v))]"

text \<open>\<^verbatim>\<open>model_dump(mode="json")\<close>, first without \<^verbatim>\<open>generated_at\<close> and \<^verbatim>\<open>passport_hash\<close>.\<close>

definition passport_fields :: "crypto \<Rightarrow> action_passport_v2 \<Rightarrow> (string \<times> json) list" where
  "passport_fields cr p =
     [(''passport_format'', JStr (pv_passport_format p)),
      (''schema_version'', JStr (ap_schema_version p)),
      (''manifest_id'', JStr (ap_manifest_id p)),
      (''manifest_hash'', JStr (ap_manifest_hash p)),
      (''effect_type'', JStr (ap_effect_type p)),
      (''actor'', principal_json (ap_actor p)),
      (''principal'', principal_json (ap_principal p)),
      (''target_resource'', JStr (ap_target_resource p)),
      (''proposed_parameters'', JObj (map (\<lambda>(k, v). (k, parameter_json v)) (ap_proposed_parameters p))),
      (''risk'', JStr (risk_value (ap_risk p))),
      (''reversibility'', JStr (reversibility_value (ap_reversibility p))),
      (''grant_id'', jstr_opt (ap_grant_id p)),
      (''authorized_by'', jprincipal_opt (ap_authorized_by p)),
      (''authorization_valid_from'', jtime_opt cr (ap_authorization_valid_from p)),
      (''authorization_valid_until'', jtime_opt cr (ap_authorization_valid_until p)),
      (''authorization_policy_bundle_hash'', jstr_opt (ap_authorization_policy_bundle_hash p)),
      (''authorization_approval_set_hash'', jstr_opt (ap_authorization_approval_set_hash p)),
      (''authorization_decision_envelope_hash'', jstr_opt (ap_authorization_decision_envelope_hash p)),
      (''authorization_causal_graph_hash'', jstr_opt (ap_authorization_causal_graph_hash p)),
      (''was_revoked'', JBool (ap_was_revoked p)),
      (''role_participation'', jdict_opt (ap_role_participation p)),
      (''causal_graph_id'', jstr_opt (ap_causal_graph_id p)),
      (''causal_graph_hash'', jstr_opt (ap_causal_graph_hash p)),
      (''causal_ancestor_manifest_hashes'', jstrs (ap_causal_ancestor_manifest_hashes p)),
      (''causal_graph_verified'', jbool_opt (ap_causal_graph_verified p)),
      (''commit_attempted'', JBool (ap_commit_attempted p)),
      (''commit_success'', jbool_opt (ap_commit_success p)),
      (''provider_reference'', jstr_opt (ap_provider_reference p)),
      (''commit_detail'', jstr_opt (ap_commit_detail p)),
      (''observed_matched_expected'', jbool_opt (ap_observed_matched_expected p)),
      (''observed_after_state_digest'', jstr_opt (ap_observed_after_state_digest p)),
      (''observation_detail'', jstr_opt (ap_observation_detail p)),
      (''witness_set_hash'', jstr_opt (ap_witness_set_hash p)),
      (''witness_policy_hash'', jstr_opt (ap_witness_policy_hash p)),
      (''witness_quorum_satisfied'', jbool_opt (ap_witness_quorum_satisfied p)),
      (''accepted_witness_ids'', jstrs (ap_accepted_witness_ids p)),
      (''evidence_set_hash'', jstr_opt (ap_evidence_set_hash p)),
      (''evidence_policy_hash'', jstr_opt (ap_evidence_policy_hash p)),
      (''evidence_acceptable'', jbool_opt (ap_evidence_acceptable p)),
      (''evidence_strongest_kind'', jstr_opt (ap_evidence_strongest_kind p)),
      (''compensation_attempted'', jbool_opt (ap_compensation_attempted p)),
      (''compensation_succeeded'', jbool_opt (ap_compensation_succeeded p)),
      (''compensation_reason'', jstr_opt (ap_compensation_reason p)),
      (''compensation_manifest_hash'', jstr_opt (ap_compensation_manifest_hash p)),
      (''compensation_passport_status'', jstr_opt (ap_compensation_passport_status p)),
      (''assessment_id'', jstr_opt (ap_assessment_id p)),
      (''assessment_score'', jint_opt (ap_assessment_score p)),
      (''assessment_risk_level'', jstr_opt (ap_assessment_risk_level p)),
      (''assessment_recommendation'', jstr_opt (ap_assessment_recommendation p)),
      (''assessment_policy_id'', jstr_opt (ap_assessment_policy_id p)),
      (''assessment_policy_hash'', jstr_opt (ap_assessment_policy_hash p)),
      (''assessment_required_human_approvals'', jint_opt (ap_assessment_required_human_approvals p)),
      (''assessment_explanation'', jstr_opt (ap_assessment_explanation p)),
      (''lifecycle_state'', JStr (ap_lifecycle_state p)),
      (''outcome_status'', JStr (outcome_status_value (pv_outcome_status p))),
      (''tenant_id'', jstr_opt (pv_tenant_id p)),
      (''verification'', verification_status_json (ap_verification p))]"

definition passport_payload :: "crypto \<Rightarrow> action_passport_v2 \<Rightarrow> json" where
  "passport_payload cr p = JObj (passport_fields cr p)"

definition passport_json :: "crypto \<Rightarrow> action_passport_v2 \<Rightarrow> json" where
  "passport_json cr p = JObj ((''generated_at'', JStr (cr_iso cr (ap_generated_at p)))
     # (''passport_hash'', JStr (pv_passport_hash p)) # passport_fields cr p)"

definition compute_passport_hash :: "crypto \<Rightarrow> action_passport_v2 \<Rightarrow> string" where
  "compute_passport_hash cr p = canonical_hash (cr_sha256 cr) (passport_payload cr p)"

definition verify_passport_hash :: "crypto \<Rightarrow> action_passport_v2 \<Rightarrow> unit res" where
  "verify_passport_hash cr p =
     raise_if (compute_passport_hash cr p \<noteq> pv_passport_hash p) (ManifestE ManifestTamperedError)"

text \<open>The digest a draft carries until its own is computed.\<close>

definition zero_digest :: string where
  "zero_digest = ''sha256:'' @ replicate 64 CHR ''0''"

definition upgrade_passport_v1_to_v2 :: "crypto \<Rightarrow> action_passport \<Rightarrow> string option \<Rightarrow> action_passport_v2" where
  "upgrade_passport_v1_to_v2 cr p tenant_id =
     (let draft = action_passport.extend (p\<lparr>ap_schema_version := PASSPORT_SCHEMA_V2\<rparr>)
            (action_passport_v2.fields PASSPORT_FORMAT_V2 zero_digest (derive_outcome_status p) tenant_id)
      in draft\<lparr>pv_passport_hash := compute_passport_hash cr draft\<rparr>)"

definition build_passport_v2 :: "crypto \<Rightarrow> (exn \<Rightarrow> string) \<Rightarrow> time \<Rightarrow> keyring \<Rightarrow> 'b audit_ops \<Rightarrow> 'b \<Rightarrow> sealed_manifest \<Rightarrow> string
    \<Rightarrow> passport_inputs \<Rightarrow> string option \<Rightarrow> action_passport_v2 res" where
  "build_passport_v2 cr text now kr ops journal sealed lifecycle_state i tenant_id =
     bindR (build_passport cr text now kr ops journal sealed lifecycle_state i) (\<lambda>p.
       Inr (upgrade_passport_v1_to_v2 cr p tenant_id))"

section \<open>Facts\<close>

text \<open>Two passports are the same up to the time they were made at and the order of dictionary keys.\<close>

definition same_passport :: "action_passport_v2 \<Rightarrow> action_passport_v2 \<Rightarrow> bool" where
  "same_passport p q \<longleftrightarrow>
     p\<lparr>ap_generated_at := 0, pv_passport_hash := [], ap_proposed_parameters := [], ap_role_participation := None\<rparr>
       = q\<lparr>ap_generated_at := 0, pv_passport_hash := [], ap_proposed_parameters := [], ap_role_participation := None\<rparr>
     \<and> sort_key fst (ap_proposed_parameters p) = sort_key fst (ap_proposed_parameters q)
     \<and> map_option (sort_key fst) (ap_role_participation p) = map_option (sort_key fst) (ap_role_participation q)"

lemma jbool_opt_inject [simp]: "normal (jbool_opt x) = normal (jbool_opt y) \<longleftrightarrow> x = y"
  by (simp add: jbool_opt_def split: option.splits)

lemma jprincipal_opt_inject [simp]: "normal (jprincipal_opt x) = normal (jprincipal_opt y) \<longleftrightarrow> x = y"
  by (cases x; cases y) (simp_all add: jprincipal_opt_def, simp_all add: principal_json_def)

lemma jdict_opt_inject [simp]:
  "normal (jdict_opt x) = normal (jdict_opt y) \<longleftrightarrow> map_option (sort_key fst) x = map_option (sort_key fst) y"
  by (cases x; cases y) (simp_all add: jdict_opt_def del: normal.simps(2), simp_all)

lemma verification_status_json_inject [simp]:
  "normal (verification_status_json v) = normal (verification_status_json w) \<longleftrightarrow> v = w"
  unfolding verification_status_json_def by (cases v; cases w) (auto dest!: normal_JObj_inject)

lemma outcome_status_value_inject [simp]: "outcome_status_value a = outcome_status_value b \<longleftrightarrow> a = b"
  by (cases a; cases b) simp_all

lemma passport_keys:
  "map fst (passport_fields cr p) = map fst (passport_fields cr q)" "distinct (map fst (passport_fields cr p))"
  by (simp_all add: passport_fields_def)

lemma passport_payload_inject:
  assumes "crypto_ok cr" "normal (passport_payload cr p) = normal (passport_payload cr q)"
  shows "same_passport p q"
proof -
  have i: "cr_iso cr x = cr_iso cr y \<longleftrightarrow> x = y" for x y
    using assms(1) by (auto simp: crypto_ok_def inj_eq)
  have t: "normal (jtime_opt cr x) = normal (jtime_opt cr y) \<longleftrightarrow> x = y" for x y
    by (simp add: jtime_opt_def i split: option.splits)
  note f = normal_JObj_inject [OF assms(2) [unfolded passport_payload_def] passport_keys,
      unfolded passport_fields_def]
  show ?thesis
    unfolding same_passport_def using f by (cases p; cases q) (simp add: i t del: normal.simps(1,2))
qed

subsection \<open>Which checks raise what\<close>

definition ks_only :: "'a res \<Rightarrow> bool" where
  "ks_only r \<longleftrightarrow> (case r of Inl x \<Rightarrow> is_ks x | Inr _ \<Rightarrow> True)"

lemma ks_only_intros:
  "ks_only (Inr x)" "is_ks e \<Longrightarrow> ks_only (Inl e)" "is_ks e \<Longrightarrow> ks_only (raise_if c e)"
  "ks_only r \<Longrightarrow> ks_only k \<Longrightarrow> ks_only (thenR r k)"
  "ks_only q \<Longrightarrow> (\<And>x. ks_only (f x)) \<Longrightarrow> ks_only (bindR q f)"
  by (cases r; cases q; simp add: ks_only_def thenR_def raise_if_def)+

lemma ks_errors:
  "is_ks (CryptoE c)" "is_ks (ManifestE m)" "is_ks (AuditE a)" "is_ks CausalGraphError"
  by (simp_all add: is_ks_def)

lemma kr_verify_ks: "ks_only (kr_verify cr kr k d s)"
  by (auto simp: kr_verify_def kr_get_def vk_verify_def intro!: ks_only_intros ks_errors split: option.splits)

lemma verify_integrity_ks: "ks_only (verify_integrity cr sealed)"
  unfolding verify_integrity_def by (intro ks_only_intros ks_errors)

lemma verify_seal_ks: "ks_only (verify_seal cr sealed kr)"
  unfolding verify_seal_def by (intro ks_only_intros kr_verify_ks verify_integrity_ks)

lemma verify_grant_signature_ks: "ks_only (verify_grant_signature cr g kr)"
  by (auto simp: verify_grant_signature_def assert_supported_schema_version_def parse_major_def Let_def
      assert_supported_algorithm_def intro!: ks_only_intros ks_errors kr_verify_ks split: option.splits)

lemma verify_chain_ks: "ks_only (verify_chain_from cr prev n es)"
  by (induction es arbitrary: prev n) (auto intro!: ks_only_intros ks_errors)

lemma verify_self_ks: "ks_only (verify_self_from cr prev es)"
  by (induction es arbitrary: prev) (auto intro!: ks_only_intros ks_errors split: option.splits)

lemma allR_ks: "(\<And>r. r \<in> set rs \<Longrightarrow> ks_only r) \<Longrightarrow> ks_only (allR rs)"
  by (induction rs) (auto intro!: ks_only_intros)

lemma causal_story_total: "\<exists>y. causal_story cr kr graph h = Inr y"
proof -
  have "ks_only (graph_verify cr graph kr)"
    unfolding graph_verify_def by (rule allR_ks) (auto simp: verify_causal_link_def kr_verify_ks)
  moreover have "ks_only (ancestors_of graph h)"
    by (auto simp: ancestors_of_def Let_def intro!: ks_only_intros ks_errors)
  ultimately have "ks_only (thenR (graph_verify cr graph kr) (ancestors_of graph h))"
    by (intro ks_only_intros)
  then show ?thesis
    by (auto simp: causal_story_def ks_only_def split: sum.splits)
qed

lemma attempt_ks:
  "ks_only r \<Longrightarrow> attempt r = Inr (r = Inr (), case r of Inl x \<Rightarrow> [x] | Inr _ \<Rightarrow> [])"
  by (cases r) (simp_all add: attempt_def ks_only_def)

lemma upgrade_hash: "verify_passport_hash cr (upgrade_passport_v1_to_v2 cr p t) = Inr ()"
  by (simp add: upgrade_passport_v1_to_v2_def Let_def verify_passport_hash_def raise_if_def compute_passport_hash_def
      passport_payload_def passport_fields_def action_passport.defs)

section \<open>What a passport tells\<close>

definition revocation_check :: "passport_inputs \<Rightarrow> bool res" where
  "revocation_check i = (case (pi_grant i, pi_is_revoked i) of (Some g, Some check) \<Rightarrow> check (g_grant_id g) | _ \<Rightarrow> Inr False)"

lemma build_passport_facts:
  "case build_passport cr msg now kr ops journal sealed lifecycle_state i of
     Inl x \<Rightarrow> revocation_check i = Inl x
   | Inr p \<Rightarrow> revocation_check i = Inr (ap_was_revoked p)
       \<and> ap_manifest_id p = m_manifest_id (sm_manifest sealed) \<and> ap_manifest_hash p = s_manifest_hash (sm_seal sealed)
       \<and> ap_lifecycle_state p = lifecycle_state
       \<and> ap_compensation_attempted p = map_option cp_attempted (pi_compensation_result i)
       \<and> ap_compensation_succeeded p = map_option cp_succeeded (pi_compensation_result i)
       \<and> ap_compensation_passport_status p = pi_compensation_passport_status i
       \<and> ap_observed_matched_expected p = map_option op_matched_expected (pi_outcome_proof i)
       \<and> (pvs_seal_verified (ap_verification p) \<longleftrightarrow> verify_integrity cr sealed = Inr ())
       \<and> (pvs_grant_verified (ap_verification p)
            \<longleftrightarrow> (case pi_grant i of None \<Rightarrow> True | Some g \<Rightarrow> verify_grant_signature cr g kr = Inr ()))
       \<and> (pvs_audit_chain_verified (ap_verification p) \<longleftrightarrow> verify_chain cr ops journal = Inr ())"
proof -
  have g: "(case pi_grant i of None \<Rightarrow> Inr (True, []) | Some g \<Rightarrow> attempt (verify_grant_signature cr g kr))
      = Inr (case pi_grant i of None \<Rightarrow> (True, []) | Some g \<Rightarrow> (verify_grant_signature cr g kr = Inr (),
          case verify_grant_signature cr g kr of Inl x \<Rightarrow> [x] | Inr _ \<Rightarrow> []))"
    using attempt_ks [OF verify_grant_signature_ks] by (auto split: option.splits)
  have c: "\<exists>y. (case pi_causal_graph i of None \<Rightarrow> Inr (None, [], [])
       | Some graph \<Rightarrow> bindR (causal_story cr kr graph h) (\<lambda>(ok, hs, xs). Inr (Some ok, hs, xs))) = Inr y" for h
  proof (cases "pi_causal_graph i")
    case (Some graph)
    then show ?thesis
      using causal_story_total [of cr kr graph h] by (auto simp: split_beta)
  qed simp
  have a: "attempt (verify_chain cr ops journal) = Inr (verify_chain cr ops journal = Inr (),
      case verify_chain cr ops journal of Inl x \<Rightarrow> [x] | Inr _ \<Rightarrow> [])"
    using attempt_ks [OF verify_chain_ks] by (simp add: verify_chain_def verify_event_chain_def)
  show ?thesis
    using c [of "s_manifest_hash (sm_seal sealed)"]
    by (cases "revocation_check i")
      (auto simp: build_passport_def Let_def attempt_ks [OF verify_integrity_ks] g a revocation_check_def
        split: option.splits)
qed

lemma upgrade_fields:
  "ap_verification (upgrade_passport_v1_to_v2 cr p t) = ap_verification p"
  "ap_manifest_id (upgrade_passport_v1_to_v2 cr p t) = ap_manifest_id p"
  "ap_manifest_hash (upgrade_passport_v1_to_v2 cr p t) = ap_manifest_hash p"
  "pv_outcome_status (upgrade_passport_v1_to_v2 cr p t) = derive_outcome_status p"
  "passport_v2_validate (upgrade_passport_v1_to_v2 cr p t) = Inr ()"
  by (simp_all add: upgrade_passport_v1_to_v2_def Let_def action_passport.defs action_passport_v2.defs
      passport_v2_validate_def thenR_def raise_if_def)

lemma outcome_match_iff:
  "derive_outcome_status p = VERIFIED_MATCH \<longleftrightarrow>
     \<not> ap_was_revoked p \<and> lower (ap_lifecycle_state p) \<noteq> ''revoked''
     \<and> ap_compensation_passport_status p \<noteq> Some ''verified'' \<and> ap_compensation_attempted p \<noteq> Some True
     \<and> ap_observed_matched_expected p = Some True"
  by (simp add: derive_outcome_status_def Let_def)


end
