(* ===== verification/Portable.thy ===== *)
theory Portable
  imports Passports
begin

text \<open>
  Portable evidence packs (\<^verbatim>\<open>portable/model.py\<close>, \<^verbatim>\<open>portable/builder.py\<close>, \<^verbatim>\<open>portable/verify.py\<close>): a passport, the
  sealed manifest, the grant, the manifest's slice of the journal and the public keys in one document that
  can be checked without the system that issued it.

  What is shown: the offline verdict on a pack the builder made is the online one; verification never
  raises, whatever the document holds; and a verified pack cannot be altered under its hash.  The
  verifier does not compare the identifier of the pack with that of the manifest, which a concrete pack shows.

  Whether Ed25519 accepts some bytes as a public key is the argument \<open>pub_ok\<close> (otherwise the library
  raises \<^verbatim>\<open>ValueError\<close>).
\<close>

section \<open>The pack\<close>

definition EVIDENCE_PACK_FORMAT :: string where "EVIDENCE_PACK_FORMAT = ''evidence_pack.v1''"

definition EVIDENCE_PACK_SCHEMA_VERSION :: string where "EVIDENCE_PACK_SCHEMA_VERSION = ''1.0''"

definition MAX_EMBEDDED_AUDIT_EVENTS :: nat where "MAX_EMBEDDED_AUDIT_EVENTS = 10000"

definition MAX_EMBEDDED_KEYS :: nat where "MAX_EMBEDDED_KEYS = 256"

record embedded_key =
  ek_key_id :: string
  ek_algorithm :: string
  ek_public_key_b64 :: string

definition embedded_key_validate :: "embedded_key \<Rightarrow> unit res" where
  "embedded_key_validate k = allR
     [raise_if (ek_key_id k = [] \<or> length (ek_key_id k) > 128) ValueError,
      raise_if (ek_algorithm k \<noteq> ''ed25519'') ValueError,
      raise_if (ek_public_key_b64 k = []) ValueError]"

record evidence_pack =
  pk_pack_format :: string
  pk_schema_version :: string
  pk_generated_at :: time
  pk_pack_hash :: string
  pk_manifest_id :: string
  pk_passport :: action_passport_v2
  pk_sealed_manifest :: sealed_manifest
  pk_grant :: "execution_grant option"
  pk_audit_events :: "audit_event list"
  pk_verification_keys :: "embedded_key list"

definition pack_validate :: "evidence_pack \<Rightarrow> unit res" where
  "pack_validate p = allR
     [raise_if (pk_pack_format p \<noteq> EVIDENCE_PACK_FORMAT) ValueError,
      raise_if (pk_schema_version p \<noteq> EVIDENCE_PACK_SCHEMA_VERSION) (ManifestE SchemaVersionError),
      raise_if (pk_manifest_id p = [] \<or> length (pk_manifest_id p) > 256) ValueError]"

text \<open>\<^verbatim>\<open>model_dump(mode="json")\<close> of the parts and of the pack, without \<^verbatim>\<open>generated_at\<close> and \<^verbatim>\<open>pack_hash\<close>.\<close>

definition seal_json :: "crypto \<Rightarrow> seal \<Rightarrow> json" where
  "seal_json cr s = JObj
     [(''algorithm'', JStr (s_algorithm s)), (''key_id'', JStr (s_key_id s)),
      (''manifest_hash'', JStr (s_manifest_hash s)), (''signature'', JStr (s_signature s)),
      (''sealed_at'', JStr (cr_iso cr (s_sealed_at s)))]"

definition sealed_manifest_json :: "crypto \<Rightarrow> sealed_manifest \<Rightarrow> json" where
  "sealed_manifest_json cr sm = JObj
     [(''manifest'', manifest_json (cr_iso cr) (sm_manifest sm)), (''seal'', seal_json cr (sm_seal sm))]"

definition with_field :: "string \<Rightarrow> json \<Rightarrow> json \<Rightarrow> json" where
  "with_field k v j = (case j of JObj kvs \<Rightarrow> JObj ((k, v) # kvs) | _ \<Rightarrow> j)"

definition grant_json :: "crypto \<Rightarrow> execution_grant \<Rightarrow> json" where
  "grant_json cr g = with_field ''signature'' (jstr_opt (g_signature g)) (signing_payload cr g)"

definition audit_event_json :: "crypto \<Rightarrow> audit_event \<Rightarrow> json" where
  "audit_event_json cr e = with_field ''event_hash'' (JStr (ae_event_hash e)) (event_json cr e)"

definition embedded_key_json :: "embedded_key \<Rightarrow> json" where
  "embedded_key_json k = JObj
     [(''key_id'', JStr (ek_key_id k)), (''algorithm'', JStr (ek_algorithm k)),
      (''public_key_b64'', JStr (ek_public_key_b64 k))]"

definition pack_payload :: "crypto \<Rightarrow> evidence_pack \<Rightarrow> json" where
  "pack_payload cr p = JObj
     [(''pack_format'', JStr (pk_pack_format p)), (''schema_version'', JStr (pk_schema_version p)),
      (''manifest_id'', JStr (pk_manifest_id p)),
      (''passport'', passport_json cr (pk_passport p)),
      (''sealed_manifest'', sealed_manifest_json cr (pk_sealed_manifest p)),
      (''grant'', case pk_grant p of None \<Rightarrow> JNull | Some g \<Rightarrow> grant_json cr g),
      (''audit_events'', JList (map (audit_event_json cr) (pk_audit_events p))),
      (''verification_keys'', JList (map embedded_key_json (pk_verification_keys p)))]"

definition compute_pack_hash :: "crypto \<Rightarrow> evidence_pack \<Rightarrow> string" where
  "compute_pack_hash cr p = canonical_hash (cr_sha256 cr) (pack_payload cr p)"

section \<open>Building a pack\<close>

text \<open>\<^verbatim>\<open>Keyring.key_ids\<close>: a keyring is built by adding keys, so its domain is finite.\<close>

definition kr_key_ids :: "keyring \<Rightarrow> string list" where
  "kr_key_ids kr = sorted_list_of_set (dom kr)"

definition vk_public_bytes_b64 :: "crypto \<Rightarrow> verification_key \<Rightarrow> string" where
  "vk_public_bytes_b64 cr key = cr_b64encode cr (vk_public key)"

definition embed_key :: "crypto \<Rightarrow> keyring \<Rightarrow> string \<Rightarrow> embedded_key res" where
  "embed_key cr kr key_id = bindR (kr_get kr key_id) (\<lambda>key.
     let k = \<lparr>ek_key_id = key_id, ek_algorithm = vk_algorithm key, ek_public_key_b64 = vk_public_bytes_b64 cr key\<rparr>
     in thenR (embedded_key_validate k) (Inr k))"

definition build_evidence_pack :: "crypto \<Rightarrow> time \<Rightarrow> action_passport_v2 \<Rightarrow> sealed_manifest \<Rightarrow> 'b audit_ops \<Rightarrow> 'b \<Rightarrow> keyring
    \<Rightarrow> execution_grant option \<Rightarrow> evidence_pack res" where
  "build_evidence_pack cr now passport sealed ops journal kr grant =
     (let mid = m_manifest_id (sm_manifest sealed);
          events = events_for_manifest ops journal mid
      in thenR (raise_if (ap_manifest_id passport \<noteq> mid) (PortableEvidenceE EvidencePackAssemblyError))
        (thenR (raise_if (case grant of None \<Rightarrow> False | Some g \<Rightarrow> (case g_manifest_hash g of None \<Rightarrow> False
             | Some h \<Rightarrow> h \<noteq> s_manifest_hash (sm_seal sealed))) (PortableEvidenceE EvidencePackAssemblyError))
        (thenR (raise_if (length events > MAX_EMBEDDED_AUDIT_EVENTS) (PortableEvidenceE EvidencePackTooLargeError))
        (thenR (raise_if (length (kr_key_ids kr) > MAX_EMBEDDED_KEYS) (PortableEvidenceE EvidencePackTooLargeError))
        (bindR (seqR (map (embed_key cr kr) (kr_key_ids kr))) (\<lambda>keys.
         let draft = \<lparr>pk_pack_format = EVIDENCE_PACK_FORMAT, pk_schema_version = EVIDENCE_PACK_SCHEMA_VERSION,
               pk_generated_at = now, pk_pack_hash = zero_digest, pk_manifest_id = mid, pk_passport = passport,
               pk_sealed_manifest = sealed, pk_grant = grant, pk_audit_events = events, pk_verification_keys = keys\<rparr>
         in thenR (pack_validate draft) (Inr (draft\<lparr>pk_pack_hash := compute_pack_hash cr draft\<rparr>))))))))"

section \<open>Verifying a pack\<close>

record pack_verification =
  ev_pack_hash_verified :: bool
  ev_passport_hash_verified :: bool
  ev_seal_verified :: bool
  ev_grant_verified :: bool
  ev_audit_events_self_consistent :: bool
  ev_audit_events_match_manifest :: bool
  ev_manifest_hash_consistent :: bool
  ev_all_verified :: bool
  ev_reasons :: "string list"

text \<open>\<^verbatim>\<open>VerificationKey.from_public_b64\<close>.\<close>

definition vk_from_public_b64 :: "crypto \<Rightarrow> (string \<Rightarrow> bool) \<Rightarrow> string \<Rightarrow> string \<Rightarrow> string \<Rightarrow> verification_key res" where
  "vk_from_public_b64 cr pub_ok key_id public_b64 algorithm = (case cr_b64decode cr public_b64 of
      None \<Rightarrow> Inl (CryptoE KeyLoadError)
    | Some raw \<Rightarrow> thenR (assert_supported_algorithm algorithm)
        (if pub_ok raw then Inr \<lparr>vk_key_id = key_id, vk_algorithm = algorithm, vk_public = raw\<rparr> else Inl ValueError))"

definition embedded_keyring :: "crypto \<Rightarrow> (string \<Rightarrow> bool) \<Rightarrow> evidence_pack \<Rightarrow> keyring res" where
  "embedded_keyring cr pub_ok p =
     bindR (seqR (map (\<lambda>k. vk_from_public_b64 cr pub_ok (ek_key_id k) (ek_public_key_b64 k) (ek_algorithm k))
         (pk_verification_keys p))) (\<lambda>keys. Inr (kr_init keys))"

text \<open>A check with the reason it adds when it raises an error of the protocol; others escape.\<close>

definition checked :: "(exn \<Rightarrow> string) \<Rightarrow> string \<Rightarrow> unit res \<Rightarrow> (bool \<times> string list) res" where
  "checked msg label r = bindR (attempt r) (\<lambda>(ok, xs). Inr (ok, map (\<lambda>x. label @ '': '' @ msg x) xs))"

text \<open>The keyring of the pack, or the reason why there is none: \<^verbatim>\<open>except (KarmaSakshiError, ValueError)\<close>.\<close>

definition checked_keyring :: "(exn \<Rightarrow> string) \<Rightarrow> keyring res \<Rightarrow> (keyring option \<times> string list) res" where
  "checked_keyring msg r = (case r of
      Inr kr \<Rightarrow> Inr (Some kr, [])
    | Inl x \<Rightarrow> if is_ks x \<or> x = ValueError then Inr (None, [''verification_keys: '' @ msg x]) else Inl x)"

definition checked_signatures :: "crypto \<Rightarrow> (exn \<Rightarrow> string) \<Rightarrow> evidence_pack \<Rightarrow> keyring option \<Rightarrow> (bool \<times> bool \<times> string list) res" where
  "checked_signatures cr msg p keys = (case keys of
      None \<Rightarrow> Inr (False, pk_grant p = None, [''seal: cannot verify, embedded verification_keys were unparseable''])
    | Some kr \<Rightarrow> bindR (checked msg ''seal'' (verify_seal cr (pk_sealed_manifest p) kr)) (\<lambda>(seal_ok, xs).
        bindR (case pk_grant p of None \<Rightarrow> Inr (True, [])
               | Some g \<Rightarrow> checked msg ''grant'' (verify_grant_signature cr g kr)) (\<lambda>(grant_ok, ys).
        Inr (seal_ok, grant_ok, xs @ ys))))"

definition reason_unless :: "bool \<Rightarrow> string \<Rightarrow> string list" where
  "reason_unless ok reason = (if ok then [] else [reason])"

definition hashes_agree :: "evidence_pack \<Rightarrow> bool" where
  "hashes_agree p \<longleftrightarrow> s_manifest_hash (sm_seal (pk_sealed_manifest p)) = ap_manifest_hash (pk_passport p)
     \<and> (case pk_grant p of None \<Rightarrow> True | Some g \<Rightarrow> (case g_manifest_hash g of None \<Rightarrow> True
          | Some h \<Rightarrow> h = s_manifest_hash (sm_seal (pk_sealed_manifest p))))"

definition verify_evidence_pack :: "crypto \<Rightarrow> (string \<Rightarrow> bool) \<Rightarrow> (exn \<Rightarrow> string) \<Rightarrow> evidence_pack \<Rightarrow> pack_verification res" where
  "verify_evidence_pack cr pub_ok msg p =
     (let hash_ok = compute_pack_hash cr p = pk_pack_hash p;
          r1 = reason_unless hash_ok ''pack_hash: recomputed hash does not match stored pack_hash'' in
      bindR (checked msg ''passport_hash'' (verify_passport_hash cr (pk_passport p))) (\<lambda>(passport_ok, r2).
      bindR (checked_keyring msg (embedded_keyring cr pub_ok p)) (\<lambda>(keys, r3).
      bindR (checked_signatures cr msg p keys) (\<lambda>(seal_ok, grant_ok, r4).
      bindR (checked msg ''audit_events'' (verify_event_self_consistency cr (pk_audit_events p))) (\<lambda>(events_ok, r5).
      let match_ok = list_all (\<lambda>e. case ae_manifest_id e of None \<Rightarrow> True | Some i \<Rightarrow> i = pk_manifest_id p) (pk_audit_events p);
          r6 = reason_unless match_ok ''audit_events: contains an event for a different manifest_id'';
          agree = hashes_agree p;
          r7 = reason_unless agree
            ''manifest_hash: sealed manifest, passport, and/or grant reference different manifest hashes''
      in Inr \<lparr>ev_pack_hash_verified = hash_ok, ev_passport_hash_verified = passport_ok, ev_seal_verified = seal_ok,
           ev_grant_verified = grant_ok, ev_audit_events_self_consistent = events_ok,
           ev_audit_events_match_manifest = match_ok, ev_manifest_hash_consistent = agree,
           ev_all_verified = (hash_ok \<and> passport_ok \<and> seal_ok \<and> grant_ok \<and> events_ok \<and> match_ok \<and> agree),
           ev_reasons = r1 @ r2 @ r3 @ r4 @ r5 @ r6 @ r7\<rparr>)))))"

section \<open>The verdict\<close>

definition pack_ok :: "crypto \<Rightarrow> (string \<Rightarrow> bool) \<Rightarrow> evidence_pack \<Rightarrow> bool" where
  "pack_ok cr pub_ok p \<longleftrightarrow>
     compute_pack_hash cr p = pk_pack_hash p \<and> verify_passport_hash cr (pk_passport p) = Inr ()
     \<and> (case embedded_keyring cr pub_ok p of Inl _ \<Rightarrow> False
        | Inr kr \<Rightarrow> verify_seal cr (pk_sealed_manifest p) kr = Inr ()
            \<and> (case pk_grant p of None \<Rightarrow> True | Some g \<Rightarrow> verify_grant_signature cr g kr = Inr ()))
     \<and> verify_event_self_consistency cr (pk_audit_events p) = Inr ()
     \<and> (\<forall>e \<in> set (pk_audit_events p). ae_manifest_id e \<in> {None, Some (pk_manifest_id p)})
     \<and> hashes_agree p"

lemma checked_ks:
  "ks_only r \<Longrightarrow> checked msg label r = Inr (r = Inr (), case r of Inl x \<Rightarrow> [label @ '': '' @ msg x] | Inr _ \<Rightarrow> [])"
  by (auto simp: checked_def attempt_ks split: sum.splits)

lemma seqR_error: "seqR rs = Inl e \<Longrightarrow> Inl e \<in> set rs"
  by (induction rs) (auto simp: result_simps)

lemma checked_keyring_total:
  "\<exists>xs. checked_keyring msg (embedded_keyring cr pub_ok p)
     = Inr (case embedded_keyring cr pub_ok p of Inl _ \<Rightarrow> None | Inr kr \<Rightarrow> Some kr, xs)"
proof (cases "embedded_keyring cr pub_ok p")
  case (Inl x)
  then have "Inl x \<in> set (map (\<lambda>k. vk_from_public_b64 cr pub_ok (ek_key_id k) (ek_public_key_b64 k) (ek_algorithm k))
      (pk_verification_keys p))"
    by (auto simp: embedded_keyring_def result_simps dest!: seqR_error)
  then have "is_ks x \<or> x = ValueError"
    by (auto simp: vk_from_public_b64_def assert_supported_algorithm_def thenR_def raise_if_def is_ks_def
        split: option.splits if_splits)
  then show ?thesis using Inl by (auto simp: checked_keyring_def)
qed (simp add: checked_keyring_def)

text \<open>Verification never raises, and accepts exactly the packs that are in order.\<close>

lemma verify_pack_exact:
  "\<exists>r. verify_evidence_pack cr pub_ok msg p = Inr r \<and> (ev_all_verified r \<longleftrightarrow> pack_ok cr pub_ok p)
     \<and> (ev_pack_hash_verified r \<longleftrightarrow> compute_pack_hash cr p = pk_pack_hash p)"
proof -
  obtain xs where k: "checked_keyring msg (embedded_keyring cr pub_ok p)
     = Inr (case embedded_keyring cr pub_ok p of Inl _ \<Rightarrow> None | Inr kr \<Rightarrow> Some kr, xs)"
    using checked_keyring_total by blast
  have h: "ks_only (verify_passport_hash cr (pk_passport p))"
    unfolding verify_passport_hash_def by (intro ks_only_intros ks_errors)
  have e: "ks_only (verify_event_self_consistency cr (pk_audit_events p))"
    by (simp add: verify_event_self_consistency_def verify_self_ks)
  have s: "\<exists>ys. checked_signatures cr msg p keys = Inr
      (case keys of None \<Rightarrow> False | Some kr \<Rightarrow> verify_seal cr (pk_sealed_manifest p) kr = Inr (),
       case keys of None \<Rightarrow> pk_grant p = None
       | Some kr \<Rightarrow> (case pk_grant p of None \<Rightarrow> True | Some g \<Rightarrow> verify_grant_signature cr g kr = Inr ()), ys)" for keys
    by (auto simp: checked_signatures_def checked_ks verify_seal_ks verify_grant_signature_ks split: option.splits)
  obtain ys where s': "checked_signatures cr msg p (case embedded_keyring cr pub_ok p of Inl _ \<Rightarrow> None | Inr kr \<Rightarrow> Some kr) = Inr
      (case embedded_keyring cr pub_ok p of Inl _ \<Rightarrow> False | Inr kr \<Rightarrow> verify_seal cr (pk_sealed_manifest p) kr = Inr (),
       case embedded_keyring cr pub_ok p of Inl _ \<Rightarrow> pk_grant p = None
       | Inr kr \<Rightarrow> (case pk_grant p of None \<Rightarrow> True | Some g \<Rightarrow> verify_grant_signature cr g kr = Inr ()), ys)"
    using s [of "case embedded_keyring cr pub_ok p of Inl _ \<Rightarrow> None | Inr kr \<Rightarrow> Some kr"]
    by (auto split: sum.splits)
  have m: "list_all (\<lambda>e. case ae_manifest_id e of None \<Rightarrow> True | Some i \<Rightarrow> i = pk_manifest_id p) (pk_audit_events p)
      \<longleftrightarrow> (\<forall>e \<in> set (pk_audit_events p). ae_manifest_id e \<in> {None, Some (pk_manifest_id p)})"
    by (auto simp: list_all_iff split: option.splits) (metis not_Some_eq)
  show ?thesis
    unfolding verify_evidence_pack_def Let_def
    by (simp add: k s' checked_ks [OF h] checked_ks [OF e] m pack_ok_def split: sum.splits)
qed

section \<open>Offline and online\<close>

text \<open>What a keyring in use satisfies: keys under their own identifier, of a supported algorithm, that
  Ed25519 accepts.\<close>

definition keyring_ok :: "(string \<Rightarrow> bool) \<Rightarrow> keyring \<Rightarrow> bool" where
  "keyring_ok pub_ok kr \<longleftrightarrow> finite (dom kr)
     \<and> (\<forall>i \<in> dom kr. vk_key_id (the (kr i)) = i \<and> vk_algorithm (the (kr i)) \<in> set SUPPORTED_ALGORITHMS
          \<and> pub_ok (vk_public (the (kr i))))"

lemma seqR_map_ok: "seqR (map f xs) = Inr ys \<longleftrightarrow> list_all2 (\<lambda>x y. f x = Inr y) xs ys"
  by (induction xs arbitrary: ys) (auto simp: result_simps list_all2_Cons1)

lemma embed_key_readable:
  assumes "crypto_ok cr" "keyring_ok pub_ok kr" "embed_key cr kr i = Inr k"
  shows "vk_from_public_b64 cr pub_ok (ek_key_id k) (ek_public_key_b64 k) (ek_algorithm k) = Inr (the (kr i))"
proof -
  obtain key where key: "kr i = Some key"
    and k: "k = \<lparr>ek_key_id = i, ek_algorithm = vk_algorithm key, ek_public_key_b64 = cr_b64encode cr (vk_public key)\<rparr>"
    using assms(3)
    by (auto simp: embed_key_def kr_get_def Let_def result_simps vk_public_bytes_b64_def split: option.splits)
  have "vk_key_id key = i" "vk_algorithm key \<in> set SUPPORTED_ALGORITHMS" "pub_ok (vk_public key)"
    using assms(2) key by (auto simp: keyring_ok_def dom_def)
  then show ?thesis
    using assms(1) key
    by (cases key) (simp add: k vk_from_public_b64_def crypto_ok_def assert_supported_algorithm_def thenR_def raise_if_def)
qed

lemma kr_init_map:
  assumes "\<And>i. i \<in> set is \<Longrightarrow> vk_key_id (f i) = i"
  shows "kr_init (map f is) = (\<lambda>i. if i \<in> set is then Some (f i) else None)"
proof -
  have "foldl kr_add_key m (map f is) = (\<lambda>i. if i \<in> set is then Some (f i) else m i)" for m
    using assms by (induction "is" arbitrary: m) (auto simp: kr_add_key_def fun_eq_iff)
  then show ?thesis by (simp add: kr_init_def)
qed

lemma embedded_keyring_same:
  assumes "crypto_ok cr" "keyring_ok pub_ok kr" "seqR (map (embed_key cr kr) (kr_key_ids kr)) = Inr (pk_verification_keys p)"
  shows "embedded_keyring cr pub_ok p = Inr kr"
proof -
  let ?f = "\<lambda>i. the (kr i)"
  have d: "set (kr_key_ids kr) = dom kr"
    using assms(2) by (simp add: kr_key_ids_def keyring_ok_def)
  have "list_all2 (\<lambda>k i. vk_from_public_b64 cr pub_ok (ek_key_id k) (ek_public_key_b64 k) (ek_algorithm k) = Inr (?f i))
      (pk_verification_keys p) (kr_key_ids kr)"
  proof (rule list_all2_all_nthI)
    show "length (pk_verification_keys p) = length (kr_key_ids kr)"
      using assms(3) [unfolded seqR_map_ok] by (simp add: list_all2_lengthD)
  next
    fix n
    assume "n < length (pk_verification_keys p)"
    then have n: "n < length (kr_key_ids kr)"
      using assms(3) [unfolded seqR_map_ok] by (simp add: list_all2_lengthD)
    let ?i = "kr_key_ids kr ! n" and ?k = "pk_verification_keys p ! n"
    have e: "embed_key cr kr ?i = Inr ?k"
      using assms(3) [unfolded seqR_map_ok] n by (rule list_all2_nthD)
    show "vk_from_public_b64 cr pub_ok (ek_key_id ?k) (ek_public_key_b64 ?k) (ek_algorithm ?k) = Inr (?f ?i)"
      using embed_key_readable [OF assms(1,2) e] .
  qed
  then have "seqR (map (\<lambda>k. vk_from_public_b64 cr pub_ok (ek_key_id k) (ek_public_key_b64 k) (ek_algorithm k))
      (pk_verification_keys p)) = Inr (map ?f (kr_key_ids kr))"
    by (simp add: seqR_map_ok list_all2_map2)
  moreover have "kr_init (map ?f (kr_key_ids kr)) = kr"
    using assms(2) by (subst kr_init_map) (auto simp: d keyring_ok_def fun_eq_iff domIff)
  ultimately show ?thesis by (simp add: embedded_keyring_def)
qed

lemma filtered_chain_consistent:
  "verify_chain_from cr prev n es = Inr () \<Longrightarrow> (case q of None \<Rightarrow> True | Some s \<Rightarrow> s < n) \<Longrightarrow>
     verify_self_from cr q (filter P es) = Inr ()"
proof (induction es arbitrary: prev n q)
  case (Cons e es)
  have c: "ae_sequence e = n" "compute_event_hash cr e = ae_event_hash e"
    "verify_chain_from cr (Some (ae_event_hash e)) (n + 1) es = Inr ()"
    using Cons.prems(1) by (auto split: if_splits)
  have "verify_self_from cr q (filter P es) = Inr ()"
    using Cons.IH [OF c(3)] Cons.prems(2) by (auto split: option.splits)
  moreover have "verify_self_from cr (Some n) (filter P es) = Inr ()"
    using Cons.IH [OF c(3), of "Some n"] by simp
  ultimately show ?case
    using c Cons.prems(2) by (auto split: option.splits)
qed simp

lemma build_pack_facts:
  assumes "build_evidence_pack cr now passport sealed ops journal kr grant = Inr p"
  shows "compute_pack_hash cr p = pk_pack_hash p" "pk_passport p = passport" "pk_sealed_manifest p = sealed"
    "pk_grant p = grant" "pk_manifest_id p = m_manifest_id (sm_manifest sealed)"
    "pk_audit_events p = events_for_manifest ops journal (m_manifest_id (sm_manifest sealed))"
    "seqR (map (embed_key cr kr) (kr_key_ids kr)) = Inr (pk_verification_keys p)"
    "case grant of None \<Rightarrow> True | Some g \<Rightarrow> g_manifest_hash g \<in> {None, Some (s_manifest_hash (sm_seal sealed))}"
  using assms
  by (auto simp: build_evidence_pack_def Let_def result_simps compute_pack_hash_def pack_payload_def split: option.splits)

lemma build_pack_total:
  assumes "ap_manifest_id passport = m_manifest_id (sm_manifest sealed)"
    and "case grant of None \<Rightarrow> True | Some g \<Rightarrow> g_manifest_hash g \<in> {None, Some (s_manifest_hash (sm_seal sealed))}"
    and "length (events_for_manifest ops journal (m_manifest_id (sm_manifest sealed))) \<le> MAX_EMBEDDED_AUDIT_EVENTS"
    and "length (kr_key_ids kr) \<le> MAX_EMBEDDED_KEYS" "\<exists>ks. seqR (map (embed_key cr kr) (kr_key_ids kr)) = Inr ks"
    and "m_manifest_id (sm_manifest sealed) \<noteq> []" "length (m_manifest_id (sm_manifest sealed)) \<le> 256"
  shows "\<exists>p. build_evidence_pack cr now passport sealed ops journal kr grant = Inr p"
proof -
  have "(case grant of None \<Rightarrow> False | Some g \<Rightarrow> (case g_manifest_hash g of None \<Rightarrow> False
      | Some h \<Rightarrow> h \<noteq> s_manifest_hash (sm_seal sealed))) = False"
    using assms(2) by (auto split: option.splits)
  moreover obtain ks where "seqR (map (embed_key cr kr) (kr_key_ids kr)) = Inr ks"
    using assms(5) by blast
  ultimately show ?thesis
    using assms(1,3,4,6,7)
    by (simp add: build_evidence_pack_def Let_def pack_validate_def raise_if_def thenR_def not_less)
qed

text \<open>C37. A pack built from a passport of the same run, over a journal whose chain is valid and a keyring in
  order, is judged offline as the issuing system would judge it: verification returns a verdict, and it
  is favourable exactly when the seal and the grant verify against the issuer's keyring.\<close>

theorem pack_roundtrip:
  assumes "crypto_ok cr" "keyring_ok pub_ok kr" "verify_chain cr ops journal = Inr ()"
    and "build_passport_v2 cr msg now kr ops journal sealed lifecycle_state i tenant = Inr passport"
    and "build_evidence_pack cr later passport sealed ops journal kr (pi_grant i) = Inr p"
  shows "\<exists>r. verify_evidence_pack cr pub_ok msg p = Inr r
    \<and> (ev_all_verified r \<longleftrightarrow> verify_seal cr sealed kr = Inr ()
        \<and> (case pi_grant i of None \<Rightarrow> True | Some g \<Rightarrow> verify_grant_signature cr g kr = Inr ()))"
proof -
  note b = build_pack_facts [OF assms(5)]
  obtain v where v: "build_passport cr msg now kr ops journal sealed lifecycle_state i = Inr v"
    and u: "passport = upgrade_passport_v1_to_v2 cr v tenant"
    using assms(4) by (auto simp: build_passport_v2_def result_simps)
  have h: "ap_manifest_hash passport = s_manifest_hash (sm_seal sealed)"
    using build_passport_facts [where cr = cr and msg = msg and now = now and kr = kr and ops = ops and journal = journal
        and sealed = sealed and lifecycle_state = lifecycle_state and i = i] v
    by (simp add: u upgrade_fields)
  have "verify_event_self_consistency cr (pk_audit_events p) = Inr ()"
    using assms(3) filtered_chain_consistent [of cr None 1 _ None]
    by (simp add: b verify_event_self_consistency_def events_for_manifest_def verify_chain_def verify_event_chain_def)
  moreover have "\<forall>e \<in> set (pk_audit_events p). ae_manifest_id e \<in> {None, Some (pk_manifest_id p)}"
    by (simp add: b events_for_manifest_def)
  moreover have "hashes_agree p"
    using b(8) h by (auto simp: hashes_agree_def b(2-4) split: option.splits)
  ultimately have "pack_ok cr pub_ok p \<longleftrightarrow> verify_seal cr sealed kr = Inr ()
        \<and> (case pi_grant i of None \<Rightarrow> True | Some g \<Rightarrow> verify_grant_signature cr g kr = Inr ())"
    using upgrade_hash [of cr v tenant]
    by (simp add: pack_ok_def b u embedded_keyring_same [OF assms(1,2) b(7)])
  then show ?thesis
    using verify_pack_exact [of cr pub_ok msg p] by blast
qed

section \<open>Tamper evidence\<close>

definition same_pack :: "evidence_pack \<Rightarrow> evidence_pack \<Rightarrow> bool" where
  "same_pack p q \<longleftrightarrow>
     pk_pack_format p = pk_pack_format q \<and> pk_schema_version p = pk_schema_version q
     \<and> pk_manifest_id p = pk_manifest_id q
     \<and> same_passport (pk_passport p) (pk_passport q)
     \<and> ap_generated_at (pk_passport p) = ap_generated_at (pk_passport q)
     \<and> same_manifest (sm_manifest (pk_sealed_manifest p)) (sm_manifest (pk_sealed_manifest q))
     \<and> sm_seal (pk_sealed_manifest p) = sm_seal (pk_sealed_manifest q)
     \<and> pk_grant p = pk_grant q \<and> list_all2 same_event (pk_audit_events p) (pk_audit_events q)
     \<and> pk_verification_keys p = pk_verification_keys q"

lemma normal_JObj_Cons_inject:
  assumes "normal (JObj ((k, v) # xs)) = normal (JObj ((k, w) # ys))" "map fst xs = map fst ys" "distinct (k # map fst xs)"
  shows "normal v = normal w" "normal (JObj xs) = normal (JObj ys)"
  using normal_JObj_inject [OF assms(1)] assms(2,3) by auto

lemma embedded_key_json_inject [simp]: "normal (embedded_key_json k) = normal (embedded_key_json l) \<longleftrightarrow> k = l"
  unfolding embedded_key_json_def by (cases k; cases l) (auto dest!: normal_JObj_inject)

lemma seal_json_inject:
  assumes "crypto_ok cr" "normal (seal_json cr s) = normal (seal_json cr t)"
  shows "s = t"
proof -
  have i: "cr_iso cr x = cr_iso cr y \<longleftrightarrow> x = y" for x y
    using assms(1) by (auto simp: crypto_ok_def inj_eq)
  show ?thesis
    using assms(2) unfolding seal_json_def by (cases s; cases t) (auto dest!: normal_JObj_inject simp: i)
qed

lemma sealed_manifest_json_inject:
  assumes "crypto_ok cr" "normal (sealed_manifest_json cr s) = normal (sealed_manifest_json cr t)"
  shows "same_manifest (sm_manifest s) (sm_manifest t) \<and> sm_seal s = sm_seal t"
proof -
  have "normal (manifest_json (cr_iso cr) (sm_manifest s)) = normal (manifest_json (cr_iso cr) (sm_manifest t))"
    "normal (seal_json cr (sm_seal s)) = normal (seal_json cr (sm_seal t))"
    using normal_JObj_inject [OF assms(2) [unfolded sealed_manifest_json_def]] by simp_all
  then show ?thesis
    using assms(1) seal_json_inject [OF assms(1)] manifest_json_inject by (auto simp: crypto_ok_def)
qed

lemma grant_json_inject:
  assumes "crypto_ok cr" "normal (grant_json cr g) = normal (grant_json cr h)"
  shows "g = h"
proof -
  note f = normal_JObj_Cons_inject [OF assms(2) [unfolded grant_json_def with_field_def signing_payload_def json.case]]
  have "g_signature g = g_signature h" using f(1) by simp
  moreover have "normal (signing_payload cr g) = normal (signing_payload cr h)"
    unfolding signing_payload_def by (rule f(2)) simp_all
  then have "g\<lparr>g_signature := None\<rparr> = h\<lparr>g_signature := None\<rparr>"
    by (rule signing_payload_inject [OF assms(1)])
  ultimately show ?thesis by (cases g; cases h) simp
qed

lemma audit_event_json_inject:
  assumes "crypto_ok cr" "normal (audit_event_json cr e) = normal (audit_event_json cr f)"
  shows "same_event e f"
proof -
  note i = normal_JObj_Cons_inject [OF assms(2) [unfolded audit_event_json_def with_field_def event_json_def json.case]]
  have "ae_event_hash e = ae_event_hash f" using i(1) by simp
  moreover have "normal (event_json cr e) = normal (event_json cr f)"
    unfolding event_json_def by (rule i(2)) simp_all
  ultimately show ?thesis
    using event_json_inject [OF assms(1)] by blast
qed

lemma passport_json_inject:
  assumes "crypto_ok cr" "normal (passport_json cr p) = normal (passport_json cr q)"
  shows "same_passport p q \<and> ap_generated_at p = ap_generated_at q"
proof -
  have i: "cr_iso cr x = cr_iso cr y \<longleftrightarrow> x = y" for x y
    using assms(1) by (auto simp: crypto_ok_def inj_eq)
  have d: "distinct (''generated_at'' # ''passport_hash'' # map fst (passport_fields cr p))"
    by (simp add: passport_fields_def)
  note f = normal_JObj_Cons_inject [OF assms(2) [unfolded passport_json_def]]
  have g: "ap_generated_at p = ap_generated_at q"
    using f(1) d passport_keys(1) [of cr p q] by (simp add: i)
  have "normal (JObj ((''passport_hash'', JStr (pv_passport_hash p)) # passport_fields cr p))
      = normal (JObj ((''passport_hash'', JStr (pv_passport_hash q)) # passport_fields cr q))"
    using f(2) d passport_keys(1) [of cr p q] by simp
  from normal_JObj_Cons_inject(2) [OF this] d passport_keys(1) [of cr p q]
  have "normal (passport_payload cr p) = normal (passport_payload cr q)"
    by (simp add: passport_payload_def)
  then show ?thesis
    using g passport_payload_inject [OF assms(1)] by blast
qed

lemma map_eq_list_all2: "map f xs = map f ys \<Longrightarrow> list_all2 (\<lambda>a b. f a = f b) xs ys"
  by (induction xs arbitrary: ys) auto

lemma pack_payload_inject:
  assumes "crypto_ok cr" "normal (pack_payload cr p) = normal (pack_payload cr q)"
  shows "same_pack p q"
proof -
  note f = normal_JObj_inject [OF assms(2) [unfolded pack_payload_def]]
  have n: "normal (grant_json cr g) \<noteq> JNull" "JNull \<noteq> normal (grant_json cr g)" for g
    by (simp_all add: grant_json_def with_field_def signing_payload_def)
  have "normal (case pk_grant p of None \<Rightarrow> JNull | Some g \<Rightarrow> grant_json cr g)
      = normal (case pk_grant q of None \<Rightarrow> JNull | Some g \<Rightarrow> grant_json cr g)"
    using f by (simp del: normal.simps(1,2))
  then have g: "pk_grant p = pk_grant q"
    using n grant_json_inject [OF assms(1)] by (auto split: option.splits)
  have e: "map (\<lambda>e. normal (audit_event_json cr e)) (pk_audit_events p)
      = map (\<lambda>e. normal (audit_event_json cr e)) (pk_audit_events q)"
    using f by (simp add: comp_def)
  have "list_all2 (\<lambda>a b. normal (audit_event_json cr a) = normal (audit_event_json cr b))
      (pk_audit_events p) (pk_audit_events q)"
    using e by (rule map_eq_list_all2)
  then have e': "list_all2 same_event (pk_audit_events p) (pk_audit_events q)"
    by (rule list_all2_mono) (rule audit_event_json_inject [OF assms(1)])
  have "inj (\<lambda>k. normal (embedded_key_json k))"
    by (simp add: inj_def)
  then have k: "pk_verification_keys p = pk_verification_keys q"
    using f by (simp add: comp_def inj_map_eq_map)
  have j: "normal (passport_json cr (pk_passport p)) = normal (passport_json cr (pk_passport q))"
    "normal (sealed_manifest_json cr (pk_sealed_manifest p)) = normal (sealed_manifest_json cr (pk_sealed_manifest q))"
    "pk_pack_format p = pk_pack_format q" "pk_schema_version p = pk_schema_version q" "pk_manifest_id p = pk_manifest_id q"
    using f by (simp_all del: normal.simps(1,2))
  show ?thesis
    unfolding same_pack_def
    using g e' k j(3-5) passport_json_inject [OF assms(1) j(1)] sealed_manifest_json_inject [OF assms(1) j(2)] by simp
qed

text \<open>A verified pack cannot be altered under its hash: two packs with one hash that both pass the hash
  check agree in every part, down to the time of the passport and each recorded event, up to the order of
  dictionary keys, unless SHA-256 collides on their texts.\<close>

theorem pack_tamper_evident:
  assumes "crypto_ok cr"
    and "verify_evidence_pack cr pub_ok msg p = Inr r" "ev_pack_hash_verified r"
    and "verify_evidence_pack cr pub_ok' msg' q = Inr r'" "ev_pack_hash_verified r'"
    and "pk_pack_hash p = pk_pack_hash q"
    and "no_collision cr (pack_payload cr p) (pack_payload cr q)"
  shows "same_pack p q"
proof -
  have "compute_pack_hash cr p = compute_pack_hash cr q"
    using verify_pack_exact [of cr pub_ok msg p] verify_pack_exact [of cr pub_ok' msg' q] assms(2-6) by auto
  then have "normal (pack_payload cr p) = normal (pack_payload cr q)"
    unfolding compute_pack_hash_def using assms(7) by (rule canonical_hash_normal)
  then show ?thesis by (rule pack_payload_inject [OF assms(1)])
qed

text \<open>The identifier of a pack is compared with its events only, not with its manifest or passport: an accepted
  pack stays accepted with the identifier and the events of any other manifest in the place of its own.\<close>

lemma foreign_events_accepted:
  assumes "pack_ok cr pub_ok p" "verify_event_self_consistency cr es = Inr ()"
    and "\<forall>e \<in> set es. ae_manifest_id e = Some other"
  defines "q \<equiv> p\<lparr>pk_manifest_id := other, pk_audit_events := es\<rparr>"
  shows "pack_ok cr pub_ok (q\<lparr>pk_pack_hash := compute_pack_hash cr q\<rparr>)"
proof -
  have "compute_pack_hash cr (q\<lparr>pk_pack_hash := h\<rparr>) = compute_pack_hash cr q" for h
    by (simp add: compute_pack_hash_def pack_payload_def)
  then show ?thesis
    using assms by (simp add: pack_ok_def embedded_keyring_def hashes_agree_def split: sum.splits option.splits)
qed

section \<open>A concrete pack\<close>

definition no_inputs :: passport_inputs where
  "no_inputs = \<lparr>pi_grant = None, pi_is_revoked = None, pi_commit_result = None, pi_outcome_proof = None,
     pi_compensation_result = None, pi_assessment = None, pi_role_assignment = None, pi_causal_graph = None,
     pi_compensation_manifest_hash = None, pi_compensation_passport_status = None, pi_witness_set_hash = None, pi_witness_policy_hash = None, pi_witness_quorum_satisfied = None,
     pi_accepted_witness_ids = [], pi_evidence_set_hash = None, pi_evidence_policy_hash = None, pi_evidence_acceptable = None, pi_evidence_strongest_kind = None\<rparr>"

lemma toy_keyring_ok: "keyring_ok (\<lambda>b. b \<noteq> []) toy_keyring" "kr_key_ids toy_keyring = [''key-1'']"
proof -
  have d: "dom toy_keyring = {''key-1''}"
    by (auto simp: toy_keyring_def kr_init_def kr_add_key_def sk_verification_key_def toy_key_def split: if_splits)
  show "keyring_ok (\<lambda>b. b \<noteq> []) toy_keyring"
    using toy_keyring_key
    by (simp add: keyring_ok_def d sk_verification_key_def toy_key_def SUPPORTED_ALGORITHMS_def toy_crypto_def)
  show "kr_key_ids toy_keyring = [''key-1'']"
    by (simp add: kr_key_ids_def d)
qed

lemma toy_pack_built:
  "\<exists>sealed passport p. verify_seal toy_crypto sealed toy_keyring = Inr ()
     \<and> build_passport_v2 toy_crypto exn_name 7 toy_keyring am_ops [] sealed ''sealed'' no_inputs None = Inr passport
     \<and> build_evidence_pack toy_crypto 8 passport sealed am_ops [] toy_keyring None = Inr p"
proof -
  obtain sealed where s: "sm_manifest sealed = toy_manifest" "verify_seal toy_crypto sealed toy_keyring = Inr ()"
    using toy_seal_verifies by blast
  obtain v where v: "build_passport toy_crypto exn_name 7 toy_keyring am_ops [] sealed ''sealed'' no_inputs = Inr v"
    "ap_manifest_id v = ''m-1''"
    using build_passport_facts [where cr = toy_crypto and msg = exn_name and now = 7 and kr = toy_keyring and ops = am_ops
        and journal = "[]" and sealed = sealed and lifecycle_state = "''sealed''" and i = no_inputs] s(1)
    by (auto simp: revocation_check_def no_inputs_def toy_manifest_def split: sum.splits)
  have "build_evidence_pack toy_crypto 8 (upgrade_passport_v1_to_v2 toy_crypto v None) sealed am_ops [] toy_keyring None
      = Inr p \<Longrightarrow> ?thesis" for p
    using s(2) v(1) by (auto simp: build_passport_v2_def)
  moreover have "\<exists>k. embed_key toy_crypto toy_keyring ''key-1'' = Inr k"
    using toy_keyring_key
    by (simp add: embed_key_def kr_get_def Let_def embedded_key_validate_def vk_public_bytes_b64_def thenR_def
        raise_if_def sk_verification_key_def toy_key_def toy_crypto_def)
  then have "\<exists>ks. seqR (map (embed_key toy_crypto toy_keyring) (kr_key_ids toy_keyring)) = Inr ks"
    by (auto simp: toy_keyring_ok(2))
  then have "\<exists>p. build_evidence_pack toy_crypto 8 (upgrade_passport_v1_to_v2 toy_crypto v None) sealed am_ops [] toy_keyring None
      = Inr p"
    by (intro build_pack_total)
      (simp_all add: upgrade_fields v(2) s(1) toy_manifest_def events_for_manifest_def am_ops_def toy_keyring_ok(2)
        MAX_EMBEDDED_KEYS_def)
  ultimately show ?thesis by blast
qed

lemma empty_journal_valid: "verify_chain cr am_ops [] = Inr ()"
  by (simp add: verify_chain_def verify_event_chain_def am_ops_def)

theorem pack_roundtrip_witness:
  "\<exists>sealed passport p r.
     build_passport_v2 toy_crypto exn_name 7 toy_keyring am_ops [] sealed ''sealed'' no_inputs None = Inr passport
     \<and> build_evidence_pack toy_crypto 8 passport sealed am_ops [] toy_keyring None = Inr p
     \<and> verify_evidence_pack toy_crypto (\<lambda>b. b \<noteq> []) exn_name p = Inr r \<and> ev_all_verified r"
proof -
  obtain sealed passport p where b: "verify_seal toy_crypto sealed toy_keyring = Inr ()"
    "build_passport_v2 toy_crypto exn_name 7 toy_keyring am_ops [] sealed ''sealed'' no_inputs None = Inr passport"
    "build_evidence_pack toy_crypto 8 passport sealed am_ops [] toy_keyring None = Inr p"
    using toy_pack_built by blast
  moreover have "pi_grant no_inputs = None"
    by (simp add: no_inputs_def)
  ultimately show ?thesis
    using pack_roundtrip [OF toy_crypto_ok toy_keyring_ok(1) empty_journal_valid b(2), of 8 p] by auto
qed

theorem pack_tamper_evident_witness:
  "\<exists>p r. verify_evidence_pack toy_crypto (\<lambda>b. b \<noteq> []) exn_name p = Inr r \<and> ev_pack_hash_verified r \<and> same_pack p p"
proof -
  obtain sealed passport p where b: "build_evidence_pack toy_crypto 8 passport sealed am_ops [] toy_keyring None = Inr p"
    using toy_pack_built by blast
  obtain r where r: "verify_evidence_pack toy_crypto (\<lambda>b. b \<noteq> []) exn_name p = Inr r" "ev_pack_hash_verified r"
    using verify_pack_exact [of toy_crypto "\<lambda>b. b \<noteq> []" exn_name p] build_pack_facts(1) [OF b] by auto
  have "same_pack p p"
    by (rule pack_tamper_evident [OF toy_crypto_ok r r]) (simp_all add: no_collision_def)
  then show ?thesis using r by blast
qed

end
