(* ===== verification/Protection.thy ===== *)
theory Protection
  imports PyText
begin

text \<open>
  Resource protection of the HTTP surface (\<^verbatim>\<open>protection/limits.py\<close>, \<^verbatim>\<open>protection/middleware.py\<close>): the policy and
  its reading from the environment, the ceiling on the declared size of a request, the fixed-window rate
  limiter and the middleware that applies them in front of the application.

  What is shown: over any history of requests the application sees at most twice the limit of one client
  in any 60 seconds (once the limit per window, but two windows may meet), and no request over the size
  ceiling; a client is refused only after as many of its requests were admitted in the last 60 seconds.

  The monotonic clock, whose values are floats, is a time in microseconds; it never decreases.  The lock
  makes a check atomic, so a history is a sequence of requests.
\<close>

section \<open>The policy\<close>

definition DEFAULT_MAX_REQUEST_BYTES :: int where "DEFAULT_MAX_REQUEST_BYTES = 256 * 1024"

definition DEFAULT_API_RATE_LIMIT_PER_MINUTE :: int where "DEFAULT_API_RATE_LIMIT_PER_MINUTE = 120"

definition WINDOW_SECONDS :: time where "WINDOW_SECONDS = 60 * second"

record protection_policy =
  rp_max_request_bytes :: int
  rp_rate_limit_per_minute :: int
  rp_enabled :: bool

definition protection_policy_new :: "int \<Rightarrow> int \<Rightarrow> bool \<Rightarrow> protection_policy res" where
  "protection_policy_new max_bytes rate enabled =
     thenR (allR
       [raise_if (max_bytes < 1024) ValueError,
        raise_if (max_bytes > 16 * 1024 * 1024) ValueError,
        raise_if (rate < 1) ValueError,
        raise_if (rate > 100000) ValueError])
     (Inr \<lparr>rp_max_request_bytes = max_bytes, rp_rate_limit_per_minute = rate, rp_enabled = enabled\<rparr>)"

text \<open>\<open>policy_from_env\<close> over the environment; an empty number counts as missing.\<close>

definition env_int :: "string option \<Rightarrow> int \<Rightarrow> int res" where
  "env_int raw missing = (case raw of None \<Rightarrow> Inr missing | Some s \<Rightarrow> if s = [] then Inr missing else py_int s)"

definition policy_from_env :: "(string \<Rightarrow> string option) \<Rightarrow> protection_policy res" where
  "policy_from_env env =
     bindR (env_int (env ''KARMASAKSHI_MAX_REQUEST_BYTES'') DEFAULT_MAX_REQUEST_BYTES) (\<lambda>max_bytes.
     bindR (env_int (env ''KARMASAKSHI_API_RATE_LIMIT_PER_MINUTE'') DEFAULT_API_RATE_LIMIT_PER_MINUTE) (\<lambda>rate.
     protection_policy_new max_bytes rate
       (case env ''KARMASAKSHI_RESOURCE_PROTECTION'' of None \<Rightarrow> True
        | Some s \<Rightarrow> lower (py_strip s) \<notin> {''0'', ''false'', ''off'', ''no''})))"

definition enforce_content_length :: "int option \<Rightarrow> int \<Rightarrow> unit res" where
  "enforce_content_length content_length max_bytes = (case content_length of
      None \<Rightarrow> Inr ()
    | Some n \<Rightarrow> raise_if (n < 0 \<or> n > max_bytes) (ResourceProtectionE RequestTooLargeError))"

section \<open>The rate limiter\<close>

record rate_window =
  rw_window_start :: time
  rw_count :: int

type_synonym rate_buckets = "string \<Rightarrow> rate_window option"

definition limiter_reset :: "rate_buckets \<Rightarrow> rate_buckets" where
  "limiter_reset b = (\<lambda>_. None)"

definition limiter_check :: "int \<Rightarrow> time \<Rightarrow> string \<Rightarrow> (rate_buckets, unit) sem" where
  "limiter_check limit now client = (\<lambda>b.
     let fresh = (Inr (), b(client := Some \<lparr>rw_window_start = now, rw_count = 1\<rparr>)) in
     case b client of
       None \<Rightarrow> fresh
     | Some w \<Rightarrow> if now - rw_window_start w \<ge> WINDOW_SECONDS then fresh
         else if rw_count w \<ge> limit then (Inl (ResourceProtectionE RateLimitExceededError), b)
         else (Inr (), b(client := Some (w\<lparr>rw_count := rw_count w + 1\<rparr>))))"

section \<open>The middleware\<close>

record http_request =
  rq_type :: string
  rq_path :: string
  rq_content_length :: "string option"
  rq_client :: "string option"

datatype middleware_outcome = Forward | Respond int

definition EXEMPT_PREFIXES :: "string list" where
  "EXEMPT_PREFIXES = [''/health'', ''/ready'', ''/metrics'']"

definition exempt_path :: "string \<Rightarrow> bool" where
  "exempt_path path \<longleftrightarrow> list_ex (\<lambda>p. path = p \<or> starts_with (p @ ''/'') path) EXEMPT_PREFIXES"

definition client_host :: "http_request \<Rightarrow> string" where
  "client_host q = (case rq_client q of None \<Rightarrow> ''unknown'' | Some h \<Rightarrow> h)"

definition guarded :: "protection_policy \<Rightarrow> http_request \<Rightarrow> bool" where
  "guarded pol q \<longleftrightarrow> rq_type q = ''http'' \<and> rp_enabled pol \<and> \<not> exempt_path (rq_path q)"

definition guard_request :: "protection_policy \<Rightarrow> time \<Rightarrow> http_request \<Rightarrow> (rate_buckets, unit) sem" where
  "guard_request pol now q =
     bindE (liftR (case rq_content_length q of None \<Rightarrow> Inr None | Some raw \<Rightarrow> bindR (py_int raw) (\<lambda>n. Inr (Some n)))) (\<lambda>n.
     thenE (liftR (enforce_content_length n (rp_max_request_bytes pol)))
       (limiter_check (rp_rate_limit_per_minute pol) now (client_host q)))"

text \<open>The handlers of the \<^verbatim>\<open>try\<close>, in their order; nothing else is raised there.\<close>

definition error_response :: "exn \<Rightarrow> middleware_outcome" where
  "error_response e = Respond (if e = ResourceProtectionE RequestTooLargeError then 413
     else if e = ResourceProtectionE RateLimitExceededError then 429 else if e = ValueError then 400 else 500)"

definition middleware_call :: "protection_policy \<Rightarrow> time \<Rightarrow> http_request \<Rightarrow> rate_buckets \<Rightarrow> middleware_outcome \<times> rate_buckets" where
  "middleware_call pol now q b =
     (if \<not> guarded pol q then (Forward, b)
      else case guard_request pol now q b of (Inr _, b') \<Rightarrow> (Forward, b') | (Inl e, b') \<Rightarrow> (error_response e, b'))"

text \<open>A history of requests with the times they arrive at.\<close>

fun middleware_run :: "protection_policy \<Rightarrow> rate_buckets \<Rightarrow> (time \<times> http_request) list \<Rightarrow> middleware_outcome list \<times> rate_buckets" where
  "middleware_run pol b [] = ([], b)"
| "middleware_run pol b ((now, q) # rest) =
     (let (out, b') = middleware_call pol now q b; (outs, b'') = middleware_run pol b' rest in (out # outs, b''))"

section \<open>What the limiter admits\<close>

text \<open>The requests of a client that pass the guard between two times.\<close>

definition admitted :: "protection_policy \<Rightarrow> string \<Rightarrow> time \<Rightarrow> time \<Rightarrow> ((time \<times> http_request) \<times> middleware_outcome) list \<Rightarrow> nat" where
  "admitted pol c from_t until_t log =
     length (filter (\<lambda>((t, q), out). out = Forward \<and> guarded pol q \<and> client_host q = c \<and> from_t \<le> t \<and> t < until_t) log)"

definition served :: "protection_policy \<Rightarrow> rate_buckets \<Rightarrow> (time \<times> http_request) list
    \<Rightarrow> ((time \<times> http_request) \<times> middleware_outcome) list" where
  "served pol b reqs = zip reqs (fst (middleware_run pol b reqs))"

lemma served_Nil [simp]: "served pol b [] = []"
  by (simp add: served_def)

lemma served_Cons:
  "served pol b ((t, q) # reqs) =
     ((t, q), fst (middleware_call pol t q b)) # served pol (snd (middleware_call pol t q b)) reqs"
  by (simp add: served_def split_beta)

lemma admitted_Nil [simp]: "admitted pol c a z [] = 0"
  by (simp add: admitted_def)

lemma admitted_Cons:
  "admitted pol c a z (((t, q), out) # log) =
     (if out = Forward \<and> guarded pol q \<and> client_host q = c \<and> a \<le> t \<and> t < z then 1 else 0) + admitted pol c a z log"
  by (simp add: admitted_def)

lemma error_response_not_Forward [simp]: "error_response e \<noteq> Forward"
  by (simp add: error_response_def)

text \<open>What one call does to the bucket of a client.\<close>

lemma call_bucket:
  assumes "middleware_call pol t q b = (out, b')"
  shows "(out = Forward \<and> guarded pol q \<and> client_host q = c
      \<and> (case b c of None \<Rightarrow> b' c = Some \<lparr>rw_window_start = t, rw_count = 1\<rparr>
         | Some w \<Rightarrow> if t - rw_window_start w \<ge> WINDOW_SECONDS then b' c = Some \<lparr>rw_window_start = t, rw_count = 1\<rparr>
             else rw_count w < rp_rate_limit_per_minute pol \<and> b' c = Some (w\<lparr>rw_count := rw_count w + 1\<rparr>)))
    \<or> \<not> (out = Forward \<and> guarded pol q \<and> client_host q = c) \<and> b' c = b c"
  using assms
  by (auto simp: middleware_call_def guard_request_def bindE_def thenE_def liftR_def limiter_check_def Let_def
      split: if_splits option.splits sum.splits)

text \<open>How many more requests of a client, whose bucket is given, can be admitted in the 60 seconds from \<open>a\<close> on.\<close>

definition room :: "int \<Rightarrow> time \<Rightarrow> rate_window option \<Rightarrow> int" where
  "room limit a w = (case w of
      None \<Rightarrow> 2 * limit
    | Some w \<Rightarrow> if rw_window_start w \<ge> a + WINDOW_SECONDS then 0
        else if rw_window_start w \<ge> a then limit - rw_count w
        else if a < rw_window_start w + WINDOW_SECONDS then 2 * limit - rw_count w
        else 2 * limit)"

definition window_ok :: "int \<Rightarrow> time \<Rightarrow> rate_window option \<Rightarrow> bool" where
  "window_ok limit t w \<longleftrightarrow> (case w of None \<Rightarrow> True | Some w \<Rightarrow> rw_window_start w \<le> t \<and> 1 \<le> rw_count w \<and> rw_count w \<le> limit)"

lemma window_positive: "WINDOW_SECONDS > 0"
  by (simp add: WINDOW_SECONDS_def second_def)

lemma call_room:
  assumes "middleware_call pol t q b = (out, b')" "window_ok limit t (b c)" "limit \<ge> 1"
    and "limit = rp_rate_limit_per_minute pol"
  shows "window_ok limit t (b' c) \<and> room limit a (b' c)
     + (if out = Forward \<and> guarded pol q \<and> client_host q = c \<and> a \<le> t \<and> t < a + WINDOW_SECONDS then 1 else 0)
     \<le> room limit a (b c)"
  using call_bucket [OF assms(1), of c] assms(2-4) window_positive
  by (cases "b c") (auto simp: window_ok_def room_def split: if_splits)

lemma admitted_room:
  assumes "sorted (t0 # map fst reqs)" "window_ok limit t0 (b c)" "limit \<ge> 1" "limit = rp_rate_limit_per_minute pol"
  shows "int (admitted pol c a (a + WINDOW_SECONDS) (served pol b reqs)) \<le> room limit a (b c)"
  using assms(1,2)
proof (induction reqs arbitrary: b t0)
  case Nil
  then show ?case
    using assms(3) window_positive by (auto simp: room_def window_ok_def split: option.splits)
next
  case (Cons r reqs)
  obtain t q where r: "r = (t, q)" by fastforce
  obtain out b' where c: "middleware_call pol t q b = (out, b')" by fastforce
  have "window_ok limit t (b c)"
    using Cons.prems by (auto simp: r window_ok_def split: option.splits)
  note k = call_room [OF c this assms(3,4), of a]
  have "int (admitted pol c a (a + WINDOW_SECONDS) (served pol b' reqs)) \<le> room limit a (b' c)"
    using Cons.prems(1) k by (intro Cons.IH [of t]) (simp_all add: r)
  then show ?case
    using k by (auto simp: r served_Cons c admitted_Cons split: if_splits)
qed

text \<open>The size of an admitted request, as far as it declares one.\<close>

definition size_admissible :: "protection_policy \<Rightarrow> http_request \<Rightarrow> bool" where
  "size_admissible pol q \<longleftrightarrow> (case rq_content_length q of None \<Rightarrow> True
     | Some raw \<Rightarrow> (case py_int raw of Inl _ \<Rightarrow> False | Inr n \<Rightarrow> 0 \<le> n \<and> n \<le> rp_max_request_bytes pol))"

lemma call_size:
  "fst (middleware_call pol t q b) = Forward \<Longrightarrow> guarded pol q \<Longrightarrow> size_admissible pol q"
  by (auto simp: middleware_call_def guard_request_def bindE_def thenE_def liftR_def size_admissible_def
      enforce_content_length_def raise_if_def split: if_splits option.splits sum.splits prod.splits elim!: bindR.elims)

lemma served_size:
  "\<forall>((t, q), out) \<in> set (served pol b reqs). out = Forward \<longrightarrow> guarded pol q \<longrightarrow> size_admissible pol q"
proof (induction reqs arbitrary: b)
  case (Cons r reqs)
  obtain t q where r: "r = (t, q)" by fastforce
  show ?case
    using Cons.IH call_size [of pol t q b] by (simp add: r served_Cons)
qed simp

text \<open>A bucket counts requests that were admitted since its window began.\<close>

lemma run_snoc:
  "snd (middleware_run pol b (reqs @ [(t, q)])) = snd (middleware_call pol t q (snd (middleware_run pol b reqs)))"
  "served pol b (reqs @ [(t, q)]) = served pol b reqs @ [((t, q), fst (middleware_call pol t q (snd (middleware_run pol b reqs))))]"
  by (induction reqs arbitrary: b) (auto simp: served_Cons split_beta)

lemma admitted_mono: "a' \<le> a \<Longrightarrow> admitted pol c a z log \<le> admitted pol c a' z log"
  by (induction log) (auto simp: admitted_def)

lemma admitted_append: "admitted pol c a z (xs @ ys) = admitted pol c a z xs + admitted pol c a z ys"
  by (simp add: admitted_def)

lemma bucket_counts_admitted:
  assumes "sorted (map fst reqs)" "\<forall>t \<in> fst ` set reqs. t < z"
  shows "case snd (middleware_run pol (\<lambda>_. None) reqs) c of None \<Rightarrow> True
    | Some w \<Rightarrow> rw_count w \<le> int (admitted pol c (rw_window_start w) z (served pol (\<lambda>_. None) reqs))
        \<and> (\<exists>r \<in> set reqs. rw_window_start w \<le> fst r)"
  using assms
proof (induction reqs rule: rev_induct)
  case (snoc r reqs)
  obtain t q where r: "r = (t, q)" by fastforce
  let ?b = "snd (middleware_run pol (\<lambda>_. None) reqs)"
  obtain out b' where c: "middleware_call pol t q ?b = (out, b')" by fastforce
  have s: "sorted (map fst reqs)" "\<forall>x \<in> set reqs. fst x \<le> t" "t < z" "\<forall>t \<in> fst ` set reqs. t < z"
    using snoc.prems by (auto simp: r sorted_append)
  from snoc.IH [OF s(1,4)] call_bucket [OF c, of c] s show ?case
    by (force simp: r run_snoc c admitted_append admitted_Cons split: option.splits if_splits)
qed simp

lemma refusal_justified:
  assumes "sorted (map fst reqs @ [t])"
    and "fst (middleware_call pol t q (snd (middleware_run pol (\<lambda>_. None) reqs))) = Respond 429"
  shows "rp_rate_limit_per_minute pol
    \<le> int (admitted pol (client_host q) (t - WINDOW_SECONDS + 1) (t + 1) (served pol (\<lambda>_. None) reqs))"
proof -
  let ?b = "snd (middleware_run pol (\<lambda>_. None) reqs)" and ?c = "client_host q" and ?l = "served pol (\<lambda>_. None) reqs"
  obtain w where w: "?b ?c = Some w" "t - rw_window_start w < WINDOW_SECONDS" "rp_rate_limit_per_minute pol \<le> rw_count w"
    using assms(2)
    by (auto simp: middleware_call_def guard_request_def bindE_def thenE_def liftR_def limiter_check_def Let_def
        error_response_def enforce_content_length_def raise_if_def
        split: if_splits option.splits sum.splits prod.splits elim!: bindR.elims dest: py_int_error)
  have "rw_count w \<le> int (admitted pol ?c (rw_window_start w) (t + 1) ?l)"
    using bucket_counts_admitted [of reqs "t + 1" pol ?c] assms(1) w(1) by (auto simp: sorted_append)
  also have "\<dots> \<le> int (admitted pol ?c (t - WINDOW_SECONDS + 1) (t + 1) ?l)"
    using w(2) by (intro of_nat_mono admitted_mono) simp
  finally show ?thesis using w(3) by simp
qed


definition toy_request :: "string option \<Rightarrow> http_request" where
  "toy_request declared = \<lparr>rq_type = ''http'', rq_path = ''/refunds'', rq_content_length = declared, rq_client = Some ''10.0.0.1''\<rparr>"

definition toy_policy :: protection_policy where
  "toy_policy = \<lparr>rp_max_request_bytes = 2048, rp_rate_limit_per_minute = 1, rp_enabled = True\<rparr>"

text \<open>With a limit of one, two requests a second apart around the end of a window both pass.\<close>

definition toy_arrivals :: "(time \<times> http_request) list" where
  "toy_arrivals = [(0, toy_request None), (59 * second, toy_request (Some ''4096'')), (60 * second, toy_request (Some ''10'')),
     (61 * second, toy_request None), (120 * second, toy_request (Some ''x''))]"

lemma toy_outcomes:
  "fst (middleware_run toy_policy (\<lambda>_. None) toy_arrivals) = [Forward, Respond 413, Forward, Respond 429, Respond 400]"
  by code_simp


end
