(* ===== verification/ReferenceAdapters.thy ===== *)
theory ReferenceAdapters
  imports Payment
begin

text \<open>
  The row adapter over a SQLite table (\<^verbatim>\<open>adapters/sqlite_db.py\<close>) and the e-mail adapter over a sandbox
  outbox (\<^verbatim>\<open>adapters/email_sandbox.py\<close>), as computations over the table and the outbox.

  The table is a map from the primary key.  Each call of the driver but a rollback may fail: which ones is
  the argument \<open>f\<close>, a function of the number of the call in the method; a failed statement changes nothing,
  and what was not committed is lost when the connection closes.  An INTEGER column converts a text that
  reads as an integer: that conversion is the argument \<open>affinity\<close>.  SQLite's integers have 64 bits.
\<close>

section \<open>The table\<close>

record db_row =
  row_balance :: parameter_value
  row_version :: int
  row_updated_at :: "string option"

type_synonym row_table = "string \<Rightarrow> db_row option"

record row_effect_request =
  rr_operation :: string
  rr_row_id :: string
  rr_actor :: principal
  rr_principal :: principal
  rr_new_balance :: "int option"
  rr_idempotency_key :: string
  rr_nonce :: string
  rr_ttl_seconds :: int

record row_adapter =
  ra_table :: string
  ra_max_affected_rows :: int

abbreviation operational_error :: exn where
  "operational_error \<equiv> OtherError ''OperationalError''"

text \<open>Binding a parameter: an int has to fit, a bool is 0 or 1.\<close>

definition bind_value :: "(string \<Rightarrow> parameter_value) \<Rightarrow> parameter_value \<Rightarrow> parameter_value res" where
  "bind_value affinity v = (case v of
      PInt i \<Rightarrow> if - (2 ^ 63) \<le> i \<and> i < 2 ^ 63 then Inr (PInt i) else Inl (OtherError ''OverflowError'')
    | PBool b \<Rightarrow> Inr (PInt (if b then 1 else 0))
    | PStr s \<Rightarrow> Inr (affinity s)
    | PNone \<Rightarrow> Inr PNone)"

text \<open>\<open>_fetch\<close> gives balance and version; \<open>_row_digest\<close> hashes the \<^verbatim>\<open>repr\<close> of that pair.\<close>

definition row_fetch :: "row_table \<Rightarrow> string \<Rightarrow> (parameter_value \<times> int) option" where
  "row_fetch t i = map_option (\<lambda>r. (row_balance r, row_version r)) (t i)"

definition row_digest :: "crypto \<Rightarrow> (parameter_value \<times> int) option \<Rightarrow> string" where
  "row_digest cr row = digest_bytes (cr_sha256 cr) (case row of None \<Rightarrow> ''<absent>''
     | Some (b, v) \<Rightarrow> utf8_encode (''('' @ py_repr b @ '', '' @ int_str v @ '')''))"

section \<open>The row adapter\<close>

definition row_identity :: adapter_identity where
  "row_identity = \<lparr>adapter_id = ''sqlite.row'', adapter_version = ''1.0.0''\<rparr>"

definition row_version_fingerprint :: "int \<Rightarrow> state_fingerprint" where
  "row_version_fingerprint v = \<lparr>fp_kind = ROW_VERSION, fp_value = int_str v\<rparr>"

definition row_prepare :: "crypto \<Rightarrow> row_adapter \<Rightarrow> (nat \<Rightarrow> bool) \<Rightarrow> row_table \<Rightarrow> time \<Rightarrow> string \<Rightarrow> row_effect_request
    \<Rightarrow> effect_manifest res" where
  "row_prepare cr A f t now u q =
     (if f 0 then Inl operational_error
      else
        let existing = row_fetch t (rr_row_id q);
            insert = rr_operation q = ''insert'';
            expected = (if insert then 0 else case existing of None \<Rightarrow> 0 | Some (_, v) \<Rightarrow> v);
            fp = row_version_fingerprint expected;
            m = \<lparr>m_schema_version = CURRENT_SCHEMA_VERSION, m_manifest_id = u,
               m_effect_type = ''sqlite.row.'' @ rr_operation q,
               m_actor = rr_actor q, m_principal = rr_principal q, m_adapter = row_identity,
               m_target_resource = ''sqlite:'' @ ra_table A @ ''/'' @ rr_row_id q,
               m_parameters = [(''operation'', PStr (rr_operation q)), (''row_id'', PStr (rr_row_id q))]
                 @ (case rr_new_balance q of None \<Rightarrow> [] | Some b \<Rightarrow> [(''new_balance'', PInt b)])
                 @ (case existing of None \<Rightarrow> [] | Some (b, _) \<Rightarrow> [(''previous_balance'', b)]),
               m_before_state_digest = Some (row_digest cr existing), m_expected_after_state_digest = None,
               m_state_fingerprint = Some fp, m_preconditions = [], m_risk = MEDIUM,
               m_reversibility = (if insert \<or> rr_operation q = ''update'' then COMPENSATABLE else IRREVERSIBLE),
               m_blast_radius = SINGLE_RESOURCE, m_estimated_cost = None,
               m_idempotency_key = or_else (rr_idempotency_key q) (''sqlite-'' @ rr_row_id q),
               m_created_at = now, m_expires_at = now + rr_ttl_seconds q * second,
               m_nonce = or_else (rr_nonce q) (''nonce-'' @ rr_row_id q),
               m_parent_manifest_id = None, m_metadata = []\<rparr>
        in thenR (fingerprint_validate fp) (thenR (manifest_validate m) (Inr m)))"

definition expected_version :: "effect_manifest \<Rightarrow> int res" where
  "expected_version m = (case m_state_fingerprint m of
      None \<Rightarrow> Inl (OtherError ''AssertionError'') | Some fp \<Rightarrow> py_int (fp_value fp))"

definition row_validate :: "(nat \<Rightarrow> bool) \<Rightarrow> row_table \<Rightarrow> effect_manifest \<Rightarrow> precondition_result res" where
  "row_validate f t m =
     bindR (str_param m ''row_id'') (\<lambda>i. bindR (expected_version m) (\<lambda>expected.
     if f 0 then Inl operational_error
     else bindR (param m ''operation'') (\<lambda>operation.
       if operation = PStr ''insert''
       then Inr (if row_fetch t i \<noteq> None then pre_failed ''row already exists'' None else pre_ok)
       else (case row_fetch t i of
           None \<Rightarrow> Inr (pre_failed ''row no longer exists'' None)
         | Some (_, v) \<Rightarrow>
             Inr (if v \<noteq> expected
               then pre_failed (''row version changed: expected '' @ int_str expected @ '', observed '' @ int_str v)
                      (Some (row_version_fingerprint v))
               else pre_ok)))))"

text \<open>The statement of \<open>commit\<close>: the table it leaves in the open transaction and the number of rows it affected;
  \<^verbatim>\<open>None\<close> for a violated primary key.\<close>

definition row_statement :: "(string \<Rightarrow> parameter_value) \<Rightarrow> string \<Rightarrow> string \<Rightarrow> int \<Rightarrow> effect_manifest \<Rightarrow> row_table
    \<Rightarrow> (row_table \<times> int) option res" where
  "row_statement affinity now_iso i expected m t =
     bindR (param m ''operation'') (\<lambda>operation.
     if operation = PStr ''insert'' then
       bindR (int_of_param m ''new_balance'') (\<lambda>n. bindR (bind_value affinity (PInt n)) (\<lambda>b.
       Inr (if t i \<noteq> None then None
            else Some (t(i \<mapsto> \<lparr>row_balance = b, row_version = 0, row_updated_at = Some now_iso\<rparr>), 1))))
     else if operation = PStr ''update'' then
       bindR (int_of_param m ''new_balance'') (\<lambda>n. bindR (bind_value affinity (PInt n)) (\<lambda>b.
       bindR (bind_value affinity (PInt expected)) (\<lambda>_.
       Inr (Some (case t i of
           Some r \<Rightarrow> if row_version r = expected
             then (t(i \<mapsto> r\<lparr>row_balance := b, row_version := row_version r + 1, row_updated_at := Some now_iso\<rparr>), 1) else (t, 0)
         | None \<Rightarrow> (t, 0))))))
     else
       bindR (bind_value affinity (PInt expected)) (\<lambda>_.
       Inr (Some (case t i of
           Some r \<Rightarrow> if row_version r = expected then (t(i := None), 1) else (t, 0)
         | None \<Rightarrow> (t, 0)))))"

definition commit_refused :: "effect_manifest \<Rightarrow> string \<Rightarrow> commit_result" where
  "commit_refused m reason = \<lparr>cm_success = False, cm_idempotency_key = m_idempotency_key m, cm_provider_reference = None,
     cm_detail = Some reason, cm_after_state_digest = None\<rparr>"

definition row_commit :: "crypto \<Rightarrow> (string \<Rightarrow> parameter_value) \<Rightarrow> row_adapter \<Rightarrow> (nat \<Rightarrow> bool) \<Rightarrow> string \<Rightarrow> effect_manifest
    \<Rightarrow> (row_table, commit_result) sem" where
  "row_commit cr affinity A f now_iso m = (\<lambda>t.
     case bindR (str_param m ''row_id'') (\<lambda>i. bindR (param m ''operation'') (\<lambda>_. bindR (expected_version m) (\<lambda>v. Inr (i, v)))) of
       Inl x \<Rightarrow> (Inl x, t)
     | Inr (i, expected) \<Rightarrow>
         if f 0 then (Inl operational_error, t)
         else (case row_statement affinity now_iso i expected m t of
             Inl x \<Rightarrow> (Inl x, t)
           | Inr step \<Rightarrow>
               if f 1 then (Inl operational_error, t)
               else (case step of
                   None \<Rightarrow> (Inr (commit_refused m ''row already exists''), t)
                 | Some (t', affected) \<Rightarrow>
                     if affected > ra_max_affected_rows A then (Inl (AdapterE BlastRadiusExceededError), t)
                     else if affected = 0
                       then (Inr (commit_refused m ''no matching row (version mismatch, missing, or already deleted)''), t)
                     else if f 2 then (Inl operational_error, t)
                     else if f 3 then (Inl operational_error, t')
                     else (Inr \<lparr>cm_success = True, cm_idempotency_key = m_idempotency_key m,
                         cm_provider_reference = Some (ra_table A @ '':'' @ i), cm_detail = None,
                         cm_after_state_digest = Some (row_digest cr (row_fetch t' i))\<rparr>, t'))))"

text \<open>\<^verbatim>\<open>int(row[0])\<close>.\<close>

definition int_of_value :: "parameter_value \<Rightarrow> int res" where
  "int_of_value v = (case v of PStr s \<Rightarrow> py_int s | _ \<Rightarrow> int_param v)"

definition row_verify :: "crypto \<Rightarrow> (nat \<Rightarrow> bool) \<Rightarrow> row_table \<Rightarrow> time \<Rightarrow> effect_manifest \<Rightarrow> outcome_proof res" where
  "row_verify cr f t now m =
     bindR (str_param m ''row_id'') (\<lambda>i.
     if f 0 then Inl operational_error
     else let row = row_fetch t i in
       bindR (param m ''operation'') (\<lambda>operation.
       bindR (if operation = PStr ''delete'' then Inr (row = None)
              else bindR (int_of_param m ''new_balance'') (\<lambda>expected.
                case row of None \<Rightarrow> Inr False | Some (b, _) \<Rightarrow> bindR (int_of_value b) (\<lambda>n. Inr (n = expected)))) (\<lambda>matched.
       Inr \<lparr>op_matched_expected = matched, op_observed_at = now,
            op_observed_after_state_digest = Some (row_digest cr row), op_detail = None\<rparr>)))"

definition not_attempted :: "string \<Rightarrow> compensation_result" where
  "not_attempted reason = \<lparr>cp_attempted = False, cp_succeeded = False, cp_reason = Some reason, cp_detail = None\<rparr>"

definition attempted :: "bool \<Rightarrow> string \<Rightarrow> compensation_result" where
  "attempted done reason = \<lparr>cp_attempted = True, cp_succeeded = done, cp_reason = (if done then None else Some reason), cp_detail = None\<rparr>"

definition row_compensate :: "(string \<Rightarrow> parameter_value) \<Rightarrow> (nat \<Rightarrow> bool) \<Rightarrow> effect_manifest \<Rightarrow> (row_table, compensation_result) sem" where
  "row_compensate affinity f m = (\<lambda>t.
     case bindR (param m ''operation'') (\<lambda>operation. bindR (str_param m ''row_id'') (\<lambda>i. Inr (operation, i))) of
       Inl x \<Rightarrow> (Inl x, t)
     | Inr (operation, i) \<Rightarrow>
         if operation = PStr ''delete'' then
           (Inr (not_attempted (''row deletion is treated as irreversible by this reference adapter; ''
               @ ''reinserting a snapshot would not guarantee identical downstream state'')), t)
         else if f 0 then (Inl operational_error, t)
         else if operation = PStr ''insert'' then
           (if f 1 \<or> f 2 then (Inl operational_error, t)
            else (Inr (attempted (t i \<noteq> None) ''row was already gone''), t(i := None)))
         else (case map_of (m_parameters m) ''previous_balance'' of
             None \<Rightarrow> (Inr (not_attempted ''no previous balance recorded to restore''), t)
           | Some PNone \<Rightarrow> (Inr (not_attempted ''no previous balance recorded to restore''), t)
           | Some v \<Rightarrow> (case bind_value affinity v of
                 Inl x \<Rightarrow> (Inl x, t)
               | Inr b \<Rightarrow>
                   if f 1 \<or> f 2 then (Inl operational_error, t)
                   else (case t i of
                       None \<Rightarrow> (Inr (attempted False ''row no longer exists''), t)
                     | Some r \<Rightarrow> (Inr (attempted True []),
                         t(i \<mapsto> r\<lparr>row_balance := b, row_version := row_version r + 1\<rparr>))))))"

section \<open>The e-mail adapter\<close>

record email_request =
  eq_actor :: principal
  eq_principal :: principal
  eq_recipients :: "string list"
  eq_subject :: string
  eq_body :: string
  eq_attachments :: "string list"
  eq_idempotency_key :: string
  eq_ttl_seconds :: int

record sent_message =
  msg_message_id :: string
  msg_recipients :: "string list"
  msg_subject :: string
  msg_body_digest :: string
  msg_attachment_digests :: "string list"
  msg_sent_at :: time

type_synonym sandbox_outbox = "string \<Rightarrow> sent_message option"

definition outbox_deliver :: "string \<Rightarrow> sent_message \<Rightarrow> sandbox_outbox \<Rightarrow> sent_message \<times> sandbox_outbox" where
  "outbox_deliver k message box = (case box k of Some existing \<Rightarrow> (existing, box) | None \<Rightarrow> (message, box(k \<mapsto> message)))"

definition email_identity :: adapter_identity where
  "email_identity = \<lparr>adapter_id = ''email.sandbox'', adapter_version = ''1.0.0''\<rparr>"

text \<open>\<open>u\<close> and \<open>n\<close> are the two identifiers drawn.\<close>

definition email_prepare :: "crypto \<Rightarrow> string list option \<Rightarrow> time \<Rightarrow> string \<Rightarrow> string \<Rightarrow> email_request \<Rightarrow> effect_manifest res" where
  "email_prepare cr allowed now u n q =
     (if (case allowed of None \<Rightarrow> False | Some rs \<Rightarrow> \<not> set (eq_recipients q) \<subseteq> set rs)
      then Inl (AdapterE RecipientNotAllowedError)
      else
        let body_digest = digest_bytes (cr_sha256 cr) (utf8_encode (eq_body q));
            digests = map (digest_bytes (cr_sha256 cr)) (eq_attachments q);
            recipients_key = join '','' (sort (eq_recipients q));
            m = \<lparr>m_schema_version = CURRENT_SCHEMA_VERSION, m_manifest_id = u, m_effect_type = ''email.send'',
               m_actor = eq_actor q, m_principal = eq_principal q, m_adapter = email_identity,
               m_target_resource = ''email:'' @ recipients_key,
               m_parameters = [(''recipients'', PStr recipients_key),
                   (''recipient_count'', PInt (int (length (eq_recipients q)))),
                   (''subject'', PStr (eq_subject q)), (''body_digest'', PStr body_digest),
                   (''attachment_count'', PInt (int (length (eq_attachments q))))]
                 @ (if digests = [] then [] else [(''attachment_digests'', PStr (join '','' digests))]),
               m_before_state_digest = None, m_expected_after_state_digest = None, m_state_fingerprint = None,
               m_preconditions = [], m_risk = MEDIUM, m_reversibility = IRREVERSIBLE,
               m_blast_radius = (if length (eq_recipients q) \<le> 1 then SINGLE_RESOURCE else BOUNDED_SET),
               m_estimated_cost = None,
               m_idempotency_key = or_else (eq_idempotency_key q) (''email-'' @ body_digest),
               m_created_at = now, m_expires_at = now + eq_ttl_seconds q * second, m_nonce = n,
               m_parent_manifest_id = None,
               m_metadata = [(''attachments'', nat_str (length (eq_attachments q)))]\<rparr>
        in thenR (manifest_validate m) (Inr m))"

text \<open>\<^verbatim>\<open>str.split(",")\<close>, and the truth value of a parameter.\<close>

fun split_comma :: "string \<Rightarrow> string list" where
  "split_comma [] = [[]]"
| "split_comma (c # s) =
     (if c = CHR '','' then [] # split_comma s
      else case split_comma s of x # xs \<Rightarrow> (c # x) # xs | [] \<Rightarrow> [[c]])"

definition py_true :: "parameter_value \<Rightarrow> bool" where
  "py_true v = (case v of PStr s \<Rightarrow> s \<noteq> [] | PInt i \<Rightarrow> i \<noteq> 0 | PBool b \<Rightarrow> b | PNone \<Rightarrow> False)"

definition attachment_digests_of :: "effect_manifest \<Rightarrow> string list" where
  "attachment_digests_of m = (case map_of (m_parameters m) ''attachment_digests'' of
      None \<Rightarrow> [] | Some v \<Rightarrow> if py_true v then split_comma (py_str v) else [])"

text \<open>What the message is made of: recipients, subject and digest of the body.\<close>

definition email_content :: "effect_manifest \<Rightarrow> (string list \<times> string \<times> string) res" where
  "email_content m =
     bindR (str_param m ''recipients'') (\<lambda>recipients. bindR (str_param m ''subject'') (\<lambda>subject.
     bindR (str_param m ''body_digest'') (\<lambda>body. Inr (split_comma recipients, subject, body))))"

definition email_commit :: "time \<Rightarrow> string \<Rightarrow> effect_manifest \<Rightarrow> (sandbox_outbox, commit_result) sem" where
  "email_commit now u m = (\<lambda>box. case box (m_idempotency_key m) of
      Some existing \<Rightarrow> (Inr \<lparr>cm_success = True, cm_idempotency_key = m_idempotency_key m,
          cm_provider_reference = Some (msg_message_id existing),
          cm_detail = Some ''idempotent delivery: message already in outbox'',
          cm_after_state_digest = Some (msg_body_digest existing)\<rparr>, box)
    | None \<Rightarrow> (case email_content m of
          Inl x \<Rightarrow> (Inl x, box)
        | Inr (recipients, subject, body) \<Rightarrow>
            (case outbox_deliver (m_idempotency_key m)
                \<lparr>msg_message_id = u, msg_recipients = recipients, msg_subject = subject, msg_body_digest = body,
                 msg_attachment_digests = attachment_digests_of m, msg_sent_at = now\<rparr> box of
               (delivered, box') \<Rightarrow>
                 (Inr \<lparr>cm_success = True, cm_idempotency_key = m_idempotency_key m,
                    cm_provider_reference = Some (msg_message_id delivered), cm_detail = None,
                    cm_after_state_digest = Some (msg_body_digest delivered)\<rparr>, box'))))"

text \<open>The three comparisons stop at the first that fails.\<close>

definition email_verify :: "sandbox_outbox \<Rightarrow> time \<Rightarrow> effect_manifest \<Rightarrow> outcome_proof res" where
  "email_verify box now m = (case box (m_idempotency_key m) of
      None \<Rightarrow> Inr \<lparr>op_matched_expected = False, op_observed_at = now, op_observed_after_state_digest = None,
                  op_detail = Some ''no message found in sandbox outbox''\<rparr>
    | Some message \<Rightarrow>
        bindR (str_param m ''recipients'') (\<lambda>recipients.
        bindR (if msg_recipients message \<noteq> split_comma recipients then Inr False
               else bindR (str_param m ''subject'') (\<lambda>subject.
                 if msg_subject message \<noteq> subject then Inr False
                 else bindR (str_param m ''body_digest'') (\<lambda>body. Inr (msg_body_digest message = body)))) (\<lambda>matched.
        Inr \<lparr>op_matched_expected = matched, op_observed_at = now,
             op_observed_after_state_digest = Some (msg_body_digest message), op_detail = None\<rparr>)))"

definition email_compensate :: compensation_result where
  "email_compensate = not_attempted ''email is irreversible once sent; the sandbox does not support recall''"

section \<open>Rows: no lost update\<close>

lemma row_prepare_facts:
  assumes "row_prepare cr A f t now u q = Inr m"
  shows "param m ''operation'' = Inr (PStr (rr_operation q))" "str_param m ''row_id'' = Inr (rr_row_id q)"
    "expected_version m = Inr (if rr_operation q = ''insert'' then 0
       else case t (rr_row_id q) of None \<Rightarrow> 0 | Some r \<Rightarrow> row_version r)"
    "rr_new_balance q = Some b \<Longrightarrow> int_of_param m ''new_balance'' = Inr b"
    "map_of (m_parameters m) ''previous_balance'' = map_option row_balance (t (rr_row_id q))"
    "m_adapter m = row_identity" "m_idempotency_key m \<noteq> []" "m_effect_type m \<noteq> []"
    "m_reversibility m = (if rr_operation q \<in> {''insert'', ''update''} then COMPENSATABLE else IRREVERSIBLE)"
proof -
  have f: "\<not> f 0" using assms by (auto simp: row_prepare_def)
  have m: "m = m'" if "row_prepare cr A f t now u q = thenR x (thenR (manifest_validate m') (Inr m'))" for x m'
    using assms [unfolded that] by (simp add: thenR_Inr_iff)
  note d = m [OF row_prepare_def [of cr A f t now u q, unfolded if_not_P [OF f] Let_def]]
  show "param m ''operation'' = Inr (PStr (rr_operation q))" "str_param m ''row_id'' = Inr (rr_row_id q)"
    "rr_new_balance q = Some b \<Longrightarrow> int_of_param m ''new_balance'' = Inr b"
    by (simp_all add: d param_def str_param_def py_str_def int_of_param_def)
  show "expected_version m = Inr (if rr_operation q = ''insert'' then 0
       else case t (rr_row_id q) of None \<Rightarrow> 0 | Some r \<Rightarrow> row_version r)"
    by (cases "t (rr_row_id q)") (simp_all add: d expected_version_def row_version_fingerprint_def row_fetch_def)
  show "map_of (m_parameters m) ''previous_balance'' = map_option row_balance (t (rr_row_id q))"
    by (cases "t (rr_row_id q)"; cases "rr_new_balance q") (simp_all add: d row_fetch_def)
  show "m_adapter m = row_identity" "m_idempotency_key m \<noteq> []" "m_effect_type m \<noteq> []"
    "m_reversibility m = (if rr_operation q \<in> {''insert'', ''update''} then COMPENSATABLE else IRREVERSIBLE)"
    by (simp_all add: d or_else_def)
qed

text \<open>What a commit does to the table: nothing, or the one change of its row that its statement states.\<close>

definition row_change :: "string \<Rightarrow> int \<Rightarrow> effect_manifest \<Rightarrow> row_table \<Rightarrow> row_table \<Rightarrow> bool" where
  "row_change i expected m t t' \<longleftrightarrow> (\<forall>j. j \<noteq> i \<longrightarrow> t' j = t j)
     \<and> (case t i of
          None \<Rightarrow> param m ''operation'' = Inr (PStr ''insert'') \<and> (\<exists>r. t' i = Some r \<and> row_version r = 0)
        | Some r \<Rightarrow> param m ''operation'' \<noteq> Inr (PStr ''insert'') \<and> row_version r = expected
            \<and> (case t' i of None \<Rightarrow> param m ''operation'' \<noteq> Inr (PStr ''update'')
               | Some r' \<Rightarrow> param m ''operation'' = Inr (PStr ''update'') \<and> row_version r' = row_version r + 1))"

lemma row_commit_cases:
  assumes "row_commit cr affinity A f now m t = (y, t')"
  shows "t' = t \<and> (\<forall>r. y = Inr r \<longrightarrow> \<not> cm_success r)
    \<or> (\<exists>i v. str_param m ''row_id'' = Inr i \<and> expected_version m = Inr v \<and> row_change i v m t t'
        \<and> (y = Inl operational_error \<or> (\<exists>r. y = Inr r \<and> cm_success r)))"
  using assms
  by (auto simp: row_commit_def row_statement_def row_change_def Let_def result_simps commit_refused_def
      split: sum.splits if_splits option.splits prod.splits elim!: bindR.elims)

text \<open>Any use of the adapter on the table: commits and compensations, of any manifests, with any failures.\<close>

datatype row_op = RowCommit "nat \<Rightarrow> bool" string effect_manifest | RowCompensate "nat \<Rightarrow> bool" effect_manifest

primrec row_step :: "crypto \<Rightarrow> (string \<Rightarrow> parameter_value) \<Rightarrow> row_adapter \<Rightarrow> row_op \<Rightarrow> row_table \<Rightarrow> row_table" where
  "row_step cr affinity A (RowCommit f now_iso m) t = snd (row_commit cr affinity A f now_iso m t)"
| "row_step cr affinity A (RowCompensate f m) t = snd (row_compensate affinity f m t)"

text \<open>The tables a history goes through, the first one included.\<close>

fun row_trace :: "crypto \<Rightarrow> (string \<Rightarrow> parameter_value) \<Rightarrow> row_adapter \<Rightarrow> row_table \<Rightarrow> row_op list \<Rightarrow> row_table list" where
  "row_trace cr affinity A t [] = [t]"
| "row_trace cr affinity A t (x # xs) = t # row_trace cr affinity A (row_step cr affinity A x t) xs"

text \<open>While a row is there, its version grows with every change to it.\<close>

definition row_grows :: "db_row \<Rightarrow> db_row \<Rightarrow> bool" where
  "row_grows r r' \<longleftrightarrow> r' = r \<or> row_version r < row_version r'"

lemma row_change_grows:
  assumes "row_change i' v m t t'" "t i = Some r" "t' i = Some r'"
  shows "row_grows r r'"
  using assms by (cases "i = i'") (auto simp: row_change_def row_grows_def)

lemma row_step_grows:
  assumes "t i = Some r" "row_step cr affinity A x t i = Some r'"
  shows "row_grows r r'"
proof (cases x)
  case (RowCommit f now_iso m)
  obtain y t' where c: "row_commit cr affinity A f now_iso m t = (y, t')" by fastforce
  then have "t' i = Some r'" using assms(2) RowCommit by simp
  consider "t' = t" | i' v where "row_change i' v m t t'"
    using row_commit_cases [OF c] by blast
  then show ?thesis
  proof cases
    case 1
    then show ?thesis using assms(1) \<open>t' i = Some r'\<close> by (simp add: row_grows_def)
  next
    case 2
    then show ?thesis using assms(1) \<open>t' i = Some r'\<close> by (rule row_change_grows)
  qed
next
  case (RowCompensate f m)
  then show ?thesis
    using assms
    by (auto simp: row_compensate_def row_grows_def attempted_def not_attempted_def
        split: sum.splits if_splits option.splits parameter_value.splits)
qed

lemma row_trace_not_Nil [simp]: "row_trace cr affinity A t xs \<noteq> []"
  by (cases xs) simp_all

lemma row_trace_grows:
  assumes "t i = Some r" "list_all (\<lambda>t. t i \<noteq> None) (row_trace cr affinity A t xs)"
  shows "\<exists>r'. last (row_trace cr affinity A t xs) i = Some r' \<and> row_grows r r'"
  using assms
proof (induction xs arbitrary: t r)
  case (Cons x xs)
  let ?t = "row_step cr affinity A x t"
  have "?t i \<noteq> None"
    using Cons.prems(2) by (cases xs) auto
  then obtain s where s: "?t i = Some s" by blast
  obtain r' where "last (row_trace cr affinity A ?t xs) i = Some r'" "row_grows s r'"
    using Cons.IH [where t = ?t and r = s] s Cons.prems(2) by auto
  then show ?case
    using row_step_grows [where t = t and i = i and x = x] Cons.prems(1) s by (force simp: row_grows_def)
qed (simp add: row_grows_def)

text \<open>C30. Optimistic concurrency of the row adapter: when an update or delete that was prepared on a row changes
  the table, then however the table was used in between, as long as the row was not deleted, the row is
  still the one the manifest was prepared on; only that row changes; and committing the manifest again
  changes nothing.\<close>

theorem row_no_lost_update:
  assumes "row_prepare cr A f t now u q = Inr m" "rr_operation q \<in> {''update'', ''delete''}" "t (rr_row_id q) = Some r"
    and "list_all (\<lambda>t. t (rr_row_id q) \<noteq> None) (row_trace cr affinity A t xs)"
    and "s = last (row_trace cr affinity A t xs)"
    and "row_commit cr affinity A g now_iso m s = (y, s')" "s' \<noteq> s"
  shows "s (rr_row_id q) = Some r \<and> (\<forall>j. j \<noteq> rr_row_id q \<longrightarrow> s' j = s j)
    \<and> (case s' (rr_row_id q) of None \<Rightarrow> rr_operation q = ''delete''
       | Some r' \<Rightarrow> rr_operation q = ''update'' \<and> row_version r' = row_version r + 1)
    \<and> (\<forall>h later. snd (row_commit cr affinity A h later m s') = s')"
proof -
  let ?i = "rr_row_id q"
  note p = row_prepare_facts [OF assms(1)]
  obtain r' where r': "s ?i = Some r'" "row_grows r r'"
    using row_trace_grows [where i = ?i, OF assms(3,4)] assms(5) by blast
  have c: "row_change ?i (row_version r) m s s'"
    using row_commit_cases [OF assms(6)] assms(2,3,7) p by auto
  have e: "r' = r"
    using c r' by (auto simp: row_change_def row_grows_def)
  have replay: "snd (row_commit cr affinity A h later m s') = s'" for h later
  proof (rule ccontr)
    obtain z s'' where z: "row_commit cr affinity A h later m s' = (z, s'')" by fastforce
    assume "snd (row_commit cr affinity A h later m s') \<noteq> s'"
    then have "row_change ?i (row_version r) m s' s''"
      using row_commit_cases [OF z] assms(2,3) p z by auto
    then show False
      using c r'(1) e p(1) assms(2) by (auto simp: row_change_def split: option.splits)
  qed
  show ?thesis
    using c r'(1) e p(1) assms(2) replay by (auto simp: row_change_def split: option.splits)
qed

text \<open>The version is all that is compared, and a row inserted anew starts at version 0 again: a row that was
  deleted and inserted in between passes the check of a manifest prepared on the row of before.\<close>

lemma reinserted_row_accepted:
  assumes "row_prepare cr A f t now u q = Inr m" "rr_operation q = ''update''" "t (rr_row_id q) = Some r"
    and "s (rr_row_id q) = Some r'" "row_version r' = row_version r" "\<not> g 0"
  shows "row_validate g s m = Inr pre_ok"
  using row_prepare_facts [OF assms(1)] assms(2-6) by (simp add: row_validate_def row_fetch_def)

definition toy_row_request :: row_effect_request where
  "toy_row_request = \<lparr>rr_operation = ''update'', rr_row_id = ''acc'', rr_actor = toy_principal ''agent-1'' AGENT,
     rr_principal = toy_principal ''alice'' HUMAN, rr_new_balance = Some 70, rr_idempotency_key = [], rr_nonce = [],
     rr_ttl_seconds = 300\<rparr>"

definition toy_row_adapter :: row_adapter where
  "toy_row_adapter = \<lparr>ra_table = ''ledger_accounts'', ra_max_affected_rows = 1\<rparr>"

definition toy_table :: row_table where
  "toy_table = [''acc'' \<mapsto> \<lparr>row_balance = PInt 100, row_version = 4, row_updated_at = None\<rparr>]"

definition toy_row_manifest :: effect_manifest where
  "toy_row_manifest = projr (row_prepare toy_crypto toy_row_adapter (\<lambda>_. False) toy_table 0 ''m-1'' toy_row_request)"

lemma toy_manifest_checks:
  "assert_supported_schema_version CURRENT_SCHEMA_VERSION = Inr ()" "int_str 4 = ''4''"
  by code_simp+

lemma toy_row_prepared:
  "row_prepare toy_crypto toy_row_adapter (\<lambda>_. False) toy_table now ''m-1'' toy_row_request
     = Inr (projr (row_prepare toy_crypto toy_row_adapter (\<lambda>_. False) toy_table now ''m-1'' toy_row_request))"
  by (simp add: row_prepare_def toy_row_request_def toy_row_adapter_def toy_table_def row_fetch_def Let_def
      row_version_fingerprint_def fingerprint_validate_def manifest_validate_def toy_manifest_checks id_length_check_def
      target_resource_validate_def parameters_validate_def metadata_validate_def default_manifest_limits_def
      default_metadata_limits_def raise_if_def thenR_def or_else_def second_def)

lemma toy_row_committed:
  "snd (row_commit toy_crypto PStr toy_row_adapter (\<lambda>_. False) ''now'' toy_row_manifest toy_table) ''acc''
     = Some \<lparr>row_balance = PInt 70, row_version = 5, row_updated_at = Some ''now''\<rparr>"
proof -
  note f = row_prepare_facts [OF toy_row_prepared [of 0, folded toy_row_manifest_def]]
  have n: "int_of_param toy_row_manifest ''new_balance'' = Inr 70"
    using f(4) by (simp add: toy_row_request_def)
  have "row_statement PStr ''now'' ''acc'' 4 toy_row_manifest toy_table = Inr (Some (toy_table(''acc'' \<mapsto>
      \<lparr>row_balance = PInt 70, row_version = 5, row_updated_at = Some ''now''\<rparr>), 1))"
    using f(1,2) n by (simp add: row_statement_def toy_row_request_def bind_value_def toy_table_def)
  then show ?thesis
    using f(1-3) by (simp add: row_commit_def toy_row_request_def toy_row_adapter_def toy_table_def)
qed

theorem row_no_lost_update_witness:
  "\<exists>s'. snd (row_commit toy_crypto PStr toy_row_adapter (\<lambda>_. False) ''now'' toy_row_manifest toy_table) = s'
     \<and> s' ''acc'' = Some \<lparr>row_balance = PInt 70, row_version = 5, row_updated_at = Some ''now''\<rparr>
     \<and> snd (row_commit toy_crypto PStr toy_row_adapter (\<lambda>_. True) ''later'' toy_row_manifest s') = s'"
proof -
  obtain y s' where c: "row_commit toy_crypto PStr toy_row_adapter (\<lambda>_. False) ''now'' toy_row_manifest toy_table = (y, s')"
    by fastforce
  have a: "s' ''acc'' = Some \<lparr>row_balance = PInt 70, row_version = 5, row_updated_at = Some ''now''\<rparr>"
    using toy_row_committed c by simp
  then have "s' \<noteq> toy_table"
    by (auto simp: toy_table_def)
  then have "snd (row_commit toy_crypto PStr toy_row_adapter (\<lambda>_. True) ''later'' toy_row_manifest s') = s'"
    using row_no_lost_update [OF toy_row_prepared [of 0, folded toy_row_manifest_def], where xs = "[]" and s = toy_table and y = y and s' = s'
        and affinity = PStr and g = "\<lambda>_. False" and now_iso = "''now''"] c
    by (simp add: toy_row_request_def toy_table_def)
  then show ?thesis using a c by simp
qed

section \<open>E-mail: one message per key\<close>

lemma email_prepare_facts:
  assumes "email_prepare cr allowed now u n q = Inr m"
  shows "m_adapter m = email_identity" "m_idempotency_key m \<noteq> []" "m_effect_type m = ''email.send''"
    "m_reversibility m = IRREVERSIBLE"
    "email_content m = Inr (split_comma (join '','' (sort (eq_recipients q))), eq_subject q,
       digest_bytes (cr_sha256 cr) (utf8_encode (eq_body q)))"
    "case allowed of None \<Rightarrow> True | Some rs \<Rightarrow> set (eq_recipients q) \<subseteq> set rs"
proof -
  show "case allowed of None \<Rightarrow> True | Some rs \<Rightarrow> set (eq_recipients q) \<subseteq> set rs"
    using assms by (auto simp: email_prepare_def split: option.splits if_splits)
  have m: "m = m'" if "email_prepare cr allowed now u n q = thenR (manifest_validate m') (Inr m')" for m'
    using assms [unfolded that] by (simp add: thenR_Inr_iff)
  have a: "\<not> (case allowed of None \<Rightarrow> False | Some rs \<Rightarrow> \<not> set (eq_recipients q) \<subseteq> set rs)"
    using assms by (auto simp: email_prepare_def)
  note d = m [OF email_prepare_def [of cr allowed now u n q, unfolded if_not_P [OF a] Let_def]]
  show "m_adapter m = email_identity" "m_idempotency_key m \<noteq> []" "m_effect_type m = ''email.send''"
    "m_reversibility m = IRREVERSIBLE"
    "email_content m = Inr (split_comma (join '','' (sort (eq_recipients q))), eq_subject q,
       digest_bytes (cr_sha256 cr) (utf8_encode (eq_body q)))"
    by (simp_all add: d or_else_def email_content_def str_param_def param_def py_str_def)
qed

text \<open>What the outbox holds for the manifest, as far as \<open>verify\<close> compares it.\<close>

definition message_content :: "sent_message \<Rightarrow> string list \<times> string \<times> string" where
  "message_content msg = (msg_recipients msg, msg_subject msg, msg_body_digest msg)"

lemma email_verify_exact:
  assumes "email_content m = Inr c" "box (m_idempotency_key m) = Some msg"
  shows "\<exists>pr. email_verify box now m = Inr pr \<and> (op_matched_expected pr \<longleftrightarrow> message_content msg = c)"
proof -
  obtain recipients subject body where "str_param m ''recipients'' = Inr recipients" "str_param m ''subject'' = Inr subject"
    "str_param m ''body_digest'' = Inr body" "c = (split_comma recipients, subject, body)"
    using assms(1) by (auto simp: email_content_def result_simps)
  then show ?thesis
    using assms(2) by (simp add: email_verify_def message_content_def)
qed

text \<open>The sandbox keeps the first message of every key: a commit of the adapter never changes or removes a
  message, adds at most the one of its own key, succeeds whenever the manifest is well formed, and the
  verification that follows matches exactly when the message on record has the recipients, the subject and
  the body the manifest names.\<close>

theorem email_delivered_once:
  assumes "email_content m = Inr c" "email_commit now u m box = (y, box')"
  shows "(\<forall>k. k \<noteq> m_idempotency_key m \<longrightarrow> box' k = box k)
    \<and> (\<forall>k msg. box k = Some msg \<longrightarrow> box' k = Some msg)
    \<and> (\<exists>r msg pr. y = Inr r \<and> cm_success r \<and> box' (m_idempotency_key m) = Some msg
         \<and> cm_provider_reference r = Some (msg_message_id msg)
         \<and> email_verify box' later m = Inr pr \<and> (op_matched_expected pr \<longleftrightarrow> message_content msg = c)
         \<and> (box (m_idempotency_key m) = None \<longrightarrow> op_matched_expected pr))"
proof -
  obtain recipients subject body where c: "c = (recipients, subject, body)" by (cases c) auto
  obtain r msg where r: "y = Inr r" "cm_success r" "box' (m_idempotency_key m) = Some msg"
    "cm_provider_reference r = Some (msg_message_id msg)"
    "box (m_idempotency_key m) = None \<longrightarrow> message_content msg = c"
    using assms by (auto simp: email_commit_def outbox_deliver_def c message_content_def split: option.splits)
  obtain pr where v: "email_verify box' later m = Inr pr" "op_matched_expected pr \<longleftrightarrow> message_content msg = c"
    using email_verify_exact [where box = box' and now = later and m = m, OF assms(1) r(3)] by blast
  have "\<forall>k. k \<noteq> m_idempotency_key m \<longrightarrow> box' k = box k" "\<forall>k msg. box k = Some msg \<longrightarrow> box' k = Some msg"
    using assms by (auto simp: email_commit_def outbox_deliver_def c split: option.splits)
  then show ?thesis
    by (intro conjI exI [of _ r] exI [of _ msg] exI [of _ pr]) (simp_all add: r(1-4) v r(5))
qed

text \<open>Attachments take no part in the default key or in the comparison: with the first message on record, a
  second manifest that differs in its attachments only is reported delivered and verified.\<close>

lemma attachments_not_compared:
  assumes "email_content m = Inr c" "email_content m' = Inr c" "m_idempotency_key m' = m_idempotency_key m"
    and "box (m_idempotency_key m) = None" "email_commit now u m box = (y, box')"
  shows "\<exists>r pr. email_commit later u' m' box' = (Inr r, box') \<and> cm_success r
    \<and> email_verify box' later m' = Inr pr \<and> op_matched_expected pr"
proof -
  obtain recipients subject body where c: "c = (recipients, subject, body)" by (cases c) auto
  obtain msg where msg: "box' (m_idempotency_key m) = Some msg" "message_content msg = c"
    using assms(1,4,5) by (auto simp: email_commit_def outbox_deliver_def c message_content_def)
  then show ?thesis
    using email_verify_exact [where box = box' and msg = msg and now = later, OF assms(2)] assms(3)
    by (auto simp: email_commit_def)
qed

definition toy_email :: effect_manifest where
  "toy_email = toy_manifest\<lparr>m_idempotency_key := ''email-1'', m_parameters :=
     [(''recipients'', PStr ''a@x,b@y''), (''subject'', PStr ''hello''), (''body_digest'', PStr ''d'')]\<rparr>"

lemma toy_email_content: "email_content toy_email = Inr ([''a@x'', ''b@y''], ''hello'', ''d'')"
  by (simp add: email_content_def toy_email_def str_param_def param_def py_str_def)

theorem email_delivered_once_witness:
  "\<exists>y box' msg. email_commit 3 ''id-1'' toy_email (\<lambda>_. None) = (y, box') \<and> box' ''email-1'' = Some msg"
proof -
  obtain y box' where c: "email_commit 3 ''id-1'' toy_email (\<lambda>_. None) = (y, box')" by fastforce
  from email_delivered_once [OF toy_email_content c, of 4] show ?thesis
    using c by (auto simp: toy_email_def)
qed

end
