(* ===== verification/Conformance.thy ===== *)
theory Conformance
  imports ReferenceAdapters
begin

text \<open>
  The adapter conformance kit (\<^verbatim>\<open>adapters/conformance.py\<close>): the checks an adapter has to pass before it is
  trusted, run in order against one instance with its external state.

  An adapter is a record of its methods over that state.  The locale \<open>honest_adapter\<close> is the contract of
  \<^verbatim>\<open>adapters/base.py\<close> as far as the kit can see it: an adapter that keeps it passes, and it is interpreted
  on the three reference adapters.  Type checks (\<^verbatim>\<open>isinstance\<close>, the time zone of a time) hold by typing.
\<close>

section \<open>Adapters with their state\<close>

record 's stateful_adapter =
  sa_identity :: adapter_identity
  sa_prepare :: "'s \<Rightarrow> effect_manifest res"
  sa_validate :: "'s \<Rightarrow> effect_manifest \<Rightarrow> precondition_result res"
  sa_commit :: "effect_manifest \<Rightarrow> ('s, commit_result) sem"
  sa_verify :: "'s \<Rightarrow> effect_manifest \<Rightarrow> commit_result \<Rightarrow> outcome_proof res"
  sa_compensate :: "effect_manifest \<Rightarrow> commit_result \<Rightarrow> ('s, compensation_result) sem"

abbreviation conformance_error :: exn where
  "conformance_error \<equiv> AdapterE AdapterConformanceError"

text \<open>A method that only reads the state.\<close>

definition reading :: "('s \<Rightarrow> 'a res) \<Rightarrow> ('s, 'a) sem" where
  "reading g = (\<lambda>s. (g s, s))"

section \<open>The checks\<close>

record conformance_check =
  cc_name :: string
  cc_passed :: bool
  cc_detail :: string

record conformance_report =
  cr_adapter_id :: string
  cr_adapter_version :: string
  cr_checks :: "conformance_check list"
  cr_passed :: bool

text \<open>The scenario beside the request: whether the effect is expected to turn stale, and what to do to the
  external state before it is checked again.\<close>

record 's conformance_scenario =
  cs_expect_stale_after_mutate :: bool
  cs_mutate_external_state :: "('s, unit) sem option"

definition refuse_if :: "bool \<Rightarrow> ('s, unit) sem" where
  "refuse_if c = liftR (raise_if c conformance_error)"

definition check_identity :: "'s stateful_adapter \<Rightarrow> ('s, unit) sem" where
  "check_identity A =
     (let i = adapter_id (sa_identity A); v = adapter_version (sa_identity A) in
      thenE (refuse_if (py_strip i = [])) (thenE (refuse_if (py_strip v = []))
        (refuse_if (length i > 128 \<or> length v > 64))))"

definition assert_prepared :: "'s stateful_adapter \<Rightarrow> effect_manifest \<Rightarrow> ('s, unit) sem" where
  "assert_prepared A m =
     thenE (refuse_if (m_adapter m \<noteq> sa_identity A))
     (thenE (refuse_if (m_idempotency_key m = [])) (refuse_if (m_effect_type m = [])))"

definition check_preconditions :: "'s stateful_adapter \<Rightarrow> 's conformance_scenario \<Rightarrow> effect_manifest \<Rightarrow> ('s, unit) sem" where
  "check_preconditions A C m =
     bindE (reading (\<lambda>s. sa_validate A s m)) (\<lambda>r.
     thenE (refuse_if (\<not> pr_satisfied r \<and> (case pr_reason r of None \<Rightarrow> True | Some x \<Rightarrow> x = [])))
     (if \<not> cs_expect_stale_after_mutate C then ret ()
      else case cs_mutate_external_state C of
          None \<Rightarrow> raiseE conformance_error
        | Some mutate \<Rightarrow> thenE mutate (bindE (reading (\<lambda>s. sa_validate A s m)) (\<lambda>stale. refuse_if (pr_satisfied stale)))))"

definition forged_commit :: "effect_manifest \<Rightarrow> string option \<Rightarrow> string option \<Rightarrow> string option \<Rightarrow> commit_result" where
  "forged_commit m reference detail digest = \<lparr>cm_success = True, cm_idempotency_key = m_idempotency_key m,
     cm_provider_reference = reference, cm_detail = detail, cm_after_state_digest = digest\<rparr>"

definition check_verify_before_commit :: "'s stateful_adapter \<Rightarrow> string \<Rightarrow> effect_manifest \<Rightarrow> ('s, unit) sem" where
  "check_verify_before_commit A forged_text m =
     bindE (reading (\<lambda>s. sa_verify A s m (forged_commit m (Some ''conformance-forged-ref'') (Some forged_text)
         (Some (''sha256:'' @ replicate 64 CHR ''0''))))) (\<lambda>pr.
     refuse_if (op_matched_expected pr))"

definition check_commit :: "'s stateful_adapter \<Rightarrow> effect_manifest \<Rightarrow> ('s, unit) sem" where
  "check_commit A m =
     bindE (sa_commit A m) (\<lambda>r.
     thenE (refuse_if (cm_idempotency_key r = [])) (bindE (sa_commit A m) (\<lambda>_. ret ())))"

definition check_compensation :: "'s stateful_adapter \<Rightarrow> effect_manifest \<Rightarrow> ('s, unit) sem" where
  "check_compensation A m =
     bindE (sa_compensate A m (forged_commit m (Some ''conformance-comp-ref'') None None)) (\<lambda>r.
     refuse_if (cp_succeeded r \<and> \<not> cp_attempted r))"

definition check_irreversible_compensation :: "'s stateful_adapter \<Rightarrow> effect_manifest \<Rightarrow> ('s, unit) sem" where
  "check_irreversible_compensation A m =
     (if m_reversibility m \<noteq> IRREVERSIBLE then ret ()
      else bindE (sa_compensate A m (forged_commit m (Some ''conformance-irr-ref'') None None)) (\<lambda>r.
        refuse_if (cp_succeeded r)))"

section \<open>The run\<close>

text \<open>\<open>_run_named\<close> never raises; \<open>msg\<close> is the text of an exception.\<close>

definition run_named :: "(exn \<Rightarrow> string) \<Rightarrow> string \<Rightarrow> ('s, unit) sem \<Rightarrow> 's \<Rightarrow> conformance_check \<times> 's" where
  "run_named msg name fn s = (case fn s of
      (Inr _, s') \<Rightarrow> (\<lparr>cc_name = name, cc_passed = True, cc_detail = ''ok''\<rparr>, s')
    | (Inl x, s') \<Rightarrow> (\<lparr>cc_name = name, cc_passed = False, cc_detail =
         (if x = conformance_error then msg x else ''unexpected '' @ exn_name x @ '': '' @ msg x)\<rparr>, s'))"

fun run_checks :: "(exn \<Rightarrow> string) \<Rightarrow> (string \<times> ('s, unit) sem) list \<Rightarrow> 's \<Rightarrow> conformance_check list \<times> 's" where
  "run_checks msg [] s = ([], s)"
| "run_checks msg ((name, fn) # rest) s =
     (let (c, s') = run_named msg name fn s; (cs, s'') = run_checks msg rest s' in (c # cs, s''))"

definition conformance_report_of :: "'s stateful_adapter \<Rightarrow> conformance_check list \<Rightarrow> conformance_report" where
  "conformance_report_of A cs = \<lparr>cr_adapter_id = adapter_id (sa_identity A), cr_adapter_version = adapter_version (sa_identity A),
     cr_checks = cs, cr_passed = list_all cc_passed cs\<rparr>"

definition prepared_checks :: "'s stateful_adapter \<Rightarrow> 's conformance_scenario \<Rightarrow> string \<Rightarrow> effect_manifest
    \<Rightarrow> (string \<times> ('s, unit) sem) list" where
  "prepared_checks A C forged_text m =
     [(''prepare_binds_identity'', assert_prepared A m),
      (''preconditions'', check_preconditions A C m),
      (''verify_rejects_uncommitted_forged_success'', check_verify_before_commit A forged_text m),
      (''commit_shape'', check_commit A m),
      (''compensation_honesty'', check_compensation A m),
      (''irreversible_compensation'', check_irreversible_compensation A m)]"

definition conformance_run :: "(exn \<Rightarrow> string) \<Rightarrow> string \<Rightarrow> 's stateful_adapter \<Rightarrow> 's conformance_scenario \<Rightarrow> 's
    \<Rightarrow> conformance_report \<times> 's" where
  "conformance_run msg forged_text A C s =
     (let (c0, s0) = run_named msg ''identity'' (check_identity A) s in
      case sa_prepare A s0 of
        Inl x \<Rightarrow> (conformance_report_of A [c0, \<lparr>cc_name = ''prepare_binds_identity'', cc_passed = False,
            cc_detail = ''prepare raised '' @ exn_name x @ '': '' @ msg x\<rparr>], s0)
      | Inr m \<Rightarrow> (case run_checks msg (prepared_checks A C forged_text m) s0 of
            (cs, s') \<Rightarrow> (conformance_report_of A (c0 # cs), s')))"

definition raise_if_failed :: "conformance_report \<Rightarrow> unit res" where
  "raise_if_failed r = raise_if (\<not> cr_passed r) conformance_error"

definition run_adapter_conformance :: "(exn \<Rightarrow> string) \<Rightarrow> string \<Rightarrow> 's stateful_adapter \<Rightarrow> 's conformance_scenario \<Rightarrow> bool
    \<Rightarrow> ('s, conformance_report) sem" where
  "run_adapter_conformance msg forged_text A C raise_on_fail = (\<lambda>s.
     case conformance_run msg forged_text A C s of
       (r, s') \<Rightarrow> (thenR (if raise_on_fail then raise_if_failed r else Inr ()) (Inr r), s'))"

section \<open>The contract\<close>

text \<open>\<open>usable s m\<close> says that the effect has not happened in \<open>s\<close> and can be carried out.\<close>

locale honest_adapter =
  fixes A :: "'s stateful_adapter" and usable :: "'s \<Rightarrow> effect_manifest \<Rightarrow> bool"
  assumes identity: "check_identity A s = (Inr (), s)"
    and prepared: "sa_prepare A s = Inr m \<Longrightarrow> m_adapter m = sa_identity A \<and> m_idempotency_key m \<noteq> [] \<and> m_effect_type m \<noteq> []"
    and validated: "sa_prepare A s = Inr m \<Longrightarrow>
      \<exists>r. sa_validate A s m = Inr r \<and> (pr_satisfied r \<or> (\<exists>x. pr_reason r = Some x \<and> x \<noteq> []))"
    and observed: "sa_prepare A s = Inr m \<Longrightarrow> usable s m \<Longrightarrow> \<exists>pr. sa_verify A s m c = Inr pr \<and> \<not> op_matched_expected pr"
    and commits: "sa_prepare A s = Inr m \<Longrightarrow> usable s m \<Longrightarrow> \<exists>r s''. sa_commit A m s' = (Inr r, s'') \<and> cm_idempotency_key r \<noteq> []"
    and compensates: "sa_prepare A s = Inr m \<Longrightarrow> usable s m \<Longrightarrow> \<exists>r s''. sa_compensate A m c s' = (Inr r, s'')
      \<and> (cp_succeeded r \<longrightarrow> cp_attempted r) \<and> (m_reversibility m = IRREVERSIBLE \<longrightarrow> \<not> cp_succeeded r)"
begin

lemma checks_pass:
  assumes "sa_prepare A s = Inr m" "usable s m" "\<not> cs_expect_stale_after_mutate C"
  shows "list_all cc_passed (fst (run_checks msg (prepared_checks A C forged_text m) s))"
proof -
  obtain r where r: "sa_validate A s m = Inr r" "pr_satisfied r \<or> (\<exists>x. pr_reason r = Some x \<and> x \<noteq> [])"
    using validated [OF assms(1)] by blast
  obtain pr where pr: "sa_verify A s m (forged_commit m (Some ''conformance-forged-ref'') (Some forged_text)
      (Some (''sha256:'' @ replicate 64 CHR ''0''))) = Inr pr" "\<not> op_matched_expected pr"
    using observed [OF assms(1,2)] by blast
  obtain r1 s1 where c1: "sa_commit A m s = (Inr r1, s1)" "cm_idempotency_key r1 \<noteq> []"
    using commits [OF assms(1,2)] by blast
  obtain r2 s2 where c2: "sa_commit A m s1 = (Inr r2, s2)"
    using commits [OF assms(1,2)] by blast
  obtain r3 s3 where c3: "sa_compensate A m (forged_commit m (Some ''conformance-comp-ref'') None None) s2 = (Inr r3, s3)"
    "cp_succeeded r3 \<longrightarrow> cp_attempted r3"
    using compensates [OF assms(1,2)] by blast
  obtain r4 s4 where c4: "sa_compensate A m (forged_commit m (Some ''conformance-irr-ref'') None None) s3 = (Inr r4, s4)"
    "m_reversibility m = IRREVERSIBLE \<longrightarrow> \<not> cp_succeeded r4"
    using compensates [OF assms(1,2)] by blast
  have "assert_prepared A m s = (Inr (), s)"
    using prepared [OF assms(1)] by (simp add: assert_prepared_def refuse_if_def monad_simps raise_if_def)
  moreover have "check_preconditions A C m s = (Inr (), s)"
    using assms(3) r
    by (auto simp: check_preconditions_def reading_def refuse_if_def monad_simps raise_if_def split: option.splits)
  moreover have "check_verify_before_commit A forged_text m s = (Inr (), s)"
    using pr by (simp add: check_verify_before_commit_def reading_def refuse_if_def monad_simps raise_if_def)
  moreover have "check_commit A m s = (Inr (), s2)"
    using c1 c2 by (simp add: check_commit_def refuse_if_def monad_simps raise_if_def)
  moreover have "check_compensation A m s2 = (Inr (), s3)"
    using c3 by (simp add: check_compensation_def refuse_if_def monad_simps raise_if_def)
  moreover have "\<exists>s5. check_irreversible_compensation A m s3 = (Inr (), s5)"
    using c4 by (simp add: check_irreversible_compensation_def refuse_if_def monad_simps raise_if_def)
  ultimately show ?thesis
    by (auto simp: prepared_checks_def run_named_def)
qed

lemma conforms:
  assumes "sa_prepare A s = Inr m" "usable s m" "\<not> cs_expect_stale_after_mutate C"
  shows "cr_passed (fst (conformance_run msg forged_text A C s))"
  using checks_pass [OF assms] assms(1) identity
  by (simp add: conformance_run_def run_named_def conformance_report_of_def split_beta)

end

section \<open>The reference adapters keep it\<close>

definition email_stateful :: "crypto \<Rightarrow> string list option \<Rightarrow> time \<Rightarrow> string \<Rightarrow> string \<Rightarrow> email_request \<Rightarrow> sandbox_outbox stateful_adapter" where
  "email_stateful cr allowed now u n q = \<lparr>sa_identity = email_identity,
     sa_prepare = (\<lambda>_. email_prepare cr allowed now u n q), sa_validate = (\<lambda>_ _. Inr pre_ok),
     sa_commit = email_commit now u, sa_verify = (\<lambda>box m _. email_verify box now m),
     sa_compensate = (\<lambda>_ _ box. (Inr email_compensate, box))\<rparr>"

definition email_usable :: "sandbox_outbox \<Rightarrow> effect_manifest \<Rightarrow> bool" where
  "email_usable box m \<longleftrightarrow> box (m_idempotency_key m) = None"

definition payment_stateful :: "time \<Rightarrow> string \<Rightarrow> string \<Rightarrow> payment_request \<Rightarrow> payment_simulator stateful_adapter" where
  "payment_stateful now u n q = \<lparr>sa_identity = payment_identity,
     sa_prepare = (\<lambda>s. payment_prepare s now u n q), sa_validate = payment_validate, sa_commit = payment_commit,
     sa_verify = (\<lambda>s m _. payment_verify s now m), sa_compensate = (\<lambda>m _ s. (Inr (payment_compensate s m), s))\<rparr>"

definition payment_usable :: "payment_request \<Rightarrow> payment_simulator \<Rightarrow> effect_manifest \<Rightarrow> bool" where
  "payment_usable q s m \<longleftrightarrow> get_payment s (m_idempotency_key m) = None \<and> 0 < rq_amount_minor_units q + rq_fee_minor_units q"

definition row_stateful :: "crypto \<Rightarrow> (string \<Rightarrow> parameter_value) \<Rightarrow> row_adapter \<Rightarrow> time \<Rightarrow> string \<Rightarrow> string \<Rightarrow> row_effect_request
    \<Rightarrow> row_table stateful_adapter" where
  "row_stateful cr affinity A now u now_iso q = \<lparr>sa_identity = row_identity,
     sa_prepare = (\<lambda>t. row_prepare cr A (\<lambda>_. False) t now u q), sa_validate = row_validate (\<lambda>_. False),
     sa_commit = row_commit cr affinity A (\<lambda>_. False) now_iso, sa_verify = (\<lambda>t m _. row_verify cr (\<lambda>_. False) t now m),
     sa_compensate = (\<lambda>m _. row_compensate affinity (\<lambda>_. False) m)\<rparr>"

definition fits64 :: "int \<Rightarrow> bool" where
  "fits64 i \<longleftrightarrow> - (2 ^ 63) \<le> i \<and> i < 2 ^ 63"

text \<open>The operation would change the table and its numbers fit: an update has to change the balance, for \<open>verify\<close>
  compares the balance only.\<close>

definition row_usable :: "row_adapter \<Rightarrow> row_effect_request \<Rightarrow> row_table \<Rightarrow> effect_manifest \<Rightarrow> bool" where
  "row_usable A q t m \<longleftrightarrow> 1 \<le> ra_max_affected_rows A
     \<and> (case (t (rr_row_id q), rr_new_balance q) of
          (None, Some n) \<Rightarrow> rr_operation q = ''insert'' \<and> fits64 n
        | (Some r, Some n) \<Rightarrow> fits64 (row_version r) \<and> fits64 n
            \<and> (rr_operation q = ''delete'' \<or> rr_operation q = ''update'' \<and> (\<exists>b. row_balance r = PInt b \<and> fits64 b \<and> b \<noteq> n))
        | (Some r, None) \<Rightarrow> rr_operation q = ''delete'' \<and> fits64 (row_version r)
        | (None, None) \<Rightarrow> False)"

lemma identity_checked:
  "check_identity (email_stateful cr allowed now u n q) s1 = (Inr (), s1)"
  "check_identity (payment_stateful now u n p) s2 = (Inr (), s2)"
  "check_identity (row_stateful cr affinity B now u n' w) s3 = (Inr (), s3)"
  by (simp_all add: check_identity_def email_stateful_def payment_stateful_def row_stateful_def email_identity_def
      payment_identity_def row_identity_def py_strip_def py_space_def refuse_if_def monad_simps raise_if_def Let_def)

interpretation email: honest_adapter "email_stateful cr allowed now u n q" email_usable
proof
  show "check_identity (email_stateful cr allowed now u n q) s = (Inr (), s)" for s
    by (rule identity_checked)
next
  fix s m s' c
  assume "sa_prepare (email_stateful cr allowed now u n q) s = Inr m"
  then have p: "email_prepare cr allowed now u n q = Inr m" by (simp add: email_stateful_def)
  note f = email_prepare_facts [OF p]
  show "m_adapter m = sa_identity (email_stateful cr allowed now u n q) \<and> m_idempotency_key m \<noteq> [] \<and> m_effect_type m \<noteq> []"
    using f by (simp add: email_stateful_def)
  show "\<exists>r. sa_validate (email_stateful cr allowed now u n q) s m = Inr r
      \<and> (pr_satisfied r \<or> (\<exists>x. pr_reason r = Some x \<and> x \<noteq> []))"
    by (simp add: email_stateful_def pre_ok_def)
  show "\<exists>pr. sa_verify (email_stateful cr allowed now u n q) s m c = Inr pr \<and> \<not> op_matched_expected pr"
    if "email_usable s m"
    using that by (simp add: email_stateful_def email_usable_def email_verify_def)
  show "\<exists>r s''. sa_commit (email_stateful cr allowed now u n q) m s' = (Inr r, s'') \<and> cm_idempotency_key r \<noteq> []"
    using f(2,5) by (auto simp: email_stateful_def email_commit_def outbox_deliver_def split: option.splits)
  show "\<exists>r s''. sa_compensate (email_stateful cr allowed now u n q) m c s' = (Inr r, s'')
      \<and> (cp_succeeded r \<longrightarrow> cp_attempted r) \<and> (m_reversibility m = IRREVERSIBLE \<longrightarrow> \<not> cp_succeeded r)"
    by (simp add: email_stateful_def email_compensate_def not_attempted_def)
qed

lemma payment_commit_returns:
  assumes "payment_args m = Inr (source, ben, amount, cur, fee, ref)" "0 < amount + fee"
  shows "\<exists>r s'. payment_commit m s = (Inr r, s') \<and> cm_idempotency_key r = m_idempotency_key m"
proof -
  obtain y s' where e: "submit_payment (m_idempotency_key m) source ben amount cur fee ref s = (y, s')"
    by fastforce
  have "(\<exists>p. y = Inr p) \<or> y = Inl timeout_error"
    using e assms(2)
    by (auto simp: submit_payment_def Let_def get_balance_def split: option.splits if_splits)
  then show ?thesis
    using e assms(1) by (auto simp: payment_commit_def bindE_def liftR_def split: payment_status.splits)
qed

interpretation payment: honest_adapter "payment_stateful now u n q" "payment_usable q"
proof
  show "check_identity (payment_stateful now u n q) s = (Inr (), s)" for s
    by (rule identity_checked)
next
  fix s m s' c
  assume "sa_prepare (payment_stateful now u n q) s = Inr m"
  then have p: "payment_prepare s now u n q = Inr m" by (simp add: payment_stateful_def)
  note f = payment_prepared_fields [OF p] and a = payment_args_prepared [OF p]
  show "m_adapter m = sa_identity (payment_stateful now u n q) \<and> m_idempotency_key m \<noteq> [] \<and> m_effect_type m \<noteq> []"
    using f by (simp add: payment_stateful_def or_else_def)
  show "\<exists>r. sa_validate (payment_stateful now u n q) s m = Inr r
      \<and> (pr_satisfied r \<or> (\<exists>x. pr_reason r = Some x \<and> x \<noteq> []))"
    using f payment_argsD [OF a]
    by (simp add: payment_stateful_def payment_validate_def removeprefix_def balance_fingerprint_def starts_with_def
        pre_ok_def pre_failed_def)
  show "\<exists>pr. sa_verify (payment_stateful now u n q) s m c = Inr pr \<and> \<not> op_matched_expected pr"
    if "payment_usable q s m"
    using that by (simp add: payment_stateful_def payment_usable_def payment_verify_def)
  show "\<exists>r s''. sa_commit (payment_stateful now u n q) m s' = (Inr r, s'') \<and> cm_idempotency_key r \<noteq> []"
    if "payment_usable q s m"
    using payment_commit_returns [OF a, of s'] that f by (auto simp: payment_stateful_def payment_usable_def or_else_def)
  show "\<exists>r s''. sa_compensate (payment_stateful now u n q) m c s' = (Inr r, s'')
      \<and> (cp_succeeded r \<longrightarrow> cp_attempted r) \<and> (m_reversibility m = IRREVERSIBLE \<longrightarrow> \<not> cp_succeeded r)"
    by (auto simp: payment_stateful_def payment_compensate_def split: option.splits)
qed

lemma row_usable_facts:
  assumes "row_prepare cr A (\<lambda>_. False) t now u q = Inr m" "row_usable A q t m"
  shows "1 \<le> ra_max_affected_rows A" "expected_version m = Inr v \<Longrightarrow> fits64 v"
    "rr_operation q \<in> {''insert'', ''update'', ''delete''}"
    "rr_operation q \<noteq> ''delete'' \<Longrightarrow> \<exists>n. rr_new_balance q = Some n \<and> fits64 n"
    "rr_operation q = ''update'' \<Longrightarrow> \<exists>b. map_of (m_parameters m) ''previous_balance'' = Some (PInt b) \<and> fits64 b"
  using assms(2) row_prepare_facts(3,5) [OF assms(1)]
  by (auto simp: row_usable_def fits64_def split: option.splits)

lemma row_commit_returns:
  assumes "row_prepare cr A (\<lambda>_. False) t now u q = Inr m" "row_usable A q t m"
  shows "\<exists>r s'. row_commit cr affinity A (\<lambda>_. False) now_iso m s = (Inr r, s') \<and> cm_idempotency_key r = m_idempotency_key m"
proof -
  note p = row_prepare_facts [OF assms(1)] and u = row_usable_facts [OF assms]
  obtain v where v: "expected_version m = Inr v" "fits64 v"
    using p(3) u(2) by blast
  obtain step where "row_statement affinity now_iso (rr_row_id q) v m s = Inr step"
    "\<forall>s' k. step = Some (s', k) \<longrightarrow> k \<le> 1"
  proof (cases "rr_operation q = ''delete''")
    case True
    then show ?thesis
      using that p(1) v(2) by (force simp: row_statement_def bind_value_def fits64_def split: option.splits)
  next
    case False
    then obtain n where n: "int_of_param m ''new_balance'' = Inr n" "fits64 n"
      using u(4) p(4) by blast
    then show ?thesis
      using that p(1) v(2) u(3) False
      by (force simp: row_statement_def bind_value_def fits64_def split: option.splits)
  qed
  then show ?thesis
    using p(1-3) v(1) u(1) by (auto simp: row_commit_def commit_refused_def split: option.splits)
qed

interpretation row: honest_adapter "row_stateful cr affinity A now u now_iso q" "row_usable A q"
proof
  show "check_identity (row_stateful cr affinity A now u now_iso q) s = (Inr (), s)" for s
    by (rule identity_checked)
next
  fix s m s' c
  assume "sa_prepare (row_stateful cr affinity A now u now_iso q) s = Inr m"
  then have p: "row_prepare cr A (\<lambda>_. False) s now u q = Inr m" by (simp add: row_stateful_def)
  note f = row_prepare_facts [OF p]
  show "m_adapter m = sa_identity (row_stateful cr affinity A now u now_iso q) \<and> m_idempotency_key m \<noteq> [] \<and> m_effect_type m \<noteq> []"
    using f(6-8) by (simp add: row_stateful_def)
  show "\<exists>r. sa_validate (row_stateful cr affinity A now u now_iso q) s m = Inr r
      \<and> (pr_satisfied r \<or> (\<exists>x. pr_reason r = Some x \<and> x \<noteq> []))"
    using f(1-3) by (auto simp: row_stateful_def row_validate_def pre_ok_def pre_failed_def split: option.splits)
  assume us: "row_usable A q s m"
  note h = row_usable_facts [OF p us]
  show "\<exists>pr. sa_verify (row_stateful cr affinity A now u now_iso q) s m c = Inr pr \<and> \<not> op_matched_expected pr"
    using f(1,2,4) us
    by (auto simp: row_stateful_def row_verify_def row_usable_def row_fetch_def int_of_value_def Let_def split: option.splits)
  show "\<exists>r s''. sa_commit (row_stateful cr affinity A now u now_iso q) m s' = (Inr r, s'') \<and> cm_idempotency_key r \<noteq> []"
    using row_commit_returns [OF p us, of affinity now_iso s'] f(7) by (auto simp: row_stateful_def)
  show "\<exists>r s''. sa_compensate (row_stateful cr affinity A now u now_iso q) m c s' = (Inr r, s'')
      \<and> (cp_succeeded r \<longrightarrow> cp_attempted r) \<and> (m_reversibility m = IRREVERSIBLE \<longrightarrow> \<not> cp_succeeded r)"
    using f(1,2,9) h(3,5)
    by (auto simp: row_stateful_def row_compensate_def attempted_def not_attempted_def bind_value_def fits64_def
        split: option.splits)
qed

section \<open>What passing means\<close>

lemma run_named_passed: "cc_passed (fst (run_named msg name fn s)) \<longleftrightarrow> fst (fn s) = Inr ()"
  by (auto simp: run_named_def split: prod.splits sum.splits)

lemma snd_run_named: "snd (run_named msg name fn s) = snd (fn s)"
  by (auto simp: run_named_def split: prod.splits sum.splits)

lemma run_checks_passed:
  "list_all cc_passed (fst (run_checks msg [] s))"
  "list_all cc_passed (fst (run_checks msg ((name, fn) # rest) s)) \<longleftrightarrow>
     fst (fn s) = Inr () \<and> list_all cc_passed (fst (run_checks msg rest (snd (fn s))))"
  by (simp_all add: split_beta run_named_passed snd_run_named)

lemma refuse_if_run: "refuse_if c s = (if c then Inl conformance_error else Inr (), s)"
  by (simp add: refuse_if_def liftR_def raise_if_def)

lemma assert_prepared_passed:
  "fst (assert_prepared A m s) = Inr () \<longleftrightarrow> m_adapter m = sa_identity A \<and> m_idempotency_key m \<noteq> [] \<and> m_effect_type m \<noteq> []"
  "snd (assert_prepared A m s) = s"
  by (auto simp: assert_prepared_def refuse_if_run thenE_def bindE_def)

lemma check_preconditions_passed:
  assumes "fst (check_preconditions A C m s) = Inr ()" "s1 = snd (check_preconditions A C m s)"
  shows "if cs_expect_stale_after_mutate C
     then \<exists>mutate st. cs_mutate_external_state C = Some mutate \<and> mutate s = (Inr (), s1)
        \<and> sa_validate A s1 m = Inr st \<and> \<not> pr_satisfied st
     else s1 = s"
  using assms
  by (auto simp: check_preconditions_def refuse_if_run thenE_def bindE_def reading_def ret_def raiseE_def
      split: sum.splits if_splits option.splits prod.splits)

lemma check_verify_before_commit_passed:
  assumes "fst (check_verify_before_commit A forged_text m s) = Inr ()"
  shows "\<exists>pr. sa_verify A s m (forged_commit m (Some ''conformance-forged-ref'') (Some forged_text)
        (Some (''sha256:'' @ replicate 64 CHR ''0''))) = Inr pr \<and> \<not> op_matched_expected pr"
    "snd (check_verify_before_commit A forged_text m s) = s"
  using assms
  by (auto simp: check_verify_before_commit_def refuse_if_run bindE_def reading_def split: sum.splits if_splits)

lemma check_commit_passed:
  assumes "fst (check_commit A m s) = Inr ()"
  shows "\<exists>r r' s2. sa_commit A m s = (Inr r, s2) \<and> cm_idempotency_key r \<noteq> []
     \<and> sa_commit A m s2 = (Inr r', snd (check_commit A m s))"
  using assms
  by (auto simp: check_commit_def refuse_if_run thenE_def bindE_def ret_def split: sum.splits if_splits prod.splits)

lemma check_compensation_passed:
  assumes "fst (check_compensation A m s) = Inr ()"
  shows "\<exists>k s'. sa_compensate A m (forged_commit m (Some ''conformance-comp-ref'') None None) s = (Inr k, s')
     \<and> (cp_succeeded k \<longrightarrow> cp_attempted k)"
  using assms
  by (auto simp: check_compensation_def refuse_if_run bindE_def split: sum.splits if_splits prod.splits)

text \<open>A report that passes is evidence: the adapter prepared a manifest that binds its own identity; where the
  scenario changes the outside world, the preconditions noticed; the state before the commit did not verify on
  the word of a forged result; the commit and its replay returned; and the compensation made no false claim.\<close>

theorem conformance_sound:
  assumes "fst (run_adapter_conformance msg forged_text A C True s) = Inr report"
  shows "\<exists>m s1 s2 s3 s4 pr r r' k. sa_prepare A s = Inr m \<and> m_adapter m = sa_identity A \<and> m_idempotency_key m \<noteq> []
    \<and> (if cs_expect_stale_after_mutate C
       then \<exists>mutate st. cs_mutate_external_state C = Some mutate \<and> mutate s = (Inr (), s1)
          \<and> sa_validate A s1 m = Inr st \<and> \<not> pr_satisfied st
       else s1 = s)
    \<and> sa_verify A s1 m (forged_commit m (Some ''conformance-forged-ref'') (Some forged_text)
        (Some (''sha256:'' @ replicate 64 CHR ''0''))) = Inr pr \<and> \<not> op_matched_expected pr
    \<and> sa_commit A m s1 = (Inr r, s2) \<and> cm_idempotency_key r \<noteq> [] \<and> sa_commit A m s2 = (Inr r', s3)
    \<and> sa_compensate A m (forged_commit m (Some ''conformance-comp-ref'') None None) s3 = (Inr k, s4)
    \<and> (cp_succeeded k \<longrightarrow> cp_attempted k)"
proof -
  have i: "snd (check_identity A s) = s"
    by (simp add: check_identity_def refuse_if_run thenE_def bindE_def Let_def)
  obtain m where m: "sa_prepare A s = Inr m" "list_all cc_passed (fst (run_checks msg (prepared_checks A C forged_text m) s))"
    using assms
    by (auto simp: run_adapter_conformance_def conformance_run_def raise_if_failed_def conformance_report_of_def
        snd_run_named i split_beta thenR_Inr_iff is_ok_unit raise_if_Inr_iff split: sum.splits)
  let ?s1 = "snd (check_preconditions A C m s)"
  let ?s3 = "snd (check_commit A m ?s1)"
  have c: "fst (assert_prepared A m s) = Inr ()" "fst (check_preconditions A C m s) = Inr ()"
    "fst (check_verify_before_commit A forged_text m ?s1) = Inr ()"
    "fst (check_commit A m (snd (check_verify_before_commit A forged_text m ?s1))) = Inr ()"
    "fst (check_compensation A m (snd (check_commit A m (snd (check_verify_before_commit A forged_text m ?s1))))) = Inr ()"
    using m(2) unfolding prepared_checks_def run_checks_passed assert_prepared_passed(2) by blast+
  note v = check_verify_before_commit_passed [OF c(3)]
  obtain pr where pr: "sa_verify A ?s1 m (forged_commit m (Some ''conformance-forged-ref'') (Some forged_text)
        (Some (''sha256:'' @ replicate 64 CHR ''0''))) = Inr pr" "\<not> op_matched_expected pr"
    using v(1) by blast
  obtain r r' s2 where r: "sa_commit A m ?s1 = (Inr r, s2)" "cm_idempotency_key r \<noteq> []" "sa_commit A m s2 = (Inr r', ?s3)"
    using check_commit_passed [OF c(4)] unfolding v(2) by blast
  obtain k s4 where k: "sa_compensate A m (forged_commit m (Some ''conformance-comp-ref'') None None) ?s3 = (Inr k, s4)"
    "cp_succeeded k \<longrightarrow> cp_attempted k"
    using check_compensation_passed [OF c(5)] unfolding v(2) by blast
  show ?thesis
    using m(1) c(1) [unfolded assert_prepared_passed(1)] check_preconditions_passed [OF c(2) refl] pr r k by blast
qed


definition no_mutation :: "'s conformance_scenario" where
  "no_mutation = \<lparr>cs_expect_stale_after_mutate = False, cs_mutate_external_state = None\<rparr>"

definition toy_email_request :: email_request where
  "toy_email_request = \<lparr>eq_actor = toy_principal ''agent-1'' AGENT, eq_principal = toy_principal ''alice'' HUMAN,
     eq_recipients = [''a@x''], eq_subject = ''hello'', eq_body = ''text'', eq_attachments = [''file''],
     eq_idempotency_key = [], eq_ttl_seconds = 300\<rparr>"

lemma toy_prepared:
  "\<exists>m. email_prepare toy_crypto (Some [''a@x'', ''b@y'']) 1000 ''m-1'' ''n-1'' toy_email_request = Inr m"
  "\<exists>m. payment_prepare demo_simulator 1000 ''m-1'' ''n-1'' demo_request = Inr m"
  "\<exists>m. row_prepare toy_crypto toy_row_adapter (\<lambda>_. False) toy_table 1000 ''m-1'' toy_row_request = Inr m"
proof -
  have d: "length (digest_bytes (cr_sha256 toy_crypto) x) = 71" for x
    using toy_crypto_ok by (simp add: digest_bytes_def crypto_ok_def)
  note checks = Let_def manifest_validate_def toy_manifest_checks id_length_check_def target_resource_validate_def
    parameters_validate_def metadata_validate_def default_manifest_limits_def default_metadata_limits_def raise_if_def
    thenR_def or_else_def second_def
  show "\<exists>m. email_prepare toy_crypto (Some [''a@x'', ''b@y'']) 1000 ''m-1'' ''n-1'' toy_email_request = Inr m"
    by (simp add: email_prepare_def toy_email_request_def join_def d checks nat_str.simps digit_char_def)
  show "\<exists>m. payment_prepare demo_simulator 1000 ''m-1'' ''n-1'' demo_request = Inr m"
    using demo_prepared by blast
  show "\<exists>m. row_prepare toy_crypto toy_row_adapter (\<lambda>_. False) toy_table 1000 ''m-1'' toy_row_request = Inr m"
    using toy_row_prepared by blast
qed


end
