(* ===== verification/Spec2Isabelle.thy ===== *)
theory Spec2Isabelle
  imports EngineEvidence RefundRestart Portable Protection Conformance
begin

text \<open>
  A verification library for the KarmaSakshi protocol (\<^verbatim>\<open>src/src/karmasakshi/\<close>, below just the path
  under it): the runtime that binds an approval to one exact effect of an agent, checks it again when
  the effect is committed, performs it at most once, and keeps evidence of what happened.

  \<^bold>\<open>The program.\<close>  An effect is described by a manifest, hashed in a canonical form and sealed with an
  Ed25519 key.  An authorization is a signed grant for one manifest hash, perhaps delegated from another
  grant, bound to a policy bundle, a decision envelope, a causal plan or an authority budget, and perhaps
  preceded by a quorum of approvals and a separation-of-duty check.  The engine moves a manifest along a
  lifecycle, asks the grant store for a reservation, calls an adapter that acts on the outside world,
  records the outcome, and writes every decision to a hash-chained journal.  Stores, journals, outbox and
  lifecycle states have several backends.  After the effect, verification, witnesses, evidence records,
  compensation and sagas follow.

  \<^bold>\<open>Style of the model.\<close>  Every definition translates the source it names.  A function that may raise
  returns \<open>exn + 'a\<close>, with the exception classes of \<^verbatim>\<open>errors/__init__.py\<close> as datatypes; a handler with
  state is a function of the state-and-exception monad of \<open>Prelude\<close> (the state survives an exception, as
  it does in Python).  Strings are lists of characters, Python integers are \<open>int\<close>, times are microseconds,
  dictionaries are maps or association lists where the order shows, and JSON is a datatype with its own
  printer.  Which call of a clock, a random generator, a journal, a database or a server fails, and when,
  is a function of a counter that each call advances, so the theorems hold for every pattern of failures.

  \<^bold>\<open>The theories\<close>, in dependency order, with the code they model:

  \<^item> \<open>Prelude\<close>: exceptions (\<^verbatim>\<open>errors/__init__.py\<close>), results, the monad with its Hoare triples and the
    relation-keeping calculus \<open>keeps\<close>, decimal numerals, lists and maps; collections \<open>result_simps\<close>,
    \<open>monad_simps\<close> and others that the proofs use.
  \<^item> \<open>Lifecycle\<close>: states, the transition table, records and the bounded model checker (\<^verbatim>\<open>state_machine/\<close>).
    Legal paths never revisit a state; the checker terminates and passes.
  \<^item> \<open>GrantStores\<close>: an abstract grant store, the locale \<open>grant_store\<close> of what a backend owes it, and the
    in-memory, SQLite and Redis backends (\<^verbatim>\<open>stores/\<close>) with their interpretations, faults and Lua scripts.
  \<^item> \<open>Canonical\<close>: canonical JSON (\<^verbatim>\<open>canonical/serialize.py\<close>), whose text determines the value.
  \<^item> \<open>Domain\<close>, \<open>Sealing\<close>, \<open>Grants\<close>, \<open>Delegation\<close>: settings, versions, value objects and the manifest
    (\<^verbatim>\<open>config/\<close>, \<^verbatim>\<open>protocol/\<close>, \<^verbatim>\<open>domain/\<close>), keys, keyring and seals (\<^verbatim>\<open>crypto/\<close>), grants (\<^verbatim>\<open>grants/\<close>),
    attenuation, chains and the walk over ancestors (\<^verbatim>\<open>delegation/\<close>).
  \<^item> \<open>LifecycleStores\<close>, \<open>Outbox\<close>, \<open>Budget\<close>: compare-and-set of states in two backends
    (\<^verbatim>\<open>stores/lifecycle*.py\<close>), the transactional outbox in two backends (\<^verbatim>\<open>outbox/\<close>), authority budgets
    (\<^verbatim>\<open>budget/\<close>).
  \<^item> \<open>AuditJournal\<close>: events, the hash chain, the journal over any backend, tamper evidence, and a SQLite
    journal shared by processes whose reads are stale (\<^verbatim>\<open>audit/\<close>).
  \<^item> \<open>Causal\<close>, \<open>Saga\<close>: causal graphs with Kahn's algorithm (\<^verbatim>\<open>causal/\<close>), saga order, plans and runs
    (\<^verbatim>\<open>saga/\<close>).
  \<^item> \<open>Policy\<close>, \<open>Tenant\<close>, \<open>Approval\<close>, \<open>Duty\<close>, \<open>Envelope\<close>: signed policy bundles (\<^verbatim>\<open>policy/\<close>), organization
    identifiers and the tenant registry (\<^verbatim>\<open>tenant/\<close>), approval quorums (\<^verbatim>\<open>approval/\<close>), separation of duties
    (\<^verbatim>\<open>duty/\<close>), decision envelopes (\<^verbatim>\<open>envelope/\<close>).
  \<^item> \<open>Adapters\<close>, \<open>Compensation\<close>: the adapter interface as a record of functions, the trust registry
    (\<^verbatim>\<open>adapters/base.py\<close>, \<^verbatim>\<open>adapters/registry.py\<close>), compensation manifests (\<^verbatim>\<open>compensation/\<close>).
  \<^item> \<open>Witness\<close>, \<open>Intelligence\<close>: witness quorums and evidence quality (\<^verbatim>\<open>witness/\<close>, \<^verbatim>\<open>evidence/\<close>), the risk
    assessment (\<^verbatim>\<open>intelligence/\<close>).
  \<^item> \<open>EngineState\<close>, \<open>EngineAuthorize\<close>, \<open>EngineCommit\<close>, \<open>EngineProve\<close>, \<open>EngineSaga\<close>: the engine
    (\<^verbatim>\<open>engine/core.py\<close>, \<^verbatim>\<open>engine/context.py\<close>): its state, and every public method with its guards, audit
    records and error paths in the order of the source; \<open>commit\<close> is split into the phases of the method.
  \<^item> \<open>EngineFrame\<close>: the locales \<open>audit_frame\<close>, \<open>quiet_frame\<close>, \<open>engine_frame\<close>, \<open>commit_frame\<close>, \<open>call_frame\<close>
    and others: a relation between states that the primitive calls keep is kept by every handler; and
    \<open>engine_call\<close>, \<open>engine_run\<close>, any history of calls of the public methods.
  \<^item> \<open>EngineSafety\<close>, \<open>EngineOnce\<close>, \<open>EngineUses\<close>, \<open>EngineLive\<close>: interpretations of these locales for
    lifecycle, journal and effects (complete mediation of commits); at most one call of the adapter per
    manifest; the bound on the uses of a grant and the finality of a revocation, for every store of the
    locale \<open>engine_store\<close>; and that a commit whose checks hold goes through when nothing fails.
  \<^item> \<open>EngineBackends\<close>, \<open>EngineEvidence\<close>: the interpretation of \<open>engine_store\<close> for the three grant stores,
    the properties over them and a concrete engine; soundness of accepted testimony and evidence.
  \<^item> \<open>PyText\<close>: the methods of Python's texts and the reading of integers and parameters that the following
    theories share.
  \<^item> \<open>Payment\<close>: the reference payment provider and its adapter (\<^verbatim>\<open>adapters/payment_simulator.py\<close>), a partner that
    may fail or time out after it has acted; money is conserved and verification tells what happened.
  \<^item> \<open>GatewayStore\<close>: the database of the product built on the engine, statement by statement with driver
    faults (\<^verbatim>\<open>gateway/models.py\<close>, \<^verbatim>\<open>gateway/migrations.py\<close>, \<^verbatim>\<open>gateway/store.py\<close>): its rows stay well formed,
    organizations are isolated, migrations apply once and in order, passwords authenticate exactly.
  \<^item> \<open>Gateway\<close>: sessions, request bodies, the checks a request passes, the per-tenant control plane, the
    organization routes and the start of the service (\<^verbatim>\<open>gateway/sessions.py\<close>, \<^verbatim>\<open>gateway/schemas.py\<close>,
    \<^verbatim>\<open>gateway/api.py\<close>, \<^verbatim>\<open>tenant/control_plane.py\<close>, \<^verbatim>\<open>api/auth.py\<close>).
  \<^item> \<open>Refunds\<close>: the refund journey (\<^verbatim>\<open>gateway/refunds.py\<close>, \<^verbatim>\<open>gateway/refund_state.py\<close> and the dictionaries
    of \<^verbatim>\<open>api/state.py\<close>): propose, assess, approve, deny, commit, verify, recover and compensate a refund
    by calls of the engine, each with the row it writes to the database.
  \<^item> \<open>RefundSafety\<close>, \<open>RefundRestart\<close>: over any history of refund calls, no money moves for a refund that a
    quorum of distinct approvers did not approve; a denied refund stays denied; and rebuilding the
    dictionaries from the database after any history gives the dictionaries that were in memory.
  \<^item> \<open>ReferenceAdapters\<close>, \<open>Conformance\<close>: the row adapter over a SQLite table (\<^verbatim>\<open>adapters/sqlite_db.py\<close>) and the
    e-mail adapter (\<^verbatim>\<open>adapters/email_sandbox.py\<close>), with optimistic concurrency and one message per key; the
    conformance kit (\<^verbatim>\<open>adapters/conformance.py\<close>), which passes every adapter that keeps the contract of
    the locale \<open>honest_adapter\<close>, interpreted on the three reference adapters, and what a passing report means.
  \<^item> \<open>Passports\<close>, \<open>Portable\<close>: action passports in both formats (\<^verbatim>\<open>passports/\<close>) and portable evidence packs
    (\<^verbatim>\<open>portable/\<close>): a passport claims no more than its artifacts show, the offline verdict on a pack is the
    online one, and a verified pack cannot be altered under its hash.
  \<^item> \<open>Protection\<close>: request ceilings, rate limiter and middleware (\<^verbatim>\<open>protection/\<close>): how much a history of requests
    lets through, and when it refuses.

  \<^bold>\<open>Locales.\<close>  \<open>grant_store\<close>, the contracts of \<open>LifecycleStores\<close>, \<open>Outbox\<close> and \<open>AuditJournal\<close>, the frames,
  \<open>engine_store\<close> and \<open>honest_adapter\<close> state what one part relies on of another; each is interpreted on the model of the code
  that provides it, and the properties at the top level rest on these interpretations.

  \<^bold>\<open>Parameters and hypotheses.\<close>  The record \<open>crypto\<close> holds SHA-256, Ed25519, base64 and the text of a
  time; \<open>crypto_ok\<close> states that signatures verify, that hashes have their length and that times print
  injectively, and where a theorem needs it, its conclusion has the exception ``unless SHA-256 collides''.
  \<open>text_ops\<close> holds regular-expression search and the text of floats.  Adapters are arbitrary functions
  in the engine.  PBKDF2, fresh tokens and salts are fields of \<open>gateway_env\<close>, and building the runtime of an
  organization below a directory is the field \<open>gc_build\<close> of the gateway's context.
  \<open>toy_crypto\<close> and \<open>toy_engine\<close> are concrete instances on which the hypotheses hold.

  \<^bold>\<open>Bounds and fuel.\<close>  Loops whose end is not structural carry fuel or a measure: the walk over ancestors
  and the delegation chain are bounded by the source's own depth limit; Kahn's algorithm and the
  lifecycle checker recurse on what is left of a finite graph.  Nothing else needs fuel.

  \<^bold>\<open>Not modelled.\<close>  HTTP, HTML, terminal and network code (\<^verbatim>\<open>api/\<close> apart from the parts above, \<^verbatim>\<open>web/\<close>, \<^verbatim>\<open>cli/\<close>,
  \<^verbatim>\<open>sdk/\<close>, \<^verbatim>\<open>integrations/\<close>), observability sinks and the acceptance script, which are input and output around the
  engine; the read model of the refunds (lists, details, the passport and the evidence pack shown to a
  user, the search of the journal), which changes nothing; the rendering of passports as text; the Redis
  backend of the journal, and the opening of connections and directories.  Message texts of exceptions are
  left out; where a text reaches a record it is a parameter.
\<close>

end
